(* ===== verification/Tether_Prelude.thy ===== *)
theory Tether_Prelude
  imports Main "HOL-Library.Word"
begin

text \<open>
  The shared vocabulary of the development.

  A C string is a \<^typ>\<open>string\<close> without its terminating NUL; a pointer the code tests against
  NULL is an option. The functions of the C library that the plugin uses on strings
  (\<open>strncmp\<close>, \<open>strstr\<close>, \<open>strchr\<close>, \<open>strncpy\<close> into a zeroed buffer, \<open>isspace\<close>, \<open>toupper\<close>,
  \<open>printf\<close> of \<open>%d\<close>) are here, as are the three loops over a dynamic array that every module of
  the plugin writes again: find the first element with a key, change it in place, erase it.
\<close>

section \<open>Types and collections of facts\<close>

type_synonym u8 = "8 word"
type_synonym u32 = "32 word"
type_synonym u64 = "64 word"

named_theorems cstr_simps \<open>rewriting of the C string functions\<close>
named_theorems first_match \<open>first-match loops over a dynamic array\<close>

section \<open>C strings\<close>

text \<open>\<open>*p\<close>: the character a pointer is at, NUL at the end of the string.\<close>

definition NUL :: char where
  "NUL = CHR 0x00"

fun cur :: "string \<Rightarrow> char" where
  "cur [] = NUL"
| "cur (c # _) = c"

text \<open>\<open>strncmp (s, p, strlen (p)) == 0\<close>.\<close>

fun starts_with :: "string \<Rightarrow> string \<Rightarrow> bool" where
  "starts_with [] s = True"
| "starts_with (c # p) [] = False"
| "starts_with (c # p) (d # s) = (c = d \<and> starts_with p s)"

lemma starts_with_iff: "starts_with p s \<longleftrightarrow> (\<exists>r. s = p @ r)"
  by (induction p s rule: starts_with.induct) auto

lemma starts_with_append [simp]: "starts_with p (p @ r)"
  by (auto simp: starts_with_iff)

lemma starts_with_append_same [simp]: "starts_with (p @ q) (p @ r) = starts_with q r"
  by (induction p) auto

lemma starts_with_drop: "starts_with p s \<Longrightarrow> p @ drop (length p) s = s"
  by (auto simp: starts_with_iff)

text \<open>
  \<open>strstr (hay, needle)\<close>: the suffix of \<open>hay\<close> that starts at the first occurrence.
\<close>

fun strstr :: "string \<Rightarrow> string \<Rightarrow> string option" where
  "strstr [] needle = (if needle = [] then Some [] else None)"
| "strstr (c # s) needle = (if starts_with needle (c # s) then Some (c # s) else strstr s needle)"

lemma strstr_here: "starts_with needle hay \<Longrightarrow> strstr hay needle = Some hay"
  by (cases hay; cases needle) auto

lemma strstr_Some_starts: "strstr hay needle = Some s \<Longrightarrow> starts_with needle s"
  by (induction hay) (auto split: if_splits)

lemma strstr_Some_suffix: "strstr hay needle = Some s \<Longrightarrow> \<exists>pre. hay = pre @ s"
  by (induction hay) (auto split: if_splits intro: exI [of _ "_ # _"])

lemma strstr_length: "strstr hay needle = Some s \<Longrightarrow> length s \<le> length hay"
  by (auto dest: strstr_Some_suffix)

text \<open>\<open>strchr (s, c)\<close> for a character other than NUL.\<close>

fun strchr :: "string \<Rightarrow> char \<Rightarrow> string option" where
  "strchr [] c = None"
| "strchr (d # s) c = (if d = c then Some (d # s) else strchr s c)"

lemma strchr_None_iff [simp]: "strchr s c = None \<longleftrightarrow> c \<notin> set s"
  by (induction s) auto

lemma strchr_Some: "strchr s c = Some e \<Longrightarrow> s = takeWhile (\<lambda>d. d \<noteq> c) s @ e \<and> (\<exists>r. e = c # r)"
  by (induction s) (auto split: if_splits)

lemma strchr_append [simp]: "c \<notin> set s \<Longrightarrow> strchr (s @ c # r) c = Some (c # r)"
  by (induction s) auto

text \<open>
  The bytes between a pointer and a later one, \<open>dup_span (p, e - p)\<close>, where \<open>e\<close> is a suffix
  of \<open>p\<close>.
\<close>

definition dup_span :: "string \<Rightarrow> nat \<Rightarrow> string" where
  "dup_span p n = take n p"

definition ptr_diff :: "string \<Rightarrow> string \<Rightarrow> nat" where
  "ptr_diff e p = length p - length e"

lemma span_to_char [cstr_simps]:
  "strchr p c = Some e \<Longrightarrow> dup_span p (ptr_diff e p) = takeWhile (\<lambda>d. d \<noteq> c) p"
proof -
  assume "strchr p c = Some e"
  then have p: "p = takeWhile (\<lambda>d. d \<noteq> c) p @ e" by (auto dest: strchr_Some)
  define t where "t = takeWhile (\<lambda>d. d \<noteq> c) p"
  have "p = t @ e" using p by (simp add: t_def)
  then have "dup_span p (ptr_diff e p) = t" by (simp add: dup_span_def ptr_diff_def)
  then show ?thesis by (simp add: t_def)
qed

text \<open>
  \<open>strncpy (buf, s, sizeof (buf) - 1)\<close> into a zeroed \<open>char buf[n]\<close>: what the buffer then reads
  as a string.
\<close>

definition strncpy_buf :: "nat \<Rightarrow> string \<Rightarrow> string" where
  "strncpy_buf n s = take (n - 1) s"

lemma length_strncpy_buf [simp]: "0 < n \<Longrightarrow> length (strncpy_buf n s) < n"
  by (auto simp: strncpy_buf_def)

lemma strncpy_buf_fits [cstr_simps]: "length s < n \<Longrightarrow> strncpy_buf n s = s"
  by (simp add: strncpy_buf_def)

lemma strncpy_buf_idem [simp]: "strncpy_buf n (strncpy_buf n s) = strncpy_buf n s"
  by (simp add: strncpy_buf_def)

text \<open>\<open>value && *value\<close>: a string that is neither NULL nor empty.\<close>

definition nonempty_str :: "string option \<Rightarrow> bool" where
  "nonempty_str s \<longleftrightarrow> (case s of None \<Rightarrow> False | Some t \<Rightarrow> t \<noteq> [])"

lemma nonempty_str_simps [simp]:
  "\<not> nonempty_str None" "nonempty_str (Some t) \<longleftrightarrow> t \<noteq> []"
  by (simp_all add: nonempty_str_def)

text \<open>\<open>isspace\<close> and \<open>toupper\<close> in the C locale.\<close>

definition isspace :: "char \<Rightarrow> bool" where
  "isspace c \<longleftrightarrow> (let n = of_char c :: nat in n = 32 \<or> (9 \<le> n \<and> n \<le> 13))"

definition toupper :: "char \<Rightarrow> char" where
  "toupper c = (let n = of_char c :: nat in if 97 \<le> n \<and> n \<le> 122 then char_of (n - 32) else c)"

section \<open>Decimal output\<close>

fun show_nat :: "nat \<Rightarrow> string" where
  "show_nat n = (if n < 10 then [char_of (48 + n)] else show_nat (n div 10) @ [char_of (48 + n mod 10)])"

declare show_nat.simps [simp del]

text \<open>\<open>printf\<close> of \<open>%d\<close>.\<close>

definition show_int :: "int \<Rightarrow> string" where
  "show_int i = (if i < 0 then CHR ''-'' # show_nat (nat (- i)) else show_nat (nat i))"

definition read_digits :: "string \<Rightarrow> nat" where
  "read_digits s = foldl (\<lambda>a c. 10 * a + (of_char c - 48)) 0 s"

lemma of_char_digit: "(n :: nat) < 10 \<Longrightarrow> of_char (char_of (48 + n) :: char) = 48 + n"
  by simp

lemma read_show_nat [simp]: "read_digits (show_nat n) = n"
proof (induction n rule: show_nat.induct)
  case (1 n)
  show ?case
  proof (cases "n < 10")
    case True
    then show ?thesis by (simp add: show_nat.simps [of n] read_digits_def)
  next
    case False
    then have "read_digits (show_nat n) = 10 * read_digits (show_nat (n div 10)) + n mod 10"
      by (subst show_nat.simps) (simp add: read_digits_def)
    with "1.IH" False show ?thesis by simp
  qed
qed

lemma show_nat_inject [simp]: "show_nat m = show_nat n \<longleftrightarrow> m = n"
  by (metis read_show_nat)

lemma show_nat_digits: "set (show_nat n) \<subseteq> {c. 48 \<le> (of_char c :: nat) \<and> (of_char c :: nat) \<le> 57}"
proof (induction n rule: show_nat.induct)
  case (1 n)
  have m: "n mod 10 < 10" by simp
  show ?case
  proof (cases "n < 10")
    case True
    then show ?thesis by (subst show_nat.simps) simp
  next
    case False
    with 1 m show ?thesis by (subst show_nat.simps) (auto simp del: mod_less_divisor)
  qed
qed

section \<open>Narrowing to \<open>int\<close>\<close>

lemma uint_ucast_small:
  fixes d :: u64
  assumes "uint d < 2 ^ 31"
  shows "uint (ucast d :: 32 word) = uint d"
proof -
  have "uint (ucast d :: 32 word) = take_bit 32 (uint d)" by (simp add: unsigned_ucast_eq)
  also have "\<dots> = uint d" by (rule take_bit_int_eq_self) (use assms in simp_all)
  finally show ?thesis .
qed

lemma sint_ucast_small:
  fixes d :: u64
  assumes "unat d < 2 ^ 31"
  shows "sint (ucast d :: 32 word) = int (unat d)"
proof -
  from assms have small: "uint d < 2 ^ 31"
    unfolding unat_eq_nat_uint by (subst (asm) nat_less_iff) simp_all
  have "sint (ucast d :: 32 word) = signed_take_bit 31 (uint (ucast d :: 32 word))"
    by (simp add: sint_uint)
  also have "\<dots> = uint d"
    unfolding uint_ucast_small [OF small]
    by (rule signed_take_bit_int_eq_self) (use small in \<open>auto intro: order_trans [of _ 0]\<close>)
  finally show ?thesis by simp
qed

section \<open>First-match loops\<close>

text \<open>
  \<open>for (i = 0; i < xs.num; ++i) if (p (xs.array[i])) { ... break; }\<close>, with the element read
  (\<^const>\<open>find\<close> of the list library), changed in place, or erased (\<open>da_erase\<close>).
\<close>

fun update_first :: "('a \<Rightarrow> bool) \<Rightarrow> ('a \<Rightarrow> 'a) \<Rightarrow> 'a list \<Rightarrow> 'a list" where
  "update_first p f [] = []"
| "update_first p f (x # xs) = (if p x then f x # xs else x # update_first p f xs)"

fun erase_first :: "('a \<Rightarrow> bool) \<Rightarrow> 'a list \<Rightarrow> 'a list" where
  "erase_first p [] = []"
| "erase_first p (x # xs) = (if p x then xs else x # erase_first p xs)"

lemma length_update_first [simp]: "length (update_first p f xs) = length xs"
  by (induction xs) auto

lemma map_update_first [first_match]:
  "(\<And>x. p x \<Longrightarrow> k (f x) = k x) \<Longrightarrow> map k (update_first p f xs) = map k xs"
  by (induction xs) auto

lemma update_first_none [first_match]: "\<forall>x \<in> set xs. \<not> p x \<Longrightarrow> update_first p f xs = xs"
  by (induction xs) auto

lemma erase_first_none [first_match]: "\<forall>x \<in> set xs. \<not> p x \<Longrightarrow> erase_first p xs = xs"
  by (induction xs) auto

lemma set_update_first: "set (update_first p f xs) \<subseteq> set xs \<union> f ` {x \<in> set xs. p x}"
  by (induction xs) auto

lemma in_update_firstE:
  assumes "x \<in> set (update_first p f xs)"
  obtains "x \<in> set xs" | y where "y \<in> set xs" "p y" "x = f y"
  using assms set_update_first [of p f xs] by blast

lemma update_first_ball:
  "\<forall>x \<in> set xs. q x \<Longrightarrow> (\<And>x. q x \<Longrightarrow> p x \<Longrightarrow> q (f x)) \<Longrightarrow> \<forall>x \<in> set (update_first p f xs). q x"
  by (induction xs) auto

lemma set_erase_first: "set (erase_first p xs) \<subseteq> set xs"
  by (induction xs) auto

lemma erase_first_ball: "\<forall>x \<in> set xs. q x \<Longrightarrow> \<forall>x \<in> set (erase_first p xs). q x"
  using set_erase_first by (meson subsetD)

lemma length_erase_first [first_match]:
  "length (erase_first p xs) = (if \<exists>x \<in> set xs. p x then length xs - 1 else length xs)"
  by (induction xs) (auto simp: Suc_diff_le dest: length_pos_if_in_set)

lemma distinct_map_erase_first [first_match]:
  "distinct (map k xs) \<Longrightarrow> distinct (map k (erase_first p xs))"
proof (induction xs)
  case Nil
  then show ?case by simp
next
  case (Cons x xs)
  have "k ` set (erase_first p xs) \<subseteq> k ` set xs"
    using set_erase_first by (rule image_mono)
  with Cons show ?case by (auto simp: subset_iff)
qed

lemma find_erase_first_key [first_match]:
  "distinct (map k xs) \<Longrightarrow>
    find (\<lambda>x. k x = u) (erase_first (\<lambda>x. k x = t) xs) = (if u = t then None else find (\<lambda>x. k x = u) xs)"
proof (induction xs)
  case Nil
  then show ?case by simp
next
  case (Cons x xs)
  then show ?case
    by (auto simp: find_None_iff image_iff)
qed

lemma find_update_first_key [first_match]:
  "(\<And>x. k (f x) = k x) \<Longrightarrow>
    find (\<lambda>x. k x = u) (update_first (\<lambda>x. k x = t) f xs) =
      (if u = t then map_option f (find (\<lambda>x. k x = u) xs) else find (\<lambda>x. k x = u) xs)"
  by (induction xs) auto

lemma find_append [simp]:
  "find p (xs @ ys) = (case find p xs of None \<Rightarrow> find p ys | Some x \<Rightarrow> Some x)"
  by (induction xs) auto

lemma find_SomeD: "find p xs = Some x \<Longrightarrow> x \<in> set xs \<and> p x"
  by (induction xs) (auto split: if_splits)

lemma find_key_unique:
  "distinct (map k xs) \<Longrightarrow> x \<in> set xs \<Longrightarrow> find (\<lambda>y. k y = k x) xs = Some x"
  by (induction xs) auto

lemma find_key_dom: "find (\<lambda>y. k y = u) xs \<noteq> None \<longleftrightarrow> u \<in> k ` set xs"
  by (induction xs) auto

lemma list_all2_partner: "list_all2 r xs ys \<Longrightarrow> x \<in> set xs \<Longrightarrow> \<exists>y \<in> set ys. r x y"
  by (induction rule: list_all2_induct) auto

lemma list_all2_update_first:
  "(\<And>x. r x x) \<Longrightarrow> (\<And>x. r x (f x)) \<Longrightarrow> list_all2 r xs (update_first p f xs)"
  by (induction xs) (auto simp: list_all2_refl)

end
