(* ===== verification/Token.thy ===== *)
theory Token
  imports Tether_Prelude
begin

unbundle bit_operations_syntax

text \<open>
  \<open>src/token.c\<close>: the share tokens \<open>TTHR-XXXX-XXXX-XXXX\<close>. Generation from random bytes, the
  well-formedness scan, and the normaliser applied to what the user pastes. The random source
  (\<open>/dev/urandom\<close>) is the list of results its \<open>read\<close> calls return.
\<close>

section \<open>Constants\<close>

definition TETHER_TOKEN_PREFIX :: string where
  "TETHER_TOKEN_PREFIX = ''TTHR-''"

definition TETHER_TOKEN_GROUP_LEN :: nat where
  "TETHER_TOKEN_GROUP_LEN = 4"

definition TETHER_TOKEN_GROUPS :: nat where
  "TETHER_TOKEN_GROUPS = 3"

definition TETHER_TOKEN_BUF :: nat where
  "TETHER_TOKEN_BUF = 20"

definition k_alphabet :: string where
  "k_alphabet = ''ABCDEFGHJKMNPQRSTUVWXYZ23456789''"

definition k_alphabet_padded :: string where
  "k_alphabet_padded = ''ABCDEFGHJKKMNPQRSTUVWXYZ23456789''"

lemmas token_consts =
  TETHER_TOKEN_PREFIX_def TETHER_TOKEN_GROUP_LEN_def TETHER_TOKEN_GROUPS_def TETHER_TOKEN_BUF_def

section \<open>Random bytes\<close>

text \<open>
  The loop of \<open>fill_random\<close>: \<open>got\<close> are the bytes read so far, the list holds what each further
  \<open>read\<close> returns (\<^const>\<open>None\<close> for a negative result; never more bytes than asked for). The
  outer option of the result is \<^const>\<open>None\<close> when the list ends before the loop does.
\<close>

fun read_loop :: "nat \<Rightarrow> u8 list \<Rightarrow> u8 list option list \<Rightarrow> u8 list option option" where
  "read_loop n got rs =
     (if n \<le> length got then Some (Some got)
      else case rs of
        [] \<Rightarrow> None
      | None # _ \<Rightarrow> Some None
      | Some bs # rs' \<Rightarrow> read_loop n (got @ take (n - length got) bs) rs')"

declare read_loop.simps [simp del]

definition fill_random :: "nat \<Rightarrow> int \<Rightarrow> u8 list option list \<Rightarrow> u8 list option option" where
  "fill_random n fd rs = (if fd < 0 then Some None else read_loop n [] rs)"

section \<open>Generation\<close>

definition token_char :: "u8 \<Rightarrow> char" where
  "token_char b = k_alphabet_padded ! unat (b AND 0x1F)"

text \<open>The inner loop over \<open>i\<close> of one group, and the separator after every group but the last.\<close>

definition token_group :: "u8 list \<Rightarrow> nat \<Rightarrow> string" where
  "token_group bytes g =
     map (\<lambda>i. token_char (bytes ! (g * TETHER_TOKEN_GROUP_LEN + i))) [0..<TETHER_TOKEN_GROUP_LEN] @
     (if g + 1 < TETHER_TOKEN_GROUPS then ''-'' else [])"

definition format_token :: "u8 list \<Rightarrow> string" where
  "format_token bytes = TETHER_TOKEN_PREFIX @ concat (map (token_group bytes) [0..<TETHER_TOKEN_GROUPS])"

definition tether_token_generate :: "nat \<Rightarrow> int \<Rightarrow> u8 list option list \<Rightarrow> string option option" where
  "tether_token_generate out_size fd rs =
     (if out_size < TETHER_TOKEN_BUF then Some None
      else map_option (map_option format_token)
             (fill_random (TETHER_TOKEN_GROUPS * TETHER_TOKEN_GROUP_LEN) fd rs))"

section \<open>Well-formedness\<close>

definition char_in_alphabet :: "char \<Rightarrow> bool" where
  "char_in_alphabet c \<longleftrightarrow> c \<in> set k_alphabet"

text \<open>
  The pointer \<open>p\<close> of \<open>tether_token_is_well_formed\<close> is the suffix still to be read:
  \<^term>\<open>scan_group i p\<close> is its position after \<open>i\<close> alphabet characters,
  \<^term>\<open>scan_groups g p\<close> after the last \<open>g\<close> groups; \<^const>\<open>None\<close> is \<open>return false\<close>. At the
  end, \<open>*p == NUL\<close> says that nothing is left of the string.
\<close>

fun scan_group :: "nat \<Rightarrow> string \<Rightarrow> string option" where
  "scan_group 0 p = Some p"
| "scan_group (Suc i) p = (if char_in_alphabet (cur p) then scan_group i (tl p) else None)"

fun scan_groups :: "nat \<Rightarrow> string \<Rightarrow> string option" where
  "scan_groups 0 p = Some p"
| "scan_groups (Suc g) p =
     (case scan_group TETHER_TOKEN_GROUP_LEN p of
        None \<Rightarrow> None
      | Some q \<Rightarrow> if 0 < g then (if cur q \<noteq> CHR ''-'' then None else scan_groups g (tl q))
                 else scan_groups g q)"

definition tether_token_is_well_formed :: "string option \<Rightarrow> bool" where
  "tether_token_is_well_formed s =
     (case s of
        None \<Rightarrow> False
      | Some t \<Rightarrow>
          if \<not> starts_with TETHER_TOKEN_PREFIX t then False
          else case scan_groups TETHER_TOKEN_GROUPS (drop 5 t) of
                 None \<Rightarrow> False
               | Some p \<Rightarrow> p = [])"

section \<open>Normalisation\<close>

definition is_paste_noise :: "char \<Rightarrow> bool" where
  "is_paste_noise c \<longleftrightarrow> isspace c \<or> c = CHR 0x22 \<or> c = CHR 0x27"

definition normalise_char :: "char \<Rightarrow> char" where
  "normalise_char c =
     (let u = toupper c in
      if u = CHR ''O'' then CHR ''0''
      else if u = CHR ''I'' \<or> u = CHR ''L'' then CHR ''1''
      else u)"

text \<open>The loop, from write index \<open>j\<close>: the characters it appends to the output.\<close>

fun normalise_loop :: "nat \<Rightarrow> nat \<Rightarrow> string \<Rightarrow> string" where
  "normalise_loop out_size j [] = []"
| "normalise_loop out_size j (c # p) =
     (if j + 1 < out_size then
        (if is_paste_noise c then normalise_loop out_size j p
         else normalise_char c # normalise_loop out_size (j + 1) p)
      else [])"

text \<open>
  The boolean result, and what \<open>out\<close> holds (\<^const>\<open>None\<close>: not written). The output buffer is
  never NULL: both callers pass an array.
\<close>

definition tether_token_normalise :: "string option \<Rightarrow> nat \<Rightarrow> bool \<times> string option" where
  "tether_token_normalise inp out_size =
     (case inp of
        None \<Rightarrow> (False, None)
      | Some s \<Rightarrow>
          if out_size < TETHER_TOKEN_BUF then (False, None)
          else let out = normalise_loop out_size 0 s
               in (tether_token_is_well_formed (Some out), Some out))"

section \<open>Alphabet and character facts\<close>

lemma nat_mod_word_AND: "unat (b AND 0x1F :: u8) = unat b mod 32"
proof -
  have "b AND 0x1F = take_bit 5 b" by (simp add: take_bit_eq_mask mask_eq_exp_minus_1)
  then have "unat (b AND 0x1F) = take_bit 5 (unat b)" by (simp only: unsigned_take_bit_eq)
  then show ?thesis by (simp add: take_bit_eq_mod)
qed

lemma length_k_alphabet_padded: "length k_alphabet_padded = 32"
  by (simp add: k_alphabet_padded_def)

lemma set_k_alphabet_padded: "set k_alphabet_padded = set k_alphabet"
  by (auto simp: k_alphabet_padded_def k_alphabet_def)

lemma card_k_alphabet: "card (set k_alphabet) = 31"
  by (simp add: k_alphabet_def)

lemma NUL_not_in_alphabet [simp]: "NUL \<notin> set k_alphabet"
  by (simp add: k_alphabet_def NUL_def)

lemma token_char_in_alphabet [simp]: "token_char b \<in> set k_alphabet"
proof -
  have "unat (b AND 0x1F) < length k_alphabet_padded"
    by (simp add: nat_mod_word_AND length_k_alphabet_padded)
  then show ?thesis
    by (simp add: token_char_def flip: set_k_alphabet_padded)
qed

lemma alphabet_char_cases: "c \<in> set k_alphabet \<Longrightarrow> \<not> is_paste_noise c \<and> normalise_char c = c"
proof -
  have "list_all (\<lambda>c. \<not> is_paste_noise c \<and> normalise_char c = c) k_alphabet"
    by code_simp
  then show "c \<in> set k_alphabet \<Longrightarrow> ?thesis" by (simp add: list_all_iff)
qed

lemma prefix_char_cases:
  "c \<in> set TETHER_TOKEN_PREFIX \<Longrightarrow> \<not> is_paste_noise c \<and> normalise_char c = c"
proof -
  have "list_all (\<lambda>c. \<not> is_paste_noise c \<and> normalise_char c = c) TETHER_TOKEN_PREFIX"
    by code_simp
  then show "c \<in> set TETHER_TOKEN_PREFIX \<Longrightarrow> ?thesis" by (simp add: list_all_iff)
qed

section \<open>The language of well-formed tokens\<close>

definition token_block :: "string \<Rightarrow> bool" where
  "token_block a \<longleftrightarrow> length a = 4 \<and> set a \<subseteq> set k_alphabet"

definition token_of :: "string \<Rightarrow> string \<Rightarrow> string \<Rightarrow> string" where
  "token_of a b c = TETHER_TOKEN_PREFIX @ a @ ''-'' @ b @ ''-'' @ c"

lemma scan_group_iff:
  "scan_group n p = Some q \<longleftrightarrow> (\<exists>a. length a = n \<and> set a \<subseteq> set k_alphabet \<and> p = a @ q)"
proof (induction n arbitrary: p)
  case 0
  then show ?case by auto
next
  case (Suc n)
  show ?case
  proof (cases p)
    case Nil
    then show ?thesis by (simp add: char_in_alphabet_def)
  next
    case (Cons c r)
    then show ?thesis
      using Suc.IH [of r]
      by (auto simp: char_in_alphabet_def length_Suc_conv Cons_eq_append_conv)
  qed
qed

lemma scan_groups_iff:
  "scan_groups TETHER_TOKEN_GROUPS p = Some r \<longleftrightarrow>
    (\<exists>a b c. token_block a \<and> token_block b \<and> token_block c \<and> p = a @ ''-'' @ b @ ''-'' @ c @ r)"
proof
  assume "scan_groups TETHER_TOKEN_GROUPS p = Some r"
  then obtain q1 q2 where
    "scan_group 4 p = Some q1" "cur q1 = CHR ''-''"
    "scan_group 4 (tl q1) = Some q2" "cur q2 = CHR ''-''"
    "scan_group 4 (tl q2) = Some r"
    by (auto simp: token_consts numeral_3_eq_3 simp del: scan_group.simps split: option.splits if_splits)
  moreover have "q1 = ''-'' @ tl q1" "q2 = ''-'' @ tl q2"
    using calculation(2,4) by (cases q1; cases q2; simp add: NUL_def)+
  ultimately show
    "\<exists>a b c. token_block a \<and> token_block b \<and> token_block c \<and> p = a @ ''-'' @ b @ ''-'' @ c @ r"
    unfolding scan_group_iff token_block_def by (metis append.assoc)
next
  assume "\<exists>a b c. token_block a \<and> token_block b \<and> token_block c \<and> p = a @ ''-'' @ b @ ''-'' @ c @ r"
  then obtain a b c where abc: "token_block a" "token_block b" "token_block c"
    and p: "p = a @ ''-'' @ b @ ''-'' @ c @ r" by blast
  have g: "scan_group 4 (x @ y) = Some y" if "token_block x" for x y
    unfolding scan_group_iff using that by (auto simp: token_block_def)
  show "scan_groups TETHER_TOKEN_GROUPS p = Some r"
    by (simp add: p token_consts numeral_3_eq_3 g abc del: scan_group.simps)
qed

lemma well_formed_iff:
  "tether_token_is_well_formed (Some t) \<longleftrightarrow>
    (\<exists>a b c. token_block a \<and> token_block b \<and> token_block c \<and> t = token_of a b c)"
proof -
  have "tether_token_is_well_formed (Some t) \<longleftrightarrow>
      (\<exists>p. t = TETHER_TOKEN_PREFIX @ p \<and> scan_groups TETHER_TOKEN_GROUPS p = Some [])"
    by (auto simp: tether_token_is_well_formed_def starts_with_iff token_consts(1)
        split: option.splits if_splits)
  then show ?thesis
    unfolding scan_groups_iff by (auto simp: token_of_def)
qed

lemma well_formed_length: "tether_token_is_well_formed (Some t) \<Longrightarrow> length t = 19"
  by (auto simp: well_formed_iff token_of_def token_block_def token_consts)

lemma well_formed_chars:
  "tether_token_is_well_formed (Some t) \<Longrightarrow>
    set t \<subseteq> set TETHER_TOKEN_PREFIX \<union> set k_alphabet"
  by (auto simp: well_formed_iff token_of_def token_block_def token_consts)


section \<open>What generation returns\<close>

lemma read_loop_enough:
  "\<forall>r \<in> set rs. \<exists>bs. r = Some bs \<and> bs \<noteq> [] \<Longrightarrow> n \<le> length got + length rs \<Longrightarrow> length got \<le> n \<Longrightarrow>
    \<exists>bs. read_loop n got rs = Some (Some bs) \<and> length bs = n"
proof (induction rs arbitrary: got)
  case Nil
  then show ?case by (simp add: read_loop.simps)
next
  case (Cons r rs)
  show ?case
  proof (cases "n \<le> length got")
    case True
    with Cons.prems show ?thesis by (simp add: read_loop.simps)
  next
    case False
    from Cons.prems(1) obtain bs where bs: "r = Some bs" "bs \<noteq> []" by auto
    define got' where "got' = got @ take (n - length got) bs"
    have "length got < length got'" "length got' \<le> n"
      using False bs by (auto simp: got'_def)
    with Cons.prems have "n \<le> length got' + length rs" by simp
    with Cons.IH [of got'] Cons.prems(1) \<open>length got' \<le> n\<close>
    obtain out where "read_loop n got' rs = Some (Some out)" "length out = n" by auto
    with False bs show ?thesis by (subst read_loop.simps) (simp add: got'_def)
  qed
qed

lemma format_token_shape:
  "\<exists>a b c. token_block a \<and> token_block b \<and> token_block c \<and> format_token bytes = token_of a b c"
proof (intro exI conjI)
  let ?blk = "\<lambda>g. map (\<lambda>i. token_char (bytes ! (g * 4 + i))) [0..<4]"
  show "token_block (?blk 0)" "token_block (?blk 1)" "token_block (?blk 2)"
    by (auto simp: token_block_def)
  show "format_token bytes = token_of (?blk 0) (?blk 1) (?blk 2)"
    by (simp add: format_token_def token_group_def token_of_def token_consts numeral_3_eq_3
        numeral_2_eq_2)
qed

section \<open>What normalisation computes\<close>

lemma normalise_loop_eq:
  "normalise_loop (Suc n) j s = take (n - j) (map normalise_char (filter (\<lambda>c. \<not> is_paste_noise c) s))"
  by (induction s arbitrary: j) (auto simp: take_Cons' Suc_diff_Suc less_Suc_eq_le)

lemma clean_paste_fixed:
  "tether_token_is_well_formed (Some t) \<Longrightarrow>
    map normalise_char (filter (\<lambda>c. \<not> is_paste_noise c) t) = t"
proof -
  assume "tether_token_is_well_formed (Some t)"
  then have "\<forall>c \<in> set t. \<not> is_paste_noise c \<and> normalise_char c = c"
    using well_formed_chars alphabet_char_cases prefix_char_cases by blast
  then show ?thesis by (simp add: filter_True map_idI)
qed

section \<open>Properties\<close>

text \<open>Generation succeeds and its token is well formed: when the output buffer is large
  enough, the random device opens, and its reads deliver bytes (a positive number each, twelve reads
  at most being needed), \<open>tether_token_generate\<close> returns a token of 19 characters that
  \<open>tether_token_is_well_formed\<close> accepts.\<close>

theorem generate_well_formed:
  assumes "20 \<le> out_size" and "0 \<le> fd"
    and "\<forall>r \<in> set rs. \<exists>bs. r = Some bs \<and> bs \<noteq> []" and "12 \<le> length rs"
  shows "\<exists>t. tether_token_generate out_size fd rs = Some (Some t) \<and>
           tether_token_is_well_formed (Some t) \<and> length t = 19"
proof -
  from read_loop_enough [OF assms(3), of 12 "[]"] assms(4)
  obtain bs where "read_loop 12 [] rs = Some (Some bs)" by auto
  then have gen: "tether_token_generate out_size fd rs = Some (Some (format_token bs))"
    using assms(1,2) by (simp add: tether_token_generate_def fill_random_def token_consts)
  have "tether_token_is_well_formed (Some (format_token bs))"
    unfolding well_formed_iff by (rule format_token_shape)
  with gen well_formed_length show ?thesis by blast
qed

theorem generate_well_formed_witness:
  "\<exists>t. tether_token_generate 20 3 (replicate 12 (Some [7])) = Some (Some t) \<and>
     tether_token_is_well_formed (Some t) \<and> length t = 19"
  by (rule generate_well_formed) auto

text \<open>\<open>tether_token_is_well_formed\<close> accepts exactly the strings made of the prefix and three
  groups of four alphabet characters separated by dashes.\<close>

theorem well_formed_language:
  "tether_token_is_well_formed s \<longleftrightarrow>
    (\<exists>a b c. length a = 4 \<and> length b = 4 \<and> length c = 4 \<and>
       set (a @ b @ c) \<subseteq> set k_alphabet \<and> s = Some (''TTHR-'' @ a @ ''-'' @ b @ ''-'' @ c))"
proof (cases s)
  case None
  then show ?thesis by (simp add: tether_token_is_well_formed_def)
next
  case (Some t)
  then show ?thesis
    by (auto simp: well_formed_iff token_block_def token_of_def token_consts)
qed

text \<open>C30: the normaliser undoes sloppy pasting: for a well-formed token \<open>t\<close>, any text that
  becomes \<open>t\<close> once the spaces and quotes are dropped and each remaining character is upper-cased is
  normalised to exactly \<open>t\<close>, and is accepted.\<close>

theorem normalise_recovers:
  assumes "tether_token_is_well_formed (Some t)"
    and "map toupper (filter (\<lambda>c. \<not> is_paste_noise c) s) = t" and "20 \<le> out_size"
  shows "tether_token_normalise (Some s) out_size = (True, Some t)"
proof -
  obtain n where n: "out_size = Suc n" "19 \<le> n" using assms(3) by (cases out_size) auto
  let ?clean = "filter (\<lambda>c. \<not> is_paste_noise c) s"
  have up: "toupper c = normalise_char c" if "c \<in> set ?clean" for c
  proof -
    have "toupper c \<in> set t" using that assms(2) by (auto simp flip: assms(2))
    then have "toupper c \<in> set TETHER_TOKEN_PREFIX \<union> set k_alphabet"
      using well_formed_chars [OF assms(1)] by blast
    then have "toupper c \<noteq> CHR ''O'' \<and> toupper c \<noteq> CHR ''I'' \<and> toupper c \<noteq> CHR ''L''"
      by (auto simp: TETHER_TOKEN_PREFIX_def k_alphabet_def)
    then show ?thesis by (simp add: normalise_char_def)
  qed
  then have "map normalise_char ?clean = t"
    using assms(2) by (metis (no_types, lifting) map_eq_conv)
  moreover have "take n t = t" using n well_formed_length [OF assms(1)] by simp
  ultimately have "normalise_loop out_size 0 s = t" by (simp add: n normalise_loop_eq)
  with assms(1,3) show ?thesis by (simp add: tether_token_normalise_def token_consts)
qed

theorem normalise_recovers_witness:
  "tether_token_normalise (Some '' \"tthr-abcd-efgh-2345\" '') 20 = (True, Some ''TTHR-ABCD-EFGH-2345'')"
proof (rule normalise_recovers)
  show "tether_token_is_well_formed (Some ''TTHR-ABCD-EFGH-2345'')" by code_simp
  show "map toupper (filter (\<lambda>c. \<not> is_paste_noise c) '' \"tthr-abcd-efgh-2345\" '') = ''TTHR-ABCD-EFGH-2345''"
    by code_simp
qed simp

text \<open>What the normaliser accepts, exactly: with an output buffer of \<open>n + 1\<close> bytes it judges the
  first \<open>n\<close> significant characters of the input only. With the 20-byte buffer every caller passes, a
  well-formed token followed by any further text is accepted, the rest being cut off in silence.\<close>

theorem normalise_judges_prefix:
  "19 \<le> n \<Longrightarrow>
    tether_token_normalise (Some s) (Suc n) =
      (let out = take n (map normalise_char (filter (\<lambda>c. \<not> is_paste_noise c) s))
       in (tether_token_is_well_formed (Some out), Some out)) \<and>
    (tether_token_is_well_formed (Some t) \<longrightarrow> tether_token_normalise (Some (t @ junk)) 20 = (True, Some t))"
proof (intro conjI impI)
  assume "19 \<le> n"
  then show "tether_token_normalise (Some s) (Suc n) =
      (let out = take n (map normalise_char (filter (\<lambda>c. \<not> is_paste_noise c) s))
       in (tether_token_is_well_formed (Some out), Some out))"
    by (simp add: tether_token_normalise_def token_consts normalise_loop_eq Let_def)
next
  assume wf: "tether_token_is_well_formed (Some t)"
  have "normalise_loop 20 0 (t @ junk) = t"
    using normalise_loop_eq [of 19 0 "t @ junk"]
    by (simp add: clean_paste_fixed [OF wf] well_formed_length [OF wf])
  with wf show "tether_token_normalise (Some (t @ junk)) 20 = (True, Some t)"
    by (simp add: tether_token_normalise_def token_consts)
qed

theorem normalise_judges_prefix_witness:
  "tether_token_normalise (Some ''TTHR-ABCD-EFGH-2345XYZ'') 20 = (True, Some ''TTHR-ABCD-EFGH-2345'')"
proof -
  have "tether_token_is_well_formed (Some ''TTHR-ABCD-EFGH-2345'')" by code_simp
  then show ?thesis
    using normalise_judges_prefix [of 19 "[]" "''TTHR-ABCD-EFGH-2345''" "''XYZ''"] by simp
qed

lemma bij_token_of:
  "bij_betw (\<lambda>(a, b, c). token_of a b c)
    ({a. token_block a} \<times> {b. token_block b} \<times> {c. token_block c})
    {t. tether_token_is_well_formed (Some t)}"
  by (auto simp: bij_betw_def inj_on_def well_formed_iff image_iff token_of_def token_block_def)

text \<open>The size of the token space: there are 31 to the power 12 well-formed tokens, fewer than
  the 2 to the power 60 that the comments of \<open>token.h\<close> and \<open>token.c\<close> count on.\<close>

theorem token_space:
  "card {t. tether_token_is_well_formed (Some t)} = 31 ^ 12 \<and>
    card {t. tether_token_is_well_formed (Some t)} < 2 ^ 60"
proof -
  have "{a. token_block a} = {xs. set xs \<subseteq> set k_alphabet \<and> length xs = 4}"
    by (auto simp: token_block_def)
  then have "card {a. token_block a} = 31 ^ 4"
    by (simp add: card_lists_length_eq card_k_alphabet)
  then have "card {t. tether_token_is_well_formed (Some t)} = 31 ^ 12"
    by (simp add: bij_betw_same_card [OF bij_token_of, symmetric] card_cartesian_product)
  then show ?thesis by simp
qed


lemma unat_byte_of_parts: "h < 8 \<Longrightarrow> m < 32 \<Longrightarrow> unat (word_of_nat (h * 32 + m) :: u8) = h * 32 + m"
  unfolding unat_of_nat by simp

lemma card_bytes_mod_32: "card {b :: u8. q (unat b mod 32)} = 8 * card {m. m < 32 \<and> q m}"
proof -
  have "bij_betw (\<lambda>b :: u8. (unat b div 32, unat b mod 32)) {b. q (unat b mod 32)}
      ({..<8} \<times> {m. m < 32 \<and> q m})"
  proof (rule bij_betw_byWitness [where f' = "\<lambda>(h, m). word_of_nat (h * 32 + m)"])
    show "(\<lambda>b :: u8. (unat b div 32, unat b mod 32)) ` {b. q (unat b mod 32)} \<subseteq> {..<8} \<times> {m. m < 32 \<and> q m}"
    proof -
      have "unat (b :: u8) < 256" for b using unsigned_less [of b] by simp
      then show ?thesis by (auto simp: less_mult_imp_div_less)
    qed
    show "(\<lambda>(h, m). word_of_nat (h * 32 + m)) ` ({..<8} \<times> {m. m < 32 \<and> q m}) \<subseteq> {b :: u8. q (unat b mod 32)}"
      by (auto simp: unat_byte_of_parts simp del: of_nat_add of_nat_mult)
    show "\<forall>b \<in> {b. q (unat b mod 32)}.
        (case (unat b div 32, unat b mod 32) of (h, m) \<Rightarrow> word_of_nat (h * 32 + m)) = (b :: u8)"
    proof
      fix b :: u8
      have "unat b div 32 * 32 + unat b mod 32 = unat b" by simp
      then have "word_of_nat (unat b div 32 * 32 + unat b mod 32) = b" by (simp only:) simp
      then show "(case (unat b div 32, unat b mod 32) of (h, m) \<Rightarrow> word_of_nat (h * 32 + m)) = b"
        by (simp only: prod.case)
    qed
    show "\<forall>y \<in> {..<8} \<times> {m. m < 32 \<and> q m}.
        (unat ((case y of (h, m) \<Rightarrow> word_of_nat (h * 32 + m)) :: u8) div 32,
         unat ((case y of (h, m) \<Rightarrow> word_of_nat (h * 32 + m)) :: u8) mod 32) = y"
      by (auto simp: unat_byte_of_parts simp del: of_nat_add of_nat_mult)
  qed
  then show ?thesis by (simp add: bij_betw_same_card card_cartesian_product)
qed

text \<open>The bias of a generated character: of the 256 values of a random byte, eight give each
  alphabet character but \<open>K\<close>, which sixteen give; no value gives anything else.\<close>

theorem token_char_bias:
  "card {b. token_char b = c} =
    (if c = CHR ''K'' then 16 else if c \<in> set k_alphabet then 8 else 0)"
proof -
  have "card {b. token_char b = c} = 8 * card {m. m < 32 \<and> k_alphabet_padded ! m = c}"
    using card_bytes_mod_32 [of "\<lambda>m. k_alphabet_padded ! m = c"]
    by (simp add: token_char_def nat_mod_word_AND)
  also have "card {m. m < 32 \<and> k_alphabet_padded ! m = c} = length (filter (\<lambda>d. d = c) k_alphabet_padded)"
    by (simp add: length_filter_conv_card length_k_alphabet_padded)
  finally show ?thesis by (simp add: k_alphabet_padded_def k_alphabet_def)
qed

end
