(* ===== verification/Interfaces.thy ===== *)
theory Interfaces
  imports Tether_Prelude "HOL-Library.Multiset"
begin

text \<open>
  The contracts between the components, as locales. A component that provides a contract
  interprets it on its own operations; what its users prove from the contract alone stands here.
\<close>

section \<open>A state machine and its invariant\<close>

text \<open>
  Every stateful module of the plugin is a state under a mutex and operations that each run as one
  critical section, so an execution is a list of operations run in some order.
\<close>

locale guarded_machine =
  fixes step :: "'op \<Rightarrow> 's \<Rightarrow> 's"
    and ok :: "'op \<Rightarrow> bool"
    and inv :: "'s \<Rightarrow> bool"
  assumes guarded_step_inv: "ok op \<Longrightarrow> inv s \<Longrightarrow> inv (step op s)"
begin

lemma guarded_run_inv: "\<forall>op \<in> set ops. ok op \<Longrightarrow> inv s \<Longrightarrow> inv (fold step ops s)"
  by (induction ops arbitrary: s) (simp_all add: guarded_step_inv)

end

text \<open>The invariants that every operation keeps, whatever its arguments.\<close>

locale invariant_machine =
  fixes step :: "'op \<Rightarrow> 's \<Rightarrow> 's"
    and inv :: "'s \<Rightarrow> bool"
  assumes step_inv: "inv s \<Longrightarrow> inv (step op s)"

sublocale invariant_machine \<subseteq> any: guarded_machine step "\<lambda>_. True" inv
  by unfold_locales (rule step_inv)

context invariant_machine
begin

lemma run_inv: "inv s \<Longrightarrow> inv (fold step ops s)"
  by (rule any.guarded_run_inv) simp_all

end

text \<open>
  A machine with an observation that no step changes on the states of the invariant
  (a configuration, an identity).
\<close>

locale framed_machine = invariant_machine step inv
  for step :: "'op \<Rightarrow> 's \<Rightarrow> 's" and inv :: "'s \<Rightarrow> bool" +
  fixes frame :: "'s \<Rightarrow> 'v"
  assumes step_frame: "inv s \<Longrightarrow> frame (step op s) = frame s"
begin

lemma run_frame: "inv s \<Longrightarrow> frame (fold step ops s) = frame s"
  by (induction ops arbitrary: s) (simp_all add: step_inv step_frame)

end

text \<open>
  A machine with a measure that no step lowers (a counter of ids, a set that only grows).
\<close>

locale growing_machine = invariant_machine step inv
  for step :: "'op \<Rightarrow> 's \<Rightarrow> 's" and inv :: "'s \<Rightarrow> bool" +
  fixes size_of :: "'s \<Rightarrow> nat"
  assumes step_grows: "inv s \<Longrightarrow> size_of s \<le> size_of (step op s)"
begin

lemma run_grows: "inv s \<Longrightarrow> size_of s \<le> size_of (fold step ops s)"
proof (induction ops arbitrary: s)
  case Nil
  then show ?case by simp
next
  case (Cons op ops)
  from Cons.prems have "size_of s \<le> size_of (step op s)" by (rule step_grows)
  also have "\<dots> \<le> size_of (fold step ops (step op s))"
    using Cons.prems by (intro Cons.IH step_inv)
  finally show ?case by simp
qed

end

section \<open>A book of named tokens\<close>

text \<open>
  What the dialogs, the source and the control plane rely on in the list of known tokens: a finite
  map from tokens to optional friendly names, changed by adding, removing and renaming.
\<close>

locale token_book =
  fixes live :: "'s \<Rightarrow> bool"
    and book :: "'s \<Rightarrow> string \<rightharpoonup> string option"
    and add :: "string \<Rightarrow> 's \<Rightarrow> 's \<times> bool"
    and remove :: "string \<Rightarrow> 's \<Rightarrow> 's \<times> bool"
    and rename :: "string \<Rightarrow> string option \<Rightarrow> 's \<Rightarrow> 's \<times> bool"
  assumes live_add: "live s \<Longrightarrow> live (fst (add t s))"
    and live_remove: "live s \<Longrightarrow> live (fst (remove t s))"
    and live_rename: "live s \<Longrightarrow> live (fst (rename t n s))"
    and add_book: "live s \<Longrightarrow> t \<noteq> [] \<Longrightarrow>
      book (fst (add t s)) = (if book s t = None then (book s)(t \<mapsto> None) else book s)"
    and add_result: "live s \<Longrightarrow> t \<noteq> [] \<Longrightarrow> snd (add t s) \<longleftrightarrow> book s t = None"
    and remove_book: "live s \<Longrightarrow> book (fst (remove t s)) = (book s)(t := None)"
    and remove_result: "live s \<Longrightarrow> snd (remove t s) \<longleftrightarrow> book s t \<noteq> None"
    and rename_book: "live s \<Longrightarrow> book (fst (rename t n s)) =
      (if book s t = None then book s else (book s)(t \<mapsto> (if nonempty_str n then n else None)))"
    and rename_result: "live s \<Longrightarrow> snd (rename t n s) \<longleftrightarrow> book s t \<noteq> None"
begin

lemma add_then_known: "live s \<Longrightarrow> t \<noteq> [] \<Longrightarrow> book (fst (add t s)) t \<noteq> None"
  by (simp add: add_book)

lemma add_twice:
  "live s \<Longrightarrow> t \<noteq> [] \<Longrightarrow>
    book (fst (add t (fst (add t s)))) = book (fst (add t s)) \<and> \<not> snd (add t (fst (add t s)))"
  by (simp add: add_book add_result live_add)

lemma add_remove:
  "live s \<Longrightarrow> t \<noteq> [] \<Longrightarrow> book s t = None \<Longrightarrow> book (fst (remove t (fst (add t s)))) = book s"
  by (simp add: add_book remove_book live_add fun_upd_idem)

lemma rename_keeps_domain: "live s \<Longrightarrow> dom (book (fst (rename t n s))) = dom (book s)"
  by (auto simp: rename_book split: if_splits)

lemma add_keeps_name:
  "live s \<Longrightarrow> u \<noteq> [] \<Longrightarrow> book s t = Some n \<Longrightarrow> book (fst (add u s)) t = Some n"
  by (auto simp: add_book)

end

section \<open>A text encoding inside a message\<close>

text \<open>
  An encoder of strings whose output can be found again inside a longer message, by a scanner that
  measures it, and decoded.
\<close>

locale embedded_text =
  fixes enc :: "string \<Rightarrow> string"
    and measure_of :: "string \<Rightarrow> nat"
    and dec :: "string \<Rightarrow> string"
    and closing :: char
  assumes measured: "measure_of (enc s @ closing # rest) = length (enc s)"
    and decoded: "dec (enc s) = s"
begin

lemma decode_embedded: "dec (take (measure_of (enc s @ closing # rest)) (enc s @ closing # rest)) = s"
  by (simp add: measured decoded)

lemma enc_inject: "enc s = enc t \<longleftrightarrow> s = t"
  by (metis decoded)

end

section \<open>A registry of counted sessions\<close>

text \<open>
  What the users of receive sessions (the OBS source, the property page, the control plane) rely on:
  \<open>ok w refs subs\<close> says that the registry's world \<open>w\<close> accounts for the references \<open>refs\<close> and the
  subscriptions \<open>subs\<close> its clients hold. Nothing fails for a client that gives back only what it holds.
\<close>

locale counted_registry =
  fixes ok :: "'w \<Rightarrow> nat multiset \<Rightarrow> (nat \<times> nat) list \<Rightarrow> bool"
    and token_of :: "'w \<Rightarrow> nat \<Rightarrow> string option"
    and get :: "'e \<Rightarrow> string option \<Rightarrow> 'w \<Rightarrow> ('w \<times> nat option \<times> 'o list) option"
    and release :: "nat option \<Rightarrow> 'w \<Rightarrow> ('w \<times> 'o list) option"
    and subscribe :: "'c \<Rightarrow> nat option \<Rightarrow> 'w \<Rightarrow> ('w \<times> (nat \<times> nat) option \<times> 'o list) option"
    and unsubscribe :: "(nat \<times> nat) option \<Rightarrow> 'w \<Rightarrow> ('w \<times> 'o list) option"
  assumes get_ok: "ok w refs subs \<Longrightarrow>
      \<exists>w' p outs. get e t w = Some (w', p, outs) \<and> (case p of None \<Rightarrow> ok w' refs subs
        | Some a \<Rightarrow> ok w' (add_mset a refs) subs \<and> token_of w' a = t)"
    and release_ok: "ok w refs subs \<Longrightarrow> a \<in># refs \<Longrightarrow>
      \<exists>w' outs. release (Some a) w = Some (w', outs) \<and> ok w' (refs - {#a#}) subs"
    and subscribe_ok: "ok w refs subs \<Longrightarrow> a \<in># refs \<Longrightarrow>
      \<exists>w' i outs. subscribe c (Some a) w = Some (w', Some (a, i), outs) \<and> ok w' refs (subs @ [(a, i)])"
    and unsubscribe_ok: "ok w refs subs \<Longrightarrow> h \<in> set subs \<Longrightarrow>
      \<exists>w' outs subs'. unsubscribe (Some h) w = Some (w', outs) \<and> ok w' refs subs' \<and> mset subs' = mset subs - {#h#}"
begin

text \<open>Getting a session, subscribing to it, and giving the reference back leaves just the subscription.\<close>

lemma attach_ok:
  assumes "ok w refs subs" and "get e t w = Some (w1, Some a, o1)"
  shows "\<exists>w2 i o2 w3 o3. subscribe c (Some a) w1 = Some (w2, Some (a, i), o2) \<and>
    release (Some a) w2 = Some (w3, o3) \<and> ok w3 refs (subs @ [(a, i)])"
proof -
  have ok1: "ok w1 (add_mset a refs) subs" using get_ok [OF assms(1), of e t] assms(2) by auto
  then obtain w2 i o2 where s: "subscribe c (Some a) w1 = Some (w2, Some (a, i), o2)"
    "ok w2 (add_mset a refs) (subs @ [(a, i)])"
    using subscribe_ok [OF ok1, of a c] by auto
  then obtain w3 o3 where "release (Some a) w2 = Some (w3, o3)" "ok w3 refs (subs @ [(a, i)])"
    using release_ok [OF s(2), of a] by auto
  with s(1) show ?thesis by blast
qed

text \<open>Getting a session for a look and giving it back changes no account.\<close>

lemma visit_ok:
  assumes "ok w refs subs" and "get e t w = Some (w1, Some a, o1)"
  shows "\<exists>w2 o2. release (Some a) w1 = Some (w2, o2) \<and> ok w2 refs subs"
proof -
  have "ok w1 (add_mset a refs) subs" using get_ok [OF assms(1), of e t] assms(2) by auto
  from release_ok [OF this, of a] show ?thesis by auto
qed

lemma get_none_ok: "ok w refs subs \<Longrightarrow> get e t w = Some (w1, None, o1) \<Longrightarrow> ok w1 refs subs"
  using get_ok [of w refs subs e t] by auto

lemma get_total: "ok w refs subs \<Longrightarrow> \<exists>w1 p o1. get e t w = Some (w1, p, o1)"
  using get_ok by blast

lemma get_held: "ok w refs subs \<Longrightarrow> get e t w = Some (w1, Some a, o1) \<Longrightarrow>
    ok w1 (add_mset a refs) subs \<and> token_of w1 a = t"
  using get_ok [of w refs subs e t] by auto

end

text \<open>
  The same registry with what the users of a subscription rely on: which client a subscription calls
  (\<open>users\<close>: its session, its own address, the client), and that a session keeps its token.
\<close>

locale subscribed_registry = counted_registry ok token_of get release subscribe unsubscribe
  for ok :: "'w \<Rightarrow> nat multiset \<Rightarrow> (nat \<times> nat) list \<Rightarrow> bool" and token_of :: "'w \<Rightarrow> nat \<Rightarrow> string option"
    and get :: "'e \<Rightarrow> string option \<Rightarrow> 'w \<Rightarrow> ('w \<times> nat option \<times> 'o list) option"
    and release :: "nat option \<Rightarrow> 'w \<Rightarrow> ('w \<times> 'o list) option"
    and subscribe :: "'c \<Rightarrow> nat option \<Rightarrow> 'w \<Rightarrow> ('w \<times> (nat \<times> nat) option \<times> 'o list) option"
    and unsubscribe :: "(nat \<times> nat) option \<Rightarrow> 'w \<Rightarrow> ('w \<times> 'o list) option" +
  fixes users :: "'w \<Rightarrow> (nat \<times> nat \<times> nat) set"
    and client :: "'c \<Rightarrow> nat"
  assumes ok_distinct: "ok w refs subs \<Longrightarrow> distinct subs"
    and users_subs: "ok w refs subs \<Longrightarrow> (\<lambda>(a, i, u). (a, i)) ` users w = set subs"
    and users_fun: "ok w refs subs \<Longrightarrow> (a, i, u) \<in> users w \<Longrightarrow> (a, i, v) \<in> users w \<Longrightarrow> u = v"
    and get_users: "ok w refs subs \<Longrightarrow> get e t w = Some (w', p, outs) \<Longrightarrow> users w' = users w"
    and release_users: "ok w refs subs \<Longrightarrow> a \<in># refs \<Longrightarrow> release (Some a) w = Some (w', outs) \<Longrightarrow> users w' = users w"
    and subscribe_users: "ok w refs subs \<Longrightarrow> a \<in># refs \<Longrightarrow>
      subscribe c (Some a) w = Some (w', Some (a, i), outs) \<Longrightarrow> users w' = insert (a, i, client c) (users w)"
    and unsubscribe_users: "ok w refs subs \<Longrightarrow> (a, i) \<in> set subs \<Longrightarrow>
      unsubscribe (Some (a, i)) w = Some (w', outs) \<Longrightarrow> users w' = users w - {(a, i, u) | u. True}"
    and live_tokens: "ok w refs subs \<Longrightarrow> a \<in># refs \<or> a \<in> fst ` set subs \<Longrightarrow> token_of w a \<noteq> None"
    and get_keeps: "get e t w = Some (w', p, outs) \<Longrightarrow> token_of w b = Some s \<Longrightarrow> ok w refs subs \<Longrightarrow> token_of w' b = Some s"
    and release_keeps: "release (Some a) w = Some (w', outs) \<Longrightarrow> token_of w b = Some s \<Longrightarrow> token_of w' b \<in> {None, Some s}"
    and subscribe_keeps: "subscribe c (Some a) w = Some (w', h, outs) \<Longrightarrow> token_of w b = Some s \<Longrightarrow> token_of w' b = Some s"
    and unsubscribe_keeps: "unsubscribe (Some k) w = Some (w', outs) \<Longrightarrow> token_of w b = Some s \<Longrightarrow> token_of w' b \<in> {None, Some s}"
begin

lemma kept_live: "ok w' refs' subs' \<Longrightarrow> b \<in># refs' \<or> b \<in> fst ` set subs' \<Longrightarrow> token_of w' b \<in> {None, Some s} \<Longrightarrow>
    token_of w' b = Some s"
  using live_tokens by fastforce

lemma attach:
  assumes ok: "ok w refs subs" and g: "get e t w = Some (w1, Some a, o1)"
  obtains w2 i o2 w3 o3 where "subscribe c (Some a) w1 = Some (w2, Some (a, i), o2)"
    and "release (Some a) w2 = Some (w3, o3)" and "ok w3 refs (subs @ [(a, i)])"
    and "users w3 = insert (a, i, client c) (users w)" and "(a, i) \<notin> set subs" and "token_of w3 a = t"
    and "\<And>b s. b \<in># refs \<or> b \<in> fst ` set subs \<Longrightarrow> token_of w b = Some s \<Longrightarrow> token_of w3 b = Some s"
proof -
  from get_held [OF ok g] have ok1: "ok w1 (add_mset a refs) subs" and t: "token_of w1 a = t" by simp_all
  then have "token_of w1 a \<noteq> None" using live_tokens [OF ok1, of a] by simp
  with t obtain t' where t': "t = Some t'" by (cases t) simp_all
  from subscribe_ok [OF ok1, of a c] obtain w2 i o2 where s: "subscribe c (Some a) w1 = Some (w2, Some (a, i), o2)"
    and ok2: "ok w2 (add_mset a refs) (subs @ [(a, i)])" by auto
  from release_ok [OF ok2, of a] obtain w3 o3 where r: "release (Some a) w2 = Some (w3, o3)"
    and ok3: "ok w3 refs (subs @ [(a, i)])" by auto
  have u: "users w3 = insert (a, i, client c) (users w)"
    using release_users [OF ok2 _ r] subscribe_users [OF ok1 _ s] get_users [OF ok g] by simp
  have fresh: "(a, i) \<notin> set subs" using ok_distinct [OF ok3] by auto
  have keep: "token_of w3 b = Some x" if "b \<in># refs \<or> b \<in> fst ` set (subs @ [(a, i)])" "token_of w1 b = Some x" for b x
    using kept_live [OF ok3 that(1)] release_keeps [OF r subscribe_keeps [OF s that(2)]] by blast
  have "token_of w3 a = t" using keep [of a t'] t t' by simp
  moreover have "token_of w3 b = Some x" if "b \<in># refs \<or> b \<in> fst ` set subs" "token_of w b = Some x" for b x
    using keep [of b x] get_keeps [OF g that(2) ok] that(1) by auto
  ultimately show thesis using that s r ok3 u fresh by blast
qed

lemma visit:
  assumes ok: "ok w refs subs" and g: "get e t w = Some (w1, Some a, o1)"
  obtains w2 o2 where "release (Some a) w1 = Some (w2, o2)" and "ok w2 refs subs" and "users w2 = users w"
    and "\<And>b s. b \<in># refs \<or> b \<in> fst ` set subs \<Longrightarrow> token_of w b = Some s \<Longrightarrow> token_of w2 b = Some s"
proof -
  from get_held [OF ok g] have ok1: "ok w1 (add_mset a refs) subs" by simp
  from release_ok [OF ok1, of a] obtain w2 o2 where r: "release (Some a) w1 = Some (w2, o2)" and ok2: "ok w2 refs subs"
    by auto
  have "users w2 = users w" using release_users [OF ok1 _ r] get_users [OF ok g] by simp
  moreover have "token_of w2 b = Some x" if "b \<in># refs \<or> b \<in> fst ` set subs" "token_of w b = Some x" for b x
    using kept_live [OF ok2 that(1)] release_keeps [OF r get_keeps [OF g that(2) ok]] by blast
  ultimately show thesis using that r ok2 by blast
qed

lemma detach:
  assumes ok: "ok w refs subs" and h: "(a, i) \<in> set subs"
  obtains w' outs subs' where "unsubscribe (Some (a, i)) w = Some (w', outs)" and "ok w' refs subs'"
    and "set subs' = set subs - {(a, i)}" and "users w' = users w - {(a, i, u) | u. True}"
    and "\<And>b s. b \<in># refs \<or> b \<in> fst ` set subs' \<Longrightarrow> token_of w b = Some s \<Longrightarrow> token_of w' b = Some s"
proof -
  from unsubscribe_ok [OF ok h] obtain w' outs subs' where r: "unsubscribe (Some (a, i)) w = Some (w', outs)"
    and ok': "ok w' refs subs'" and m: "mset subs' = mset subs - {#(a, i)#}" by blast
  have "set subs' = set (remove1 (a, i) subs)" by (rule mset_eq_setD) (simp add: m)
  then have "set subs' = set subs - {(a, i)}" using ok_distinct [OF ok] by simp
  moreover have "token_of w' b = Some x" if "b \<in># refs \<or> b \<in> fst ` set subs'" "token_of w b = Some x" for b x
    using kept_live [OF ok' that(1)] unsubscribe_keeps [OF r that(2)] by blast
  ultimately show thesis using that r ok' unsubscribe_users [OF ok h r] by blast
qed

text \<open>A reference that is given back.\<close>

lemma drop_ref:
  assumes ok: "ok w refs subs" and a: "a \<in># refs"
  obtains w' outs where "release (Some a) w = Some (w', outs)" and "ok w' (refs - {#a#}) subs"
    and "users w' = users w"
    and "\<And>b s. b \<in># refs - {#a#} \<or> b \<in> fst ` set subs \<Longrightarrow> token_of w b = Some s \<Longrightarrow> token_of w' b = Some s"
proof -
  from release_ok [OF ok a] obtain w' outs where r: "release (Some a) w = Some (w', outs)" and ok': "ok w' (refs - {#a#}) subs"
    by blast
  moreover have "token_of w' b = Some x" if "b \<in># refs - {#a#} \<or> b \<in> fst ` set subs" "token_of w b = Some x" for b x
    using kept_live [OF ok' that(1)] release_keeps [OF r that(2)] by blast
  ultimately show thesis using that release_users [OF ok a r] by blast
qed

end

end
