(* ===== verification/Known_Tokens.thy ===== *)
theory Known_Tokens
  imports Interfaces
begin

text \<open>
  \<open>src/known-tokens.c\<close>: the process-wide list of registered receive tokens with their friendly
  names, and the JSON file it is loaded from and saved to. The file is part of the state; reading
  and writing it through libobs gives back what was stored.
\<close>

section \<open>State\<close>

record token_entry =
  te_token :: string
  te_name :: "string option"

text \<open>
  An object of the file's \<open>tokens\<close> array, with the two string members the code looks at
  (\<^const>\<open>None\<close> when the member is missing).
\<close>

record token_item =
  ti_token :: "string option"
  ti_name :: "string option"

text \<open>
  \<open>kt_config_path\<close> is what \<open>obs_module_config_path\<close> returns. \<open>kt_disk\<close> is the file:
  \<^const>\<open>None\<close> when there is none that parses, \<^term>\<open>Some None\<close> when it has no \<open>tokens\<close> array.
  \<open>kt_dirs\<close> are the directories \<open>os_mkdirs\<close> was asked to make.
\<close>

record known_tokens =
  g_entries :: "token_entry list"
  g_initialised :: bool
  kt_config_path :: "string option"
  kt_disk :: "token_item list option option"
  kt_dirs :: "string list"

section \<open>The file\<close>

definition dirname_of :: "string \<Rightarrow> string option" where
  "dirname_of p = (if CHR ''/'' \<in> set p then Some (rev (tl (dropWhile (\<lambda>c. c \<noteq> CHR ''/'') (rev p)))) else None)"

definition config_path :: "known_tokens \<Rightarrow> known_tokens \<times> string option" where
  "config_path s =
     (case kt_config_path s of
        None \<Rightarrow> (s, None)
      | Some p \<Rightarrow>
          (case dirname_of p of
             None \<Rightarrow> (s, Some p)
           | Some d \<Rightarrow> (s\<lparr>kt_dirs := kt_dirs s @ [d]\<rparr>, Some p)))"

text \<open>\<open>obs_data_get_string\<close>: the empty string for a missing member.\<close>

definition get_string :: "string option \<Rightarrow> string" where
  "get_string v = (case v of None \<Rightarrow> [] | Some t \<Rightarrow> t)"

fun load_items :: "token_item list \<Rightarrow> token_entry list" where
  "load_items [] = []"
| "load_items (i # is) =
     (let tok = get_string (ti_token i); nm = get_string (ti_name i) in
      (if tok \<noteq> [] then [\<lparr>te_token = tok, te_name = (if nm \<noteq> [] then Some nm else None)\<rparr>] else []) @
      load_items is)"

definition load_from_disk_locked :: "known_tokens \<Rightarrow> known_tokens" where
  "load_from_disk_locked s =
     (case config_path s of
        (s', None) \<Rightarrow> s'
      | (s', Some _) \<Rightarrow>
          (case kt_disk s' of
             None \<Rightarrow> s'
           | Some None \<Rightarrow> s'
           | Some (Some arr) \<Rightarrow> s'\<lparr>g_entries := g_entries s' @ load_items arr\<rparr>))"

definition item_of :: "token_entry \<Rightarrow> token_item" where
  "item_of e = \<lparr>ti_token = Some (te_token e), ti_name = te_name e\<rparr>"

definition save_to_disk_locked :: "known_tokens \<Rightarrow> known_tokens" where
  "save_to_disk_locked s =
     (case config_path s of
        (s', None) \<Rightarrow> s'
      | (s', Some _) \<Rightarrow> s'\<lparr>kt_disk := Some (Some (map item_of (g_entries s')))\<rparr>)"

section \<open>Operations\<close>

definition tether_known_tokens_init :: "known_tokens \<Rightarrow> known_tokens" where
  "tether_known_tokens_init s =
     (if \<not> g_initialised s
      then load_from_disk_locked (s\<lparr>g_entries := [], g_initialised := True\<rparr>)
      else s)"

definition tether_known_tokens_shutdown :: "known_tokens \<Rightarrow> known_tokens" where
  "tether_known_tokens_shutdown s = s\<lparr>g_entries := [], g_initialised := False\<rparr>"

definition has_token :: "string \<Rightarrow> token_entry \<Rightarrow> bool" where
  "has_token t e \<longleftrightarrow> te_token e = t"

definition tether_known_tokens_add :: "string option \<Rightarrow> known_tokens \<Rightarrow> known_tokens \<times> bool" where
  "tether_known_tokens_add token s =
     (case token of
        None \<Rightarrow> (s, False)
      | Some t \<Rightarrow>
          if t = [] then (s, False)
          else if g_initialised s then
            (if find (has_token t) (g_entries s) \<noteq> None then (s, False)
             else (save_to_disk_locked
                     (s\<lparr>g_entries := g_entries s @ [\<lparr>te_token = t, te_name = None\<rparr>]\<rparr>), True))
          else (s, False))"

definition tether_known_tokens_remove :: "string option \<Rightarrow> known_tokens \<Rightarrow> known_tokens \<times> bool" where
  "tether_known_tokens_remove token s =
     (case token of
        None \<Rightarrow> (s, False)
      | Some t \<Rightarrow>
          if g_initialised s \<and> find (has_token t) (g_entries s) \<noteq> None
          then (save_to_disk_locked (s\<lparr>g_entries := erase_first (has_token t) (g_entries s)\<rparr>), True)
          else (s, False))"

text \<open>\<open>(name && *name) ? bstrdup (name) : NULL\<close>\<close>

definition with_name :: "string option \<Rightarrow> token_entry \<Rightarrow> token_entry" where
  "with_name name e = e\<lparr>te_name := (if nonempty_str name then name else None)\<rparr>"

definition tether_known_tokens_set_name ::
  "string option \<Rightarrow> string option \<Rightarrow> known_tokens \<Rightarrow> known_tokens \<times> bool" where
  "tether_known_tokens_set_name token name s =
     (case token of
        None \<Rightarrow> (s, False)
      | Some t \<Rightarrow>
          if g_initialised s \<and> find (has_token t) (g_entries s) \<noteq> None
          then (save_to_disk_locked
                  (s\<lparr>g_entries := update_first (has_token t) (with_name name) (g_entries s)\<rparr>), True)
          else (s, False))"

definition tether_known_tokens_get_name :: "string option \<Rightarrow> known_tokens \<Rightarrow> string option" where
  "tether_known_tokens_get_name token s =
     (case token of
        None \<Rightarrow> None
      | Some t \<Rightarrow>
          if g_initialised s
          then (case find (has_token t) (g_entries s) of None \<Rightarrow> None | Some e \<Rightarrow> te_name e)
          else None)"

definition tether_known_tokens_snapshot :: "known_tokens \<Rightarrow> string list \<times> nat" where
  "tether_known_tokens_snapshot s =
     (let n = (if g_initialised s then length (g_entries s) else 0)
      in (map (\<lambda>i. te_token (g_entries s ! i)) [0..<n], n))"

text \<open>The names array is only handed out when the caller passes \<open>names_out\<close>.\<close>

definition tether_known_tokens_snapshot_with_names ::
  "bool \<Rightarrow> known_tokens \<Rightarrow> string list \<times> nat \<times> string option list option" where
  "tether_known_tokens_snapshot_with_names names_out s =
     (let n = (if g_initialised s then length (g_entries s) else 0)
      in (map (\<lambda>i. te_token (g_entries s ! i)) [0..<n], n,
          if names_out then Some (map (\<lambda>i. te_name (g_entries s ! i)) [0..<n]) else None))"

section \<open>The file and the list\<close>

lemmas kt_ops =
  tether_known_tokens_init_def tether_known_tokens_shutdown_def tether_known_tokens_add_def
  tether_known_tokens_remove_def tether_known_tokens_set_name_def

definition entry_ok :: "token_entry \<Rightarrow> bool" where
  "entry_ok e \<longleftrightarrow> te_token e \<noteq> [] \<and> te_name e \<noteq> Some []"

text \<open>What the next start of the plugin would read from the file.\<close>

definition file_entries :: "known_tokens \<Rightarrow> token_entry list" where
  "file_entries s =
     (case kt_disk s of Some (Some arr) \<Rightarrow> load_items arr | _ \<Rightarrow> [])"

lemma load_items_item_of: "\<forall>e \<in> set es. entry_ok e \<Longrightarrow> load_items (map item_of es) = es"
  by (induction es) (auto simp: item_of_def entry_ok_def get_string_def Let_def split: option.splits)

lemma load_items_ok: "\<forall>e \<in> set (load_items is). entry_ok e"
  by (induction "is") (auto simp: entry_ok_def Let_def)

lemma config_path_frame [simp]:
  "g_entries (fst (config_path s)) = g_entries s" "g_initialised (fst (config_path s)) = g_initialised s"
  "kt_config_path (fst (config_path s)) = kt_config_path s" "kt_disk (fst (config_path s)) = kt_disk s"
  "snd (config_path s) = kt_config_path s"
  by (simp_all add: config_path_def split: option.splits)

lemma save_frame [simp]:
  "g_entries (save_to_disk_locked s) = g_entries s"
  "g_initialised (save_to_disk_locked s) = g_initialised s"
  "kt_config_path (save_to_disk_locked s) = kt_config_path s"
  by (simp_all add: save_to_disk_locked_def config_path_def split: option.splits)

lemma save_file [simp]:
  "kt_disk (save_to_disk_locked s) =
    (if kt_config_path s = None then kt_disk s else Some (Some (map item_of (g_entries s))))"
  by (simp add: save_to_disk_locked_def config_path_def split: option.splits)

lemma load_frame [simp]:
  "g_initialised (load_from_disk_locked s) = g_initialised s"
  "kt_config_path (load_from_disk_locked s) = kt_config_path s"
  "kt_disk (load_from_disk_locked s) = kt_disk s"
  "g_entries (load_from_disk_locked s) =
    (if kt_config_path s = None then g_entries s else g_entries s @ file_entries s)"
  by (simp_all add: load_from_disk_locked_def config_path_def file_entries_def split: option.splits)

lemma has_token_key: "has_token t = (\<lambda>e. te_token e = t)"
  by (simp add: has_token_def fun_eq_iff)

section \<open>The invariant\<close>

definition kt_inv :: "known_tokens \<Rightarrow> bool" where
  "kt_inv s \<longleftrightarrow>
     distinct (map te_token (g_entries s)) \<and> (\<forall>e \<in> set (g_entries s). entry_ok e) \<and>
     distinct (map te_token (file_entries s)) \<and>
     (g_initialised s \<longrightarrow> kt_config_path s \<noteq> None \<longrightarrow> file_entries s = g_entries s) \<and>
     (\<not> g_initialised s \<longrightarrow> g_entries s = [])"

text \<open>Any change of the list by an operation that then saves.\<close>

lemma kt_inv_save:
  assumes "kt_inv s" and "g_initialised s"
    and "distinct (map te_token es)" and "\<forall>e \<in> set es. entry_ok e"
  shows "kt_inv (save_to_disk_locked (s\<lparr>g_entries := es\<rparr>))"
  using assms by (auto simp: kt_inv_def file_entries_def load_items_item_of)

datatype kt_op = KtInit | KtShutdown | KtAdd "string option" | KtRemove "string option"
  | KtSetName "string option" "string option"

fun kt_step :: "kt_op \<Rightarrow> known_tokens \<Rightarrow> known_tokens" where
  "kt_step KtInit s = tether_known_tokens_init s"
| "kt_step KtShutdown s = tether_known_tokens_shutdown s"
| "kt_step (KtAdd t) s = fst (tether_known_tokens_add t s)"
| "kt_step (KtRemove t) s = fst (tether_known_tokens_remove t s)"
| "kt_step (KtSetName t n) s = fst (tether_known_tokens_set_name t n s)"

lemma kt_inv_init: "kt_inv s \<Longrightarrow> kt_inv (tether_known_tokens_init s)"
  using load_items_ok
  by (fastforce simp: kt_inv_def tether_known_tokens_init_def file_entries_def split: option.splits)

lemma kt_inv_shutdown: "kt_inv s \<Longrightarrow> kt_inv (tether_known_tokens_shutdown s)"
  by (simp add: kt_inv_def tether_known_tokens_shutdown_def file_entries_def)

lemma kt_inv_add: "kt_inv s \<Longrightarrow> kt_inv (fst (tether_known_tokens_add t s))"
proof (cases "\<exists>u. t = Some u \<and> u \<noteq> [] \<and> g_initialised s \<and> find (has_token u) (g_entries s) = None")
  case True
  assume inv: "kt_inv s"
  from True obtain u where u: "t = Some u" "u \<noteq> []" "g_initialised s"
    "u \<notin> te_token ` set (g_entries s)"
    by (auto simp: find_None_iff has_token_def)
  have "kt_inv (save_to_disk_locked (s\<lparr>g_entries := g_entries s @ [\<lparr>te_token = u, te_name = None\<rparr>]\<rparr>))"
    using inv u by (intro kt_inv_save) (auto simp: kt_inv_def entry_ok_def)
  with True u show ?thesis by (simp add: tether_known_tokens_add_def)
qed (auto simp: tether_known_tokens_add_def split: option.splits)

lemma kt_inv_remove: "kt_inv s \<Longrightarrow> kt_inv (fst (tether_known_tokens_remove t s))"
proof -
  assume inv: "kt_inv s"
  have "kt_inv (save_to_disk_locked (s\<lparr>g_entries := erase_first (has_token u) (g_entries s)\<rparr>))"
    if "g_initialised s" for u
  proof (rule kt_inv_save [OF inv that])
    show "distinct (map te_token (erase_first (has_token u) (g_entries s)))"
      using inv by (simp add: distinct_map_erase_first kt_inv_def)
    show "\<forall>e \<in> set (erase_first (has_token u) (g_entries s)). entry_ok e"
      using inv by (intro erase_first_ball) (simp add: kt_inv_def)
  qed
  with inv show ?thesis by (simp add: tether_known_tokens_remove_def split: option.splits)
qed

lemma with_name_facts [simp]:
  "te_token (with_name n e) = te_token e"
  "te_name (with_name n e) = (if nonempty_str n then n else None)"
  "entry_ok e \<Longrightarrow> entry_ok (with_name n e)"
  by (auto simp: with_name_def entry_ok_def)

lemma kt_inv_set_name: "kt_inv s \<Longrightarrow> kt_inv (fst (tether_known_tokens_set_name t n s))"
proof -
  assume inv: "kt_inv s"
  have "kt_inv (save_to_disk_locked (s\<lparr>g_entries := update_first (has_token u) (with_name n) (g_entries s)\<rparr>))"
    if "g_initialised s" for u
  proof (rule kt_inv_save [OF inv that])
    show "distinct (map te_token (update_first (has_token u) (with_name n) (g_entries s)))"
      using inv by (simp add: map_update_first kt_inv_def)
    show "\<forall>e \<in> set (update_first (has_token u) (with_name n) (g_entries s)). entry_ok e"
      using inv by (intro update_first_ball) (auto simp: kt_inv_def)
  qed
  with inv show ?thesis by (simp add: tether_known_tokens_set_name_def split: option.splits)
qed

interpretation kt: framed_machine kt_step kt_inv kt_config_path
proof unfold_locales
  show "kt_inv (kt_step op s)" if "kt_inv s" for op s
    using that
    by (cases op) (simp_all add: kt_inv_init kt_inv_shutdown kt_inv_add kt_inv_remove kt_inv_set_name)
  show "kt_config_path (kt_step op s) = kt_config_path s" if "kt_inv s" for op s
    by (cases op) (auto simp: kt_ops split: option.splits)
qed

section \<open>The list as a book of tokens\<close>

lemma kt_ops_initialised [simp]:
  "g_initialised (fst (tether_known_tokens_add t s)) = g_initialised s"
  "g_initialised (fst (tether_known_tokens_remove t s)) = g_initialised s"
  "g_initialised (fst (tether_known_tokens_set_name t n s)) = g_initialised s"
  by (simp_all add: kt_ops split: option.splits)

definition kt_book :: "known_tokens \<Rightarrow> string \<rightharpoonup> string option" where
  "kt_book s t =
     (if g_initialised s then map_option te_name (find (has_token t) (g_entries s)) else None)"

definition kt_live :: "known_tokens \<Rightarrow> bool" where
  "kt_live s \<longleftrightarrow> kt_inv s \<and> g_initialised s"

interpretation known: token_book kt_live kt_book
  "\<lambda>t. tether_known_tokens_add (Some t)" "\<lambda>t. tether_known_tokens_remove (Some t)"
  "\<lambda>t. tether_known_tokens_set_name (Some t)"
proof unfold_locales
  fix s t n
  assume live: "kt_live s"
  then have inv: "kt_inv s" and ini: "g_initialised s" by (simp_all add: kt_live_def)
  show "kt_live (fst (tether_known_tokens_add (Some t) s))"
    by (simp add: kt_live_def kt_inv_add inv ini)
  show "kt_live (fst (tether_known_tokens_remove (Some t) s))"
    by (simp add: kt_live_def kt_inv_remove inv ini)
  show "kt_live (fst (tether_known_tokens_set_name (Some t) n s))"
    by (simp add: kt_live_def kt_inv_set_name inv ini)
  show "kt_book (fst (tether_known_tokens_remove (Some t) s)) = (kt_book s)(t := None)"
    using ini inv
    by (auto simp: tether_known_tokens_remove_def kt_book_def has_token_key kt_inv_def fun_eq_iff
        find_erase_first_key)
  show "snd (tether_known_tokens_remove (Some t) s) \<longleftrightarrow> kt_book s t \<noteq> None"
    using ini by (simp add: tether_known_tokens_remove_def kt_book_def)
  show "kt_book (fst (tether_known_tokens_set_name (Some t) n s)) =
      (if kt_book s t = None then kt_book s else (kt_book s)(t \<mapsto> (if nonempty_str n then n else None)))"
    using ini
    by (auto simp: tether_known_tokens_set_name_def kt_book_def has_token_key fun_eq_iff
        find_update_first_key)
  show "snd (tether_known_tokens_set_name (Some t) n s) \<longleftrightarrow> kt_book s t \<noteq> None"
    using ini by (simp add: tether_known_tokens_set_name_def kt_book_def)
  assume t: "t \<noteq> []"
  show "kt_book (fst (tether_known_tokens_add (Some t) s)) =
      (if kt_book s t = None then (kt_book s)(t \<mapsto> None) else kt_book s)"
    using ini t
    by (auto simp: tether_known_tokens_add_def kt_book_def has_token_key fun_eq_iff split: option.splits)
  show "snd (tether_known_tokens_add (Some t) s) \<longleftrightarrow> kt_book s t = None"
    using ini t by (simp add: tether_known_tokens_add_def kt_book_def)
qed


section \<open>Properties\<close>

text \<open>The state of the module before \<open>tether_known_tokens_init\<close>, with its file.\<close>

definition kt_start :: "string option \<Rightarrow> token_item list option option \<Rightarrow> known_tokens" where
  "kt_start path file =
     \<lparr>g_entries = [], g_initialised = False, kt_config_path = path, kt_disk = file, kt_dirs = []\<rparr>"

lemma kt_start_inv: "distinct (map te_token (file_entries (kt_start path file))) \<Longrightarrow> kt_inv (kt_start path file)"
  by (simp add: kt_inv_def kt_start_def)

text \<open>Whatever operations run, in whatever order, from a start whose file lists no token
  twice: no token is listed twice or is empty, no stored name is the empty string, and while the
  module is initialised the file on disk reads back as exactly the list in memory.\<close>

theorem known_tokens_invariant:
  assumes "distinct (map te_token (file_entries (kt_start path file)))"
  shows "let s = fold kt_step ops (kt_start path file) in
      distinct (map te_token (g_entries s)) \<and>
      [] \<notin> te_token ` set (g_entries s) \<and> Some [] \<notin> te_name ` set (g_entries s) \<and>
      (g_initialised s \<and> path \<noteq> None \<longrightarrow> file_entries s = g_entries s)"
proof -
  have "kt_inv (kt_start path file)" using assms by (rule kt_start_inv)
  from kt.run_inv [OF this] kt.run_frame [OF this]
  have "kt_inv (fold kt_step ops (kt_start path file))"
    and "kt_config_path (fold kt_step ops (kt_start path file)) = path"
    by (simp_all add: kt_start_def)
  then show ?thesis by (auto simp: Let_def kt_inv_def entry_ok_def)
qed

theorem known_tokens_invariant_witness:
  "let s = fold kt_step [KtInit, KtAdd (Some ''a''), KtAdd (Some ''b''), KtSetName (Some ''a'') (Some ''n'')]
        (kt_start (Some ''/c/t.json'') (Some (Some [\<lparr>ti_token = Some ''x'', ti_name = None\<rparr>]))) in
      distinct (map te_token (g_entries s)) \<and>
      [] \<notin> te_token ` set (g_entries s) \<and> Some [] \<notin> te_name ` set (g_entries s) \<and>
      (g_initialised s \<and> Some ''/c/t.json'' \<noteq> (None :: string option) \<longrightarrow> file_entries s = g_entries s)"
  by (rule known_tokens_invariant) (simp add: file_entries_def kt_start_def get_string_def)

text \<open>C29: adding, removing and renaming implement a map from tokens to optional names: adding
  binds an unknown token to no name and reports whether it did; removing unbinds it and reports
  whether it was known; renaming rebinds a known token (the empty name counting as none) and reports
  whether it was known; the lookup returns the name.\<close>

theorem known_tokens_refine_map:
  assumes "kt_inv s" and "g_initialised s" and "t \<noteq> []"
  shows "kt_book (fst (tether_known_tokens_add (Some t) s)) =
        (if kt_book s t = None then (kt_book s)(t \<mapsto> None) else kt_book s) \<and>
      (snd (tether_known_tokens_add (Some t) s) \<longleftrightarrow> kt_book s t = None) \<and>
      kt_book (fst (tether_known_tokens_remove (Some t) s)) = (kt_book s)(t := None) \<and>
      (snd (tether_known_tokens_remove (Some t) s) \<longleftrightarrow> kt_book s t \<noteq> None) \<and>
      kt_book (fst (tether_known_tokens_set_name (Some t) n s)) =
        (if kt_book s t = None then kt_book s
         else (kt_book s)(t \<mapsto> (if nonempty_str n then n else None))) \<and>
      (snd (tether_known_tokens_set_name (Some t) n s) \<longleftrightarrow> kt_book s t \<noteq> None) \<and>
      tether_known_tokens_get_name (Some t) s = Option.bind (kt_book s t) id"
proof -
  have live: "kt_live s" using assms by (simp add: kt_live_def)
  have "tether_known_tokens_get_name (Some t) s = Option.bind (kt_book s t) id"
    using assms(2) by (simp add: tether_known_tokens_get_name_def kt_book_def split: option.splits)
  with live assms(3) show ?thesis
    by (simp add: known.add_book known.add_result known.remove_book known.remove_result
        known.rename_book known.rename_result)
qed

definition kt_example :: known_tokens where
  "kt_example = \<lparr>g_entries = [\<lparr>te_token = ''x'', te_name = Some ''n''\<rparr>], g_initialised = True,
     kt_config_path = None, kt_disk = None, kt_dirs = []\<rparr>"

theorem known_tokens_refine_map_witness:
  "tether_known_tokens_get_name (Some ''x'') kt_example = Some ''n'' \<and>
    kt_book (fst (tether_known_tokens_remove (Some ''x'') kt_example)) ''x'' = None \<and>
    snd (tether_known_tokens_set_name (Some ''x'') None kt_example) \<and>
    kt_book (fst (tether_known_tokens_set_name (Some ''x'') None kt_example)) ''x'' = Some None"
proof -
  have "kt_inv kt_example" "g_initialised kt_example"
    by (simp_all add: kt_inv_def kt_example_def entry_ok_def file_entries_def)
  from known_tokens_refine_map [OF this, of "''x''" None] show ?thesis
    by (simp add: kt_book_def kt_example_def has_token_def)
qed

text \<open>The list survives a restart of the plugin: after any run of operations that leaves the
  module initialised, shutting it down and initialising it again gives back the same tokens with the
  same names, in the same order. (The header of the module says that tokens are not written back to
  disk.)\<close>

theorem known_tokens_survive_restart:
  assumes "distinct (map te_token (file_entries (kt_start (Some path) file)))"
    and "g_initialised (fold kt_step ops (kt_start (Some path) file))"
  shows "g_entries (tether_known_tokens_init (tether_known_tokens_shutdown
           (fold kt_step ops (kt_start (Some path) file)))) =
         g_entries (fold kt_step ops (kt_start (Some path) file))"
proof -
  let ?s = "fold kt_step ops (kt_start (Some path) file)"
  have inv: "kt_inv (kt_start (Some path) file)" using assms(1) by (rule kt_start_inv)
  from kt.run_inv [OF inv] kt.run_frame [OF inv] assms(2)
  have "file_entries ?s = g_entries ?s" and "kt_config_path ?s = Some path"
    by (simp_all add: kt_inv_def kt_start_def)
  then show ?thesis
    by (simp add: tether_known_tokens_init_def tether_known_tokens_shutdown_def file_entries_def)
qed

theorem known_tokens_survive_restart_witness:
  "let s = fold kt_step [KtInit, KtAdd (Some ''a''), KtSetName (Some ''a'') (Some ''n'')]
        (kt_start (Some ''/c/t.json'') None)
   in g_entries (tether_known_tokens_init (tether_known_tokens_shutdown s)) =
        [\<lparr>te_token = ''a'', te_name = Some ''n''\<rparr>]"
proof -
  have "distinct (map te_token (file_entries (kt_start (Some ''/c/t.json'') None)))"
    by (simp add: file_entries_def kt_start_def)
  moreover have "g_entries (fold kt_step [KtInit, KtAdd (Some ''a''), KtSetName (Some ''a'') (Some ''n'')]
      (kt_start (Some ''/c/t.json'') None)) = [\<lparr>te_token = ''a'', te_name = Some ''n''\<rparr>]"
    "g_initialised (fold kt_step [KtInit, KtAdd (Some ''a''), KtSetName (Some ''a'') (Some ''n'')]
      (kt_start (Some ''/c/t.json'') None))"
    by (simp_all add: kt_ops kt_start_def file_entries_def has_token_def with_name_def)
  ultimately show ?thesis
    using known_tokens_survive_restart [of "''/c/t.json''" None
        "[KtInit, KtAdd (Some ''a''), KtSetName (Some ''a'') (Some ''n'')]"]
    by (simp add: Let_def del: fold.simps)
qed

end
