(* ===== verification/Admission.thy ===== *)
theory Admission
  imports Interfaces
begin

text \<open>
  \<open>src/admission.c\<close>: the sender's waiting room. The list of peers with their states, the pinned
  fingerprints, and the rate limit with its lockout. Times are the 64-bit nanosecond counts of
  \<open>os_gettime_ns\<close>, with the wrap-around of the code's unsigned arithmetic. A pointer the code tests
  against NULL is an option. Each operation returns the new state, its result, and the peers that
  \<open>on_changed\<close> is called with.
\<close>

section \<open>State\<close>

definition TETHER_PEER_ID_MAX :: nat where
  "TETHER_PEER_ID_MAX = 64"

definition TETHER_FINGERPRINT_MAX :: nat where
  "TETHER_FINGERPRINT_MAX = 128"

definition TETHER_DISPLAY_MAX :: nat where
  "TETHER_DISPLAY_MAX = 128"

lemmas peer_sizes = TETHER_PEER_ID_MAX_def TETHER_FINGERPRINT_MAX_def TETHER_DISPLAY_MAX_def

datatype tether_peer_state =
    TETHER_PEER_PENDING
  | TETHER_PEER_ACCEPTED
  | TETHER_PEER_REJECTED
  | TETHER_PEER_REVOKED
  | TETHER_PEER_DISCONNECTED

record tether_peer =
  peer_id :: string
  peer_display_name :: string
  peer_fingerprint :: string
  peer_state :: tether_peer_state
  peer_pinned :: bool
  peer_first_seen_ns :: u64

text \<open>\<open>ac_on_changed\<close> says whether the callback is set.\<close>

record tether_admission_config =
  ac_max_receivers :: int
  ac_rate_limit_window_seconds :: int
  ac_rate_limit_max_attempts :: int
  ac_lockout_seconds :: int
  ac_auto_accept_pinned :: bool
  ac_on_changed :: bool

record tether_admission =
  adm_cfg :: tether_admission_config
  adm_peers :: "tether_peer list"
  adm_attempts :: "u64 list"
  adm_lockout_until_ns :: u64

text \<open>
  The readings of the clock during one call of \<open>tether_admission_add_pending\<close>, in program order:
  in \<open>rate_limit_blocks_locked\<close>, in \<open>prune_attempts_locked\<close>, for the recorded attempt, and for
  \<open>first_seen_ns\<close>.
\<close>

record adm_clock =
  ck_limit :: u64
  ck_prune :: u64
  ck_attempt :: u64
  ck_seen :: u64

section \<open>Helpers under the lock\<close>

definition has_peer_id :: "string \<Rightarrow> tether_peer \<Rightarrow> bool" where
  "has_peer_id i p \<longleftrightarrow> peer_id p = i"

definition find_peer_locked :: "tether_admission \<Rightarrow> string \<Rightarrow> tether_peer option" where
  "find_peer_locked a i = find (has_peer_id i) (adm_peers a)"

definition count_locked :: "tether_admission \<Rightarrow> tether_peer_state \<Rightarrow> int" where
  "count_locked a s = int (length (filter (\<lambda>p. peer_state p = s) (adm_peers a)))"

text \<open>\<open>(uint64_t) secs * 1000000000ULL\<close>\<close>

definition ns_of_secs :: "int \<Rightarrow> u64" where
  "ns_of_secs secs = word_of_int secs * 1000000000"

definition prune_attempts_locked :: "u64 \<Rightarrow> tether_admission \<Rightarrow> tether_admission" where
  "prune_attempts_locked now a =
     (if ac_rate_limit_window_seconds (adm_cfg a) \<le> 0 then a
      else let cutoff = now - ns_of_secs (ac_rate_limit_window_seconds (adm_cfg a))
           in a\<lparr>adm_attempts := dropWhile (\<lambda>t. \<not> cutoff \<le> t) (adm_attempts a)\<rparr>)"

text \<open>\<open>(int) n\<close> of a \<open>size_t\<close>.\<close>

definition int_of_size :: "nat \<Rightarrow> int" where
  "int_of_size n = sint (word_of_nat n :: 32 word)"

definition rate_limit_blocks_locked :: "u64 \<Rightarrow> u64 \<Rightarrow> tether_admission \<Rightarrow> tether_admission \<times> bool" where
  "rate_limit_blocks_locked now now_prune a =
     (if now < adm_lockout_until_ns a then (a, True)
      else let a' = prune_attempts_locked now_prune a in
           if 0 < ac_rate_limit_max_attempts (adm_cfg a') \<and>
              ac_rate_limit_max_attempts (adm_cfg a') \<le> int_of_size (length (adm_attempts a'))
           then (a'\<lparr>adm_lockout_until_ns := now + ns_of_secs (ac_lockout_seconds (adm_cfg a'))\<rparr>, True)
           else (a', False))"

section \<open>Operations\<close>

definition tether_admission_create :: "tether_admission_config \<Rightarrow> tether_admission" where
  "tether_admission_create cfg =
     \<lparr>adm_cfg = cfg\<lparr>
        ac_max_receivers := (if ac_max_receivers cfg \<le> 0 then 4 else ac_max_receivers cfg),
        ac_rate_limit_window_seconds :=
          (if ac_rate_limit_window_seconds cfg \<le> 0 then 60 else ac_rate_limit_window_seconds cfg),
        ac_rate_limit_max_attempts :=
          (if ac_rate_limit_max_attempts cfg \<le> 0 then 10 else ac_rate_limit_max_attempts cfg),
        ac_lockout_seconds := (if ac_lockout_seconds cfg \<le> 0 then 300 else ac_lockout_seconds cfg)\<rparr>,
      adm_peers = [], adm_attempts = [], adm_lockout_until_ns = 0\<rparr>"

definition tether_admission_release :: "tether_admission option \<Rightarrow> tether_admission option" where
  "tether_admission_release adm = None"

type_synonym adm_result = "tether_admission option \<times> bool \<times> tether_peer list"

definition on_changed :: "tether_admission \<Rightarrow> tether_peer \<Rightarrow> tether_peer list" where
  "on_changed a p = (if ac_on_changed (adm_cfg a) then [p] else [])"

text \<open>\<open>strncpy\<close> of a possibly NULL argument into a zeroed field.\<close>

definition copy_field :: "nat \<Rightarrow> string option \<Rightarrow> string" where
  "copy_field n s = (case s of None \<Rightarrow> [] | Some t \<Rightarrow> strncpy_buf n t)"

definition new_peer :: "u64 \<Rightarrow> string \<Rightarrow> string option \<Rightarrow> string option \<Rightarrow> tether_peer" where
  "new_peer seen i display_name fingerprint =
     \<lparr>peer_id = strncpy_buf TETHER_PEER_ID_MAX i,
      peer_display_name = copy_field TETHER_DISPLAY_MAX display_name,
      peer_fingerprint = copy_field TETHER_FINGERPRINT_MAX fingerprint,
      peer_state = TETHER_PEER_PENDING, peer_pinned = False, peer_first_seen_ns = seen\<rparr>"

text \<open>The loop that auto-accepts a pinned fingerprint.\<close>

definition auto_accept :: "tether_admission \<Rightarrow> string option \<Rightarrow> tether_peer \<Rightarrow> tether_peer" where
  "auto_accept a fingerprint p =
     (case fingerprint of
        None \<Rightarrow> p
      | Some f \<Rightarrow>
          if ac_auto_accept_pinned (adm_cfg a) \<and>
             (\<exists>q \<in> set (adm_peers a). peer_pinned q \<and> peer_fingerprint q = f)
          then p\<lparr>peer_pinned := True, peer_state := TETHER_PEER_ACCEPTED\<rparr>
          else p)"

definition tether_admission_add_pending ::
  "adm_clock \<Rightarrow> tether_admission option \<Rightarrow> string option \<Rightarrow> string option \<Rightarrow> string option \<Rightarrow> adm_result" where
  "tether_admission_add_pending ck adm pid display_name fingerprint =
     (case (adm, pid) of
        (Some a, Some i) \<Rightarrow>
          (case rate_limit_blocks_locked (ck_limit ck) (ck_prune ck) a of
             (a1, True) \<Rightarrow> (Some a1, False, [])
           | (a1, False) \<Rightarrow>
               let a2 = a1\<lparr>adm_attempts := adm_attempts a1 @ [ck_attempt ck]\<rparr> in
               if find_peer_locked a2 i \<noteq> None then (Some a2, False, [])
               else if ac_max_receivers (adm_cfg a2) \<le> count_locked a2 TETHER_PEER_ACCEPTED
               then (Some a2, False, [])
               else let p = auto_accept a2 fingerprint (new_peer (ck_seen ck) i display_name fingerprint);
                        a3 = a2\<lparr>adm_peers := adm_peers a2 @ [p]\<rparr>
                    in (Some a3, True, on_changed a3 p))
      | _ \<Rightarrow> (adm, False, []))"

definition with_state :: "tether_peer_state \<Rightarrow> bool \<Rightarrow> tether_peer \<Rightarrow> tether_peer" where
  "with_state s pin p = p\<lparr>peer_state := s, peer_pinned := (if pin then True else peer_pinned p)\<rparr>"

definition set_peer_state ::
  "tether_admission option \<Rightarrow> string option \<Rightarrow> tether_peer_state \<Rightarrow> bool \<Rightarrow> adm_result" where
  "set_peer_state adm pid new_state pin =
     (case (adm, pid) of
        (Some a, Some i) \<Rightarrow>
          (case find_peer_locked a i of
             None \<Rightarrow> (Some a, False, [])
           | Some p \<Rightarrow>
               let a' = a\<lparr>adm_peers := update_first (has_peer_id i) (with_state new_state pin) (adm_peers a)\<rparr>
               in (Some a', True, on_changed a' (with_state new_state pin p)))
      | _ \<Rightarrow> (adm, False, []))"

definition tether_admission_accept :: "tether_admission option \<Rightarrow> string option \<Rightarrow> bool \<Rightarrow> adm_result" where
  "tether_admission_accept adm pid pin = set_peer_state adm pid TETHER_PEER_ACCEPTED pin"

definition tether_admission_reject :: "tether_admission option \<Rightarrow> string option \<Rightarrow> adm_result" where
  "tether_admission_reject adm pid = set_peer_state adm pid TETHER_PEER_REJECTED False"

definition tether_admission_disconnect_peer :: "tether_admission option \<Rightarrow> string option \<Rightarrow> adm_result" where
  "tether_admission_disconnect_peer adm pid = set_peer_state adm pid TETHER_PEER_DISCONNECTED False"

definition tether_admission_revoke_all :: "tether_admission option \<Rightarrow> tether_admission option" where
  "tether_admission_revoke_all adm =
     map_option (\<lambda>a. a\<lparr>adm_peers := map (\<lambda>p. p\<lparr>peer_state := TETHER_PEER_REVOKED\<rparr>) (adm_peers a)\<rparr>) adm"

section \<open>Queries\<close>

text \<open>The peers the callback is called with, in order; \<open>cb\<close> says whether it is not NULL.\<close>

definition tether_admission_iter :: "tether_admission option \<Rightarrow> bool \<Rightarrow> tether_peer list" where
  "tether_admission_iter adm cb =
     (case adm of None \<Rightarrow> [] | Some a \<Rightarrow> if cb then adm_peers a else [])"

definition tether_admission_count :: "tether_admission option \<Rightarrow> tether_peer_state \<Rightarrow> int" where
  "tether_admission_count adm s = (case adm of None \<Rightarrow> 0 | Some a \<Rightarrow> count_locked a s)"

definition tether_admission_is_locked_out :: "u64 \<Rightarrow> tether_admission option \<Rightarrow> bool" where
  "tether_admission_is_locked_out now adm =
     (case adm of None \<Rightarrow> False | Some a \<Rightarrow> now < adm_lockout_until_ns a)"

definition tether_admission_lockout_remaining :: "u64 \<Rightarrow> tether_admission option \<Rightarrow> int" where
  "tether_admission_lockout_remaining now adm =
     (case adm of
        None \<Rightarrow> 0
      | Some a \<Rightarrow>
          if now < adm_lockout_until_ns a
          then sint (ucast ((adm_lockout_until_ns a - now) div 1000000000) :: 32 word)
          else 0)"

definition tether_admission_verify_pinned ::
  "tether_admission option \<Rightarrow> string option \<Rightarrow> string option \<Rightarrow> bool" where
  "tether_admission_verify_pinned adm pid fingerprint =
     (case (adm, pid, fingerprint) of
        (Some a, Some i, Some f) \<Rightarrow>
          (case find_peer_locked a i of
             None \<Rightarrow> False
           | Some p \<Rightarrow> peer_pinned p \<and> peer_fingerprint p = f)
      | _ \<Rightarrow> False)"


section \<open>The waiting room as a machine\<close>

datatype adm_op =
    AddPending adm_clock "string option" "string option" "string option"
  | AcceptPeer "string option" bool
  | RejectPeer "string option"
  | DisconnectPeer "string option"
  | RevokeAll

fun adm_call :: "adm_op \<Rightarrow> tether_admission option \<Rightarrow> adm_result" where
  "adm_call (AddPending ck i n f) adm = tether_admission_add_pending ck adm i n f"
| "adm_call (AcceptPeer i pin) adm = tether_admission_accept adm i pin"
| "adm_call (RejectPeer i) adm = tether_admission_reject adm i"
| "adm_call (DisconnectPeer i) adm = tether_admission_disconnect_peer adm i"
| "adm_call RevokeAll adm = (tether_admission_revoke_all adm, True, [])"

definition adm_step :: "adm_op \<Rightarrow> tether_admission option \<Rightarrow> tether_admission option" where
  "adm_step op adm = fst (adm_call op adm)"

lemmas adm_state_changes =
  tether_admission_accept_def tether_admission_reject_def tether_admission_disconnect_peer_def

text \<open>
  What one step can do to a state: leave the peers alone (perhaps pruning, counting an attempt, or
  starting a lockout), append one peer, change one peer, or revoke all of them.
\<close>

inductive adm_effect :: "adm_op \<Rightarrow> tether_admission \<Rightarrow> tether_admission \<Rightarrow> tether_peer list \<Rightarrow> bool" where
  no_peer_change:
    "adm_peers b = adm_peers a \<Longrightarrow> adm_cfg b = adm_cfg a \<Longrightarrow> adm_effect op a b []"
| new_peer:
    "adm_peers b = adm_peers a @ [auto_accept a f (new_peer (ck_seen ck) i n f)] \<Longrightarrow>
     adm_cfg b = adm_cfg a \<Longrightarrow> find_peer_locked a i = None \<Longrightarrow>
     count_locked a TETHER_PEER_ACCEPTED < ac_max_receivers (adm_cfg a) \<Longrightarrow>
     adm_effect (AddPending ck (Some i) n f) a b
       (on_changed b (auto_accept a f (new_peer (ck_seen ck) i n f)))"
| peer_change:
    "find_peer_locked a i = Some p \<Longrightarrow>
     op = AcceptPeer (Some i) pin \<and> s = TETHER_PEER_ACCEPTED \<or>
     op = RejectPeer (Some i) \<and> s = TETHER_PEER_REJECTED \<and> \<not> pin \<or>
     op = DisconnectPeer (Some i) \<and> s = TETHER_PEER_DISCONNECTED \<and> \<not> pin \<Longrightarrow>
     b = a\<lparr>adm_peers := update_first (has_peer_id i) (with_state s pin) (adm_peers a)\<rparr> \<Longrightarrow>
     adm_effect op a b (on_changed b (with_state s pin p))"
| revoked:
    "b = a\<lparr>adm_peers := map (\<lambda>p. p\<lparr>peer_state := TETHER_PEER_REVOKED\<rparr>) (adm_peers a)\<rparr> \<Longrightarrow>
     adm_effect RevokeAll a b []"

inductive_cases adm_effect_revoke: "adm_effect RevokeAll a b ns"
inductive_cases adm_effect_add: "adm_effect (AddPending ck i n f) a b ns"

lemma rate_limit_frame:
  assumes "rate_limit_blocks_locked t u a = (b, r)"
  shows "adm_peers b = adm_peers a" and "adm_cfg b = adm_cfg a"
  using assms
  by (auto simp: rate_limit_blocks_locked_def prune_attempts_locked_def Let_def split: if_splits)

lemma auto_accept_cong:
  "adm_peers a = adm_peers b \<Longrightarrow> adm_cfg a = adm_cfg b \<Longrightarrow> auto_accept a f p = auto_accept b f p"
  by (simp add: auto_accept_def split: option.splits)

lemma set_peer_state_effect:
  assumes "set_peer_state (Some a) i s pin = (r, ok, ns)"
    and "op = AcceptPeer i pin \<and> s = TETHER_PEER_ACCEPTED \<or>
     op = RejectPeer i \<and> s = TETHER_PEER_REJECTED \<and> \<not> pin \<or>
     op = DisconnectPeer i \<and> s = TETHER_PEER_DISCONNECTED \<and> \<not> pin"
  shows "\<exists>b. r = Some b \<and> adm_effect op a b ns"
proof (cases "\<exists>j p. i = Some j \<and> find_peer_locked a j = Some p")
  case True
  then obtain j p where j: "i = Some j" "find_peer_locked a j = Some p" by blast
  with assms(1) have "r = Some (a\<lparr>adm_peers := update_first (has_peer_id j) (with_state s pin) (adm_peers a)\<rparr>)"
    and "ns = on_changed (a\<lparr>adm_peers := update_first (has_peer_id j) (with_state s pin) (adm_peers a)\<rparr>)
      (with_state s pin p)"
    by (auto simp: set_peer_state_def Let_def)
  with j assms(2) show ?thesis by (blast intro: adm_effect.peer_change)
next
  case False
  with assms(1) have "r = Some a" "ns = []"
    by (auto simp: set_peer_state_def Let_def split: option.splits)
  then show ?thesis by (auto intro: adm_effect.no_peer_change)
qed

lemma add_pending_effect:
  assumes "tether_admission_add_pending ck (Some a) i n f = (r, ok, ns)"
  shows "\<exists>b. r = Some b \<and> adm_effect (AddPending ck i n f) a b ns"
proof (cases i)
  case None
  with assms show ?thesis
    by (auto simp: tether_admission_add_pending_def intro: adm_effect.no_peer_change)
next
  case (Some j)
  obtain a1 blocked where bl: "rate_limit_blocks_locked (ck_limit ck) (ck_prune ck) a = (a1, blocked)"
    by fastforce
  note fr = rate_limit_frame [OF bl]
  define a2 where "a2 = a1\<lparr>adm_attempts := adm_attempts a1 @ [ck_attempt ck]\<rparr>"
  have a2: "adm_peers a2 = adm_peers a" "adm_cfg a2 = adm_cfg a"
    "find_peer_locked a2 j = find_peer_locked a j"
    "count_locked a2 s = count_locked a s" for s
    using fr by (simp_all add: a2_def find_peer_locked_def count_locked_def)
  let ?p = "auto_accept a f (new_peer (ck_seen ck) j n f)"
  have p: "auto_accept a2 f (new_peer (ck_seen ck) j n f) = ?p"
    using a2 by (intro auto_accept_cong) auto
  show ?thesis
  proof (cases "blocked \<or> find_peer_locked a j \<noteq> None \<or>
      ac_max_receivers (adm_cfg a) \<le> count_locked a TETHER_PEER_ACCEPTED")
    case True
    with assms Some bl a2 have "\<exists>b. r = Some b \<and> ns = [] \<and> adm_peers b = adm_peers a \<and> adm_cfg b = adm_cfg a"
      using fr
      by (cases blocked) (auto simp: tether_admission_add_pending_def Let_def a2_def [symmetric] split: if_splits)
    then show ?thesis by (auto intro: adm_effect.no_peer_change)
  next
    case False
    with assms Some bl a2
    have "r = Some (a2\<lparr>adm_peers := adm_peers a @ [?p]\<rparr>)"
      and "ns = on_changed (a2\<lparr>adm_peers := adm_peers a @ [?p]\<rparr>) ?p"
      by (auto simp: tether_admission_add_pending_def Let_def a2_def [symmetric] p)
    with False Some a2 show ?thesis by (auto intro!: adm_effect.new_peer)
  qed
qed

lemma adm_call_effect:
  assumes "adm_call op (Some a) = (r, ok, ns)"
  shows "\<exists>b. r = Some b \<and> adm_effect op a b ns"
proof (cases op)
  case (AddPending ck i n f)
  with assms show ?thesis by (auto intro: add_pending_effect)
next
  case (AcceptPeer i pin)
  with assms show ?thesis by (auto simp: adm_state_changes intro!: set_peer_state_effect)
next
  case (RejectPeer i)
  with assms show ?thesis by (auto simp: adm_state_changes intro!: set_peer_state_effect)
next
  case (DisconnectPeer i)
  with assms show ?thesis by (auto simp: adm_state_changes intro!: set_peer_state_effect)
next
  case RevokeAll
  with assms show ?thesis by (auto simp: tether_admission_revoke_all_def intro: adm_effect.revoked)
qed

lemma adm_step_effect: "\<exists>b ns. adm_step op (Some a) = Some b \<and> adm_effect op a b ns"
proof -
  obtain r ok ns where "adm_call op (Some a) = (r, ok, ns)" by (metis prod_cases3)
  with adm_call_effect [OF this] show ?thesis by (auto simp: adm_step_def)
qed

lemma adm_step_None [simp]: "adm_step op None = None"
  by (cases op)
     (simp_all add: adm_step_def tether_admission_add_pending_def adm_state_changes set_peer_state_def
       tether_admission_revoke_all_def)

text \<open>An invariant of the state behind the pointer, for the machine over the pointer.\<close>

definition behind :: "('a \<Rightarrow> bool) \<Rightarrow> 'a option \<Rightarrow> bool" where
  "behind q adm = (case adm of None \<Rightarrow> True | Some a \<Rightarrow> q a)"

lemma behind_simps [simp]: "behind q None" "behind q (Some a) = q a"
  by (simp_all add: behind_def)

lemma adm_step_behind:
  assumes "\<And>a b ns. q a \<Longrightarrow> adm_effect op a b ns \<Longrightarrow> q b" and "behind q adm"
  shows "behind q (adm_step op adm)"
proof (cases adm)
  case (Some a)
  obtain b ns where "adm_step op (Some a) = Some b" "adm_effect op a b ns"
    using adm_step_effect by blast
  with assms Some show ?thesis by auto
qed simp


section \<open>Invariants of the peer list\<close>

text \<open>The fields fit their buffers.\<close>

definition peer_fits :: "tether_peer \<Rightarrow> bool" where
  "peer_fits p \<longleftrightarrow> length (peer_id p) < TETHER_PEER_ID_MAX \<and>
     length (peer_display_name p) < TETHER_DISPLAY_MAX \<and>
     length (peer_fingerprint p) < TETHER_FINGERPRINT_MAX"

definition peers_fit :: "tether_admission \<Rightarrow> bool" where
  "peers_fit a \<longleftrightarrow> (\<forall>p \<in> set (adm_peers a). peer_fits p)"

lemma with_state_simps [simp]:
  "peer_id (with_state s pin p) = peer_id p"
  "peer_display_name (with_state s pin p) = peer_display_name p"
  "peer_fingerprint (with_state s pin p) = peer_fingerprint p"
  "peer_state (with_state s pin p) = s"
  "peer_pinned (with_state s pin p) = (pin \<or> peer_pinned p)"
  "peer_first_seen_ns (with_state s pin p) = peer_first_seen_ns p"
  by (simp_all add: with_state_def)

lemma peer_fits_with_state [simp]: "peer_fits (with_state s pin p) = peer_fits p"
  by (simp add: peer_fits_def)

lemma auto_accept_simps [simp]:
  "peer_id (auto_accept a f p) = peer_id p"
  "peer_display_name (auto_accept a f p) = peer_display_name p"
  "peer_fingerprint (auto_accept a f p) = peer_fingerprint p"
  "peer_first_seen_ns (auto_accept a f p) = peer_first_seen_ns p"
  by (simp_all add: auto_accept_def split: option.splits)

lemma new_peer_fits [simp]: "peer_fits (new_peer t i n f)"
  by (simp add: peer_fits_def new_peer_def copy_field_def peer_sizes split: option.splits)

lemma auto_accept_fits [simp]: "peer_fits (auto_accept a f p) = peer_fits p"
  by (simp add: peer_fits_def)

lemma peer_fits_state [simp]: "peer_fits (p\<lparr>peer_state := s\<rparr>) = peer_fits p"
  by (simp add: peer_fits_def)

lemma peers_fit_effect:
  assumes "adm_effect op a b ns" and "peers_fit a"
  shows "peers_fit b"
  using assms
proof (induction rule: adm_effect.induct)
  case (peer_change a i p op pin s b)
  then show ?case
    unfolding peers_fit_def by (auto elim: in_update_firstE)
qed (simp_all add: peers_fit_def)

text \<open>Without truncation, ids stay distinct.\<close>

definition short_id :: "adm_op \<Rightarrow> bool" where
  "short_id op = (case op of AddPending _ (Some i) _ _ \<Rightarrow> length i < TETHER_PEER_ID_MAX | _ \<Rightarrow> True)"

definition ids_distinct :: "tether_admission \<Rightarrow> bool" where
  "ids_distinct a \<longleftrightarrow> distinct (map peer_id (adm_peers a))"

lemma ids_distinct_effect:
  assumes "adm_effect op a b ns" and "short_id op" and "ids_distinct a"
  shows "ids_distinct b"
  using assms
proof (induction rule: adm_effect.induct)
  case (new_peer b a f ck i n)
  then have "strncpy_buf TETHER_PEER_ID_MAX i = i" by (simp add: short_id_def strncpy_buf_fits)
  with new_peer show ?case
    by (auto simp: ids_distinct_def new_peer_def find_peer_locked_def find_None_iff has_peer_id_def)
next
  case (peer_change a i p op pin s b)
  then show ?case by (simp add: ids_distinct_def map_update_first)
next
  case (revoked b a)
  then show ?case by (simp add: ids_distinct_def comp_def)
qed (simp add: ids_distinct_def)

text \<open>
  How one step moves the list: peers keep their position, identity, fingerprint and pin.
\<close>

definition peer_succ :: "tether_peer \<Rightarrow> tether_peer \<Rightarrow> bool" where
  "peer_succ p q \<longleftrightarrow> peer_id q = peer_id p \<and> peer_display_name q = peer_display_name p \<and>
     peer_fingerprint q = peer_fingerprint p \<and> peer_first_seen_ns q = peer_first_seen_ns p \<and>
     (peer_pinned p \<longrightarrow> peer_pinned q)"

definition peers_succ :: "tether_admission \<Rightarrow> tether_admission \<Rightarrow> bool" where
  "peers_succ a b \<longleftrightarrow> adm_cfg b = adm_cfg a \<and>
     list_all2 peer_succ (adm_peers a) (take (length (adm_peers a)) (adm_peers b))"

lemma peer_succ_refl [simp]: "peer_succ p p"
  by (simp add: peer_succ_def)

lemma peer_succ_trans: "peer_succ p q \<Longrightarrow> peer_succ q r \<Longrightarrow> peer_succ p r"
  by (simp add: peer_succ_def)

lemma peers_succ_refl [simp]: "peers_succ a a"
  by (simp add: peers_succ_def list_all2_refl)

lemma peers_succ_trans: "peers_succ a b \<Longrightarrow> peers_succ b c \<Longrightarrow> peers_succ a c"
  unfolding peers_succ_def list_all2_conv_all_nth
  by (auto intro: peer_succ_trans)

lemma peers_succ_effect:
  assumes "adm_effect op a b ns"
  shows "peers_succ a b"
  using assms
proof (induction rule: adm_effect.induct)
  case (peer_change a i p op pin s b)
  then show ?case
    by (simp add: peers_succ_def list_all2_update_first peer_succ_def)
next
  case (revoked b a)
  then show ?case by (simp add: peers_succ_def list.rel_map list_all2_refl peer_succ_def)
qed (simp_all add: peers_succ_def list_all2_refl)

lemma peers_succ_run:
  "fold adm_step ops (Some a) = Some b \<Longrightarrow> peers_succ a b"
proof (induction ops arbitrary: a)
  case Nil
  then show ?case by simp
next
  case (Cons op ops)
  obtain c ns where c: "adm_step op (Some a) = Some c" "adm_effect op a c ns"
    using adm_step_effect by blast
  with Cons have "peers_succ c b" by simp
  with c peers_succ_effect peers_succ_trans show ?case by blast
qed

lemma adm_run_Some: "\<exists>b. fold adm_step ops (Some a) = Some b"
proof (induction ops arbitrary: a)
  case (Cons op ops)
  obtain c ns where "adm_step op (Some a) = Some c" using adm_step_effect by blast
  with Cons show ?case by simp
qed simp

interpretation adm_fits: invariant_machine adm_step "behind peers_fit"
  by unfold_locales (rule adm_step_behind [OF peers_fit_effect], assumption+)

interpretation adm_ids: guarded_machine adm_step short_id "behind ids_distinct"
  by unfold_locales (rule adm_step_behind [OF ids_distinct_effect], assumption+)

lemma create_simps [simp]:
  "adm_peers (tether_admission_create cfg) = []"
  "adm_attempts (tether_admission_create cfg) = []"
  "adm_lockout_until_ns (tether_admission_create cfg) = 0"
  "0 < ac_max_receivers (adm_cfg (tether_admission_create cfg))"
  "0 < ac_rate_limit_window_seconds (adm_cfg (tether_admission_create cfg))"
  "0 < ac_rate_limit_max_attempts (adm_cfg (tether_admission_create cfg))"
  "0 < ac_lockout_seconds (adm_cfg (tether_admission_create cfg))"
  "ac_auto_accept_pinned (adm_cfg (tether_admission_create cfg)) = ac_auto_accept_pinned cfg"
  "ac_on_changed (adm_cfg (tether_admission_create cfg)) = ac_on_changed cfg"
  by (simp_all add: tether_admission_create_def)

section \<open>Who gets accepted\<close>

text \<open>
  The history of operations explains the accepted and the pinned peers of the state.
\<close>

definition explained :: "adm_op list \<Rightarrow> tether_admission \<Rightarrow> tether_peer \<Rightarrow> bool" where
  "explained hist a p \<longleftrightarrow>
     (\<exists>i q. AcceptPeer (Some i) True \<in> set hist \<and> q \<in> set (adm_peers a) \<and> peer_id q = i \<and>
        peer_fingerprint q = peer_fingerprint p)"

definition history_inv :: "adm_op list \<Rightarrow> tether_admission \<Rightarrow> bool" where
  "history_inv hist a \<longleftrightarrow>
     peers_fit a \<and>
     (\<forall>p \<in> set (adm_peers a). peer_pinned p \<longrightarrow> explained hist a p) \<and>
     (\<forall>p \<in> set (adm_peers a). peer_state p = TETHER_PEER_ACCEPTED \<longrightarrow>
        (\<exists>pin. AcceptPeer (Some (peer_id p)) pin \<in> set hist) \<or>
        (ac_auto_accept_pinned (adm_cfg a) \<and> explained hist a p))"

lemma explained_step:
  assumes "explained hist a p" and "peers_succ a b" and "peer_fingerprint p' = peer_fingerprint p"
  shows "explained (hist @ [op]) b p'"
proof -
  from assms(1) obtain i q where q: "AcceptPeer (Some i) True \<in> set hist" "q \<in> set (adm_peers a)"
    "peer_id q = i" "peer_fingerprint q = peer_fingerprint p"
    by (auto simp: explained_def)
  from q(2) assms(2) obtain q' where "q' \<in> set (take (length (adm_peers a)) (adm_peers b))" "peer_succ q q'"
    unfolding peers_succ_def by (blast dest: list_all2_partner)
  then have "q' \<in> set (adm_peers b)" "peer_id q' = i" "peer_fingerprint q' = peer_fingerprint p'"
    using q assms(3) by (auto simp: peer_succ_def dest: in_set_takeD)
  with q(1) show ?thesis unfolding explained_def by auto
qed


lemma auto_accept_cases:
  obtains "auto_accept a f p = p"
  | g q where "f = Some g" "ac_auto_accept_pinned (adm_cfg a)" "q \<in> set (adm_peers a)" "peer_pinned q"
      "peer_fingerprint q = g" "auto_accept a f p = p\<lparr>peer_pinned := True, peer_state := TETHER_PEER_ACCEPTED\<rparr>"
proof (cases "\<exists>g q. f = Some g \<and> ac_auto_accept_pinned (adm_cfg a) \<and> q \<in> set (adm_peers a) \<and>
    peer_pinned q \<and> peer_fingerprint q = g")
  case True
  then obtain g q where q: "f = Some g" "ac_auto_accept_pinned (adm_cfg a)" "q \<in> set (adm_peers a)"
    "peer_pinned q" "peer_fingerprint q = g" by blast
  moreover from q have "auto_accept a f p = p\<lparr>peer_pinned := True, peer_state := TETHER_PEER_ACCEPTED\<rparr>"
    by (auto simp: auto_accept_def)
  ultimately show ?thesis by (rule that(2))
next
  case False
  then have "auto_accept a f p = p" by (auto simp: auto_accept_def split: option.splits)
  then show ?thesis by (rule that(1))
qed

lemma history_new_peer:
  assumes inv: "history_inv hist a" and succ: "peers_succ a b"
    and p: "p = auto_accept a f (new_peer t i n f)"
  shows "(peer_pinned p \<longrightarrow> explained (hist @ [op]) b p) \<and>
    (peer_state p = TETHER_PEER_ACCEPTED \<longrightarrow> ac_auto_accept_pinned (adm_cfg b) \<and> explained (hist @ [op]) b p)"
proof (cases rule: auto_accept_cases [of a f "new_peer t i n f"])
  case 1
  then show ?thesis by (simp add: p new_peer_def)
next
  case (2 g q)
  with inv have "explained hist a q" and "length g < TETHER_FINGERPRINT_MAX"
    by (auto simp: history_inv_def peers_fit_def peer_fits_def)
  moreover have "peer_fingerprint p = peer_fingerprint q"
    using 2 calculation(2) by (simp add: p new_peer_def copy_field_def strncpy_buf_fits)
  ultimately have "explained (hist @ [op]) b p" using succ by (blast intro: explained_step)
  with 2 succ show ?thesis by (simp add: peers_succ_def)
qed

lemma history_inv_effect:
  assumes eff: "adm_effect op a b ns" and inv: "history_inv hist a"
  shows "history_inv (hist @ [op]) b"
proof -
  note succ = peers_succ_effect [OF eff]
  have fit: "peers_fit b" using eff inv by (auto simp: history_inv_def intro: peers_fit_effect)
  have cfg: "adm_cfg b = adm_cfg a" using succ by (simp add: peers_succ_def)
  define good where "good x \<longleftrightarrow>
      (peer_pinned x \<longrightarrow> explained (hist @ [op]) b x) \<and>
      (peer_state x = TETHER_PEER_ACCEPTED \<longrightarrow>
        (\<exists>pin. AcceptPeer (Some (peer_id x)) pin \<in> set (hist @ [op])) \<or>
        ac_auto_accept_pinned (adm_cfg a) \<and> explained (hist @ [op]) b x)" for x
  have pin: "explained (hist @ [op]) b x"
    if "y \<in> set (adm_peers a)" "peer_pinned y" "peer_fingerprint x = peer_fingerprint y" for x y
    using that inv succ by (auto simp: history_inv_def intro: explained_step)
  have old: "good x" if "x \<in> set (adm_peers a)" for x
    using that inv succ pin unfolding good_def history_inv_def by (auto intro: explained_step)
  have "\<forall>x \<in> set (adm_peers b). good x"
    using eff
  proof (cases rule: adm_effect.cases)
    case no_peer_change
    with old show ?thesis by simp
  next
    case (new_peer f ck i n)
    with old history_new_peer [OF inv succ refl, of f _ i n op] cfg show ?thesis by (simp add: good_def)
  next
    case (peer_change i p pin s)
    show ?thesis
    proof
      fix x assume x: "x \<in> set (adm_peers b)"
      then consider "x \<in> set (adm_peers a)"
        | y where "y \<in> set (adm_peers a)" "has_peer_id i y" "x = with_state s pin y"
        unfolding peer_change(4) by (auto elim: in_update_firstE)
      then show "good x"
      proof cases
        case 1
        then show ?thesis by (rule old)
      next
        case (2 y)
        then have id: "peer_id x = i" by (simp add: has_peer_id_def)
        have "explained (hist @ [op]) b x" if "peer_pinned x"
        proof (cases pin)
          case True
          with peer_change(3) have "AcceptPeer (Some i) True \<in> set (hist @ [op])" by auto
          with x id show ?thesis unfolding explained_def by blast
        next
          case False
          with that 2 show ?thesis by (intro pin [of y]) auto
        qed
        with 2 id peer_change(3) show ?thesis by (auto simp: good_def)
      qed
    qed
  next
    case revoked
    with old pin show ?thesis by (auto simp: good_def)
  qed
  with fit cfg show ?thesis by (simp add: history_inv_def good_def)
qed


lemma history_run:
  "fold adm_step ops (Some (tether_admission_create cfg)) = Some a \<Longrightarrow> history_inv ops a"
proof (induction ops arbitrary: a rule: rev_induct)
  case Nil
  then show ?case by (auto simp: history_inv_def peers_fit_def)
next
  case (snoc op ops)
  obtain b where b: "fold adm_step ops (Some (tether_admission_create cfg)) = Some b"
    using adm_run_Some by blast
  obtain c ns where "adm_step op (Some b) = Some c" "adm_effect op b c ns"
    using adm_step_effect by blast
  with b snoc show ?case by (auto intro: history_inv_effect)
qed

section \<open>The rate limit\<close>

lemma int_of_size_small: "n < 2 ^ 31 \<Longrightarrow> int_of_size n = int n"
  unfolding int_of_size_def by (simp add: sint_uint uint_nat unat_of_nat signed_take_bit_int_eq_self)

lemma unat_ns_of_secs: "0 \<le> secs \<Longrightarrow> secs < 2 ^ 31 \<Longrightarrow> unat (ns_of_secs secs) = nat secs * 1000000000"
proof -
  assume s: "0 \<le> secs" "secs < 2 ^ 31"
  then have "unat (word_of_int secs :: u64) = nat secs" by (simp add: unat_eq_nat_uint uint_word_of_int)
  moreover have "nat secs * 1000000000 < 2 ^ 64" using s by simp
  ultimately show ?thesis unfolding ns_of_secs_def by (subst unat_mult_lem [THEN iffD1]) auto
qed

text \<open>The part of the admission state the rate limit reads and writes.\<close>

abbreviation rl_window :: "tether_admission \<Rightarrow> u64" where
  "rl_window a \<equiv> ns_of_secs (ac_rate_limit_window_seconds (adm_cfg a))"

abbreviation rl_max :: "tether_admission \<Rightarrow> int" where
  "rl_max a \<equiv> ac_rate_limit_max_attempts (adm_cfg a)"

lemma prune_attempts:
  "0 < ac_rate_limit_window_seconds (adm_cfg a) \<Longrightarrow>
    adm_attempts (prune_attempts_locked now a) = dropWhile (\<lambda>t. t < now - rl_window a) (adm_attempts a)"
  by (simp add: prune_attempts_locked_def Let_def not_le)

lemma rate_limit_cases:
  assumes "rate_limit_blocks_locked now np a = (b, blocked)"
  obtains (locked) "now < adm_lockout_until_ns a" "blocked" "b = a"
  | (limit) "\<not> now < adm_lockout_until_ns a" "blocked"
      "b = (prune_attempts_locked np a)\<lparr>adm_lockout_until_ns := now + ns_of_secs (ac_lockout_seconds (adm_cfg a))\<rparr>"
      "0 < rl_max a" "rl_max a \<le> int_of_size (length (adm_attempts (prune_attempts_locked np a)))"
  | (pass) "\<not> now < adm_lockout_until_ns a" "\<not> blocked" "b = prune_attempts_locked np a"
      "0 < rl_max a \<Longrightarrow> int_of_size (length (adm_attempts (prune_attempts_locked np a))) < rl_max a"
proof -
  have cfg: "adm_cfg (prune_attempts_locked np a) = adm_cfg a"
    by (simp add: prune_attempts_locked_def Let_def)
  show ?thesis
    using assms cfg
    by (auto simp: rate_limit_blocks_locked_def Let_def split: if_splits
        intro: locked limit pass)
qed

text \<open>
  The attempts recorded along a run: the clock reading pushed by every call that the limit lets
  through.
\<close>

definition attempts_of :: "adm_op \<Rightarrow> tether_admission option \<Rightarrow> u64 list" where
  "attempts_of op adm =
     (case (op, adm) of
        (AddPending ck (Some i) n f, Some a) \<Rightarrow>
          if snd (rate_limit_blocks_locked (ck_limit ck) (ck_prune ck) a) then [] else [ck_attempt ck]
      | _ \<Rightarrow> [])"

fun attempt_log :: "adm_op list \<Rightarrow> tether_admission option \<Rightarrow> u64 list" where
  "attempt_log [] adm = []"
| "attempt_log (op # ops) adm = attempts_of op adm @ attempt_log ops (adm_step op adm)"

text \<open>A clock that never runs backwards and never reads below \<open>w\<close>, over a list of operations.\<close>

fun clock_from :: "nat \<Rightarrow> nat \<Rightarrow> adm_op list \<Rightarrow> bool" where
  "clock_from w t [] \<longleftrightarrow> True"
| "clock_from w t (AddPending ck _ _ _ # ops) \<longleftrightarrow>
     t \<le> unat (ck_limit ck) \<and> unat (ck_limit ck) \<le> unat (ck_prune ck) \<and>
     unat (ck_prune ck) \<le> unat (ck_attempt ck) \<and> unat (ck_attempt ck) \<le> unat (ck_seen ck) \<and>
     w \<le> unat (ck_limit ck) \<and> clock_from w (unat (ck_seen ck)) ops"
| "clock_from w t (_ # ops) \<longleftrightarrow> clock_from w t ops"

definition in_window :: "nat \<Rightarrow> nat \<Rightarrow> u64 \<Rightarrow> bool" where
  "in_window w t s \<longleftrightarrow> unat s \<le> t \<and> t < unat s + w"


lemma add_pending_attempts:
  assumes "rate_limit_blocks_locked (ck_limit ck) (ck_prune ck) a = (c, blocked)"
    and "adm_step (AddPending ck (Some i) n f) (Some a) = Some b"
  shows "adm_attempts b = adm_attempts c @ (if blocked then [] else [ck_attempt ck])"
    and "adm_lockout_until_ns b = adm_lockout_until_ns c" and "adm_cfg b = adm_cfg a"
  using assms rate_limit_frame [OF assms(1)]
  by (auto simp: adm_step_def tether_admission_add_pending_def Let_def split: if_splits bool.splits)

lemma set_peer_state_attempts:
  "fst (set_peer_state (Some a) i s pin) = Some b \<Longrightarrow>
    adm_attempts b = adm_attempts a \<and> adm_lockout_until_ns b = adm_lockout_until_ns a \<and> adm_cfg b = adm_cfg a"
  by (auto simp: set_peer_state_def Let_def split: option.splits)

lemma other_op_attempts:
  assumes "adm_step op (Some a) = Some b" and "\<not> (\<exists>ck i n f. op = AddPending ck (Some i) n f)"
  shows "adm_attempts b = adm_attempts a" and "adm_lockout_until_ns b = adm_lockout_until_ns a"
    and "adm_cfg b = adm_cfg a" and "attempts_of op (Some a) = []"
proof -
  have "adm_attempts b = adm_attempts a \<and> adm_lockout_until_ns b = adm_lockout_until_ns a \<and>
      adm_cfg b = adm_cfg a \<and> attempts_of op (Some a) = []"
  proof (cases op)
    case (AddPending ck i n f)
    with assms show ?thesis
      by (cases i) (auto simp: adm_step_def tether_admission_add_pending_def attempts_of_def)
  qed (use assms in \<open>auto simp: adm_step_def adm_state_changes attempts_of_def
        tether_admission_revoke_all_def dest!: set_peer_state_attempts\<close>)
  then show "adm_attempts b = adm_attempts a" and "adm_lockout_until_ns b = adm_lockout_until_ns a"
    and "adm_cfg b = adm_cfg a" and "attempts_of op (Some a) = []" by blast+
qed

text \<open>
  \<open>gone\<close> are the recorded attempts already pruned; \<open>t\<close> bounds the readings so far.
\<close>

definition rl_hist :: "nat \<Rightarrow> nat \<Rightarrow> u64 list \<Rightarrow> u64 list \<Rightarrow> nat \<Rightarrow> bool" where
  "rl_hist w m gone kept t \<longleftrightarrow>
     (\<forall>s \<in> set (gone @ kept). unat s \<le> t) \<and> (\<forall>s \<in> set gone. unat s + w \<le> t) \<and> length kept \<le> m \<and>
     (\<forall>u. length (filter (in_window w u) (gone @ kept)) \<le> m)"

lemma rl_hist_later: "rl_hist w m gone kept t \<Longrightarrow> t \<le> u \<Longrightarrow> rl_hist w m gone kept u"
  unfolding rl_hist_def by (meson le_trans)

lemma rl_hist_prune:
  fixes now win :: u64
  assumes "rl_hist w m gone kept t" and "t \<le> unat now" and "w \<le> unat now" and "unat win = w"
  shows "rl_hist w m (gone @ takeWhile (\<lambda>s. s < now - win) kept)
    (dropWhile (\<lambda>s. s < now - win) kept) (unat now)"
proof -
  have cut: "unat (now - win) = unat now - w"
    using assms(3,4) by (simp add: unat_sub word_le_nat_alt)
  have "unat s + w \<le> unat now" if "s \<in> set (takeWhile (\<lambda>s. s < now - win) kept)" for s
    using that cut by (auto dest!: set_takeWhileD simp: word_less_nat_alt)
  moreover have "length (dropWhile (\<lambda>s. s < now - win) kept) \<le> length kept"
    by (simp add: length_dropWhile_le)
  ultimately show ?thesis
    using rl_hist_later [OF assms(1,2)] unfolding rl_hist_def by auto
qed

lemma rl_hist_push:
  assumes "rl_hist w m gone kept t" and "length kept < m" and "t \<le> unat s"
  shows "rl_hist w m gone (kept @ [s]) (unat s)"
proof -
  note h = assms(1) [unfolded rl_hist_def]
  have "length (filter (in_window w u) (gone @ kept @ [s])) \<le> m" for u
  proof (cases "unat s \<le> u")
    case True
    then have "filter (in_window w u) gone = []"
      using h assms(3) by (fastforce simp: filter_empty_conv in_window_def)
    moreover have "length (filter (in_window w u) (kept @ [s])) \<le> length (kept @ [s])"
      by (rule length_filter_le)
    ultimately show ?thesis using assms(2) by simp
  next
    case False
    with h show ?thesis by (simp add: in_window_def)
  qed
  moreover have "unat x \<le> unat s" if "x \<in> set (gone @ kept)" for x
    using that h assms(3) by (meson order_trans)
  moreover have "unat x + w \<le> unat s" if "x \<in> set gone" for x
    using that h assms(3) by (meson order_trans)
  ultimately show ?thesis using assms(2) unfolding rl_hist_def by auto
qed

lemma rl_hist_add:
  assumes hist: "rl_hist w m gone (adm_attempts a) t"
    and clk: "clock_from w t (AddPending ck (Some i) n f # ops)"
    and cfg: "0 < ac_rate_limit_window_seconds (adm_cfg a)" "unat (rl_window a) = w"
      "0 < rl_max a" "rl_max a = int m" "m < 2 ^ 31"
    and step: "adm_step (AddPending ck (Some i) n f) (Some a) = Some b"
  shows "\<exists>gone'. rl_hist w m gone' (adm_attempts b) (unat (ck_seen ck)) \<and>
    gone' @ adm_attempts b = gone @ adm_attempts a @ attempts_of (AddPending ck (Some i) n f) (Some a)"
proof -
  obtain c blocked where bl: "rate_limit_blocks_locked (ck_limit ck) (ck_prune ck) a = (c, blocked)"
    by fastforce
  note att = add_pending_attempts(1) [OF bl step]
  define kept where "kept = dropWhile (\<lambda>s. s < ck_prune ck - rl_window a) (adm_attempts a)"
  define cut where "cut = takeWhile (\<lambda>s. s < ck_prune ck - rl_window a) (adm_attempts a)"
  have ck: "t \<le> unat (ck_limit ck)" "t \<le> unat (ck_prune ck)" "w \<le> unat (ck_prune ck)"
    "unat (ck_prune ck) \<le> unat (ck_attempt ck)" "unat (ck_attempt ck) \<le> unat (ck_seen ck)"
    using clk by auto
  have split: "cut @ kept = adm_attempts a" by (simp add: cut_def kept_def)
  have pruned: "rl_hist w m (gone @ cut) kept (unat (ck_prune ck))"
    unfolding cut_def kept_def by (rule rl_hist_prune [OF hist ck(2,3) cfg(2)])
  have "adm_attempts (prune_attempts_locked (ck_prune ck) a) = kept"
    using cfg(1) by (simp add: prune_attempts kept_def)
  with bl show ?thesis
  proof (cases rule: rate_limit_cases)
    case locked
    then have "adm_attempts b = adm_attempts a" "attempts_of (AddPending ck (Some i) n f) (Some a) = []"
      using att bl by (simp_all add: attempts_of_def)
    with hist rl_hist_later [OF _ order_trans [OF ck(2) order_trans [OF ck(4,5)]]] show ?thesis by auto
  next
    case limit
    with \<open>adm_attempts (prune_attempts_locked (ck_prune ck) a) = kept\<close>
    have "adm_attempts b = kept" "attempts_of (AddPending ck (Some i) n f) (Some a) = []"
      using att bl by (simp_all add: attempts_of_def)
    with pruned split rl_hist_later [OF _ order_trans [OF ck(4,5)]] show ?thesis
      by (intro exI [of _ "gone @ cut"]) auto
  next
    case pass
    have "length kept \<le> m" using pruned by (simp add: rl_hist_def)
    with pass(4) cfg \<open>adm_attempts (prune_attempts_locked (ck_prune ck) a) = kept\<close>
    have "length kept < m" by (simp add: int_of_size_small)
    then have "rl_hist w m (gone @ cut) (kept @ [ck_attempt ck]) (unat (ck_attempt ck))"
      using pruned ck(4) by (intro rl_hist_push) auto
    then have "rl_hist w m (gone @ cut) (kept @ [ck_attempt ck]) (unat (ck_seen ck))"
      using ck(5) by (rule rl_hist_later)
    moreover have "adm_attempts b = kept @ [ck_attempt ck]"
      "attempts_of (AddPending ck (Some i) n f) (Some a) = [ck_attempt ck]"
      using att bl pass \<open>adm_attempts (prune_attempts_locked (ck_prune ck) a) = kept\<close>
      by (simp_all add: attempts_of_def)
    ultimately show ?thesis using split by (intro exI [of _ "gone @ cut"]) auto
  qed
qed

lemma clock_from_skip:
  "\<not> (\<exists>ck i n f. op = AddPending ck (Some i) n f) \<Longrightarrow> clock_from w t (op # ops) \<Longrightarrow>
    \<exists>u \<ge> t. clock_from w u ops"
proof (cases op)
  case (AddPending ck i n f)
  moreover assume "clock_from w t (op # ops)"
  ultimately show ?thesis by (intro exI [of _ "unat (ck_seen ck)"]) auto
qed auto

lemma rl_hist_run:
  assumes "rl_hist w m gone (adm_attempts a) t" and "clock_from w t ops"
    and "0 < ac_rate_limit_window_seconds (adm_cfg a)" "unat (rl_window a) = w"
      "0 < rl_max a" "rl_max a = int m" "m < 2 ^ 31"
  shows "\<forall>u. length (filter (in_window w u) (gone @ adm_attempts a @ attempt_log ops (Some a))) \<le> m"
  using assms
proof (induction ops arbitrary: gone a t)
  case Nil
  then show ?case by (simp add: rl_hist_def)
next
  case (Cons op ops)
  obtain b ns where b: "adm_step op (Some a) = Some b" "adm_effect op a b ns"
    using adm_step_effect by blast
  from peers_succ_effect [OF b(2)] have cfg: "adm_cfg b = adm_cfg a" by (simp add: peers_succ_def)
  have "\<exists>gone' u. rl_hist w m gone' (adm_attempts b) u \<and> clock_from w u ops \<and>
      gone' @ adm_attempts b = gone @ adm_attempts a @ attempts_of op (Some a)"
  proof (cases "\<exists>ck i n f. op = AddPending ck (Some i) n f")
    case True
    then obtain ck i n f where op: "op = AddPending ck (Some i) n f" by blast
    have "clock_from w (unat (ck_seen ck)) ops" using Cons.prems(2) op by simp
    with rl_hist_add [OF Cons.prems(1) Cons.prems(2) [unfolded op] Cons.prems(3-7) b(1) [unfolded op]] op
    show ?thesis by blast
  next
    case False
    from clock_from_skip [OF this Cons.prems(2)] obtain u where "t \<le> u" "clock_from w u ops" by blast
    with other_op_attempts [OF b(1) False] rl_hist_later [OF Cons.prems(1)]
    show ?thesis by (intro exI [of _ gone] exI [of _ u]) simp
  qed
  then obtain gone' u where hist: "rl_hist w m gone' (adm_attempts b) u" and clk: "clock_from w u ops"
    and eq: "gone' @ adm_attempts b = gone @ adm_attempts a @ attempts_of op (Some a)" by blast
  have "gone @ adm_attempts a @ attempt_log (op # ops) (Some a) =
      gone' @ adm_attempts b @ attempt_log ops (Some b)"
    using arg_cong [OF eq, of "\<lambda>z. z @ attempt_log ops (Some b)"] b(1) by simp
  moreover have "\<forall>u. length (filter (in_window w u) (gone' @ adm_attempts b @ attempt_log ops (Some b))) \<le> m"
    by (rule Cons.IH [of gone' b u]) (use Cons.prems(3-7) cfg hist clk in simp_all)
  ultimately show ?case by metis
qed


section \<open>The limit below one window of uptime\<close>

text \<open>
  All readings of a list of operations lie in one range and never decrease.
\<close>

lemma prune_wraps:
  fixes now win :: u64
  assumes "unat now < unat win" and "unat win \<le> 2 ^ 63" and "\<forall>s \<in> set kept. unat s \<le> unat now"
  shows "dropWhile (\<lambda>s. s < now - win) kept = []"
proof -
  have "unat (now - win) = 2 ^ 64 + unat now - unat win"
    using assms(1) by (simp add: unat_sub_if' word_size)
  then have "s < now - win" if "s \<in> set kept" for s
    using that assms by (fastforce simp: word_less_nat_alt)
  then show ?thesis by (simp add: dropWhile_eq_Nil_conv)
qed

fun clock_below :: "nat \<Rightarrow> adm_op list \<Rightarrow> bool" where
  "clock_below w [] \<longleftrightarrow> True"
| "clock_below w (AddPending ck _ _ _ # ops) \<longleftrightarrow> unat (ck_seen ck) < w \<and> clock_below w ops"
| "clock_below w (_ # ops) \<longleftrightarrow> clock_below w ops"

definition knocks :: "adm_op list \<Rightarrow> nat" where
  "knocks ops = length (filter (\<lambda>op. case op of AddPending _ (Some _) _ _ \<Rightarrow> True | _ \<Rightarrow> False) ops)"

lemma early_run:
  assumes "clock_from 0 t ops" and "clock_below w ops"
    and "\<forall>s \<in> set (adm_attempts a). unat s \<le> t" and "adm_lockout_until_ns a = 0"
    and "0 < ac_rate_limit_window_seconds (adm_cfg a)" "unat (rl_window a) = w" "w \<le> 2 ^ 63" "0 < rl_max a"
  shows "length (attempt_log ops (Some a)) = knocks ops"
  using assms
proof (induction ops arbitrary: a t)
  case Nil
  then show ?case by (simp add: knocks_def)
next
  case (Cons op ops)
  obtain b ns where b: "adm_step op (Some a) = Some b" "adm_effect op a b ns"
    using adm_step_effect by blast
  from peers_succ_effect [OF b(2)] have cfg: "adm_cfg b = adm_cfg a" by (simp add: peers_succ_def)
  show ?case
  proof (cases "\<exists>ck i n f. op = AddPending ck (Some i) n f")
    case True
    then obtain ck i n f where op: "op = AddPending ck (Some i) n f" by blast
    obtain c blocked where bl: "rate_limit_blocks_locked (ck_limit ck) (ck_prune ck) a = (c, blocked)"
      by fastforce
    have ck: "t \<le> unat (ck_prune ck)" "unat (ck_prune ck) < w" "unat (ck_attempt ck) \<le> unat (ck_seen ck)"
      using Cons.prems(1,2) op by auto
    have empty: "adm_attempts (prune_attempts_locked (ck_prune ck) a) = []"
      unfolding prune_attempts [OF Cons.prems(5)]
      by (rule prune_wraps) (use Cons.prems ck in \<open>auto intro: order_trans\<close>)
    from bl have "\<not> blocked \<and> c = prune_attempts_locked (ck_prune ck) a"
      by (cases rule: rate_limit_cases) (use Cons.prems empty in \<open>auto simp: int_of_size_def\<close>)
    with add_pending_attempts [OF bl b(1) [unfolded op]] empty
    have att: "adm_attempts b = [ck_attempt ck]" and lock: "adm_lockout_until_ns b = 0"
      using Cons.prems(4) by (auto simp: prune_attempts_locked_def Let_def)
    have "length (attempt_log ops (Some b)) = knocks ops"
      by (rule Cons.IH [of "unat (ck_seen ck)"]) (use Cons.prems op att lock cfg ck in auto)
    with bl \<open>\<not> blocked \<and> _\<close> show ?thesis by (simp add: op knocks_def attempts_of_def b(1) [unfolded op])
  next
    case False
    from clock_from_skip [OF False Cons.prems(1)] obtain u where "t \<le> u" "clock_from 0 u ops" by blast
    moreover have "clock_below w ops" using Cons.prems(2) by (cases op) auto
    ultimately have "length (attempt_log ops (Some b)) = knocks ops"
      using Cons.IH [of u b] Cons.prems other_op_attempts [OF b(1) False] by (auto intro: order_trans)
    with False other_op_attempts(4) [OF b(1) False] show ?thesis
      by (auto simp: b(1) knocks_def split: adm_op.splits option.splits)
  qed
qed

section \<open>A lockout in force\<close>

lemma locked_step:
  assumes "adm_step op (Some a) = Some b"
    and "\<forall>ck i n f. op = AddPending ck i n f \<longrightarrow> ck_limit ck < adm_lockout_until_ns a"
  shows "adm_lockout_until_ns b = adm_lockout_until_ns a" and "adm_attempts b = adm_attempts a"
    and "map peer_id (adm_peers b) = map peer_id (adm_peers a)" and "attempts_of op (Some a) = []"
proof -
  have "adm_lockout_until_ns b = adm_lockout_until_ns a \<and> adm_attempts b = adm_attempts a \<and>
    map peer_id (adm_peers b) = map peer_id (adm_peers a) \<and> attempts_of op (Some a) = []"
  proof (cases "\<exists>ck i n f. op = AddPending ck (Some i) n f")
    case True
    then obtain ck i n f where op: "op = AddPending ck (Some i) n f" by blast
    with assms(2) have "rate_limit_blocks_locked (ck_limit ck) (ck_prune ck) a = (a, True)"
      by (simp add: rate_limit_blocks_locked_def)
    with assms(1) op show ?thesis
      by (auto simp: adm_step_def tether_admission_add_pending_def attempts_of_def)
  next
    case False
    note rest = other_op_attempts [OF assms(1) False]
    obtain c ns where c: "adm_step op (Some a) = Some c" "adm_effect op a c ns"
      using adm_step_effect by blast
    from c(2) have "map peer_id (adm_peers c) = map peer_id (adm_peers a)"
      by (cases rule: adm_effect.cases) (use False in \<open>auto simp: map_update_first\<close>)
    with c assms(1) rest show ?thesis by simp
  qed
  then show "adm_lockout_until_ns b = adm_lockout_until_ns a" and "adm_attempts b = adm_attempts a"
    and "map peer_id (adm_peers b) = map peer_id (adm_peers a)" and "attempts_of op (Some a) = []"
    by blast+
qed

lemma locked_run:
  assumes "fold adm_step ops (Some a) = Some b"
    and "\<forall>ck i n f. AddPending ck i n f \<in> set ops \<longrightarrow> ck_limit ck < adm_lockout_until_ns a"
  shows "adm_lockout_until_ns b = adm_lockout_until_ns a \<and> adm_attempts b = adm_attempts a \<and>
    map peer_id (adm_peers b) = map peer_id (adm_peers a) \<and> attempt_log ops (Some a) = []"
  using assms
proof (induction ops arbitrary: a)
  case (Cons op ops)
  obtain c where c: "adm_step op (Some a) = Some c" using adm_step_effect by blast
  have "\<forall>ck i n f. op = AddPending ck i n f \<longrightarrow> ck_limit ck < adm_lockout_until_ns a"
    using Cons.prems(2) by auto
  note step = locked_step [OF c this]
  have rest: "fold adm_step ops (Some c) = Some b" using Cons.prems(1) c by simp
  have "\<forall>ck i n f. AddPending ck i n f \<in> set ops \<longrightarrow> ck_limit ck < adm_lockout_until_ns c"
    unfolding step(1) using Cons.prems(2) by auto
  from Cons.IH [OF rest this] show ?case unfolding step(1-3) by (simp add: c step(4))
qed simp

lemma lockout_start:
  assumes "adm_step (AddPending ck (Some i) n f) (Some a) = Some b"
    and "adm_lockout_until_ns b \<noteq> adm_lockout_until_ns a"
  shows "adm_lockout_until_ns b = ck_limit ck + ns_of_secs (ac_lockout_seconds (adm_cfg a))"
    and "adm_cfg b = adm_cfg a"
proof -
  obtain c blocked where bl: "rate_limit_blocks_locked (ck_limit ck) (ck_prune ck) a = (c, blocked)"
    by fastforce
  note att = add_pending_attempts [OF bl assms(1)]
  have same: "adm_lockout_until_ns (prune_attempts_locked (ck_prune ck) a) = adm_lockout_until_ns a"
    by (simp add: prune_attempts_locked_def Let_def)
  from bl show "adm_lockout_until_ns b = ck_limit ck + ns_of_secs (ac_lockout_seconds (adm_cfg a))"
    by (cases rule: rate_limit_cases) (use att assms(2) same in simp_all)
  show "adm_cfg b = adm_cfg a" by (rule att(3))
qed

lemma remaining_le:
  fixes now from_t :: u64
  assumes "0 \<le> secs" "secs < 2 ^ 31" and "from_t \<le> now"
    and "unat from_t + nat secs * 1000000000 < 2 ^ 64" and "adm_lockout_until_ns a = from_t + ns_of_secs secs"
  shows "tether_admission_lockout_remaining now (Some a) \<le> secs \<and>
    0 \<le> tether_admission_lockout_remaining now (Some a)"
proof (cases "now < adm_lockout_until_ns a")
  case True
  define d where "d = (adm_lockout_until_ns a - now) div 1000000000"
  have "unat (adm_lockout_until_ns a) = unat from_t + nat secs * 1000000000"
    using assms unat_ns_of_secs [OF assms(1,2)] by (simp add: unat_add_lem [THEN iffD1])
  then have "unat (adm_lockout_until_ns a - now) \<le> nat secs * 1000000000"
    using True assms(3) by (simp add: unat_sub_if' word_le_nat_alt word_less_nat_alt)
  then have "unat d \<le> nat secs"
    unfolding d_def unat_div_distrib by (simp add: div_le_mono order_trans [OF div_le_mono [of _ _ 1000000000]])
  moreover have "nat secs < 2 ^ 31" using assms(1,2) by (simp add: nat_less_iff)
  ultimately have "unat d < 2 ^ 31" by (rule le_less_trans)
  then have "sint (ucast d :: 32 word) = int (unat d)" by (rule sint_ucast_small)
  moreover have "int (unat d) \<le> secs" using \<open>unat d \<le> nat secs\<close> assms(1) by (simp only: le_nat_iff)
  ultimately show ?thesis using True assms(1)
    by (simp add: tether_admission_lockout_remaining_def d_def [symmetric])
qed (use assms(1) in \<open>simp add: tether_admission_lockout_remaining_def\<close>)

section \<open>Counting the accepted peers\<close>

lemma length_filter_update_first:
  assumes "find p xs = Some x" and "\<not> q x" and "q (f x)"
  shows "length (filter q (update_first p f xs)) = Suc (length (filter q xs))"
  using assms by (induction xs) (auto split: if_splits)

lemma count_accept:
  assumes "find_peer_locked a i = Some p" and "peer_state p \<noteq> TETHER_PEER_ACCEPTED"
  shows "count_locked (a\<lparr>adm_peers := update_first (has_peer_id i) (with_state TETHER_PEER_ACCEPTED pin)
      (adm_peers a)\<rparr>) TETHER_PEER_ACCEPTED = count_locked a TETHER_PEER_ACCEPTED + 1"
  using assms unfolding count_locked_def find_peer_locked_def
  by (simp add: length_filter_update_first)

lemma rate_limit_same:
  "rate_limit_blocks_locked t u a = (b, r) \<Longrightarrow> adm_peers b = adm_peers a \<and> adm_cfg b = adm_cfg a"
  using rate_limit_frame by blast

lemma add_pending_room:
  assumes "tether_admission_add_pending ck (Some a) i n f = (Some b, True, ns)"
  shows "count_locked a TETHER_PEER_ACCEPTED < ac_max_receivers (adm_cfg a) \<and> adm_cfg b = adm_cfg a \<and>
    (\<exists>p. adm_peers b = adm_peers a @ [p])"
  using assms unfolding tether_admission_add_pending_def Let_def
  by (auto simp: count_locked_def not_le dest!: rate_limit_same split: option.splits prod.splits bool.splits if_splits)

lemma add_pending_told:
  assumes "tether_admission_add_pending ck (Some a) i n f = (Some b, ok, ns)"
  shows "length ns = (if ok \<and> ac_on_changed (adm_cfg a) then 1 else 0) \<and> (\<not> ok \<longrightarrow> adm_peers b = adm_peers a)"
  using assms unfolding tether_admission_add_pending_def Let_def on_changed_def
  by (auto dest!: rate_limit_same split: option.splits prod.splits bool.splits if_splits)

lemma set_peer_state_told:
  assumes "set_peer_state (Some a) i s pin = (Some b, ok, ns)"
  shows "length ns = (if ok \<and> ac_on_changed (adm_cfg a) then 1 else 0) \<and> (\<not> ok \<longrightarrow> adm_peers b = adm_peers a)"
  using assms unfolding set_peer_state_def Let_def on_changed_def
  by (auto split: option.splits if_splits)

lemma update_first_result: "find p xs = Some x \<Longrightarrow> f x \<in> set (update_first p f xs)"
  by (induction xs) (auto split: if_splits)

section \<open>Properties\<close>

definition window_ns :: "tether_admission_config \<Rightarrow> nat" where
  "window_ns cfg = nat (ac_rate_limit_window_seconds (adm_cfg (tether_admission_create cfg))) * 1000000000"

definition limit_of :: "tether_admission_config \<Rightarrow> nat" where
  "limit_of cfg = nat (ac_rate_limit_max_attempts (adm_cfg (tether_admission_create cfg)))"

lemma window_of_create:
  "ac_rate_limit_window_seconds cfg < 2 ^ 31 \<Longrightarrow> unat (rl_window (tether_admission_create cfg)) = window_ns cfg"
  unfolding window_ns_def by (rule unat_ns_of_secs) (simp_all add: tether_admission_create_def)

text \<open>C6: the rate limit: from the creation of the waiting room, in any run of operations with a
  clock that does not run backwards and reads at least one window, no window of
  \<open>rate_limit_window_seconds\<close> contains more than \<open>rate_limit_max_attempts\<close> knocks that the limit let
  through.\<close>

theorem rate_limit_window:
  assumes "ac_rate_limit_window_seconds cfg < 2 ^ 31" and "ac_rate_limit_max_attempts cfg < 2 ^ 31"
    and "clock_from (window_ns cfg) 0 ops"
  shows "length (filter (in_window (window_ns cfg) u)
    (attempt_log ops (Some (tether_admission_create cfg)))) \<le> limit_of cfg"
proof -
  let ?a = "tether_admission_create cfg"
  have max: "rl_max ?a = int (limit_of cfg)" "limit_of cfg < 2 ^ 31"
    using assms(2) by (simp_all add: limit_of_def tether_admission_create_def nat_less_iff)
  have "rl_hist (window_ns cfg) (limit_of cfg) [] (adm_attempts ?a) 0" by (simp add: rl_hist_def)
  from rl_hist_run [OF this assms(3) _ window_of_create [OF assms(1)] _ max] show ?thesis by simp
qed

definition demo_cfg :: tether_admission_config where
  "demo_cfg = \<lparr>ac_max_receivers = 1, ac_rate_limit_window_seconds = 1, ac_rate_limit_max_attempts = 1,
     ac_lockout_seconds = 5, ac_auto_accept_pinned = True, ac_on_changed = True\<rparr>"

definition demo_clock :: "u64 \<Rightarrow> adm_clock" where
  "demo_clock t = \<lparr>ck_limit = t, ck_prune = t, ck_attempt = t, ck_seen = t\<rparr>"

lemmas demo_simps = demo_cfg_def demo_clock_def window_ns_def limit_of_def tether_admission_create_def
  adm_step_def tether_admission_add_pending_def rate_limit_blocks_locked_def prune_attempts_locked_def
  ns_of_secs_def int_of_size_def find_peer_locked_def count_locked_def auto_accept_def new_peer_def
  copy_field_def strncpy_buf_def peer_sizes has_peer_id_def adm_state_changes set_peer_state_def
  with_state_def on_changed_def tether_admission_revoke_all_def Let_def

lemma rate_limit_window_witness:
  "length (filter (in_window (window_ns demo_cfg) 2000000001)
    (attempt_log [AddPending (demo_clock 2000000000) (Some ''a'') None None,
       AddPending (demo_clock 2000000001) (Some ''b'') None None]
       (Some (tether_admission_create demo_cfg)))) \<le> limit_of demo_cfg"
  by (rule rate_limit_window) (simp_all add: demo_cfg_def demo_clock_def window_ns_def tether_admission_create_def)

text \<open>Below one window of uptime there is no rate limit: the cutoff \<open>now - window\<close> wraps around to
  a time far in the future, so each call forgets every attempt before it and no knock is ever refused
  by the limit, however many there are. (\<open>os_gettime_ns\<close> counts from boot, and a window may be long.)\<close>

theorem rate_limit_void_early:
  assumes "ac_rate_limit_window_seconds cfg < 2 ^ 31"
    and "clock_from 0 0 ops" and "clock_below (window_ns cfg) ops"
  shows "length (attempt_log ops (Some (tether_admission_create cfg))) = knocks ops"
proof (rule early_run [OF assms(2,3)])
  let ?secs = "ac_rate_limit_window_seconds (adm_cfg (tether_admission_create cfg))"
  have "?secs < 2 ^ 31" using assms(1) by (simp add: tether_admission_create_def)
  then have "nat ?secs \<le> 2 ^ 31" by simp
  then show "window_ns cfg \<le> 2 ^ 63" unfolding window_ns_def by simp
qed (use window_of_create [OF assms(1)] in simp_all)

lemma rate_limit_void_early_witness:
  "length (attempt_log [AddPending (demo_clock 1) (Some ''a'') None None,
       AddPending (demo_clock 2) (Some ''b'') None None, AddPending (demo_clock 3) (Some ''c'') None None]
       (Some (tether_admission_create demo_cfg))) = 3"
proof -
  let ?ops = "[AddPending (demo_clock 1) (Some ''a'') None None,
    AddPending (demo_clock 2) (Some ''b'') None None, AddPending (demo_clock 3) (Some ''c'') None None]"
  have "length (attempt_log ?ops (Some (tether_admission_create demo_cfg))) = knocks ?ops"
    by (rule rate_limit_void_early)
       (simp_all add: demo_cfg_def demo_clock_def window_ns_def tether_admission_create_def)
  then show ?thesis by (simp add: knocks_def)
qed

text \<open>The lockout: the call that trips the limit closes the room for \<open>lockout_seconds\<close>. Until then,
  whatever operations run, no knock is counted, no peer joins the list and the end of the lockout does
  not move; the room reports itself locked exactly until that time, and the reported rest is between
  zero and \<open>lockout_seconds\<close>.\<close>

theorem lockout_holds:
  assumes "adm_step (AddPending ck (Some i) n f) (Some a) = Some b"
    and "adm_lockout_until_ns b \<noteq> adm_lockout_until_ns a"
    and "secs = ac_lockout_seconds (adm_cfg a)" and "0 \<le> secs" and "secs < 2 ^ 31"
    and "until = unat (ck_limit ck) + nat secs * 1000000000" and "until < 2 ^ 64"
    and "fold adm_step ops (Some b) = Some c"
    and "\<forall>ck i n f. AddPending ck i n f \<in> set ops \<longrightarrow> unat (ck_limit ck) < until"
  shows "attempt_log ops (Some b) = [] \<and> map peer_id (adm_peers c) = map peer_id (adm_peers b) \<and>
    tether_admission_is_locked_out now (Some c) = (unat now < until) \<and>
    (ck_limit ck \<le> now \<longrightarrow> tether_admission_lockout_remaining now (Some c) \<in> {0..secs})"
proof -
  note start = lockout_start [OF assms(1,2), folded assms(3)]
  have until: "unat (adm_lockout_until_ns b) = until"
    using assms(6,7) unat_ns_of_secs [OF assms(4,5)] start(1) by (simp add: unat_add_lem [THEN iffD1])
  have "\<forall>ck i n f. AddPending ck i n f \<in> set ops \<longrightarrow> ck_limit ck < adm_lockout_until_ns b"
    using assms(9) by (simp add: word_less_nat_alt until)
  from locked_run [OF assms(8) this]
  have run: "adm_lockout_until_ns c = adm_lockout_until_ns b" "attempt_log ops (Some b) = []"
    "map peer_id (adm_peers c) = map peer_id (adm_peers b)" by blast+
  have "tether_admission_is_locked_out now (Some c) = (unat now < until)"
    by (simp add: tether_admission_is_locked_out_def run(1) word_less_nat_alt until)
  moreover have "tether_admission_lockout_remaining now (Some c) \<in> {0..secs}" if "ck_limit ck \<le> now"
    using remaining_le [of secs "ck_limit ck" now c] that assms(4-7) run(1) start(1) by simp
  ultimately show ?thesis using run(2,3) by blast
qed

text \<open>C15: who gets in: whatever operations run, in whatever order, an accepted peer was either
  accepted by name, or auto-accept is on and its fingerprint is that of a peer in the list whose name
  was accepted with the pin set.\<close>

theorem accepted_explained:
  assumes "fold adm_step ops (Some (tether_admission_create cfg)) = Some a"
    and "p \<in> set (adm_peers a)" and "peer_state p = TETHER_PEER_ACCEPTED"
  shows "(\<exists>pin. AcceptPeer (Some (peer_id p)) pin \<in> set ops) \<or>
    ac_auto_accept_pinned cfg \<and>
    (\<exists>q \<in> set (adm_peers a). AcceptPeer (Some (peer_id q)) True \<in> set ops \<and>
       peer_fingerprint q = peer_fingerprint p)"
proof -
  have "adm_cfg a = adm_cfg (tether_admission_create cfg)"
    using peers_succ_run [OF assms(1)] by (simp add: peers_succ_def)
  with history_run [OF assms(1)] assms(2,3) show ?thesis
    unfolding history_inv_def explained_def by auto
qed

definition demo_knock :: "u64 \<Rightarrow> string \<Rightarrow> adm_op" where
  "demo_knock t i = AddPending (demo_clock t) (Some i) (Some i) (Some ''F'')"

definition demo_room :: tether_admission where
  "demo_room = \<lparr>adm_cfg = demo_cfg,
     adm_peers = [\<lparr>peer_id = ''a'', peer_display_name = ''a'', peer_fingerprint = ''F'',
       peer_state = TETHER_PEER_ACCEPTED, peer_pinned = True, peer_first_seen_ns = 2000000000\<rparr>],
     adm_attempts = [2000000000], adm_lockout_until_ns = 0\<rparr>"

lemma demo_room_reached:
  "fold adm_step [demo_knock 2000000000 ''a'', AcceptPeer (Some ''a'') True]
     (Some (tether_admission_create demo_cfg)) = Some demo_room"
  by (simp add: demo_room_def demo_knock_def demo_simps)

lemmas demo_room_simps = demo_room_def demo_room_reached

lemma lockout_holds_witness:
  "\<exists>b. adm_step (demo_knock 2000000001 ''b'') (Some demo_room) = Some b \<and>
    attempt_log [demo_knock 2000000002 ''b''] (Some b) = []"
proof -
  obtain b where b: "adm_step (demo_knock 2000000001 ''b'') (Some demo_room) = Some b"
    using adm_step_effect by blast
  then have lock: "adm_lockout_until_ns b \<noteq> adm_lockout_until_ns demo_room"
    by (auto simp: demo_room_simps demo_knock_def demo_simps)
  obtain c where c: "fold adm_step [demo_knock 2000000002 ''b''] (Some b) = Some c"
    using adm_run_Some by blast
  have "attempt_log [demo_knock 2000000002 ''b''] (Some b) = [] \<and>
      map peer_id (adm_peers c) = map peer_id (adm_peers b) \<and>
      tether_admission_is_locked_out 0 (Some c) = (unat (0 :: u64) < 7000000001) \<and>
      (ck_limit (demo_clock 2000000001) \<le> 0 \<longrightarrow> tether_admission_lockout_remaining 0 (Some c) \<in> {0..5})"
    by (rule lockout_holds [OF b [unfolded demo_knock_def] lock _ _ _ _ _ c])
       (simp_all add: demo_room_simps demo_cfg_def demo_clock_def demo_knock_def)
  with b show ?thesis by blast
qed

lemma accepted_explained_witness:
  "\<exists>p \<in> set (adm_peers demo_room). \<exists>pin. AcceptPeer (Some (peer_id p)) pin \<in>
    set [demo_knock 2000000000 ''a'', AcceptPeer (Some ''a'') True]"
  using accepted_explained [OF demo_room_reached, of "hd (adm_peers demo_room)"]
  by (auto simp: demo_room_def)

text \<open>A pin outlives everything: once a peer has been pinned, then after any operations, its own
  disconnection or rejection and \<open>tether_admission_revoke_all\<close> included, a newcomer under another id
  that presents the same fingerprint is accepted and pinned at once, if auto-accept is on, the limit
  lets it knock and there is room. The empty fingerprint is a fingerprint like any other.\<close>

theorem pin_outlives_revocation:
  assumes "p \<in> set (adm_peers a)" and "peer_pinned p" and "ac_auto_accept_pinned (adm_cfg a)"
    and "fold adm_step ops (Some a) = Some b"
    and "rate_limit_blocks_locked (ck_limit ck) (ck_prune ck) b = (b', False)"
    and "find_peer_locked b j = None"
    and "count_locked b TETHER_PEER_ACCEPTED < ac_max_receivers (adm_cfg b)"
  shows "\<exists>c q. tether_admission_add_pending ck (Some b) (Some j) n (Some (peer_fingerprint p)) =
      (Some c, True, on_changed c q) \<and> adm_peers c = adm_peers b @ [q] \<and>
      peer_state q = TETHER_PEER_ACCEPTED \<and> peer_pinned q"
proof -
  note succ = peers_succ_run [OF assms(4), unfolded peers_succ_def]
  then obtain r where "r \<in> set (take (length (adm_peers a)) (adm_peers b))" "peer_succ p r"
    using assms(1) by (blast dest: list_all2_partner)
  then have r: "r \<in> set (adm_peers b')" "peer_pinned r" "peer_fingerprint r = peer_fingerprint p"
    using assms(2) rate_limit_frame [OF assms(5)] by (auto simp: peer_succ_def dest: in_set_takeD)
  have same: "adm_cfg b' = adm_cfg b" "adm_peers b' = adm_peers b" "adm_cfg b = adm_cfg a"
    using rate_limit_frame [OF assms(5)] succ by auto
  define b2 where "b2 = b'\<lparr>adm_attempts := adm_attempts b' @ [ck_attempt ck]\<rparr>"
  define q where "q = auto_accept b2 (Some (peer_fingerprint p)) (new_peer (ck_seen ck) j n (Some (peer_fingerprint p)))"
  have q: "peer_state q = TETHER_PEER_ACCEPTED \<and> peer_pinned q"
    using r same assms(3) by (auto simp: q_def auto_accept_def b2_def)
  have "tether_admission_add_pending ck (Some b) (Some j) n (Some (peer_fingerprint p)) =
      (Some (b2\<lparr>adm_peers := adm_peers b2 @ [q]\<rparr>), True, on_changed (b2\<lparr>adm_peers := adm_peers b2 @ [q]\<rparr>) q)"
    using assms(5-7) same
    by (simp add: tether_admission_add_pending_def b2_def q_def find_peer_locked_def count_locked_def Let_def)
  with q same show ?thesis by (auto simp: b2_def)
qed

lemma pin_outlives_revocation_witness:
  "\<exists>b c q. fold adm_step [RevokeAll] (Some demo_room) = Some b \<and>
    tether_admission_add_pending (demo_clock 5000000000) (Some b) (Some ''evil'') None (Some ''F'') =
      (Some c, True, [q]) \<and> peer_state q = TETHER_PEER_ACCEPTED"
proof -
  define b where "b = demo_room\<lparr>adm_peers := map (\<lambda>p. p\<lparr>peer_state := TETHER_PEER_REVOKED\<rparr>) (adm_peers demo_room)\<rparr>"
  have b: "fold adm_step [RevokeAll] (Some demo_room) = Some b"
    by (simp add: b_def adm_step_def tether_admission_revoke_all_def)
  let ?p = "hd (adm_peers demo_room)"
  have fp: "peer_fingerprint ?p = ''F''" by (simp add: demo_room_simps)
  have "\<exists>c q. tether_admission_add_pending (demo_clock 5000000000) (Some b) (Some ''evil'') None
      (Some (peer_fingerprint ?p)) = (Some c, True, on_changed c q) \<and> adm_peers c = adm_peers b @ [q] \<and>
      peer_state q = TETHER_PEER_ACCEPTED \<and> peer_pinned q"
    by (rule pin_outlives_revocation [OF _ _ _ b, where b' = "b\<lparr>adm_attempts := []\<rparr>"])
       (simp_all add: b_def demo_room_simps demo_simps)
  then obtain c q where cq: "tether_admission_add_pending (demo_clock 5000000000) (Some b) (Some ''evil'') None
      (Some ''F'') = (Some c, True, on_changed c q)" "peer_state q = TETHER_PEER_ACCEPTED"
    unfolding fp by blast
  from cq(1) have "ac_on_changed (adm_cfg c)" by (auto simp: b_def demo_room_simps demo_simps)
  with b cq show ?thesis by (auto simp: on_changed_def)
qed

text \<open>The peer list: in any run from the creation of the room every field fits its buffer with its
  terminating NUL; a peer never leaves the list nor moves in it, and keeps its id, name, fingerprint,
  first-seen time and pin; and as long as every id offered is shorter than the buffer, no two peers
  have the same id, so the operations by id reach exactly one peer.\<close>

theorem peer_list_stable:
  assumes "fold adm_step ops (Some (tether_admission_create cfg)) = Some a"
    and "fold adm_step ops' (Some a) = Some b"
  shows "(\<forall>p \<in> set (adm_peers b). peer_fits p) \<and>
    list_all2 peer_succ (adm_peers a) (take (length (adm_peers a)) (adm_peers b)) \<and>
    (list_all short_id (ops @ ops') \<longrightarrow> distinct (map peer_id (adm_peers b)))"
proof -
  let ?c = "Some (tether_admission_create cfg)"
  have run: "fold adm_step (ops @ ops') ?c = Some b" using assms by simp
  have "behind peers_fit (fold adm_step (ops @ ops') ?c)"
    by (rule adm_fits.run_inv) (simp add: peers_fit_def)
  moreover have "behind ids_distinct (fold adm_step (ops @ ops') ?c)" if "list_all short_id (ops @ ops')"
    by (rule adm_ids.guarded_run_inv) (use that in \<open>simp_all add: ids_distinct_def list_all_iff\<close>)
  ultimately show ?thesis
    using peers_succ_run [OF assms(2)] unfolding run by (auto simp: peers_fit_def ids_distinct_def peers_succ_def)
qed

lemma peer_list_stable_witness:
  "\<exists>b. fold adm_step [demo_knock 5000000000 ''b''] (Some demo_room) = Some b \<and>
    distinct (map peer_id (adm_peers b))"
proof -
  obtain b where "fold adm_step [demo_knock 5000000000 ''b''] (Some demo_room) = Some b"
    using adm_run_Some by blast
  with peer_list_stable [OF demo_room_reached this] show ?thesis
    by (auto simp: short_id_def demo_knock_def peer_sizes)
qed

text \<open>The cap binds arrivals only: a knock that succeeds found fewer accepted peers than
  \<open>max_receivers\<close> and leaves at most that many, but accepting a waiting peer adds one whatever the cap,
  so a host that clicks through the waiting list exceeds it.\<close>

theorem cap_binds_arrivals_only:
  "(tether_admission_add_pending ck (Some a) i n f = (Some b, True, ns) \<longrightarrow>
      tether_admission_count (Some a) TETHER_PEER_ACCEPTED < ac_max_receivers (adm_cfg a) \<and>
      tether_admission_count (Some b) TETHER_PEER_ACCEPTED \<le> ac_max_receivers (adm_cfg b)) \<and>
   (find_peer_locked a j = Some p \<and> peer_state p \<noteq> TETHER_PEER_ACCEPTED \<longrightarrow>
      tether_admission_count (fst (tether_admission_accept (Some a) (Some j) pin)) TETHER_PEER_ACCEPTED =
      tether_admission_count (Some a) TETHER_PEER_ACCEPTED + 1)"
proof (intro conjI impI)
  assume "tether_admission_add_pending ck (Some a) i n f = (Some b, True, ns)"
  note room = add_pending_room [OF this]
  then show "tether_admission_count (Some a) TETHER_PEER_ACCEPTED < ac_max_receivers (adm_cfg a)"
    by (simp add: tether_admission_count_def)
  from room show "tether_admission_count (Some b) TETHER_PEER_ACCEPTED \<le> ac_max_receivers (adm_cfg b)"
    by (auto simp: tether_admission_count_def count_locked_def)
next
  assume "find_peer_locked a j = Some p \<and> peer_state p \<noteq> TETHER_PEER_ACCEPTED"
  then show "tether_admission_count (fst (tether_admission_accept (Some a) (Some j) pin)) TETHER_PEER_ACCEPTED =
      tether_admission_count (Some a) TETHER_PEER_ACCEPTED + 1"
    by (simp add: tether_admission_count_def tether_admission_accept_def set_peer_state_def Let_def count_accept)
qed

lemma cap_binds_arrivals_only_witness:
  "\<exists>b. tether_admission_add_pending (demo_clock 2000000000) (Some (tether_admission_create demo_cfg))
      (Some ''a'') None None = (Some b, True, adm_peers b) \<and>
    tether_admission_count (Some b) TETHER_PEER_ACCEPTED \<le> 1"
proof -
  define b where "b = (tether_admission_create demo_cfg)\<lparr>adm_peers := [new_peer 2000000000 ''a'' None None],
    adm_attempts := [2000000000]\<rparr>"
  have "tether_admission_add_pending (demo_clock 2000000000) (Some (tether_admission_create demo_cfg))
      (Some ''a'') None None = (Some b, True, adm_peers b)"
    by (simp add: b_def demo_simps)
  with cap_binds_arrivals_only [of "demo_clock 2000000000" "tether_admission_create demo_cfg" "Some ''a''"
      None None b "adm_peers b"]
  show ?thesis by (auto simp: b_def demo_cfg_def tether_admission_create_def)
qed

text \<open>Notifications: of every operation but \<open>tether_admission_revoke_all\<close>, \<open>on_changed\<close> is called
  exactly once when it succeeds and never when it fails, with the peer as it now stands in the list;
  an operation that fails leaves the list as it was. \<open>tether_admission_revoke_all\<close> revokes every peer
  and tells nobody.\<close>

theorem on_changed_reports:
  assumes "adm_call op (Some a) = (r, ok, ns)"
  shows "\<exists>b. r = Some b \<and> (op \<noteq> RevokeAll \<longrightarrow> length ns = (if ok \<and> ac_on_changed (adm_cfg a) then 1 else 0)) \<and>
    set ns \<subseteq> set (adm_peers b) \<and> (\<not> ok \<longrightarrow> adm_peers b = adm_peers a) \<and>
    (op = RevokeAll \<longrightarrow> ns = [] \<and> (\<forall>p \<in> set (adm_peers b). peer_state p = TETHER_PEER_REVOKED))"
proof -
  obtain b where b: "r = Some b" "adm_effect op a b ns" using adm_call_effect [OF assms] by blast
  have cfg: "adm_cfg b = adm_cfg a" using peers_succ_effect [OF b(2)] by (simp add: peers_succ_def)
  have told: "set ns \<subseteq> set (adm_peers b)"
    using b(2) by (cases rule: adm_effect.cases)
      (auto simp: on_changed_def find_peer_locked_def intro: update_first_result)
  have "op \<noteq> RevokeAll \<longrightarrow> length ns = (if ok \<and> ac_on_changed (adm_cfg a) then 1 else 0) \<and>
      (\<not> ok \<longrightarrow> adm_peers b = adm_peers a)"
    using assms unfolding b(1) by (cases op) (auto dest!: add_pending_told set_peer_state_told simp: adm_state_changes)
  moreover have "op = RevokeAll \<longrightarrow> ok \<and> ns = [] \<and> (\<forall>p \<in> set (adm_peers b). peer_state p = TETHER_PEER_REVOKED)"
    using assms b(1) by (auto simp: tether_admission_revoke_all_def)
  ultimately show ?thesis using b(1) told by blast
qed

lemma on_changed_reports_witness:
  "\<exists>b. adm_call (RejectPeer (Some ''a'')) (Some demo_room) = (Some b, True, adm_peers b) \<and>
    set (adm_peers b) \<subseteq> set (adm_peers b)"
proof -
  define b where "b = demo_room\<lparr>adm_peers := map (\<lambda>p. p\<lparr>peer_state := TETHER_PEER_REJECTED\<rparr>) (adm_peers demo_room)\<rparr>"
  have call: "adm_call (RejectPeer (Some ''a'')) (Some demo_room) = (Some b, True, adm_peers b)"
    by (simp add: b_def demo_room_def demo_simps)
  with on_changed_reports [OF call] show ?thesis by auto
qed

end
