(* ===== verification/Signaling.thy ===== *)
theory Signaling
  imports Interfaces
begin

text \<open>
  \<open>src/signaling.c\<close>: the WebSocket signaling client. The reader of flat JSON objects, the dispatch of
  incoming messages, the connection states, and the messages sent. The WebSocket belongs to
  libdatachannel: the handle \<open>rtcCreateWebSocketEx\<close> returns is an argument of
  \<open>tether_signaling_connect\<close>, and what the client does to the socket and to its callback is the
  list of outputs of each operation, in program order.
\<close>

section \<open>Types\<close>

datatype tether_role = TETHER_ROLE_SENDER | TETHER_ROLE_RECEIVER

datatype tether_signaling_state =
    TETHER_SIG_STATE_DISCONNECTED
  | TETHER_SIG_STATE_CONNECTING
  | TETHER_SIG_STATE_CONNECTED
  | TETHER_SIG_STATE_FAILED

datatype tether_signaling_event =
    TETHER_SIG_EVT_TOKEN_ISSUED
  | TETHER_SIG_EVT_REQUEST_PENDING
  | TETHER_SIG_EVT_PEER_GONE
  | TETHER_SIG_EVT_REQUEST_ACCEPTED
  | TETHER_SIG_EVT_REQUEST_REJECTED
  | TETHER_SIG_EVT_TOKEN_INVALID
  | TETHER_SIG_EVT_TOKEN_LOCKED_OUT
  | TETHER_SIG_EVT_SDP_OFFER
  | TETHER_SIG_EVT_SDP_ANSWER
  | TETHER_SIG_EVT_ICE_CANDIDATE
  | TETHER_SIG_EVT_STATE_CHANGED

text \<open>\<open>sc_cb\<close> says whether the callback is set.\<close>

record tether_signaling_config =
  sc_server_url :: "string option"
  sc_role :: tether_role
  sc_display_name :: "string option"
  sc_token :: "string option"
  sc_token_ttl_minutes :: int
  sc_reusable_token :: bool
  sc_cb :: bool

record tether_signaling =
  sig_cfg :: tether_signaling_config
  sig_server_url :: string
  sig_display_name :: string
  sig_token :: "string option"
  sig_ws :: int
  sig_state :: tether_signaling_state

text \<open>A call of the callback with its event, peer id and payload; the calls on the socket, the one
  that opens it with the handle it returned.\<close>

datatype sig_out =
    Emit tether_signaling_event "string option" "string option"
  | WsOpen string int
  | WsSend int string
  | WsClose int

definition emit ::
  "tether_signaling \<Rightarrow> tether_signaling_event \<Rightarrow> string option \<Rightarrow> string option \<Rightarrow> sig_out list" where
  "emit sig evt pid payload = (if sc_cb (sig_cfg sig) then [Emit evt pid payload] else [])"

definition set_state ::
  "tether_signaling \<Rightarrow> tether_signaling_state \<Rightarrow> tether_signaling \<times> sig_out list" where
  "set_state sig s =
     (sig\<lparr>sig_state := s\<rparr>,
      if sig_state sig \<noteq> s then emit sig TETHER_SIG_EVT_STATE_CHANGED None None else [])"

section \<open>Reading flat JSON objects\<close>

text \<open>
  A pointer into \<open>json\<close> is the suffix it points to; \<open>p == json\<close> when it is all of it, and
  \<open>*(p - 1)\<close> is the character before.
\<close>

definition prev_char :: "string \<Rightarrow> string \<Rightarrow> char" where
  "prev_char json p = json ! (ptr_diff p json - 1)"

definition skip_colon :: "string \<Rightarrow> string" where
  "skip_colon s = dropWhile (\<lambda>c. c = CHR '':'' \<or> c = CHR '' '') s"

text \<open>
  The \<open>while\<close> loop of \<open>json_find_str\<close> from \<open>p\<close>: the \<open>start\<close> of the value. The keys are nonempty
  literals, so \<open>strstr\<close> never stops at the terminating NUL.
\<close>

function key_loop :: "string \<Rightarrow> string \<Rightarrow> string \<Rightarrow> string option" where
  "key_loop json key p =
     (case strstr p key of
        None \<Rightarrow> None
      | Some [] \<Rightarrow> None
      | Some (c # r) \<Rightarrow>
          (let q = c # r; after = skip_colon (drop (length key + 1) q) in
           if length q = length json \<or> prev_char json q \<noteq> CHR 0x22 then key_loop json key r
           else if cur (drop (length key) q) \<noteq> CHR 0x22 then key_loop json key r
           else if cur after \<noteq> CHR 0x22 then key_loop json key r
           else Some (tl after)))"
  by pat_completeness auto
termination
  by (relation "measure (\<lambda>(json, key, p). length p)") (auto dest: strstr_length)

declare key_loop.simps [simp del]

text \<open>The loop that measures the value up to its closing quote, an escape being two characters.\<close>

fun value_len :: "string \<Rightarrow> nat" where
  "value_len [] = 0"
| "value_len (c # s) =
     (if c = CHR 0x22 then 0
      else if c = CHR 0x5C then (case s of [] \<Rightarrow> 1 | d # t \<Rightarrow> value_len t + 2)
      else value_len s + 1)"

definition json_find_str :: "string \<Rightarrow> string \<Rightarrow> (string \<times> nat) option" where
  "json_find_str json key = map_option (\<lambda>start. (start, value_len start)) (key_loop json key json)"

definition json_eq_str :: "string \<Rightarrow> string \<Rightarrow> string \<Rightarrow> bool" where
  "json_eq_str json key value =
     (case json_find_str json key of
        None \<Rightarrow> False
      | Some (v, vlen) \<Rightarrow> length value = vlen \<and> take vlen v = value)"

definition json_dup_str :: "string \<Rightarrow> string \<Rightarrow> string option" where
  "json_dup_str json key =
     (case json_find_str json key of None \<Rightarrow> None | Some (v, vlen) \<Rightarrow> Some (take vlen v))"

section \<open>Messages in\<close>

definition send_raw :: "tether_signaling \<Rightarrow> string \<Rightarrow> sig_out list" where
  "send_raw sig json = (if sig_ws sig \<le> 0 then [] else [WsSend (sig_ws sig) json])"

definition handle_message :: "tether_signaling \<Rightarrow> string \<Rightarrow> tether_signaling \<times> sig_out list" where
  "handle_message sig json =
     (if json_eq_str json ''type'' ''token'' then
        (let tok = json_dup_str json ''token''; sig' = sig\<lparr>sig_token := tok\<rparr>
         in (sig', emit sig' TETHER_SIG_EVT_TOKEN_ISSUED None tok))
      else if json_eq_str json ''type'' ''pending'' then
        (sig, emit sig TETHER_SIG_EVT_REQUEST_PENDING (json_dup_str json ''peer_id'') (Some json))
      else if json_eq_str json ''type'' ''peer_gone'' then
        (sig, emit sig TETHER_SIG_EVT_PEER_GONE (json_dup_str json ''peer_id'') None)
      else if json_eq_str json ''type'' ''accepted'' then
        (sig, emit sig TETHER_SIG_EVT_REQUEST_ACCEPTED None None)
      else if json_eq_str json ''type'' ''rejected'' then
        (sig, emit sig TETHER_SIG_EVT_REQUEST_REJECTED None None)
      else if json_eq_str json ''type'' ''token_invalid'' then
        (sig, emit sig TETHER_SIG_EVT_TOKEN_INVALID None None)
      else if json_eq_str json ''type'' ''token_locked_out'' then
        (sig, emit sig TETHER_SIG_EVT_TOKEN_LOCKED_OUT None (Some json))
      else if json_eq_str json ''type'' ''sdp'' then
        (sig, emit sig
           (if json_eq_str json ''sdp_type'' ''offer'' then TETHER_SIG_EVT_SDP_OFFER
            else TETHER_SIG_EVT_SDP_ANSWER)
           (json_dup_str json ''peer_id'') (Some json))
      else if json_eq_str json ''type'' ''ice'' then
        (sig, emit sig TETHER_SIG_EVT_ICE_CANDIDATE (json_dup_str json ''peer_id'') (Some json))
      else (sig, []))"

section \<open>Callbacks of the socket\<close>

definition hello_json :: "tether_signaling \<Rightarrow> string" where
  "hello_json sig =
     ''{\"type\":\"hello\",\"role\":\"'' @
     (if sc_role (sig_cfg sig) = TETHER_ROLE_SENDER then ''sender'' else ''receiver'') @
     ''\",\"name\":\"'' @ sig_display_name sig @ ''\"'' @
     (if sc_role (sig_cfg sig) = TETHER_ROLE_RECEIVER then '',\"token\":\"'' else []) @
     (case sig_token sig of
        None \<Rightarrow> []
      | Some t \<Rightarrow> if sc_role (sig_cfg sig) = TETHER_ROLE_RECEIVER then t else []) @
     (if sc_role (sig_cfg sig) = TETHER_ROLE_RECEIVER then ''\"'' else []) @
     '',\"ttl_minutes\":'' @ show_int (sc_token_ttl_minutes (sig_cfg sig)) @
     '',\"reusable\":'' @ (if sc_reusable_token (sig_cfg sig) then ''true'' else ''false'') @ ''}''"

definition on_open :: "tether_signaling \<Rightarrow> tether_signaling \<times> sig_out list" where
  "on_open sig =
     (let (sig', outs) = set_state sig TETHER_SIG_STATE_CONNECTED
      in (sig', outs @ send_raw sig' (hello_json sig')))"

definition on_closed :: "tether_signaling \<Rightarrow> tether_signaling \<times> sig_out list" where
  "on_closed sig = set_state sig TETHER_SIG_STATE_DISCONNECTED"

definition on_error :: "tether_signaling \<Rightarrow> tether_signaling \<times> sig_out list" where
  "on_error sig = set_state sig TETHER_SIG_STATE_FAILED"

definition on_message :: "tether_signaling \<Rightarrow> string option \<Rightarrow> int \<Rightarrow> tether_signaling \<times> sig_out list" where
  "on_message sig msg sz =
     (case msg of
        None \<Rightarrow> (sig, [])
      | Some m \<Rightarrow> if sz < 0 then handle_message sig m else (sig, []))"

section \<open>Connection\<close>

definition tether_signaling_create :: "tether_signaling_config option \<Rightarrow> tether_signaling option" where
  "tether_signaling_create cfg =
     (case cfg of
        None \<Rightarrow> None
      | Some c \<Rightarrow>
          (case sc_server_url c of
             None \<Rightarrow> None
           | Some url \<Rightarrow>
               Some \<lparr>sig_cfg = c, sig_server_url = url,
                 sig_display_name = (case sc_display_name c of None \<Rightarrow> [] | Some n \<Rightarrow> n),
                 sig_token = (if nonempty_str (sc_token c) then sc_token c else None),
                 sig_ws = -1, sig_state = TETHER_SIG_STATE_DISCONNECTED\<rparr>))"

definition ws_url :: "tether_signaling \<Rightarrow> string" where
  "ws_url sig =
     sig_server_url sig @
     (if sc_role (sig_cfg sig) = TETHER_ROLE_RECEIVER \<and> nonempty_str (sig_token sig)
      then (if strchr (sig_server_url sig) (CHR ''?'') \<noteq> None then ''&token='' else ''?token='') @
           the (sig_token sig)
      else [])"

text \<open>\<open>ws\<close> is what \<open>rtcCreateWebSocketEx\<close> returns.\<close>

definition tether_signaling_connect ::
  "int \<Rightarrow> tether_signaling option \<Rightarrow> tether_signaling option \<times> bool \<times> sig_out list" where
  "tether_signaling_connect ws sig =
     (case sig of
        None \<Rightarrow> (None, False, [])
      | Some s \<Rightarrow>
          if 0 < sig_ws s then (Some s, False, [])
          else let (s1, o1) = set_state s TETHER_SIG_STATE_CONNECTING in
               if ws \<le> 0
               then let (s2, o2) = set_state s1 TETHER_SIG_STATE_FAILED
                    in (Some s2, False, o1 @ [WsOpen (ws_url s1) ws] @ o2)
               else (Some (s1\<lparr>sig_ws := ws\<rparr>), True, o1 @ [WsOpen (ws_url s1) ws]))"

definition tether_signaling_disconnect ::
  "tether_signaling option \<Rightarrow> tether_signaling option \<times> sig_out list" where
  "tether_signaling_disconnect sig =
     (case sig of
        None \<Rightarrow> (None, [])
      | Some s \<Rightarrow>
          if sig_ws s \<le> 0 then (Some s, [])
          else let (s', outs) = set_state (s\<lparr>sig_ws := -1\<rparr>) TETHER_SIG_STATE_DISCONNECTED
               in (Some s', WsClose (sig_ws s) # outs))"

definition tether_signaling_release ::
  "tether_signaling option \<Rightarrow> tether_signaling option \<times> sig_out list" where
  "tether_signaling_release sig = (None, snd (tether_signaling_disconnect sig))"

definition tether_signaling_get_state :: "tether_signaling option \<Rightarrow> tether_signaling_state" where
  "tether_signaling_get_state sig =
     (case sig of None \<Rightarrow> TETHER_SIG_STATE_DISCONNECTED | Some s \<Rightarrow> sig_state s)"

section \<open>Messages out\<close>

definition accept_json :: "string \<Rightarrow> string" where
  "accept_json pid = ''{\"type\":\"accept\",\"peer_id\":\"'' @ pid @ ''\"}''"

definition tether_signaling_accept :: "tether_signaling option \<Rightarrow> string option \<Rightarrow> bool \<times> sig_out list" where
  "tether_signaling_accept sig pid =
     (case (sig, pid) of
        (Some s, Some i) \<Rightarrow> (True, send_raw s (accept_json i))
      | _ \<Rightarrow> (False, []))"

definition reject_json :: "string \<Rightarrow> string" where
  "reject_json pid = ''{\"type\":\"reject\",\"peer_id\":\"'' @ pid @ ''\"}''"

definition tether_signaling_reject :: "tether_signaling option \<Rightarrow> string option \<Rightarrow> bool \<times> sig_out list" where
  "tether_signaling_reject sig pid =
     (case (sig, pid) of
        (Some s, Some i) \<Rightarrow> (True, send_raw s (reject_json i))
      | _ \<Rightarrow> (False, []))"

definition tether_signaling_revoke_token :: "tether_signaling option \<Rightarrow> bool \<times> sig_out list" where
  "tether_signaling_revoke_token sig =
     (case sig of None \<Rightarrow> (False, []) | Some s \<Rightarrow> (True, send_raw s ''{\"type\":\"revoke\"}''))"

text \<open>The loop that escapes the SDP.\<close>

definition escape_char :: "char \<Rightarrow> string" where
  "escape_char c =
     (if c = CHR 0x5C then [CHR 0x5C, CHR 0x5C]
      else if c = CHR 0x22 then [CHR 0x5C, CHR 0x22]
      else if c = CHR 0x0A then [CHR 0x5C, CHR ''n'']
      else if c = CHR 0x0D then [CHR 0x5C, CHR ''r'']
      else if c = CHR 0x09 then [CHR 0x5C, CHR ''t'']
      else [c])"

fun sdp_escape :: "string \<Rightarrow> string" where
  "sdp_escape [] = []"
| "sdp_escape (c # s) = escape_char c @ sdp_escape s"

definition sdp_json :: "string \<Rightarrow> string \<Rightarrow> string \<Rightarrow> string" where
  "sdp_json pid sdp_type sdp =
     ''{\"type\":\"sdp\",\"peer_id\":\"'' @ pid @ ''\",\"sdp_type\":\"'' @ sdp_type @
     ''\",\"sdp\":\"'' @ sdp_escape sdp @ ''\"}''"

definition tether_signaling_send_sdp ::
  "tether_signaling option \<Rightarrow> string option \<Rightarrow> string option \<Rightarrow> string option \<Rightarrow> bool \<times> sig_out list" where
  "tether_signaling_send_sdp sig pid sdp_type sdp =
     (case (sig, pid, sdp_type, sdp) of
        (Some s, Some i, Some ty, Some d) \<Rightarrow> (True, send_raw s (sdp_json i ty d))
      | _ \<Rightarrow> (False, []))"

definition ice_json :: "string \<Rightarrow> string \<Rightarrow> string \<Rightarrow> int \<Rightarrow> string" where
  "ice_json pid candidate mid mline_index =
     ''{\"type\":\"ice\",\"peer_id\":\"'' @ pid @ ''\",\"candidate\":\"'' @ candidate @
     ''\",\"mid\":\"'' @ mid @ ''\",\"mline\":'' @ show_int mline_index @ ''}''"

definition tether_signaling_send_ice ::
  "tether_signaling option \<Rightarrow> string option \<Rightarrow> string option \<Rightarrow> string option \<Rightarrow> int \<Rightarrow> bool \<times> sig_out list" where
  "tether_signaling_send_ice sig pid candidate mid mline_index =
     (case (sig, pid, candidate, mid) of
        (Some s, Some i, Some c, Some m) \<Rightarrow> (True, send_raw s (ice_json i c m mline_index))
      | _ \<Rightarrow> (False, []))"

section \<open>Scanning for a member\<close>

text \<open>
  A hit for \<open>key\<close> at a pointer with the character \<open>pv\<close> before it: the key between two quotes, and
  \<open>follows\<close> of what comes after them. \<^term>\<open>quote_scan follows key pv p\<close> is the rest of the text
  after the closing quote of the first hit.
\<close>

definition key_here :: "(string \<Rightarrow> bool) \<Rightarrow> string \<Rightarrow> char \<Rightarrow> string \<Rightarrow> bool" where
  "key_here follows key pv q \<longleftrightarrow> pv = CHR 0x22 \<and> starts_with key q \<and> cur (drop (length key) q) = CHR 0x22 \<and>
     follows (drop (length key + 1) q)"

fun quote_scan :: "(string \<Rightarrow> bool) \<Rightarrow> string \<Rightarrow> char \<Rightarrow> string \<Rightarrow> string option" where
  "quote_scan follows key pv [] = None"
| "quote_scan follows key pv (c # s) =
     (if key_here follows key pv (c # s) then Some (drop (length key + 1) (c # s))
      else quote_scan follows key c s)"

text \<open>The test of \<open>json_find_str\<close> on what follows the key.\<close>

definition value_follows :: "string \<Rightarrow> bool" where
  "value_follows r \<longleftrightarrow> cur (skip_colon r) = CHR 0x22"

lemma key_loop_step:
  assumes "key \<noteq> []" and "json = pre @ c # s" and "pv = (if pre = [] then NUL else last pre)"
  shows "key_loop json key (c # s) =
    (if key_here value_follows key pv (c # s) then Some (tl (skip_colon (drop (length key + 1) (c # s))))
     else key_loop json key s)"
proof (cases "starts_with key (c # s)")
  case True
  have start: "length (c # s) = length json \<longleftrightarrow> pre = []" using assms(2) by simp
  have pv: "prev_char json (c # s) = pv" if "pre \<noteq> []"
    using assms(2,3) that by (simp add: prev_char_def ptr_diff_def nth_append last_conv_nth)
  show ?thesis
  proof (cases "pre = []")
    case True
    then have "\<not> key_here value_follows key pv (c # s)" using assms(3) by (simp add: key_here_def NUL_def)
    with True start \<open>starts_with key (c # s)\<close> show ?thesis
      by (subst key_loop.simps) (simp add: Let_def)
  next
    case False
    with True start pv show ?thesis
      by (subst key_loop.simps) (simp add: Let_def key_here_def value_follows_def)
  qed
next
  case False
  then have "strstr (c # s) key = strstr s key" by simp
  then have "key_loop json key (c # s) = key_loop json key s"
    by (simp only: key_loop.simps [of json key "c # s"] key_loop.simps [of json key s])
  with False show ?thesis by (simp add: key_here_def)
qed

lemma key_loop_scan:
  "key \<noteq> [] \<Longrightarrow> json = pre @ p \<Longrightarrow>
    key_loop json key p = map_option (\<lambda>r. tl (skip_colon r))
      (quote_scan value_follows key (if pre = [] then NUL else last pre) p)"
proof (induction p arbitrary: pre)
  case Nil
  then show ?case by (subst key_loop.simps) simp
next
  case (Cons c s)
  from key_loop_step [OF Cons.prems refl] Cons.IH [of "pre @ [c]"] Cons.prems show ?case by simp
qed

lemma json_find_scan: "key \<noteq> [] \<Longrightarrow>
  json_find_str json key = map_option (\<lambda>r. (tl (skip_colon r), value_len (tl (skip_colon r))))
    (quote_scan value_follows key NUL json)"
  using key_loop_scan [of key json "[]" json]
  by (simp add: json_find_str_def option.map_comp comp_def)

text \<open>
  The two ends of the wire also look members up with \<open>strstr (json, "\"key\":\"")\<close>.
\<close>

definition member_pattern :: "string \<Rightarrow> string" where
  "member_pattern key = CHR 0x22 # key @ [CHR 0x22, CHR '':'', CHR 0x22]"

definition colon_quote :: "string \<Rightarrow> bool" where
  "colon_quote r \<longleftrightarrow> starts_with [CHR '':'', CHR 0x22] r"

lemma starts_with_append_iff:
  "starts_with (p @ q) s \<longleftrightarrow> starts_with p s \<and> starts_with q (drop (length p) s)"
  by (induction p s rule: starts_with.induct) auto

lemma starts_with_Cons_iff: "starts_with (c # q) s \<longleftrightarrow> s \<noteq> [] \<and> hd s = c \<and> starts_with q (tl s)"
  by (cases s) auto

lemma pattern_here:
  "starts_with (member_pattern key) (CHR 0x22 # s) \<longleftrightarrow> key_here colon_quote key (CHR 0x22) s"
proof -
  have "s \<noteq> [] \<Longrightarrow> hd s = CHR 0x22 \<longleftrightarrow> cur s = CHR 0x22" for s :: string by (cases s) auto
  then show ?thesis
    by (cases "drop (length key) s")
       (auto simp: member_pattern_def key_here_def colon_quote_def starts_with_append_iff drop_Suc
         tl_drop [symmetric] NUL_def)
qed

lemma strstr_pattern_scan:
  "map_option (drop (length key + 2)) (strstr (if pv = CHR 0x22 then pv # p else p) (member_pattern key)) =
    quote_scan colon_quote key pv p"
proof (induction p arbitrary: pv)
  case Nil
  have "\<not> starts_with (member_pattern key) [CHR 0x22]"
    by (cases key) (simp_all add: member_pattern_def)
  then show ?case by (simp add: member_pattern_def)
next
  case (Cons c s)
  have rest: "map_option (drop (length key + 2)) (strstr (c # s) (member_pattern key)) = quote_scan colon_quote key c s"
  proof (cases "c = CHR 0x22")
    case True
    with Cons [of c] show ?thesis by simp
  next
    case False
    then have "strstr (c # s) (member_pattern key) = strstr s (member_pattern key)"
      by (simp add: member_pattern_def)
    with False Cons [of c] show ?thesis by simp
  qed
  show ?case
  proof (cases "pv = CHR 0x22")
    case True
    then show ?thesis
    proof (cases "key_here colon_quote key pv (c # s)")
      case hit: True
      then have "starts_with (member_pattern key) (CHR 0x22 # c # s)" using True by (simp add: pattern_here)
      with hit True show ?thesis by simp
    next
      case False
      then have "\<not> starts_with (member_pattern key) (CHR 0x22 # c # s)" using True by (simp add: pattern_here)
      with False True rest show ?thesis by simp
    qed
  next
    case False
    with rest show ?thesis by (simp add: key_here_def)
  qed
qed

lemma strstr_scan:
  "map_option (drop (length key + 2)) (strstr json (member_pattern key)) = quote_scan colon_quote key NUL json"
  using strstr_pattern_scan [of key NUL json] by (simp add: NUL_def)

section \<open>Flat JSON objects\<close>

text \<open>
  The objects of the wire protocol: string members, whose text is escaped, and members printed
  raw (numbers and booleans). \<open>json_text\<close> says where the quotes of an escaped text can stand.
\<close>

fun json_text :: "string \<Rightarrow> bool" where
  "json_text [] = True"
| "json_text (c # s) =
     (if c = CHR 0x22 then False
      else if c = CHR 0x5C then (case s of [] \<Rightarrow> False | d # t \<Rightarrow> json_text t)
      else json_text s)"

datatype json_value = JStr string | JRaw string

fun value_ok :: "json_value \<Rightarrow> bool" where
  "value_ok (JStr v) \<longleftrightarrow> json_text v"
| "value_ok (JRaw v) \<longleftrightarrow> CHR 0x22 \<notin> set v \<and> cur v \<notin> {NUL, CHR '':'', CHR '' ''}"

definition key_ok :: "string \<Rightarrow> bool" where
  "key_ok k \<longleftrightarrow> k \<noteq> [] \<and> set k \<inter> {CHR 0x22, CHR 0x5C, CHR '':'', CHR '','', CHR ''{'', CHR ''}''} = {}"

type_synonym json_object = "(string \<times> json_value) list"

definition object_ok :: "json_object \<Rightarrow> bool" where
  "object_ok fs \<longleftrightarrow> (\<forall>(k, v) \<in> set fs. key_ok k \<and> value_ok v)"

fun print_value :: "json_value \<Rightarrow> string" where
  "print_value (JStr v) = [CHR 0x22] @ v @ [CHR 0x22]"
| "print_value (JRaw v) = v"

definition print_field :: "string \<times> json_value \<Rightarrow> string" where
  "print_field f = [CHR 0x22] @ fst f @ [CHR 0x22, CHR '':''] @ print_value (snd f)"

fun print_fields :: "json_object \<Rightarrow> string" where
  "print_fields [] = [CHR ''}'']"
| "print_fields [f] = print_field f @ [CHR ''}'']"
| "print_fields (f # g # fs) = print_field f @ [CHR '',''] @ print_fields (g # fs)"

definition print_object :: "json_object \<Rightarrow> string" where
  "print_object fs = CHR ''{'' # print_fields fs"

text \<open>The text of the first string member with a key.\<close>

fun lookup_str :: "json_object \<Rightarrow> string \<Rightarrow> string option" where
  "lookup_str [] key = None"
| "lookup_str ((k, JStr v) # fs) key = (if k = key then Some v else lookup_str fs key)"
| "lookup_str ((k, JRaw v) # fs) key = lookup_str fs key"

lemma starts_with_to_quote:
  "CHR 0x22 \<notin> set key \<Longrightarrow> CHR 0x22 \<notin> set t \<Longrightarrow>
    starts_with key (t @ CHR 0x22 # r) \<and> cur (drop (length key) (t @ CHR 0x22 # r)) = CHR 0x22 \<longleftrightarrow> t = key"
proof (induction key t rule: list_induct2')
  case (3 d t)
  then show ?case by auto
next
  case (2 c key)
  then show ?case by (auto simp: NUL_def)
qed auto

lemma cur_drop_not_quote: "CHR 0x22 \<notin> set t \<Longrightarrow> cur (drop n t) \<noteq> CHR 0x22"
proof (cases "drop n t")
  case (Cons c u)
  moreover assume "CHR 0x22 \<notin> set t"
  ultimately have "c \<noteq> CHR 0x22" using in_set_dropD [of c n t] by auto
  with Cons show ?thesis by simp
qed (simp add: NUL_def)

section \<open>Scanning a flat object\<close>

text \<open>
  What a scanner must see behind a key to find exactly the string members of flat objects; both
  scanners of the code meet it.
\<close>

locale member_scanner =
  fixes follows :: "string \<Rightarrow> bool"
  assumes follows_value: "follows (CHR '':'' # CHR 0x22 # r)"
    and not_follows: "c \<in> {CHR '','', CHR ''}''} \<Longrightarrow> \<not> follows (c # r)"
    and not_follows_raw: "value_ok (JRaw v) \<Longrightarrow> \<not> follows (CHR '':'' # v @ r)"
begin

lemma key_here_quote: "pv \<noteq> CHR 0x22 \<Longrightarrow> \<not> key_here follows key pv q"
  by (simp add: key_here_def)

lemma key_here_at_quote: "key \<noteq> [] \<Longrightarrow> CHR 0x22 \<notin> set key \<Longrightarrow> \<not> key_here follows key pv (CHR 0x22 # r)"
  by (cases key) (auto simp: key_here_def)

lemma scan_unquoted:
  "pv \<noteq> CHR 0x22 \<Longrightarrow> CHR 0x22 \<notin> set t \<Longrightarrow>
    quote_scan follows key pv (t @ CHR 0x22 # r) = quote_scan follows key (CHR 0x22) r"
proof (induction t arbitrary: pv)
  case Nil
  then show ?case by (simp add: key_here_quote)
next
  case (Cons c t)
  then have "quote_scan follows key pv ((c # t) @ CHR 0x22 # r) = quote_scan follows key c (t @ CHR 0x22 # r)"
    by (simp add: key_here_quote)
  also have "\<dots> = quote_scan follows key (CHR 0x22) r" using Cons.prems by (intro Cons.IH) auto
  finally show ?case .
qed

text \<open>The scan from a quote passes the text up to the next one, unless it is the key and a value follows.\<close>

lemma scan_chunk:
  assumes "CHR 0x22 \<notin> set t" and "key \<noteq> []" and "CHR 0x22 \<notin> set key"
    and "t = key \<Longrightarrow> \<not> follows r"
  shows "quote_scan follows key (CHR 0x22) (t @ CHR 0x22 # r) = quote_scan follows key (CHR 0x22) r"
proof (cases t)
  case Nil
  with key_here_at_quote [OF assms(2,3)] show ?thesis by simp
next
  case (Cons c u)
  have "\<not> key_here follows key (CHR 0x22) (t @ CHR 0x22 # r)"
  proof
    assume hit: "key_here follows key (CHR 0x22) (t @ CHR 0x22 # r)"
    then have "t = key" using starts_with_to_quote [OF assms(3,1), of r] unfolding key_here_def by blast
    with hit assms(4) show False by (simp add: key_here_def)
  qed
  then have "quote_scan follows key (CHR 0x22) (t @ CHR 0x22 # r) = quote_scan follows key c (u @ CHR 0x22 # r)"
    using Cons by simp
  also have "\<dots> = quote_scan follows key (CHR 0x22) r"
    using assms Cons by (intro scan_unquoted) auto
  finally show ?thesis .
qed

lemma scan_no_quote: "CHR 0x22 \<notin> set t \<Longrightarrow> quote_scan follows key pv t = None"
proof (induction t arbitrary: pv)
  case (Cons c t)
  from Cons.prems have "\<not> key_here follows key pv (c # t)"
    unfolding key_here_def using cur_drop_not_quote by blast
  with Cons show ?case by simp
qed simp

lemma scan_text:
  assumes "CHR 0x22 \<notin> set acc" and "json_text v" and "key_ok key" and "c \<in> {CHR '','', CHR ''}''}"
  shows "quote_scan follows key (CHR 0x22) (acc @ v @ CHR 0x22 # c # r) = quote_scan follows key (CHR 0x22) (c # r)"
  using assms(1,2)
proof (induction v arbitrary: acc rule: json_text.induct)
  case 1
  have "\<not> follows (c # r)" using assms(4) by (rule not_follows)
  with 1 assms(3) show ?case by (simp add: scan_chunk key_ok_def)
next
  case (2 d s)
  have key: "key \<noteq> []" "CHR 0x22 \<notin> set key" "CHR 0x5C \<notin> set key" using assms(3) by (auto simp: key_ok_def)
  show ?case
  proof (cases "d = CHR 0x5C")
    case True
    with 2 obtain e t where s: "s = e # t" "json_text t" by (cases s) auto
    show ?thesis
    proof (cases "e = CHR 0x22")
      case q: True
      have "quote_scan follows key (CHR 0x22) ((acc @ [d]) @ CHR 0x22 # t @ CHR 0x22 # c # r) =
          quote_scan follows key (CHR 0x22) (t @ CHR 0x22 # c # r)"
        by (rule scan_chunk) (use 2 True key in auto)
      also have "\<dots> = quote_scan follows key (CHR 0x22) (c # r)"
        using "2.IH"(1) [OF _ True s(1), of "[]"] True s by simp
      finally show ?thesis by (simp add: s q)
    next
      case False
      with 2 True s show ?thesis using "2.IH"(1) [OF _ True s(1), of "acc @ [d, e]"] by simp
    qed
  next
    case False
    with 2 show ?thesis using "2.IH"(2) [of "acc @ [d]"] by (simp split: if_splits)
  qed
qed

text \<open>One field: found, or passed up to the character that follows it.\<close>

lemma scan_key:
  assumes "key_ok k" and "key_ok key" and "k = key \<Longrightarrow> \<not> follows r"
  shows "quote_scan follows key (CHR 0x22) (k @ CHR 0x22 # r) = quote_scan follows key (CHR 0x22) r"
  using assms by (intro scan_chunk) (auto simp: key_ok_def)

lemma scan_str_field:
  assumes "key_ok k" and "key_ok key" and "json_text v" and "c \<in> {CHR '','', CHR ''}''}"
  shows "quote_scan follows key (CHR 0x22) (k @ CHR 0x22 # CHR '':'' # CHR 0x22 # v @ CHR 0x22 # c # r) =
    (if k = key then Some (CHR '':'' # CHR 0x22 # v @ CHR 0x22 # c # r) else quote_scan follows key (CHR 0x22) (c # r))"
proof (cases "k = key")
  case True
  obtain a k' where k: "k = a # k'" using assms(1) by (cases k) (auto simp: key_ok_def)
  have "key_here follows k (CHR 0x22) (k @ CHR 0x22 # CHR '':'' # CHR 0x22 # v @ CHR 0x22 # c # r)"
    by (simp add: key_here_def follows_value)
  then show ?thesis unfolding True [symmetric] k by simp
next
  case False
  let ?r = "CHR 0x22 # v @ CHR 0x22 # c # r"
  have "quote_scan follows key (CHR 0x22) (k @ CHR 0x22 # CHR '':'' # ?r) =
      quote_scan follows key (CHR 0x22) ([CHR '':''] @ ?r)"
    using scan_key [OF assms(1,2)] False by simp
  also have "\<dots> = quote_scan follows key (CHR 0x22) (v @ CHR 0x22 # c # r)"
    by (rule scan_chunk) (use assms(2) in \<open>auto simp: key_ok_def\<close>)
  also have "\<dots> = quote_scan follows key (CHR 0x22) (c # r)"
    using scan_text [of "[]", OF _ assms(3,2,4)] by simp
  finally show ?thesis using False by simp
qed

lemma scan_raw_field:
  assumes "key_ok k" and "key_ok key" and "value_ok (JRaw v)" and "CHR 0x22 \<notin> set t"
  shows "quote_scan follows key (CHR 0x22) (k @ CHR 0x22 # CHR '':'' # v @ t @ CHR 0x22 # r) =
      quote_scan follows key (CHR 0x22) r"
    and "quote_scan follows key (CHR 0x22) (k @ CHR 0x22 # CHR '':'' # v @ t) = None"
proof -
  have stop: "\<not> follows (CHR '':'' # v @ u)" for u
    using assms(3) by (rule not_follows_raw)
  have "quote_scan follows key (CHR 0x22) (k @ CHR 0x22 # CHR '':'' # v @ t @ CHR 0x22 # r) =
      quote_scan follows key (CHR 0x22) ((CHR '':'' # v @ t) @ CHR 0x22 # r)"
    using scan_key [OF assms(1,2) stop] by simp
  also have "\<dots> = quote_scan follows key (CHR 0x22) r"
    by (rule scan_chunk) (use assms in \<open>auto simp: key_ok_def\<close>)
  finally show "quote_scan follows key (CHR 0x22) (k @ CHR 0x22 # CHR '':'' # v @ t @ CHR 0x22 # r) =
      quote_scan follows key (CHR 0x22) r" .
  have "quote_scan follows key (CHR 0x22) (k @ CHR 0x22 # CHR '':'' # v @ t) =
      quote_scan follows key (CHR 0x22) (CHR '':'' # v @ t)"
    using scan_key [OF assms(1,2) stop] by simp
  also have "\<dots> = None" by (rule scan_no_quote) (use assms(3,4) in auto)
  finally show "quote_scan follows key (CHR 0x22) (k @ CHR 0x22 # CHR '':'' # v @ t) = None" .
qed

lemma scan_fields:
  assumes "object_ok fs" and "key_ok key" and "pv \<noteq> CHR 0x22"
  shows "\<exists>c r. quote_scan follows key pv (print_fields fs) =
    map_option (\<lambda>v. CHR '':'' # CHR 0x22 # v @ CHR 0x22 # c # r) (lookup_str fs key)"
  using assms
proof (induction fs arbitrary: pv rule: print_fields.induct)
  case 1
  then show ?case by (simp add: key_here_quote)
next
  case (2 f)
  obtain k v where f: "f = (k, v)" by fastforce
  with 2 have ok: "key_ok k" "value_ok v" by (auto simp: object_ok_def)
  have none: "quote_scan follows key (CHR 0x22) ''}'' = None" by (rule scan_no_quote) simp
  show ?case
  proof (cases v)
    case (JStr t)
    with 2 ok f scan_str_field [OF ok(1) 2(2), of t "CHR ''}''" "[]"] none show ?thesis
      by (auto simp: print_field_def key_here_quote)
  next
    case (JRaw t)
    with 2 ok f scan_raw_field(2) [OF ok(1) 2(2), of t "[CHR ''}'']"] show ?thesis
      by (auto simp: print_field_def key_here_quote)
  qed
next
  case (3 f g fs)
  obtain k v where f: "f = (k, v)" by fastforce
  with 3 have ok: "key_ok k" "value_ok v" and rest: "object_ok (g # fs)" by (auto simp: object_ok_def)
  obtain r where r: "print_fields (g # fs) = CHR 0x22 # r" by (cases fs) (auto simp: print_field_def)
  have skip: "quote_scan follows key (CHR 0x22) r = quote_scan follows key (CHR '','') (print_fields (g # fs))"
    by (simp add: r key_here_quote)
  obtain c r' where ih: "quote_scan follows key (CHR '','') (print_fields (g # fs)) =
      map_option (\<lambda>v. CHR '':'' # CHR 0x22 # v @ CHR 0x22 # c # r') (lookup_str (g # fs) key)"
    using 3(1) [OF rest 3(3), of "CHR '',''"] by auto
  have "quote_scan follows key (CHR 0x22) ([CHR '',''] @ CHR 0x22 # r) = quote_scan follows key (CHR 0x22) r"
    by (rule scan_chunk) (use 3(3) in \<open>auto simp: key_ok_def\<close>)
  then have comma: "quote_scan follows key (CHR 0x22) (CHR '','' # CHR 0x22 # r) = quote_scan follows key (CHR 0x22) r"
    by (simp only: append_Cons append_Nil)
  show ?case
  proof (cases v)
    case (JStr t)
    let ?x = "k @ CHR 0x22 # CHR '':'' # CHR 0x22 # t @ CHR 0x22 # CHR '','' # CHR 0x22 # r"
    have "print_fields (f # g # fs) = CHR 0x22 # ?x"
      using JStr by (simp add: print_field_def f r)
    then have "quote_scan follows key pv (print_fields (f # g # fs)) = quote_scan follows key (CHR 0x22) ?x"
      by (simp add: key_here_quote [OF 3(4)])
    also have "\<dots> = (if k = key then Some (CHR '':'' # CHR 0x22 # t @ CHR 0x22 # CHR '','' # CHR 0x22 # r)
        else quote_scan follows key (CHR 0x22) (CHR '','' # CHR 0x22 # r))"
      by (rule scan_str_field) (use ok 3(3) JStr in simp_all)
    also have "\<dots> = (if k = key then Some (CHR '':'' # CHR 0x22 # t @ CHR 0x22 # CHR '','' # CHR 0x22 # r)
        else map_option (\<lambda>v. CHR '':'' # CHR 0x22 # v @ CHR 0x22 # c # r') (lookup_str (g # fs) key))"
      by (simp only: comma skip ih)
    finally show ?thesis using f JStr by (cases "k = key") auto
  next
    case (JRaw t)
    let ?x = "k @ CHR 0x22 # CHR '':'' # t @ [CHR '',''] @ CHR 0x22 # r"
    have "print_fields (f # g # fs) = CHR 0x22 # ?x"
      using JRaw by (simp add: print_field_def f r)
    then have "quote_scan follows key pv (print_fields (f # g # fs)) = quote_scan follows key (CHR 0x22) ?x"
      by (simp add: key_here_quote [OF 3(4)])
    also have "\<dots> = quote_scan follows key (CHR 0x22) r"
      by (rule scan_raw_field(1)) (use ok 3(3) JRaw in simp_all)
    also have "\<dots> = map_option (\<lambda>v. CHR '':'' # CHR 0x22 # v @ CHR 0x22 # c # r') (lookup_str (g # fs) key)"
      by (simp only: skip ih)
    finally show ?thesis using f JRaw by auto
  qed
qed

lemma scan_object:
  assumes "object_ok fs" and "key_ok key"
  shows "\<exists>c r. quote_scan follows key NUL (print_object fs) =
    map_option (\<lambda>v. CHR '':'' # CHR 0x22 # v @ CHR 0x22 # c # r) (lookup_str fs key)"
  using scan_fields [OF assms, of "CHR ''{''"] by (simp add: print_object_def key_here_quote NUL_def)

end

lemma skip_colon_simps [simp]:
  "skip_colon (CHR '':'' # s) = skip_colon s" "skip_colon (CHR '' '' # s) = skip_colon s"
  by (simp_all add: skip_colon_def)

lemma skip_colon_stop: "cur s \<notin> {CHR '':'', CHR '' ''} \<Longrightarrow> skip_colon s = s"
  by (cases s) (simp_all add: skip_colon_def)

interpretation loop: member_scanner value_follows
proof
  fix v r
  assume "value_ok (JRaw v)"
  then show "\<not> value_follows (CHR '':'' # v @ r)"
    by (cases v) (auto simp: value_follows_def skip_colon_stop)
qed (auto simp: value_follows_def skip_colon_stop NUL_def)

interpretation pattern: member_scanner colon_quote
proof
  fix v r
  assume "value_ok (JRaw v)"
  then show "\<not> colon_quote (CHR '':'' # v @ r)" by (cases v) (auto simp: colon_quote_def)
qed (auto simp: colon_quote_def)

lemma value_len_text: "json_text v \<Longrightarrow> value_len (v @ CHR 0x22 # r) = length v"
  by (induction v rule: json_text.induct) (auto split: list.splits if_splits)

lemma lookup_str_ok: "object_ok fs \<Longrightarrow> lookup_str fs key = Some v \<Longrightarrow> json_text v"
  by (induction fs key rule: lookup_str.induct) (auto simp: object_ok_def split: if_splits)

lemma json_find_object:
  assumes "object_ok fs" and "key_ok key"
  shows "json_dup_str (print_object fs) key = lookup_str fs key"
    and "json_eq_str (print_object fs) key value \<longleftrightarrow> lookup_str fs key = Some value"
proof -
  have key: "key \<noteq> []" using assms(2) by (auto simp: key_ok_def)
  obtain c r where scan: "quote_scan value_follows key NUL (print_object fs) =
      map_option (\<lambda>v. CHR '':'' # CHR 0x22 # v @ CHR 0x22 # c # r) (lookup_str fs key)"
    using loop.scan_object [OF assms] by blast
  then have find: "json_find_str (print_object fs) key =
      map_option (\<lambda>v. (v @ CHR 0x22 # c # r, length v)) (lookup_str fs key)"
    using value_len_text lookup_str_ok [OF assms(1)]
    by (cases "lookup_str fs key") (auto simp: json_find_scan [OF key] skip_colon_stop)
  then show "json_dup_str (print_object fs) key = lookup_str fs key"
    and "json_eq_str (print_object fs) key value \<longleftrightarrow> lookup_str fs key = Some value"
    by (cases "lookup_str fs key"; auto simp: json_dup_str_def json_eq_str_def)+
qed

text \<open>The pointer past \<open>strstr (json, "\"key\":\"")\<close> is at the member's text, when there is one.\<close>

lemma pattern_object:
  assumes "object_ok fs" and "key_ok key"
  shows "\<exists>c r. map_option (drop (length (member_pattern key))) (strstr (print_object fs) (member_pattern key)) =
    map_option (\<lambda>v. v @ CHR 0x22 # c # r) (lookup_str fs key)"
proof -
  obtain c r where "quote_scan colon_quote key NUL (print_object fs) =
      map_option (\<lambda>v. CHR '':'' # CHR 0x22 # v @ CHR 0x22 # c # r) (lookup_str fs key)"
    using pattern.scan_object [OF assms] by blast
  with strstr_scan [of key "print_object fs"] have "map_option (drop 2) (map_option (drop (length key + 2)) (strstr (print_object fs) (member_pattern key))) =
      map_option (drop 2) (map_option (\<lambda>v. CHR '':'' # CHR 0x22 # v @ CHR 0x22 # c # r) (lookup_str fs key))"
    by simp
  then have "map_option (drop (length (member_pattern key))) (strstr (print_object fs) (member_pattern key)) =
      map_option (\<lambda>v. v @ CHR 0x22 # c # r) (lookup_str fs key)"
    by (simp add: option.map_comp comp_def member_pattern_def)
  then show ?thesis by blast
qed

section \<open>The messages are flat objects\<close>

lemma json_text_plain: "set s \<inter> {CHR 0x22, CHR 0x5C} = {} \<Longrightarrow> json_text s"
  by (induction s) auto

lemma json_text_escape [simp]: "json_text (sdp_escape s)"
  by (induction s) (simp_all add: escape_char_def)

lemma show_nat_nonempty [simp]: "show_nat n \<noteq> []"
  by (subst show_nat.simps) simp

lemma show_int_raw: "value_ok (JRaw (show_int i))"
proof -
  have digits: "c \<notin> {CHR 0x22, NUL, CHR '':'', CHR '' ''}" if "c \<in> set (show_nat n)" for c n
    using that show_nat_digits [of n] by (auto simp: NUL_def)
  have "cur (show_nat n) \<notin> {NUL, CHR '':'', CHR '' ''}" for n
    using digits [of "hd (show_nat n)" n] by (cases "show_nat n") auto
  with digits show ?thesis by (auto simp: show_int_def NUL_def)
qed

definition hello_object :: "tether_signaling \<Rightarrow> json_object" where
  "hello_object sig =
     [(''type'', JStr ''hello''),
      (''role'', JStr (if sc_role (sig_cfg sig) = TETHER_ROLE_SENDER then ''sender'' else ''receiver'')),
      (''name'', JStr (sig_display_name sig))] @
     (if sc_role (sig_cfg sig) = TETHER_ROLE_RECEIVER
      then [(''token'', JStr (case sig_token sig of None \<Rightarrow> [] | Some t \<Rightarrow> t))] else []) @
     [(''ttl_minutes'', JRaw (show_int (sc_token_ttl_minutes (sig_cfg sig)))),
      (''reusable'', JRaw (if sc_reusable_token (sig_cfg sig) then ''true'' else ''false''))]"

lemma hello_json_object: "hello_json sig = print_object (hello_object sig)"
  by (cases "sc_role (sig_cfg sig)")
     (simp_all add: hello_json_def hello_object_def print_object_def print_field_def split: option.splits)

lemma hello_object_ok:
  assumes "json_text (sig_display_name sig)"
    and "pred_option json_text (sig_token sig)"
  shows "object_ok (hello_object sig)"
  using assms show_int_raw
  by (cases "sc_role (sig_cfg sig)"; cases "sig_token sig")
     (auto simp: hello_object_def object_ok_def key_ok_def NUL_def)

lemma message_objects:
  "accept_json i = print_object [(''type'', JStr ''accept''), (''peer_id'', JStr i)]"
  "reject_json i = print_object [(''type'', JStr ''reject''), (''peer_id'', JStr i)]"
  "sdp_json i ty sdp = print_object [(''type'', JStr ''sdp''), (''peer_id'', JStr i),
     (''sdp_type'', JStr ty), (''sdp'', JStr (sdp_escape sdp))]"
  "ice_json i c m n = print_object [(''type'', JStr ''ice''), (''peer_id'', JStr i),
     (''candidate'', JStr c), (''mid'', JStr m), (''mline'', JRaw (show_int n))]"
  by (simp_all add: accept_json_def reject_json_def sdp_json_def ice_json_def print_object_def print_field_def)

lemma key_ok_literals [simp]:
  "key_ok ''type''" "key_ok ''peer_id''" "key_ok ''sdp_type''" "key_ok ''sdp''" "key_ok ''candidate''"
  "key_ok ''mid''" "key_ok ''mline''" "key_ok ''token''" "key_ok ''name''" "key_ok ''role''"
  "key_ok ''fingerprint''" "key_ok ''ttl_minutes''" "key_ok ''reusable''"
  by (simp_all add: key_ok_def)

lemma object_ok_simps [simp]:
  "object_ok []" "object_ok ((k, v) # fs) \<longleftrightarrow> key_ok k \<and> value_ok v \<and> object_ok fs"
  by (auto simp: object_ok_def)

section \<open>The connection as a machine\<close>

datatype sig_op =
    SigConnect int
  | SigDisconnect
  | SigOpened
  | SigClosed
  | SigError
  | SigReceived "string option" int
  | SigAccept "string option"
  | SigReject "string option"
  | SigRevoke
  | SigSendSdp "string option" "string option" "string option"
  | SigSendIce "string option" "string option" "string option" int

fun sig_call :: "sig_op \<Rightarrow> tether_signaling \<Rightarrow> tether_signaling \<times> sig_out list" where
  "sig_call (SigConnect ws) s =
     (case tether_signaling_connect ws (Some s) of (s', _, outs) \<Rightarrow> (the s', outs))"
| "sig_call SigDisconnect s = (case tether_signaling_disconnect (Some s) of (s', outs) \<Rightarrow> (the s', outs))"
| "sig_call SigOpened s = on_open s"
| "sig_call SigClosed s = on_closed s"
| "sig_call SigError s = on_error s"
| "sig_call (SigReceived m n) s = on_message s m n"
| "sig_call (SigAccept i) s = (s, snd (tether_signaling_accept (Some s) i))"
| "sig_call (SigReject i) s = (s, snd (tether_signaling_reject (Some s) i))"
| "sig_call SigRevoke s = (s, snd (tether_signaling_revoke_token (Some s)))"
| "sig_call (SigSendSdp i ty d) s = (s, snd (tether_signaling_send_sdp (Some s) i ty d))"
| "sig_call (SigSendIce i c m n) s = (s, snd (tether_signaling_send_ice (Some s) i c m n))"

text \<open>The state with the outputs so far.\<close>

fun sig_step :: "sig_op \<Rightarrow> tether_signaling \<times> sig_out list \<Rightarrow> tether_signaling \<times> sig_out list" where
  "sig_step op (s, log) = (case sig_call op s of (s', outs) \<Rightarrow> (s', log @ outs))"

text \<open>
  The life of the socket: opened only when none is open, written and closed only while open.
  The outer \<^const>\<open>None\<close> is a violation, the inner one no open socket.
\<close>

fun socket_run :: "int option \<Rightarrow> sig_out list \<Rightarrow> int option option" where
  "socket_run h [] = Some h"
| "socket_run h (WsOpen url w # os) =
     (if h \<noteq> None then None else socket_run (if 0 < w then Some w else None) os)"
| "socket_run h (WsSend w j # os) = (if h = Some w then socket_run h os else None)"
| "socket_run h (WsClose w # os) = (if h = Some w then socket_run None os else None)"
| "socket_run h (Emit e i p # os) = socket_run h os"

lemma socket_run_append:
  "socket_run h (xs @ ys) = (case socket_run h xs of None \<Rightarrow> None | Some h' \<Rightarrow> socket_run h' ys)"
  by (induction h xs rule: socket_run.induct) (auto split: option.splits)

definition open_handle :: "tether_signaling \<Rightarrow> int option" where
  "open_handle s = (if 0 < sig_ws s then Some (sig_ws s) else None)"

lemma socket_run_emit [simp]: "socket_run h (emit s e i p) = Some h"
  by (simp add: emit_def)

lemma set_state_facts [simp]:
  "sig_ws (fst (set_state s st)) = sig_ws s" "sig_state (fst (set_state s st)) = st"
  "sig_cfg (fst (set_state s st)) = sig_cfg s" "socket_run h (snd (set_state s st)) = Some h"
  by (simp_all add: set_state_def)

lemma socket_run_send [simp]: "socket_run (open_handle s) (send_raw s j) = Some (open_handle s)"
  by (simp add: send_raw_def open_handle_def)

lemma handle_message_socket:
  "handle_message s m = (s', outs) \<Longrightarrow> socket_run h outs = Some h \<and> sig_ws s' = sig_ws s"
  by (auto simp: handle_message_def Let_def split: if_splits)

lemma sig_call_socket:
  assumes "sig_call op s = (s', outs)"
  shows "socket_run (open_handle s) outs = Some (open_handle s')"
proof (cases op)
  case (SigConnect ws)
  with assms show ?thesis
    by (auto simp: tether_signaling_connect_def set_state_def open_handle_def socket_run_append split: if_splits)
next
  case SigDisconnect
  with assms show ?thesis
    by (auto simp: tether_signaling_disconnect_def set_state_def open_handle_def split: if_splits)
next
  case SigOpened
  with assms show ?thesis
    by (auto simp: on_open_def set_state_def socket_run_append open_handle_def send_raw_def split: if_splits)
next
  case (SigReceived m n)
  with assms handle_message_socket show ?thesis
    by (cases m) (fastforce simp: on_message_def open_handle_def split: if_splits)+
qed (use assms in \<open>auto simp: on_closed_def on_error_def set_state_def open_handle_def send_raw_def
  tether_signaling_accept_def tether_signaling_reject_def tether_signaling_revoke_token_def
  tether_signaling_send_sdp_def tether_signaling_send_ice_def split: option.splits\<close>)

definition socket_inv :: "tether_signaling \<times> sig_out list \<Rightarrow> bool" where
  "socket_inv x \<longleftrightarrow> socket_run None (snd x) = Some (open_handle (fst x))"

interpretation sig_socket: invariant_machine sig_step socket_inv
proof
  fix x op
  assume inv: "socket_inv x"
  obtain s log where x: "x = (s, log)" by fastforce
  obtain s' outs where call: "sig_call op s = (s', outs)" by fastforce
  with inv x sig_call_socket [OF call] show "socket_inv (sig_step op x)"
    by (simp add: socket_inv_def socket_run_append)
qed

section \<open>Properties\<close>

text \<open>C19: the lookup is right in every message of the protocol's shape: in a flat JSON object whose keys, and whose key
  that is looked up, are not empty and hold no quote, backslash, colon, comma or brace, whose string members are escaped, and
  whose other members hold no quote and start with neither a colon nor a blank, \<open>json_find_str\<close> finds the text of the first
  string member with the key, whatever the string members hold: a value that equals the key, that contains it between escaped
  quotes, or a number under the key never misleads it; and \<open>json_eq_str\<close> compares with exactly that text. (A key with an
  escaped quote does mislead it, see \<open>escaped_key_misleads\<close>.)\<close>

theorem json_lookup_correct:
  assumes "object_ok fs" and "key_ok key"
  shows "json_dup_str (print_object fs) key = lookup_str fs key \<and>
    (json_eq_str (print_object fs) key value \<longleftrightarrow> lookup_str fs key = Some value)"
  using json_find_object [OF assms] by blast

lemma json_lookup_correct_witness:
  "json_dup_str (''{\"type\":\"token\",\"name\":\"a'' @ [CHR 0x5C, CHR 0x22] @ ''token\",\"token\":\"TTHR\"}'') ''token'' =
    Some ''TTHR''"
  using json_lookup_correct [of "[(''type'', JStr ''token''),
      (''name'', JStr (''a'' @ [CHR 0x5C, CHR 0x22] @ ''token'')), (''token'', JStr ''TTHR'')]" "''token''"]
  by (simp add: print_object_def print_field_def)

text \<open>
  The scanner does not know where a key ends: in \<open>{"x\"type":"v","type":"w"}\<close> the member \<open>type\<close> is \<open>w\<close>, and it finds \<open>v\<close>,
  the member of the key \<open>x"type\<close>.
\<close>

lemma escaped_key_misleads:
  "json_dup_str (''{\"x'' @ [CHR 0x5C, CHR 0x22] @ ''type\":\"v\",\"type\":\"w\"}'') ''type'' = Some ''v''"
  by code_simp

text \<open>The event of a message: the event, the peer id, and the payload.\<close>

definition wire_event ::
  "json_object \<Rightarrow> (tether_signaling_event \<times> string option \<times> string option) option" where
  "wire_event fs =
     Option.bind (lookup_str fs ''type'')
       (map_of
         [(''token'', (TETHER_SIG_EVT_TOKEN_ISSUED, None, lookup_str fs ''token'')),
          (''pending'', (TETHER_SIG_EVT_REQUEST_PENDING, lookup_str fs ''peer_id'', Some (print_object fs))),
          (''peer_gone'', (TETHER_SIG_EVT_PEER_GONE, lookup_str fs ''peer_id'', None)),
          (''accepted'', (TETHER_SIG_EVT_REQUEST_ACCEPTED, None, None)),
          (''rejected'', (TETHER_SIG_EVT_REQUEST_REJECTED, None, None)),
          (''token_invalid'', (TETHER_SIG_EVT_TOKEN_INVALID, None, None)),
          (''token_locked_out'', (TETHER_SIG_EVT_TOKEN_LOCKED_OUT, None, Some (print_object fs))),
          (''sdp'', (if lookup_str fs ''sdp_type'' = Some ''offer'' then TETHER_SIG_EVT_SDP_OFFER
                     else TETHER_SIG_EVT_SDP_ANSWER,
             lookup_str fs ''peer_id'', Some (print_object fs))),
          (''ice'', (TETHER_SIG_EVT_ICE_CANDIDATE, lookup_str fs ''peer_id'', Some (print_object fs)))])"

text \<open>The dispatch refines a table from the \<open>type\<close> member to events: every well-formed text frame
  raises exactly the event of its type, with the peer id and payload of its members; a token message
  also stores the token; any other message, and any binary frame, does nothing.\<close>

theorem dispatch_refines_table:
  assumes "object_ok fs"
  shows "on_message sig (Some (print_object fs)) sz =
    (if 0 \<le> sz then (sig, [])
     else case wire_event fs of
       None \<Rightarrow> (sig, [])
     | Some (evt, pid, payload) \<Rightarrow>
         (if evt = TETHER_SIG_EVT_TOKEN_ISSUED then sig\<lparr>sig_token := payload\<rparr> else sig,
          if sc_cb (sig_cfg sig) then [Emit evt pid payload] else []))"
proof -
  note look = json_find_object [OF assms]
  show ?thesis
    by (cases "lookup_str fs ''type''")
       (simp_all add: on_message_def handle_message_def look wire_event_def Let_def emit_def)
qed

definition demo_sig :: tether_signaling where
  "demo_sig = \<lparr>sig_cfg = \<lparr>sc_server_url = Some ''wss://s'', sc_role = TETHER_ROLE_RECEIVER,
       sc_display_name = Some ''me'', sc_token = Some ''TTHR'', sc_token_ttl_minutes = 30,
       sc_reusable_token = False, sc_cb = True\<rparr>,
     sig_server_url = ''wss://s'', sig_display_name = ''me'', sig_token = Some ''TTHR'', sig_ws = -1,
     sig_state = TETHER_SIG_STATE_DISCONNECTED\<rparr>"

lemma dispatch_refines_table_witness:
  "on_message demo_sig (Some ''{\"type\":\"peer_gone\",\"peer_id\":\"p1\"}'') (- 37) =
    (demo_sig, [Emit TETHER_SIG_EVT_PEER_GONE (Some ''p1'') None])"
  using dispatch_refines_table [of "[(''type'', JStr ''peer_gone''), (''peer_id'', JStr ''p1'')]" demo_sig "- 37"]
  by (simp add: print_object_def print_field_def wire_event_def demo_sig_def)

text \<open>C31: the socket protocol: whatever calls and callbacks happen, in whatever order, the client opens
  a socket only when it has none, and writes to and closes only the one it has open, that is, the one it has opened and not
  closed itself (that the other side closed it is no reason to give up the handle, see \<open>reconnect_needs_disconnect\<close>); the
  handle it keeps is the open one. No socket leaks but the one still open at the end.\<close>

theorem socket_protocol:
  assumes "tether_signaling_create (Some cfg) = Some s0"
    and "fold sig_step ops (s0, []) = (s, log)"
  shows "socket_run None log = Some (if 0 < sig_ws s then Some (sig_ws s) else None)"
proof -
  have "socket_inv (s0, [])"
    using assms(1) by (auto simp: tether_signaling_create_def socket_inv_def open_handle_def split: option.splits)
  from sig_socket.run_inv [OF this, of ops] assms(2) show ?thesis
    by (simp add: socket_inv_def open_handle_def)
qed

lemma socket_protocol_witness:
  "\<exists>s log. fold sig_step [SigConnect 7, SigOpened, SigDisconnect] (demo_sig, []) = (s, log) \<and>
    socket_run None log = Some None"
proof -
  have start: "tether_signaling_create (Some (sig_cfg demo_sig)) = Some demo_sig"
    by (simp add: tether_signaling_create_def demo_sig_def)
  obtain s log where run: "fold sig_step [SigConnect 7, SigOpened, SigDisconnect] (demo_sig, []) = (s, log)"
    by fastforce
  then have "sig_ws s = -1"
    by (auto simp: demo_sig_def tether_signaling_connect_def set_state_def emit_def on_open_def
        tether_signaling_disconnect_def send_raw_def)
  with socket_protocol [OF start run] run show ?thesis by simp
qed

text \<open>A connection that drops stays dropped: after the socket closed or failed, the client still
  holds its handle, so \<open>tether_signaling_connect\<close> refuses to open a new one and messages still go to
  the dead socket, until \<open>tether_signaling_disconnect\<close> is called; then connecting works again.\<close>

theorem reconnect_needs_disconnect:
  assumes "0 < sig_ws s" and "gone \<in> {on_closed, on_error}"
  shows "tether_signaling_connect ws (Some (fst (gone s))) = (Some (fst (gone s)), False, []) \<and>
    send_raw (fst (gone s)) json = [WsSend (sig_ws s) json] \<and>
    (0 < ws \<longrightarrow>
      (case tether_signaling_connect ws (fst (tether_signaling_disconnect (Some (fst (gone s))))) of
         (r, ok, outs) \<Rightarrow> ok \<and> map_option sig_ws r = Some ws \<and>
           tether_signaling_get_state r = TETHER_SIG_STATE_CONNECTING))"
  using assms
  by (auto simp: on_closed_def on_error_def set_state_def tether_signaling_connect_def send_raw_def
      tether_signaling_disconnect_def tether_signaling_get_state_def)

lemma reconnect_needs_disconnect_witness:
  "tether_signaling_connect 8 (Some (fst (on_closed (demo_sig\<lparr>sig_ws := 7\<rparr>)))) =
    (Some (fst (on_closed (demo_sig\<lparr>sig_ws := 7\<rparr>))), False, [])"
  using reconnect_needs_disconnect [of "demo_sig\<lparr>sig_ws := 7\<rparr>" on_closed 8] by simp

text \<open>The hello: a receiver with token \<open>t\<close> and a display name without unescaped quotes connects to
  a URL that ends in its token, and the hello it sends on the new socket reads back its role, its name
  and its token.\<close>

theorem receiver_hello:
  assumes "sig_ws s \<le> 0" and "0 < ws" and "sc_role (sig_cfg s) = TETHER_ROLE_RECEIVER"
    and "sig_token s = Some t" and "t \<noteq> []" and "json_text t" and "json_text (sig_display_name s)"
    and "tether_signaling_connect ws (Some s) = (Some s1, ok, outs)" and "on_open s1 = (s2, outs2)"
  shows "ok \<and> (\<exists>q \<in> {''?token='', ''&token=''}. WsOpen (sig_server_url s @ q @ t) ws \<in> set outs) \<and>
    tether_signaling_get_state (Some s2) = TETHER_SIG_STATE_CONNECTED \<and>
    (\<exists>hello. WsSend ws hello \<in> set outs2 \<and> json_dup_str hello ''type'' = Some ''hello'' \<and>
      json_dup_str hello ''role'' = Some ''receiver'' \<and>
      json_dup_str hello ''name'' = Some (sig_display_name s) \<and>
      json_dup_str hello ''token'' = Some t)"
proof -
  have s1: "s1 = s\<lparr>sig_state := TETHER_SIG_STATE_CONNECTING, sig_ws := ws\<rparr>" "ok"
    "WsOpen (ws_url (s\<lparr>sig_state := TETHER_SIG_STATE_CONNECTING\<rparr>)) ws \<in> set outs"
    using assms(1,2,8) by (auto simp: tether_signaling_connect_def set_state_def)
  define s' where "s' = s1\<lparr>sig_state := TETHER_SIG_STATE_CONNECTED\<rparr>"
  have s2: "s2 = s'" "WsSend ws (hello_json s') \<in> set outs2"
    using assms(2,9) s1 by (auto simp: on_open_def set_state_def send_raw_def s'_def)
  have "object_ok (hello_object s')"
    using assms(4,6,7) s1 by (intro hello_object_ok) (simp_all add: s'_def)
  note look = json_find_object [OF this, folded hello_json_object]
  have "lookup_str (hello_object s') ''token'' = Some t" "lookup_str (hello_object s') ''type'' = Some ''hello''"
    "lookup_str (hello_object s') ''role'' = Some ''receiver''"
    "lookup_str (hello_object s') ''name'' = Some (sig_display_name s)"
    using assms(3,4) s1 by (simp_all add: hello_object_def s'_def)
  with s1 s2 look assms(3-5) show ?thesis
    by (auto simp: ws_url_def s'_def tether_signaling_get_state_def split: if_splits)
qed

lemma receiver_hello_witness:
  "\<exists>s1 ok outs s2 outs2. tether_signaling_connect 7 (Some demo_sig) = (Some s1, ok, outs) \<and>
    on_open s1 = (s2, outs2) \<and> tether_signaling_get_state (Some s2) = TETHER_SIG_STATE_CONNECTED"
proof -
  define s1 where "s1 = demo_sig\<lparr>sig_ws := 7, sig_state := TETHER_SIG_STATE_CONNECTING\<rparr>"
  have c: "tether_signaling_connect 7 (Some demo_sig) = (Some s1, True,
      [Emit TETHER_SIG_EVT_STATE_CHANGED None None, WsOpen ''wss://s?token=TTHR'' 7])"
    by (simp add: s1_def demo_sig_def tether_signaling_connect_def set_state_def emit_def ws_url_def)
  obtain s2 outs2 where o: "on_open s1 = (s2, outs2)" by fastforce
  from receiver_hello [OF _ _ _ _ _ _ _ c o, of "''TTHR''"] c o show ?thesis
    by (auto simp: demo_sig_def)
qed

text \<open>The display name goes into the hello unescaped: a name that closes its own quotes adds
  members to the object, and the first \<open>token\<close> in it, the one a reader that stops at the first match
  takes, is part of the name the user typed. (The server's \<open>JSON.parse\<close> keeps the last of two members of
  one name; the name can still override members the hello writes before it, such as the role.)\<close>

theorem hello_name_injection:
  assumes "sc_role (sig_cfg s) = TETHER_ROLE_RECEIVER" and "sig_token s = Some t" and "json_text t"
    and "sig_display_name s = u @ ''\",\"token\":\"'' @ v" and "json_text u" and "json_text v"
  shows "json_dup_str (hello_json s) ''token'' = Some v \<and> json_dup_str (hello_json s) ''name'' = Some u"
proof -
  define fs where "fs =
    [(''type'', JStr ''hello''), (''role'', JStr ''receiver''), (''name'', JStr u), (''token'', JStr v),
     (''token'', JStr t), (''ttl_minutes'', JRaw (show_int (sc_token_ttl_minutes (sig_cfg s)))),
     (''reusable'', JRaw (if sc_reusable_token (sig_cfg s) then ''true'' else ''false''))]"
  have "hello_json s = print_object fs"
    using assms(1,2,4) by (simp add: hello_json_def fs_def print_object_def print_field_def)
  moreover have "object_ok fs"
    using assms(3,5,6) show_int_raw by (auto simp: fs_def NUL_def)
  ultimately show ?thesis by (simp add: json_find_object fs_def del: object_ok_simps)
qed

lemma hello_name_injection_witness:
  "json_dup_str (hello_json (demo_sig\<lparr>sig_display_name := ''x\",\"token\":\"OTHER''\<rparr>)) ''token'' = Some ''OTHER''"
  using hello_name_injection [of "demo_sig\<lparr>sig_display_name := ''x\",\"token\":\"OTHER''\<rparr>" "''TTHR''" "''x''" "''OTHER''"]
  by (simp add: demo_sig_def)

end
