(* ===== verification/Webrtc.thy ===== *)
theory Webrtc
  imports Interfaces
begin

text \<open>
  \<open>src/webrtc.c\<close>: the wrapper around one peer connection of libdatachannel. Its tracks with their
  ids and m-line identifiers, its callbacks, and the configuration it hands over. What an \<open>rtc...\<close>
  call returns is an argument of the operation that makes it; the calls themselves, and the calls of
  the user's callbacks, are its outputs in program order.
\<close>

section \<open>Types\<close>

datatype tether_webrtc_state =
    TETHER_WRTC_STATE_NEW
  | TETHER_WRTC_STATE_CONNECTING
  | TETHER_WRTC_STATE_CONNECTED
  | TETHER_WRTC_STATE_FAILED
  | TETHER_WRTC_STATE_CLOSED

datatype tether_video_codec = TETHER_CODEC_H264 | TETHER_CODEC_VP9 | TETHER_CODEC_AV1

text \<open>The states of libdatachannel, the last one standing for values the code does not name.\<close>

datatype rtc_state =
    RTC_NEW | RTC_CONNECTING | RTC_CONNECTED | RTC_DISCONNECTED | RTC_FAILED | RTC_CLOSED | RTC_OTHER

datatype rtc_codec = RTC_CODEC_H264 | RTC_CODEC_VP9 | RTC_CODEC_AV1 | RTC_CODEC_OPUS

text \<open>The callbacks are represented by whether they are set.\<close>

record tether_webrtc_config =
  wc_stun_url :: "string option"
  wc_turn_url :: "string option"
  wc_turn_username :: "string option"
  wc_turn_credential :: "string option"
  wc_video_codec :: tether_video_codec
  wc_on_local_sdp :: bool
  wc_on_local_ice :: bool
  wc_on_state :: bool
  wc_on_video :: bool
  wc_on_audio :: bool

record track_entry =
  tr_handle :: int
  tr_track_id :: int
  tr_is_video :: bool
  tr_mid :: string

record tether_webrtc =
  wr_cfg :: tether_webrtc_config
  wr_pc :: int
  wr_state :: tether_webrtc_state
  wr_tracks :: "track_entry list"
  wr_next_track_id :: int
  wr_local_fingerprint :: string

record rtc_track_init =
  ti_codec :: rtc_codec
  ti_payload_type :: int
  ti_ssrc :: u32
  ti_mid :: string
  ti_track_name :: string

datatype wr_out =
    OnLocalSdp string string
  | OnLocalIce string string int
  | OnState tether_webrtc_state
  | OnVideo "u8 list" int "string option"
  | OnAudio "u8 list" int "string option"
  | RtcSetLocalDescription int
  | RtcSetRemoteDescription int string string
  | RtcAddRemoteCandidate int string "string option"
  | RtcAddTrack int rtc_track_init
  | RtcSendMessage int "u8 list" int
  | RtcDeleteTrack int
  | RtcDeletePeerConnection int

section \<open>The library's reference count\<close>

datatype rtc_global_out = RtcInitLogger | RtcCleanup

definition tether_webrtc_global_init :: "int \<Rightarrow> int \<times> bool \<times> rtc_global_out list" where
  "tether_webrtc_global_init g_init_count =
     (g_init_count + 1, True, if g_init_count + 1 = 1 then [RtcInitLogger] else [])"

definition tether_webrtc_global_shutdown :: "int \<Rightarrow> int \<times> rtc_global_out list" where
  "tether_webrtc_global_shutdown g_init_count =
     (g_init_count - 1, if g_init_count - 1 = 0 then [RtcCleanup] else [])"

section \<open>Callbacks from the library\<close>

fun map_rtc_state :: "rtc_state \<Rightarrow> tether_webrtc_state" where
  "map_rtc_state RTC_NEW = TETHER_WRTC_STATE_NEW"
| "map_rtc_state RTC_CONNECTING = TETHER_WRTC_STATE_CONNECTING"
| "map_rtc_state RTC_CONNECTED = TETHER_WRTC_STATE_CONNECTED"
| "map_rtc_state RTC_DISCONNECTED = TETHER_WRTC_STATE_FAILED"
| "map_rtc_state RTC_FAILED = TETHER_WRTC_STATE_FAILED"
| "map_rtc_state RTC_CLOSED = TETHER_WRTC_STATE_CLOSED"
| "map_rtc_state RTC_OTHER = TETHER_WRTC_STATE_NEW"

definition on_state_change :: "rtc_state \<Rightarrow> tether_webrtc \<Rightarrow> tether_webrtc \<times> wr_out list" where
  "on_state_change st w =
     (w\<lparr>wr_state := map_rtc_state st\<rparr>,
      if wc_on_state (wr_cfg w) then [OnState (map_rtc_state st)] else [])"

definition line_end :: "char \<Rightarrow> bool" where
  "line_end c \<longleftrightarrow> c = CHR 0x0D \<or> c = CHR 0x0A"

definition fingerprint_of_sdp :: "string \<Rightarrow> string option" where
  "fingerprint_of_sdp sdp =
     map_option (\<lambda>p. take (128 - 1) (takeWhile (\<lambda>c. \<not> line_end c) (drop (length ''a=fingerprint:'') p)))
       (strstr sdp ''a=fingerprint:'')"

definition on_local_description :: "string \<Rightarrow> string \<Rightarrow> tether_webrtc \<Rightarrow> tether_webrtc \<times> wr_out list" where
  "on_local_description sdp ty w =
     (let w' = (case fingerprint_of_sdp sdp of None \<Rightarrow> w | Some fp \<Rightarrow> w\<lparr>wr_local_fingerprint := fp\<rparr>)
      in (w', if wc_on_local_sdp (wr_cfg w) then [OnLocalSdp ty sdp] else []))"

definition on_local_candidate :: "string \<Rightarrow> string \<Rightarrow> tether_webrtc \<Rightarrow> wr_out list" where
  "on_local_candidate candidate mid w =
     (if wc_on_local_ice (wr_cfg w) then [OnLocalIce candidate mid 0] else [])"

definition parse_mid_from_desc :: "string option \<Rightarrow> nat \<Rightarrow> string" where
  "parse_mid_from_desc desc out_size =
     (case Option.bind desc (\<lambda>d. strstr d ''a=mid:'') of
        None \<Rightarrow> []
      | Some p \<Rightarrow> take (out_size - 1) (takeWhile (\<lambda>c. \<not> line_end c) (drop 6 p)))"

definition has_handle :: "int \<Rightarrow> track_entry \<Rightarrow> bool" where
  "has_handle tr e \<longleftrightarrow> tr_handle e = tr"

text \<open>A frame of \<open>sz\<close> bytes (negative for text); \<open>msg\<close> is what the pointer points to.\<close>

definition on_track_message :: "int \<Rightarrow> u8 list option \<Rightarrow> int \<Rightarrow> tether_webrtc \<Rightarrow> wr_out list" where
  "on_track_message tr msg sz w =
     (case msg of
        None \<Rightarrow> []
      | Some m \<Rightarrow>
          if sz = 0 then []
          else if sz < 0 then []
          else let hit = find (has_handle tr) (wr_tracks w);
                   is_video = (case hit of None \<Rightarrow> False | Some e \<Rightarrow> tr_is_video e);
                   mid = map_option tr_mid hit
               in if is_video
                  then (if wc_on_video (wr_cfg w) then [OnVideo (take (nat sz) m) tr mid] else [])
                  else (if wc_on_audio (wr_cfg w) then [OnAudio (take (nat sz) m) tr mid] else []))"

text \<open>\<open>n\<close> is what \<open>rtcGetTrackDescription\<close> returns, \<open>desc\<close> what it wrote to the buffer.\<close>

definition on_track :: "int \<Rightarrow> int \<Rightarrow> string \<Rightarrow> tether_webrtc \<Rightarrow> tether_webrtc" where
  "on_track tr n desc w =
     w\<lparr>wr_next_track_id := wr_next_track_id w + 1,
       wr_tracks := wr_tracks w @
         [\<lparr>tr_handle = tr, tr_track_id = wr_next_track_id w,
           tr_is_video = (0 < n \<and> strstr desc ''m=video'' \<noteq> None),
           tr_mid = (if 0 < n then parse_mid_from_desc (Some desc) 64 else [])\<rparr>]\<rparr>"

section \<open>Creation\<close>

record rtc_configuration =
  pc_ice_servers :: "string list"
  pc_bind_address :: "string option"

text \<open>The environment variables the code reads.\<close>

record wr_env =
  TETHER_NO_STUN :: "string option"
  TETHER_BIND_LOOPBACK :: "string option"
  TETHER_BIND_IP :: "string option"

definition opt_str :: "string option \<Rightarrow> string" where
  "opt_str s = (case s of None \<Rightarrow> [] | Some t \<Rightarrow> t)"

text \<open>\<open>snprintf\<close> into \<open>turn_buf[512]\<close>.\<close>

definition turn_server :: "tether_webrtc_config \<Rightarrow> string \<Rightarrow> string" where
  "turn_server cfg url =
     take (512 - 1) (''turn:'' @ opt_str (wc_turn_username cfg) @ '':'' @ opt_str (wc_turn_credential cfg) @
       ''@'' @ drop (if starts_with ''turn:'' url then 5 else 0) url)"

definition ice_servers :: "wr_env \<Rightarrow> tether_webrtc_config \<Rightarrow> string list" where
  "ice_servers env cfg =
     (if nonempty_str (wc_stun_url cfg) \<and> TETHER_NO_STUN env \<noteq> Some ''1''
      then [the (wc_stun_url cfg)] else []) @
     (if nonempty_str (wc_turn_url cfg) then [turn_server cfg (the (wc_turn_url cfg))] else [])"

definition bind_addr :: "wr_env \<Rightarrow> string option" where
  "bind_addr env =
     (if TETHER_BIND_LOOPBACK env = Some ''1'' then Some ''127.0.0.1''
      else if nonempty_str (TETHER_BIND_IP env) then TETHER_BIND_IP env
      else None)"

text \<open>The configuration passed to \<open>rtcCreatePeerConnection\<close>, and the object; \<open>pc\<close> is its result.\<close>

definition tether_webrtc_create ::
  "wr_env \<Rightarrow> int \<Rightarrow> tether_webrtc_config option \<Rightarrow> tether_webrtc option \<times> rtc_configuration option" where
  "tether_webrtc_create env pc cfg =
     (case cfg of
        None \<Rightarrow> (None, None)
      | Some c \<Rightarrow>
          (if pc \<le> 0 then None
           else Some \<lparr>wr_cfg = c, wr_pc = pc, wr_state = TETHER_WRTC_STATE_NEW, wr_tracks = [],
                  wr_next_track_id = 1, wr_local_fingerprint = []\<rparr>,
           Some \<lparr>pc_ice_servers = ice_servers env c, pc_bind_address = bind_addr env\<rparr>))"

definition tether_webrtc_release :: "tether_webrtc option \<Rightarrow> tether_webrtc option \<times> wr_out list" where
  "tether_webrtc_release w =
     (case w of
        None \<Rightarrow> (None, [])
      | Some v \<Rightarrow> (None, map (\<lambda>e. RtcDeleteTrack (tr_handle e)) (wr_tracks v) @
                    [RtcDeletePeerConnection (wr_pc v)]))"

section \<open>Negotiation\<close>

definition tether_webrtc_negotiate :: "int \<Rightarrow> tether_webrtc option \<Rightarrow> bool \<times> wr_out list" where
  "tether_webrtc_negotiate rc w =
     (case w of
        None \<Rightarrow> (False, [])
      | Some v \<Rightarrow> (\<not> rc < 0, [RtcSetLocalDescription (wr_pc v)]))"

definition tether_webrtc_apply_remote_sdp ::
  "int \<Rightarrow> int \<Rightarrow> tether_webrtc option \<Rightarrow> string option \<Rightarrow> string option \<Rightarrow> bool \<times> wr_out list" where
  "tether_webrtc_apply_remote_sdp rc rc2 w sdp_type sdp =
     (case (w, sdp_type, sdp) of
        (Some v, Some ty, Some d) \<Rightarrow>
          (let remote = RtcSetRemoteDescription (wr_pc v) d ty in
           if rc < 0 then (False, [remote])
           else if ty = ''offer''
           then (\<not> rc2 < 0, [remote, RtcSetLocalDescription (wr_pc v)])
           else (True, [remote]))
      | _ \<Rightarrow> (False, []))"

definition tether_webrtc_add_remote_ice ::
  "int \<Rightarrow> tether_webrtc option \<Rightarrow> string option \<Rightarrow> string option \<Rightarrow> bool \<times> wr_out list" where
  "tether_webrtc_add_remote_ice rc w candidate mid =
     (case (w, candidate) of
        (Some v, Some c) \<Rightarrow> (\<not> rc < 0, [RtcAddRemoteCandidate (wr_pc v) c mid])
      | _ \<Rightarrow> (False, []))"

section \<open>Tracks\<close>

fun payload_type_for :: "tether_video_codec \<Rightarrow> int" where
  "payload_type_for TETHER_CODEC_H264 = 96"
| "payload_type_for TETHER_CODEC_VP9 = 98"
| "payload_type_for TETHER_CODEC_AV1 = 100"

fun codec_name :: "tether_video_codec \<Rightarrow> string" where
  "codec_name TETHER_CODEC_H264 = ''h264''"
| "codec_name TETHER_CODEC_VP9 = ''vp9''"
| "codec_name TETHER_CODEC_AV1 = ''av1''"

fun rtc_codec_of :: "tether_video_codec \<Rightarrow> rtc_codec" where
  "rtc_codec_of TETHER_CODEC_H264 = RTC_CODEC_H264"
| "rtc_codec_of TETHER_CODEC_VP9 = RTC_CODEC_VP9"
| "rtc_codec_of TETHER_CODEC_AV1 = RTC_CODEC_AV1"

text \<open>Append the entry of a track libdatachannel created, and return its id.\<close>

definition push_track :: "int \<Rightarrow> bool \<Rightarrow> string \<Rightarrow> tether_webrtc \<Rightarrow> tether_webrtc \<times> int" where
  "push_track tr is_video mid w =
     (w\<lparr>wr_next_track_id := wr_next_track_id w + 1,
        wr_tracks := wr_tracks w @
          [\<lparr>tr_handle = tr, tr_track_id = wr_next_track_id w, tr_is_video = is_video,
            tr_mid = strncpy_buf 64 mid\<rparr>]\<rparr>,
      wr_next_track_id w)"

text \<open>\<open>tr\<close> is what \<open>rtcAddTrackEx\<close> returns, \<open>ssrc\<close> the random number drawn.\<close>

definition tether_webrtc_add_video_track_ex ::
  "int \<Rightarrow> u32 \<Rightarrow> tether_webrtc option \<Rightarrow> string option \<Rightarrow> string option \<Rightarrow>
   tether_webrtc option \<times> int \<times> wr_out list" where
  "tether_webrtc_add_video_track_ex tr ssrc w mid label =
     (case w of
        None \<Rightarrow> (None, -1, [])
      | Some v \<Rightarrow>
          (let m = (if nonempty_str mid then the mid
                    else take (64 - 1) (''video'' @ show_nat (length (wr_tracks v))));
               track_label = (if nonempty_str label then the label else ''tether-video'');
               add = RtcAddTrack (wr_pc v) \<lparr>ti_codec = rtc_codec_of (wc_video_codec (wr_cfg v)),
                 ti_payload_type = payload_type_for (wc_video_codec (wr_cfg v)), ti_ssrc = ssrc,
                 ti_mid = m, ti_track_name = track_label\<rparr>
           in if tr \<le> 0 then (Some v, -1, [add])
              else case push_track tr True m v of (v', tid) \<Rightarrow> (Some v', tid, [add])))"

definition tether_webrtc_add_video_track ::
  "int \<Rightarrow> u32 \<Rightarrow> tether_webrtc option \<Rightarrow> tether_webrtc option \<times> int \<times> wr_out list" where
  "tether_webrtc_add_video_track tr ssrc w =
     tether_webrtc_add_video_track_ex tr ssrc w (Some ''video'') (Some ''tether-video'')"

definition tether_webrtc_add_audio_track ::
  "int \<Rightarrow> u32 \<Rightarrow> tether_webrtc option \<Rightarrow> string option \<Rightarrow> tether_webrtc option \<times> int \<times> wr_out list" where
  "tether_webrtc_add_audio_track tr ssrc w label =
     (case w of
        None \<Rightarrow> (None, -1, [])
      | Some v \<Rightarrow>
          (let m = take (64 - 1) (''audio'' @ show_int (wr_next_track_id v));
               add = RtcAddTrack (wr_pc v) \<lparr>ti_codec = RTC_CODEC_OPUS, ti_payload_type = 111,
                 ti_ssrc = ssrc, ti_mid = m,
                 ti_track_name = (case label of None \<Rightarrow> ''tether-audio'' | Some l \<Rightarrow> l)\<rparr>
           in if tr \<le> 0 then (Some v, -1, [add])
              else case push_track tr False m v of (v', tid) \<Rightarrow> (Some v', tid, [add])))"

definition has_track_id :: "int \<Rightarrow> track_entry \<Rightarrow> bool" where
  "has_track_id tid e \<longleftrightarrow> tr_track_id e = tid"

definition track_handle_for :: "tether_webrtc \<Rightarrow> int \<Rightarrow> int" where
  "track_handle_for w tid =
     (case find (has_track_id tid) (wr_tracks w) of None \<Rightarrow> -1 | Some e \<Rightarrow> tr_handle e)"

section \<open>Media out\<close>

text \<open>\<open>dat\<close> has \<open>size\<close> bytes; \<open>rc\<close> is what \<open>rtcSendMessage\<close> returns.\<close>

definition tether_webrtc_push_video ::
  "int \<Rightarrow> tether_webrtc option \<Rightarrow> int \<Rightarrow> u8 list option \<Rightarrow> bool \<times> wr_out list" where
  "tether_webrtc_push_video rc w tid dat =
     (case (w, dat) of
        (Some v, Some d) \<Rightarrow>
          (let handle = track_handle_for v tid in
           if d = [] then (False, [])
           else if handle < 0 then (False, [])
           else (0 \<le> rc, [RtcSendMessage handle d (sint (word_of_nat (length d) :: u32))]))
      | _ \<Rightarrow> (False, []))"

definition tether_webrtc_push_audio ::
  "int \<Rightarrow> tether_webrtc option \<Rightarrow> int \<Rightarrow> u8 list option \<Rightarrow> bool \<times> wr_out list" where
  "tether_webrtc_push_audio rc w tid dat =
     (case (w, dat) of
        (Some v, Some d) \<Rightarrow>
          (let handle = track_handle_for v tid in
           if d = [] then (False, [])
           else if handle < 0 then (False, [])
           else (0 \<le> rc, [RtcSendMessage handle d (sint (word_of_nat (length d) :: u32))]))
      | _ \<Rightarrow> (False, []))"

section \<open>Queries\<close>

text \<open>The text written to \<open>out\<close> (\<^const>\<open>None\<close>: \<open>return false\<close>); the buffer is never NULL.\<close>

definition tether_webrtc_local_fingerprint :: "tether_webrtc option \<Rightarrow> nat \<Rightarrow> string option" where
  "tether_webrtc_local_fingerprint w out_size =
     (case w of
        None \<Rightarrow> None
      | Some v \<Rightarrow>
          if out_size = 0 then None
          else if wr_local_fingerprint v = [] then None
          else Some (take (out_size - 1) (wr_local_fingerprint v)))"

definition tether_webrtc_get_state :: "tether_webrtc option \<Rightarrow> tether_webrtc_state" where
  "tether_webrtc_get_state w =
     (case w of None \<Rightarrow> TETHER_WRTC_STATE_CLOSED | Some v \<Rightarrow> wr_state v)"

section \<open>All callbacks of the library\<close>

datatype rtc_callback =
    RtcState rtc_state
  | RtcLocalDescription string string
  | RtcLocalCandidate string string
  | RtcTrack int int string
  | RtcFrame int "u8 list option" int

fun wr_callback :: "rtc_callback \<Rightarrow> tether_webrtc \<Rightarrow> tether_webrtc \<times> wr_out list" where
  "wr_callback (RtcState st) w = on_state_change st w"
| "wr_callback (RtcLocalDescription sdp ty) w = on_local_description sdp ty w"
| "wr_callback (RtcLocalCandidate c mid) w = (w, on_local_candidate c mid w)"
| "wr_callback (RtcTrack tr n desc) w = (on_track tr n desc w, [])"
| "wr_callback (RtcFrame tr msg sz) w = (w, on_track_message tr msg sz w)"

section \<open>The connection as a machine\<close>

datatype wr_op =
    WrState rtc_state
  | WrLocalDescription string string
  | WrTrack int int string
  | WrAddVideo int u32 "string option" "string option"
  | WrAddAudio int u32 "string option"

fun wr_step :: "wr_op \<Rightarrow> tether_webrtc \<Rightarrow> tether_webrtc" where
  "wr_step (WrState st) w = fst (on_state_change st w)"
| "wr_step (WrLocalDescription sdp ty) w = fst (on_local_description sdp ty w)"
| "wr_step (WrTrack tr n desc) w = on_track tr n desc w"
| "wr_step (WrAddVideo tr ssrc mid label) w =
     the (fst (tether_webrtc_add_video_track_ex tr ssrc (Some w) mid label))"
| "wr_step (WrAddAudio tr ssrc label) w = the (fst (tether_webrtc_add_audio_track tr ssrc (Some w) label))"

text \<open>Tracks are numbered from 1 in the order of the list.\<close>

definition numbered :: "tether_webrtc \<Rightarrow> bool" where
  "numbered w \<longleftrightarrow> map tr_track_id (wr_tracks w) = map int [1..<Suc (length (wr_tracks w))] \<and>
     wr_next_track_id w = int (length (wr_tracks w)) + 1"

lemma numbered_push:
  assumes "numbered w" and "wr_tracks w' = wr_tracks w @ [e]" and "tr_track_id e = wr_next_track_id w"
    and "wr_next_track_id w' = wr_next_track_id w + 1"
  shows "numbered w'"
  using assms by (simp add: numbered_def)

text \<open>One step leaves the tracks alone or appends one.\<close>

lemma wr_step_cases:
  obtains (same) "wr_tracks (wr_step op w) = wr_tracks w" "wr_next_track_id (wr_step op w) = wr_next_track_id w"
  | (push) e where "wr_tracks (wr_step op w) = wr_tracks w @ [e]" "tr_track_id e = wr_next_track_id w"
      "wr_next_track_id (wr_step op w) = wr_next_track_id w + 1"
proof -
  have "wr_tracks (wr_step op w) = wr_tracks w \<and> wr_next_track_id (wr_step op w) = wr_next_track_id w \<or>
    (\<exists>e. wr_tracks (wr_step op w) = wr_tracks w @ [e] \<and> tr_track_id e = wr_next_track_id w \<and>
      wr_next_track_id (wr_step op w) = wr_next_track_id w + 1)"
    by (cases op)
       (auto simp: on_state_change_def on_local_description_def on_track_def tether_webrtc_add_video_track_ex_def
         tether_webrtc_add_audio_track_def push_track_def Let_def split: option.splits)
  with same push show ?thesis by blast
qed

interpretation wr: growing_machine wr_step numbered "\<lambda>w :: tether_webrtc. length (wr_tracks w)"
proof unfold_locales
  fix w op
  assume "numbered w"
  then show "numbered (wr_step op w)"
    by (cases rule: wr_step_cases [of op w]) (auto simp: numbered_def intro: numbered_push)
next
  fix w :: tether_webrtc and op
  show "length (wr_tracks w) \<le> length (wr_tracks (wr_step op w))"
    by (cases rule: wr_step_cases [of op w]) simp_all
qed

lemma wr_run_append: "\<exists>ts. wr_tracks (fold wr_step ops w) = wr_tracks w @ ts"
proof (induction ops arbitrary: w)
  case (Cons op ops)
  obtain ts where ts: "wr_tracks (fold wr_step ops (wr_step op w)) = wr_tracks (wr_step op w) @ ts"
    using Cons by blast
  show ?case by (cases rule: wr_step_cases [of op w]) (use ts in auto)
qed simp

lemma find_numbered:
  assumes "map tr_track_id xs = map int [1..<Suc (length xs)]"
  shows "find (has_track_id tid) xs = (if 1 \<le> tid \<and> tid \<le> int (length xs) then Some (xs ! nat (tid - 1)) else None)"
proof -
  have ids: "tr_track_id (xs ! i) = int i + 1" if "i < length xs" for i
  proof -
    have "tr_track_id (xs ! i) = map tr_track_id xs ! i" using that by simp
    also have "\<dots> = int i + 1" unfolding assms using that by (simp del: upt_Suc)
    finally show ?thesis .
  qed
  show ?thesis
  proof (cases "1 \<le> tid \<and> tid \<le> int (length xs)")
    case True
    then have i: "nat (tid - 1) < length xs" by linarith
    with True ids have "has_track_id tid (xs ! nat (tid - 1))" by (simp add: has_track_id_def)
    moreover have "\<not> has_track_id tid (xs ! j)" if "j < nat (tid - 1)" for j
      using that i ids [of j] by (simp add: has_track_id_def)
    ultimately have "find (has_track_id tid) xs = Some (xs ! nat (tid - 1))"
      using i unfolding find_Some_iff by blast
    with True show ?thesis by simp
  next
    case False
    have "\<not> has_track_id tid e" if "e \<in> set xs" for e
      using that False ids unfolding in_set_conv_nth has_track_id_def by fastforce
    with False show ?thesis by (auto simp: find_None_iff)
  qed
qed

lemma created_numbered: "tether_webrtc_create env pc cfg = (Some w, c) \<Longrightarrow> numbered w \<and> wr_tracks w = [] \<and> 0 < wr_pc w"
  by (auto simp: tether_webrtc_create_def numbered_def split: option.splits if_splits)

section \<open>Names of the audio tracks\<close>

definition audio_named :: "track_entry \<Rightarrow> bool" where
  "audio_named e \<longleftrightarrow> tr_is_video e \<or> tr_mid e = strncpy_buf 64 (take (64 - 1) (''audio'' @ show_int (tr_track_id e)))"

definition remote_track :: "wr_op \<Rightarrow> bool" where
  "remote_track op \<longleftrightarrow> (\<exists>tr n desc. op = WrTrack tr n desc)"

interpretation wr_audio: guarded_machine wr_step "\<lambda>op. \<not> remote_track op"
  "\<lambda>w. \<forall>e \<in> set (wr_tracks w). audio_named e"
proof
  fix op and w :: tether_webrtc
  assume "\<not> remote_track op" and inv: "\<forall>e \<in> set (wr_tracks w). audio_named e"
  then show "\<forall>e \<in> set (wr_tracks (wr_step op w)). audio_named e"
    by (cases op)
       (auto simp: remote_track_def on_state_change_def on_local_description_def audio_named_def
         tether_webrtc_add_video_track_ex_def tether_webrtc_add_audio_track_def push_track_def Let_def
         split: option.splits)
qed

lemma length_show_nat: "n < 10 ^ Suc k \<Longrightarrow> length (show_nat n) \<le> Suc k"
proof (induction k arbitrary: n)
  case 0
  then show ?case by (subst show_nat.simps) simp
next
  case (Suc k)
  then have "n div 10 < 10 ^ Suc k" by (simp add: less_mult_imp_div_less)
  with Suc.IH have "length (show_nat (n div 10)) \<le> Suc k" by blast
  then show ?case by (subst show_nat.simps) simp
qed

lemma audio_mid_short:
  assumes "0 \<le> i" and "i < 10 ^ 50"
  shows "strncpy_buf 64 (take (64 - 1) (''audio'' @ show_int i)) = ''audio'' @ show_nat (nat i)"
proof -
  have "nat i < 10 ^ Suc 49" using assms by (simp add: nat_less_iff)
  then have "length (show_nat (nat i)) \<le> Suc 49" by (rule length_show_nat)
  with assms(1) show ?thesis by (simp add: strncpy_buf_def show_int_def)
qed

section \<open>Properties\<close>

text \<open>Track ids are stable addresses: in any run from the creation of the connection, a local track
  gets an id that addressed nothing before; from then on, whatever callbacks and tracks follow, media
  pushed under that id goes to exactly the handle libdatachannel gave that track, and media pushed
  under an id that was never given out goes nowhere.\<close>

theorem track_ids_stable:
  assumes "tether_webrtc_create env pc cfg = (Some w0, c)" and "w = fold wr_step ops w0"
    and "(Some v, tid, outs) \<in> {tether_webrtc_add_video_track_ex tr ssrc (Some w) mid label,
      tether_webrtc_add_audio_track tr ssrc (Some w) label}" and "0 < tr"
    and "u = fold wr_step ops' v" and "dat \<noteq> []"
  shows "track_handle_for w tid = -1 \<and>
    tether_webrtc_push_video rc (Some u) tid (Some dat) =
      (0 \<le> rc, [RtcSendMessage tr dat (sint (word_of_nat (length dat) :: u32))]) \<and>
    tether_webrtc_push_audio rc (Some u) tid (Some dat) =
      (0 \<le> rc, [RtcSendMessage tr dat (sint (word_of_nat (length dat) :: u32))]) \<and>
    (tid' < 1 \<or> int (length (wr_tracks u)) < tid' \<longrightarrow> tether_webrtc_push_video rc (Some u) tid' (Some dat) = (False, []))"
proof -
  have num: "numbered w" using wr.run_inv created_numbered [OF assms(1)] assms(2) by blast
  obtain e where e: "wr_tracks v = wr_tracks w @ [e]" "tr_handle e = tr"
      "tr_track_id e = wr_next_track_id w" "wr_next_track_id v = wr_next_track_id w + 1"
    and "tid = wr_next_track_id w"
    using assms(3,4)
    by (auto simp: tether_webrtc_add_video_track_ex_def tether_webrtc_add_audio_track_def push_track_def Let_def)
  then have tid: "tid = int (length (wr_tracks w)) + 1" using num by (simp add: numbered_def)
  have "numbered v" by (rule numbered_push [OF num e(1,3,4)])
  then have numu: "numbered u" unfolding assms(5) by (rule wr.run_inv)
  obtain ts where u: "wr_tracks u = wr_tracks w @ e # ts"
    using wr_run_append [of ops' v] e assms(5) by auto
  have "track_handle_for w tid = -1"
    using num tid by (simp add: track_handle_for_def numbered_def find_numbered)
  moreover have find_u: "find (has_track_id i) (wr_tracks u) =
      (if 1 \<le> i \<and> i \<le> int (length (wr_tracks u)) then Some (wr_tracks u ! nat (i - 1)) else None)" for i
    using numu by (intro find_numbered) (simp add: numbered_def)
  have "track_handle_for u tid = tr"
    using find_u [of tid] tid e u by (simp add: track_handle_for_def nth_append)
  moreover have "track_handle_for u tid' = -1" if "tid' < 1 \<or> int (length (wr_tracks u)) < tid'"
    using find_u [of tid'] that by (auto simp: track_handle_for_def)
  ultimately show ?thesis using assms(4,6)
    by (auto simp: tether_webrtc_push_video_def tether_webrtc_push_audio_def Let_def)
qed

definition demo_wr_cfg :: tether_webrtc_config where
  "demo_wr_cfg = \<lparr>wc_stun_url = Some ''stun:s'', wc_turn_url = None, wc_turn_username = None,
     wc_turn_credential = None, wc_video_codec = TETHER_CODEC_H264, wc_on_local_sdp = True,
     wc_on_local_ice = True, wc_on_state = True, wc_on_video = True, wc_on_audio = True\<rparr>"

definition demo_env :: wr_env where
  "demo_env = \<lparr>TETHER_NO_STUN = None, TETHER_BIND_LOOPBACK = None, TETHER_BIND_IP = None\<rparr>"

definition demo_wr :: tether_webrtc where
  "demo_wr = \<lparr>wr_cfg = demo_wr_cfg, wr_pc = 1, wr_state = TETHER_WRTC_STATE_NEW, wr_tracks = [],
     wr_next_track_id = 1, wr_local_fingerprint = []\<rparr>"

lemma demo_wr_created: "tether_webrtc_create demo_env 1 (Some demo_wr_cfg) =
    (Some demo_wr, Some \<lparr>pc_ice_servers = [''stun:s''], pc_bind_address = None\<rparr>)"
  by (simp add: tether_webrtc_create_def demo_wr_def demo_env_def ice_servers_def bind_addr_def demo_wr_cfg_def)

lemma track_ids_stable_witness:
  "\<exists>v outs. tether_webrtc_add_video_track_ex 40 0 (Some demo_wr) (Some ''video0'') None = (Some v, 1, outs) \<and>
    tether_webrtc_push_video 0 (Some (wr_step (WrAddAudio 41 0 None) v)) 1 (Some [7]) = (True, [RtcSendMessage 40 [7] 1])"
proof -
  obtain v outs where v: "tether_webrtc_add_video_track_ex 40 0 (Some demo_wr) (Some ''video0'') None = (Some v, 1, outs)"
    by (simp add: tether_webrtc_add_video_track_ex_def push_track_def demo_wr_def Let_def)
  have "(Some v, 1, outs) \<in> {tether_webrtc_add_video_track_ex 40 0 (Some demo_wr) (Some ''video0'') None,
      tether_webrtc_add_audio_track 40 0 (Some demo_wr) None}" using v by simp
  from track_ids_stable [OF demo_wr_created _ this, of "[]" "wr_step (WrAddAudio 41 0 None) v" "[WrAddAudio 41 0 None]" "[7]" 0] v
  show ?thesis by simp
qed

text \<open>Audio m-lines have distinct identifiers: in any run of local tracks and callbacks (fewer than
  10 to the power 50 of them), the audio tracks are named \<open>audio\<close> and their id, so no two share a mid.\<close>

theorem audio_mids_distinct:
  assumes "tether_webrtc_create env pc cfg = (Some w0, c)" and "list_all (\<lambda>op. \<not> remote_track op) ops"
    and "w = fold wr_step ops w0" and "length (wr_tracks w) < 10 ^ 49"
  shows "distinct (map tr_mid (filter (\<lambda>e. \<not> tr_is_video e) (wr_tracks w))) \<and>
    (\<forall>e \<in> set (wr_tracks w). \<not> tr_is_video e \<longrightarrow> tr_mid e = ''audio'' @ show_nat (nat (tr_track_id e)))"
proof -
  note start = created_numbered [OF assms(1)]
  have num: "map tr_track_id (wr_tracks w) = map int [1..<Suc (length (wr_tracks w))]"
    using wr.run_inv [of w0 ops] start assms(3) by (simp add: numbered_def)
  have named: "\<forall>e \<in> set (wr_tracks w). audio_named e"
    unfolding assms(3) by (rule wr_audio.guarded_run_inv) (use assms(2) start in \<open>simp_all add: list_all_iff\<close>)
  have mid: "tr_mid e = ''audio'' @ show_nat (nat (tr_track_id e)) \<and> 0 \<le> tr_track_id e"
    if "e \<in> set (wr_tracks w)" "\<not> tr_is_video e" for e
  proof -
    have "tr_track_id e \<in> set (map tr_track_id (wr_tracks w))" using that by simp
    then have "1 \<le> tr_track_id e \<and> tr_track_id e \<le> int (length (wr_tracks w))" unfolding num by auto
    moreover from this assms(4) have "tr_track_id e < 10 ^ 50" by simp
    ultimately show ?thesis using named that audio_mid_short [of "tr_track_id e"]
      unfolding audio_named_def by auto
  qed
  have "distinct (map tr_track_id (wr_tracks w))" unfolding num by (simp add: distinct_map del: upt_Suc)
  then have "inj_on tr_track_id (set (wr_tracks w))" "distinct (wr_tracks w)" by (simp_all add: distinct_map)
  moreover have "tr_track_id x = tr_track_id y"
    if "x \<in> set (wr_tracks w)" "y \<in> set (wr_tracks w)" "\<not> tr_is_video x" "\<not> tr_is_video y" "tr_mid x = tr_mid y" for x y
  proof -
    have "nat (tr_track_id x) = nat (tr_track_id y)"
      using mid [OF that(1,3)] mid [OF that(2,4)] that(5) by simp
    with mid [OF that(1,3)] mid [OF that(2,4)] show ?thesis by linarith
  qed
  ultimately have "distinct (map tr_mid (filter (\<lambda>e. \<not> tr_is_video e) (wr_tracks w)))"
    unfolding distinct_map by (auto simp: inj_on_def)
  with mid show ?thesis by blast
qed

lemma audio_mids_distinct_witness:
  "distinct (map tr_mid (filter (\<lambda>e. \<not> tr_is_video e)
    (wr_tracks (fold wr_step [WrAddVideo 40 0 None None, WrAddAudio 41 0 None, WrAddAudio 42 0 None] demo_wr))))"
  using audio_mids_distinct [OF demo_wr_created, of "[WrAddVideo 40 0 None None, WrAddAudio 41 0 None, WrAddAudio 42 0 None]", OF _ refl]
  by (simp add: remote_track_def tether_webrtc_add_video_track_ex_def tether_webrtc_add_audio_track_def
      push_track_def demo_wr_def Let_def)

section \<open>Fingerprints, servers and incoming frames\<close>

lemma takeWhile_line: "\<forall>c \<in> set f. \<not> line_end c \<Longrightarrow> line_end d \<Longrightarrow> takeWhile (\<lambda>c. \<not> line_end c) (f @ d # r) = f"
  by (induction f) auto

lemma strstr_first:
  "\<lbrakk>\<forall>i < length pre. \<not> starts_with needle (drop i (pre @ s)); starts_with needle s\<rbrakk> \<Longrightarrow> strstr (pre @ s) needle = Some s"
proof (induction pre)
  case Nil
  then show ?case by (simp add: strstr_here)
next
  case (Cons c pre)
  have "\<not> starts_with needle (c # pre @ s)" using Cons.prems(1) by (metis append_Cons drop0 length_Cons zero_less_Suc)
  moreover have "\<forall>i < length pre. \<not> starts_with needle (drop i (pre @ s))"
    using Cons.prems(1) by (metis append_Cons drop_Suc_Cons length_Cons not_less_eq)
  ultimately show ?case using Cons by simp
qed

text \<open>The fingerprint is read from the local description: when the SDP's first fingerprint line is
  \<open>a=fingerprint:F\<close> with \<open>F\<close> shorter than the buffer, then whatever follows, the object reports
  exactly \<open>F\<close> to a caller with enough room and its prefix to one without, until the next local
  description; the stored text always fits its buffer.\<close>

theorem local_fingerprint_read:
  assumes "\<forall>i < length pre. \<not> starts_with ''a=fingerprint:'' (drop i (pre @ ''a=fingerprint:'' @ f @ d # r))"
    and "\<forall>c \<in> set f. \<not> line_end c" and "line_end d" and "f \<noteq> []" and "length f < 128" and "0 < n"
    and "w' = fst (on_local_description (pre @ ''a=fingerprint:'' @ f @ d # r) ty w)"
  shows "tether_webrtc_local_fingerprint (Some w') n = Some (take (n - 1) f) \<and>
    length (wr_local_fingerprint (fst (on_local_description sdp ty' w'))) < 128"
proof -
  have "fingerprint_of_sdp (pre @ ''a=fingerprint:'' @ f @ d # r) = Some f"
    unfolding fingerprint_of_sdp_def using assms(5) takeWhile_line [OF assms(2,3)]
    by (subst strstr_first [OF assms(1)]) simp_all
  then have w': "wr_local_fingerprint w' = f" using assms(7) by (simp add: on_local_description_def Let_def)
  moreover have "length (wr_local_fingerprint (fst (on_local_description sdp ty' w'))) < 128"
    using w' assms(5) by (auto simp: on_local_description_def Let_def fingerprint_of_sdp_def split: option.splits)
  ultimately show ?thesis using assms(4,6) by (simp add: tether_webrtc_local_fingerprint_def)
qed

lemma local_fingerprint_read_witness:
  "tether_webrtc_local_fingerprint
    (Some (fst (on_local_description (''v=0'' @ ''a=fingerprint:'' @ ''sha-256 AA'' @ CHR 0x0D # []) ''offer'' demo_wr))) 128 =
    Some ''sha-256 AA''"
proof -
  have "\<forall>i < length ''v=0''. \<not> starts_with ''a=fingerprint:''
      (drop i (''v=0'' @ ''a=fingerprint:'' @ ''sha-256 AA'' @ CHR 0x0D # []))"
    by (simp add: numeral_eq_Suc less_Suc_eq)
  from local_fingerprint_read [OF this _ _ _ _ _ refl, of 128 "''offer''" demo_wr] show ?thesis
    by (simp add: line_end_def)
qed

text \<open>The ICE servers: at most two are configured, the STUN URL (unless \<open>TETHER_NO_STUN\<close> is 1) and
  then the TURN server with its credentials; the URL may be given with or without its \<open>turn:\<close> scheme,
  to the same effect; and the text libdatachannel gets fits the buffer, and is complete when user,
  credential and host together leave it room.\<close>

theorem ice_servers_configured:
  assumes "tether_webrtc_create env pc (Some cfg) = (r, Some conf)" and "wc_turn_url cfg = Some url"
    and "url \<noteq> []" and "\<not> starts_with ''turn:'' url"
    and "length (opt_str (wc_turn_username cfg)) + length (opt_str (wc_turn_credential cfg)) + length url \<le> 504"
  shows "pc_ice_servers conf =
      (if nonempty_str (wc_stun_url cfg) \<and> TETHER_NO_STUN env \<noteq> Some ''1'' then [the (wc_stun_url cfg)] else []) @
      [''turn:'' @ opt_str (wc_turn_username cfg) @ '':'' @ opt_str (wc_turn_credential cfg) @ ''@'' @ url] \<and>
    ice_servers env (cfg\<lparr>wc_turn_url := Some (''turn:'' @ url)\<rparr>) = pc_ice_servers conf \<and>
    length (turn_server cfg other) < 512"
proof -
  have "pc_ice_servers conf = ice_servers env cfg" using assms(1) by (auto simp: tether_webrtc_create_def)
  moreover have "turn_server cfg url =
      ''turn:'' @ opt_str (wc_turn_username cfg) @ '':'' @ opt_str (wc_turn_credential cfg) @ ''@'' @ url"
    using assms(4,5) by (simp add: turn_server_def)
  moreover have "turn_server (cfg\<lparr>wc_turn_url := Some (''turn:'' @ url)\<rparr>) (''turn:'' @ url) = turn_server cfg url"
    using assms(4) by (simp add: turn_server_def)
  moreover have "length (turn_server cfg other) < 512" by (simp add: turn_server_def)
  ultimately show ?thesis using assms(2,3) by (simp add: ice_servers_def)
qed

lemma ice_servers_configured_witness:
  "ice_servers demo_env (demo_wr_cfg\<lparr>wc_turn_url := Some ''turn:h'', wc_turn_username := Some ''u'', wc_turn_credential := Some ''p''\<rparr>) =
    [''stun:s'', ''turn:u:p@h'']"
proof -
  let ?cfg = "demo_wr_cfg\<lparr>wc_turn_url := Some ''h'', wc_turn_username := Some ''u'', wc_turn_credential := Some ''p''\<rparr>"
  have "tether_webrtc_create demo_env 0 (Some ?cfg) = (None, Some \<lparr>pc_ice_servers = ice_servers demo_env ?cfg, pc_bind_address = None\<rparr>)"
    by (simp add: tether_webrtc_create_def demo_env_def bind_addr_def)
  from ice_servers_configured [OF this, of "''h''"] show ?thesis
    by (simp add: demo_wr_cfg_def demo_env_def opt_str_def)
qed

text \<open>What the receiving callbacks learn of a frame: a binary frame on a known track goes to the video
  callback exactly when the track's description has a video m-line, with the mid of its description; a
  frame on a handle that is not in the list counts as audio and has no mid. The number they are given
  as \<open>track_id\<close> is libdatachannel's handle, not the track's id.\<close>

theorem incoming_frames_routed:
  assumes "find (has_handle tr) (wr_tracks w) = None" and "0 < n" and "msg \<noteq> []" and "0 < n'"
    and "wc_on_video (wr_cfg w)" and "wc_on_audio (wr_cfg w)"
  shows "on_track_message tr (Some msg) n (on_track tr n' desc w) =
      (if strstr desc ''m=video'' \<noteq> None
       then [OnVideo (take (nat n) msg) tr (Some (parse_mid_from_desc (Some desc) 64))]
       else [OnAudio (take (nat n) msg) tr (Some (parse_mid_from_desc (Some desc) 64))]) \<and>
    on_track_message tr (Some msg) n w = [OnAudio (take (nat n) msg) tr None] \<and>
    length (parse_mid_from_desc (Some desc) 64) < 64"
  using assms
  by (auto simp: on_track_message_def on_track_def Let_def has_handle_def parse_mid_from_desc_def split: option.splits)

lemma incoming_frames_routed_witness:
  "on_track_message 40 (Some [7]) 1 (on_track 40 20 (''m=video 9'' @ CHR 0x0A # ''a=mid:v1'') demo_wr) =
    [OnVideo [7] 40 (Some ''v1'')]"
  using incoming_frames_routed [of 40 demo_wr 1 "[7]" 20 "''m=video 9'' @ CHR 0x0A # ''a=mid:v1''"]
  by (simp add: demo_wr_def demo_wr_cfg_def parse_mid_from_desc_def line_end_def)

end
