(* ===== verification/Receive_Session.thy ===== *)
theory Receive_Session
  imports Token Signaling Webrtc "HOL-Library.Multiset"
begin

text \<open>
  \<open>src/receive-session.c\<close>: the receiver's sessions. One session joins a signaling client and a peer
  connection and fans media out to its subscribers; a process-wide registry holds one session per
  token and counts references. A session is what an address of the heap holds; an operation that
  follows a pointer to freed memory has no result (\<^const>\<open>None\<close>).
\<close>

section \<open>State\<close>

datatype tether_receive_state =
    TETHER_RX_STATE_CONNECTING
  | TETHER_RX_STATE_AWAITING_ACCEPT
  | TETHER_RX_STATE_ACCEPTED
  | TETHER_RX_STATE_NEGOTIATING
  | TETHER_RX_STATE_CONNECTED
  | TETHER_RX_STATE_FAILED
  | TETHER_RX_STATE_CLOSED

text \<open>A subscription, with its address; the callbacks are represented by whether they are set.\<close>

record rx_subscription =
  sub_addr :: nat
  sub_on_video :: bool
  sub_on_audio :: bool
  sub_on_state :: bool
  sub_user :: nat

record mid_entry =
  me_mid :: string
  me_is_video :: bool

record tether_receive_stats =
  video_bytes :: u64
  audio_bytes :: u64
  video_packets :: u64
  audio_packets :: u64
  last_update_ns :: u64

record rx_session =
  rx_token :: string
  rx_refcount :: int
  rx_sig :: tether_signaling
  rx_wrtc :: tether_webrtc
  rx_state :: tether_receive_state
  rx_subs :: "rx_subscription list"
  rx_seen_mids :: "mid_entry list"
  rx_stats :: tether_receive_stats

text \<open>
  What a session does: calls of a subscriber's callbacks (named by its user pointer), and the calls
  its signaling client and peer connection make.
\<close>

datatype rx_out =
    SubState nat tether_receive_state
  | SubVideo nat "u8 list" "string option"
  | SubAudio nat "u8 list" nat nat "string option"
  | RxSig sig_out
  | RxWr wr_out

fun tether_receive_state_name :: "tether_receive_state \<Rightarrow> string" where
  "tether_receive_state_name TETHER_RX_STATE_CONNECTING = ''connecting''"
| "tether_receive_state_name TETHER_RX_STATE_AWAITING_ACCEPT = ''awaiting accept''"
| "tether_receive_state_name TETHER_RX_STATE_ACCEPTED = ''accepted''"
| "tether_receive_state_name TETHER_RX_STATE_NEGOTIATING = ''negotiating''"
| "tether_receive_state_name TETHER_RX_STATE_CONNECTED = ''connected''"
| "tether_receive_state_name TETHER_RX_STATE_FAILED = ''failed''"
| "tether_receive_state_name TETHER_RX_STATE_CLOSED = ''closed''"

section \<open>Media and state of one session\<close>

definition remember_mid_locked :: "string option \<Rightarrow> bool \<Rightarrow> rx_session \<Rightarrow> rx_session" where
  "remember_mid_locked mid is_video s =
     (if \<not> nonempty_str mid then s
      else if find (\<lambda>e. Some (me_mid e) = mid) (rx_seen_mids s) \<noteq> None then s
      else s\<lparr>rx_seen_mids := rx_seen_mids s @
              [\<lparr>me_mid = strncpy_buf 64 (the mid), me_is_video = is_video\<rparr>]\<rparr>)"

definition rx_set_state :: "tether_receive_state \<Rightarrow> rx_session \<Rightarrow> rx_session \<times> rx_out list" where
  "rx_set_state new_state s =
     (if rx_state s = new_state then (s, [])
      else (s\<lparr>rx_state := new_state\<rparr>,
            map (\<lambda>b. SubState (sub_user b) new_state) (filter sub_on_state (rx_subs s))))"

text \<open>\<open>now\<close> is the reading of the clock.\<close>

definition wrtc_video_cb ::
  "u64 \<Rightarrow> u8 list \<Rightarrow> string option \<Rightarrow> rx_session \<Rightarrow> rx_session \<times> rx_out list" where
  "wrtc_video_cb now dat mid s =
     (let s1 = s\<lparr>rx_stats := rx_stats s
                 \<lparr>video_bytes := video_bytes (rx_stats s) + word_of_nat (length dat),
                  video_packets := video_packets (rx_stats s) + 1, last_update_ns := now\<rparr>\<rparr>;
          s2 = remember_mid_locked mid True s1
      in (s2, map (\<lambda>b. SubVideo (sub_user b) dat mid) (filter sub_on_video (rx_subs s2))))"

definition wrtc_audio_cb ::
  "u64 \<Rightarrow> u8 list \<Rightarrow> string option \<Rightarrow> rx_session \<Rightarrow> rx_session \<times> rx_out list" where
  "wrtc_audio_cb now dat mid s =
     (let s1 = s\<lparr>rx_stats := rx_stats s
                 \<lparr>audio_bytes := audio_bytes (rx_stats s) + word_of_nat (length dat),
                  audio_packets := audio_packets (rx_stats s) + 1, last_update_ns := now\<rparr>\<rparr>;
          s2 = remember_mid_locked mid False s1
      in (s2, map (\<lambda>b. SubAudio (sub_user b) dat 48000 2 mid) (filter sub_on_audio (rx_subs s2))))"

fun wrtc_state_cb :: "tether_webrtc_state \<Rightarrow> rx_session \<Rightarrow> rx_session \<times> rx_out list" where
  "wrtc_state_cb TETHER_WRTC_STATE_NEW s = rx_set_state TETHER_RX_STATE_NEGOTIATING s"
| "wrtc_state_cb TETHER_WRTC_STATE_CONNECTING s = rx_set_state TETHER_RX_STATE_NEGOTIATING s"
| "wrtc_state_cb TETHER_WRTC_STATE_CONNECTED s = rx_set_state TETHER_RX_STATE_CONNECTED s"
| "wrtc_state_cb TETHER_WRTC_STATE_FAILED s = rx_set_state TETHER_RX_STATE_FAILED s"
| "wrtc_state_cb TETHER_WRTC_STATE_CLOSED s = rx_set_state TETHER_RX_STATE_CLOSED s"

definition wrtc_local_sdp :: "string \<Rightarrow> string \<Rightarrow> rx_session \<Rightarrow> rx_out list" where
  "wrtc_local_sdp ty sdp s =
     map RxSig (snd (tether_signaling_send_sdp (Some (rx_sig s)) (Some ''sender'') (Some ty) (Some sdp)))"

definition wrtc_local_ice :: "string \<Rightarrow> string \<Rightarrow> int \<Rightarrow> rx_session \<Rightarrow> rx_out list" where
  "wrtc_local_ice cand mid mline s =
     map RxSig (snd (tether_signaling_send_ice (Some (rx_sig s)) (Some ''sender'') (Some cand) (Some mid) mline))"

section \<open>Signaling events\<close>

text \<open>
  The loop that undoes the escapes of the SDP. The loop that finds its end is that of
  \<^const>\<open>value_len\<close>.
\<close>

definition unescape_char :: "char \<Rightarrow> char" where
  "unescape_char e =
     (if e = CHR ''n'' then CHR 0x0A
      else if e = CHR ''r'' then CHR 0x0D
      else if e = CHR ''t'' then CHR 0x09
      else e)"

fun sdp_unescape :: "string \<Rightarrow> string" where
  "sdp_unescape [] = []"
| "sdp_unescape (c # s) =
     (if c = CHR 0x5C then (case s of [] \<Rightarrow> [c] | e # t \<Rightarrow> unescape_char e # sdp_unescape t)
      else c # sdp_unescape s)"

text \<open>\<open>strstr (json, "\"key\":\"")\<close> and the pointer moved past the match.\<close>

definition after_key :: "string \<Rightarrow> string \<Rightarrow> string option" where
  "after_key json key = map_option (drop (length (member_pattern key))) (strstr json (member_pattern key))"

definition offered_sdp :: "string \<Rightarrow> string option" where
  "offered_sdp json = map_option (\<lambda>p. sdp_unescape (take (value_len p) p)) (after_key json ''sdp'')"

text \<open>The candidate and the mid of an ICE message, each up to the next quote.\<close>

definition candidate_and_mid :: "string \<Rightarrow> (string \<times> string) option" where
  "candidate_and_mid json =
     (case (after_key json ''candidate'', after_key json ''mid'') of
        (Some c, Some m) \<Rightarrow>
          (case (strchr c (CHR 0x22), strchr m (CHR 0x22)) of
             (Some ce, Some me) \<Rightarrow> Some (dup_span c (ptr_diff ce c), dup_span m (ptr_diff me m))
           | _ \<Rightarrow> None)
      | _ \<Rightarrow> None)"

text \<open>
  \<open>rc\<close> and \<open>rc2\<close> are the results of the calls into libdatachannel the handler may make (of
  \<open>rtcSetRemoteDescription\<close> and \<open>rtcSetLocalDescription\<close>, or of \<open>rtcAddRemoteCandidate\<close>).
\<close>

fun rx_signaling_event ::
  "int \<Rightarrow> int \<Rightarrow> tether_signaling_event \<Rightarrow> string option \<Rightarrow> rx_session \<Rightarrow> rx_session \<times> rx_out list" where
  "rx_signaling_event rc rc2 TETHER_SIG_EVT_REQUEST_ACCEPTED payload s =
     (if rx_state s \<in> {TETHER_RX_STATE_NEGOTIATING, TETHER_RX_STATE_CONNECTED} then (s, [])
      else rx_set_state TETHER_RX_STATE_ACCEPTED s)"
| "rx_signaling_event rc rc2 TETHER_SIG_EVT_TOKEN_INVALID payload s = rx_set_state TETHER_RX_STATE_FAILED s"
| "rx_signaling_event rc rc2 TETHER_SIG_EVT_TOKEN_LOCKED_OUT payload s = rx_set_state TETHER_RX_STATE_FAILED s"
| "rx_signaling_event rc rc2 TETHER_SIG_EVT_SDP_OFFER payload s =
     (if rx_state s \<in> {TETHER_RX_STATE_NEGOTIATING, TETHER_RX_STATE_CONNECTED, TETHER_RX_STATE_FAILED,
          TETHER_RX_STATE_CLOSED}
      then (s, [])
      else case rx_set_state TETHER_RX_STATE_NEGOTIATING s of (s1, o1) \<Rightarrow>
        (case Option.bind payload offered_sdp of
           None \<Rightarrow> (s1, o1)
         | Some sdp \<Rightarrow>
             (s1, o1 @ map RxWr (snd (tether_webrtc_apply_remote_sdp rc rc2 (Some (rx_wrtc s1)) (Some ''offer'') (Some sdp))))))"
| "rx_signaling_event rc rc2 TETHER_SIG_EVT_ICE_CANDIDATE payload s =
     (case Option.bind payload candidate_and_mid of
        None \<Rightarrow> (s, [])
      | Some (cand, mid) \<Rightarrow>
          (s, map RxWr (snd (tether_webrtc_add_remote_ice rc (Some (rx_wrtc s)) (Some cand) (Some mid)))))"
| "rx_signaling_event rc rc2 _ payload s = (s, [])"

section \<open>Wiring\<close>

text \<open>
  The outputs of the signaling client and of the peer connection that are callbacks of the session
  are delivered to it, in order; the others go out.
\<close>

fun rx_deliver_sig :: "int \<Rightarrow> int \<Rightarrow> sig_out list \<Rightarrow> rx_session \<Rightarrow> rx_session \<times> rx_out list" where
  "rx_deliver_sig rc rc2 [] s = (s, [])"
| "rx_deliver_sig rc rc2 (Emit evt pid payload # os) s =
     (case rx_signaling_event rc rc2 evt payload s of (s1, o1) \<Rightarrow>
      case rx_deliver_sig rc rc2 os s1 of (s2, o2) \<Rightarrow> (s2, o1 @ o2))"
| "rx_deliver_sig rc rc2 (out # os) s =
     (case rx_deliver_sig rc rc2 os s of (s1, o1) \<Rightarrow> (s1, RxSig out # o1))"

fun rx_deliver_wr :: "u64 \<Rightarrow> wr_out list \<Rightarrow> rx_session \<Rightarrow> rx_session \<times> rx_out list" where
  "rx_deliver_wr now [] s = (s, [])"
| "rx_deliver_wr now (out # os) s =
     (case (case out of
         OnLocalSdp ty sdp \<Rightarrow> (s, wrtc_local_sdp ty sdp s)
       | OnLocalIce cand mid mline \<Rightarrow> (s, wrtc_local_ice cand mid mline s)
       | OnState st \<Rightarrow> wrtc_state_cb st s
       | OnVideo dat tid mid \<Rightarrow> wrtc_video_cb now dat mid s
       | OnAudio dat tid mid \<Rightarrow> wrtc_audio_cb now dat mid s
       | _ \<Rightarrow> (s, [RxWr out]))
      of (s1, o1) \<Rightarrow> case rx_deliver_wr now os s1 of (s2, o2) \<Rightarrow> (s2, o1 @ o2))"

text \<open>A callback of the socket, and one of the peer connection, reaching a session.\<close>

definition rx_socket_event :: "int \<Rightarrow> int \<Rightarrow> sig_op \<Rightarrow> rx_session \<Rightarrow> rx_session \<times> rx_out list" where
  "rx_socket_event rc rc2 op s =
     (case sig_call op (rx_sig s) of (sig', outs) \<Rightarrow> rx_deliver_sig rc rc2 outs (s\<lparr>rx_sig := sig'\<rparr>))"

definition rx_rtc_event :: "u64 \<Rightarrow> rtc_callback \<Rightarrow> rx_session \<Rightarrow> rx_session \<times> rx_out list" where
  "rx_rtc_event now cb s =
     (case wr_callback cb (rx_wrtc s) of (w', outs) \<Rightarrow> rx_deliver_wr now outs (s\<lparr>rx_wrtc := w'\<rparr>))"

section \<open>Creation and destruction\<close>

definition TETHER_DEFAULT_SIGNALING_URL :: string where
  "TETHER_DEFAULT_SIGNALING_URL = ''wss://tether-signaling.tether-plugin.workers.dev/v1''"

definition tether_default_server_url :: string where
  "tether_default_server_url = TETHER_DEFAULT_SIGNALING_URL"

definition rx_webrtc_config :: tether_webrtc_config where
  "rx_webrtc_config = \<lparr>wc_stun_url = Some ''stun:stun.cloudflare.com:3478'', wc_turn_url = None,
     wc_turn_username = None, wc_turn_credential = None, wc_video_codec = TETHER_CODEC_H264,
     wc_on_local_sdp = True, wc_on_local_ice = True, wc_on_state = True, wc_on_video = True, wc_on_audio = True\<rparr>"

definition rx_signaling_config :: "string \<Rightarrow> tether_signaling_config" where
  "rx_signaling_config canon = \<lparr>sc_server_url = Some tether_default_server_url, sc_role = TETHER_ROLE_RECEIVER,
     sc_display_name = Some ''Tether'', sc_token = Some canon, sc_token_ttl_minutes = 0,
     sc_reusable_token = False, sc_cb = True\<rparr>"

definition no_stats :: tether_receive_stats where
  "no_stats = \<lparr>video_bytes = 0, audio_bytes = 0, video_packets = 0, audio_packets = 0, last_update_ns = 0\<rparr>"

text \<open>\<open>pc\<close> and \<open>ws\<close> are the handles \<open>rtcCreatePeerConnection\<close> and \<open>rtcCreateWebSocketEx\<close> return.\<close>

definition session_create_locked ::
  "wr_env \<Rightarrow> int \<Rightarrow> int \<Rightarrow> string \<Rightarrow> rx_session option \<times> rx_out list" where
  "session_create_locked env pc ws token =
     (case tether_token_normalise (Some token) TETHER_TOKEN_BUF of
        (True, Some canon) \<Rightarrow>
          (case fst (tether_webrtc_create env pc (Some rx_webrtc_config)) of
             None \<Rightarrow> (None, [])
           | Some wrtc \<Rightarrow>
               (case tether_signaling_create (Some (rx_signaling_config canon)) of
                  None \<Rightarrow> (None, map RxWr (snd (tether_webrtc_release (Some wrtc))))
                | Some sig \<Rightarrow>
                    (let s = \<lparr>rx_token = token, rx_refcount = 1, rx_sig = sig, rx_wrtc = wrtc,
                           rx_state = TETHER_RX_STATE_CONNECTING, rx_subs = [], rx_seen_mids = [],
                           rx_stats = no_stats\<rparr>;
                         (sig', _, outs) = tether_signaling_connect ws (Some sig);
                         (s1, o1) = rx_deliver_sig 0 0 outs (s\<lparr>rx_sig := the sig'\<rparr>);
                         (s2, o2) = rx_set_state TETHER_RX_STATE_AWAITING_ACCEPT s1
                     in (Some s2, o1 @ o2))))
      | _ \<Rightarrow> (None, []))"

text \<open>Releasing the two clients; the memory goes away with the heap cell.\<close>

definition session_destroy :: "rx_session \<Rightarrow> rx_out list" where
  "session_destroy s =
     (case tether_signaling_release (Some (rx_sig s)) of (_, outs) \<Rightarrow>
        snd (rx_deliver_sig 0 0 outs s)) @
     map RxWr (snd (tether_webrtc_release (Some (rx_wrtc s))))"

section \<open>Queries of one session\<close>

definition collect_mids_locked :: "bool \<Rightarrow> rx_session \<Rightarrow> string list \<times> nat" where
  "collect_mids_locked want_video s =
     (let ms = map me_mid (filter (\<lambda>e. me_is_video e = want_video) (rx_seen_mids s)) in (ms, length ms))"

definition tether_receive_session_video_mids :: "rx_session option \<Rightarrow> string list \<times> nat" where
  "tether_receive_session_video_mids s = (case s of None \<Rightarrow> ([], 0) | Some v \<Rightarrow> collect_mids_locked True v)"

definition tether_receive_session_audio_mids :: "rx_session option \<Rightarrow> string list \<times> nat" where
  "tether_receive_session_audio_mids s = (case s of None \<Rightarrow> ([], 0) | Some v \<Rightarrow> collect_mids_locked False v)"

definition tether_receive_session_state :: "rx_session option \<Rightarrow> tether_receive_state" where
  "tether_receive_session_state s = (case s of None \<Rightarrow> TETHER_RX_STATE_CLOSED | Some v \<Rightarrow> rx_state v)"

definition tether_receive_session_token :: "rx_session option \<Rightarrow> string option" where
  "tether_receive_session_token s = map_option rx_token s"

definition tether_receive_session_get_stats :: "rx_session option \<Rightarrow> tether_receive_stats option" where
  "tether_receive_session_get_stats s = map_option rx_stats s"

section \<open>The registry\<close>

text \<open>
  \<open>rx_heap\<close> is the memory sessions live in, \<open>rx_registry\<close> is \<open>g_sessions\<close>. Subscriptions and
  sessions get fresh addresses from \<open>rx_next\<close>.
\<close>

record rx_world =
  rx_heap :: "nat \<rightharpoonup> rx_session"
  rx_registry :: "nat list"
  rx_initialised :: bool
  rx_next :: nat

text \<open>The loop over the registry: the address of the session with the token, if any.\<close>

fun find_session :: "(nat \<rightharpoonup> rx_session) \<Rightarrow> string \<Rightarrow> nat list \<Rightarrow> nat option option" where
  "find_session h token [] = Some None"
| "find_session h token (a # as) =
     (case h a of
        None \<Rightarrow> None
      | Some s \<Rightarrow> if rx_token s = token then Some (Some a) else find_session h token as)"

definition tether_receive_session_get ::
  "wr_env \<Rightarrow> int \<Rightarrow> int \<Rightarrow> string option \<Rightarrow> rx_world \<Rightarrow> (rx_world \<times> nat option \<times> rx_out list) option" where
  "tether_receive_session_get env pc ws token w =
     (case token of
        None \<Rightarrow> Some (w, None, [])
      | Some t \<Rightarrow>
          if t = [] then Some (w, None, [])
          else if \<not> rx_initialised w then Some (w, None, [])
          else case find_session (rx_heap w) t (rx_registry w) of
            None \<Rightarrow> None
          | Some (Some a) \<Rightarrow>
              Some (w\<lparr>rx_heap := (rx_heap w)(a := map_option (\<lambda>s. s\<lparr>rx_refcount := rx_refcount s + 1\<rparr>) (rx_heap w a))\<rparr>,
                    Some a, [])
          | Some None \<Rightarrow>
              (case session_create_locked env pc ws t of
                 (None, outs) \<Rightarrow> Some (w, None, outs)
               | (Some s, outs) \<Rightarrow>
                   Some (w\<lparr>rx_heap := (rx_heap w)(rx_next w \<mapsto> s), rx_registry := rx_registry w @ [rx_next w],
                           rx_next := rx_next w + 1\<rparr>, Some (rx_next w), outs)))"

definition tether_receive_session_release :: "nat option \<Rightarrow> rx_world \<Rightarrow> (rx_world \<times> rx_out list) option" where
  "tether_receive_session_release p w =
     (case p of
        None \<Rightarrow> Some (w, [])
      | Some a \<Rightarrow>
          (case rx_heap w a of
             None \<Rightarrow> None
           | Some s \<Rightarrow>
               let s' = s\<lparr>rx_refcount := rx_refcount s - 1\<rparr> in
               if rx_refcount s' \<le> 0
               then Some (w\<lparr>rx_heap := (rx_heap w)(a := None),
                            rx_registry := erase_first (\<lambda>b. b = a) (rx_registry w)\<rparr>, session_destroy s')
               else Some (w\<lparr>rx_heap := (rx_heap w)(a \<mapsto> s')\<rparr>, [])))"

text \<open>A subscription handle: its session and its address.\<close>

definition tether_receive_session_subscribe ::
  "bool \<Rightarrow> bool \<Rightarrow> bool \<Rightarrow> nat \<Rightarrow> nat option \<Rightarrow> rx_world \<Rightarrow>
   (rx_world \<times> (nat \<times> nat) option \<times> rx_out list) option" where
  "tether_receive_session_subscribe on_video on_audio on_state user p w =
     (case p of
        None \<Rightarrow> Some (w, None, [])
      | Some a \<Rightarrow>
          (case rx_heap w a of
             None \<Rightarrow> None
           | Some s \<Rightarrow>
               let sub = \<lparr>sub_addr = rx_next w, sub_on_video = on_video, sub_on_audio = on_audio,
                           sub_on_state = on_state, sub_user = user\<rparr>;
                   s' = s\<lparr>rx_subs := rx_subs s @ [sub], rx_refcount := rx_refcount s + 1\<rparr>
               in Some (w\<lparr>rx_heap := (rx_heap w)(a \<mapsto> s'), rx_next := rx_next w + 1\<rparr>,
                        Some (a, rx_next w),
                        if on_state then [SubState user (tether_receive_session_state (Some s'))] else [])))"

definition has_sub_addr :: "nat \<Rightarrow> rx_subscription \<Rightarrow> bool" where
  "has_sub_addr i b \<longleftrightarrow> sub_addr b = i"

text \<open>A handle whose subscription is no longer in its session points to freed memory.\<close>

definition tether_receive_session_unsubscribe ::
  "(nat \<times> nat) option \<Rightarrow> rx_world \<Rightarrow> (rx_world \<times> rx_out list) option" where
  "tether_receive_session_unsubscribe sub w =
     (case sub of
        None \<Rightarrow> Some (w, [])
      | Some (a, i) \<Rightarrow>
          (case rx_heap w a of
             None \<Rightarrow> None
           | Some s \<Rightarrow>
               if find (has_sub_addr i) (rx_subs s) = None then None
               else tether_receive_session_release (Some a)
                 (w\<lparr>rx_heap := (rx_heap w)(a \<mapsto> s\<lparr>rx_subs := erase_first (has_sub_addr i) (rx_subs s)\<rparr>)\<rparr>)))"

text \<open>The first loop of the enumeration takes a reference to every session, the second gives it back.\<close>

fun bump_all :: "nat list \<Rightarrow> rx_world \<Rightarrow> rx_world option" where
  "bump_all [] w = Some w"
| "bump_all (a # as) w =
     (case rx_heap w a of
        None \<Rightarrow> None
      | Some s \<Rightarrow> bump_all as (w\<lparr>rx_heap := (rx_heap w)(a \<mapsto> s\<lparr>rx_refcount := rx_refcount s + 1\<rparr>)\<rparr>))"

fun release_all :: "nat list \<Rightarrow> rx_world \<Rightarrow> (rx_world \<times> rx_out list) option" where
  "release_all [] w = Some (w, [])"
| "release_all (a # as) w =
     (case tether_receive_session_release (Some a) w of
        None \<Rightarrow> None
      | Some (w1, o1) \<Rightarrow>
          (case release_all as w1 of None \<Rightarrow> None | Some (w2, o2) \<Rightarrow> Some (w2, o1 @ o2)))"

text \<open>The sessions the callback sees; a callback that does not itself use the registry.\<close>

definition tether_receive_session_enumerate ::
  "bool \<Rightarrow> rx_world \<Rightarrow> (rx_world \<times> nat list \<times> rx_out list) option" where
  "tether_receive_session_enumerate cb w =
     (if \<not> cb then Some (w, [], [])
      else case bump_all (rx_registry w) w of
        None \<Rightarrow> None
      | Some w1 \<Rightarrow>
          (case release_all (rx_registry w) w1 of
             None \<Rightarrow> None
           | Some (w2, outs) \<Rightarrow> Some (w2, rx_registry w, outs)))"

definition tether_receive_session_init :: "rx_world \<Rightarrow> rx_world" where
  "tether_receive_session_init w =
     (if \<not> rx_initialised w then w\<lparr>rx_registry := [], rx_initialised := True\<rparr> else w)"

fun destroy_all :: "nat list \<Rightarrow> rx_world \<Rightarrow> (rx_world \<times> rx_out list) option" where
  "destroy_all [] w = Some (w, [])"
| "destroy_all (a # as) w =
     (case rx_heap w a of
        None \<Rightarrow> None
      | Some s \<Rightarrow>
          (case destroy_all as (w\<lparr>rx_heap := (rx_heap w)(a := None)\<rparr>) of
             None \<Rightarrow> None
           | Some (w', outs) \<Rightarrow> Some (w', session_destroy s @ outs)))"

definition tether_receive_session_shutdown :: "rx_world \<Rightarrow> (rx_world \<times> rx_out list) option" where
  "tether_receive_session_shutdown w =
     destroy_all (rx_registry w) (w\<lparr>rx_registry := [], rx_initialised := False\<rparr>)"

section \<open>Clients of the registry\<close>

text \<open>
  The operations of a client that gives back only what it holds: \<open>rw_refs\<close> are the references it got
  and has not released, \<open>rw_subs\<close> its subscriptions. The network threads call into a session at any
  time. A callback that informs the subscribers copies the pointers of all of them while it holds the
  session's lock and follows the copies after it has let go of it, so \<open>rw_calls\<close> are the pointers that
  have been copied and not yet followed, each with what its subscriber is to be told; the client's
  operations, and other callbacks, run in between.
\<close>

datatype rx_media =
    MediaState tether_receive_state
  | MediaVideo "u8 list" "string option"
  | MediaAudio "u8 list" nat nat "string option"

fun media_of :: "rx_out \<Rightarrow> rx_media option" where
  "media_of (SubState u st) = Some (MediaState st)"
| "media_of (SubVideo u dat mid) = Some (MediaVideo dat mid)"
| "media_of (SubAudio u dat rate ch mid) = Some (MediaAudio dat rate ch mid)"
| "media_of out = None"

text \<open>One turn of the loop over the copy, for a pointer that is still good.\<close>

fun call_sub :: "rx_subscription \<Rightarrow> rx_media \<Rightarrow> rx_out list" where
  "call_sub b (MediaState st) = (if sub_on_state b then [SubState (sub_user b) st] else [])"
| "call_sub b (MediaVideo dat mid) = (if sub_on_video b then [SubVideo (sub_user b) dat mid] else [])"
| "call_sub b (MediaAudio dat rate ch mid) = (if sub_on_audio b then [SubAudio (sub_user b) dat rate ch mid] else [])"

text \<open>
  What an event of a session has its subscribers told: what it would tell a single one that has all
  three callbacks.
\<close>

definition listener :: rx_subscription where
  "listener = \<lparr>sub_addr = 0, sub_on_video = True, sub_on_audio = True, sub_on_state = True, sub_user = 0\<rparr>"

definition announced :: "(rx_session \<Rightarrow> rx_session \<times> rx_out list) \<Rightarrow> rx_session \<Rightarrow> rx_media list" where
  "announced ev s = List.map_filter media_of (snd (ev (s\<lparr>rx_subs := [listener]\<rparr>)))"

definition copied :: "nat \<Rightarrow> rx_session \<Rightarrow> rx_media list \<Rightarrow> ((nat \<times> nat) \<times> rx_media) list" where
  "copied a s ms = concat (map (\<lambda>m. map (\<lambda>b. ((a, sub_addr b), m)) (rx_subs s)) ms)"

record rx_run =
  rw_world :: rx_world
  rw_refs :: "nat list"
  rw_subs :: "(nat \<times> nat) list"
  rw_calls :: "((nat \<times> nat) \<times> rx_media) list"

datatype rx_op =
    RxGet wr_env int int "string option"
  | RxRelease nat
  | RxSubscribe nat bool bool bool nat
  | RxUnsubscribe nat
  | RxSocket nat int int sig_op
  | RxRtc nat u64 rtc_callback
  | RxDeliver nat
  | RxEnumerate

definition remove_nth :: "nat \<Rightarrow> 'a list \<Rightarrow> 'a list" where
  "remove_nth k xs = take k xs @ drop (Suc k) xs"

text \<open>An event up to the point where the session's lock is let go: the calls are still to be made.\<close>

definition rx_network ::
  "nat \<Rightarrow> (rx_session \<Rightarrow> rx_session \<times> rx_out list) \<Rightarrow> rx_run \<Rightarrow> (rx_run \<times> rx_out list) option" where
  "rx_network a ev r =
     (case rx_heap (rw_world r) a of
        None \<Rightarrow> None
      | Some s \<Rightarrow> (case ev s of (s', outs) \<Rightarrow>
          Some (r\<lparr>rw_world := (rw_world r)\<lparr>rx_heap := (rx_heap (rw_world r))(a \<mapsto> s')\<rparr>,
                  rw_calls := rw_calls r @ copied a s (announced ev s)\<rparr>,
                filter (\<lambda>out. media_of out = None) outs)))"

text \<open>One of the copied pointers is followed.\<close>

definition rx_follow :: "nat \<Rightarrow> rx_run \<Rightarrow> (rx_run \<times> rx_out list) option" where
  "rx_follow k r =
     (case rw_calls r ! k of ((a, i), m) \<Rightarrow>
        (case rx_heap (rw_world r) a of
           None \<Rightarrow> None
         | Some s \<Rightarrow>
             (case find (has_sub_addr i) (rx_subs s) of
                None \<Rightarrow> None
              | Some b \<Rightarrow> Some (r\<lparr>rw_calls := remove_nth k (rw_calls r)\<rparr>, call_sub b m))))"

text \<open>
  The numbers of \<open>RxRelease\<close>, \<open>RxSubscribe\<close>, \<open>RxUnsubscribe\<close> and \<open>RxDeliver\<close> choose one of the held
  handles or of the copied pointers.
\<close>

fun rx_call :: "rx_op \<Rightarrow> rx_run \<Rightarrow> (rx_run \<times> rx_out list) option" where
  "rx_call (RxGet env pc ws token) r =
     map_option (\<lambda>(w, p, outs). (r\<lparr>rw_world := w, rw_refs := rw_refs r @ (case p of None \<Rightarrow> [] | Some a \<Rightarrow> [a])\<rparr>, outs))
       (tether_receive_session_get env pc ws token (rw_world r))"
| "rx_call (RxRelease k) r =
     (if k < length (rw_refs r)
      then map_option (\<lambda>(w, outs). (r\<lparr>rw_world := w, rw_refs := remove_nth k (rw_refs r)\<rparr>, outs))
             (tether_receive_session_release (Some (rw_refs r ! k)) (rw_world r))
      else Some (r, []))"
| "rx_call (RxSubscribe k v a st user) r =
     (if k < length (rw_refs r)
      then map_option (\<lambda>(w, h, outs). (r\<lparr>rw_world := w, rw_subs := rw_subs r @ (case h of None \<Rightarrow> [] | Some x \<Rightarrow> [x])\<rparr>, outs))
             (tether_receive_session_subscribe v a st user (Some (rw_refs r ! k)) (rw_world r))
      else Some (r, []))"
| "rx_call (RxUnsubscribe k) r =
     (if k < length (rw_subs r)
      then map_option (\<lambda>(w, outs). (r\<lparr>rw_world := w, rw_subs := remove_nth k (rw_subs r)\<rparr>, outs))
             (tether_receive_session_unsubscribe (Some (rw_subs r ! k)) (rw_world r))
      else Some (r, []))"
| "rx_call (RxSocket a rc rc2 op) r = rx_network a (rx_socket_event rc rc2 op) r"
| "rx_call (RxRtc a now cb) r = rx_network a (rx_rtc_event now cb) r"
| "rx_call (RxDeliver k) r = (if k < length (rw_calls r) then rx_follow k r else Some (r, []))"
| "rx_call RxEnumerate r =
     map_option (\<lambda>(w, ps, outs). (r\<lparr>rw_world := w\<rparr>, outs)) (tether_receive_session_enumerate True (rw_world r))"

text \<open>A run with what it put out; \<^const>\<open>None\<close> after a use of freed memory.\<close>

fun rx_run_ops :: "rx_op list \<Rightarrow> rx_run \<Rightarrow> (rx_run \<times> rx_out list) option" where
  "rx_run_ops [] r = Some (r, [])"
| "rx_run_ops (op # ops) r =
     (case rx_call op r of
        None \<Rightarrow> None
      | Some (r1, o1) \<Rightarrow> (case rx_run_ops ops r1 of None \<Rightarrow> None | Some (r2, o2) \<Rightarrow> Some (r2, o1 @ o2)))"

text \<open>
  What the code relies on. Nobody takes a subscription back while a callback still holds a copy of its
  pointer: the code itself does nothing to prevent that. And libdatachannel calls nothing of a socket
  or a peer connection that has been deleted: its \<open>rtcDelete\<close> functions wait for the callbacks
  under way and none is called after them, so every event is one of a live session.
\<close>

fun rx_permitted :: "rx_op \<Rightarrow> rx_run \<Rightarrow> bool" where
  "rx_permitted (RxUnsubscribe k) r \<longleftrightarrow> (k < length (rw_subs r) \<longrightarrow> rw_subs r ! k \<notin> fst ` set (rw_calls r))"
| "rx_permitted (RxSocket a rc rc2 op) r \<longleftrightarrow> rx_heap (rw_world r) a \<noteq> None"
| "rx_permitted (RxRtc a now cb) r \<longleftrightarrow> rx_heap (rw_world r) a \<noteq> None"
| "rx_permitted op r \<longleftrightarrow> True"

fun rx_orderly :: "rx_op list \<Rightarrow> rx_run \<Rightarrow> bool" where
  "rx_orderly [] r \<longleftrightarrow> True"
| "rx_orderly (op # ops) r \<longleftrightarrow>
     rx_permitted op r \<and> (case rx_call op r of None \<Rightarrow> True | Some (r1, o1) \<Rightarrow> rx_orderly ops r1)"

section \<open>References are balanced\<close>

text \<open>
  The accounting: \<open>refs\<close> are the outstanding references, \<open>subs\<close> the outstanding subscriptions. The
  count of every session is the number of both, the registry lists exactly the live sessions, and no
  two of them have the same token.
\<close>

definition session_ok :: "nat multiset \<Rightarrow> (nat \<times> nat) list \<Rightarrow> nat \<Rightarrow> rx_session \<Rightarrow> bool" where
  "session_ok refs subs a s \<longleftrightarrow>
     rx_refcount s = int (count refs a + length (rx_subs s)) \<and> 0 < rx_refcount s \<and>
     map sub_addr (rx_subs s) = map snd (filter (\<lambda>p. fst p = a) subs)"

definition one_per_token :: "(nat \<rightharpoonup> rx_session) \<Rightarrow> bool" where
  "one_per_token h \<longleftrightarrow> (\<forall>a b s t. h a = Some s \<longrightarrow> h b = Some t \<longrightarrow> rx_token s = rx_token t \<longrightarrow> a = b)"

definition rx_ok :: "rx_world \<Rightarrow> nat multiset \<Rightarrow> (nat \<times> nat) list \<Rightarrow> bool" where
  "rx_ok w refs subs \<longleftrightarrow>
     rx_initialised w \<and> distinct (rx_registry w) \<and> set (rx_registry w) = dom (rx_heap w) \<and>
     (\<forall>a \<in> dom (rx_heap w). a < rx_next w) \<and> (\<forall>p \<in> set subs. snd p < rx_next w) \<and>
     set_mset refs \<subseteq> dom (rx_heap w) \<and> fst ` set subs \<subseteq> dom (rx_heap w) \<and> distinct (map snd subs) \<and>
     (\<forall>a s. rx_heap w a = Some s \<longrightarrow> session_ok refs subs a s) \<and> one_per_token (rx_heap w)"

definition rx_core :: "rx_session \<Rightarrow> string \<times> int \<times> rx_subscription list" where
  "rx_core s = (rx_token s, rx_refcount s, rx_subs s)"

lemma remember_mid_core [simp]: "rx_core (remember_mid_locked m v s) = rx_core s"
  by (simp add: remember_mid_locked_def rx_core_def)

lemma rx_set_state_core [simp]: "rx_core (fst (rx_set_state st s)) = rx_core s"
  by (simp add: rx_set_state_def rx_core_def)

lemma rx_stats_core [simp]: "rx_core (s\<lparr>rx_stats := x\<rparr>) = rx_core s"
  "rx_core (s\<lparr>rx_sig := y\<rparr>) = rx_core s" "rx_core (s\<lparr>rx_wrtc := z\<rparr>) = rx_core s"
  by (simp_all add: rx_core_def)

lemma wrtc_cb_core [simp]:
  "rx_core (fst (wrtc_video_cb now d m s)) = rx_core s" "rx_core (fst (wrtc_audio_cb now d m s)) = rx_core s"
  "rx_core (fst (wrtc_state_cb st s)) = rx_core s"
  by (simp_all add: wrtc_video_cb_def wrtc_audio_cb_def Let_def) (cases st; simp)

lemma core_results:
  "rx_set_state st s = (s1, o1) \<Longrightarrow> rx_core s1 = rx_core s"
  "wrtc_video_cb now d m s = (s1, o1) \<Longrightarrow> rx_core s1 = rx_core s"
  "wrtc_audio_cb now d m s = (s1, o1) \<Longrightarrow> rx_core s1 = rx_core s"
  "wrtc_state_cb ws s = (s1, o1) \<Longrightarrow> rx_core s1 = rx_core s"
  by (metis fst_conv rx_set_state_core) (metis fst_conv wrtc_cb_core)+

lemma rx_signaling_event_core: "rx_signaling_event rc rc2 evt payload s = (s1, o1) \<Longrightarrow> rx_core s1 = rx_core s"
  by (cases evt) (auto split: prod.splits option.splits if_splits dest: core_results)

lemma rx_deliver_sig_core: "rx_deliver_sig rc rc2 outs s = (s1, o1) \<Longrightarrow> rx_core s1 = rx_core s"
proof (induction rc rc2 outs s arbitrary: s1 o1 rule: rx_deliver_sig.induct)
  case (2 rc rc2 evt pid payload os s)
  obtain s2 o2 where e: "rx_signaling_event rc rc2 evt payload s = (s2, o2)" by fastforce
  obtain s3 o3 where d: "rx_deliver_sig rc rc2 os s2 = (s3, o3)" by fastforce
  have "rx_core s3 = rx_core s2" by (rule "2.IH" [OF e [symmetric] d])
  with 2 e d rx_signaling_event_core [OF e] show ?case by simp
qed (auto split: prod.splits)

lemma rx_deliver_wr_core: "rx_deliver_wr now outs s = (s1, o1) \<Longrightarrow> rx_core s1 = rx_core s"
proof (induction outs arbitrary: s s1 o1)
  case (Cons out os)
  obtain s2 o2 where e: "(case out of
         OnLocalSdp ty sdp \<Rightarrow> (s, wrtc_local_sdp ty sdp s)
       | OnLocalIce cand mid mline \<Rightarrow> (s, wrtc_local_ice cand mid mline s)
       | OnState st \<Rightarrow> wrtc_state_cb st s
       | OnVideo dat tid mid \<Rightarrow> wrtc_video_cb now dat mid s
       | OnAudio dat tid mid \<Rightarrow> wrtc_audio_cb now dat mid s
       | _ \<Rightarrow> (s, [RxWr out])) = (s2, o2)" by fastforce
  then have "rx_core s2 = rx_core s" by (cases out) (auto dest: core_results)
  obtain s3 o3 where d: "rx_deliver_wr now os s2 = (s3, o3)" by fastforce
  with Cons.IH [OF d] Cons.prems e \<open>rx_core s2 = rx_core s\<close> show ?case by simp
qed simp

lemma rx_event_core:
  "rx_core (fst (rx_socket_event rc rc2 op s)) = rx_core s" "rx_core (fst (rx_rtc_event now cb s)) = rx_core s"
  using rx_deliver_sig_core rx_deliver_wr_core
  by (auto simp: rx_socket_event_def rx_rtc_event_def split: prod.splits)
     (metis fst_conv prod.collapse rx_stats_core)+

lemma session_create_facts:
  assumes "session_create_locked env pc ws t = (Some s, outs)"
  shows "rx_token s = t" and "rx_refcount s = 1" and "rx_subs s = []" and "rx_state s = TETHER_RX_STATE_AWAITING_ACCEPT"
proof -
  obtain canon wrtc sig where ok: "tether_token_normalise (Some t) TETHER_TOKEN_BUF = (True, Some canon)"
      "fst (tether_webrtc_create env pc (Some rx_webrtc_config)) = Some wrtc"
      "tether_signaling_create (Some (rx_signaling_config canon)) = Some sig"
    using assms by (auto simp: session_create_locked_def split: prod.splits option.splits bool.splits)
  obtain sig' r outs1 where con: "tether_signaling_connect ws (Some sig) = (sig', r, outs1)"
    by (metis prod_cases3)
  define s0 where "s0 = \<lparr>rx_token = t, rx_refcount = 1, rx_sig = the sig', rx_wrtc = wrtc,
    rx_state = TETHER_RX_STATE_CONNECTING, rx_subs = [], rx_seen_mids = [], rx_stats = no_stats\<rparr>"
  obtain s1 o1 where del: "rx_deliver_sig 0 0 outs1 s0 = (s1, o1)" by fastforce
  obtain o2 where set: "rx_set_state TETHER_RX_STATE_AWAITING_ACCEPT s1 = (s, o2)"
    using assms ok con del by (auto simp: session_create_locked_def s0_def Let_def split: prod.splits)
  have "rx_core s0 = (t, 1, [])" by (simp add: s0_def rx_core_def)
  then have "rx_core s = (t, 1, [])" using core_results(1) [OF set] rx_deliver_sig_core [OF del] by simp
  then show "rx_token s = t" and "rx_refcount s = 1" and "rx_subs s = []" by (simp_all add: rx_core_def)
  show "rx_state s = TETHER_RX_STATE_AWAITING_ACCEPT" using set by (auto simp: rx_set_state_def split: if_splits)
qed

lemma session_ok_core: "rx_core s' = rx_core s \<Longrightarrow> session_ok refs subs a s' = session_ok refs subs a s"
  by (simp add: session_ok_def rx_core_def)

lemma one_per_token_update:
  "one_per_token h \<Longrightarrow> h a = Some s \<Longrightarrow> rx_token s' = rx_token s \<Longrightarrow> one_per_token (h(a \<mapsto> s'))"
  unfolding one_per_token_def by (metis fun_upd_apply option.inject)

lemma rx_ok_core:
  assumes "rx_ok w refs subs" and "rx_heap w a = Some s" and "rx_core s' = rx_core s"
  shows "rx_ok (w\<lparr>rx_heap := (rx_heap w)(a \<mapsto> s')\<rparr>) refs subs"
proof -
  have "rx_token s' = rx_token s" using assms(3) by (simp add: rx_core_def)
  moreover have "dom ((rx_heap w)(a \<mapsto> s')) = dom (rx_heap w)" using assms(2) by auto
  ultimately show ?thesis
    using assms session_ok_core [OF assms(3)] one_per_token_update [of "rx_heap w" a s s']
    unfolding rx_ok_def by auto
qed

lemma find_session_ok:
  assumes "set as \<subseteq> dom h"
  shows "\<exists>r. find_session h t as = Some r \<and>
    (case r of None \<Rightarrow> \<forall>a \<in> set as. \<forall>s. h a = Some s \<longrightarrow> rx_token s \<noteq> t
     | Some a \<Rightarrow> a \<in> set as \<and> (\<exists>s. h a = Some s \<and> rx_token s = t))"
  using assms by (induction as) (auto split: option.splits)

lemma session_ok_count:
  "count refs' b = count refs b \<Longrightarrow> session_ok refs' subs b t = session_ok refs subs b t"
  by (simp add: session_ok_def)

lemma rx_ok_get_old:
  assumes ok: "rx_ok w refs subs" and a: "rx_heap w a = Some s"
  shows "rx_ok (w\<lparr>rx_heap := (rx_heap w)(a \<mapsto> s\<lparr>rx_refcount := rx_refcount s + 1\<rparr>)\<rparr>) (add_mset a refs) subs"
proof -
  note inv = ok [unfolded rx_ok_def]
  let ?s = "s\<lparr>rx_refcount := rx_refcount s + 1\<rparr>"
  have "session_ok (add_mset a refs) subs b t" if "((rx_heap w)(a \<mapsto> ?s)) b = Some t" for b t
  proof (cases "b = a")
    case True
    with that inv a have "session_ok refs subs a s" "t = ?s" by auto
    with True show ?thesis by (simp add: session_ok_def)
  next
    case False
    with that inv have "session_ok refs subs b t" by simp
    with False show ?thesis by (subst session_ok_count [of _ _ refs]) simp_all
  qed
  moreover have "one_per_token ((rx_heap w)(a \<mapsto> ?s))"
    using inv a by (intro one_per_token_update [of _ a s]) auto
  moreover have "dom ((rx_heap w)(a \<mapsto> ?s)) = dom (rx_heap w)" "a \<in> dom (rx_heap w)" using a by auto
  ultimately show ?thesis using inv unfolding rx_ok_def by (simp del: dom_fun_upd fun_upd_apply)
qed

lemma rx_ok_get_new:
  assumes ok: "rx_ok w refs subs" and fresh: "\<forall>a \<in> set (rx_registry w). \<forall>s. rx_heap w a = Some s \<longrightarrow> rx_token s \<noteq> t"
    and s: "rx_token s = t" "rx_refcount s = 1" "rx_subs s = []"
  shows "rx_ok (w\<lparr>rx_heap := (rx_heap w)(rx_next w \<mapsto> s), rx_registry := rx_registry w @ [rx_next w],
    rx_next := rx_next w + 1\<rparr>) (add_mset (rx_next w) refs) subs"
proof -
  note inv = ok [unfolded rx_ok_def]
  have new: "rx_next w \<notin> dom (rx_heap w)" using inv by auto
  then have "rx_next w \<notin># refs" "rx_next w \<notin> fst ` set subs" using inv by auto
  then have "count refs (rx_next w) = 0" "filter (\<lambda>p. fst p = rx_next w) subs = []"
    by (simp add: count_eq_zero_iff) (use \<open>rx_next w \<notin> fst ` set subs\<close> in \<open>force simp: filter_empty_conv\<close>)
  with s have "session_ok (add_mset (rx_next w) refs) subs (rx_next w) s" by (simp add: session_ok_def)
  moreover have "session_ok (add_mset (rx_next w) refs) subs b u" if "b \<noteq> rx_next w" "rx_heap w b = Some u" for b u
    using that inv by (subst session_ok_count [of _ _ refs]) auto
  ultimately have "session_ok (add_mset (rx_next w) refs) subs b u"
    if "((rx_heap w)(rx_next w \<mapsto> s)) b = Some u" for b u
    using that by (cases "b = rx_next w") auto
  moreover have "one_per_token ((rx_heap w)(rx_next w \<mapsto> s))"
    using inv fresh s(1) unfolding one_per_token_def
    by (auto split: if_splits) (metis domI)+
  ultimately show ?thesis using inv new unfolding rx_ok_def by (auto simp: less_Suc_eq)
qed

lemma rx_get_ok:
  assumes "rx_ok w refs subs"
  shows "\<exists>w' p outs. tether_receive_session_get env pc ws token w = Some (w', p, outs) \<and>
    rx_ok w' (refs + (case p of None \<Rightarrow> {#} | Some a \<Rightarrow> {#a#})) subs \<and>
    (\<forall>a. p = Some a \<longrightarrow> map_option rx_token (rx_heap w' a) = token) \<and>
    (\<forall>t. token = Some t \<longrightarrow> (\<exists>s. s \<in> ran (rx_heap w) \<and> rx_token s = t) \<longrightarrow> t \<noteq> [] \<longrightarrow>
       rx_registry w' = rx_registry w \<and> outs = [])"
proof (cases "token = None \<or> token = Some [] ")
  case True
  with assms show ?thesis by (auto simp: tether_receive_session_get_def)
next
  case False
  then obtain t where t: "token = Some t" "t \<noteq> []" by auto
  note inv = assms [unfolded rx_ok_def]
  have dom: "set (rx_registry w) \<subseteq> dom (rx_heap w)" and init: "rx_initialised w" using inv by auto
  from find_session_ok [OF dom, of t] obtain r where r: "find_session (rx_heap w) t (rx_registry w) = Some r"
    "case r of None \<Rightarrow> \<forall>a \<in> set (rx_registry w). \<forall>s. rx_heap w a = Some s \<longrightarrow> rx_token s \<noteq> t
     | Some a \<Rightarrow> a \<in> set (rx_registry w) \<and> (\<exists>s. rx_heap w a = Some s \<and> rx_token s = t)" by blast
  show ?thesis
  proof (cases r)
    case (Some a)
    with r(2) obtain s where s: "rx_heap w a = Some s" "rx_token s = t" by auto
    from rx_ok_get_old [OF assms s(1)] r(1) Some t init s show ?thesis
      by (simp add: tether_receive_session_get_def)
  next
    case None
    have none: "\<not> (\<exists>s. s \<in> ran (rx_heap w) \<and> rx_token s = t)"
      using r(2) None inv by (auto simp: ran_def)
    obtain so outs where c: "session_create_locked env pc ws t = (so, outs)" by fastforce
    show ?thesis
    proof (cases so)
      case None
      with c r \<open>r = None\<close> t init assms none show ?thesis by (auto simp: tether_receive_session_get_def)
    next
      case (Some s)
      note f = session_create_facts [OF c [unfolded Some]]
      have "rx_ok (w\<lparr>rx_heap := (rx_heap w)(rx_next w \<mapsto> s), rx_registry := rx_registry w @ [rx_next w],
          rx_next := rx_next w + 1\<rparr>) (add_mset (rx_next w) refs) subs"
        by (rule rx_ok_get_new [OF assms _ f(1-3)]) (use r(2) None in simp)
      with c r \<open>r = None\<close> t init Some none f show ?thesis by (simp add: tether_receive_session_get_def)
    qed
  qed
qed

text \<open>Giving a reference back.\<close>

lemma rx_release_ok:
  assumes ok: "rx_ok w refs subs" and "a \<in># refs"
  shows "\<exists>w' outs. tether_receive_session_release (Some a) w = Some (w', outs) \<and>
    rx_ok w' (refs - {#a#}) subs \<and>
    dom (rx_heap w') = (if count refs a = 1 \<and> a \<notin> fst ` set subs then dom (rx_heap w) - {a} else dom (rx_heap w))"
proof -
  note inv = ok [unfolded rx_ok_def]
  then obtain s where s: "rx_heap w a = Some s" using assms(2) by blast
  with inv have sok: "session_ok refs subs a s" by blast
  have pos: "0 < count refs a" using assms(2) by simp
  have cnt: "rx_refcount s = int (count refs a + length (rx_subs s))" using sok by (simp add: session_ok_def)
  have nosub: "rx_subs s = [] \<longleftrightarrow> a \<notin> fst ` set subs"
  proof -
    have "rx_subs s = [] \<longleftrightarrow> filter (\<lambda>p. fst p = a) subs = []"
      using sok unfolding session_ok_def by (metis Nil_is_map_conv)
    then show ?thesis by (auto simp: filter_empty_conv)
  qed
  define s' where "s' = s\<lparr>rx_refcount := rx_refcount s - 1\<rparr>"
  have others: "session_ok (refs - {#a#}) subs b t" if "b \<noteq> a" "rx_heap w b = Some t" for b t
    using that inv by (subst session_ok_count [of _ _ refs]) auto
  show ?thesis
  proof (cases "count refs a = 1 \<and> rx_subs s = []")
    case True
    then have gone: "rx_refcount s' \<le> 0" using cnt by (simp add: s'_def)
    define w' where "w' = w\<lparr>rx_heap := (rx_heap w)(a := None), rx_registry := erase_first (\<lambda>b. b = a) (rx_registry w)\<rparr>"
    have erase: "erase_first (\<lambda>b. b = a) xs = remove1 a xs" for xs by (induction xs) auto
    have "a \<notin># refs - {#a#}" using True by (simp add: not_in_iff)
    then have "set_mset (refs - {#a#}) \<subseteq> dom (rx_heap w) - {a}"
      using inv by (auto dest: in_diffD)
    moreover have "fst ` set subs \<subseteq> dom (rx_heap w) - {a}" using True nosub inv by auto
    moreover have "one_per_token ((rx_heap w)(a := None))"
      using inv unfolding one_per_token_def by (auto split: if_splits)
    moreover have "set (remove1 a (rx_registry w)) = dom (rx_heap w) - {a}" using inv by simp
    ultimately have "rx_ok w' (refs - {#a#}) subs"
      using inv others unfolding rx_ok_def w'_def by (simp add: erase distinct_remove1)
    with gone s True nosub show ?thesis
      by (simp add: tether_receive_session_release_def s'_def w'_def Let_def)
  next
    case False
    have more: "1 < count refs a + length (rx_subs s)"
      using False pos by (cases "rx_subs s") (simp_all del: count_greater_zero_iff)
    then have alive: "\<not> rx_refcount s' \<le> 0" using cnt by (simp add: s'_def)
    define w' where "w' = w\<lparr>rx_heap := (rx_heap w)(a \<mapsto> s')\<rparr>"
    have "session_ok (refs - {#a#}) subs a s'"
      using sok pos more by (auto simp: session_ok_def s'_def)
    with others have "session_ok (refs - {#a#}) subs b t" if "((rx_heap w)(a \<mapsto> s')) b = Some t" for b t
      using that by (cases "b = a") auto
    moreover have "one_per_token ((rx_heap w)(a \<mapsto> s'))"
      using inv s by (intro one_per_token_update [of _ a s]) (auto simp: s'_def)
    moreover have d: "dom ((rx_heap w)(a \<mapsto> s')) = dom (rx_heap w)" using s by auto
    moreover have "set_mset (refs - {#a#}) \<subseteq> dom (rx_heap w)" using inv by (auto dest: in_diffD)
    ultimately have "rx_ok w' (refs - {#a#}) subs"
      using inv unfolding rx_ok_def w'_def by (simp del: dom_fun_upd fun_upd_apply)
    moreover have "\<not> (count refs a = 1 \<and> a \<notin> fst ` set subs)" using False nosub by auto
    ultimately show ?thesis using alive s d
      by (auto simp: tether_receive_session_release_def s'_def w'_def Let_def simp del: dom_fun_upd)
  qed
qed

lemma rx_subscribe_ok:
  assumes ok: "rx_ok w refs subs" and a: "a \<in># refs"
  shows "\<exists>w' outs. tether_receive_session_subscribe v au st user (Some a) w = Some (w', Some (a, rx_next w), outs) \<and>
    rx_ok w' refs (subs @ [(a, rx_next w)]) \<and> dom (rx_heap w') = dom (rx_heap w) \<and>
    outs = (if st then [SubState user (rx_state (the (rx_heap w a)))] else [])"
proof -
  note inv = ok [unfolded rx_ok_def]
  then obtain s where s: "rx_heap w a = Some s" using a by blast
  with inv have sok: "session_ok refs subs a s" by blast
  define s' where "s' = s\<lparr>rx_subs := rx_subs s @ [\<lparr>sub_addr = rx_next w, sub_on_video = v, sub_on_audio = au,
    sub_on_state = st, sub_user = user\<rparr>], rx_refcount := rx_refcount s + 1\<rparr>"
  define w' where "w' = w\<lparr>rx_heap := (rx_heap w)(a \<mapsto> s'), rx_next := rx_next w + 1\<rparr>"
  have "session_ok refs (subs @ [(a, rx_next w)]) b t" if "((rx_heap w)(a \<mapsto> s')) b = Some t" for b t
  proof (cases "b = a")
    case True
    with that sok show ?thesis by (auto simp: session_ok_def s'_def)
  next
    case False
    with that inv have "session_ok refs subs b t" by simp
    with False show ?thesis by (simp add: session_ok_def)
  qed
  moreover have "one_per_token ((rx_heap w)(a \<mapsto> s'))"
    using inv s by (intro one_per_token_update [of _ a s]) (auto simp: s'_def)
  moreover have d: "dom ((rx_heap w)(a \<mapsto> s')) = dom (rx_heap w)" using s by auto
  moreover have "rx_next w \<notin> snd ` set subs" using inv by auto
  moreover have "a \<in> dom (rx_heap w)" using s by auto
  ultimately have "rx_ok w' refs (subs @ [(a, rx_next w)])"
    using inv unfolding rx_ok_def w'_def by (auto simp: less_Suc_eq simp del: dom_fun_upd fun_upd_apply)
  with s d show ?thesis
    by (simp add: tether_receive_session_subscribe_def w'_def s'_def Let_def tether_receive_session_state_def
        del: dom_fun_upd)
qed

lemma map_erase_first: "map k (erase_first (\<lambda>x. k x = i) xs) = remove1 i (map k xs)"
  by (induction xs) auto

lemma remove_nth_split:
  "k < length xs \<Longrightarrow> \<exists>ys zs. xs = ys @ xs ! k # zs \<and> remove_nth k xs = ys @ zs"
  by (metis id_take_nth_drop remove_nth_def)

text \<open>An unsubscription turns the subscription into a reference and gives that back.\<close>

lemma rx_unsubscribe_ok:
  assumes ok: "rx_ok w refs subs" and k: "k < length subs"
  shows "\<exists>w' outs. tether_receive_session_unsubscribe (Some (subs ! k)) w = Some (w', outs) \<and>
    rx_ok w' refs (remove_nth k subs)"
proof -
  note inv = ok [unfolded rx_ok_def]
  obtain a i where ai: "subs ! k = (a, i)" by fastforce
  obtain ys zs where split: "subs = ys @ (a, i) # zs" "remove_nth k subs = ys @ zs"
    using remove_nth_split [OF k] ai by metis
  have ad: "a \<in> dom (rx_heap w)" using inv split(1) by auto
  then obtain s where s: "rx_heap w a = Some s" by blast
  with inv have sok: "session_ok refs subs a s" by blast
  have dist: "distinct (map snd subs)" using inv by blast
  have ids: "map sub_addr (rx_subs s) = map snd (filter (\<lambda>p. fst p = a) ys) @ i # map snd (filter (\<lambda>p. fst p = a) zs)"
    using sok split(1) by (simp add: session_ok_def)
  have out: "i \<notin> snd ` set (filter (\<lambda>p. fst p = a) ys)" using dist split(1) by auto
  define s' where "s' = s\<lparr>rx_subs := erase_first (has_sub_addr i) (rx_subs s)\<rparr>"
  have erased: "map sub_addr (rx_subs s') = map snd (filter (\<lambda>p. fst p = a) (ys @ zs))"
    using out ids by (simp add: s'_def has_sub_addr_def [abs_def] map_erase_first remove1_append)
  have "length (map sub_addr (rx_subs s')) + 1 = length (map sub_addr (rx_subs s))" unfolding erased ids by simp
  then have len: "length (rx_subs s') + 1 = length (rx_subs s)" by simp
  have found: "find (has_sub_addr i) (rx_subs s) \<noteq> None"
  proof -
    have "i \<in> set (map sub_addr (rx_subs s))" unfolding ids by simp
    then show ?thesis by (auto simp: find_None_iff has_sub_addr_def)
  qed
  define w1 where "w1 = w\<lparr>rx_heap := (rx_heap w)(a \<mapsto> s')\<rparr>"
  have "session_ok (add_mset a refs) (ys @ zs) b t" if "((rx_heap w)(a \<mapsto> s')) b = Some t" for b t
  proof (cases "b = a")
    case True
    have "rx_refcount s' = rx_refcount s" by (simp add: s'_def)
    moreover have "t = s'" using that True by simp
    ultimately show ?thesis using sok erased len True by (auto simp: session_ok_def)
  next
    case False
    with that inv have "session_ok refs subs b t" by simp
    with False split(1) show ?thesis by (simp add: session_ok_def)
  qed
  moreover have "one_per_token ((rx_heap w)(a \<mapsto> s'))"
    using inv s by (intro one_per_token_update [of _ a s]) (auto simp: s'_def)
  moreover have "dom ((rx_heap w)(a \<mapsto> s')) = dom (rx_heap w)" using s by auto
  ultimately have "rx_ok w1 (add_mset a refs) (ys @ zs)"
    using inv ad split(1) unfolding rx_ok_def w1_def by (auto simp del: dom_fun_upd fun_upd_apply)
  from rx_release_ok [OF this, of a] obtain w' outs where
    "tether_receive_session_release (Some a) w1 = Some (w', outs)" "rx_ok w' refs (ys @ zs)" by auto
  with s found ai split(2) show ?thesis
    by (simp add: tether_receive_session_unsubscribe_def w1_def s'_def)
qed

lemma bump_all_ok:
  "rx_ok w refs subs \<Longrightarrow> set as \<subseteq> dom (rx_heap w) \<Longrightarrow>
    \<exists>w'. bump_all as w = Some w' \<and> rx_ok w' (refs + mset as) subs \<and> dom (rx_heap w') = dom (rx_heap w)"
proof (induction as arbitrary: w refs)
  case (Cons a as)
  then obtain s where s: "rx_heap w a = Some s" by auto
  define w1 where "w1 = w\<lparr>rx_heap := (rx_heap w)(a \<mapsto> s\<lparr>rx_refcount := rx_refcount s + 1\<rparr>)\<rparr>"
  have "rx_ok w1 (add_mset a refs) subs" unfolding w1_def by (rule rx_ok_get_old [OF Cons.prems(1) s])
  moreover have d: "dom (rx_heap w1) = dom (rx_heap w)" using s by (auto simp: w1_def)
  ultimately obtain w' where "bump_all as w1 = Some w'" "rx_ok w' (add_mset a refs + mset as) subs"
      "dom (rx_heap w') = dom (rx_heap w1)"
    using Cons.IH [of w1 "add_mset a refs"] Cons.prems(2) by auto
  with s d show ?case by (simp add: w1_def)
qed auto

lemma release_all_ok:
  "rx_ok w (refs + mset as) subs \<Longrightarrow> \<exists>w' outs. release_all as w = Some (w', outs) \<and> rx_ok w' refs subs"
proof (induction as arbitrary: w)
  case (Cons a as)
  from rx_release_ok [OF Cons.prems, of a] obtain w1 o1 where
    "tether_receive_session_release (Some a) w = Some (w1, o1)" "rx_ok w1 (refs + mset as) subs" by auto
  with Cons.IH [of w1] show ?case by auto
qed simp

section \<open>The registry as a machine\<close>

text \<open>
  The calls of an event, made at once, are what the event of the whole session puts out
  (\<^const>\<open>rx_rtc_event\<close>, \<^const>\<open>rx_socket_event\<close>): splitting it loses nothing.
\<close>

definition calls_of :: "rx_subscription list \<Rightarrow> rx_media list \<Rightarrow> rx_out list" where
  "calls_of bs ms = concat (map (\<lambda>m. concat (map (\<lambda>b. call_sub b m) bs)) ms)"

definition fans :: "(rx_session \<Rightarrow> rx_session \<times> rx_out list) \<Rightarrow> bool" where
  "fans ev \<longleftrightarrow> (\<forall>s bs. fst (ev (s\<lparr>rx_subs := bs\<rparr>)) = (fst (ev s))\<lparr>rx_subs := bs\<rparr>) \<and>
     (\<forall>s. rx_subs (fst (ev s)) = rx_subs s) \<and>
     (\<forall>s. filter (\<lambda>out. media_of out \<noteq> None) (snd (ev s)) = calls_of (rx_subs s) (announced ev s))"

lemma calls_of_simps [simp]: "calls_of bs [] = []" "calls_of bs (ms @ ns) = calls_of bs ms @ calls_of bs ns"
  by (simp_all add: calls_of_def)

lemma media_map:
  "map (\<lambda>b. SubState (sub_user b) st) (filter sub_on_state bs) = calls_of bs [MediaState st]"
  "map (\<lambda>b. SubVideo (sub_user b) dat mid) (filter sub_on_video bs) = calls_of bs [MediaVideo dat mid]"
  "map (\<lambda>b. SubAudio (sub_user b) dat rate ch mid) (filter sub_on_audio bs) = calls_of bs [MediaAudio dat rate ch mid]"
  by (induction bs) (simp_all add: calls_of_def)

lemma calls_are_media: "list_all (\<lambda>out. media_of out \<noteq> None) (calls_of bs ms)"
proof (induction ms)
  case (Cons m ms)
  have "list_all (\<lambda>out. media_of out \<noteq> None) (call_sub b m)" for b by (cases m) simp_all
  then show ?case using Cons by (force simp: calls_of_def list_all_iff)
qed (simp add: calls_of_def)

lemma filter_calls [simp]: "filter (\<lambda>out. \<exists>y. media_of out = Some y) (calls_of bs ms) = calls_of bs ms"
  using calls_are_media [of bs ms] by (simp add: list_all_iff filter_id_conv)

lemma listener_listens [simp]: "sub_on_state listener" "sub_on_video listener" "sub_on_audio listener"
  by (simp_all add: listener_def)

lemma listener_hears [simp]: "List.map_filter media_of (calls_of [listener] ms) = ms"
proof (induction ms)
  case (Cons m ms)
  then show ?case by (cases m) (simp_all add: calls_of_def listener_def map_filter_simps)
qed (simp add: calls_of_def map_filter_simps)

lemma no_media [simp]:
  "filter (\<lambda>out. media_of out \<noteq> None) (map RxSig outs) = []" "filter (\<lambda>out. media_of out \<noteq> None) (map RxWr outs') = []"
  "List.map_filter media_of (map RxSig outs) = []" "List.map_filter media_of (map RxWr outs') = []"
  by (induction outs) (simp_all add: map_filter_simps, induction outs', simp_all add: map_filter_simps)

lemma map_filter_append [simp]: "List.map_filter f (xs @ ys) = List.map_filter f xs @ List.map_filter f ys"
  by (simp add: List.map_filter_def)

lemma fansI:
  assumes "\<And>s bs. fst (ev (s\<lparr>rx_subs := bs\<rparr>)) = (fst (ev s))\<lparr>rx_subs := bs\<rparr>" and "\<And>s. rx_subs (fst (ev s)) = rx_subs s"
    and "\<And>s. filter (\<lambda>out. media_of out \<noteq> None) (snd (ev s)) = calls_of (rx_subs s) (announced ev s)"
  shows "fans ev"
  using assms by (simp add: fans_def)

lemma fans_seq:
  assumes f: "fans f" and g: "fans g"
  shows "fans (\<lambda>s. case f s of (s1, o1) \<Rightarrow> case g s1 of (s2, o2) \<Rightarrow> (s2, o1 @ o2))" (is "fans ?h")
proof (rule fansI)
  have h: "fst (?h s) = fst (g (fst (f s)))" "snd (?h s) = snd (f s) @ snd (g (fst (f s)))" for s
    by (auto split: prod.splits)
  show "fst (?h (s\<lparr>rx_subs := bs\<rparr>)) = (fst (?h s))\<lparr>rx_subs := bs\<rparr>" for s bs
    unfolding h using f g by (simp add: fans_def)
  show "rx_subs (fst (?h s)) = rx_subs s" for s unfolding h using f g by (simp add: fans_def)
  have a: "announced ?h s = announced f s @ announced g (fst (f s))" for s
    unfolding announced_def h using f by (simp add: fans_def)
  show "filter (\<lambda>out. media_of out \<noteq> None) (snd (?h s)) = calls_of (rx_subs s) (announced ?h s)" for s
    unfolding h a using f g by (simp add: fans_def)
qed

lemma fans_pure:
  assumes "\<And>s bs. out_of (s\<lparr>rx_subs := bs\<rparr>) = out_of s" and "\<And>s. filter (\<lambda>out. media_of out \<noteq> None) (out_of s) = []"
    and "\<And>s. List.map_filter media_of (out_of s) = []"
  shows "fans (\<lambda>s. (s, out_of s))"
  using assms by (intro fansI) (simp_all add: announced_def)

lemma fans_set_state: "fans (rx_set_state st)"
  by (intro fansI) (simp_all add: rx_set_state_def announced_def media_map map_filter_simps)

lemma fans_wrtc_state: "fans (wrtc_state_cb st)"
proof -
  have "wrtc_state_cb st = rx_set_state (case st of TETHER_WRTC_STATE_NEW \<Rightarrow> TETHER_RX_STATE_NEGOTIATING
      | TETHER_WRTC_STATE_CONNECTING \<Rightarrow> TETHER_RX_STATE_NEGOTIATING | TETHER_WRTC_STATE_CONNECTED \<Rightarrow> TETHER_RX_STATE_CONNECTED
      | TETHER_WRTC_STATE_FAILED \<Rightarrow> TETHER_RX_STATE_FAILED | TETHER_WRTC_STATE_CLOSED \<Rightarrow> TETHER_RX_STATE_CLOSED)"
    by (cases st) (auto simp: fun_eq_iff)
  then show ?thesis by (simp add: fans_set_state)
qed

lemma fans_media: "fans (wrtc_video_cb now dat mid)" "fans (wrtc_audio_cb now dat mid)"
  by (intro fansI; simp add: wrtc_video_cb_def wrtc_audio_cb_def remember_mid_locked_def announced_def
        media_map map_filter_simps Let_def)+

lemma fans_deliver_wr: "fans (rx_deliver_wr now outs)"
proof (induction outs)
  case Nil
  have "rx_deliver_wr now [] = (\<lambda>s. (s, []))" by (simp add: fun_eq_iff)
  with fans_pure [of "\<lambda>s. []"] show ?case by (simp add: map_filter_simps)
next
  case (Cons out os)
  define f where "f s = (case out of
         OnLocalSdp ty sdp \<Rightarrow> (s, wrtc_local_sdp ty sdp s)
       | OnLocalIce cand mid mline \<Rightarrow> (s, wrtc_local_ice cand mid mline s)
       | OnState st \<Rightarrow> wrtc_state_cb st s
       | OnVideo dat tid mid \<Rightarrow> wrtc_video_cb now dat mid s
       | OnAudio dat tid mid \<Rightarrow> wrtc_audio_cb now dat mid s
       | _ \<Rightarrow> (s, [RxWr out]))" for s
  have other: "fans (\<lambda>s. (s, [RxWr out]))" by (rule fans_pure) (simp_all add: map_filter_simps)
  have sdp: "fans (\<lambda>s. (s, wrtc_local_sdp ty x s))" "fans (\<lambda>s. (s, wrtc_local_ice c m l s))" for ty x c m l
    by (rule fans_pure; simp add: wrtc_local_sdp_def wrtc_local_ice_def)+
  have "fans f"
    unfolding f_def [abs_def] using other sdp fans_wrtc_state fans_media by (cases out) simp_all
  from fans_seq [OF this Cons.IH] show ?case by (simp add: f_def [abs_def] fun_eq_iff cong: prod.case_cong)
qed

lemma fans_signaling_event: "fans (rx_signaling_event rc rc2 evt payload)"
  by (intro fansI; cases evt)
     (auto simp: announced_def rx_set_state_def media_map map_filter_simps split: option.splits prod.splits)

lemma fans_deliver_sig: "fans (rx_deliver_sig rc rc2 outs)"
proof (induction outs)
  case Nil
  have "rx_deliver_sig rc rc2 [] = (\<lambda>s. (s, []))" by (simp add: fun_eq_iff)
  with fans_pure [of "\<lambda>s. []"] show ?case by (simp add: map_filter_simps)
next
  case (Cons out os)
  show ?case
  proof (cases "\<exists>evt pid payload. out = Emit evt pid payload")
    case True
    then obtain evt pid payload where "out = Emit evt pid payload" by blast
    with fans_seq [OF fans_signaling_event [of rc rc2 evt payload] Cons.IH] show ?thesis by (simp add: fun_eq_iff)
  next
    case False
    then have e: "rx_deliver_sig rc rc2 (out # os) = (\<lambda>s. case (s, [RxSig out]) of (s1, o1) \<Rightarrow>
        case rx_deliver_sig rc rc2 os s1 of (s2, o2) \<Rightarrow> (s2, o1 @ o2))"
      by (cases out) (auto simp: fun_eq_iff)
    have "fans (\<lambda>s. (s, [RxSig out]))" by (rule fans_pure) (simp_all add: map_filter_simps)
    from fans_seq [OF this Cons.IH] show ?thesis unfolding e .
  qed
qed

lemma session_event_split:
  "filter (\<lambda>out. media_of out \<noteq> None) (snd (rx_rtc_event now cb s)) = calls_of (rx_subs s) (announced (rx_rtc_event now cb) s)"
  "filter (\<lambda>out. media_of out \<noteq> None) (snd (rx_socket_event rc rc2 op s)) =
     calls_of (rx_subs s) (announced (rx_socket_event rc rc2 op) s)"
proof -
  obtain w' wo where w: "wr_callback cb (rx_wrtc s) = (w', wo)" by fastforce
  have "rx_rtc_event now cb (s\<lparr>rx_subs := bs\<rparr>) = rx_deliver_wr now wo ((s\<lparr>rx_wrtc := w'\<rparr>)\<lparr>rx_subs := bs\<rparr>)" for bs
    using w by (cases s) (simp add: rx_rtc_event_def)
  then have "announced (rx_rtc_event now cb) s = announced (rx_deliver_wr now wo) (s\<lparr>rx_wrtc := w'\<rparr>)"
    by (simp only: announced_def)
  with fans_deliver_wr [of now wo] w
  show "filter (\<lambda>out. media_of out \<noteq> None) (snd (rx_rtc_event now cb s)) = calls_of (rx_subs s) (announced (rx_rtc_event now cb) s)"
    by (simp add: fans_def rx_rtc_event_def)
  obtain g' go where g: "sig_call op (rx_sig s) = (g', go)" by fastforce
  have "rx_socket_event rc rc2 op (s\<lparr>rx_subs := bs\<rparr>) = rx_deliver_sig rc rc2 go ((s\<lparr>rx_sig := g'\<rparr>)\<lparr>rx_subs := bs\<rparr>)" for bs
    using g by (cases s) (simp add: rx_socket_event_def)
  then have "announced (rx_socket_event rc rc2 op) s = announced (rx_deliver_sig rc rc2 go) (s\<lparr>rx_sig := g'\<rparr>)"
    by (simp only: announced_def)
  with fans_deliver_sig [of rc rc2 go] g
  show "filter (\<lambda>out. media_of out \<noteq> None) (snd (rx_socket_event rc rc2 op s)) =
     calls_of (rx_subs s) (announced (rx_socket_event rc rc2 op) s)"
    by (simp add: fans_def rx_socket_event_def)
qed

definition run_ok :: "rx_run \<Rightarrow> bool" where
  "run_ok r \<longleftrightarrow> rx_ok (rw_world r) (mset (rw_refs r)) (rw_subs r) \<and> fst ` set (rw_calls r) \<subseteq> set (rw_subs r)"

lemma run_okD:
  "run_ok r \<Longrightarrow> rx_ok (rw_world r) (mset (rw_refs r)) (rw_subs r)" "run_ok r \<Longrightarrow> fst ` set (rw_calls r) \<subseteq> set (rw_subs r)"
  by (simp_all add: run_ok_def)

lemma mset_remove_nth:
  assumes "k < length xs"
  shows "mset (remove_nth k xs) = mset xs - {#xs ! k#}"
proof -
  obtain ys zs where "xs = ys @ xs ! k # zs" and r: "remove_nth k xs = ys @ zs" using remove_nth_split [OF assms] by blast
  then have "mset xs = add_mset (xs ! k) (mset (ys @ zs))" by (metis mset_append mset.simps(2) union_mset_add_mset_right)
  with r show ?thesis by simp
qed

lemma set_remove_nth:
  assumes "k < length xs"
  shows "set xs - {xs ! k} \<subseteq> set (remove_nth k xs)"
proof -
  obtain ys zs where x: "xs = ys @ xs ! k # zs" and r: "remove_nth k xs = ys @ zs" using remove_nth_split [OF assms] by blast
  have "set xs = insert (xs ! k) (set ys \<union> set zs)" by (subst x) simp
  with r show ?thesis by auto
qed

lemma set_remove_nth_sub: "set (remove_nth k xs) \<subseteq> set xs"
  by (auto simp: remove_nth_def dest: in_set_takeD in_set_dropD)

text \<open>A subscription that is held is in a live session.\<close>

lemma held_sub_found:
  assumes "rx_ok w refs subs" and "(a, i) \<in> set subs"
  shows "\<exists>s b. rx_heap w a = Some s \<and> find (has_sub_addr i) (rx_subs s) = Some b"
proof -
  obtain s where s: "rx_heap w a = Some s" using assms by (fastforce simp: rx_ok_def)
  with assms(1) have "map sub_addr (rx_subs s) = map snd (filter (\<lambda>p. fst p = a) subs)"
    by (simp add: rx_ok_def session_ok_def)
  moreover have "i \<in> set (map snd (filter (\<lambda>p. fst p = a) subs))" using assms(2) by force
  ultimately have "i \<in> set (map sub_addr (rx_subs s))" by metis
  then have "find (has_sub_addr i) (rx_subs s) \<noteq> None" by (auto simp: find_None_iff has_sub_addr_def)
  with s show ?thesis by blast
qed

lemma rx_network_ok:
  assumes ok: "run_ok r" and "rx_heap (rw_world r) a \<noteq> None" and core: "\<And>s. rx_core (fst (ev s)) = rx_core s"
  shows "\<exists>r' outs. rx_network a ev r = Some (r', outs) \<and> run_ok r'"
proof -
  obtain s where s: "rx_heap (rw_world r) a = Some s" using assms(2) by blast
  obtain s' outs where ev: "ev s = (s', outs)" by fastforce
  with core [of s] have "rx_core s' = rx_core s" by simp
  note rx_ok_core [OF run_okD(1) [OF ok] s this]
  moreover have "fst ` set (copied a s ms) \<subseteq> set (rw_subs r)" for ms
  proof -
    have "map sub_addr (rx_subs s) = map snd (filter (\<lambda>p. fst p = a) (rw_subs r))"
      using run_okD(1) [OF ok] s by (simp add: rx_ok_def session_ok_def)
    then have "(a, sub_addr b) \<in> set (rw_subs r)" if "b \<in> set (rx_subs s)" for b
    proof -
      have "sub_addr b \<in> set (map snd (filter (\<lambda>p. fst p = a) (rw_subs r)))"
        using that \<open>map sub_addr (rx_subs s) = _\<close> by (metis image_eqI list.set_map)
      then show ?thesis by auto
    qed
    then show ?thesis by (auto simp: copied_def)
  qed
  ultimately show ?thesis using s ev run_okD(2) [OF ok] by (auto simp: rx_network_def run_ok_def)
qed

lemma rx_follow_ok:
  assumes ok: "run_ok r" and k: "k < length (rw_calls r)"
  shows "\<exists>r' outs. rx_follow k r = Some (r', outs) \<and> run_ok r'"
proof -
  obtain a i m where c: "rw_calls r ! k = ((a, i), m)" by (metis surj_pair)
  have "rw_calls r ! k \<in> set (rw_calls r)" using k by simp
  with c run_okD(2) [OF ok] have "(a, i) \<in> set (rw_subs r)" by force
  from held_sub_found [OF run_okD(1) [OF ok] this] c set_remove_nth_sub [of k "rw_calls r"] ok show ?thesis
    by (fastforce simp: rx_follow_def run_ok_def)
qed

lemma rx_call_ok:
  assumes ok: "run_ok r" and pm: "rx_permitted op r"
  shows "\<exists>r' outs. rx_call op r = Some (r', outs) \<and> run_ok r'"
proof (cases op)
  case (RxGet env pc ws token)
  from rx_get_ok [OF run_okD(1) [OF ok], of env pc ws token] obtain w' p outs where
    "tether_receive_session_get env pc ws token (rw_world r) = Some (w', p, outs)"
    "rx_ok w' (mset (rw_refs r) + (case p of None \<Rightarrow> {#} | Some a \<Rightarrow> {#a#})) (rw_subs r)" by blast
  with RxGet ok show ?thesis by (auto simp: run_ok_def split: option.splits)
next
  case (RxRelease k)
  show ?thesis
  proof (cases "k < length (rw_refs r)")
    case True
    then have "rw_refs r ! k \<in># mset (rw_refs r)" by simp
    from rx_release_ok [OF run_okD(1) [OF ok] this] True RxRelease ok show ?thesis
      by (auto simp: run_ok_def mset_remove_nth)
  qed (use RxRelease ok in simp)
next
  case (RxSubscribe k v a st user)
  show ?thesis
  proof (cases "k < length (rw_refs r)")
    case True
    then have "rw_refs r ! k \<in># mset (rw_refs r)" by simp
    from rx_subscribe_ok [OF run_okD(1) [OF ok] this, of v a st user] True RxSubscribe run_okD(2) [OF ok] show ?thesis
      by (fastforce simp: run_ok_def)
  qed (use RxSubscribe ok in simp)
next
  case (RxUnsubscribe k)
  show ?thesis
  proof (cases "k < length (rw_subs r)")
    case True
    have "fst ` set (rw_calls r) \<subseteq> set (rw_subs r) - {rw_subs r ! k}"
      using run_okD(2) [OF ok] pm True RxUnsubscribe by (simp add: subset_Diff_insert)
    with set_remove_nth [OF True] have "fst ` set (rw_calls r) \<subseteq> set (remove_nth k (rw_subs r))" by blast
    with rx_unsubscribe_ok [OF run_okD(1) [OF ok] True] True RxUnsubscribe show ?thesis by (auto simp: run_ok_def)
  qed (use RxUnsubscribe ok in simp)
next
  case (RxSocket a rc rc2 sop)
  with rx_network_ok [OF ok, of a "rx_socket_event rc rc2 sop"] pm rx_event_core(1) show ?thesis by simp
next
  case (RxRtc a now cb)
  with rx_network_ok [OF ok, of a "rx_rtc_event now cb"] pm rx_event_core(2) show ?thesis by simp
next
  case (RxDeliver k)
  with rx_follow_ok [OF ok, of k] ok show ?thesis by auto
next
  case RxEnumerate
  have "set (rx_registry (rw_world r)) \<subseteq> dom (rx_heap (rw_world r))"
    using ok by (simp add: run_ok_def rx_ok_def)
  from bump_all_ok [OF run_okD(1) [OF ok] this] obtain w1 where w1:
    "bump_all (rx_registry (rw_world r)) (rw_world r) = Some w1"
    "rx_ok w1 (mset (rw_refs r) + mset (rx_registry (rw_world r))) (rw_subs r)" by blast
  from release_all_ok [OF w1(2)] w1(1) RxEnumerate run_okD(2) [OF ok] show ?thesis
    by (auto simp: tether_receive_session_enumerate_def run_ok_def)
qed

lemma rx_run_ok:
  "rx_orderly ops r \<Longrightarrow> run_ok r \<Longrightarrow> \<exists>r' outs. rx_run_ops ops r = Some (r', outs) \<and> run_ok r'"
proof (induction ops arbitrary: r)
  case (Cons op ops)
  from Cons.prems(1) have "rx_permitted op r" by simp
  from rx_call_ok [OF Cons.prems(2) this] obtain r1 o1 where r1: "rx_call op r = Some (r1, o1)" "run_ok r1" by blast
  with Cons.prems(1) have "rx_orderly ops r1" by simp
  from Cons.IH [OF this r1(2)] r1(1) show ?case by fastforce
qed simp

text \<open>The code prevents nothing: once the subscription is given back, the pointer that was copied leads to freed memory.\<close>

lemma unsubscribe_in_flight_crashes:
  assumes ok: "run_ok r" and k: "k < length (rw_subs r)" and n: "n < length (rw_calls r)"
    and same: "fst (rw_calls r ! n) = rw_subs r ! k"
  shows "rx_run_ops [RxUnsubscribe k, RxDeliver n] r = None"
proof -
  obtain a i where h: "rw_subs r ! k = (a, i)" by fastforce
  from rx_unsubscribe_ok [OF run_okD(1) [OF ok] k] obtain w' outs where
    u: "tether_receive_session_unsubscribe (Some (rw_subs r ! k)) (rw_world r) = Some (w', outs)"
    and ok': "rx_ok w' (mset (rw_refs r)) (remove_nth k (rw_subs r))" by blast
  obtain ys zs where sp: "rw_subs r = ys @ (a, i) # zs" "remove_nth k (rw_subs r) = ys @ zs"
    using remove_nth_split [OF k] h by metis
  have "i \<notin> snd ` set (ys @ zs)" using run_okD(1) [OF ok] sp(1) by (auto simp: rx_ok_def)
  then have none: "find (has_sub_addr i) (rx_subs s) = None" if "rx_heap w' a = Some s" for s
  proof -
    assume out: "i \<notin> snd ` set (ys @ zs)"
    have "map sub_addr (rx_subs s) = map snd (filter (\<lambda>p. fst p = a) (ys @ zs))"
      using ok' that sp(2) by (simp add: rx_ok_def session_ok_def)
    then have "i \<notin> set (map sub_addr (rx_subs s))" using out by (auto simp del: map_eq_conv)
    then show ?thesis by (auto simp: find_None_iff has_sub_addr_def)
  qed
  obtain m where m: "rw_calls r ! n = ((a, i), m)" using same h by (metis prod.collapse)
  have "rx_follow n (r\<lparr>rw_world := w', rw_subs := remove_nth k (rw_subs r)\<rparr>) = None"
    using none m by (auto simp: rx_follow_def split: option.splits)
  with u k n show ?thesis by simp
qed

section \<open>The SDP on the wire\<close>

lemma unescape_escape_char: "sdp_unescape (escape_char c @ s) = c # sdp_unescape s"
  by (simp add: escape_char_def unescape_char_def)

lemma unescape_escape: "sdp_unescape (sdp_escape s) = s"
  by (induction s) (simp_all add: unescape_escape_char)

interpretation sdp: embedded_text sdp_escape value_len sdp_unescape "CHR 0x22"
  by unfold_locales (simp_all add: unescape_escape value_len_text)

lemma offered_sdp_object:
  assumes "object_ok fs" and "lookup_str fs ''sdp'' = Some (sdp_escape d)"
  shows "offered_sdp (print_object fs) = Some d"
proof -
  obtain c r where "after_key (print_object fs) ''sdp'' = Some (sdp_escape d @ CHR 0x22 # c # r)"
    using pattern_object [OF assms(1) key_ok_literals(4)] assms(2) by (auto simp: after_key_def)
  then show ?thesis unfolding offered_sdp_def by (simp only: option.map sdp.decode_embedded)
qed

lemma candidate_and_mid_object:
  assumes "object_ok fs" and "lookup_str fs ''candidate'' = Some c" and "lookup_str fs ''mid'' = Some m"
    and "CHR 0x22 \<notin> set c" and "CHR 0x22 \<notin> set m"
  shows "candidate_and_mid (print_object fs) = Some (c, m)"
proof -
  obtain c1 r1 where "after_key (print_object fs) ''candidate'' = Some (c @ CHR 0x22 # c1 # r1)"
    using pattern_object [OF assms(1) key_ok_literals(5)] assms(2) by (auto simp: after_key_def)
  moreover obtain c2 r2 where "after_key (print_object fs) ''mid'' = Some (m @ CHR 0x22 # c2 # r2)"
    using pattern_object [OF assms(1) key_ok_literals(6)] assms(3) by (auto simp: after_key_def)
  ultimately show ?thesis
    using assms(4,5) by (simp add: candidate_and_mid_def dup_span_def ptr_diff_def)
qed

section \<open>How the state moves\<close>

text \<open>The connection is under way.\<close>

definition under_way :: "rx_session \<Rightarrow> bool" where
  "under_way s \<longleftrightarrow> rx_state s \<in> {TETHER_RX_STATE_NEGOTIATING, TETHER_RX_STATE_CONNECTED}"

definition dead :: "rx_session \<Rightarrow> bool" where
  "dead s \<longleftrightarrow> rx_state s \<in> {TETHER_RX_STATE_FAILED, TETHER_RX_STATE_CLOSED}"

text \<open>How often a remote description was handed to the peer connection.\<close>

definition offers_applied :: "rx_out list \<Rightarrow> nat" where
  "offers_applied outs = length (filter (\<lambda>x. case x of RxWr (RtcSetRemoteDescription pc d ty) \<Rightarrow> True | _ \<Rightarrow> False) outs)"

lemma offers_applied_simps [simp]:
  "offers_applied [] = 0" "offers_applied (xs @ ys) = offers_applied xs + offers_applied ys"
  "offers_applied (map RxSig ss) = 0" "offers_applied (map (\<lambda>b. SubState (f b) st) bs) = 0"
  "offers_applied (map (\<lambda>b. SubVideo (f b) v m) bs) = 0"
  "offers_applied (map (\<lambda>b. SubAudio (f b) v rate ch m) bs) = 0"
  by (simp_all add: offers_applied_def comp_def)

lemma offers_applied_Cons: "offers_applied (x # xs) = offers_applied [x] + offers_applied xs"
  by (simp add: offers_applied_def)

text \<open>
  One handler keeps the bargain: a session that is under way stays so and applies nothing; another
  one applies at most one offer, and is under way if it did.
\<close>

definition bargain :: "rx_session \<Rightarrow> rx_session \<Rightarrow> rx_out list \<Rightarrow> bool" where
  "bargain s s' outs \<longleftrightarrow>
     (under_way s \<longrightarrow> under_way s' \<and> offers_applied outs = 0) \<and>
     offers_applied outs \<le> 1 \<and> (offers_applied outs = 1 \<longrightarrow> under_way s')"

lemma bargain_trans: "bargain s s1 o1 \<Longrightarrow> bargain s1 s2 o2 \<Longrightarrow> bargain s s2 (o1 @ o2)"
  by (auto simp: bargain_def)

lemma bargain_same: "rx_state s' = rx_state s \<Longrightarrow> offers_applied outs = 0 \<Longrightarrow> bargain s s' outs"
  by (auto simp: bargain_def under_way_def)

definition fatal_event :: "tether_signaling_event \<Rightarrow> bool" where
  "fatal_event evt \<longleftrightarrow> evt \<in> {TETHER_SIG_EVT_TOKEN_INVALID, TETHER_SIG_EVT_TOKEN_LOCKED_OUT}"

lemma apply_offer_count:
  "offers_applied (map RxWr (snd (tether_webrtc_apply_remote_sdp rc rc2 (Some w) (Some ty) (Some d)))) = 1"
  by (simp add: tether_webrtc_apply_remote_sdp_def Let_def offers_applied_def)

lemma add_ice_count: "offers_applied (map RxWr (snd (tether_webrtc_add_remote_ice rc w c m))) = 0"
  by (simp add: tether_webrtc_add_remote_ice_def offers_applied_def split: option.splits)

lemma signaling_event_bargain:
  assumes "rx_signaling_event rc rc2 evt payload s = (s', outs)" and "\<not> fatal_event evt"
  shows "bargain s s' outs"
proof (cases evt)
  case TETHER_SIG_EVT_REQUEST_ACCEPTED
  with assms show ?thesis by (auto simp: rx_set_state_def bargain_def under_way_def split: if_splits)
next
  case TETHER_SIG_EVT_SDP_OFFER
  with assms show ?thesis
    by (auto simp: rx_set_state_def bargain_def under_way_def apply_offer_count split: if_splits option.splits)
next
  case TETHER_SIG_EVT_ICE_CANDIDATE
  with assms show ?thesis by (auto intro!: bargain_same simp: add_ice_count split: option.splits)
qed (use assms in \<open>auto simp: fatal_event_def intro: bargain_same\<close>)

definition fatal_out :: "sig_out \<Rightarrow> bool" where
  "fatal_out x \<longleftrightarrow> (case x of Emit evt i p \<Rightarrow> fatal_event evt | _ \<Rightarrow> False)"

lemma deliver_sig_bargain:
  "rx_deliver_sig rc rc2 outs s = (s', os) \<Longrightarrow> \<forall>x \<in> set outs. \<not> fatal_out x \<Longrightarrow> bargain s s' os"
proof (induction rc rc2 outs s arbitrary: s' os rule: rx_deliver_sig.induct)
  case (1 rc rc2 s)
  then show ?case by (auto intro: bargain_same)
next
  case (2 rc rc2 evt pid payload ems s)
  obtain s2 o2 where e: "rx_signaling_event rc rc2 evt payload s = (s2, o2)" by fastforce
  obtain s3 o3 where d: "rx_deliver_sig rc rc2 ems s2 = (s3, o3)" by fastforce
  have "bargain s2 s3 o3" by (rule "2.IH" [OF e [symmetric] d]) (use "2.prems"(2) in simp)
  moreover have "bargain s s2 o2"
    by (rule signaling_event_bargain [OF e]) (use "2.prems"(2) in \<open>simp add: fatal_out_def\<close>)
  ultimately show ?case using "2.prems"(1) e d by (auto intro: bargain_trans)
qed (auto simp: bargain_def offers_applied_def split: prod.splits)

definition fatal_rtc :: "rtc_callback \<Rightarrow> bool" where
  "fatal_rtc cb \<longleftrightarrow> (\<exists>st. cb = RtcState st \<and> map_rtc_state st \<in> {TETHER_WRTC_STATE_FAILED, TETHER_WRTC_STATE_CLOSED})"

lemma remember_mid_state [simp]: "rx_state (remember_mid_locked m v s) = rx_state s"
  by (simp add: remember_mid_locked_def)

lemma wrtc_state_bargain:
  "wrtc_state_cb st s = (s', outs) \<Longrightarrow> st \<notin> {TETHER_WRTC_STATE_FAILED, TETHER_WRTC_STATE_CLOSED} \<Longrightarrow> bargain s s' outs"
  by (cases st) (auto simp: rx_set_state_def bargain_def under_way_def split: if_splits)

lemma wr_callback_single:
  "wr_callback cb w = (w', outs) \<Longrightarrow> outs = [] \<or>
    (\<exists>x. outs = [x] \<and> (case x of OnState st \<Rightarrow> \<exists>r. cb = RtcState r \<and> st = map_rtc_state r
       | OnLocalSdp _ _ \<Rightarrow> True | OnLocalIce _ _ _ \<Rightarrow> True | OnVideo _ _ _ \<Rightarrow> True | OnAudio _ _ _ \<Rightarrow> True | _ \<Rightarrow> False))"
  by (cases cb)
     (auto simp: on_state_change_def on_local_description_def on_local_candidate_def on_track_message_def Let_def
       split: option.splits if_splits)

lemma rtc_event_bargain:
  assumes "rx_rtc_event now cb s = (s', os)" and "\<not> fatal_rtc cb"
  shows "bargain s s' os"
proof -
  obtain w' outs where cb: "wr_callback cb (rx_wrtc s) = (w', outs)" by fastforce
  let ?t = "s\<lparr>rx_wrtc := w'\<rparr>"
  have del: "rx_deliver_wr now outs ?t = (s', os)" using assms(1) cb by (simp add: rx_rtc_event_def)
  have t: "bargain s ?t []" by (simp add: bargain_same)
  show ?thesis
  proof (cases "outs = []")
    case True
    with del t show ?thesis by simp
  next
    case False
    with wr_callback_single [OF cb] obtain x where x: "outs = [x]" and
      k: "case x of OnState st \<Rightarrow> \<exists>r. cb = RtcState r \<and> st = map_rtc_state r
       | OnLocalSdp _ _ \<Rightarrow> True | OnLocalIce _ _ _ \<Rightarrow> True | OnVideo _ _ _ \<Rightarrow> True | OnAudio _ _ _ \<Rightarrow> True | _ \<Rightarrow> False"
      by blast
    have "bargain ?t s' os"
    proof (cases x)
      case (OnState st)
      with k assms(2) have "st \<notin> {TETHER_WRTC_STATE_FAILED, TETHER_WRTC_STATE_CLOSED}"
        by (auto simp: fatal_rtc_def)
      moreover have "wrtc_state_cb st ?t = (s', os)" using del x OnState by (simp split: prod.splits)
      ultimately show ?thesis by (intro wrtc_state_bargain)
    qed (use del x k in \<open>auto simp: wrtc_local_sdp_def wrtc_local_ice_def wrtc_video_cb_def wrtc_audio_cb_def Let_def
        intro!: bargain_same\<close>)
    with bargain_trans [OF t this] show ?thesis by simp
  qed
qed

section \<open>The events of one session\<close>

datatype rx_event = RxSocketEvent int int sig_op | RxRtcEvent u64 rtc_callback

fun rx_session_step :: "rx_event \<Rightarrow> rx_session \<times> rx_out list \<Rightarrow> rx_session \<times> rx_out list" where
  "rx_session_step (RxSocketEvent rc rc2 op) (s, log) =
     (case rx_socket_event rc rc2 op s of (s', outs) \<Rightarrow> (s', log @ outs))"
| "rx_session_step (RxRtcEvent now cb) (s, log) =
     (case rx_rtc_event now cb s of (s', outs) \<Rightarrow> (s', log @ outs))"

text \<open>The token is refused, or the peer connection fails or closes.\<close>

definition fatal :: "rx_event \<Rightarrow> bool" where
  "fatal ev \<longleftrightarrow>
     (case ev of
        RxSocketEvent rc rc2 (SigReceived (Some m) n) \<Rightarrow>
          json_eq_str m ''type'' ''token_invalid'' \<or> json_eq_str m ''type'' ''token_locked_out''
      | RxRtcEvent now cb \<Rightarrow> fatal_rtc cb
      | _ \<Rightarrow> False)"

lemma emit_fatal: "x \<in> set (emit sig evt i p) \<Longrightarrow> \<not> fatal_event evt \<Longrightarrow> \<not> fatal_out x"
  by (auto simp: emit_def fatal_out_def split: if_splits)

lemma fatal_event_simps [simp]:
  "\<not> fatal_event TETHER_SIG_EVT_STATE_CHANGED" "\<not> fatal_event TETHER_SIG_EVT_TOKEN_ISSUED"
  "\<not> fatal_event TETHER_SIG_EVT_REQUEST_PENDING" "\<not> fatal_event TETHER_SIG_EVT_PEER_GONE"
  "\<not> fatal_event TETHER_SIG_EVT_REQUEST_ACCEPTED" "\<not> fatal_event TETHER_SIG_EVT_REQUEST_REJECTED"
  "\<not> fatal_event TETHER_SIG_EVT_SDP_OFFER" "\<not> fatal_event TETHER_SIG_EVT_SDP_ANSWER"
  "\<not> fatal_event TETHER_SIG_EVT_ICE_CANDIDATE"
  by (simp_all add: fatal_event_def)

lemma set_state_fatal: "x \<in> set (snd (Signaling.set_state sig st)) \<Longrightarrow> \<not> fatal_out x"
  by (auto simp: Signaling.set_state_def emit_def fatal_out_def split: if_splits)

lemma send_raw_fatal: "x \<in> set (send_raw sig j) \<Longrightarrow> \<not> fatal_out x"
  by (auto simp: send_raw_def fatal_out_def split: if_splits)

lemma handle_message_fatal:
  assumes "x \<in> set (snd (handle_message sig m))"
    and "\<not> json_eq_str m ''type'' ''token_invalid''" and "\<not> json_eq_str m ''type'' ''token_locked_out''"
  shows "\<not> fatal_out x"
  using assms by (auto simp: handle_message_def Let_def split: if_splits dest: emit_fatal)

lemma sig_call_fatal:
  assumes "x \<in> set (snd (sig_call op sig))" and "\<not> fatal (RxSocketEvent rc rc2 op)"
  shows "\<not> fatal_out x"
proof (cases op)
  case (SigReceived m n)
  with assms show ?thesis
    by (cases m) (auto simp: on_message_def fatal_def split: if_splits dest: handle_message_fatal)
next
  case (SigConnect ws)
  with assms show ?thesis
    by (auto simp: tether_signaling_connect_def Signaling.set_state_def emit_def fatal_out_def Let_def split: if_splits)
next
  case SigDisconnect
  with assms show ?thesis
    by (auto simp: tether_signaling_disconnect_def Signaling.set_state_def emit_def fatal_out_def Let_def split: if_splits)
next
  case SigOpened
  with assms show ?thesis
    by (auto simp: on_open_def Let_def split: prod.splits dest: send_raw_fatal)
       (metis set_state_fatal snd_conv)
qed (use assms in \<open>auto simp: on_closed_def on_error_def tether_signaling_accept_def tether_signaling_reject_def
  tether_signaling_revoke_token_def tether_signaling_send_sdp_def tether_signaling_send_ice_def
  split: option.splits dest: set_state_fatal send_raw_fatal\<close>)

definition offer_once :: "rx_session \<times> rx_out list \<Rightarrow> bool" where
  "offer_once x \<longleftrightarrow> offers_applied (snd x) \<le> 1 \<and> (offers_applied (snd x) = 1 \<longrightarrow> under_way (fst x))"

lemma bargain_offer_once: "offer_once (s, log) \<Longrightarrow> bargain s s' outs \<Longrightarrow> offer_once (s', log @ outs)"
  by (auto simp: offer_once_def bargain_def le_Suc_eq)

interpretation rx_events: guarded_machine rx_session_step "\<lambda>ev. \<not> fatal ev" offer_once
proof
  fix ev x
  assume ok: "\<not> fatal ev" and inv: "offer_once x"
  obtain s log where x: "x = (s, log)" by fastforce
  show "offer_once (rx_session_step ev x)"
  proof (cases ev)
    case (RxSocketEvent rc rc2 op)
    obtain sig' outs where call: "sig_call op (rx_sig s) = (sig', outs)" by fastforce
    obtain s' os where del: "rx_deliver_sig rc rc2 outs (s\<lparr>rx_sig := sig'\<rparr>) = (s', os)" by fastforce
    have "\<forall>o1 \<in> set outs. \<not> fatal_out o1"
      using sig_call_fatal [of _ op "rx_sig s" rc rc2] call ok RxSocketEvent by simp
    then have "bargain (s\<lparr>rx_sig := sig'\<rparr>) s' os" by (rule deliver_sig_bargain [OF del])
    then have "bargain s s' os" by (simp add: bargain_def under_way_def)
    with bargain_offer_once [OF inv [unfolded x]] RxSocketEvent x call del show ?thesis
      by (simp add: rx_socket_event_def)
  next
    case (RxRtcEvent now cb)
    obtain s' os where ev': "rx_rtc_event now cb s = (s', os)" by fastforce
    have "bargain s s' os" by (rule rtc_event_bargain [OF ev']) (use ok RxRtcEvent in \<open>simp add: fatal_def\<close>)
    with bargain_offer_once [OF inv [unfolded x]] RxRtcEvent x ev' show ?thesis by simp
  qed
qed

section \<open>Properties\<close>

definition rx_start :: rx_run where
  "rx_start = \<lparr>rw_world = tether_receive_session_init
     \<lparr>rx_heap = Map.empty, rx_registry = [], rx_initialised = False, rx_next = 0\<rparr>, rw_refs = [], rw_subs = [], rw_calls = []\<rparr>"

lemma rx_start_ok: "run_ok rx_start"
  by (simp add: run_ok_def rx_ok_def rx_start_def tether_receive_session_init_def one_per_token_def)

text \<open>C4: references are balanced: as long as every client releases only what it holds, and takes no subscription
  back while a network thread still holds a copy of its pointer (the code does nothing to prevent that, see
  \<open>unsubscribe_in_flight_crashes\<close>), then in any run of gets, releases, subscriptions, unsubscriptions,
  enumerations, network events of live sessions and calls of subscribers, interleaved in any way, no operation
  touches freed memory: neither the client's nor a network thread's that follows the pointers it copied. A session
  is alive exactly as long as someone holds a reference or a subscription to it, its count is the number of both,
  no two live sessions have the same token, and every copied pointer is one of a subscription that is still held.\<close>

theorem references_balanced:
  assumes "rx_orderly ops rx_start"
  shows "\<exists>r outs. rx_run_ops ops rx_start = Some (r, outs) \<and>
    set (rx_registry (rw_world r)) = set (rw_refs r) \<union> fst ` set (rw_subs r) \<and>
    (\<forall>a. (a \<in> set (rw_refs r) \<union> fst ` set (rw_subs r)) = (rx_heap (rw_world r) a \<noteq> None)) \<and>
    list_all (\<lambda>a. rx_refcount (the (rx_heap (rw_world r) a)) =
      int (count_list (rw_refs r) a + length (filter (\<lambda>p. fst p = a) (rw_subs r)))) (rx_registry (rw_world r)) \<and>
    distinct (map (\<lambda>a. rx_token (the (rx_heap (rw_world r) a))) (rx_registry (rw_world r))) \<and>
    fst ` set (rw_calls r) \<subseteq> set (rw_subs r)"
proof -
  from rx_run_ok [OF assms rx_start_ok] obtain r outs where r: "rx_run_ops ops rx_start = Some (r, outs)" "run_ok r" by blast
  define w where "w = rw_world r"
  have ok: "rx_ok w (mset (rw_refs r)) (rw_subs r)" using r(2) by (simp add: run_ok_def w_def)
  note inv = ok [unfolded rx_ok_def]
  have sess: "session_ok (mset (rw_refs r)) (rw_subs r) a s" if "rx_heap w a = Some s" for a s
    using that inv by blast
  have count: "rx_refcount s = int (count_list (rw_refs r) a + length (filter (\<lambda>p. fst p = a) (rw_subs r)))"
    if "rx_heap w a = Some s" for a s
  proof -
    have "length (rx_subs s) = length (filter (\<lambda>p. fst p = a) (rw_subs r))"
      using sess [OF that] unfolding session_ok_def by (metis length_map)
    with sess [OF that] show ?thesis by (simp add: session_ok_def count_mset)
  qed
  have "a \<in> set (rw_refs r) \<union> fst ` set (rw_subs r)" if "rx_heap w a = Some s" for a s
  proof (rule ccontr)
    assume "a \<notin> set (rw_refs r) \<union> fst ` set (rw_subs r)"
    then have "count_list (rw_refs r) a = 0" "filter (\<lambda>p. fst p = a) (rw_subs r) = []"
      by (auto simp: count_list_0_iff filter_empty_conv)
    with count [OF that] sess [OF that] show False by (simp add: session_ok_def)
  qed
  then have alive: "set (rw_refs r) \<union> fst ` set (rw_subs r) = dom (rx_heap w)" using inv by auto
  have "list_all (\<lambda>a. rx_refcount (the (rx_heap w a)) =
      int (count_list (rw_refs r) a + length (filter (\<lambda>p. fst p = a) (rw_subs r)))) (rx_registry w)"
    using count inv by (auto simp: list_all_iff)
  moreover have "inj_on (\<lambda>a. rx_token (the (rx_heap w a))) (set (rx_registry w))"
  proof (rule inj_onI)
    fix a b assume "a \<in> set (rx_registry w)" "b \<in> set (rx_registry w)"
      and eq: "rx_token (the (rx_heap w a)) = rx_token (the (rx_heap w b))"
    then obtain s t where "rx_heap w a = Some s" "rx_heap w b = Some t" using inv by auto
    with eq inv show "a = b" unfolding one_per_token_def by simp
  qed
  then have "distinct (map (\<lambda>a. rx_token (the (rx_heap w a))) (rx_registry w))"
    using inv by (simp add: distinct_map)
  moreover have "set (rx_registry w) = dom (rx_heap w)" using inv by blast
  ultimately show ?thesis using r(1) alive run_okD(2) [OF r(2)] by (auto simp: w_def)
qed

text \<open>C9: one offer per session: from the creation of a session, whatever the network delivers, as long
  as the token is not refused and the peer connection neither fails nor closes, at most one remote
  description is ever applied, however often the sender repeats its offer, and once it has been, the
  session stays negotiating or connected: no repeated \<open>accepted\<close> rolls it back.\<close>

theorem one_offer_per_session:
  assumes "session_create_locked env pc ws t = (Some s, outs)" and "list_all (\<lambda>ev. \<not> fatal ev) evs"
    and "fold rx_session_step evs (s, []) = (s', log)"
  shows "offers_applied log \<le> 1 \<and> (offers_applied log = 1 \<longrightarrow> under_way s')"
proof -
  have "offer_once (s, [])" by (simp add: offer_once_def)
  with rx_events.guarded_run_inv [of evs "(s, [])"] assms(2,3) show ?thesis
    by (simp add: offer_once_def list_all_iff)
qed

definition demo_rx_sig :: tether_signaling where
  "demo_rx_sig = \<lparr>sig_cfg = rx_signaling_config ''TTHR-ABCD-EFGH-JKMN'', sig_server_url = tether_default_server_url,
     sig_display_name = ''Tether'', sig_token = Some ''TTHR-ABCD-EFGH-JKMN'', sig_ws = 7,
     sig_state = TETHER_SIG_STATE_CONNECTING\<rparr>"

definition demo_rx :: rx_session where
  "demo_rx = \<lparr>rx_token = ''TTHR-ABCD-EFGH-JKMN'', rx_refcount = 1, rx_sig = demo_rx_sig,
     rx_wrtc = \<lparr>wr_cfg = rx_webrtc_config, wr_pc = 1, wr_state = TETHER_WRTC_STATE_NEW, wr_tracks = [],
       wr_next_track_id = 1, wr_local_fingerprint = []\<rparr>,
     rx_state = TETHER_RX_STATE_AWAITING_ACCEPT, rx_subs = [], rx_seen_mids = [], rx_stats = no_stats\<rparr>"

lemma demo_normalised:
  "tether_token_normalise (Some ''TTHR-ABCD-EFGH-JKMN'') TETHER_TOKEN_BUF = (True, Some ''TTHR-ABCD-EFGH-JKMN'')"
  by code_simp

lemma demo_created: "\<exists>outs. session_create_locked demo_env 1 7 ''TTHR-ABCD-EFGH-JKMN'' = (Some demo_rx, outs)"
  by (simp add: session_create_locked_def demo_normalised tether_webrtc_create_def tether_signaling_create_def
      rx_signaling_config_def tether_signaling_connect_def Signaling.set_state_def emit_def demo_rx_def
      demo_rx_sig_def rx_set_state_def Let_def)

text \<open>
  A session is got and subscribed to, the reference is given back, the connection reports that it is
  connected, and the copied pointer is followed: the subscriber learns the state.
\<close>

definition demo_rx_ops :: "rx_op list" where
  "demo_rx_ops = [RxGet demo_env 1 7 (Some ''TTHR-ABCD-EFGH-JKMN''), RxSubscribe 0 True True True 5, RxRelease 0,
     RxRtc 0 9 (RtcState RTC_CONNECTED), RxDeliver 0]"

definition demo_rx_end :: rx_run where
  "demo_rx_end = \<lparr>rw_world = \<lparr>rx_heap = [0 \<mapsto> demo_rx\<lparr>rx_state := TETHER_RX_STATE_CONNECTED,
       rx_wrtc := (rx_wrtc demo_rx)\<lparr>wr_state := TETHER_WRTC_STATE_CONNECTED\<rparr>,
       rx_subs := [\<lparr>sub_addr = 1, sub_on_video = True, sub_on_audio = True, sub_on_state = True, sub_user = 5\<rparr>]\<rparr>],
     rx_registry = [0], rx_initialised = True, rx_next = 2\<rparr>, rw_refs = [], rw_subs = [(0, 1)], rw_calls = []\<rparr>"

lemma demo_rx_run:
  "rx_orderly demo_rx_ops rx_start" "\<exists>outs. rx_run_ops demo_rx_ops rx_start =
    Some (demo_rx_end, outs @ [SubState 5 TETHER_RX_STATE_AWAITING_ACCEPT, SubState 5 TETHER_RX_STATE_CONNECTED])"
proof -
  obtain outs where c: "session_create_locked demo_env 1 7 ''TTHR-ABCD-EFGH-JKMN'' = (Some demo_rx, outs)"
    using demo_created by blast
  let ?sub = "\<lparr>sub_addr = 1, sub_on_video = True, sub_on_audio = True, sub_on_state = True, sub_user = 5\<rparr>"
  let ?w1 = "\<lparr>rx_heap = [0 \<mapsto> demo_rx], rx_registry = [0], rx_initialised = True, rx_next = 1\<rparr>"
  let ?w2 = "\<lparr>rx_heap = [0 \<mapsto> demo_rx\<lparr>rx_subs := [?sub], rx_refcount := 2\<rparr>], rx_registry = [0],
    rx_initialised = True, rx_next = 2\<rparr>"
  let ?w3 = "?w2\<lparr>rx_heap := [0 \<mapsto> demo_rx\<lparr>rx_subs := [?sub]\<rparr>]\<rparr>"
  have rc: "rx_refcount demo_rx = 1" "rx_subs demo_rx = []" "rx_state demo_rx = TETHER_RX_STATE_AWAITING_ACCEPT"
    "demo_rx\<lparr>rx_subs := x, rx_refcount := 1\<rparr> = demo_rx\<lparr>rx_subs := x\<rparr>" for x by (simp_all add: demo_rx_def)
  have s1: "rx_call (RxGet demo_env 1 7 (Some ''TTHR-ABCD-EFGH-JKMN'')) rx_start =
      Some (\<lparr>rw_world = ?w1, rw_refs = [0], rw_subs = [], rw_calls = []\<rparr>, outs)"
    by (simp add: rx_start_def tether_receive_session_init_def tether_receive_session_get_def c)
  have s2: "rx_call (RxSubscribe 0 True True True 5) \<lparr>rw_world = ?w1, rw_refs = [0], rw_subs = [], rw_calls = []\<rparr> =
      Some (\<lparr>rw_world = ?w2, rw_refs = [0], rw_subs = [(0, 1)], rw_calls = []\<rparr>, [SubState 5 TETHER_RX_STATE_AWAITING_ACCEPT])"
    by (simp add: tether_receive_session_subscribe_def tether_receive_session_state_def rc)
  have s3: "rx_call (RxRelease 0) \<lparr>rw_world = ?w2, rw_refs = [0], rw_subs = [(0, 1)], rw_calls = []\<rparr> =
      Some (\<lparr>rw_world = ?w3, rw_refs = [], rw_subs = [(0, 1)], rw_calls = []\<rparr>, [])"
    by (simp add: tether_receive_session_release_def remove_nth_def rc)
  have ev: "rx_rtc_event 9 (RtcState RTC_CONNECTED) (demo_rx\<lparr>rx_subs := bs\<rparr>) =
      (demo_rx\<lparr>rx_state := TETHER_RX_STATE_CONNECTED,
         rx_wrtc := (rx_wrtc demo_rx)\<lparr>wr_state := TETHER_WRTC_STATE_CONNECTED\<rparr>, rx_subs := bs\<rparr>,
       map (\<lambda>b. SubState (sub_user b) TETHER_RX_STATE_CONNECTED) (filter sub_on_state bs))" for bs
    by (simp add: rx_rtc_event_def on_state_change_def demo_rx_def rx_webrtc_config_def rx_set_state_def)
  have an: "announced (rx_rtc_event 9 (RtcState RTC_CONNECTED)) (demo_rx\<lparr>rx_subs := [?sub]\<rparr>) = [MediaState TETHER_RX_STATE_CONNECTED]"
    by (simp add: announced_def ev map_filter_simps)
  have s4: "rx_call (RxRtc 0 9 (RtcState RTC_CONNECTED)) \<lparr>rw_world = ?w3, rw_refs = [], rw_subs = [(0, 1)], rw_calls = []\<rparr> =
      Some (demo_rx_end\<lparr>rw_calls := [((0, 1), MediaState TETHER_RX_STATE_CONNECTED)]\<rparr>, [])"
    using an by (simp add: rx_network_def ev copied_def demo_rx_end_def)
  have s5: "rx_call (RxDeliver 0) (demo_rx_end\<lparr>rw_calls := [((0, 1), MediaState TETHER_RX_STATE_CONNECTED)]\<rparr>) =
      Some (demo_rx_end, [SubState 5 TETHER_RX_STATE_CONNECTED])"
    by (simp add: rx_follow_def demo_rx_end_def has_sub_addr_def remove_nth_def)
  show "rx_orderly demo_rx_ops rx_start"
    unfolding demo_rx_ops_def rx_orderly.simps s1 option.case prod.case s2 s3 s4 s5 by simp
  show "\<exists>outs. rx_run_ops demo_rx_ops rx_start =
    Some (demo_rx_end, outs @ [SubState 5 TETHER_RX_STATE_AWAITING_ACCEPT, SubState 5 TETHER_RX_STATE_CONNECTED])"
    unfolding demo_rx_ops_def rx_run_ops.simps s1 option.case prod.case s2 s3 s4 s5 by simp
qed

lemma references_balanced_witness:
  "\<exists>r outs. rx_run_ops demo_rx_ops rx_start = Some (r, outs) \<and> rw_subs r = [(0, 1)] \<and> rx_registry (rw_world r) = [0] \<and>
    rx_refcount (the (rx_heap (rw_world r) 0)) = 1 \<and> last outs = SubState 5 TETHER_RX_STATE_CONNECTED"
proof -
  obtain outs where run: "rx_run_ops demo_rx_ops rx_start = Some (demo_rx_end, outs @
      [SubState 5 TETHER_RX_STATE_AWAITING_ACCEPT, SubState 5 TETHER_RX_STATE_CONNECTED])" using demo_rx_run(2) by blast
  with references_balanced [OF demo_rx_run(1)]
  have "list_all (\<lambda>a. rx_refcount (the (rx_heap (rw_world demo_rx_end) a)) =
      int (count_list (rw_refs demo_rx_end) a + length (filter (\<lambda>p. fst p = a) (rw_subs demo_rx_end))))
      (rx_registry (rw_world demo_rx_end))" by simp
  moreover have "rx_registry (rw_world demo_rx_end) = [0]" "rw_subs demo_rx_end = [(0, 1)]" "rw_refs demo_rx_end = []"
    by (simp_all add: demo_rx_end_def)
  ultimately have "rx_refcount (the (rx_heap (rw_world demo_rx_end) 0)) = 1" by simp
  with run show ?thesis by (auto simp: demo_rx_end_def)
qed

definition demo_offer :: json_object where
  "demo_offer = [(''type'', JStr ''sdp''), (''peer_id'', JStr ''sender''), (''sdp_type'', JStr ''offer''),
     (''sdp'', JStr ''v=0'')]"

lemma demo_offer_ok: "object_ok demo_offer"
  by (simp add: demo_offer_def)

lemma demo_offer_sdp: "lookup_str demo_offer ''sdp'' = Some (sdp_escape ''v=0'')"
  by (simp add: demo_offer_def escape_char_def)

lemma one_offer_per_session_witness:
  "\<exists>s' log. fold rx_session_step [RxSocketEvent 0 0 (SigReceived (Some (print_object demo_offer)) (- 1)),
      RxSocketEvent 0 0 (SigReceived (Some (print_object demo_offer)) (- 1))] (demo_rx, []) = (s', log) \<and>
    offers_applied log \<le> 1"
proof -
  let ?evs = "[RxSocketEvent 0 0 (SigReceived (Some (print_object demo_offer)) (- 1)),
    RxSocketEvent 0 0 (SigReceived (Some (print_object demo_offer)) (- 1))]"
  obtain outs where created: "session_create_locked demo_env 1 7 ''TTHR-ABCD-EFGH-JKMN'' = (Some demo_rx, outs)"
    using demo_created by blast
  have "\<not> json_eq_str (print_object demo_offer) ''type'' ''token_invalid''"
    "\<not> json_eq_str (print_object demo_offer) ''type'' ''token_locked_out''"
    unfolding json_find_object(2) [OF demo_offer_ok key_ok_literals(1)] by (simp_all add: demo_offer_def)
  then have "list_all (\<lambda>ev. \<not> fatal ev) ?evs" by (simp add: fatal_def)
  moreover obtain s' log where "fold rx_session_step ?evs (demo_rx, []) = (s', log)" by fastforce
  ultimately show ?thesis using one_offer_per_session [OF created] by blast
qed

text \<open>The session waits for its first offer.\<close>

definition awaiting_offer :: "rx_session \<Rightarrow> bool" where
  "awaiting_offer s \<longleftrightarrow> rx_state s \<in> {TETHER_RX_STATE_CONNECTING, TETHER_RX_STATE_AWAITING_ACCEPT, TETHER_RX_STATE_ACCEPTED}"

lemma offer_event:
  assumes "object_ok fs" and "lookup_str fs ''sdp'' = Some (sdp_escape d)" and "awaiting_offer s"
  shows "rx_signaling_event rc rc2 TETHER_SIG_EVT_SDP_OFFER (Some (print_object fs)) s =
    (s\<lparr>rx_state := TETHER_RX_STATE_NEGOTIATING\<rparr>,
     map (\<lambda>b. SubState (sub_user b) TETHER_RX_STATE_NEGOTIATING) (filter sub_on_state (rx_subs s)) @
     RxWr (RtcSetRemoteDescription (wr_pc (rx_wrtc s)) d ''offer'') #
     (if rc < 0 then [] else [RxWr (RtcSetLocalDescription (wr_pc (rx_wrtc s)))]))"
  using assms(3)
  by (auto simp: awaiting_offer_def rx_set_state_def offered_sdp_object [OF assms(1,2)]
      tether_webrtc_apply_remote_sdp_def Let_def)

text \<open>C18: the offer arrives intact: when a waiting session receives a text frame with an SDP offer, in any
  flat object with plain keys (\<^const>\<open>object_ok\<close>) whose \<open>sdp\<close> member is the escaped text \<open>d\<close>, it tells its subscribers that it is negotiating,
  hands exactly \<open>d\<close> to the peer connection as an offer, and has the answer made unless that fails; the
  message \<open>tether_signaling_send_sdp\<close> sends is such an object.\<close>

theorem offer_arrives_intact:
  assumes "object_ok fs" and "lookup_str fs ''type'' = Some ''sdp''" and "lookup_str fs ''sdp_type'' = Some ''offer''"
    and "lookup_str fs ''sdp'' = Some (sdp_escape d)" and "awaiting_offer s"
    and "sc_cb (sig_cfg (rx_sig s))" and "n < 0"
  shows "rx_socket_event rc rc2 (SigReceived (Some (print_object fs)) n) s =
    (s\<lparr>rx_state := TETHER_RX_STATE_NEGOTIATING\<rparr>,
     map (\<lambda>b. SubState (sub_user b) TETHER_RX_STATE_NEGOTIATING) (filter sub_on_state (rx_subs s)) @
     RxWr (RtcSetRemoteDescription (wr_pc (rx_wrtc s)) d ''offer'') #
     (if rc < 0 then [] else [RxWr (RtcSetLocalDescription (wr_pc (rx_wrtc s)))])) \<and>
   sdp_json pid ''offer'' d = print_object [(''type'', JStr ''sdp''), (''peer_id'', JStr pid),
     (''sdp_type'', JStr ''offer''), (''sdp'', JStr (sdp_escape d))]"
proof -
  have "sig_call (SigReceived (Some (print_object fs)) n) (rx_sig s) =
      (rx_sig s, [Emit TETHER_SIG_EVT_SDP_OFFER (lookup_str fs ''peer_id'') (Some (print_object fs))])"
    using assms(2,3,6,7) by (simp add: on_message_def handle_message_def json_find_object [OF assms(1)] emit_def)
  with offer_event [OF assms(1,4,5)] show ?thesis
    by (simp add: rx_socket_event_def message_objects del: rx_signaling_event.simps)
qed

lemma offer_arrives_intact_witness:
  "RxWr (RtcSetRemoteDescription 1 ''v=0'' ''offer'') \<in>
    set (snd (rx_socket_event 0 0 (SigReceived (Some (sdp_json ''sender'' ''offer'' ''v=0'')) (- 1)) demo_rx))"
proof -
  have "sdp_json ''sender'' ''offer'' ''v=0'' = print_object demo_offer"
    by (simp add: message_objects demo_offer_def escape_char_def)
  moreover have "awaiting_offer demo_rx" "sc_cb (sig_cfg (rx_sig demo_rx))"
    by (simp_all add: awaiting_offer_def demo_rx_def demo_rx_sig_def rx_signaling_config_def)
  ultimately show ?thesis
    using offer_arrives_intact [OF demo_offer_ok _ _ demo_offer_sdp, of demo_rx "- 1" 0 0]
    by (simp add: demo_offer_def demo_rx_def)
qed

text \<open>A failed session can apply a second offer: although the handler ignores offers once the session
  failed or closed, an \<open>accepted\<close> message takes such a session back to accepted, and the next offer is then
  applied on top of the same peer connection, which the code elsewhere says must not happen.\<close>

theorem failed_session_reapplies:
  assumes "dead s" and "object_ok fs" and "lookup_str fs ''sdp'' = Some (sdp_escape d)"
    and "rx_signaling_event rc rc2 TETHER_SIG_EVT_REQUEST_ACCEPTED None s = (s1, o1)"
    and "rx_signaling_event rc rc2 TETHER_SIG_EVT_SDP_OFFER (Some (print_object fs)) s1 = (s2, o2)"
  shows "rx_signaling_event rc rc2 TETHER_SIG_EVT_SDP_OFFER (Some (print_object fs)) s = (s, []) \<and>
    rx_state s1 = TETHER_RX_STATE_ACCEPTED \<and>
    RxWr (RtcSetRemoteDescription (wr_pc (rx_wrtc s)) d ''offer'') \<in> set o2"
proof -
  have s1: "s1 = s\<lparr>rx_state := TETHER_RX_STATE_ACCEPTED\<rparr>"
    using assms(1,4) by (auto simp: dead_def rx_set_state_def split: if_splits)
  then have "awaiting_offer s1" by (simp add: awaiting_offer_def)
  from offer_event [OF assms(2,3) this, of rc rc2] assms(1,5) s1 show ?thesis
    by (auto simp: dead_def)
qed

lemma failed_session_reapplies_witness:
  "\<exists>s1 o1 s2 o2. rx_signaling_event 0 0 TETHER_SIG_EVT_REQUEST_ACCEPTED None (demo_rx\<lparr>rx_state := TETHER_RX_STATE_FAILED\<rparr>) = (s1, o1) \<and>
    rx_signaling_event 0 0 TETHER_SIG_EVT_SDP_OFFER (Some (print_object demo_offer)) s1 = (s2, o2) \<and>
    RxWr (RtcSetRemoteDescription 1 ''v=0'' ''offer'') \<in> set o2"
proof -
  let ?s = "demo_rx\<lparr>rx_state := TETHER_RX_STATE_FAILED\<rparr>"
  obtain s1 o1 where a: "rx_signaling_event 0 0 TETHER_SIG_EVT_REQUEST_ACCEPTED None ?s = (s1, o1)" by fastforce
  obtain s2 o2 where b: "rx_signaling_event 0 0 TETHER_SIG_EVT_SDP_OFFER (Some (print_object demo_offer)) s1 = (s2, o2)"
    by fastforce
  have "RxWr (RtcSetRemoteDescription (wr_pc (rx_wrtc ?s)) ''v=0'' ''offer'') \<in> set o2"
    using failed_session_reapplies [OF _ demo_offer_ok demo_offer_sdp a b] by (simp add: dead_def)
  with a b show ?thesis by (auto simp: demo_rx_def)
qed

definition created_outs :: "string \<Rightarrow> int \<Rightarrow> rx_out list" where
  "created_outs canon ws =
     [RxSig (WsOpen (ws_url (the (tether_signaling_create (Some (rx_signaling_config canon))))) ws)]"

lemma session_create_outs:
  assumes "tether_token_normalise (Some t) TETHER_TOKEN_BUF = (True, Some canon)" and "0 < pc"
  shows "\<exists>s. session_create_locked env pc ws t = (Some s, created_outs canon ws)"
  using assms
  by (cases "ws \<le> 0")
     (simp_all add: session_create_locked_def tether_webrtc_create_def tether_signaling_create_def
       rx_signaling_config_def tether_signaling_connect_def Signaling.set_state_def emit_def
       rx_set_state_def Let_def created_outs_def ws_url_def)

text \<open>Two spellings of a token are two sessions: the registry compares the tokens as typed and not as
  normalised, so when two different texts normalise to the same token, asking for both opens two sessions,
  two sockets and two peer connections for one sender.\<close>

theorem spellings_split_sessions:
  assumes "t \<noteq> u" and "t \<noteq> []" and "u \<noteq> []" and "0 < pc" and "rx_initialised w" and "rx_registry w = []"
    and "tether_token_normalise (Some t) TETHER_TOKEN_BUF = (True, Some canon)"
    and "tether_token_normalise (Some u) TETHER_TOKEN_BUF = (True, Some canon)"
  shows "\<exists>w1 w2 o1 o2 a b. tether_receive_session_get env pc ws (Some t) w = Some (w1, Some a, o1) \<and>
    tether_receive_session_get env pc ws (Some u) w1 = Some (w2, Some b, o2) \<and> a \<noteq> b \<and>
    rx_registry w2 = [a, b] \<and> o1 = o2"
proof -
  obtain s outs where s: "session_create_locked env pc ws t = (Some s, outs)" "rx_token s = t"
      "outs = created_outs canon ws"
    using session_create_outs [OF assms(7,4)] session_create_facts(1) by metis
  obtain s' where s': "session_create_locked env pc ws u = (Some s', outs)" "rx_token s' = u"
    using session_create_outs [OF assms(8,4)] session_create_facts(1) s(3) by metis
  from s s' assms show ?thesis by (simp add: tether_receive_session_get_def)
qed

lemma spellings_split_sessions_witness:
  "\<exists>w1 w2 o1 o2 a b.
    tether_receive_session_get demo_env 1 7 (Some ''TTHR-ABCD-EFGH-JKMN'') (rw_world rx_start) = Some (w1, Some a, o1) \<and>
    tether_receive_session_get demo_env 1 7 (Some ''tthr-abcd-efgh-jkmn'') w1 = Some (w2, Some b, o2) \<and> a \<noteq> b \<and>
    rx_registry w2 = [a, b] \<and> o1 = o2"
proof (rule spellings_split_sessions [OF _ _ _ _ _ _ demo_normalised])
  show "tether_token_normalise (Some ''tthr-abcd-efgh-jkmn'') TETHER_TOKEN_BUF = (True, Some ''TTHR-ABCD-EFGH-JKMN'')"
    by code_simp
qed (simp_all add: rx_start_def tether_receive_session_init_def)

text \<open>Fan-out: a frame reaches every subscriber that has a callback for its kind, each exactly once and
  in the order they subscribed, with its bytes and mid unchanged; it adds its length and itself to the
  counters of its kind only, and its mid is listed once however often it is seen.\<close>

theorem frames_fan_out:
  assumes "rx_rtc_event now (RtcFrame tr (Some dat) (int (length dat))) s = (s', outs)" and "dat \<noteq> []"
    and "find (has_handle tr) (wr_tracks (rx_wrtc s)) = Some e" and "tr_is_video e"
    and "wc_on_video (wr_cfg (rx_wrtc s))" and "length (tr_mid e) < 64" and "tr_mid e \<noteq> []"
    and "distinct (map me_mid (rx_seen_mids s))"
  shows "outs = map (\<lambda>b. SubVideo (sub_user b) dat (Some (tr_mid e))) (filter sub_on_video (rx_subs s)) \<and>
    video_bytes (rx_stats s') = video_bytes (rx_stats s) + word_of_nat (length dat) \<and>
    video_packets (rx_stats s') = video_packets (rx_stats s) + 1 \<and>
    audio_packets (rx_stats s') = audio_packets (rx_stats s) \<and>
    tr_mid e \<in> me_mid ` set (rx_seen_mids s') \<and> distinct (map me_mid (rx_seen_mids s'))"
proof -
  have out: "wr_callback (RtcFrame tr (Some dat) (int (length dat))) (rx_wrtc s) =
      (rx_wrtc s, [OnVideo dat tr (Some (tr_mid e))])"
    using assms(2-5) by (simp add: on_track_message_def Let_def)
  have seen: "find (\<lambda>x. Some (me_mid x) = Some (tr_mid e)) (rx_seen_mids s) = None \<longleftrightarrow>
      tr_mid e \<notin> me_mid ` set (rx_seen_mids s)"
    by (force simp: find_None_iff)
  show ?thesis
    using assms(1,6,7,8) out seen
    by (auto simp: rx_rtc_event_def wrtc_video_cb_def remember_mid_locked_def Let_def strncpy_buf_fits)
qed

lemma frames_fan_out_witness:
  "snd (rx_rtc_event 5 (RtcFrame 40 (Some [1, 2]) 2)
     (demo_rx\<lparr>rx_wrtc := (rx_wrtc demo_rx)\<lparr>wr_tracks := [\<lparr>tr_handle = 40, tr_track_id = 1, tr_is_video = True, tr_mid = ''v''\<rparr>]\<rparr>,
       rx_subs := [\<lparr>sub_addr = 3, sub_on_video = True, sub_on_audio = False, sub_on_state = False, sub_user = 9\<rparr>]\<rparr>)) =
    [SubVideo 9 [1, 2] (Some ''v'')]"
proof -
  let ?e = "\<lparr>tr_handle = 40, tr_track_id = 1, tr_is_video = True, tr_mid = ''v''\<rparr>"
  let ?s = "demo_rx\<lparr>rx_wrtc := (rx_wrtc demo_rx)\<lparr>wr_tracks := [?e]\<rparr>,
    rx_subs := [\<lparr>sub_addr = 3, sub_on_video = True, sub_on_audio = False, sub_on_state = False, sub_user = 9\<rparr>]\<rparr>"
  obtain s' outs where ev: "rx_rtc_event 5 (RtcFrame 40 (Some [1, 2]) (int (length [1, 2 :: u8]))) ?s = (s', outs)"
    by fastforce
  have "outs = [SubVideo 9 [1, 2] (Some ''v'')]"
    using frames_fan_out [OF ev, of ?e] by (simp add: demo_rx_def has_handle_def rx_webrtc_config_def)
  with ev show ?thesis by simp
qed

section \<open>The registry's contract\<close>

definition rx_token_at :: "rx_world \<Rightarrow> nat \<Rightarrow> string option" where
  "rx_token_at w a = map_option rx_token (rx_heap w a)"

text \<open>What libdatachannel answers when a session is created, and which callbacks a subscriber sets.\<close>

type_synonym rx_env = "wr_env \<times> int \<times> int"

fun rx_get :: "rx_env \<Rightarrow> string option \<Rightarrow> rx_world \<Rightarrow> (rx_world \<times> nat option \<times> rx_out list) option" where
  "rx_get (env, pc, ws) token w = tether_receive_session_get env pc ws token w"

fun rx_subscribe ::
  "bool \<times> bool \<times> bool \<times> nat \<Rightarrow> nat option \<Rightarrow> rx_world \<Rightarrow> (rx_world \<times> (nat \<times> nat) option \<times> rx_out list) option"
where
  "rx_subscribe (v, au, st, user) p w = tether_receive_session_subscribe v au st user p w"

interpretation registry: counted_registry rx_ok rx_token_at rx_get tether_receive_session_release rx_subscribe
  tether_receive_session_unsubscribe
proof
  fix w refs subs and e :: rx_env and t
  assume ok: "rx_ok w refs subs"
  obtain env pc ws where e: "e = (env, pc, ws)" by (metis prod_cases3)
  from rx_get_ok [OF ok, of env pc ws t] obtain w' p outs where
    "tether_receive_session_get env pc ws t w = Some (w', p, outs)"
    "rx_ok w' (refs + (case p of None \<Rightarrow> {#} | Some a \<Rightarrow> {#a#})) subs"
    "\<forall>a. p = Some a \<longrightarrow> map_option rx_token (rx_heap w' a) = t" by blast
  then show "\<exists>w' p outs. rx_get e t w = Some (w', p, outs) \<and> (case p of None \<Rightarrow> rx_ok w' refs subs
      | Some a \<Rightarrow> rx_ok w' (add_mset a refs) subs \<and> rx_token_at w' a = t)"
    by (auto simp: e rx_token_at_def split: option.splits)
next
  fix w refs subs a
  assume "rx_ok w refs subs" and "a \<in># refs"
  from rx_release_ok [OF this] show "\<exists>w' outs. tether_receive_session_release (Some a) w = Some (w', outs) \<and>
      rx_ok w' (refs - {#a#}) subs" by blast
next
  fix w refs subs a and c :: "bool \<times> bool \<times> bool \<times> nat"
  assume "rx_ok w refs subs" and "a \<in># refs"
  moreover obtain v au st user where c: "c = (v, au, st, user)" by (metis prod_cases4)
  ultimately show "\<exists>w' i outs. rx_subscribe c (Some a) w = Some (w', Some (a, i), outs) \<and>
      rx_ok w' refs (subs @ [(a, i)])"
    using rx_subscribe_ok [of w refs subs a v au st user] by (auto simp: c)
next
  fix w refs subs and h :: "nat \<times> nat"
  assume ok: "rx_ok w refs subs" and "h \<in> set subs"
  then obtain k where k: "k < length subs" "subs ! k = h" by (auto simp: in_set_conv_nth)
  from rx_unsubscribe_ok [OF ok k(1)] k show "\<exists>w' outs subs'. tether_receive_session_unsubscribe (Some h) w =
      Some (w', outs) \<and> rx_ok w' refs subs' \<and> mset subs' = mset subs - {#h#}"
    by (metis mset_remove_nth)
qed

text \<open>Which clients the subscriptions of the world call, with the session and the address of each.\<close>

definition sub_pair :: "rx_subscription \<Rightarrow> nat \<times> nat" where
  "sub_pair b = (sub_addr b, sub_user b)"

definition rx_users :: "rx_world \<Rightarrow> (nat \<times> nat \<times> nat) set" where
  "rx_users w = {(a, p). \<exists>s. rx_heap w a = Some s \<and> p \<in> sub_pair ` set (rx_subs s)}"

fun rx_client :: "bool \<times> bool \<times> bool \<times> nat \<Rightarrow> nat" where
  "rx_client (v, au, st, user) = user"

lemma rx_users_upd:
  "rx_heap w a = Some s \<Longrightarrow> rx_subs s' = rx_subs s \<Longrightarrow> rx_users (w\<lparr>rx_heap := (rx_heap w)(a \<mapsto> s')\<rparr>) = rx_users w"
  by (auto simp: rx_users_def split: if_splits)

lemma rx_users_delete:
  "rx_heap w a = Some s \<Longrightarrow> rx_subs s = [] \<Longrightarrow>
    rx_users (w\<lparr>rx_heap := (rx_heap w)(a := None), rx_registry := r\<rparr>) = rx_users w"
  by (auto simp: rx_users_def split: if_splits)

lemma rx_users_subs:
  assumes ok: "rx_ok w refs subs"
  shows "(\<lambda>(a, i, u). (a, i)) ` rx_users w = set subs"
proof -
  have "(\<exists>u. (a, i, u) \<in> rx_users w) \<longleftrightarrow> (a, i) \<in> set subs" for a i
  proof (cases "rx_heap w a")
    case None
    have "fst ` set subs \<subseteq> dom (rx_heap w)" using ok by (simp add: rx_ok_def)
    then have "(a, i) \<notin> set subs" using None by force
    with None show ?thesis by (simp add: rx_users_def)
  next
    case (Some s)
    then have "map sub_addr (rx_subs s) = map snd (filter (\<lambda>p. fst p = a) subs)"
      using ok by (simp add: rx_ok_def session_ok_def)
    then have m: "sub_addr ` set (rx_subs s) = snd ` {p \<in> set subs. fst p = a}" by (metis list.set_map set_filter)
    have "(\<exists>u. (a, i, u) \<in> rx_users w) \<longleftrightarrow> i \<in> sub_addr ` set (rx_subs s)"
      using Some by (auto simp: rx_users_def sub_pair_def image_iff)
    also have "\<dots> \<longleftrightarrow> (a, i) \<in> set subs" unfolding m by (auto simp: image_iff)
    finally show ?thesis .
  qed
  moreover have "(\<lambda>(a, i, u). (a, i)) ` U = {(a, i). \<exists>u. (a, i, u) \<in> U}" for U :: "(nat \<times> nat \<times> nat) set" by force
  ultimately show ?thesis by auto
qed

lemma rx_addrs_distinct:
  assumes "rx_ok w refs subs" and "rx_heap w a = Some s"
  shows "distinct (map sub_addr (rx_subs s))"
proof -
  have "map sub_addr (rx_subs s) = map snd (filter (\<lambda>p. fst p = a) subs)" and "distinct (map snd subs)"
    using assms by (simp_all add: rx_ok_def session_ok_def)
  then show ?thesis by (simp add: distinct_map_filter)
qed

lemma rx_users_fun: "rx_ok w refs subs \<Longrightarrow> (a, i, u) \<in> rx_users w \<Longrightarrow> (a, i, v) \<in> rx_users w \<Longrightarrow> u = v"
  using rx_addrs_distinct [of w refs subs a] by (force simp: rx_users_def sub_pair_def distinct_map dest: inj_onD)

lemma rx_subs_distinct: "rx_ok w refs subs \<Longrightarrow> distinct subs"
  by (simp add: rx_ok_def distinct_map)

lemma rx_get_users:
  assumes ok: "rx_ok w refs subs" and g: "tether_receive_session_get env pc ws t w = Some (w', p, outs)"
  shows "rx_users w' = rx_users w" and "rx_token_at w b = Some x \<Longrightarrow> rx_token_at w' b = Some x"
proof -
  have fresh: "rx_heap w (rx_next w) = None" using ok by (auto simp: rx_ok_def)
  consider "w' = w" | a s where "rx_heap w a = Some s"
      "w' = w\<lparr>rx_heap := (rx_heap w)(a \<mapsto> s\<lparr>rx_refcount := rx_refcount s + 1\<rparr>)\<rparr>"
    | s where "rx_subs s = []" "w' = w\<lparr>rx_heap := (rx_heap w)(rx_next w \<mapsto> s), rx_registry := rx_registry w @ [rx_next w],
        rx_next := rx_next w + 1\<rparr>"
  proof (cases t)
    case None
    with g have "w' = w" by (simp add: tether_receive_session_get_def)
    then show thesis by (rule that(1))
  next
    case (Some t')
    have "set (rx_registry w) \<subseteq> dom (rx_heap w)" using ok by (simp add: rx_ok_def)
    from find_session_ok [OF this, of t'] obtain r where r: "find_session (rx_heap w) t' (rx_registry w) = Some r"
      and r': "\<And>a. r = Some a \<Longrightarrow> \<exists>s. rx_heap w a = Some s" by (auto split: option.splits)
    obtain os where os: "session_create_locked env pc ws t' = (fst (session_create_locked env pc ws t'), os)" by (metis prod.collapse)
    show thesis
    proof (cases "t' = [] \<or> \<not> rx_initialised w")
      case True
      with g Some have "w' = w" by (auto simp: tether_receive_session_get_def split: if_splits)
      then show thesis by (rule that(1))
    next
      case False
      note get = g [unfolded tether_receive_session_get_def Some]
      show thesis
      proof (cases r)
        case None
        show thesis
        proof (cases "fst (session_create_locked env pc ws t')")
          case None
          with get False r \<open>r = None\<close> os have "w' = w" by (simp split: prod.splits)
          then show thesis by (rule that(1))
        next
          case (Some s)
          with os have "rx_subs s = []" using session_create_facts(3) [of env pc ws t' s os] by simp
          moreover have "w' = w\<lparr>rx_heap := (rx_heap w)(rx_next w \<mapsto> s), rx_registry := rx_registry w @ [rx_next w],
              rx_next := rx_next w + 1\<rparr>"
            using get False r \<open>r = None\<close> Some by (simp split: prod.splits)
          ultimately show thesis by (rule that(3))
        qed
      next
        case (Some a)
        with r' obtain s where s: "rx_heap w a = Some s" by blast
        with get False r Some have "w' = w\<lparr>rx_heap := (rx_heap w)(a \<mapsto> s\<lparr>rx_refcount := rx_refcount s + 1\<rparr>)\<rparr>" by simp
        with s show thesis by (rule that(2))
      qed
    qed
  qed
  note cases = this
  show "rx_users w' = rx_users w"
    using cases
  proof cases
    case (2 a s)
    then show ?thesis by (simp add: rx_users_upd)
  next
    case (3 s)
    with fresh show ?thesis by (auto simp: rx_users_def split: if_splits)
  qed simp
  show "rx_token_at w' b = Some x" if "rx_token_at w b = Some x"
    using cases by cases (use that fresh in \<open>auto simp: rx_token_at_def\<close>)
qed

lemma rx_release_frame:
  assumes "tether_receive_session_release (Some a) w = Some (w', outs)" and "rx_heap w a = Some s"
    and "rx_refcount s \<le> 1 \<Longrightarrow> rx_subs s = []"
  shows "rx_users w' = rx_users w"
proof (cases "rx_refcount s \<le> 1")
  case True
  with assms have "w' = w\<lparr>rx_heap := (rx_heap w)(a := None), rx_registry := erase_first (\<lambda>b. b = a) (rx_registry w)\<rparr>"
    by (simp add: tether_receive_session_release_def Let_def)
  with True assms show ?thesis by (simp add: rx_users_delete)
next
  case False
  with assms have "w' = w\<lparr>rx_heap := (rx_heap w)(a \<mapsto> s\<lparr>rx_refcount := rx_refcount s - 1\<rparr>)\<rparr>"
    by (simp add: tether_receive_session_release_def Let_def)
  with assms(2) show ?thesis by (simp add: rx_users_upd)
qed

lemma rx_release_users:
  assumes ok: "rx_ok w refs subs" and a: "a \<in># refs" and r: "tether_receive_session_release (Some a) w = Some (w', outs)"
  shows "rx_users w' = rx_users w"
proof -
  obtain s where s: "rx_heap w a = Some s" using r by (auto simp: tether_receive_session_release_def split: option.splits)
  then have "session_ok refs subs a s" using ok by (simp add: rx_ok_def)
  moreover have "0 < count refs a" using a by simp
  ultimately have "rx_refcount s \<le> 1 \<Longrightarrow> length (rx_subs s) = 0" unfolding session_ok_def by linarith
  then have "rx_refcount s \<le> 1 \<Longrightarrow> rx_subs s = []" by simp
  then show ?thesis by (rule rx_release_frame [OF r s])
qed

lemma rx_release_token:
  "tether_receive_session_release (Some a) w = Some (w', outs) \<Longrightarrow> rx_token_at w b = Some x \<Longrightarrow>
    rx_token_at w' b \<in> {None, Some x}"
  by (auto simp: tether_receive_session_release_def rx_token_at_def Let_def split: option.splits if_splits)

lemma rx_subscribe_users:
  assumes "tether_receive_session_subscribe v au st user (Some a) w = Some (w', h, outs)"
  shows "h = Some (a, rx_next w)" and "rx_users w' = insert (a, rx_next w, user) (rx_users w)"
    and "rx_token_at w b = Some x \<Longrightarrow> rx_token_at w' b = Some x"
  using assms by (auto simp: tether_receive_session_subscribe_def rx_users_def rx_token_at_def sub_pair_def Let_def split: option.splits if_splits)

lemma erase_sub_set:
  "distinct (map sub_addr bs) \<Longrightarrow> set (erase_first (has_sub_addr i) bs) = {b \<in> set bs. sub_addr b \<noteq> i}"
proof (induction bs)
  case (Cons b bs)
  then have IH: "set (erase_first (has_sub_addr i) bs) = {c \<in> set bs. sub_addr c \<noteq> i}" by simp
  have "\<forall>c \<in> set bs. sub_addr c \<noteq> sub_addr b" using Cons.prems by (auto simp: image_iff)
  moreover have "has_sub_addr i b \<longleftrightarrow> sub_addr b = i" by (simp add: has_sub_addr_def)
  ultimately show ?case using IH by auto
qed simp

lemma rx_unsubscribe_users:
  assumes ok: "rx_ok w refs subs" and h: "(a, i) \<in> set subs"
    and r: "tether_receive_session_unsubscribe (Some (a, i)) w = Some (w', outs)"
  shows "rx_users w' = rx_users w - {(a, i, u) | u. True}"
proof -
  obtain s where s: "rx_heap w a = Some s" using r by (auto simp: tether_receive_session_unsubscribe_def split: option.splits)
  define s1 where "s1 = s\<lparr>rx_subs := erase_first (has_sub_addr i) (rx_subs s)\<rparr>"
  define w1 where "w1 = w\<lparr>rx_heap := (rx_heap w)(a \<mapsto> s1)\<rparr>"
  have rel: "tether_receive_session_release (Some a) w1 = Some (w', outs)" and
    fnd: "find (has_sub_addr i) (rx_subs s) \<noteq> None"
    using r s by (auto simp: tether_receive_session_unsubscribe_def w1_def s1_def split: if_splits)
  have ex: "\<exists>b \<in> set (rx_subs s). has_sub_addr i b" using fnd by (auto simp: find_None_iff)
  then have len: "length (rx_subs s1) = length (rx_subs s) - 1" "0 < length (rx_subs s)"
    by (auto simp: s1_def length_erase_first intro: length_pos_if_in_set)
  have d: "distinct (map sub_addr (rx_subs s))" by (rule rx_addrs_distinct [OF ok s])
  have "session_ok refs subs a s" using ok s by (simp add: rx_ok_def)
  then have "rx_refcount s1 \<le> 1 \<Longrightarrow> rx_subs s1 = []" using len by (auto simp: session_ok_def s1_def)
  then have "rx_users w' = rx_users w1" using rx_release_frame [OF rel, of s1] by (simp add: w1_def)
  also have "\<dots> = rx_users w - {(a, i, u) | u. True}"
    using s by (auto simp: rx_users_def sub_pair_def w1_def s1_def erase_sub_set [OF d] split: if_splits)
  finally show ?thesis .
qed

lemma rx_unsubscribe_token:
  assumes "tether_receive_session_unsubscribe (Some k) w = Some (w', outs)" and "rx_token_at w b = Some x"
  shows "rx_token_at w' b \<in> {None, Some x}"
proof -
  obtain a i where k: "k = (a, i)" by fastforce
  obtain s where s: "rx_heap w a = Some s"
    and rel: "tether_receive_session_release (Some a)
      (w\<lparr>rx_heap := (rx_heap w)(a \<mapsto> s\<lparr>rx_subs := erase_first (has_sub_addr i) (rx_subs s)\<rparr>)\<rparr>) = Some (w', outs)"
    using assms(1) by (auto simp: k tether_receive_session_unsubscribe_def split: option.splits if_splits)
  show ?thesis by (rule rx_release_token [OF rel]) (use assms(2) s in \<open>auto simp: rx_token_at_def\<close>)
qed

lemma rx_live_token: "rx_ok w refs subs \<Longrightarrow> a \<in># refs \<or> a \<in> fst ` set subs \<Longrightarrow> rx_token_at w a \<noteq> None"
  by (auto simp: rx_ok_def rx_token_at_def)

interpretation sessions: subscribed_registry rx_ok rx_token_at rx_get tether_receive_session_release rx_subscribe
  tether_receive_session_unsubscribe rx_users rx_client
proof
  fix w refs subs and e :: rx_env and t w' p outs b x
  assume "rx_ok w refs subs" and g: "rx_get e t w = Some (w', p, outs)"
  moreover obtain env pc ws where e: "e = (env, pc, ws)" by (metis prod_cases3)
  ultimately show "rx_users w' = rx_users w" using rx_get_users(1) by simp
next
  fix w refs subs and e :: rx_env and t w' p outs b x
  assume "rx_get e t w = Some (w', p, outs)" and "rx_token_at w b = Some x" and "rx_ok w refs subs"
  moreover obtain env pc ws where "e = (env, pc, ws)" by (metis prod_cases3)
  ultimately show "rx_token_at w' b = Some x" using rx_get_users(2) by simp
next
  fix w refs subs a w' i outs and c :: "bool \<times> bool \<times> bool \<times> nat"
  assume "rx_subscribe c (Some a) w = Some (w', Some (a, i), outs)"
  moreover obtain v au st user where "c = (v, au, st, user)" by (metis prod_cases4)
  ultimately show "rx_users w' = insert (a, i, rx_client c) (rx_users w)"
    using rx_subscribe_users(1,2) by fastforce
next
  fix a w w' h outs b x and c :: "bool \<times> bool \<times> bool \<times> nat"
  assume "rx_subscribe c (Some a) w = Some (w', h, outs)" and "rx_token_at w b = Some x"
  moreover obtain v au st user where "c = (v, au, st, user)" by (metis prod_cases4)
  ultimately show "rx_token_at w' b = Some x" using rx_subscribe_users(3) by simp
qed (rule rx_users_subs rx_users_fun rx_release_users rx_unsubscribe_users rx_release_token rx_unsubscribe_token
    rx_live_token rx_subs_distinct; assumption)+

text \<open>Network events and the enumeration change no account.\<close>

lemma rx_event_frame:
  assumes "rx_ok w refs subs" and "rx_heap w a = Some s" and "rx_core s' = rx_core s"
  shows "rx_ok (w\<lparr>rx_heap := (rx_heap w)(a \<mapsto> s')\<rparr>) refs subs"
    and "rx_users (w\<lparr>rx_heap := (rx_heap w)(a \<mapsto> s')\<rparr>) = rx_users w"
    and "rx_token_at (w\<lparr>rx_heap := (rx_heap w)(a \<mapsto> s')\<rparr>) = rx_token_at w"
  using rx_ok_core [OF assms] rx_users_upd [OF assms(2)] assms(2,3)
  by (auto simp: rx_core_def rx_token_at_def fun_eq_iff)

lemma bump_all_frame:
  "bump_all as w = Some w' \<Longrightarrow> rx_users w' = rx_users w \<and> rx_token_at w' = rx_token_at w"
proof (induction "as" arbitrary: w)
  case (Cons a "as")
  then obtain s where s: "rx_heap w a = Some s" by (auto split: option.splits)
  have "rx_token_at (w\<lparr>rx_heap := (rx_heap w)(a \<mapsto> s\<lparr>rx_refcount := rx_refcount s + 1\<rparr>)\<rparr>) = rx_token_at w"
    using s by (auto simp: rx_token_at_def)
  with Cons s show ?case by (fastforce simp: rx_users_upd)
qed simp

lemma release_all_frame:
  assumes "rx_ok w (refs + mset as) subs" and "release_all as w = Some (w', outs)"
  shows "rx_ok w' refs subs \<and> rx_users w' = rx_users w \<and>
    (\<forall>b x. b \<in># refs \<or> b \<in> fst ` set subs \<longrightarrow> rx_token_at w b = Some x \<longrightarrow> rx_token_at w' b = Some x)"
  using assms
proof (induction "as" arbitrary: w outs)
  case (Cons a "as")
  have "a \<in># refs + mset (a # as)" by simp
  from sessions.drop_ref [OF Cons.prems(1) this] obtain w1 o1 where
    r: "tether_receive_session_release (Some a) w = Some (w1, o1)" and ok1: "rx_ok w1 (refs + mset as) subs"
    and u: "rx_users w1 = rx_users w"
    and k: "\<And>b x. b \<in># refs + mset as \<or> b \<in> fst ` set subs \<Longrightarrow> rx_token_at w b = Some x \<Longrightarrow> rx_token_at w1 b = Some x"
    by auto
  obtain o2 where "release_all as w1 = Some (w', o2)" using Cons.prems(2) r by (auto split: option.splits)
  from Cons.IH [OF ok1 this] u k show ?case by simp
qed simp

lemma rx_enumerate_frame:
  assumes ok: "rx_ok w refs subs"
  obtains w' outs where "tether_receive_session_enumerate True w = Some (w', rx_registry w, outs)"
    and "rx_ok w' refs subs" and "rx_users w' = rx_users w"
    and "\<And>b x. b \<in># refs \<or> b \<in> fst ` set subs \<Longrightarrow> rx_token_at w b = Some x \<Longrightarrow> rx_token_at w' b = Some x"
proof -
  have "set (rx_registry w) \<subseteq> dom (rx_heap w)" using ok by (simp add: rx_ok_def)
  from bump_all_ok [OF ok this] obtain w1 where w1: "bump_all (rx_registry w) w = Some w1"
    and ok1: "rx_ok w1 (refs + mset (rx_registry w)) subs" by auto
  from release_all_ok [OF ok1] obtain w2 o2 where w2: "release_all (rx_registry w) w1 = Some (w2, o2)" by blast
  note fr = release_all_frame [OF ok1 w2] bump_all_frame [OF w1]
  show thesis
  proof (rule that)
    show "tether_receive_session_enumerate True w = Some (w2, rx_registry w, o2)"
      using w1 w2 by (simp add: tether_receive_session_enumerate_def)
    show "rx_ok w2 refs subs" and "rx_users w2 = rx_users w" using fr by simp_all
    fix b x
    assume "b \<in># refs \<or> b \<in> fst ` set subs" and "rx_token_at w b = Some x"
    moreover have "rx_token_at w1 b = rx_token_at w b" using fr by simp
    ultimately show "rx_token_at w2 b = Some x" using fr by metis
  qed
qed

end
