(* ===== verification/Audio.thy ===== *)
theory Audio
  imports Webrtc "HOL-Library.Multiset"
begin

text \<open>
  \<open>src/audio.c\<close>: the Opus tracks. On the sending side, the buffer that collects interleaved samples
  and hands them to the encoder in blocks of 20 ms; on the receiving side, the decoders and the
  planar output. The code only moves samples, so their type is a parameter, with the silent sample
  \<open>z\<close>. The results of Opus and OBS are arguments: the bytes of the \<open>k\<close>-th packet of an encoder is
  \<open>enc k block\<close>, empty when the encoder fails. An access outside the buffer has no result.
\<close>

section \<open>The sender's buffer\<close>

text \<open>
  \<open>st_buf\<close> is the filled part of the buffer, \<open>st_capacity\<close> its size in samples; \<open>st_source\<close> is the
  OBS source the track holds a reference to, \<open>st_encoded\<close> how often its encoder was called.
\<close>

record 'f sender_track =
  st_track_id :: int
  st_source :: nat
  st_source_name :: string
  st_channels :: nat
  st_sample_rate :: nat
  st_capacity :: nat
  st_buf :: "'f list"
  st_encoded :: nat

text \<open>A block handed to the encoder, and a packet pushed to the track.\<close>

datatype 'f audio_out =
    OpusEncode "'f list"
  | AudioPush int "u8 list"
  | AddCaptureCallback nat
  | RemoveCaptureCallback nat
  | SourceRelease nat
  | AudioWr wr_out

definition OPUS_FRAME_SIZE_MS :: nat where
  "OPUS_FRAME_SIZE_MS = 20"

definition frame_samples :: "'f sender_track \<Rightarrow> nat" where
  "frame_samples t = st_sample_rate t * OPUS_FRAME_SIZE_MS div 1000"

definition needed :: "'f sender_track \<Rightarrow> nat" where
  "needed t = frame_samples t * st_channels t"

definition encode_and_send ::
  "(nat \<Rightarrow> 'f list \<Rightarrow> u8 list) \<Rightarrow> 'f sender_track \<Rightarrow> 'f sender_track \<times> 'f audio_out list" where
  "encode_and_send enc t =
     (if length (st_buf t) < needed t then (t, [])
      else let block = take (needed t) (st_buf t); pkt = enc (st_encoded t) block
           in (t\<lparr>st_buf := drop (needed t) (st_buf t), st_encoded := st_encoded t + 1\<rparr>,
               OpusEncode block # (if pkt \<noteq> [] then [AudioPush (st_track_id t) pkt] else [])))"

lemma encode_and_send_shrinks:
  "encode_and_send enc t = (t', outs) \<Longrightarrow> length (st_buf t') \<noteq> length (st_buf t) \<Longrightarrow> length (st_buf t') < length (st_buf t)"
  by (auto simp: encode_and_send_def Let_def split: if_splits)

text \<open>The loop after the samples were added: encode until nothing changes.\<close>

function drain ::
  "(nat \<Rightarrow> 'f list \<Rightarrow> u8 list) \<Rightarrow> 'f sender_track \<Rightarrow> 'f sender_track \<times> 'f audio_out list" where
  "drain enc t =
     (if st_buf t = [] then (t, [])
      else case encode_and_send enc t of (t', outs) \<Rightarrow>
        if length (st_buf t') = length (st_buf t) then (t', outs)
        else case drain enc t' of (t'', outs') \<Rightarrow> (t'', outs @ outs'))"
  by pat_completeness auto
termination
  by (relation "measure (\<lambda>(enc, t). length (st_buf t))")
     (auto dest: encode_and_send_shrinks [OF sym])

declare drain.simps [simp del]

text \<open>The audio data of one callback: the number of frames and the planes, NULL planes being silent.\<close>

record 'f audio_data =
  ad_frames :: nat
  ad_plane :: "nat \<Rightarrow> 'f list option"

definition plane_sample :: "'f \<Rightarrow> 'f audio_data \<Rightarrow> nat \<Rightarrow> nat \<Rightarrow> 'f" where
  "plane_sample z d c f = (case ad_plane d c of None \<Rightarrow> z | Some p \<Rightarrow> p ! f)"

definition interleave :: "'f \<Rightarrow> nat \<Rightarrow> 'f audio_data \<Rightarrow> 'f list" where
  "interleave z channels d =
     concat (map (\<lambda>f. map (\<lambda>c. plane_sample z d c f) [0..<channels]) [0..<ad_frames d])"

text \<open>Making room: the oldest samples are dropped. More samples than the buffer holds would move memory
  from before it.\<close>

definition make_room :: "nat \<Rightarrow> 'f sender_track \<Rightarrow> 'f sender_track option" where
  "make_room add t =
     (if st_capacity t < length (st_buf t) + add
      then let dropped = length (st_buf t) + add - st_capacity t
           in if length (st_buf t) < dropped then None
              else Some (t\<lparr>st_buf := drop dropped (st_buf t)\<rparr>)
      else Some t)"

definition on_audio_capture ::
  "'f \<Rightarrow> (nat \<Rightarrow> 'f list \<Rightarrow> u8 list) \<Rightarrow> bool \<Rightarrow> 'f audio_data option \<Rightarrow> 'f sender_track \<Rightarrow>
   ('f sender_track \<times> 'f audio_out list) option" where
  "on_audio_capture z enc muted dat t =
     (case dat of
        None \<Rightarrow> Some (t, [])
      | Some d \<Rightarrow>
          if muted then Some (t, [])
          else map_option (\<lambda>t1. drain enc (t1\<lparr>st_buf := st_buf t1 @ interleave z (st_channels t1) d\<rparr>))
                 (make_room (ad_frames d * st_channels t) t))"

section \<open>The sender's tracks\<close>

record tether_audio_sender_config =
  asc_sample_rate :: int
  asc_channels :: int
  asc_bitrate_kbps :: int

record 'f tether_audio_sender =
  as_cfg :: tether_audio_sender_config
  as_tracks :: "'f sender_track list"

definition tether_audio_sender_create :: "tether_audio_sender_config \<Rightarrow> 'f tether_audio_sender" where
  "tether_audio_sender_create cfg =
     \<lparr>as_cfg = cfg\<lparr>
        asc_sample_rate := (if asc_sample_rate cfg \<le> 0 then 48000 else asc_sample_rate cfg),
        asc_channels := (if asc_channels cfg \<le> 0 then 2 else asc_channels cfg),
        asc_bitrate_kbps := (if asc_bitrate_kbps cfg \<le> 0 then 96 else asc_bitrate_kbps cfg)\<rparr>,
      as_tracks = []\<rparr>"

definition detach_outs :: "'f sender_track \<Rightarrow> 'f audio_out list" where
  "detach_outs t = [RemoveCaptureCallback (st_source t), SourceRelease (st_source t)]"

definition tether_audio_sender_release :: "'f tether_audio_sender option \<Rightarrow> 'f audio_out list" where
  "tether_audio_sender_release s =
     (case s of None \<Rightarrow> [] | Some v \<Rightarrow> concat (map detach_outs (as_tracks v)))"

text \<open>
  What the calls of one attachment return: the source of the name with the reference it carries,
  the track of \<open>rtcAddTrackEx\<close>, and whether the encoder was made without error.
\<close>

record attach_env =
  ae_source :: "nat option"
  ae_track :: int
  ae_ssrc :: u32
  ae_encoder :: bool

text \<open>The borrowed connection is passed in and handed back.\<close>

definition tether_audio_sender_attach ::
  "attach_env \<Rightarrow> tether_webrtc \<Rightarrow> 'f tether_audio_sender option \<Rightarrow> string option \<Rightarrow> string option \<Rightarrow>
   tether_webrtc \<times> 'f tether_audio_sender option \<times> int \<times> 'f audio_out list" where
  "tether_audio_sender_attach env w s name label =
     (case (s, name) of
        (Some v, Some nm) \<Rightarrow>
          (case ae_source env of
             None \<Rightarrow> (w, Some v, -1, [])
           | Some src \<Rightarrow>
               (case tether_webrtc_add_audio_track (ae_track env) (ae_ssrc env) (Some w) label of
                  (w', tid, wo) \<Rightarrow>
                    if tid < 0 then (the w', Some v, -1, map AudioWr wo @ [SourceRelease src])
                    else if \<not> ae_encoder env then (the w', Some v, -1, map AudioWr wo @ [SourceRelease src])
                    else let rate = nat (asc_sample_rate (as_cfg v)); ch = nat (asc_channels (as_cfg v));
                             t = \<lparr>st_track_id = tid, st_source = src, st_source_name = strncpy_buf 256 nm,
                                  st_channels = ch, st_sample_rate = rate,
                                  st_capacity = rate * 200 div 1000 * ch, st_buf = [], st_encoded = 0\<rparr>
                         in (the w', Some (v\<lparr>as_tracks := as_tracks v @ [t]\<rparr>), tid,
                             map AudioWr wo @ [AddCaptureCallback src])))
      | _ \<Rightarrow> (w, s, -1, []))"

definition is_track :: "int \<Rightarrow> 'f sender_track \<Rightarrow> bool" where
  "is_track tid t \<longleftrightarrow> st_track_id t = tid"

definition tether_audio_sender_detach ::
  "'f tether_audio_sender option \<Rightarrow> int \<Rightarrow> 'f tether_audio_sender option \<times> 'f audio_out list" where
  "tether_audio_sender_detach s tid =
     (case s of
        None \<Rightarrow> (None, [])
      | Some v \<Rightarrow>
          (case find (is_track tid) (as_tracks v) of
             None \<Rightarrow> (Some v, [])
           | Some t \<Rightarrow> (Some (v\<lparr>as_tracks := erase_first (is_track tid) (as_tracks v)\<rparr>), detach_outs t)))"

section \<open>The receiver\<close>

record receiver_track =
  rt_track_id :: int
  rt_dec :: nat

record tether_audio_receiver =
  ar_sample_rate :: int
  ar_channels :: int
  ar_tracks :: "receiver_track list"
  ar_bound_source :: "nat option"

definition tether_audio_receiver_create :: "int \<Rightarrow> int \<Rightarrow> tether_audio_receiver" where
  "tether_audio_receiver_create sample_rate channels =
     \<lparr>ar_sample_rate = (if sample_rate \<le> 0 then 48000 else sample_rate),
      ar_channels = (if channels \<le> 0 then 2 else channels), ar_tracks = [], ar_bound_source = None\<rparr>"

definition tether_audio_receiver_bind_source ::
  "nat option \<Rightarrow> tether_audio_receiver option \<Rightarrow> tether_audio_receiver option" where
  "tether_audio_receiver_bind_source src r = map_option (\<lambda>v. v\<lparr>ar_bound_source := src\<rparr>) r"

definition is_rx_track :: "int \<Rightarrow> receiver_track \<Rightarrow> bool" where
  "is_rx_track i t \<longleftrightarrow> rt_track_id t = i"

text \<open>The decoders the release destroys, in its order.\<close>

definition tether_audio_receiver_release :: "tether_audio_receiver option \<Rightarrow> tether_audio_receiver option \<times> nat list" where
  "tether_audio_receiver_release r =
     (None, case r of None \<Rightarrow> [] | Some v \<Rightarrow> map rt_dec (ar_tracks v))"

text \<open>\<open>dec\<close> is the decoder \<open>opus_decoder_create\<close> makes, \<^const>\<open>None\<close> on an error.\<close>

definition get_or_create_track ::
  "nat option \<Rightarrow> int \<Rightarrow> tether_audio_receiver \<Rightarrow> tether_audio_receiver \<times> receiver_track option" where
  "get_or_create_track dec i r =
     (case find (is_rx_track i) (ar_tracks r) of
        Some t \<Rightarrow> (r, Some t)
      | None \<Rightarrow>
          (case dec of
             None \<Rightarrow> (r, None)
           | Some d \<Rightarrow> (let t = \<lparr>rt_track_id = i, rt_dec = d\<rparr> in (r\<lparr>ar_tracks := ar_tracks r @ [t]\<rparr>, Some t))))"

text \<open>What OBS gets: frames, rate, the number of speakers, the planes and the time.\<close>

record 'f audio_output =
  ao_frames :: nat
  ao_rate :: int
  ao_mono :: bool
  ao_planes :: "'f list list"
  ao_timestamp :: u64

definition deinterleave :: "nat \<Rightarrow> nat \<Rightarrow> 'f list \<Rightarrow> 'f list list" where
  "deinterleave channels frames pcm = map (\<lambda>c. map (\<lambda>f. pcm ! (f * channels + c)) [0..<frames]) [0..<channels]"

text \<open>
  \<open>dec\<close> as above; \<open>pcm\<close> is what \<open>opus_decode_float\<close> yields for a decoder and a packet: the number of
  frames it returns and the samples it wrote.
\<close>

definition tether_audio_receiver_push_packet ::
  "u64 \<Rightarrow> nat option \<Rightarrow> (nat \<Rightarrow> u8 list \<Rightarrow> int \<Rightarrow> int \<times> 'f list) \<Rightarrow> int \<Rightarrow> u8 list option \<Rightarrow>
   tether_audio_receiver option \<Rightarrow> tether_audio_receiver option \<times> (nat \<times> 'f audio_output) list" where
  "tether_audio_receiver_push_packet now dec decode tid dat r =
     (case (r, dat) of
        (Some v, Some d) \<Rightarrow>
          (case ar_bound_source v of
             None \<Rightarrow> (Some v, [])
           | Some src \<Rightarrow>
               if d = [] then (Some v, [])
               else case get_or_create_track dec tid v of
                 (v', None) \<Rightarrow> (Some v', [])
               | (v', Some t) \<Rightarrow>
                   (case decode (rt_dec t) d (ar_sample_rate v' * 120 div 1000) of
                      (frames, pcm) \<Rightarrow>
                        if frames \<le> 0 then (Some v', [])
                        else (Some v',
                          [(src, \<lparr>ao_frames = nat frames, ao_rate = ar_sample_rate v',
                             ao_mono = (ar_channels v' = 1),
                             ao_planes = deinterleave (nat (ar_channels v')) (nat frames) pcm,
                             ao_timestamp = now\<rparr>)])))
      | _ \<Rightarrow> (r, []))"

section \<open>The buffer is a queue of blocks\<close>

definition blocks :: "'f audio_out list \<Rightarrow> 'f list list" where
  "blocks outs = concat (map (\<lambda>x. case x of OpusEncode b \<Rightarrow> [b] | _ \<Rightarrow> []) outs)"

lemma blocks_simps [simp]:
  "blocks [] = []" "blocks (xs @ ys) = blocks xs @ blocks ys" "blocks (OpusEncode b # xs) = b # blocks xs"
  "blocks (AudioPush i p # xs) = blocks xs"
  by (simp_all add: blocks_def)

text \<open>The fields an encoding step leaves alone.\<close>

definition track_shape :: "'f sender_track \<Rightarrow> nat \<times> nat \<times> nat \<times> int" where
  "track_shape t = (st_channels t, st_sample_rate t, st_capacity t, st_track_id t)"

lemma needed_shape: "track_shape t' = track_shape t \<Longrightarrow> needed t' = needed t"
  by (simp add: track_shape_def needed_def frame_samples_def)

lemma encode_step:
  assumes "encode_and_send enc t = (t', outs)" and "0 < needed t"
  shows "track_shape t' = track_shape t" and "concat (blocks outs) @ st_buf t' = st_buf t"
    and "\<forall>b \<in> set (blocks outs). length b = needed t"
    and "length (st_buf t') = length (st_buf t) \<longleftrightarrow> length (st_buf t) < needed t"
  using assms by (auto simp: encode_and_send_def track_shape_def Let_def split: if_splits)

lemma drain_queue:
  assumes "drain enc t = (t', outs)" and "0 < needed t"
  shows "track_shape t' = track_shape t \<and> concat (blocks outs) @ st_buf t' = st_buf t \<and>
    (\<forall>b \<in> set (blocks outs). length b = needed t) \<and> length (st_buf t') < needed t"
  using assms
proof (induction enc t arbitrary: t' outs rule: drain.induct)
  case (1 enc t)
  show ?case
  proof (cases "st_buf t = []")
    case True
    with 1 show ?thesis by (subst (asm) drain.simps) auto
  next
    case False
    obtain t1 o1 where e: "encode_and_send enc t = (t1, o1)" by fastforce
    note step = encode_step [OF e "1.prems"(2)]
    show ?thesis
    proof (cases "length (st_buf t1) = length (st_buf t)")
      case True
      have "drain enc t = (t1, o1)" by (subst drain.simps) (simp add: False e True)
      with "1.prems"(1) have "t' = t1" "outs = o1" by simp_all
      with step True show ?thesis by simp
    next
      case more: False
      obtain t2 o2 where d: "drain enc t1 = (t2, o2)" by fastforce
      have "drain enc t = (t2, o1 @ o2)" by (subst drain.simps) (simp add: False e more d)
      with "1.prems"(1) have "t' = t2" "outs = o1 @ o2" by simp_all
      moreover have "track_shape t2 = track_shape t1 \<and> concat (blocks o2) @ st_buf t2 = st_buf t1 \<and>
          (\<forall>b \<in> set (blocks o2). length b = needed t1) \<and> length (st_buf t2) < needed t1"
        by (rule "1.IH" [OF False e [symmetric] more d]) (use "1.prems"(2) needed_shape [OF step(1)] in simp)
      ultimately show ?thesis using step needed_shape [OF step(1)] by auto
    qed
  qed
qed

lemma length_interleave: "length (interleave z ch d) = ad_frames d * ch"
  by (simp add: interleave_def length_concat comp_def sum_list_triv)

lemma capture_no_drop:
  assumes "length (st_buf t) + ad_frames d * st_channels t \<le> st_capacity t"
  shows "on_audio_capture z enc False (Some d) t =
    Some (drain enc (t\<lparr>st_buf := st_buf t @ interleave z (st_channels t) d\<rparr>))"
  using assms by (simp add: on_audio_capture_def make_room_def)

text \<open>A run of capture callbacks, each with its mute flag.\<close>

fun capture_run ::
  "'f \<Rightarrow> (nat \<Rightarrow> 'f list \<Rightarrow> u8 list) \<Rightarrow> (bool \<times> 'f audio_data) list \<Rightarrow> 'f sender_track \<Rightarrow>
   ('f sender_track \<times> 'f audio_out list) option" where
  "capture_run z enc [] t = Some (t, [])"
| "capture_run z enc ((muted, d) # ds) t =
     (case on_audio_capture z enc muted (Some d) t of
        None \<Rightarrow> None
      | Some (t1, o1) \<Rightarrow> map_option (\<lambda>(t2, o2). (t2, o1 @ o2)) (capture_run z enc ds t1))"

definition captured :: "'f \<Rightarrow> nat \<Rightarrow> (bool \<times> 'f audio_data) list \<Rightarrow> 'f list" where
  "captured z ch ds = concat (map (\<lambda>(muted, d). if muted then [] else interleave z ch d) ds)"

lemma capture_run_queue:
  assumes "0 < needed t" and "length (st_buf t) < needed t"
    and "\<forall>(m, d) \<in> set ds. ad_frames d * st_channels t + needed t \<le> st_capacity t"
  shows "\<exists>t' outs. capture_run z enc ds t = Some (t', outs) \<and>
    concat (blocks outs) @ st_buf t' = st_buf t @ captured z (st_channels t) ds \<and>
    (\<forall>b \<in> set (blocks outs). length b = needed t) \<and> length (st_buf t') < needed t"
  using assms
proof (induction ds arbitrary: t)
  case Nil
  then show ?case by (simp add: captured_def)
next
  case (Cons md ds)
  obtain m d where md: "md = (m, d)" by fastforce
  show ?case
  proof (cases m)
    case True
    with Cons md have "on_audio_capture z enc m (Some d) t = Some (t, [])" by (simp add: on_audio_capture_def)
    moreover obtain t' outs where "capture_run z enc ds t = Some (t', outs)"
      "concat (blocks outs) @ st_buf t' = st_buf t @ captured z (st_channels t) ds"
      "\<forall>b \<in> set (blocks outs). length b = needed t" "length (st_buf t') < needed t"
      using Cons.IH [OF Cons.prems(1,2)] Cons.prems(3) by auto
    ultimately show ?thesis using md True by (simp add: captured_def)
  next
    case False
    define u where "u = t\<lparr>st_buf := st_buf t @ interleave z (st_channels t) d\<rparr>"
    obtain t1 o1 where dr: "drain enc u = (t1, o1)" by fastforce
    have fits: "length (st_buf t) + ad_frames d * st_channels t \<le> st_capacity t"
      using Cons.prems md by auto
    have cap: "on_audio_capture z enc m (Some d) t = Some (t1, o1)"
      using capture_no_drop [OF fits, of z enc] False dr by (simp add: u_def)
    have shape_u: "track_shape u = track_shape t" by (simp add: u_def track_shape_def)
    note q = drain_queue [OF dr]
    have n: "needed u = needed t" by (rule needed_shape [OF shape_u])
    with q Cons.prems(1) have q: "track_shape t1 = track_shape t" "concat (blocks o1) @ st_buf t1 = st_buf u"
      "\<forall>b \<in> set (blocks o1). length b = needed t" "length (st_buf t1) < needed t"
      using shape_u by auto
    have n1: "needed t1 = needed t" by (rule needed_shape [OF q(1)])
    have s1: "st_channels t1 = st_channels t" "st_capacity t1 = st_capacity t" using q(1) by (simp_all add: track_shape_def)
    obtain t2 o2 where r: "capture_run z enc ds t1 = Some (t2, o2)"
      "concat (blocks o2) @ st_buf t2 = st_buf t1 @ captured z (st_channels t) ds"
      "\<forall>b \<in> set (blocks o2). length b = needed t" "length (st_buf t2) < needed t"
      using Cons.IH [of t1] Cons.prems q(4) unfolding n1 s1 by auto
    have "concat (blocks (o1 @ o2)) @ st_buf t2 = concat (blocks o1) @ st_buf t1 @ captured z (st_channels t) ds"
      using r(2) by simp
    also have "\<dots> = st_buf u @ captured z (st_channels t) ds" using q(2) by (metis append.assoc)
    finally have "concat (blocks (o1 @ o2)) @ st_buf t2 = st_buf t @ captured z (st_channels t) (md # ds)"
      using md False by (simp add: u_def captured_def)
    then show ?thesis using cap r q(3) md by auto
  qed
qed

section \<open>Interleaving and back\<close>

lemma interleave_nth:
  assumes "f < ad_frames d" and "c < ch"
  shows "interleave z ch d ! (f * ch + c) = plane_sample z d c f"
proof -
  have "concat (map (\<lambda>f. map (\<lambda>c. plane_sample z d c f) [0..<ch]) [0..<n]) ! (f * ch + c) = plane_sample z d c f"
    if "f < n" for n
    using that
  proof (induction n)
    case (Suc n)
    let ?xs = "concat (map (\<lambda>f. map (\<lambda>c. plane_sample z d c f) [0..<ch]) [0..<n])"
    have len: "length ?xs = n * ch" by (simp add: length_concat comp_def sum_list_triv)
    show ?case
    proof (cases "f < n")
      case True
      then have "Suc f \<le> n" by simp
      then have "Suc f * ch \<le> n * ch" by (rule mult_le_mono1)
      with assms(2) have "f * ch + c < n * ch" by simp
      with True Suc len show ?thesis by (simp add: nth_append)
    next
      case False
      with Suc have "f = n" by simp
      with len assms(2) show ?thesis by (simp add: nth_append)
    qed
  qed simp
  then show ?thesis using assms(1) by (simp add: interleave_def)
qed

lemma deinterleave_interleave:
  "deinterleave ch (ad_frames d) (interleave z ch d) =
    map (\<lambda>c. map (\<lambda>f. plane_sample z d c f) [0..<ad_frames d]) [0..<ch]"
  unfolding deinterleave_def by (simp add: interleave_nth)

section \<open>References to OBS sources\<close>

datatype aud_op = AudAttach attach_env string "string option" | AudDetach int

fun aud_step ::
  "aud_op \<Rightarrow> tether_webrtc \<times> 'f tether_audio_sender option \<times> 'f audio_out list \<Rightarrow>
   tether_webrtc \<times> 'f tether_audio_sender option \<times> 'f audio_out list" where
  "aud_step (AudAttach env name label) (w, s, log) =
     (case tether_audio_sender_attach env w s (Some name) label of (w', s', tid, outs) \<Rightarrow> (w', s', log @ outs))"
| "aud_step (AudDetach tid) (w, s, log) =
     (case tether_audio_sender_detach s tid of (s', outs) \<Rightarrow> (w, s', log @ outs))"

text \<open>The references \<open>obs_get_source_by_name\<close> handed out, and the ones given back.\<close>

definition acquired :: "aud_op list \<Rightarrow> nat multiset" where
  "acquired ops = mset (concat (map (\<lambda>op. case op of
     AudAttach env name label \<Rightarrow> (case ae_source env of None \<Rightarrow> [] | Some src \<Rightarrow> [src]) | _ \<Rightarrow> []) ops))"

definition released :: "'f audio_out list \<Rightarrow> nat multiset" where
  "released outs = mset (concat (map (\<lambda>x. case x of SourceRelease src \<Rightarrow> [src] | _ \<Rightarrow> []) outs))"

lemma released_simps [simp]:
  "released [] = {#}" "released (xs @ ys) = released xs + released ys"
  "released (SourceRelease src # xs) = add_mset src (released xs)"
  "released (AddCaptureCallback src # xs) = released xs" "released (RemoveCaptureCallback src # xs) = released xs"
  "released (map AudioWr ws) = {#}"
  by (simp_all add: released_def comp_def)

lemma acquired_Cons:
  "acquired (op # ops) = acquired [op] + acquired ops"
  by (simp add: acquired_def)

lemma mset_erase_first: "find p xs = Some x \<Longrightarrow> mset xs = add_mset x (mset (erase_first p xs))"
  by (induction xs) (auto split: if_splits)

definition held_sources :: "'f tether_audio_sender option \<Rightarrow> nat multiset" where
  "held_sources s = (case s of None \<Rightarrow> {#} | Some v \<Rightarrow> mset (map st_source (as_tracks v)))"

lemma aud_step_refs:
  assumes "aud_step op (w, Some v, log) = (w', s', log')"
  shows "\<exists>v'. s' = Some v'" and "released log' + held_sources s' = released log + held_sources (Some v) + acquired [op]"
proof -
  have "(\<exists>v'. s' = Some v') \<and> released log' + held_sources s' = released log + held_sources (Some v) + acquired [op]"
  proof (cases op)
    case (AudAttach env name label)
    with assms show ?thesis
      by (auto simp: tether_audio_sender_attach_def acquired_def held_sources_def Let_def
          split: option.splits prod.splits if_splits)
  next
    case (AudDetach tid)
    with assms show ?thesis
      by (auto simp: tether_audio_sender_detach_def acquired_def held_sources_def detach_outs_def
          split: option.splits dest: mset_erase_first)
  qed
  then show "\<exists>v'. s' = Some v'" and "released log' + held_sources s' = released log + held_sources (Some v) + acquired [op]"
    by blast+
qed

lemma aud_run_refs:
  "fold aud_step ops (w, Some v, log) = (w', s', log') \<Longrightarrow>
    (\<exists>v'. s' = Some v') \<and> released log' + held_sources s' = released log + held_sources (Some v) + acquired ops"
proof (induction ops arbitrary: w v log)
  case Nil
  then show ?case by (auto simp: acquired_def)
next
  case (Cons op ops)
  obtain w1 s1 log1 where st: "aud_step op (w, Some v, log) = (w1, s1, log1)" by (metis prod_cases3)
  with aud_step_refs [OF st] obtain v1 where v1: "s1 = Some v1"
    "released log1 + held_sources (Some v1) = released log + held_sources (Some v) + acquired [op]" by auto
  have "fold aud_step ops (w1, Some v1, log1) = (w', s', log')" using Cons.prems st v1 by simp
  from Cons.IH [OF this] v1(2) show ?case by (simp add: acquired_Cons [of op ops] ac_simps)
qed

lemma released_detach: "released (concat (map detach_outs ts)) = mset (map st_source ts)"
  by (induction ts) (simp_all add: detach_outs_def)

section \<open>Properties\<close>

text \<open>C10: no sample is lost, repeated or reordered: on a freshly attached track, when no callback brings
  more than 180 ms of audio, any run of captures is encoded in blocks of exactly 20 ms whose
  concatenation, followed by the less than one block still waiting, is exactly the interleaved samples
  of the callbacks that were not muted.\<close>

theorem capture_is_lossless:
  assumes "tether_audio_sender_attach env w (Some v) (Some nm) label = (w', Some v', tid, outs0)" and "0 \<le> tid"
    and "t = last (as_tracks v')" and "1000 \<le> asc_sample_rate (as_cfg v)" and "0 < asc_channels (as_cfg v)"
    and "\<forall>(m, d) \<in> set ds. ad_frames d + frame_samples t \<le> nat (asc_sample_rate (as_cfg v)) * 200 div 1000"
  shows "\<exists>t' outs. capture_run z enc ds t = Some (t', outs) \<and>
    concat (blocks outs) @ st_buf t' = captured z (nat (asc_channels (as_cfg v))) ds \<and>
    (\<forall>b \<in> set (blocks outs). length b = frame_samples t * nat (asc_channels (as_cfg v))) \<and>
    length (st_buf t') < needed t"
proof -
  have t: "st_buf t = []" "st_channels t = nat (asc_channels (as_cfg v))"
    "st_sample_rate t = nat (asc_sample_rate (as_cfg v))"
    "st_capacity t = nat (asc_sample_rate (as_cfg v)) * 200 div 1000 * nat (asc_channels (as_cfg v))"
    using assms(1-3)
    by (auto simp: tether_audio_sender_attach_def Let_def split: option.splits prod.splits if_splits)
  have "1000 \<le> st_sample_rate t" using assms(4) t(3) by simp
  then have "0 < frame_samples t" by (simp add: frame_samples_def OPUS_FRAME_SIZE_MS_def div_greater_zero_iff)
  then have pos: "0 < needed t" using assms(5) t(2) by (simp add: needed_def)
  have "\<forall>(m, d) \<in> set ds. ad_frames d * st_channels t + needed t \<le> st_capacity t"
  proof (clarsimp simp: needed_def)
    fix m d assume "(m, d) \<in> set ds"
    with assms(6) have "ad_frames d + frame_samples t \<le> nat (asc_sample_rate (as_cfg v)) * 200 div 1000" by auto
    then have "(ad_frames d + frame_samples t) * st_channels t \<le> st_capacity t"
      unfolding t(4) t(2) by (rule mult_le_mono1)
    then show "ad_frames d * st_channels t + frame_samples t * st_channels t \<le> st_capacity t"
      by (simp add: add_mult_distrib)
  qed
  from capture_run_queue [OF pos _ this, of z enc] pos t(1,2) show ?thesis by (simp add: needed_def)
qed

definition demo_attach :: attach_env where
  "demo_attach = \<lparr>ae_source = Some 3, ae_track = 50, ae_ssrc = 0, ae_encoder = True\<rparr>"

definition demo_audio :: "nat tether_audio_sender" where
  "demo_audio = tether_audio_sender_create \<lparr>asc_sample_rate = 1000, asc_channels = 2, asc_bitrate_kbps = 0\<rparr>"

definition demo_data :: "nat audio_data" where
  "demo_data = \<lparr>ad_frames = 30, ad_plane = (\<lambda>c. if c = 0 then Some [0..<30] else None)\<rparr>"

lemma capture_is_lossless_witness:
  "\<exists>w' v' outs0 t' outs. tether_audio_sender_attach demo_attach demo_wr (Some demo_audio) (Some ''Mic'') None =
      (w', Some v', 1, outs0) \<and>
    capture_run 0 (\<lambda>k b. [9]) [(False, demo_data), (True, demo_data), (False, demo_data)] (last (as_tracks v')) =
      Some (t', outs) \<and>
    concat (blocks outs) @ st_buf t' =
      captured 0 2 [(False, demo_data), (True, demo_data), (False, demo_data)]"
proof -
  obtain w' v' outs0 where a: "tether_audio_sender_attach demo_attach demo_wr (Some demo_audio) (Some ''Mic'') None =
      (w', Some v', 1, outs0)"
    and rate: "st_sample_rate (last (as_tracks v')) = 1000"
    by (simp add: tether_audio_sender_attach_def demo_attach_def demo_audio_def tether_audio_sender_create_def
        tether_webrtc_add_audio_track_def push_track_def demo_wr_def Let_def)
  then have "\<forall>(m, d) \<in> set [(False, demo_data), (True, demo_data), (False, demo_data)].
      ad_frames d + frame_samples (last (as_tracks v')) \<le> nat (asc_sample_rate (as_cfg demo_audio)) * 200 div 1000"
    by (simp add: frame_samples_def OPUS_FRAME_SIZE_MS_def demo_data_def demo_audio_def tether_audio_sender_create_def)
  from capture_is_lossless [OF a _ refl _ _ this, of 0 "\<lambda>k b. [9]"] a show ?thesis
    by (auto simp: demo_audio_def tether_audio_sender_create_def)
qed

text \<open>The buffer's bounds: a callback stays inside the buffer exactly when it brings no more than the
  whole buffer holds (200 ms), and then leaves less than one block in it, whatever older samples had to be
  dropped; a longer one would move memory from before the buffer, as no check stops it.\<close>

theorem capture_bounds:
  assumes "length (st_buf t) \<le> st_capacity t" and "0 < needed t"
  shows "case on_audio_capture z enc False (Some d) t of
      None \<Rightarrow> st_capacity t < ad_frames d * st_channels t
    | Some (t', outs) \<Rightarrow> ad_frames d * st_channels t \<le> st_capacity t \<and> st_capacity t' = st_capacity t \<and>
        length (st_buf t') < needed t \<and> (\<exists>old. st_buf t = old @ drop (length old) (st_buf t) \<and>
          concat (blocks outs) @ st_buf t' = drop (length old) (st_buf t) @ interleave z (st_channels t) d)"
proof (cases "make_room (ad_frames d * st_channels t) t")
  case None
  then show ?thesis using assms(1) by (auto simp: on_audio_capture_def make_room_def Let_def split: if_splits)
next
  case (Some t1)
  define k where "k = length (st_buf t) + ad_frames d * st_channels t - st_capacity t"
  have k: "k \<le> length (st_buf t)" and t1: "t1 = t\<lparr>st_buf := drop k (st_buf t)\<rparr>"
    using Some by (auto simp: make_room_def k_def Let_def split: if_splits)
  define u where "u = t1\<lparr>st_buf := st_buf t1 @ interleave z (st_channels t1) d\<rparr>"
  obtain t' outs where d: "drain enc u = (t', outs)" by fastforce
  have shape: "track_shape u = track_shape t" by (simp add: u_def t1 track_shape_def)
  then have n: "needed u = needed t" by (rule needed_shape)
  note q = drain_queue [OF d, unfolded n, OF assms(2)]
  have "st_capacity t' = st_capacity t" using q shape by (simp add: track_shape_def)
  moreover have "concat (blocks outs) @ st_buf t' = drop k (st_buf t) @ interleave z (st_channels t) d"
    using q by (simp add: u_def t1)
  moreover have "st_buf t = take k (st_buf t) @ drop (length (take k (st_buf t))) (st_buf t)"
    using k by (simp add: min_def)
  moreover have "ad_frames d * st_channels t \<le> st_capacity t" using k by (simp add: k_def)
  moreover have "on_audio_capture z enc False (Some d) t = Some (t', outs)"
    using Some d by (simp add: on_audio_capture_def u_def)
  ultimately show ?thesis using q k
    by (auto simp: min_def intro!: exI [of _ "take k (st_buf t)"])
qed

definition demo_track :: "nat sender_track" where
  "demo_track = \<lparr>st_track_id = 1, st_source = 3, st_source_name = ''Mic'', st_channels = 2, st_sample_rate = 1000,
     st_capacity = 400, st_buf = [], st_encoded = 0\<rparr>"

lemma capture_bounds_witness:
  "case on_audio_capture 0 (\<lambda>k b. []) False (Some (demo_data\<lparr>ad_frames := 201\<rparr>)) demo_track of
     None \<Rightarrow> (400 :: nat) < 201 * 2 | Some (t', outs) \<Rightarrow> (402 :: nat) \<le> 400"
proof -
  have "needed demo_track = 40" by (simp add: needed_def frame_samples_def OPUS_FRAME_SIZE_MS_def demo_track_def)
  then have "length (st_buf demo_track) \<le> st_capacity demo_track" "0 < needed demo_track" by (simp_all add: demo_track_def)
  from capture_bounds [OF this, where z = 0 and enc = "\<lambda>k b. []" and d = "demo_data\<lparr>ad_frames := 201\<rparr>"] show ?thesis
    by (auto simp: demo_track_def split: option.splits)
qed

text \<open>Planes survive the trip: when the decoder gives back the samples of a callback that the sender
  interleaved, the receiver outputs to its source exactly the planes of that callback (silence for a NULL
  plane), as mono exactly when there is one channel.\<close>

theorem planes_round_trip:
  assumes "ar_bound_source r = Some src" and "get_or_create_track dec tid r = (r', Some t)"
    and "decode (rt_dec t) pkt (ar_sample_rate r' * 120 div 1000) = (int (ad_frames d), interleave z (nat (ar_channels r')) d)"
    and "0 < ad_frames d" and "pkt \<noteq> []"
  shows "tether_audio_receiver_push_packet now dec decode tid (Some pkt) (Some r) =
    (Some r', [(src, \<lparr>ao_frames = ad_frames d, ao_rate = ar_sample_rate r', ao_mono = (ar_channels r' = 1),
      ao_planes = map (\<lambda>c. map (\<lambda>f. plane_sample z d c f) [0..<ad_frames d]) [0..<nat (ar_channels r')],
      ao_timestamp = now\<rparr>)])"
  using assms by (simp add: tether_audio_receiver_push_packet_def deinterleave_interleave)

lemma planes_round_trip_witness:
  "ao_planes (snd (hd (snd (tether_audio_receiver_push_packet 5 (Some 8)
      (\<lambda>k p m. (2, [1, 0, 2, 0 :: int])) 0 (Some [7])
      (tether_audio_receiver_bind_source (Some 4) (Some (tether_audio_receiver_create 0 0))))))) = [[1, 2], [0, 0]]"
proof -
  let ?d = "\<lparr>ad_frames = 2, ad_plane = (\<lambda>c. if c = 0 then Some [1, 2 :: int] else None)\<rparr>"
  let ?r = "(tether_audio_receiver_create 0 0)\<lparr>ar_bound_source := Some 4\<rparr>"
  let ?r' = "?r\<lparr>ar_tracks := [\<lparr>rt_track_id = 0, rt_dec = 8\<rparr>]\<rparr>"
  have il: "interleave 0 2 ?d = [1, 0, 2, 0]"
    by (simp add: interleave_def plane_sample_def upt_rec)
  have "tether_audio_receiver_push_packet 5 (Some 8) (\<lambda>k p m. (2, [1, 0, 2, 0 :: int])) 0 (Some [7]) (Some ?r) =
      (Some ?r', [(4, \<lparr>ao_frames = ad_frames ?d, ao_rate = ar_sample_rate ?r', ao_mono = (ar_channels ?r' = 1),
        ao_planes = map (\<lambda>c. map (\<lambda>f. plane_sample 0 ?d c f) [0..<ad_frames ?d]) [0..<nat (ar_channels ?r')],
        ao_timestamp = 5\<rparr>)])"
    by (rule planes_round_trip [where t = "\<lparr>rt_track_id = 0, rt_dec = 8\<rparr>"])
       (use il in \<open>simp_all add: get_or_create_track_def tether_audio_receiver_create_def Let_def\<close>)
  then show ?thesis
    by (simp add: tether_audio_receiver_bind_source_def plane_sample_def upt_rec tether_audio_receiver_create_def)
qed

text \<open>C40: source references are balanced: over any run of attachments (whatever fails in them) and
  detachments, followed by the release of the sender, every reference \<open>obs_get_source_by_name\<close> handed out
  is given back exactly once.\<close>

theorem source_references_balanced:
  assumes "fold aud_step ops (w, Some (tether_audio_sender_create cfg), []) = (w', s', log)"
  shows "released (log @ tether_audio_sender_release s') = acquired ops"
proof -
  from aud_run_refs [OF assms] obtain v' where v': "s' = Some v'"
    "released log + held_sources (Some v') = acquired ops"
    by (auto simp: tether_audio_sender_create_def held_sources_def)
  then show ?thesis by (simp add: tether_audio_sender_release_def released_detach held_sources_def)
qed

lemma source_references_balanced_witness:
  "\<exists>w' s' log. fold aud_step [AudAttach demo_attach ''Mic'' None, AudAttach (demo_attach\<lparr>ae_encoder := False\<rparr>) ''Pad'' None,
      AudDetach 1] (demo_wr, Some demo_audio, []) = (w', s', log) \<and>
    released (log @ tether_audio_sender_release s') = {#3, 3#}"
proof -
  let ?ops = "[AudAttach demo_attach ''Mic'' None, AudAttach (demo_attach\<lparr>ae_encoder := False\<rparr>) ''Pad'' None, AudDetach 1]"
  obtain w' s' log where run: "fold aud_step ?ops (demo_wr, Some demo_audio, []) = (w', s', log)" by (metis prod_cases3)
  from source_references_balanced [OF run [unfolded demo_audio_def]] run show ?thesis
    by (auto simp: acquired_def demo_attach_def)
qed

end
