(* ===== verification/Capture.thy ===== *)
theory Capture
  imports Interfaces "HOL-Library.Multiset"
begin

text \<open>
  The video pipeline of \<open>src/sender.c\<close>: the H.264 encoder one receiver has for one captured source
  (\<open>ensure_source_encoder\<close>, \<open>release_source_encoder\<close>, the encoding of one frame), and the
  capture of a source into a one-frame buffer that the graphics thread fills and the worker empties
  (\<open>capture_one\<close>, the body of \<open>encoder_worker_main\<close>). What FFmpeg and OBS return is an argument of
  the operation that calls them.
\<close>

section \<open>The encoder of one source\<close>

text \<open>The parameters an \<open>AVCodecContext\<close> is opened with.\<close>

record codec_context =
  cx_width :: int
  cx_height :: int
  cx_time_base :: "int \<times> int"
  cx_framerate :: "int \<times> int"
  cx_gop_size :: int
  cx_max_b_frames :: int
  cx_bit_rate :: int
  cx_options :: "(string \<times> string) list"

text \<open>The input frame: its size (0 until set) and whether it has buffers.\<close>

record enc_frame =
  ef_width :: int
  ef_height :: int
  ef_buffers :: bool

record source_encoder =
  se_video_track_id :: int
  se_mid :: string
  se_enc :: "codec_context option"
  se_enc_in :: "enc_frame option"
  se_enc_pkt :: bool
  se_sws :: bool
  se_enc_width :: int
  se_enc_height :: int
  se_frame_pts :: int

datatype ff_object = FfCodec | FfFrame | FfPacket | FfScaler

datatype ff_out = FfAlloc ff_object | FfFree ff_object

text \<open>What FFmpeg answers while one frame is encoded.\<close>

record enc_env =
  ee_codec :: bool
  ee_context :: bool
  ee_open :: int
  ee_frame :: bool
  ee_packet :: bool
  ee_buffer :: int
  ee_scaler :: bool
  ee_send :: int
  ee_packets :: "(u8 list \<times> int) list"

text \<open>The objects an encoder has, in the order they are freed.\<close>

definition encoder_frees :: "source_encoder \<Rightarrow> ff_out list" where
  "encoder_frees r =
     (if se_sws r then [FfFree FfScaler] else []) @
     (if se_enc_pkt r then [FfFree FfPacket] else []) @
     (if se_enc_in r \<noteq> None then [FfFree FfFrame] else []) @
     (if se_enc r \<noteq> None then [FfFree FfCodec] else [])"

definition codec_parameters :: "int \<Rightarrow> int \<Rightarrow> int \<Rightarrow> codec_context" where
  "codec_parameters w h bitrate_kbps =
     \<lparr>cx_width = w, cx_height = h, cx_time_base = (1, 1000000), cx_framerate = (30, 1),
      cx_gop_size = 60, cx_max_b_frames = 0, cx_bit_rate = bitrate_kbps * 1000,
      cx_options = [(''preset'', ''veryfast''), (''tune'', ''zerolatency''), (''profile'', ''baseline'')]\<rparr>"

definition ensure_source_encoder ::
  "enc_env \<Rightarrow> source_encoder \<Rightarrow> int \<Rightarrow> int \<Rightarrow> int \<Rightarrow> source_encoder \<times> bool \<times> ff_out list" where
  "ensure_source_encoder env r w h bitrate_kbps =
     (if se_enc r \<noteq> None \<and> se_enc_width r = w \<and> se_enc_height r = h then (r, True, [])
      else
        let o0 = encoder_frees r;
            r0 = r\<lparr>se_sws := False, se_enc_pkt := False, se_enc_in := None, se_enc := None,
                   se_enc_width := w, se_enc_height := h, se_frame_pts := 0\<rparr> in
        if \<not> ee_codec env then (r0, False, o0)
        else if \<not> ee_context env then (r0, False, o0)
        else if ee_open env < 0 then (r0, False, o0 @ [FfAlloc FfCodec, FfFree FfCodec])
        else
          let r1 = r0\<lparr>se_enc := Some (codec_parameters w h bitrate_kbps),
                      se_enc_in := (if ee_frame env then Some \<lparr>ef_width = 0, ef_height = 0, ef_buffers = False\<rparr> else None),
                      se_enc_pkt := ee_packet env\<rparr>;
              o1 = o0 @ [FfAlloc FfCodec] @ (if ee_frame env then [FfAlloc FfFrame] else []) @
                   (if ee_packet env then [FfAlloc FfPacket] else []) in
          if \<not> ee_frame env \<or> \<not> ee_packet env then (r1, False, o1)
          else if ee_buffer env < 0
          then (r1\<lparr>se_enc_in := Some \<lparr>ef_width = w, ef_height = h, ef_buffers = False\<rparr>\<rparr>, False, o1)
          else (r1\<lparr>se_enc_in := Some \<lparr>ef_width = w, ef_height = h, ef_buffers = True\<rparr>, se_sws := ee_scaler env\<rparr>,
                ee_scaler env, o1 @ (if ee_scaler env then [FfAlloc FfScaler] else [])))"

definition release_source_encoder :: "source_encoder option \<Rightarrow> ff_out list" where
  "release_source_encoder e = (case e of None \<Rightarrow> [] | Some r \<Rightarrow> encoder_frees r)"

text \<open>A captured frame: its bytes, size and line size.\<close>

record bgra_frame =
  bf_data :: "u8 list"
  bf_width :: u32
  bf_height :: u32
  bf_linesize :: u32

text \<open>What one session does with a frame: FFmpeg's objects, the scaled frame with its time, and packets.\<close>

datatype enc_out =
    EncFf ff_out
  | EncFrame bgra_frame int
  | EncPacket int "u8 list" int

text \<open>
  The body of the loop of \<open>encode_capture_to_sessions\<close>: \<^const>\<open>None\<close> when it would scale with a NULL
  scaler or into a frame without buffers. The conversion of width and height to \<open>int\<close> is written out.
\<close>

definition int_of_u32 :: "u32 \<Rightarrow> int" where
  "int_of_u32 x = sint x"

definition encode_frame ::
  "enc_env \<Rightarrow> int \<Rightarrow> bgra_frame \<Rightarrow> source_encoder \<Rightarrow> (source_encoder \<times> enc_out list) option" where
  "encode_frame env br fr se =
     (case ensure_source_encoder env se (int_of_u32 (bf_width fr)) (int_of_u32 (bf_height fr)) br of
        (se1, False, o1) \<Rightarrow> Some (se1, map EncFf o1)
      | (se1, True, o1) \<Rightarrow>
          if \<not> se_sws se1 \<or> \<not> (\<exists>f. se_enc_in se1 = Some f \<and> ef_buffers f) then None
          else Some (se1\<lparr>se_frame_pts := se_frame_pts se1 + 1\<rparr>,
            map EncFf o1 @ [EncFrame fr (se_frame_pts se1)] @
            (if ee_send env < 0 then []
             else map (\<lambda>(dat, pts). EncPacket (se_video_track_id se1) dat pts) (ee_packets env))))"

section \<open>Capturing a source\<close>

record video_capture =
  vc_source_name :: string
  vc_mid :: string
  vc_texrender :: bool
  vc_stagesurf :: bool
  vc_stage_w :: u32
  vc_stage_h :: u32
  vc_latest_frame :: "u8 list"
  vc_frame_w :: u32
  vc_frame_h :: u32
  vc_frame_linesize :: u32
  vc_frame_ready :: bool

text \<open>
  What OBS answers during one capture: the source of the name with the reference it carries, its size,
  whether the renderer, the surface and the pass could be made, and the mapped surface.
\<close>

record cap_env =
  ce_source :: "nat option"
  ce_width :: u32
  ce_height :: u32
  ce_texrender :: bool
  ce_stagesurf :: bool
  ce_begin :: bool
  ce_map :: "(u8 list \<times> u32) option"

datatype cap_out =
    CapRelease nat
  | CapCreateTexrender
  | CapDestroySurface
  | CapCreateSurface u32 u32
  | CapRender nat u32 u32
  | CapSignal

text \<open>\<open>memcpy\<close> of \<open>need\<close> bytes into the buffer, which is replaced by a larger one when it is too small.\<close>

definition fill_buffer :: "nat \<Rightarrow> u8 list \<Rightarrow> u8 list \<Rightarrow> u8 list" where
  "fill_buffer need dat buf = take need dat @ (if length buf < need then [] else drop need buf)"

definition frame_bytes :: "u32 \<Rightarrow> u32 \<Rightarrow> nat" where
  "frame_bytes linesize h = unat linesize * unat h"

definition capture_one :: "cap_env \<Rightarrow> video_capture \<Rightarrow> video_capture \<times> cap_out list" where
  "capture_one env cap =
     (case ce_source env of
        None \<Rightarrow> (cap, [])
      | Some src \<Rightarrow>
          let w = ce_width env; h = ce_height env in
          if w = 0 \<or> h = 0 then (cap, [CapRelease src])
          else
            let c1 = (if vc_texrender cap then cap else cap\<lparr>vc_texrender := ce_texrender env\<rparr>);
                o1 = (if vc_texrender cap then [] else [CapCreateTexrender]);
                fresh = (vc_stage_w c1 \<noteq> w \<or> vc_stage_h c1 \<noteq> h);
                c2 = (if fresh then c1\<lparr>vc_stagesurf := ce_stagesurf env, vc_stage_w := w, vc_stage_h := h\<rparr> else c1);
                o2 = (if fresh then (if vc_stagesurf c1 then [CapDestroySurface] else []) @ [CapCreateSurface w h]
                      else []) in
            if \<not> ce_begin env then (c2, o1 @ o2 @ [CapRelease src])
            else case ce_map env of
              None \<Rightarrow> (c2, o1 @ o2 @ [CapRender src w h, CapRelease src])
            | Some (dat, linesize) \<Rightarrow>
                (c2\<lparr>vc_latest_frame := fill_buffer (frame_bytes linesize h) dat (vc_latest_frame c2),
                    vc_frame_w := w, vc_frame_h := h, vc_frame_linesize := linesize, vc_frame_ready := True\<rparr>,
                 o1 @ o2 @ [CapRender src w h, CapSignal, CapRelease src]))"

text \<open>The worker takes the frame of one capture: the body of its \<open>for\<close> loop up to the encoding.\<close>

definition take_frame :: "video_capture \<Rightarrow> video_capture \<times> bgra_frame option" where
  "take_frame cap =
     (if \<not> vc_frame_ready cap then (cap, None)
      else (cap\<lparr>vc_frame_ready := False\<rparr>,
        Some \<lparr>bf_data = take (frame_bytes (vc_frame_linesize cap) (vc_frame_h cap)) (vc_latest_frame cap),
              bf_width = vc_frame_w cap, bf_height = vc_frame_h cap, bf_linesize = vc_frame_linesize cap\<rparr>))"

text \<open>The loop in which the worker decides whether to wait.\<close>

definition any_ready :: "video_capture list \<Rightarrow> bool" where
  "any_ready caps \<longleftrightarrow> (\<exists>c \<in> set caps. vc_frame_ready c)"

section \<open>Objects are freed once\<close>

definition ff_allocs :: "ff_out list \<Rightarrow> ff_object multiset" where
  "ff_allocs os = mset (List.map_filter (\<lambda>u. case u of FfAlloc x \<Rightarrow> Some x | FfFree x \<Rightarrow> None) os)"

definition ff_frees :: "ff_out list \<Rightarrow> ff_object multiset" where
  "ff_frees os = mset (List.map_filter (\<lambda>u. case u of FfFree x \<Rightarrow> Some x | FfAlloc x \<Rightarrow> None) os)"

lemma ff_counts [simp]:
  "ff_allocs [] = {#}" "ff_frees [] = {#}"
  "ff_allocs (FfAlloc x # os) = add_mset x (ff_allocs os)" "ff_frees (FfAlloc x # os) = ff_frees os"
  "ff_allocs (FfFree x # os) = ff_allocs os" "ff_frees (FfFree x # os) = add_mset x (ff_frees os)"
  "ff_allocs (os @ ps) = ff_allocs os + ff_allocs ps" "ff_frees (os @ ps) = ff_frees os + ff_frees ps"
  by (simp_all add: ff_allocs_def ff_frees_def map_filter_simps List.map_filter_def)

text \<open>What the encoder has is what its release frees.\<close>

definition ff_held :: "source_encoder \<Rightarrow> ff_object multiset" where
  "ff_held r = ff_frees (encoder_frees r)"

lemma ff_held_simps:
  "ff_held r = (if se_sws r then {#FfScaler#} else {#}) + (if se_enc_pkt r then {#FfPacket#} else {#}) +
     (if se_enc_in r \<noteq> None then {#FfFrame#} else {#}) + (if se_enc r \<noteq> None then {#FfCodec#} else {#})"
  by (simp add: ff_held_def encoder_frees_def)

lemma encoder_frees_counts [simp]:
  "ff_allocs (encoder_frees r) = {#}" "ff_frees (encoder_frees r) = ff_held r"
  by (simp_all add: ff_held_def encoder_frees_def)

lemma ensure_objects:
  assumes "ensure_source_encoder env r w h br = (r', ok, os)"
  shows "ff_held r + ff_allocs os = ff_held r' + ff_frees os"
proof (cases "se_enc r \<noteq> None \<and> se_enc_width r = w \<and> se_enc_height r = h")
  case True
  with assms show ?thesis by (auto simp: ensure_source_encoder_def)
next
  case False
  note en = assms [unfolded ensure_source_encoder_def Let_def if_not_P [OF False]]
  consider "\<not> ee_codec env \<or> \<not> ee_context env" | "ee_codec env" "ee_context env" "ee_open env < 0"
    | "ee_codec env" "ee_context env" "\<not> ee_open env < 0" "\<not> ee_frame env \<or> \<not> ee_packet env"
    | "ee_codec env" "ee_context env" "\<not> ee_open env < 0" "ee_frame env" "ee_packet env" "ee_buffer env < 0"
    | "ee_codec env" "ee_context env" "\<not> ee_open env < 0" "ee_frame env" "ee_packet env" "\<not> ee_buffer env < 0"
    by blast
  then show ?thesis
  proof cases
    case 1
    with en show ?thesis by (elim disjE; cases "ee_codec env") (auto simp: ff_held_simps [of r'])
  next
    case 2
    with en show ?thesis by (auto simp: ff_held_simps [of r'])
  next
    case 3
    with en show ?thesis by (cases "ee_frame env"; cases "ee_packet env") (auto simp: ff_held_simps [of r'])
  next
    case 4
    with en show ?thesis by (auto simp: ff_held_simps [of r'])
  next
    case 5
    with en show ?thesis by (cases "ee_scaler env") (auto simp: ff_held_simps [of r'])
  qed
qed

fun ensure_step :: "enc_env \<times> int \<times> int \<times> int \<Rightarrow> source_encoder \<times> ff_out list \<Rightarrow> source_encoder \<times> ff_out list" where
  "ensure_step (env, w, h, br) (r, log) =
     (case ensure_source_encoder env r w h br of (r', _, os) \<Rightarrow> (r', log @ os))"

definition encoder_account :: "source_encoder \<times> ff_out list \<Rightarrow> bool" where
  "encoder_account x \<longleftrightarrow> ff_allocs (snd x) = ff_held (fst x) + ff_frees (snd x)"

interpretation encoder: invariant_machine ensure_step encoder_account
proof
  fix s :: "source_encoder \<times> ff_out list" and op :: "enc_env \<times> int \<times> int \<times> int"
  assume inv: "encoder_account s"
  obtain r log where s: "s = (r, log)" by fastforce
  obtain env w h br where op: "op = (env, w, h, br)" by (metis prod_cases4)
  obtain r' ok os where en: "ensure_source_encoder env r w h br = (r', ok, os)" by (metis prod_cases3)
  from ensure_objects [OF en] inv show "encoder_account (ensure_step op s)"
    by (simp add: s op en encoder_account_def ac_simps)
qed

text \<open>The encoder \<open>create_session\<close> allocates: everything zero but the track and the mid.\<close>

definition new_encoder :: "int \<Rightarrow> string \<Rightarrow> source_encoder" where
  "new_encoder tid mid = \<lparr>se_video_track_id = tid, se_mid = strncpy_buf 64 mid, se_enc = None, se_enc_in = None,
     se_enc_pkt = False, se_sws = False, se_enc_width = 0, se_enc_height = 0, se_frame_pts = 0\<rparr>"

section \<open>A working encoder\<close>

definition ffmpeg_works :: "enc_env \<Rightarrow> bool" where
  "ffmpeg_works env \<longleftrightarrow> ee_codec env \<and> ee_context env \<and> 0 \<le> ee_open env \<and> ee_frame env \<and> ee_packet env \<and>
     0 \<le> ee_buffer env \<and> ee_scaler env"

text \<open>Opened for \<open>w\<close> by \<open>h\<close> with everything it needs, having encoded \<open>n\<close> frames.\<close>

definition running :: "int \<Rightarrow> int \<Rightarrow> int \<Rightarrow> int \<Rightarrow> source_encoder \<Rightarrow> bool" where
  "running w h br n r \<longleftrightarrow> se_enc r = Some (codec_parameters w h br) \<and> se_enc_width r = w \<and> se_enc_height r = h \<and>
     se_enc_in r = Some \<lparr>ef_width = w, ef_height = h, ef_buffers = True\<rparr> \<and> se_enc_pkt r \<and> se_sws r \<and>
     se_frame_pts r = n"

text \<open>No codec, or one of another size: the next frame opens one.\<close>

definition reopens :: "int \<Rightarrow> int \<Rightarrow> source_encoder \<Rightarrow> bool" where
  "reopens w h r \<longleftrightarrow> se_enc r = None \<or> se_enc_width r \<noteq> w \<or> se_enc_height r \<noteq> h"

lemma reopens_new [simp]: "reopens w h (new_encoder tid mid)"
  by (simp add: reopens_def new_encoder_def)

lemma ensure_opens:
  assumes "reopens w h r" and "ffmpeg_works env"
  shows "\<exists>r'. ensure_source_encoder env r w h br =
    (r', True, encoder_frees r @ [FfAlloc FfCodec, FfAlloc FfFrame, FfAlloc FfPacket, FfAlloc FfScaler]) \<and>
    running w h br 0 r' \<and> se_video_track_id r' = se_video_track_id r"
  using assms by (auto simp: ensure_source_encoder_def reopens_def ffmpeg_works_def running_def Let_def)

lemma ensure_running:
  "running w h br n r \<Longrightarrow> ensure_source_encoder env r w h br' = (r, True, [])"
  by (simp add: ensure_source_encoder_def running_def)

text \<open>The packets of one frame.\<close>

definition packets_of :: "enc_env \<Rightarrow> int \<Rightarrow> enc_out list" where
  "packets_of env tid = (if ee_send env < 0 then [] else map (\<lambda>(dat, pts). EncPacket tid dat pts) (ee_packets env))"

lemma encode_running:
  assumes "running w h br n se" and "int_of_u32 (bf_width fr) = w" and "int_of_u32 (bf_height fr) = h"
  shows "encode_frame env br' fr se = Some (se\<lparr>se_frame_pts := n + 1\<rparr>,
    EncFrame fr n # packets_of env (se_video_track_id se))"
  using ensure_running [OF assms(1)] assms
  by (simp add: encode_frame_def packets_of_def) (simp add: running_def)

lemma encode_opens:
  assumes "reopens w h se" and "ffmpeg_works env"
    and "int_of_u32 (bf_width fr) = w" and "int_of_u32 (bf_height fr) = h"
  shows "\<exists>se'. encode_frame env br fr se = Some (se',
      map EncFf (encoder_frees se @ [FfAlloc FfCodec, FfAlloc FfFrame, FfAlloc FfPacket, FfAlloc FfScaler]) @
      EncFrame fr 0 # packets_of env (se_video_track_id se)) \<and>
    running w h br 1 se' \<and> se_video_track_id se' = se_video_track_id se"
proof -
  from ensure_opens [OF assms(1,2), of br] obtain r' where r': "ensure_source_encoder env se w h br =
      (r', True, encoder_frees se @ [FfAlloc FfCodec, FfAlloc FfFrame, FfAlloc FfPacket, FfAlloc FfScaler])"
    "running w h br 0 r'" "se_video_track_id r' = se_video_track_id se" by blast
  then show ?thesis using assms(3,4)
    by (auto simp: encode_frame_def packets_of_def running_def)
qed

fun encode_run ::
  "int \<Rightarrow> (enc_env \<times> bgra_frame) list \<Rightarrow> source_encoder \<Rightarrow> (source_encoder \<times> enc_out list) option" where
  "encode_run br [] se = Some (se, [])"
| "encode_run br ((env, fr) # xs) se =
     (case encode_frame env br fr se of
        None \<Rightarrow> None
      | Some (se1, o1) \<Rightarrow>
          (case encode_run br xs se1 of None \<Rightarrow> None | Some (se2, o2) \<Rightarrow> Some (se2, o1 @ o2)))"

text \<open>The frames of a stream from number \<open>n\<close> on, each followed by its packets.\<close>

fun stream_outs :: "int \<Rightarrow> int \<Rightarrow> (enc_env \<times> bgra_frame) list \<Rightarrow> enc_out list" where
  "stream_outs tid n [] = []"
| "stream_outs tid n ((env, fr) # xs) = EncFrame fr n # packets_of env tid @ stream_outs tid (n + 1) xs"

lemma encode_run_running:
  assumes "running w h br n se"
    and "\<forall>(env, fr) \<in> set xs. int_of_u32 (bf_width fr) = w \<and> int_of_u32 (bf_height fr) = h"
  shows "encode_run br xs se = Some (se\<lparr>se_frame_pts := n + int (length xs)\<rparr>, stream_outs (se_video_track_id se) n xs)"
  using assms
proof (induction xs arbitrary: n se)
  case Nil
  then show ?case by (simp add: running_def)
next
  case (Cons x xs)
  obtain env fr where x: "x = (env, fr)" by fastforce
  from Cons.prems x have "running w h br (n + 1) (se\<lparr>se_frame_pts := n + 1\<rparr>)" by (simp add: running_def)
  with Cons.IH [OF this] Cons.prems x encode_running [OF Cons.prems(1), of fr env br] show ?case
    by (simp add: algebra_simps)
qed

text \<open>An encoder that was opened but is not complete: it has a codec of the size and no scaler.\<close>

lemma incomplete_crashes:
  assumes "se_enc se \<noteq> None" and "se_enc_width se = int_of_u32 (bf_width fr)"
    and "se_enc_height se = int_of_u32 (bf_height fr)" and "\<not> se_sws se"
  shows "encode_frame env br fr se = None"
  using assms by (simp add: encode_frame_def ensure_source_encoder_def)

section \<open>The one-frame buffer\<close>

text \<open>The frame a capture produces, if it gets that far.\<close>

definition captured_frame :: "cap_env \<Rightarrow> bgra_frame option" where
  "captured_frame env =
     (if ce_source env = None \<or> ce_width env = 0 \<or> ce_height env = 0 \<or> \<not> ce_begin env then None
      else map_option (\<lambda>(dat, linesize). \<lparr>bf_data = take (frame_bytes linesize (ce_height env)) dat,
             bf_width = ce_width env, bf_height = ce_height env, bf_linesize = linesize\<rparr>) (ce_map env))"

text \<open>A mapped surface has all its lines.\<close>

definition surface_complete :: "cap_env \<Rightarrow> bool" where
  "surface_complete env =
     (case ce_map env of None \<Rightarrow> True | Some (dat, linesize) \<Rightarrow> frame_bytes linesize (ce_height env) \<le> length dat)"

datatype cap_op = CapCapture cap_env | CapTake

text \<open>The capture and the frames taken from it so far.\<close>

fun cap_step :: "cap_op \<Rightarrow> video_capture \<times> bgra_frame list \<Rightarrow> video_capture \<times> bgra_frame list" where
  "cap_step (CapCapture env) (c, log) = (fst (capture_one env c), log)"
| "cap_step CapTake (c, log) =
     (case take_frame c of (c', f) \<Rightarrow> (c', log @ (case f of None \<Rightarrow> [] | Some x \<Rightarrow> [x])))"

text \<open>The specification: a mailbox that holds at most the latest frame.\<close>

fun mail_step :: "cap_op \<Rightarrow> bgra_frame option \<times> bgra_frame list \<Rightarrow> bgra_frame option \<times> bgra_frame list" where
  "mail_step (CapCapture env) (m, log) = (case captured_frame env of None \<Rightarrow> m | Some f \<Rightarrow> Some f, log)"
| "mail_step CapTake (m, log) = (None, log @ (case m of None \<Rightarrow> [] | Some x \<Rightarrow> [x]))"

definition mail_of :: "video_capture \<Rightarrow> bgra_frame option" where
  "mail_of c = snd (take_frame c)"

lemma take_fill_buffer: "need \<le> length dat \<Longrightarrow> take need (fill_buffer need dat buf) = take need dat"
  by (simp add: fill_buffer_def)

lemma mail_of_take: "mail_of (fst (take_frame c)) = None"
  by (simp add: mail_of_def take_frame_def)

lemma mail_of_capture:
  assumes "surface_complete env"
  shows "mail_of (fst (capture_one env c)) = (case captured_frame env of None \<Rightarrow> mail_of c | Some f \<Rightarrow> Some f)"
proof (cases "captured_frame env")
  case None
  then have "ce_source env = None \<or> ce_width env = 0 \<or> ce_height env = 0 \<or> \<not> ce_begin env \<or> ce_map env = None"
    by (auto simp: captured_frame_def split: if_splits)
  with None show ?thesis
    by (cases "ce_source env"; cases "ce_map env") (auto simp: capture_one_def mail_of_def take_frame_def Let_def)
next
  case (Some f)
  then obtain src dat linesize where
    "ce_source env = Some src" "ce_width env \<noteq> 0" "ce_height env \<noteq> 0" "ce_begin env" "ce_map env = Some (dat, linesize)"
    and f: "f = \<lparr>bf_data = take (frame_bytes linesize (ce_height env)) dat, bf_width = ce_width env,
      bf_height = ce_height env, bf_linesize = linesize\<rparr>"
    by (auto simp: captured_frame_def split: if_splits)
  with assms Some show ?thesis
    by (simp add: capture_one_def mail_of_def take_frame_def Let_def surface_complete_def take_fill_buffer)
qed

lemma mailbox_run:
  assumes "\<forall>env. CapCapture env \<in> set ops \<longrightarrow> surface_complete env"
  shows "(mail_of (fst (fold cap_step ops (c, log))), snd (fold cap_step ops (c, log))) =
    fold mail_step ops (mail_of c, log)"
  using assms
proof (induction ops arbitrary: c log)
  case Nil
  then show ?case by simp
next
  case (Cons op ops)
  show ?case
  proof (cases op)
    case (CapCapture env)
    with Cons.prems have "surface_complete env" by simp
    with Cons CapCapture show ?thesis by (simp add: mail_of_capture)
  next
    case CapTake
    obtain c' f where tk: "take_frame c = (c', f)" by fastforce
    then have "mail_of c' = None" "mail_of c = f" using mail_of_take [of c] by (simp_all add: mail_of_def)
    with Cons CapTake tk show ?thesis by simp
  qed
qed

lemma capture_releases:
  "filter (\<lambda>u. case u of CapRelease src \<Rightarrow> True | _ \<Rightarrow> False) (snd (capture_one env c)) =
    (case ce_source env of None \<Rightarrow> [] | Some src \<Rightarrow> [CapRelease src])"
  by (auto simp: capture_one_def Let_def split: option.splits)

section \<open>Properties\<close>

text \<open>C32: FFmpeg objects are balanced: over any series of frames of any sizes, whatever FFmpeg refuses in
  between, the encoder of a source followed by its release frees every codec context, frame, packet and
  scaler exactly as often as it made one, and no point of the series has freed more than it made.\<close>

theorem encoder_objects_balanced:
  fixes ops :: "(enc_env \<times> int \<times> int \<times> int) list"
  shows "case fold ensure_step ops (new_encoder tid mid, []) of (r, log) \<Rightarrow>
    ff_frees log \<subseteq># ff_allocs log \<and>
    ff_frees (log @ release_source_encoder (Some r)) = ff_allocs (log @ release_source_encoder (Some r))"
proof -
  obtain r log where run: "fold ensure_step ops (new_encoder tid mid, []) = (r, log)" by fastforce
  have "encoder_account (new_encoder tid mid, [])"
    by (simp add: encoder_account_def ff_held_simps new_encoder_def)
  from encoder.run_inv [OF this, of ops] run have "ff_allocs log = ff_held r + ff_frees log"
    by (simp add: encoder_account_def)
  then show ?thesis by (simp add: run release_source_encoder_def)
qed

text \<open>A stream of frames of one size: when FFmpeg makes the encoder, the first frame opens it once with
  the frame's size and the bitrate, every frame is scaled and given the next time stamp from 0 on, and
  its packets go out on the encoder's track in order; no later frame opens or frees anything.\<close>

theorem encoder_streams:
  assumes "reopens w h se" and "ffmpeg_works env"
    and "\<forall>(e, fr) \<in> set ((env, fr0) # xs). int_of_u32 (bf_width fr) = w \<and> int_of_u32 (bf_height fr) = h"
  shows "\<exists>se'. encode_run br ((env, fr0) # xs) se = Some (se',
      map EncFf (encoder_frees se @ [FfAlloc FfCodec, FfAlloc FfFrame, FfAlloc FfPacket, FfAlloc FfScaler]) @
      stream_outs (se_video_track_id se) 0 ((env, fr0) # xs)) \<and>
    running w h br (1 + int (length xs)) se'"
proof -
  from assms(3) have fr0: "int_of_u32 (bf_width fr0) = w" "int_of_u32 (bf_height fr0) = h" by auto
  obtain se1 where se1: "encode_frame env br fr0 se = Some (se1,
      map EncFf (encoder_frees se @ [FfAlloc FfCodec, FfAlloc FfFrame, FfAlloc FfPacket, FfAlloc FfScaler]) @
      EncFrame fr0 0 # packets_of env (se_video_track_id se))"
    "running w h br 1 se1" "se_video_track_id se1 = se_video_track_id se"
    using encode_opens [OF assms(1,2) fr0] by blast
  from assms(3) have "\<forall>(e, fr) \<in> set xs. int_of_u32 (bf_width fr) = w \<and> int_of_u32 (bf_height fr) = h" by simp
  from encode_run_running [OF se1(2) this] se1 show ?thesis by (auto simp: running_def)
qed

definition demo_enc_env :: enc_env where
  "demo_enc_env = \<lparr>ee_codec = True, ee_context = True, ee_open = 0, ee_frame = True, ee_packet = True,
     ee_buffer = 0, ee_scaler = True, ee_send = 0, ee_packets = [([9], 0)]\<rparr>"

definition demo_frame :: bgra_frame where
  "demo_frame = \<lparr>bf_data = [1, 2, 3, 4, 5, 6, 7, 8], bf_width = 2, bf_height = 1, bf_linesize = 8\<rparr>"

lemmas demo_enc_simps = demo_enc_env_def demo_frame_def int_of_u32_def ffmpeg_works_def

lemma encoder_streams_witness:
  "\<exists>se'. encode_run 6000 [(demo_enc_env, demo_frame), (demo_enc_env, demo_frame)] (new_encoder 1 ''video0'') =
    Some (se', [EncFf (FfAlloc FfCodec), EncFf (FfAlloc FfFrame), EncFf (FfAlloc FfPacket), EncFf (FfAlloc FfScaler),
      EncFrame demo_frame 0, EncPacket 1 [9] 0, EncFrame demo_frame 1, EncPacket 1 [9] 0])"
  using encoder_streams [of 2 1 "new_encoder 1 ''video0''" demo_enc_env demo_frame "[(demo_enc_env, demo_frame)]" 6000]
  by (auto simp: demo_enc_simps packets_of_def new_encoder_def encoder_frees_def reopens_def
      simp del: encode_run.simps)

text \<open>A half-made encoder is taken for a whole one: when FFmpeg opens the codec but cannot make the
  frame, the packet, the buffers or the scaler, the frame is skipped, and the next frame of the same size,
  whatever FFmpeg would answer then, goes through the NULL scaler.\<close>

theorem half_made_encoder_crashes:
  assumes "reopens (int_of_u32 (bf_width fr)) (int_of_u32 (bf_height fr)) se"
    and "ee_codec env" and "ee_context env" and "0 \<le> ee_open env" and "\<not> ffmpeg_works env"
  shows "\<exists>se' os. encode_frame env br fr se = Some (se', os) \<and> (\<forall>x. EncFrame fr x \<notin> set os) \<and>
    (\<forall>env2 br2 fr2. bf_width fr2 = bf_width fr \<longrightarrow> bf_height fr2 = bf_height fr \<longrightarrow>
      encode_frame env2 br2 fr2 se' = None)"
proof -
  define w h where "w = int_of_u32 (bf_width fr)" and "h = int_of_u32 (bf_height fr)"
  have "\<exists>se' o1. ensure_source_encoder env se w h br = (se', False, o1) \<and> se_enc se' \<noteq> None \<and>
      se_enc_width se' = w \<and> se_enc_height se' = h \<and> \<not> se_sws se'"
    using assms by (auto simp: ensure_source_encoder_def reopens_def ffmpeg_works_def Let_def w_def h_def)
  then obtain se' o1 where se': "ensure_source_encoder env se w h br = (se', False, o1)" "se_enc se' \<noteq> None"
    "se_enc_width se' = w" "se_enc_height se' = h" "\<not> se_sws se'" by blast
  then have "encode_frame env br fr se = Some (se', map EncFf o1)"
    by (simp add: encode_frame_def w_def h_def)
  with se' show ?thesis by (auto simp: w_def h_def intro!: incomplete_crashes)
qed

lemma half_made_encoder_crashes_witness:
  "\<exists>se' os. encode_frame (demo_enc_env\<lparr>ee_scaler := False\<rparr>) 6000 demo_frame (new_encoder 1 ''video0'') = Some (se', os) \<and>
    encode_frame demo_enc_env 6000 demo_frame se' = None"
  using half_made_encoder_crashes [of demo_frame "new_encoder 1 ''video0''" "demo_enc_env\<lparr>ee_scaler := False\<rparr>" 6000]
  by (auto simp: demo_enc_simps)

text \<open>C20: a capture is a mailbox for one frame: in any interleaving of the graphics thread's captures and the
  worker's visits, whatever fails in them, the frames the worker gets are those a mailbox gives that holds the
  latest complete frame and is emptied when read: no frame twice, no stale one, and the bytes are those of the
  surface.\<close>

theorem captures_are_mailboxes:
  assumes "\<forall>env. CapCapture env \<in> set ops \<longrightarrow> surface_complete env" and "\<not> vc_frame_ready c"
  shows "snd (fold cap_step ops (c, [])) = snd (fold mail_step ops (None, []))"
proof -
  from assms(2) have "mail_of c = None" by (simp add: mail_of_def take_frame_def)
  with mailbox_run [OF assms(1), of c "[]"] show ?thesis by (metis snd_conv)
qed

definition new_capture :: "string \<Rightarrow> nat \<Rightarrow> video_capture" where
  "new_capture name idx = \<lparr>vc_source_name = strncpy_buf 256 name, vc_mid = take (64 - 1) (''video'' @ show_nat idx),
     vc_texrender = False, vc_stagesurf = False, vc_stage_w = 0, vc_stage_h = 0, vc_latest_frame = [],
     vc_frame_w = 0, vc_frame_h = 0, vc_frame_linesize = 0, vc_frame_ready = False\<rparr>"

definition demo_cap_env :: cap_env where
  "demo_cap_env = \<lparr>ce_source = Some 5, ce_width = 1, ce_height = 1, ce_texrender = True, ce_stagesurf = True,
     ce_begin = True, ce_map = Some ([1, 2, 3, 4], 4)\<rparr>"

lemma captures_are_mailboxes_witness:
  "snd (fold cap_step [CapCapture (demo_cap_env\<lparr>ce_map := Some ([9, 9, 9, 9, 9], 5)\<rparr>), CapCapture demo_cap_env,
      CapTake, CapTake] (new_capture ''Cam'' 0, [])) =
    [\<lparr>bf_data = [1, 2, 3, 4], bf_width = 1, bf_height = 1, bf_linesize = 4\<rparr>]"
proof -
  have "snd (fold cap_step [CapCapture (demo_cap_env\<lparr>ce_map := Some ([9, 9, 9, 9, 9], 5)\<rparr>), CapCapture demo_cap_env,
      CapTake, CapTake] (new_capture ''Cam'' 0, [])) =
    snd (fold mail_step [CapCapture (demo_cap_env\<lparr>ce_map := Some ([9, 9, 9, 9, 9], 5)\<rparr>), CapCapture demo_cap_env,
      CapTake, CapTake] (None, []))"
    by (rule captures_are_mailboxes)
       (auto simp: surface_complete_def demo_cap_env_def frame_bytes_def new_capture_def)
  also have "\<dots> = [\<lparr>bf_data = [1, 2, 3, 4], bf_width = 1, bf_height = 1, bf_linesize = 4\<rparr>]"
    by (simp add: captured_frame_def demo_cap_env_def frame_bytes_def)
  finally show ?thesis .
qed

end
