(* ===== verification/Sender.thy ===== *)
theory Sender
  imports Admission Audio Capture Receive_Session
begin

text \<open>
  \<open>src/sender.c\<close>: the sender. It owns a signaling client, a waiting room, the captured sources and
  one session per accepted receiver, and reacts to messages from the signaling server, to the waiting
  room, to the peer connections, to the host and to the worker thread that encodes frames. Each
  operation returns the new state and what it does to the outside, in program order. What the
  libraries return is collected in a record per operation.
\<close>

section \<open>State\<close>

datatype tether_sender_state =
    TETHER_SENDER_STATE_IDLE
  | TETHER_SENDER_STATE_WAITING
  | TETHER_SENDER_STATE_PEER_CONNECTED
  | TETHER_SENDER_STATE_FAILED

text \<open>The callbacks are represented by whether they are set.\<close>

record tether_sender_callbacks =
  cb_on_token :: bool
  cb_on_pending :: bool
  cb_on_peer_state :: bool
  cb_on_peer_gone :: bool

text \<open>The NULL-terminated arrays of names are lists.\<close>

record tether_sender_config =
  sd_server_url :: "string option"
  sd_stun_url :: "string option"
  sd_turn_url :: "string option"
  sd_turn_username :: "string option"
  sd_turn_credential :: "string option"
  sd_source_name :: "string option"
  sd_video_source_names :: "string list option"
  sd_audio_source_names :: "string list option"
  sd_video_bitrate_kbps :: int
  sd_max_receivers :: int
  sd_token_ttl_minutes :: int
  sd_reusable_token :: bool
  sd_twitch_st_mode :: bool

text \<open>The context handed to the peer connection holds the same peer id as the session.\<close>

record 'f receiver_session =
  rs_peer_id :: string
  rs_wrtc :: "tether_webrtc option"
  rs_audio :: "'f tether_audio_sender option"
  rs_src_encoders :: "source_encoder list"

record 'f tether_sender =
  sn_cfg :: tether_sender_config
  sn_audio_source_names :: "string list"
  sn_captures :: "video_capture list"
  sn_cbs :: tether_sender_callbacks
  sn_sig :: "tether_signaling option"
  sn_adm :: "tether_admission option"
  sn_sessions :: "'f receiver_session list"
  sn_current_token :: string
  sn_worker_running :: bool

text \<open>
  Calls of the owner's callbacks; calls on the socket, the peer connection of a session (named by its
  peer), the audio tracks, FFmpeg, and the frames that are encoded.
\<close>

datatype 'f sender_out =
    CbToken string
  | CbPending string string string
  | CbPeerState string tether_sender_state
  | CbPeerGone string
  | SnSig sig_out
  | SnWr string wr_out
  | SnAudio string "'f audio_out"
  | SnFf string ff_out
  | SnFrame string bgra_frame int
  | SnCapture cap_out

text \<open>What the libraries return while one session is created.\<close>

record session_env =
  xe_wr :: wr_env
  xe_pc :: int
  xe_video :: "nat \<Rightarrow> int \<times> u32"
  xe_audio :: "nat \<Rightarrow> attach_env"
  xe_negotiate :: int

text \<open>What the clock and the libraries return while one event is handled.\<close>

record sender_env =
  ne_clock :: adm_clock
  ne_session :: session_env
  ne_rc :: int
  ne_rc2 :: int

section \<open>Sessions\<close>

definition has_peer :: "string \<Rightarrow> 'f receiver_session \<Rightarrow> bool" where
  "has_peer i r \<longleftrightarrow> rs_peer_id r = i"

definition find_session_locked :: "'f tether_sender \<Rightarrow> string \<Rightarrow> 'f receiver_session option" where
  "find_session_locked s i = find (has_peer i) (sn_sessions s)"

definition release_session :: "'f receiver_session \<Rightarrow> 'f sender_out list" where
  "release_session r =
     concat (map (\<lambda>e. map (SnFf (rs_peer_id r)) (release_source_encoder (Some e))) (rs_src_encoders r)) @
     (if rs_audio r = None then [] else map (SnAudio (rs_peer_id r)) (tether_audio_sender_release (rs_audio r))) @
     (if rs_wrtc r = None then [] else map (SnWr (rs_peer_id r)) (snd (tether_webrtc_release (rs_wrtc r))))"

definition fallback_or :: "string option \<Rightarrow> string \<Rightarrow> string" where
  "fallback_or v fallback = (if nonempty_str v then the v else fallback)"

definition session_webrtc_config :: "tether_sender_config \<Rightarrow> tether_webrtc_config" where
  "session_webrtc_config c = \<lparr>wc_stun_url = Some (fallback_or (sd_stun_url c) ''stun:stun.cloudflare.com:3478''),
     wc_turn_url = sd_turn_url c, wc_turn_username = sd_turn_username c,
     wc_turn_credential = sd_turn_credential c, wc_video_codec = TETHER_CODEC_H264,
     wc_on_local_sdp = True, wc_on_local_ice = True, wc_on_state = True,
     wc_on_video = False, wc_on_audio = False\<rparr>"

text \<open>One video track per captured source; \<open>tr k\<close> is what libdatachannel answers for the \<open>k\<close>-th.\<close>

fun add_video_tracks ::
  "(nat \<Rightarrow> int \<times> u32) \<Rightarrow> nat \<Rightarrow> video_capture list \<Rightarrow> tether_webrtc \<Rightarrow>
   tether_webrtc \<times> source_encoder list \<times> wr_out list" where
  "add_video_tracks tr k [] w = (w, [], [])"
| "add_video_tracks tr k (c # cs) w =
     (case tether_webrtc_add_video_track_ex (fst (tr k)) (snd (tr k)) (Some w) (Some (vc_mid c)) (Some (vc_source_name c))
      of (w1, tid, o1) \<Rightarrow>
        (case add_video_tracks tr (k + 1) cs (the w1) of
           (w2, es, o2) \<Rightarrow> (w2, new_encoder tid (vc_mid c) # es, o1 @ o2)))"

text \<open>The audio sources, without those whose name contains \<open>Mic\<close> in the Twitch mode.\<close>

fun attach_audio_sources ::
  "(nat \<Rightarrow> attach_env) \<Rightarrow> bool \<Rightarrow> nat \<Rightarrow> string list \<Rightarrow> tether_webrtc \<Rightarrow> 'f tether_audio_sender option \<Rightarrow>
   tether_webrtc \<times> 'f tether_audio_sender option \<times> 'f audio_out list" where
  "attach_audio_sources env twitch k [] w au = (w, au, [])"
| "attach_audio_sources env twitch k (n # ns) w au =
     (if twitch \<and> strstr n ''Mic'' \<noteq> None then attach_audio_sources env twitch (k + 1) ns w au
      else case tether_audio_sender_attach (env k) w au (Some n) (Some n) of
        (w1, au1, _, o1) \<Rightarrow>
          (case attach_audio_sources env twitch (k + 1) ns w1 au1 of (w2, au2, o2) \<Rightarrow> (w2, au2, o1 @ o2)))"

definition session_audio_config :: tether_audio_sender_config where
  "session_audio_config = \<lparr>asc_sample_rate = 48000, asc_channels = 2, asc_bitrate_kbps = 96\<rparr>"

definition create_session ::
  "session_env \<Rightarrow> 'f tether_sender \<Rightarrow> tether_peer \<Rightarrow> 'f tether_sender \<times> 'f sender_out list" where
  "create_session env s p =
     (case fst (tether_webrtc_create (xe_wr env) (xe_pc env) (Some (session_webrtc_config (sn_cfg s)))) of
        None \<Rightarrow> (s, [])
      | Some w \<Rightarrow>
          (case add_video_tracks (xe_video env) 0 (sn_captures s) w of (w1, es, o1) \<Rightarrow>
           case attach_audio_sources (xe_audio env) (sd_twitch_st_mode (sn_cfg s)) 0 (sn_audio_source_names s) w1
             (Some (tether_audio_sender_create session_audio_config)) of (w2, au, o2) \<Rightarrow>
           let pid = strncpy_buf TETHER_PEER_ID_MAX (peer_id p);
               r = \<lparr>rs_peer_id = pid, rs_wrtc = Some w2, rs_audio = au, rs_src_encoders = es\<rparr>
           in (s\<lparr>sn_sessions := sn_sessions s @ [r]\<rparr>,
               map (SnWr pid) o1 @ map (SnAudio pid) o2 @
               map (SnWr pid) (snd (tether_webrtc_negotiate (xe_negotiate env) (Some w2))))))"

section \<open>The waiting room's callback\<close>

definition on_admission_changed ::
  "session_env \<Rightarrow> 'f tether_sender \<Rightarrow> tether_peer \<Rightarrow> 'f tether_sender \<times> 'f sender_out list" where
  "on_admission_changed env s p =
     (case peer_state p of
        TETHER_PEER_ACCEPTED \<Rightarrow>
          (case create_session env s p of (s', outs) \<Rightarrow>
             (s', map SnSig (snd (tether_signaling_accept (sn_sig s) (Some (peer_id p)))) @ outs))
      | TETHER_PEER_REJECTED \<Rightarrow>
          (s, map SnSig (snd (tether_signaling_reject (sn_sig s) (Some (peer_id p)))) @
              (if cb_on_peer_gone (sn_cbs s) then [CbPeerGone (peer_id p)] else []))
      | TETHER_PEER_REVOKED \<Rightarrow>
          (s, map SnSig (snd (tether_signaling_reject (sn_sig s) (Some (peer_id p)))) @
              (if cb_on_peer_gone (sn_cbs s) then [CbPeerGone (peer_id p)] else []))
      | _ \<Rightarrow> (s, []))"

text \<open>An operation of the waiting room and the callback calls it makes after its state has changed.\<close>

fun changed_peers ::
  "session_env \<Rightarrow> tether_peer list \<Rightarrow> 'f tether_sender \<Rightarrow> 'f tether_sender \<times> 'f sender_out list" where
  "changed_peers env [] s = (s, [])"
| "changed_peers env (p # ps) s =
     (case on_admission_changed env s p of (s1, o1) \<Rightarrow>
      case changed_peers env ps s1 of (s2, o2) \<Rightarrow> (s2, o1 @ o2))"

definition with_admission ::
  "session_env \<Rightarrow> adm_result \<Rightarrow> 'f tether_sender \<Rightarrow> 'f tether_sender \<times> 'f sender_out list" where
  "with_admission env res s = (case res of (adm, _, peers) \<Rightarrow> changed_peers env peers (s\<lparr>sn_adm := adm\<rparr>))"

section \<open>Callbacks of a session's peer connection\<close>

definition session_local_sdp :: "string \<Rightarrow> string \<Rightarrow> string \<Rightarrow> 'f tether_sender \<Rightarrow> 'f sender_out list" where
  "session_local_sdp pid ty sdp s =
     map SnSig (snd (tether_signaling_send_sdp (sn_sig s) (Some pid) (Some ty) (Some sdp)))"

definition session_local_ice ::
  "string \<Rightarrow> string \<Rightarrow> string \<Rightarrow> int \<Rightarrow> 'f tether_sender \<Rightarrow> 'f sender_out list" where
  "session_local_ice pid cand mid mline s =
     map SnSig (snd (tether_signaling_send_ice (sn_sig s) (Some pid) (Some cand) (Some mid) mline))"

definition dialog_state :: "tether_webrtc_state \<Rightarrow> tether_sender_state" where
  "dialog_state st =
     (if st = TETHER_WRTC_STATE_CONNECTED then TETHER_SENDER_STATE_PEER_CONNECTED
      else if st = TETHER_WRTC_STATE_FAILED \<or> st = TETHER_WRTC_STATE_CLOSED then TETHER_SENDER_STATE_FAILED
      else TETHER_SENDER_STATE_WAITING)"

definition session_state ::
  "session_env \<Rightarrow> string \<Rightarrow> tether_webrtc_state \<Rightarrow> 'f tether_sender \<Rightarrow> 'f tether_sender \<times> 'f sender_out list" where
  "session_state env pid st s =
     (let o1 = (if cb_on_peer_state (sn_cbs s) then [CbPeerState pid (dialog_state st)] else []) in
      if st = TETHER_WRTC_STATE_FAILED \<or> st = TETHER_WRTC_STATE_CLOSED
      then (case with_admission env (tether_admission_disconnect_peer (sn_adm s) (Some pid)) s of
              (s', o2) \<Rightarrow> (s', o1 @ o2))
      else (s, o1))"

section \<open>Signaling events\<close>

text \<open>
  The text after \<open>"key":"\<close> up to the next quote, at most what fits a buffer of \<open>n\<close> bytes: the name and
  the fingerprint of a pending request.
\<close>

definition quoted_field :: "nat \<Rightarrow> string \<Rightarrow> string \<Rightarrow> string" where
  "quoted_field n json key =
     (case after_key json key of
        None \<Rightarrow> []
      | Some p \<Rightarrow>
          (case strchr p (CHR 0x22) of
             None \<Rightarrow> []
           | Some e \<Rightarrow> take (if n \<le> ptr_diff e p then n - 1 else ptr_diff e p) p))"

text \<open>The SDP of an answer: the span up to the next quote.\<close>

definition answered_sdp :: "string \<Rightarrow> string option" where
  "answered_sdp json =
     Option.bind (after_key json ''sdp'')
       (\<lambda>p. map_option (\<lambda>e. dup_span p (ptr_diff e p)) (strchr p (CHR 0x22)))"

fun on_signaling_event ::
  "sender_env \<Rightarrow> tether_signaling_event \<Rightarrow> string option \<Rightarrow> string option \<Rightarrow>
   'f tether_sender \<Rightarrow> 'f tether_sender \<times> 'f sender_out list" where
  "on_signaling_event env TETHER_SIG_EVT_TOKEN_ISSUED pid payload s =
     (case payload of
        None \<Rightarrow> (s, [])
      | Some tok \<Rightarrow>
          (let s' = s\<lparr>sn_current_token := strncpy_buf TETHER_TOKEN_BUF tok\<rparr>
           in (s', if cb_on_token (sn_cbs s) then [CbToken (sn_current_token s')] else [])))"
| "on_signaling_event env TETHER_SIG_EVT_REQUEST_PENDING pid payload s =
     (case (payload, pid) of
        (Some json, Some i) \<Rightarrow>
          (let name = quoted_field 128 json ''name''; fp = quoted_field 128 json ''fingerprint'' in
           case with_admission (ne_session env)
               (tether_admission_add_pending (ne_clock env) (sn_adm s) (Some i) (Some name) (Some fp)) s of
             (s', o1) \<Rightarrow> (s', o1 @ (if cb_on_pending (sn_cbs s) then [CbPending i name fp] else [])))
      | _ \<Rightarrow> (s, []))"
| "on_signaling_event env TETHER_SIG_EVT_SDP_ANSWER pid payload s =
     (case pid of
        None \<Rightarrow> (s, [])
      | Some i \<Rightarrow>
          (case find_session_locked s i of
             None \<Rightarrow> (s, [])
           | Some r \<Rightarrow>
               (case Option.bind payload answered_sdp of
                  None \<Rightarrow> (s, [])
                | Some sdp \<Rightarrow>
                    (s, map (SnWr i) (snd (tether_webrtc_apply_remote_sdp (ne_rc env) (ne_rc2 env) (rs_wrtc r)
                           (Some ''answer'') (Some sdp)))))))"
| "on_signaling_event env TETHER_SIG_EVT_ICE_CANDIDATE pid payload s =
     (case (pid, payload) of
        (Some i, Some json) \<Rightarrow>
          (case find_session_locked s i of
             None \<Rightarrow> (s, [])
           | Some r \<Rightarrow>
               (case candidate_and_mid json of
                  None \<Rightarrow> (s, [])
                | Some (cand, mid) \<Rightarrow>
                    (s, map (SnWr i) (snd (tether_webrtc_add_remote_ice (ne_rc env) (rs_wrtc r) (Some cand) (Some mid))))))
      | _ \<Rightarrow> (s, []))"
| "on_signaling_event env TETHER_SIG_EVT_PEER_GONE pid payload s =
     (case pid of
        None \<Rightarrow> (s, [])
      | Some i \<Rightarrow>
          (case with_admission (ne_session env) (tether_admission_disconnect_peer (sn_adm s) (Some i)) s of
             (s', o1) \<Rightarrow> (s', o1 @ (if cb_on_peer_gone (sn_cbs s) then [CbPeerGone i] else []))))"
| "on_signaling_event env _ pid payload s = (s, [])"

section \<open>Wiring\<close>

text \<open>The outputs of the signaling client that are callbacks are delivered to the sender.\<close>

fun sn_deliver_sig ::
  "sender_env \<Rightarrow> sig_out list \<Rightarrow> 'f tether_sender \<Rightarrow> 'f tether_sender \<times> 'f sender_out list" where
  "sn_deliver_sig env [] s = (s, [])"
| "sn_deliver_sig env (out # os) s =
     (case (case out of Emit evt pid payload \<Rightarrow> on_signaling_event env evt pid payload s | _ \<Rightarrow> (s, [SnSig out])) of
        (s1, o1) \<Rightarrow> case sn_deliver_sig env os s1 of (s2, o2) \<Rightarrow> (s2, o1 @ o2))"

definition sn_socket_event ::
  "sender_env \<Rightarrow> sig_op \<Rightarrow> 'f tether_sender \<Rightarrow> 'f tether_sender \<times> 'f sender_out list" where
  "sn_socket_event env op s =
     (case sn_sig s of
        None \<Rightarrow> (s, [])
      | Some sig \<Rightarrow>
          (case sig_call op sig of (sig', outs) \<Rightarrow> sn_deliver_sig env outs (s\<lparr>sn_sig := Some sig'\<rparr>)))"

text \<open>The outputs of a session's peer connection, for the peer the session's context names.\<close>

fun sn_deliver_wr ::
  "sender_env \<Rightarrow> string \<Rightarrow> wr_out list \<Rightarrow> 'f tether_sender \<Rightarrow> 'f tether_sender \<times> 'f sender_out list" where
  "sn_deliver_wr env pid [] s = (s, [])"
| "sn_deliver_wr env pid (out # os) s =
     (case (case out of
         OnLocalSdp ty sdp \<Rightarrow> (s, session_local_sdp pid ty sdp s)
       | OnLocalIce cand mid mline \<Rightarrow> (s, session_local_ice pid cand mid mline s)
       | OnState st \<Rightarrow> session_state (ne_session env) pid st s
       | _ \<Rightarrow> (s, [SnWr pid out]))
      of (s1, o1) \<Rightarrow> case sn_deliver_wr env pid os s1 of (s2, o2) \<Rightarrow> (s2, o1 @ o2))"

text \<open>A callback of libdatachannel for the \<open>k\<close>-th session.\<close>

definition sn_rtc_event ::
  "sender_env \<Rightarrow> nat \<Rightarrow> rtc_callback \<Rightarrow> 'f tether_sender \<Rightarrow> 'f tether_sender \<times> 'f sender_out list" where
  "sn_rtc_event env k cb s =
     (if length (sn_sessions s) \<le> k then (s, [])
      else let r = sn_sessions s ! k in
        case rs_wrtc r of
          None \<Rightarrow> (s, [])
        | Some w \<Rightarrow>
            (case wr_callback cb w of (w', outs) \<Rightarrow>
               sn_deliver_wr env (rs_peer_id r) outs
                 (s\<lparr>sn_sessions := (sn_sessions s)[k := r\<lparr>rs_wrtc := Some w'\<rparr>]\<rparr>)))"

section \<open>Frames\<close>

definition graphics_render_cb ::
  "(nat \<Rightarrow> cap_env) \<Rightarrow> 'f tether_sender \<Rightarrow> 'f tether_sender \<times> 'f sender_out list" where
  "graphics_render_cb env s =
     (let rs = map (\<lambda>i. capture_one (env i) (sn_captures s ! i)) [0..<length (sn_captures s)]
      in (s\<lparr>sn_captures := map fst rs\<rparr>, map SnCapture (concat (map snd rs))))"

text \<open>What the encoding of a frame does to the outside: packets go to the session's connection.\<close>

definition session_enc_out :: "'f receiver_session \<Rightarrow> enc_out \<Rightarrow> 'f sender_out list" where
  "session_enc_out r out =
     (case out of
        EncFf x \<Rightarrow> [SnFf (rs_peer_id r) x]
      | EncFrame fr pts \<Rightarrow> [SnFrame (rs_peer_id r) fr pts]
      | EncPacket tid dat pts \<Rightarrow>
          map (SnWr (rs_peer_id r)) (snd (tether_webrtc_push_video 0 (rs_wrtc r) tid (Some dat))))"

text \<open>One session's turn: nothing when it has no encoder for the capture.\<close>

definition encode_for_session ::
  "enc_env \<Rightarrow> int \<Rightarrow> nat \<Rightarrow> bgra_frame \<Rightarrow> 'f receiver_session \<Rightarrow>
   ('f receiver_session \<times> 'f sender_out list) option" where
  "encode_for_session env br i fr r =
     (if length (rs_src_encoders r) \<le> i then Some (r, [])
      else map_option (\<lambda>(se, outs). (r\<lparr>rs_src_encoders := (rs_src_encoders r)[i := se]\<rparr>,
               concat (map (session_enc_out r) outs)))
             (encode_frame env br fr (rs_src_encoders r ! i)))"

fun encode_sessions ::
  "(nat \<Rightarrow> enc_env) \<Rightarrow> int \<Rightarrow> nat \<Rightarrow> bgra_frame \<Rightarrow> nat \<Rightarrow> 'f receiver_session list \<Rightarrow>
   ('f receiver_session list \<times> 'f sender_out list) option" where
  "encode_sessions env br i fr k [] = Some ([], [])"
| "encode_sessions env br i fr k (r # rs) =
     (case encode_for_session (env k) br i fr r of
        None \<Rightarrow> None
      | Some (r', o1) \<Rightarrow>
          (case encode_sessions env br i fr (k + 1) rs of
             None \<Rightarrow> None
           | Some (rs', o2) \<Rightarrow> Some (r' # rs', o1 @ o2)))"

definition encode_capture_to_sessions ::
  "(nat \<Rightarrow> enc_env) \<Rightarrow> nat \<Rightarrow> bgra_frame \<Rightarrow> 'f tether_sender \<Rightarrow> ('f tether_sender \<times> 'f sender_out list) option" where
  "encode_capture_to_sessions env i fr s =
     (let br = (if 0 < sd_video_bitrate_kbps (sn_cfg s) then sd_video_bitrate_kbps (sn_cfg s) else 6000) in
      map_option (\<lambda>(rs, outs). (s\<lparr>sn_sessions := rs\<rparr>, outs)) (encode_sessions env br i fr 0 (sn_sessions s)))"

text \<open>The worker's turn for one capture.\<close>

definition worker_visit ::
  "(nat \<Rightarrow> enc_env) \<Rightarrow> nat \<Rightarrow> 'f tether_sender \<Rightarrow> ('f tether_sender \<times> 'f sender_out list) option" where
  "worker_visit env i s =
     (case take_frame (sn_captures s ! i) of
        (c, None) \<Rightarrow> Some (s, [])
      | (c, Some fr) \<Rightarrow> encode_capture_to_sessions env i fr (s\<lparr>sn_captures := (sn_captures s)[i := c]\<rparr>))"

text \<open>A pass over all captures; the worker makes one whenever it is running and some capture is ready.\<close>

fun worker_visits ::
  "(nat \<Rightarrow> nat \<Rightarrow> enc_env) \<Rightarrow> nat list \<Rightarrow> 'f tether_sender \<Rightarrow> ('f tether_sender \<times> 'f sender_out list) option" where
  "worker_visits env [] s = Some (s, [])"
| "worker_visits env (i # is) s =
     (case worker_visit (env i) i s of
        None \<Rightarrow> None
      | Some (s1, o1) \<Rightarrow>
          (case worker_visits env is s1 of None \<Rightarrow> None | Some (s2, o2) \<Rightarrow> Some (s2, o1 @ o2)))"

definition encoder_worker_pass ::
  "(nat \<Rightarrow> nat \<Rightarrow> enc_env) \<Rightarrow> 'f tether_sender \<Rightarrow> ('f tether_sender \<times> 'f sender_out list) option" where
  "encoder_worker_pass env s =
     (if \<not> sn_worker_running s \<or> \<not> any_ready (sn_captures s) then Some (s, [])
      else worker_visits env [0..<length (sn_captures s)] s)"

section \<open>Life\<close>

definition valid_names :: "string list option \<Rightarrow> string list" where
  "valid_names names = (case names of None \<Rightarrow> [] | Some ns \<Rightarrow> filter (\<lambda>n. n \<noteq> []) ns)"

definition first_source :: "tether_sender_config \<Rightarrow> string option" where
  "first_source c =
     (case valid_names (sd_video_source_names c) of
        n # ns \<Rightarrow> Some n
      | [] \<Rightarrow> if nonempty_str (sd_source_name c) then sd_source_name c else None)"

definition sender_captures :: "tether_sender_config \<Rightarrow> string \<Rightarrow> video_capture list" where
  "sender_captures c first =
     (let ns = valid_names (sd_video_source_names c) in
      if ns = [] then [new_capture first 0] else map (\<lambda>i. new_capture (ns ! i) i) [0..<length ns])"

definition sender_admission_config :: "tether_sender_config \<Rightarrow> tether_admission_config" where
  "sender_admission_config c = \<lparr>ac_max_receivers = sd_max_receivers c, ac_rate_limit_window_seconds = 60,
     ac_rate_limit_max_attempts = 10, ac_lockout_seconds = 300, ac_auto_accept_pinned = True,
     ac_on_changed = True\<rparr>"

definition sender_signaling_config :: "tether_sender_config \<Rightarrow> video_capture list \<Rightarrow> tether_signaling_config" where
  "sender_signaling_config c caps =
     \<lparr>sc_server_url = Some (fallback_or (sd_server_url c) tether_default_server_url),
      sc_role = TETHER_ROLE_SENDER,
      sc_display_name = Some (case caps of cap # _ \<Rightarrow> vc_source_name cap | [] \<Rightarrow> ''tether''),
      sc_token = None, sc_token_ttl_minutes = sd_token_ttl_minutes c,
      sc_reusable_token = sd_reusable_token c, sc_cb = True\<rparr>"

definition or_default :: "int \<Rightarrow> int \<Rightarrow> int" where
  "or_default v d = (if v \<le> 0 then d else v)"

definition no_callbacks :: tether_sender_callbacks where
  "no_callbacks = \<lparr>cb_on_token = False, cb_on_pending = False, cb_on_peer_state = False, cb_on_peer_gone = False\<rparr>"

text \<open>The configuration with its defaults, and the sender before it connects.\<close>

definition with_defaults :: "tether_sender_config \<Rightarrow> tether_sender_config" where
  "with_defaults c = c\<lparr>sd_video_bitrate_kbps := or_default (sd_video_bitrate_kbps c) 6000,
     sd_max_receivers := or_default (sd_max_receivers c) 4,
     sd_token_ttl_minutes := or_default (sd_token_ttl_minutes c) 30\<rparr>"

definition new_sender :: "tether_sender_config \<Rightarrow> string \<Rightarrow> tether_sender_callbacks option \<Rightarrow> 'f tether_sender" where
  "new_sender c first cbs =
     \<lparr>sn_cfg = with_defaults c,
      sn_audio_source_names = (case sd_audio_source_names c of None \<Rightarrow> [] | Some ns \<Rightarrow> ns),
      sn_captures = sender_captures c first,
      sn_cbs = (case cbs of None \<Rightarrow> no_callbacks | Some b \<Rightarrow> b),
      sn_sig = tether_signaling_create (Some (sender_signaling_config (with_defaults c) (sender_captures c first))),
      sn_adm = Some (tether_admission_create (sender_admission_config (with_defaults c))),
      sn_sessions = [], sn_current_token = [], sn_worker_running = False\<rparr>"

text \<open>\<open>ws\<close> is the socket handle libdatachannel returns.\<close>

definition tether_sender_create ::
  "sender_env \<Rightarrow> int \<Rightarrow> tether_sender_config option \<Rightarrow> tether_sender_callbacks option \<Rightarrow>
   'f tether_sender option \<times> 'f sender_out list" where
  "tether_sender_create env ws cfg cbs =
     (case cfg of
        None \<Rightarrow> (None, [])
      | Some c \<Rightarrow>
          (case first_source c of
             None \<Rightarrow> (None, [])
           | Some first \<Rightarrow>
               let s = new_sender c first cbs;
                   (sig', _, outs) = tether_signaling_connect ws (sn_sig s);
                   (s1, o1) = sn_deliver_sig env outs (s\<lparr>sn_sig := sig'\<rparr>)
               in (Some (s1\<lparr>sn_worker_running := True\<rparr>), o1)))"

text \<open>The memory and the graphics objects go away with the sender.\<close>

definition tether_sender_release ::
  "sender_env \<Rightarrow> 'f tether_sender option \<Rightarrow> 'f tether_sender option \<times> 'f sender_out list" where
  "tether_sender_release env s =
     (None, case s of
        None \<Rightarrow> []
      | Some v \<Rightarrow>
          concat (map release_session (sn_sessions v)) @
          (case tether_signaling_release (sn_sig v) of (_, outs) \<Rightarrow>
             snd (sn_deliver_sig env outs (v\<lparr>sn_worker_running := False, sn_sessions := []\<rparr>))))"

section \<open>The host's decisions\<close>

definition tether_sender_accept ::
  "session_env \<Rightarrow> 'f tether_sender \<Rightarrow> string option \<Rightarrow> bool \<Rightarrow> 'f tether_sender \<times> 'f sender_out list" where
  "tether_sender_accept env s pid pin = with_admission env (tether_admission_accept (sn_adm s) pid pin) s"

definition tether_sender_reject ::
  "session_env \<Rightarrow> 'f tether_sender \<Rightarrow> string option \<Rightarrow> 'f tether_sender \<times> 'f sender_out list" where
  "tether_sender_reject env s pid = with_admission env (tether_admission_reject (sn_adm s) pid) s"

definition drop_media :: "'f receiver_session \<Rightarrow> 'f receiver_session \<times> 'f sender_out list" where
  "drop_media r =
     (r\<lparr>rs_wrtc := None, rs_audio := None\<rparr>,
      map (SnWr (rs_peer_id r)) (snd (tether_webrtc_release (rs_wrtc r))) @
      (if rs_audio r = None then [] else map (SnAudio (rs_peer_id r)) (tether_audio_sender_release (rs_audio r))))"

definition tether_sender_disconnect_peer ::
  "session_env \<Rightarrow> 'f tether_sender \<Rightarrow> string option \<Rightarrow> 'f tether_sender \<times> 'f sender_out list" where
  "tether_sender_disconnect_peer env s pid =
     (case pid of
        None \<Rightarrow> (s, [])
      | Some i \<Rightarrow>
          (let o1 = (case find_session_locked s i of None \<Rightarrow> [] | Some r \<Rightarrow> snd (drop_media r));
               s1 = s\<lparr>sn_sessions := update_first (has_peer i) (\<lambda>r. fst (drop_media r)) (sn_sessions s)\<rparr> in
           case with_admission env (tether_admission_disconnect_peer (sn_adm s1) (Some i)) s1 of
             (s2, o2) \<Rightarrow> (s2, o1 @ o2 @ map SnSig (snd (tether_signaling_reject (sn_sig s2) (Some i))) @
                            (if cb_on_peer_gone (sn_cbs s2) then [CbPeerGone i] else []))))"

definition tether_sender_revoke_token :: "'f tether_sender \<Rightarrow> 'f tether_sender \<times> 'f sender_out list" where
  "tether_sender_revoke_token s =
     (s\<lparr>sn_adm := tether_admission_revoke_all (sn_adm s)\<rparr>,
      map SnSig (snd (tether_signaling_revoke_token (sn_sig s))))"

definition tether_sender_current_token :: "'f tether_sender option \<Rightarrow> string option" where
  "tether_sender_current_token s =
     (case s of None \<Rightarrow> None | Some v \<Rightarrow> if sn_current_token v = [] then None else Some (sn_current_token v))"

section \<open>The sender as a machine\<close>

datatype sn_op =
    SnSocket sender_env sig_op
  | SnRtc sender_env nat rtc_callback
  | SnAccept session_env "string option" bool
  | SnReject session_env "string option"
  | SnDisconnect session_env "string option"
  | SnRevoke
  | SnRender "nat \<Rightarrow> cap_env"
  | SnWork "nat \<Rightarrow> nat \<Rightarrow> enc_env"

fun sn_call :: "sn_op \<Rightarrow> 'f tether_sender \<Rightarrow> ('f tether_sender \<times> 'f sender_out list) option" where
  "sn_call (SnSocket env op) s = Some (sn_socket_event env op s)"
| "sn_call (SnRtc env k cb) s = Some (sn_rtc_event env k cb s)"
| "sn_call (SnAccept env i pin) s = Some (tether_sender_accept env s i pin)"
| "sn_call (SnReject env i) s = Some (tether_sender_reject env s i)"
| "sn_call (SnDisconnect env i) s = Some (tether_sender_disconnect_peer env s i)"
| "sn_call SnRevoke s = Some (tether_sender_revoke_token s)"
| "sn_call (SnRender env) s = Some (graphics_render_cb env s)"
| "sn_call (SnWork env) s = encoder_worker_pass env s"

text \<open>A run, with what it did; \<^const>\<open>None\<close> after a step that went through a NULL scaler.\<close>

fun sn_run :: "sn_op list \<Rightarrow> 'f tether_sender \<Rightarrow> ('f tether_sender \<times> 'f sender_out list) option" where
  "sn_run [] s = Some (s, [])"
| "sn_run (op # ops) s =
     (case sn_call op s of
        None \<Rightarrow> None
      | Some (s1, o1) \<Rightarrow> (case sn_run ops s1 of None \<Rightarrow> None | Some (s2, o2) \<Rightarrow> Some (s2, o1 @ o2)))"

section \<open>Who gets a session\<close>

text \<open>What the accounting looks at: the waiting room and the peers of the sessions.\<close>

definition sn_core :: "'f tether_sender \<Rightarrow> tether_admission option \<times> string list" where
  "sn_core s = (sn_adm s, map rs_peer_id (sn_sessions s))"

lemma sn_core_create:
  "sn_core (fst (create_session env s p)) = sn_core s \<or>
   sn_core (fst (create_session env s p)) =
     (sn_adm s, map rs_peer_id (sn_sessions s) @ [strncpy_buf TETHER_PEER_ID_MAX (peer_id p)])"
  by (auto simp: create_session_def sn_core_def Let_def split: option.splits prod.splits)

lemma sn_core_changed:
  "sn_core (fst (changed_peers env (on_changed b p) s)) = sn_core s \<or>
   peer_state p = TETHER_PEER_ACCEPTED \<and>
   sn_core (fst (changed_peers env (on_changed b p) s)) =
     (sn_adm s, map rs_peer_id (sn_sessions s) @ [strncpy_buf TETHER_PEER_ID_MAX (peer_id p)])"
  using sn_core_create [of env s p]
  by (cases "peer_state p") (auto simp: on_changed_def on_admission_changed_def split: prod.splits)

text \<open>
  Pinned peers exist only under \<open>P\<close>, sessions only for the peers in \<open>A\<close> unless \<open>P\<close>.
\<close>

definition admitted :: "string set \<Rightarrow> bool \<Rightarrow> tether_admission option \<times> string list \<Rightarrow> bool" where
  "admitted A P x \<longleftrightarrow> (\<exists>a. fst x = Some a \<and> peers_fit a \<and> (\<forall>p \<in> set (adm_peers a). peer_pinned p \<longrightarrow> P)) \<and>
     (\<forall>i \<in> set (snd x). i \<in> A \<or> P)"

lemma admitted_mono: "admitted A P x \<Longrightarrow> A \<subseteq> B \<Longrightarrow> (P \<Longrightarrow> Q) \<Longrightarrow> admitted B Q x"
  by (auto simp: admitted_def)

text \<open>What an operation of the waiting room lets in, and whether it pins.\<close>

fun lets_in :: "adm_op \<Rightarrow> string set" where
  "lets_in (AcceptPeer (Some i) pin) = {i}"
| "lets_in _ = {}"

fun pins :: "adm_op \<Rightarrow> bool" where
  "pins (AcceptPeer (Some i) pin) = pin"
| "pins _ = False"

lemma auto_accept_pinned:
  "auto_accept a f p = p \<or> (\<exists>q \<in> set (adm_peers a). peer_pinned q)"
  by (auto simp: auto_accept_def split: option.splits)

lemma admitted_effect:
  assumes "adm_effect op a b ns" and "admitted A P (Some a, ids)"
  shows "admitted (A \<union> lets_in op) (P \<or> pins op) (Some b, ids) \<and>
    (\<forall>p \<in> set ns. peer_state p = TETHER_PEER_ACCEPTED \<longrightarrow>
       strncpy_buf TETHER_PEER_ID_MAX (peer_id p) \<in> A \<union> lets_in op \<or> P \<or> pins op)"
proof -
  have fit: "peers_fit b"
    using peers_fit_effect [OF assms(1)] assms(2) by (auto simp: admitted_def)
  have pins_a: "\<forall>p \<in> set (adm_peers a). peer_pinned p \<longrightarrow> P" and ids: "\<forall>i \<in> set ids. i \<in> A \<or> P"
    and fit_a: "peers_fit a"
    using assms(2) by (auto simp: admitted_def)
  show ?thesis using assms(1)
  proof cases
    case no_peer_change
    with fit pins_a ids show ?thesis by (auto simp: admitted_def)
  next
    case (new_peer f ck i n)
    let ?p = "auto_accept a f (Admission.new_peer (ck_seen ck) i n f)"
    from auto_accept_pinned [of a f "Admission.new_peer (ck_seen ck) i n f"] pins_a
    have "?p = Admission.new_peer (ck_seen ck) i n f \<or> P" by blast
    then have "peer_pinned ?p \<longrightarrow> P" and "peer_state ?p = TETHER_PEER_ACCEPTED \<longrightarrow> P"
      by (auto simp: new_peer_def)
    with new_peer fit pins_a ids show ?thesis by (auto simp: admitted_def on_changed_def)
  next
    case (peer_change i p pin st)
    from peer_change(2) have p: "p \<in> set (adm_peers a)" "peer_id p = i"
      by (auto simp: find_peer_locked_def has_peer_id_def dest: find_SomeD)
    with fit_a have "strncpy_buf TETHER_PEER_ID_MAX (peer_id p) = i"
      by (auto simp: peers_fit_def peer_fits_def strncpy_buf_fits)
    moreover have "pin \<longrightarrow> pins op" and "st = TETHER_PEER_ACCEPTED \<longrightarrow> lets_in op = {i}"
      using peer_change(3) by auto
    ultimately show ?thesis
      using peer_change fit pins_a ids p
      by (auto simp: admitted_def on_changed_def elim!: in_update_firstE)
  next
    case revoked
    with fit pins_a ids show ?thesis by (auto simp: admitted_def)
  qed
qed

lemma on_changed_single: "adm_effect op a b ns \<Longrightarrow> ns = [] \<or> (\<exists>p. ns = on_changed b p)"
  by (auto elim: adm_effect.cases)

lemma admitted_operation:
  assumes "admitted A P (sn_core s)" and "res = adm_call op (sn_adm s)"
  shows "admitted (A \<union> lets_in op) (P \<or> pins op) (sn_core (fst (with_admission env res s)))"
proof -
  from assms(1) obtain a where a: "sn_adm s = Some a" by (auto simp: admitted_def sn_core_def)
  obtain r ok ns where res: "adm_call op (Some a) = (r, ok, ns)" by (metis prod_cases3)
  from adm_call_effect [OF res] obtain b where b: "r = Some b" "adm_effect op a b ns" by blast
  from assms(1) a have "admitted A P (Some a, map rs_peer_id (sn_sessions s))" by (simp add: sn_core_def)
  note eff = admitted_effect [OF b(2) this]
  let ?s = "s\<lparr>sn_adm := Some b\<rparr>"
  have core: "sn_core ?s = (Some b, map rs_peer_id (sn_sessions s))" by (simp add: sn_core_def)
  have "with_admission env res s = changed_peers env ns ?s"
    using assms(2) a res b by (simp add: with_admission_def)
  moreover have "admitted (A \<union> lets_in op) (P \<or> pins op) (sn_core (fst (changed_peers env ns ?s)))"
    using on_changed_single [OF b(2)]
  proof
    assume "ns = []"
    then show ?thesis using eff core by simp
  next
    assume "\<exists>p. ns = on_changed b p"
    then obtain p where p: "ns = on_changed b p" by blast
    show ?thesis
    proof (cases "ns = []")
      case True
      then show ?thesis using eff core by simp
    next
      case False
      with p have "p \<in> set ns" by (auto simp: on_changed_def split: if_splits)
      with eff have "peer_state p = TETHER_PEER_ACCEPTED \<Longrightarrow>
          strncpy_buf TETHER_PEER_ID_MAX (peer_id p) \<in> A \<union> lets_in op \<or> P \<or> pins op" by blast
      with sn_core_changed [of env b p ?s] eff core p show ?thesis
        by (auto simp: admitted_def)
    qed
  qed
  ultimately show ?thesis by simp
qed

lemma admitted_operation_same:
  "admitted A P (sn_core s) \<Longrightarrow> lets_in op = {} \<Longrightarrow> \<not> pins op \<Longrightarrow>
    admitted A P (sn_core (fst (with_admission env (adm_call op (sn_adm s)) s)))"
  using admitted_operation [of A P s _ op env] by simp

lemma admitted_disconnect:
  "with_admission env (tether_admission_disconnect_peer (sn_adm s) i) s = (s', os) \<Longrightarrow>
    admitted A P (sn_core s) \<Longrightarrow> admitted A P (sn_core s')"
  using admitted_operation_same [of A P s "DisconnectPeer i" env] by simp

lemma admitted_add_pending:
  "with_admission env (tether_admission_add_pending ck (sn_adm s) i n f) s = (s', os) \<Longrightarrow>
    admitted A P (sn_core s) \<Longrightarrow> admitted A P (sn_core s')"
  using admitted_operation_same [of A P s "AddPending ck i n f" env] by simp

lemma sn_core_update [simp]:
  "sn_core (s\<lparr>sn_sig := x\<rparr>) = sn_core s" "sn_core (s\<lparr>sn_current_token := t\<rparr>) = sn_core s"
  "sn_core (s\<lparr>sn_captures := c\<rparr>) = sn_core s" "sn_core (s\<lparr>sn_worker_running := b\<rparr>) = sn_core s"
  by (simp_all add: sn_core_def)

lemma admitted_signaling_event:
  assumes "on_signaling_event env evt pid payload s = (s', outs)" and "admitted A P (sn_core s)"
  shows "admitted A P (sn_core s')"
proof (cases evt)
  case TETHER_SIG_EVT_REQUEST_PENDING
  with assms show ?thesis
    by (auto simp: Let_def split: option.splits prod.splits intro: admitted_add_pending)
next
  case TETHER_SIG_EVT_PEER_GONE
  with assms show ?thesis
    by (auto split: option.splits prod.splits intro: admitted_disconnect)
qed (use assms in \<open>auto simp: Let_def split: option.splits prod.splits\<close>)

lemma admitted_deliver_sig:
  "sn_deliver_sig env outs s = (s', os) \<Longrightarrow> admitted A P (sn_core s) \<Longrightarrow> admitted A P (sn_core s')"
proof (induction outs arbitrary: s s' os)
  case Nil
  then show ?case by simp
next
  case (Cons out outs)
  obtain s1 o1 where s1: "(case out of Emit evt pid payload \<Rightarrow> on_signaling_event env evt pid payload s
      | _ \<Rightarrow> (s, [SnSig out])) = (s1, o1)" by fastforce
  then have "admitted A P (sn_core s1)"
    using Cons.prems(2) admitted_signaling_event by (cases out) auto
  with Cons s1 show ?case by (auto split: prod.splits)
qed

lemma admitted_deliver_wr:
  "sn_deliver_wr env pid outs s = (s', os) \<Longrightarrow> admitted A P (sn_core s) \<Longrightarrow> admitted A P (sn_core s')"
proof (induction outs arbitrary: s s' os)
  case Nil
  then show ?case by simp
next
  case (Cons out outs)
  obtain s1 o1 where s1: "(case out of OnLocalSdp ty sdp \<Rightarrow> (s, session_local_sdp pid ty sdp s)
       | OnLocalIce cand mid mline \<Rightarrow> (s, session_local_ice pid cand mid mline s)
       | OnState st \<Rightarrow> session_state (ne_session env) pid st s
       | _ \<Rightarrow> (s, [SnWr pid out])) = (s1, o1)" by fastforce
  have "admitted A P (sn_core s1)"
  proof (cases out)
    case (OnState st)
    with s1 Cons.prems(2) show ?thesis
      by (auto simp: session_state_def Let_def split: if_splits prod.splits intro: admitted_disconnect)
  qed (use s1 Cons.prems(2) in auto)
  with Cons s1 show ?case by (auto split: prod.splits)
qed

lemma map_peer_update: "k < length rs \<Longrightarrow> rs_peer_id r = rs_peer_id (rs ! k) \<Longrightarrow> map rs_peer_id (rs[k := r]) = map rs_peer_id rs"
  by (metis list_update_id map_update)

lemma encode_for_session_peer:
  "encode_for_session env br i fr r = Some (r', os) \<Longrightarrow> rs_peer_id r' = rs_peer_id r"
  by (auto simp: encode_for_session_def split: if_splits)

lemma encode_sessions_peers:
  "encode_sessions env br i fr k rs = Some (rs', os) \<Longrightarrow> map rs_peer_id rs' = map rs_peer_id rs"
proof (induction rs arbitrary: k rs' os)
  case Nil
  then show ?case by simp
next
  case (Cons r rs)
  from Cons.prems obtain r1 o1 rs1 o2 where "encode_for_session (env k) br i fr r = Some (r1, o1)"
    "encode_sessions env br i fr (k + 1) rs = Some (rs1, o2)" "rs' = r1 # rs1"
    by (auto split: option.splits)
  with Cons.IH encode_for_session_peer [of "env k" br i fr r r1 o1] show ?case by auto
qed

lemma worker_visit_core: "worker_visit env i s = Some (s', os) \<Longrightarrow> sn_core s' = sn_core s"
  by (auto simp: worker_visit_def encode_capture_to_sessions_def sn_core_def Let_def
      dest!: encode_sessions_peers split: option.splits prod.splits)

lemma worker_visits_core: "worker_visits env is s = Some (s', os) \<Longrightarrow> sn_core s' = sn_core s"
  by (induction "is" arbitrary: s s' os) (auto dest!: worker_visit_core split: option.splits)

lemma encoder_worker_pass_core: "encoder_worker_pass env s = Some (s', os) \<Longrightarrow> sn_core s' = sn_core s"
  by (auto simp: encoder_worker_pass_def split: if_splits dest: worker_visits_core)

lemma drop_media_peers:
  "map rs_peer_id (update_first (has_peer i) (\<lambda>r. fst (drop_media r)) rs) = map rs_peer_id rs"
  by (rule map_update_first) (simp add: drop_media_def)

fun host_accepts :: "sn_op \<Rightarrow> string set" where
  "host_accepts (SnAccept env (Some i) pin) = {i}"
| "host_accepts _ = {}"

fun host_pins :: "sn_op \<Rightarrow> bool" where
  "host_pins (SnAccept env (Some i) pin) = pin"
| "host_pins _ = False"

lemma admitted_step:
  assumes "admitted A P (sn_core s)" and "sn_call op s = Some (s', os)"
  shows "admitted (A \<union> host_accepts op) (P \<or> host_pins op) (sn_core s')"
proof (cases op)
  case (SnSocket env sop)
  with assms show ?thesis
    by (auto simp: sn_socket_event_def split: option.splits prod.splits
        dest!: admitted_deliver_sig [where A = A and P = P])
next
  case (SnRtc env k cb)
  show ?thesis
  proof (cases "k < length (sn_sessions s) \<and> rs_wrtc (sn_sessions s ! k) \<noteq> None")
    case True
    then obtain w where w: "rs_wrtc (sn_sessions s ! k) = Some w" by auto
    obtain w' outs where wc: "wr_callback cb w = (w', outs)" by fastforce
    let ?s = "s\<lparr>sn_sessions := (sn_sessions s)[k := (sn_sessions s ! k)\<lparr>rs_wrtc := Some w'\<rparr>]\<rparr>"
    have "sn_core ?s = sn_core s" using True by (simp add: sn_core_def map_peer_update)
    moreover have "sn_deliver_wr env (rs_peer_id (sn_sessions s ! k)) outs ?s = (s', os)"
      using SnRtc assms(2) True w wc by (auto simp: sn_rtc_event_def Let_def)
    ultimately show ?thesis using SnRtc assms(1) admitted_deliver_wr by fastforce
  next
    case False
    with SnRtc assms show ?thesis by (auto simp: sn_rtc_event_def Let_def split: if_splits)
  qed
next
  case (SnAccept env i pin)
  have "lets_in (AcceptPeer i pin) = host_accepts op" "pins (AcceptPeer i pin) = host_pins op"
    using SnAccept by (cases i; simp)+
  with SnAccept assms admitted_operation [OF assms(1) refl, of "AcceptPeer i pin" env] show ?thesis
    by (auto simp: tether_sender_accept_def)
next
  case (SnReject env i)
  with assms admitted_operation_same [OF assms(1), of "RejectPeer i" env] show ?thesis
    by (auto simp: tether_sender_reject_def)
next
  case (SnDisconnect env i)
  show ?thesis
  proof (cases i)
    case None
    with SnDisconnect assms show ?thesis by (simp add: tether_sender_disconnect_peer_def)
  next
    case (Some j)
    let ?s = "s\<lparr>sn_sessions := update_first (has_peer j) (\<lambda>r. fst (drop_media r)) (sn_sessions s)\<rparr>"
    have "sn_core ?s = sn_core s" by (simp add: sn_core_def drop_media_peers)
    with assms(1) have "admitted A P (sn_core ?s)" by simp
    moreover obtain s2 o2 where s2: "with_admission env (tether_admission_disconnect_peer (sn_adm ?s) (Some j)) ?s = (s2, o2)"
      by fastforce
    ultimately have "admitted A P (sn_core s2)" by (blast intro: admitted_disconnect)
    moreover have "s' = s2"
      using Some SnDisconnect assms(2) s2 by (auto simp: tether_sender_disconnect_peer_def Let_def)
    ultimately show ?thesis using SnDisconnect by simp
  qed
next
  case SnRevoke
  obtain a where "sn_adm s = Some a" using assms(1) by (auto simp: admitted_def sn_core_def)
  with SnRevoke assms show ?thesis
    by (auto simp: tether_sender_revoke_token_def admitted_def sn_core_def tether_admission_revoke_all_def
        peers_fit_def)
next
  case (SnRender env)
  with assms show ?thesis by (auto simp: graphics_render_cb_def Let_def)
next
  case (SnWork env)
  with assms show ?thesis by (auto dest: encoder_worker_pass_core)
qed

lemma admitted_run:
  "admitted A P (sn_core s) \<Longrightarrow> sn_run ops s = Some (s', os) \<Longrightarrow>
    admitted (A \<union> (\<Union>op \<in> set ops. host_accepts op)) (P \<or> (\<exists>op \<in> set ops. host_pins op)) (sn_core s')"
proof (induction ops arbitrary: A P s s' os)
  case Nil
  then show ?case by simp
next
  case (Cons op ops)
  from Cons.prems(2) obtain s1 o1 o2 where s1: "sn_call op s = Some (s1, o1)" "sn_run ops s1 = Some (s', o2)"
    by (auto split: option.splits)
  from Cons.IH [OF admitted_step [OF Cons.prems(1) s1(1)] s1(2)] show ?case
    by (rule admitted_mono) auto
qed

section \<open>The list of sessions\<close>

text \<open>
  What a step does to the sessions: each keeps its place, its peer and its number of encoders, a released
  connection never comes back, and new sessions are appended.
\<close>

definition session_succ :: "'f receiver_session \<Rightarrow> 'f receiver_session \<Rightarrow> bool" where
  "session_succ r r' \<longleftrightarrow> rs_peer_id r' = rs_peer_id r \<and> (rs_wrtc r = None \<longrightarrow> rs_wrtc r' = None) \<and>
     length (rs_src_encoders r') = length (rs_src_encoders r)"

definition sessions_succ :: "'f tether_sender \<Rightarrow> 'f tether_sender \<Rightarrow> bool" where
  "sessions_succ s s' \<longleftrightarrow>
     (\<exists>ys zs. sn_sessions s' = ys @ zs \<and> list_all2 session_succ (sn_sessions s) ys)"

lemma session_succ_refl [simp]: "session_succ r r"
  by (simp add: session_succ_def)

lemma session_succ_trans: "session_succ r r1 \<Longrightarrow> session_succ r1 r2 \<Longrightarrow> session_succ r r2"
  by (simp add: session_succ_def)

lemma sessions_succ_same: "sn_sessions s' = sn_sessions s \<Longrightarrow> sessions_succ s s'"
  unfolding sessions_succ_def by (intro exI [of _ "sn_sessions s"] exI [of _ "[]"]) (simp add: list.rel_refl)

lemma sessions_succ_append: "sn_sessions s' = sn_sessions s @ zs \<Longrightarrow> sessions_succ s s'"
  unfolding sessions_succ_def by (blast intro: list.rel_refl session_succ_refl)

lemma sessions_succ_pointwise: "list_all2 session_succ (sn_sessions s) (sn_sessions s') \<Longrightarrow> sessions_succ s s'"
  by (auto simp: sessions_succ_def)

lemma sessions_succ_trans:
  assumes "sessions_succ s s1" and "sessions_succ s1 s2"
  shows "sessions_succ s s2"
proof -
  from assms(1) obtain ys zs where 1: "sn_sessions s1 = ys @ zs" "list_all2 session_succ (sn_sessions s) ys"
    by (auto simp: sessions_succ_def)
  from assms(2) obtain us vs where 2: "sn_sessions s2 = us @ vs" "list_all2 session_succ (ys @ zs) us"
    using 1(1) by (auto simp: sessions_succ_def)
  from 2(2) obtain us1 us2 where us: "us = us1 @ us2" "list_all2 session_succ ys us1"
    by (auto simp: list_all2_append1)
  have "list_all2 session_succ (sn_sessions s) us1"
    by (rule list_all2_trans [OF session_succ_trans 1(2) us(2)])
  with 2(1) us(1) show ?thesis by (auto simp: sessions_succ_def)
qed

lemma sessions_succ_congs:
  "sn_sessions s = sn_sessions t \<Longrightarrow> sessions_succ s s' = sessions_succ t s'"
  "sn_sessions s' = sn_sessions t' \<Longrightarrow> sessions_succ s s' = sessions_succ s t'"
  by (simp_all add: sessions_succ_def)

lemma create_session_grows: "create_session env s p = (s', os) \<Longrightarrow> sessions_succ s s'"
  by (auto simp: create_session_def Let_def split: option.splits prod.splits
      intro: sessions_succ_same sessions_succ_append)

lemma admission_changed_grows: "on_admission_changed env s p = (s', os) \<Longrightarrow> sessions_succ s s'"
  by (auto simp: on_admission_changed_def split: tether_peer_state.splits prod.splits
      intro: sessions_succ_same create_session_grows)

lemma changed_peers_grows: "changed_peers env ps s = (s', os) \<Longrightarrow> sessions_succ s s'"
proof (induction ps arbitrary: s s' os)
  case Nil
  then show ?case by (simp add: sessions_succ_same)
next
  case (Cons p ps)
  then show ?case
    by (auto split: prod.splits intro: sessions_succ_trans admission_changed_grows)
qed

lemma with_admission_grows: "with_admission env res s = (s', os) \<Longrightarrow> sessions_succ s s'"
proof -
  assume w: "with_admission env res s = (s', os)"
  obtain adm ok ps where "res = (adm, ok, ps)" by (metis prod_cases3)
  with w have "sessions_succ (s\<lparr>sn_adm := adm\<rparr>) s'" by (auto simp: with_admission_def intro: changed_peers_grows)
  then show ?thesis by (simp add: sessions_succ_def)
qed

lemma signaling_event_grows: "on_signaling_event env evt pid payload s = (s', os) \<Longrightarrow> sessions_succ s s'"
  by (cases evt)
     (auto simp: Let_def split: option.splits prod.splits intro: sessions_succ_same with_admission_grows)

lemma deliver_sig_grows: "sn_deliver_sig env outs s = (s', os) \<Longrightarrow> sessions_succ s s'"
proof (induction outs arbitrary: s s' os)
  case Nil
  then show ?case by (simp add: sessions_succ_same)
next
  case (Cons out outs)
  obtain s1 o1 where s1: "(case out of Emit evt pid payload \<Rightarrow> on_signaling_event env evt pid payload s
      | _ \<Rightarrow> (s, [SnSig out])) = (s1, o1)" by fastforce
  then have "sessions_succ s s1"
    by (cases out) (auto intro: signaling_event_grows sessions_succ_same)
  with Cons s1 show ?case by (auto split: prod.splits intro: sessions_succ_trans)
qed

lemma session_state_grows: "session_state env pid st s = (s', os) \<Longrightarrow> sessions_succ s s'"
  by (auto simp: session_state_def Let_def split: if_splits prod.splits
      intro: sessions_succ_same with_admission_grows)

lemma deliver_wr_grows: "sn_deliver_wr env pid outs s = (s', os) \<Longrightarrow> sessions_succ s s'"
proof (induction outs arbitrary: s s' os)
  case Nil
  then show ?case by (simp add: sessions_succ_same)
next
  case (Cons out outs)
  obtain s1 o1 where s1: "(case out of OnLocalSdp ty sdp \<Rightarrow> (s, session_local_sdp pid ty sdp s)
       | OnLocalIce cand mid mline \<Rightarrow> (s, session_local_ice pid cand mid mline s)
       | OnState st \<Rightarrow> session_state (ne_session env) pid st s
       | _ \<Rightarrow> (s, [SnWr pid out])) = (s1, o1)" by fastforce
  then have "sessions_succ s s1"
    by (cases out) (auto intro: session_state_grows sessions_succ_same)
  with Cons s1 show ?case by (auto split: prod.splits intro: sessions_succ_trans)
qed

lemma encode_for_session_succ:
  "encode_for_session env br i fr r = Some (r', os) \<Longrightarrow> session_succ r r'"
  by (auto simp: encode_for_session_def session_succ_def split: if_splits)

lemma encode_sessions_succ:
  "encode_sessions env br i fr k rs = Some (rs', os) \<Longrightarrow> list_all2 session_succ rs rs'"
proof (induction rs arbitrary: k rs' os)
  case (Cons r rs)
  from Cons.prems obtain r1 o1 rs1 o2 where "encode_for_session (env k) br i fr r = Some (r1, o1)"
    "encode_sessions env br i fr (k + 1) rs = Some (rs1, o2)" "rs' = r1 # rs1"
    by (auto split: option.splits)
  with Cons.IH encode_for_session_succ [of "env k" br i fr r r1 o1] show ?case by auto
qed simp

lemma encode_capture_succ:
  "encode_capture_to_sessions env i fr s = Some (s', os) \<Longrightarrow> list_all2 session_succ (sn_sessions s) (sn_sessions s')"
  by (auto simp: encode_capture_to_sessions_def Let_def dest: encode_sessions_succ)

lemma worker_visit_grows: "worker_visit env i s = Some (s', os) \<Longrightarrow> sessions_succ s s'"
  by (auto simp: worker_visit_def split: option.splits prod.splits
      dest!: encode_capture_succ intro: sessions_succ_same sessions_succ_pointwise)

lemma worker_visits_grows: "worker_visits env is s = Some (s', os) \<Longrightarrow> sessions_succ s s'"
proof (induction "is" arbitrary: s s' os)
  case (Cons i "is")
  then obtain s1 o1 o2 where "worker_visit (env i) i s = Some (s1, o1)" "worker_visits env is s1 = Some (s', o2)"
    by (auto split: option.splits)
  with Cons.IH show ?case by (blast intro: sessions_succ_trans worker_visit_grows)
qed (simp add: sessions_succ_same)

lemma drop_media_succ: "list_all2 session_succ rs (update_first (has_peer i) (\<lambda>r. fst (drop_media r)) rs)"
  by (induction rs) (auto simp: session_succ_def drop_media_def list.rel_refl)

lemma disconnect_grows:
  assumes "tether_sender_disconnect_peer env s i = (s', os)"
  shows "sessions_succ s s'"
proof (cases i)
  case None
  with assms show ?thesis by (simp add: tether_sender_disconnect_peer_def sessions_succ_same)
next
  case (Some j)
  let ?s = "s\<lparr>sn_sessions := update_first (has_peer j) (\<lambda>r. fst (drop_media r)) (sn_sessions s)\<rparr>"
  obtain s2 o2 where s2: "with_admission env (tether_admission_disconnect_peer (sn_adm ?s) (Some j)) ?s = (s2, o2)"
    by fastforce
  have "sessions_succ s ?s" by (rule sessions_succ_pointwise) (simp add: drop_media_succ)
  moreover have "sessions_succ ?s s2" using s2 by (rule with_admission_grows)
  moreover have "s' = s2"
    using Some assms s2 by (auto simp: tether_sender_disconnect_peer_def Let_def)
  ultimately show ?thesis by (blast intro: sessions_succ_trans)
qed

lemma rtc_event_grows:
  assumes "sn_rtc_event env k cb s = (s', os)"
  shows "sessions_succ s s'"
proof (cases "k < length (sn_sessions s) \<and> rs_wrtc (sn_sessions s ! k) \<noteq> None")
  case True
  then obtain w where w: "rs_wrtc (sn_sessions s ! k) = Some w" by auto
  obtain w' outs where wc: "wr_callback cb w = (w', outs)" by fastforce
  let ?s = "s\<lparr>sn_sessions := (sn_sessions s)[k := (sn_sessions s ! k)\<lparr>rs_wrtc := Some w'\<rparr>]\<rparr>"
  have "sn_deliver_wr env (rs_peer_id (sn_sessions s ! k)) outs ?s = (s', os)"
    using assms True w wc by (auto simp: sn_rtc_event_def Let_def)
  then have "sessions_succ ?s s'" by (rule deliver_wr_grows)
  moreover have "sessions_succ s ?s"
    using True w by (intro sessions_succ_pointwise) (auto simp: list_all2_conv_all_nth nth_list_update session_succ_def)
  ultimately show ?thesis by (rule sessions_succ_trans [rotated])
next
  case False
  with assms show ?thesis by (auto simp: sn_rtc_event_def Let_def sessions_succ_same split: if_splits)
qed

lemma sn_call_grows:
  assumes "sn_call op s = Some (s', os)"
  shows "sessions_succ s s'"
proof (cases op)
  case (SnSocket env sop)
  show ?thesis
  proof (cases "sn_sig s")
    case None
    with SnSocket assms show ?thesis by (simp add: sn_socket_event_def sessions_succ_same)
  next
    case (Some sig)
    obtain sig' outs where "sig_call sop sig = (sig', outs)" by fastforce
    with SnSocket assms Some have "sn_deliver_sig env outs (s\<lparr>sn_sig := Some sig'\<rparr>) = (s', os)"
      by (simp add: sn_socket_event_def)
    then have "sessions_succ (s\<lparr>sn_sig := Some sig'\<rparr>) s'" by (rule deliver_sig_grows)
    then show ?thesis by (simp add: sessions_succ_def)
  qed
next
  case (SnRtc env k cb)
  with assms show ?thesis by (auto intro: rtc_event_grows)
next
  case (SnAccept env i pin)
  with assms show ?thesis by (auto simp: tether_sender_accept_def intro: with_admission_grows)
next
  case (SnReject env i)
  with assms show ?thesis by (auto simp: tether_sender_reject_def intro: with_admission_grows)
next
  case (SnDisconnect env i)
  with assms show ?thesis by (auto intro: disconnect_grows)
next
  case SnRevoke
  with assms show ?thesis by (auto simp: tether_sender_revoke_token_def intro: sessions_succ_same)
next
  case (SnRender env)
  with assms show ?thesis by (auto simp: graphics_render_cb_def Let_def intro: sessions_succ_same)
next
  case (SnWork env)
  with assms show ?thesis
    by (auto simp: encoder_worker_pass_def split: if_splits intro: sessions_succ_same worker_visits_grows)
qed

lemma sn_run_grows: "sn_run ops s = Some (s', os) \<Longrightarrow> sessions_succ s s'"
proof (induction ops arbitrary: s s' os)
  case (Cons op ops)
  then obtain s1 o1 o2 where "sn_call op s = Some (s1, o1)" "sn_run ops s1 = Some (s', o2)"
    by (auto split: option.splits)
  with Cons.IH show ?case by (blast intro: sessions_succ_trans sn_call_grows)
qed (simp add: sessions_succ_same)

text \<open>A peer whose first session has lost its connection: the session the messages for it are sent to.\<close>

definition silenced :: "string \<Rightarrow> 'f tether_sender \<Rightarrow> bool" where
  "silenced i s \<longleftrightarrow> (\<exists>r. find_session_locked s i = Some r \<and> rs_wrtc r = None)"

lemma find_session_succ:
  assumes "list_all2 session_succ rs ys" and "find (has_peer i) rs = Some r"
  shows "\<exists>r'. find (has_peer i) (ys @ zs) = Some r' \<and> session_succ r r'"
  using assms
proof (induction rs ys rule: list_all2_induct)
  case (Cons x rs y ys)
  have "has_peer i x = has_peer i y" using Cons.hyps(1) by (simp add: session_succ_def has_peer_def)
  with Cons show ?case by (auto split: if_splits)
qed simp

lemma silenced_succ: "silenced i s \<Longrightarrow> sessions_succ s s' \<Longrightarrow> silenced i s'"
proof -
  assume "silenced i s" and "sessions_succ s s'"
  then obtain r ys zs where "find (has_peer i) (sn_sessions s) = Some r" "rs_wrtc r = None"
    "sn_sessions s' = ys @ zs" "list_all2 session_succ (sn_sessions s) ys"
    by (auto simp: silenced_def find_session_locked_def sessions_succ_def)
  with find_session_succ [of "sn_sessions s" ys i r zs] show "silenced i s'"
    by (auto simp: silenced_def find_session_locked_def session_succ_def)
qed

lemma find_drop_media:
  "find (has_peer i) (update_first (has_peer i) (\<lambda>r. fst (drop_media r)) rs) =
    map_option (\<lambda>r. fst (drop_media r)) (find (has_peer i) rs)"
  by (induction rs) (auto simp: drop_media_def has_peer_def)

lemma drop_media_wrtc [simp]: "rs_wrtc (fst (drop_media r)) = None"
  by (simp add: drop_media_def)

lemma disconnect_silences:
  assumes "tether_sender_disconnect_peer env s (Some i) = (s', os)" and "find_session_locked s i \<noteq> None"
  shows "silenced i s'"
proof -
  let ?s = "s\<lparr>sn_sessions := update_first (has_peer i) (\<lambda>r. fst (drop_media r)) (sn_sessions s)\<rparr>"
  have "silenced i ?s"
    using assms(2) by (auto simp: silenced_def find_session_locked_def find_drop_media)
  moreover obtain s2 o2 where s2: "with_admission env (tether_admission_disconnect_peer (sn_adm ?s) (Some i)) ?s = (s2, o2)"
    by fastforce
  moreover have "s' = s2" using assms(1) s2 by (auto simp: tether_sender_disconnect_peer_def Let_def)
  ultimately show ?thesis by (blast intro: silenced_succ with_admission_grows)
qed

lemma silenced_drops:
  assumes "silenced i s"
  shows "on_signaling_event env TETHER_SIG_EVT_SDP_ANSWER (Some i) payload s = (s, [])"
    and "on_signaling_event env TETHER_SIG_EVT_ICE_CANDIDATE (Some i) payload s = (s, [])"
  using assms
  by (auto simp: silenced_def tether_webrtc_apply_remote_sdp_def tether_webrtc_add_remote_ice_def
      split: option.splits)

section \<open>Tracks of a session\<close>

lemma add_video_tracks_result:
  assumes "add_video_tracks tr k cs w = (w', es, os)" and "numbered w"
    and "\<forall>j < length cs. 0 < fst (tr (k + j))" and "\<forall>c \<in> set cs. vc_mid c \<noteq> []"
  shows "numbered w' \<and> length es = length cs \<and>
    wr_tracks w' = wr_tracks w @ map (\<lambda>j. \<lparr>tr_handle = fst (tr (k + j)), tr_track_id = wr_next_track_id w + int j,
      tr_is_video = True, tr_mid = strncpy_buf 64 (vc_mid (cs ! j))\<rparr>) [0..<length cs] \<and>
    (\<forall>j < length cs. es ! j = new_encoder (wr_next_track_id w + int j) (vc_mid (cs ! j)))"
  using assms
proof (induction cs arbitrary: k w w' es os)
  case Nil
  then show ?case by simp
next
  case (Cons c cs)
  let ?e = "\<lparr>tr_handle = fst (tr k), tr_track_id = wr_next_track_id w, tr_is_video = True,
    tr_mid = strncpy_buf 64 (vc_mid c)\<rparr>"
  let ?w = "w\<lparr>wr_next_track_id := wr_next_track_id w + 1, wr_tracks := wr_tracks w @ [?e]\<rparr>"
  have tr: "0 < fst (tr k)" using Cons.prems(3) [rule_format, of 0] by simp
  with Cons.prems(4) have add: "fst (tether_webrtc_add_video_track_ex (fst (tr k)) (snd (tr k)) (Some w)
      (Some (vc_mid c)) (Some (vc_source_name c))) = Some ?w \<and>
    fst (snd (tether_webrtc_add_video_track_ex (fst (tr k)) (snd (tr k)) (Some w)
      (Some (vc_mid c)) (Some (vc_source_name c)))) = wr_next_track_id w"
    by (simp add: tether_webrtc_add_video_track_ex_def push_track_def Let_def)
  then obtain o1 where o1: "tether_webrtc_add_video_track_ex (fst (tr k)) (snd (tr k)) (Some w)
      (Some (vc_mid c)) (Some (vc_source_name c)) = (Some ?w, wr_next_track_id w, o1)"
    by (metis prod.collapse)
  obtain w2 es2 o2 where rest: "add_video_tracks tr (k + 1) cs ?w = (w2, es2, o2)" by (metis prod_cases3)
  have res: "w' = w2" "es = new_encoder (wr_next_track_id w) (vc_mid c) # es2"
    using Cons.prems(1) o1 rest by auto
  have "numbered ?w" by (rule numbered_push [OF Cons.prems(2), where e = ?e]) simp_all
  moreover have "\<forall>j < length cs. 0 < fst (tr (k + 1 + j))"
    using Cons.prems(3) by (metis Suc_less_eq add.assoc length_Cons plus_1_eq_Suc)
  ultimately have IH: "numbered w2" "length es2 = length cs"
    "wr_tracks w2 = wr_tracks ?w @ map (\<lambda>j. \<lparr>tr_handle = fst (tr (k + 1 + j)), tr_track_id = wr_next_track_id ?w + int j,
      tr_is_video = True, tr_mid = strncpy_buf 64 (vc_mid (cs ! j))\<rparr>) [0..<length cs]"
    "\<forall>j < length cs. es2 ! j = new_encoder (wr_next_track_id ?w + int j) (vc_mid (cs ! j))"
    using Cons.IH [OF rest] Cons.prems(4) by auto
  have "wr_tracks w' = wr_tracks w @ map (\<lambda>j. \<lparr>tr_handle = fst (tr (k + j)), tr_track_id = wr_next_track_id w + int j,
      tr_is_video = True, tr_mid = strncpy_buf 64 (vc_mid ((c # cs) ! j))\<rparr>) [0..<length (c # cs)]"
    unfolding res(1) IH(3) length_Cons map_upt_Suc by (simp add: ac_simps)
  moreover have "es ! j = new_encoder (wr_next_track_id w + int j) (vc_mid ((c # cs) ! j))"
    if "j < length (c # cs)" for j
    using that IH(4) by (cases j) (simp_all add: res(2) ac_simps)
  ultimately show ?case using IH(1,2) res by simp
qed

lemma attach_appends:
  assumes "tether_audio_sender_attach env w au n l = (w', au', tid, os)" and "numbered w"
  shows "numbered w' \<and> (\<exists>ts. wr_tracks w' = wr_tracks w @ ts)"
  using assms
  by (auto simp: tether_audio_sender_attach_def tether_webrtc_add_audio_track_def push_track_def Let_def
      split: option.splits if_splits prod.splits intro: numbered_push)

lemma attach_audio_sources_appends:
  "attach_audio_sources env twitch k ns w au = (w', au', os) \<Longrightarrow> numbered w \<Longrightarrow>
    numbered w' \<and> (\<exists>ts. wr_tracks w' = wr_tracks w @ ts)"
proof (induction ns arbitrary: k w au w' au' os)
  case Nil
  then show ?case by simp
next
  case (Cons n ns)
  show ?case
  proof (cases "twitch \<and> strstr n ''Mic'' \<noteq> None")
    case True
    with Cons show ?thesis by (metis attach_audio_sources.simps(2))
  next
    case False
    obtain w1 au1 tid o1 where a: "tether_audio_sender_attach (env k) w au (Some n) (Some n) = (w1, au1, tid, o1)"
      by (metis prod_cases4)
    obtain w2 au2 o2 where r: "attach_audio_sources env twitch (k + 1) ns w1 au1 = (w2, au2, o2)"
      by (metis prod_cases3)
    from attach_appends [OF a Cons.prems(2)] Cons.IH [OF r] False Cons.prems(1) a r show ?thesis by auto
  qed
qed

lemma track_handle_numbered:
  assumes "numbered w" and "k < length (wr_tracks w)"
  shows "track_handle_for w (1 + int k) = tr_handle (wr_tracks w ! k)"
proof -
  from assms have "map tr_track_id (wr_tracks w) = map int [1..<Suc (length (wr_tracks w))]"
    by (simp add: numbered_def)
  from find_numbered [OF this, of "1 + int k"] assms(2) show ?thesis
    by (simp add: track_handle_for_def)
qed

section \<open>Encoding for all sessions\<close>

text \<open>What a session with a running encoder sends for a frame of capture \<open>i\<close>.\<close>

definition session_stream_outs :: "enc_env \<Rightarrow> nat \<Rightarrow> bgra_frame \<Rightarrow> 'f receiver_session \<Rightarrow> 'f sender_out list" where
  "session_stream_outs env i fr r =
     (if length (rs_src_encoders r) \<le> i then []
      else SnFrame (rs_peer_id r) fr (se_frame_pts (rs_src_encoders r ! i)) #
        concat (map (session_enc_out r) (packets_of env (se_video_track_id (rs_src_encoders r ! i)))))"

definition encoded_once :: "nat \<Rightarrow> 'f receiver_session \<Rightarrow> 'f receiver_session" where
  "encoded_once i r =
     (if length (rs_src_encoders r) \<le> i then r
      else r\<lparr>rs_src_encoders := (rs_src_encoders r)
        [i := (rs_src_encoders r ! i)\<lparr>se_frame_pts := se_frame_pts (rs_src_encoders r ! i) + 1\<rparr>]\<rparr>)"

definition ready_for :: "nat \<Rightarrow> bgra_frame \<Rightarrow> 'f receiver_session \<Rightarrow> bool" where
  "ready_for i fr r \<longleftrightarrow> (i < length (rs_src_encoders r) \<longrightarrow>
     (\<exists>br n. running (int_of_u32 (bf_width fr)) (int_of_u32 (bf_height fr)) br n (rs_src_encoders r ! i)))"

lemma encode_for_ready_session:
  assumes "ready_for i fr r"
  shows "encode_for_session env br i fr r = Some (encoded_once i r, session_stream_outs env i fr r)"
proof (cases "i < length (rs_src_encoders r)")
  case True
  with assms obtain br' n where run: "running (int_of_u32 (bf_width fr)) (int_of_u32 (bf_height fr)) br' n (rs_src_encoders r ! i)"
    by (auto simp: ready_for_def)
  then have "se_frame_pts (rs_src_encoders r ! i) = n" by (simp add: running_def)
  with encode_running [OF run refl refl, of env br] True show ?thesis
    by (simp add: encode_for_session_def encoded_once_def session_stream_outs_def session_enc_out_def [where out = "EncFrame fr n"])
next
  case False
  then show ?thesis by (simp add: encode_for_session_def encoded_once_def session_stream_outs_def)
qed

lemma encode_ready_sessions:
  "\<forall>r \<in> set rs. ready_for i fr r \<Longrightarrow>
    encode_sessions env br i fr k rs =
      Some (map (encoded_once i) rs, concat (map (\<lambda>j. session_stream_outs (env (k + j)) i fr (rs ! j)) [0..<length rs]))"
proof (induction rs arbitrary: k)
  case (Cons r rs)
  then have "encode_sessions env br i fr (k + 1) rs = Some (map (encoded_once i) rs,
      concat (map (\<lambda>j. session_stream_outs (env (k + 1 + j)) i fr (rs ! j)) [0..<length rs]))" by simp
  with Cons.prems encode_for_ready_session [of i fr r "env k" br] show ?case
    unfolding length_Cons map_upt_Suc by simp
qed simp

section \<open>Messages to the sender\<close>

lemma after_key_object:
  assumes "object_ok fs" and "key_ok key" and "lookup_str fs key = Some v"
  shows "\<exists>c r. after_key (print_object fs) key = Some (v @ CHR 0x22 # c # r)"
  using pattern_object [OF assms(1,2)] assms(3) by (auto simp: after_key_def)

lemma after_key_absent:
  "object_ok fs \<Longrightarrow> key_ok key \<Longrightarrow> lookup_str fs key = None \<Longrightarrow> after_key (print_object fs) key = None"
  using pattern_object [of fs key] by (auto simp: after_key_def)

lemma quoted_field_object:
  assumes "object_ok fs" and "key_ok key" and "CHR 0x22 \<notin> set (opt_str (lookup_str fs key))" and "0 < n"
  shows "quoted_field n (print_object fs) key = strncpy_buf n (opt_str (lookup_str fs key))"
proof (cases "lookup_str fs key")
  case None
  with after_key_absent [OF assms(1,2)] show ?thesis
    by (simp add: quoted_field_def opt_str_def strncpy_buf_def)
next
  case (Some v)
  with after_key_object [OF assms(1,2)] obtain c r where
    "after_key (print_object fs) key = Some (v @ CHR 0x22 # c # r)" by blast
  with assms(3) Some show ?thesis
    by (simp add: quoted_field_def opt_str_def strncpy_buf_def ptr_diff_def)
qed

lemma escaped_no_quote: "CHR 0x22 \<notin> set d \<Longrightarrow> CHR 0x22 \<notin> set (sdp_escape d)"
  by (induction d) (auto simp: escape_char_def)

lemma answered_sdp_object:
  assumes "object_ok fs" and "lookup_str fs ''sdp'' = Some v" and "CHR 0x22 \<notin> set v"
  shows "answered_sdp (print_object fs) = Some v"
  using after_key_object [OF assms(1) key_ok_literals(4) assms(2)] assms(3)
  by (auto simp: answered_sdp_def dup_span_def ptr_diff_def)

lemma escape_grows: "length d \<le> length (sdp_escape d)"
  by (induction d) (auto simp: escape_char_def)

lemma escape_changes:
  "set d \<inter> {CHR 0x5C, CHR 0x22, CHR 0x0A, CHR 0x0D, CHR 0x09} \<noteq> {} \<Longrightarrow> sdp_escape d \<noteq> d"
proof -
  assume "set d \<inter> {CHR 0x5C, CHR 0x22, CHR 0x0A, CHR 0x0D, CHR 0x09} \<noteq> {}"
  then have "length d < length (sdp_escape d)"
  proof (induction d)
    case (Cons c d)
    then show ?case using escape_grows [of d] by (auto simp: escape_char_def)
  qed simp
  then show ?thesis by auto
qed

text \<open>A text frame with a well-formed object reaches the handler with the event of its type.\<close>

lemma sn_sig_same: "sn_sig s = x \<Longrightarrow> s\<lparr>sn_sig := x\<rparr> = s"
  by (cases s) simp

lemma sn_received:
  assumes "sn_sig s = Some sig" and "sc_cb (sig_cfg sig)" and "n < 0" and "object_ok fs"
    and "lookup_str fs ''type'' = Some ty"
  shows "ty = ''pending'' \<Longrightarrow> sn_socket_event env (SigReceived (Some (print_object fs)) n) s =
      on_signaling_event env TETHER_SIG_EVT_REQUEST_PENDING (lookup_str fs ''peer_id'') (Some (print_object fs)) s"
    and "ty = ''sdp'' \<Longrightarrow> lookup_str fs ''sdp_type'' = Some ''answer'' \<Longrightarrow>
      sn_socket_event env (SigReceived (Some (print_object fs)) n) s =
      on_signaling_event env TETHER_SIG_EVT_SDP_ANSWER (lookup_str fs ''peer_id'') (Some (print_object fs)) s"
  using assms
  by (auto simp: sn_socket_event_def on_message_def handle_message_def json_find_object [OF assms(4)] emit_def
      sn_sig_same simp del: on_signaling_event.simps split: prod.splits)

lemma sn_received_token:
  assumes "sn_sig s = Some sig" and "sc_cb (sig_cfg sig)" and "n < 0" and "object_ok fs"
    and "lookup_str fs ''type'' = Some ''token''"
  shows "sn_socket_event env (SigReceived (Some (print_object fs)) n) s =
      on_signaling_event env TETHER_SIG_EVT_TOKEN_ISSUED None (lookup_str fs ''token'')
        (s\<lparr>sn_sig := Some (sig\<lparr>sig_token := lookup_str fs ''token''\<rparr>)\<rparr>)"
  using assms
  by (auto simp: sn_socket_event_def on_message_def handle_message_def json_find_object [OF assms(4)] emit_def Let_def
      simp del: on_signaling_event.simps split: prod.splits)

lemma created_admitted:
  assumes "tether_sender_create env ws cfg cbs = (Some s, o1)"
  shows "admitted {} False (sn_core s)"
proof -
  from assms obtain c first where c: "cfg = Some c" "first_source c = Some first"
    by (auto simp: tether_sender_create_def split: option.splits)
  obtain sig' ok outs where conn:
    "tether_signaling_connect ws (sn_sig (new_sender c first cbs :: 'a tether_sender)) = (sig', ok, outs)"
    by (metis prod_cases3)
  obtain s1 o2 where del: "sn_deliver_sig env outs (new_sender c first cbs\<lparr>sn_sig := sig'\<rparr>) = (s1 :: 'a tether_sender, o2)"
    by fastforce
  have "admitted {} False (sn_core (new_sender c first cbs\<lparr>sn_sig := sig'\<rparr> :: 'a tether_sender))"
    by (auto simp: admitted_def sn_core_def new_sender_def peers_fit_def)
  from admitted_deliver_sig [OF del this] show ?thesis
    using assms c conn del by (auto simp: tether_sender_create_def Let_def)
qed

section \<open>The waiting room seen from the sender\<close>

lemma refused_pending:
  assumes "tether_admission_add_pending ck adm i n f = (adm', ok, ns)" and "\<not> ok"
  shows "ns = [] \<and> map_option adm_peers adm' = map_option adm_peers adm"
  using assms
  by (auto simp: tether_admission_add_pending_def Let_def dest: rate_limit_frame
      split: option.splits prod.splits bool.splits if_splits)

lemma add_pending_pinned:
  assumes "rate_limit_blocks_locked (ck_limit ck) (ck_prune ck) a = (a1, False)"
    and "find_peer_locked a i = None" and "count_locked a TETHER_PEER_ACCEPTED < ac_max_receivers (adm_cfg a)"
    and "ac_auto_accept_pinned (adm_cfg a)" and "ac_on_changed (adm_cfg a)"
    and "q \<in> set (adm_peers a)" and "peer_pinned q" and "peer_fingerprint q = f" and "length i < TETHER_PEER_ID_MAX"
  shows "\<exists>adm p. tether_admission_add_pending ck (Some a) (Some i) n (Some f) = (Some adm, True, [p]) \<and>
    peer_state p = TETHER_PEER_ACCEPTED \<and> peer_id p = i"
proof -
  note fr = rate_limit_frame [OF assms(1)]
  have "find_peer_locked (a1\<lparr>adm_attempts := x\<rparr>) i = None" and "count_locked (a1\<lparr>adm_attempts := x\<rparr>) st = count_locked a st" for x st
    using assms(2) fr by (simp_all add: find_peer_locked_def count_locked_def)
  moreover have "auto_accept (a1\<lparr>adm_attempts := x\<rparr>) (Some f) p = p\<lparr>peer_pinned := True, peer_state := TETHER_PEER_ACCEPTED\<rparr>" for x p
    using assms(4,6-8) fr by (auto simp: auto_accept_def)
  ultimately show ?thesis
    using assms fr
    by (auto simp: tether_admission_add_pending_def Let_def on_changed_def new_peer_def strncpy_buf_fits)
qed

lemma create_session_works:
  assumes "create_session xe s p = (s', os)" and "0 < xe_pc xe"
  shows "\<exists>r w. sn_sessions s' = sn_sessions s @ [r] \<and> rs_peer_id r = strncpy_buf TETHER_PEER_ID_MAX (peer_id p) \<and>
    rs_wrtc r = Some w"
  using assms by (auto simp: create_session_def tether_webrtc_create_def Let_def split: prod.splits)

lemma create_session_frame: "create_session xe s p = (s', os) \<Longrightarrow> sn_cbs s' = sn_cbs s \<and> sn_sig s' = sn_sig s"
  by (auto simp: create_session_def Let_def split: option.splits prod.splits)

section \<open>Creation\<close>

text \<open>The names a sender is made of: the nonempty ones of the array, else the single one.\<close>

definition named_sources :: "tether_sender_config \<Rightarrow> string list" where
  "named_sources c =
     (let ns = valid_names (sd_video_source_names c) in
      if ns \<noteq> [] then ns else valid_names (map_option (\<lambda>n. [n]) (sd_source_name c)))"

lemma valid_names_single [simp]: "valid_names (Some [n]) = (if n = [] then [] else [n])" "valid_names None = []"
  by (simp_all add: valid_names_def)

lemma deliver_quiet:
  "\<forall>e i p. Emit e i p \<in> set outs \<longrightarrow> e = TETHER_SIG_EVT_STATE_CHANGED \<Longrightarrow> fst (sn_deliver_sig env outs s) = s"
proof (induction outs)
  case (Cons out outs)
  have rest: "fst (sn_deliver_sig env outs s) = s" by (rule Cons.IH) (use Cons.prems in auto)
  show ?case
  proof (cases out)
    case (Emit e i p)
    with Cons.prems have "e = TETHER_SIG_EVT_STATE_CHANGED" by auto
    with Emit rest show ?thesis by (auto split: prod.splits)
  qed (use rest in \<open>auto split: prod.splits\<close>)
qed simp

lemma connect_quiet:
  "tether_signaling_connect ws sig = (sig', ok, outs) \<Longrightarrow> Emit e i p \<in> set outs \<Longrightarrow> e = TETHER_SIG_EVT_STATE_CHANGED"
  by (auto simp: tether_signaling_connect_def Signaling.set_state_def emit_def Let_def split: option.splits if_splits)

lemma create_frame:
  assumes "cfg = Some c" and "first_source c = Some first"
  shows "\<exists>s o1 sig'. tether_sender_create env ws cfg cbs = (Some s, o1) \<and>
    s = (new_sender c first cbs)\<lparr>sn_sig := sig', sn_worker_running := True\<rparr>"
proof -
  obtain sig' ok outs where conn:
    "tether_signaling_connect ws (sn_sig (new_sender c first cbs :: 'a tether_sender)) = (sig', ok, outs)"
    by (metis prod_cases3)
  let ?s = "new_sender c first cbs\<lparr>sn_sig := sig'\<rparr> :: 'a tether_sender"
  have "fst (sn_deliver_sig env outs ?s) = ?s"
    by (rule deliver_quiet) (use connect_quiet [OF conn] in blast)
  then obtain o1 where "sn_deliver_sig env outs ?s = (?s, o1)" by (metis prod.collapse)
  with assms conn have "tether_sender_create env ws cfg cbs =
      (Some ((new_sender c first cbs)\<lparr>sn_sig := sig', sn_worker_running := True\<rparr>), o1)"
    by (simp add: tether_sender_create_def Let_def)
  then show ?thesis by blast
qed

section \<open>Properties\<close>

definition demo_session_env :: session_env where
  "demo_session_env = \<lparr>xe_wr = demo_env, xe_pc = 1, xe_video = (\<lambda>k. (int k + 11, 0)), xe_audio = (\<lambda>k. demo_attach),
     xe_negotiate = 0\<rparr>"

definition demo_sender_env :: sender_env where
  "demo_sender_env = \<lparr>ne_clock = demo_clock 100000000000, ne_session = demo_session_env, ne_rc = 0, ne_rc2 = 0\<rparr>"

definition demo_sender_cfg :: tether_sender_config where
  "demo_sender_cfg = \<lparr>sd_server_url = Some ''wss://s'', sd_stun_url = None, sd_turn_url = None, sd_turn_username = None,
     sd_turn_credential = None, sd_source_name = None, sd_video_source_names = Some [''Cam''],
     sd_audio_source_names = None, sd_video_bitrate_kbps = 0, sd_max_receivers = 0, sd_token_ttl_minutes = 0,
     sd_reusable_token = True, sd_twitch_st_mode = False\<rparr>"

definition all_callbacks :: tether_sender_callbacks where
  "all_callbacks = \<lparr>cb_on_token = True, cb_on_pending = True, cb_on_peer_state = True, cb_on_peer_gone = True\<rparr>"

definition demo_sender :: "nat tether_sender" where
  "demo_sender = the (fst (tether_sender_create demo_sender_env 7 (Some demo_sender_cfg) (Some all_callbacks)))"

lemma demo_sender_eq:
  "demo_sender = (new_sender demo_sender_cfg ''Cam'' (Some all_callbacks))\<lparr>
     sn_sig := Some \<lparr>sig_cfg = sender_signaling_config (with_defaults demo_sender_cfg) [new_capture ''Cam'' 0],
       sig_server_url = ''wss://s'', sig_display_name = ''Cam'', sig_token = None, sig_ws = 7,
       sig_state = TETHER_SIG_STATE_CONNECTING\<rparr>, sn_worker_running := True\<rparr>"
  by (simp add: demo_sender_def tether_sender_create_def demo_sender_cfg_def first_source_def valid_names_def
      sender_captures_def Let_def tether_signaling_create_def sender_signaling_config_def fallback_or_def
      tether_signaling_connect_def Signaling.set_state_def emit_def new_capture_def new_sender_def with_defaults_def
      strncpy_buf_def)

lemma demo_sender_created:
  "\<exists>os. tether_sender_create demo_sender_env 7 (Some demo_sender_cfg) (Some all_callbacks) = (Some demo_sender, os)"
  by (auto simp: demo_sender_def tether_sender_create_def demo_sender_cfg_def first_source_def valid_names_def
      Let_def split: prod.splits)

text \<open>C7: no session without the host: whatever the network, the peer connections, the graphics thread and the
  worker do, in any order, every session belongs to a peer the host accepted by its id, unless the host has
  pinned some peer (then the waiting room may let in a returning fingerprint by itself).\<close>

theorem no_session_without_acceptance:
  assumes "tether_sender_create env ws cfg cbs = (Some s, o1)" and "sn_run ops s = Some (s', o2)"
    and "r \<in> set (sn_sessions s')"
  shows "(\<exists>xe pin. SnAccept xe (Some (rs_peer_id r)) pin \<in> set ops) \<or>
    (\<exists>xe i. SnAccept xe (Some i) True \<in> set ops)"
proof -
  have "admitted {} False (sn_core s)"
    using assms(1) by (rule created_admitted)
  from admitted_run [OF this assms(2)] have
    "rs_peer_id r \<in> (\<Union>op \<in> set ops. host_accepts op) \<or> (\<exists>op \<in> set ops. host_pins op)"
    using assms(3) by (auto simp: admitted_def sn_core_def)
  then show ?thesis
  proof
    assume "rs_peer_id r \<in> (\<Union>op \<in> set ops. host_accepts op)"
    then obtain op where "op \<in> set ops" "rs_peer_id r \<in> host_accepts op" by blast
    then show ?thesis by (cases op rule: host_accepts.cases) auto
  next
    assume "\<exists>op \<in> set ops. host_pins op"
    then obtain op where "op \<in> set ops" "host_pins op" by blast
    then show ?thesis by (cases op rule: host_pins.cases) auto
  qed
qed

definition demo_pending :: string where
  "demo_pending = print_object [(''type'', JStr ''pending''), (''peer_id'', JStr ''p1''), (''name'', JStr ''Ann''),
     (''fingerprint'', JStr [])]"

definition demo_request :: sn_op where
  "demo_request = SnSocket demo_sender_env (SigReceived (Some demo_pending) (- 1))"

definition demo_peer :: tether_peer where
  "demo_peer = \<lparr>peer_id = ''p1'', peer_display_name = ''Ann'', peer_fingerprint = [], peer_state = TETHER_PEER_PENDING,
     peer_pinned = False, peer_first_seen_ns = 100000000000\<rparr>"

text \<open>A run: a request arrives and the host accepts it.\<close>

definition demo_room_of :: "tether_peer list \<Rightarrow> tether_admission" where
  "demo_room_of ps = (tether_admission_create (sender_admission_config (with_defaults demo_sender_cfg)))
     \<lparr>adm_peers := ps, adm_attempts := [100000000000]\<rparr>"

definition demo_session :: "nat receiver_session" where
  "demo_session = \<lparr>rs_peer_id = ''p1'',
     rs_wrtc = Some \<lparr>wr_cfg = session_webrtc_config (with_defaults demo_sender_cfg), wr_pc = 1,
       wr_state = TETHER_WRTC_STATE_NEW,
       wr_tracks = [\<lparr>tr_handle = 11, tr_track_id = 1, tr_is_video = True, tr_mid = ''video0''\<rparr>],
       wr_next_track_id = 2, wr_local_fingerprint = []\<rparr>,
     rs_audio = Some (tether_audio_sender_create session_audio_config),
     rs_src_encoders = [new_encoder 1 ''video0'']\<rparr>"

lemma demo_pending_ok:
  "object_ok [(''type'', JStr ''pending''), (''peer_id'', JStr ''p1''), (''name'', JStr ''Ann''), (''fingerprint'', JStr [])]"
  by simp

lemma demo_fields:
  "quoted_field 128 demo_pending ''name'' = ''Ann''" "quoted_field 128 demo_pending ''fingerprint'' = []"
  unfolding demo_pending_def
  by (subst quoted_field_object [OF demo_pending_ok]; simp add: opt_str_def strncpy_buf_def)+

lemma demo_sender_fields [simp]:
  "sn_cfg demo_sender = with_defaults demo_sender_cfg" "sn_audio_source_names demo_sender = []"
  "sn_captures demo_sender = [new_capture ''Cam'' 0]" "sn_cbs demo_sender = all_callbacks"
  "sn_adm demo_sender = Some (tether_admission_create (sender_admission_config (with_defaults demo_sender_cfg)))"
  "sn_sessions demo_sender = []" "sn_worker_running demo_sender"
  by (simp_all add: demo_sender_eq new_sender_def demo_sender_cfg_def sender_captures_def valid_names_def)

lemma demo_sender_sig:
  obtains sig where "sn_sig demo_sender = Some sig" and "sc_cb (sig_cfg sig)" and "sig_ws sig = 7"
  by (simp add: demo_sender_eq sender_signaling_config_def)

lemma demo_requested:
  "sn_call demo_request demo_sender =
    Some (demo_sender\<lparr>sn_adm := Some (demo_room_of [demo_peer])\<rparr>, [CbPending ''p1'' ''Ann'' []])"
proof -
  obtain sig where sig: "sn_sig demo_sender = Some sig" "sc_cb (sig_cfg sig)"
    using demo_sender_sig by blast
  have ev: "sn_call demo_request demo_sender =
      Some (on_signaling_event demo_sender_env TETHER_SIG_EVT_REQUEST_PENDING (Some ''p1'') (Some demo_pending) demo_sender)"
    unfolding demo_request_def sn_call.simps demo_pending_def
    by (subst sn_received(1) [OF sig _ demo_pending_ok]) simp_all
  show ?thesis
    unfolding ev
    by (simp add: demo_fields Let_def with_admission_def demo_sender_env_def demo_simps sender_admission_config_def
        with_defaults_def or_default_def demo_sender_cfg_def demo_room_of_def demo_peer_def on_admission_changed_def
        all_callbacks_def)
qed

lemma show_zero: "show_nat 0 = ''0''"
  by code_simp

lemma demo_accepted:
  "\<exists>os. sn_call (SnAccept demo_session_env (Some ''p1'') False) (demo_sender\<lparr>sn_adm := Some (demo_room_of [demo_peer])\<rparr>) =
    Some (demo_sender\<lparr>sn_adm := Some (demo_room_of [demo_peer\<lparr>peer_state := TETHER_PEER_ACCEPTED\<rparr>]),
      sn_sessions := [demo_session]\<rparr>, os)"
  by (simp add: tether_sender_accept_def with_admission_def demo_simps demo_room_of_def demo_peer_def
      sender_admission_config_def on_admission_changed_def create_session_def demo_session_env_def
      tether_webrtc_create_def tether_webrtc_add_video_track_ex_def push_track_def new_capture_def demo_session_def show_zero)

definition demo_streaming :: "nat tether_sender" where
  "demo_streaming = demo_sender\<lparr>sn_adm := Some (demo_room_of [demo_peer\<lparr>peer_state := TETHER_PEER_ACCEPTED\<rparr>]),
     sn_sessions := [demo_session]\<rparr>"

lemma demo_run:
  "\<exists>os. sn_run [demo_request, SnAccept demo_session_env (Some ''p1'') False] demo_sender = Some (demo_streaming, os)"
proof -
  obtain os where "sn_call (SnAccept demo_session_env (Some ''p1'') False)
      (demo_sender\<lparr>sn_adm := Some (demo_room_of [demo_peer])\<rparr>) = Some (demo_streaming, os)"
    using demo_accepted unfolding demo_streaming_def by blast
  then show ?thesis using demo_requested by (simp del: sn_call.simps)
qed

lemma no_session_without_acceptance_witness:
  "\<exists>s' os. sn_run [demo_request, SnAccept demo_session_env (Some ''p1'') False] demo_sender = Some (s', os) \<and>
    map rs_peer_id (sn_sessions s') = [''p1''] \<and>
    ((\<exists>xe pin. SnAccept xe (Some ''p1'') pin \<in> set [demo_request, SnAccept demo_session_env (Some ''p1'') False]) \<or>
     (\<exists>xe i. SnAccept xe (Some i) True \<in> set [demo_request, SnAccept demo_session_env (Some ''p1'') False]))"
proof -
  obtain o1 where o1: "tether_sender_create demo_sender_env 7 (Some demo_sender_cfg) (Some all_callbacks) = (Some demo_sender, o1)"
    using demo_sender_created by blast
  obtain o2 where o2: "sn_run [demo_request, SnAccept demo_session_env (Some ''p1'') False] demo_sender = Some (demo_streaming, o2)"
    using demo_run by blast
  have "demo_session \<in> set (sn_sessions demo_streaming)" "rs_peer_id demo_session = ''p1''"
    by (simp_all add: demo_streaming_def demo_session_def)
  with no_session_without_acceptance [OF o1 o2, of demo_session] o2 show ?thesis
    by (intro exI [of _ demo_streaming] exI [of _ o2]) (simp add: demo_streaming_def del: sn_run.simps)
qed

text \<open>A disconnected peer stays deaf: once the host has disconnected a peer that had a session, the answers and
  candidates for that peer reach no peer connection any more, whatever happens afterwards, even after the host
  has accepted the peer again and a new session was made for it: the dead session stays in the list in front.\<close>

theorem disconnected_peer_stays_deaf:
  assumes "find_session_locked s i \<noteq> None" and "sn_call (SnDisconnect xe (Some i)) s = Some (s1, o1)"
    and "sn_run ops s1 = Some (s2, o2)"
  shows "on_signaling_event env TETHER_SIG_EVT_SDP_ANSWER (Some i) payload s2 = (s2, []) \<and>
    on_signaling_event env TETHER_SIG_EVT_ICE_CANDIDATE (Some i) payload s2 = (s2, []) \<and>
    length (sn_sessions s) \<le> length (sn_sessions s2)"
proof -
  have "sessions_succ s s1" using assms(2) by (rule sn_call_grows)
  moreover have run: "sessions_succ s1 s2" using assms(3) by (rule sn_run_grows)
  ultimately have "sessions_succ s s2" by (rule sessions_succ_trans)
  then have "length (sn_sessions s) \<le> length (sn_sessions s2)"
    by (auto simp: sessions_succ_def dest: list_all2_lengthD)
  moreover have "silenced i s2"
    using disconnect_silences [of xe s i s1 o1] assms(1,2) run by (auto intro: silenced_succ)
  ultimately show ?thesis using silenced_drops by blast
qed

lemma disconnected_peer_stays_deaf_witness:
  "\<exists>s1 s2. on_signaling_event demo_sender_env TETHER_SIG_EVT_SDP_ANSWER (Some ''p1'') (Some demo_pending) s2 = (s2, []) \<and>
    tether_sender_disconnect_peer demo_session_env demo_streaming (Some ''p1'') = s1 \<and>
    tether_sender_accept demo_session_env (fst s1) (Some ''p1'') False = (s2, snd (tether_sender_accept demo_session_env (fst s1) (Some ''p1'') False))"
proof -
  obtain s1 o1 where s1: "tether_sender_disconnect_peer demo_session_env demo_streaming (Some ''p1'') = (s1, o1)" by fastforce
  obtain s2 o2 where s2: "tether_sender_accept demo_session_env s1 (Some ''p1'') False = (s2, o2)" by fastforce
  have "find_session_locked demo_streaming ''p1'' \<noteq> None"
    by (simp add: find_session_locked_def demo_streaming_def demo_session_def has_peer_def)
  from disconnected_peer_stays_deaf [OF this, of demo_session_env s1 o1 "[SnAccept demo_session_env (Some ''p1'') False]" s2 o2]
    s1 s2 show ?thesis by (simp del: on_signaling_event.simps)
qed

text \<open>The answer goes in as it came over the wire: when a text frame carries the SDP answer \<open>d\<close> of a peer with a
  session, escaped as \<open>tether_signaling_send_sdp\<close> does, the peer connection is given the escaped text. It is not
  \<open>d\<close> unless \<open>d\<close> has no line break, tab or backslash (an SDP always has line breaks).\<close>

theorem answer_stays_escaped:
  assumes "sn_sig s = Some sig" and "sc_cb (sig_cfg sig)" and "n < 0"
    and "object_ok fs" and "lookup_str fs ''type'' = Some ''sdp''" and "lookup_str fs ''sdp_type'' = Some ''answer''"
    and "lookup_str fs ''peer_id'' = Some i" and "lookup_str fs ''sdp'' = Some (sdp_escape d)"
    and "CHR 0x22 \<notin> set d" and "find_session_locked s i = Some r" and "rs_wrtc r = Some w"
  shows "sn_socket_event env (SigReceived (Some (print_object fs)) n) s =
      (s, [SnWr i (RtcSetRemoteDescription (wr_pc w) (sdp_escape d) ''answer'')]) \<and>
    (set d \<inter> {CHR 0x5C, CHR 0x0A, CHR 0x0D, CHR 0x09} \<noteq> {} \<longrightarrow> sdp_escape d \<noteq> d)"
proof -
  have "answered_sdp (print_object fs) = Some (sdp_escape d)"
    by (rule answered_sdp_object [OF assms(4,8) escaped_no_quote [OF assms(9)]])
  then have "sn_socket_event env (SigReceived (Some (print_object fs)) n) s =
      (s, [SnWr i (RtcSetRemoteDescription (wr_pc w) (sdp_escape d) ''answer'')])"
    using assms(7,10,11)
    by (simp add: sn_received(2) [OF assms(1-5) refl assms(6)] tether_webrtc_apply_remote_sdp_def Let_def)
  then show ?thesis using escape_changes [of d] by blast
qed

definition demo_answer :: json_object where
  "demo_answer = [(''type'', JStr ''sdp''), (''peer_id'', JStr ''p1''), (''sdp_type'', JStr ''answer''),
     (''sdp'', JStr (sdp_escape [CHR ''v'', CHR 0x0A]))]"

lemma answer_stays_escaped_witness:
  "snd (sn_socket_event demo_sender_env (SigReceived (Some (print_object demo_answer)) (- 1)) demo_streaming) =
    [SnWr ''p1'' (RtcSetRemoteDescription 1 [CHR ''v'', CHR 0x5C, CHR ''n''] ''answer'')] \<and>
    sdp_escape [CHR ''v'', CHR 0x0A] \<noteq> [CHR ''v'', CHR 0x0A]"
proof -
  obtain sig where sig: "sn_sig demo_streaming = Some sig" "sc_cb (sig_cfg sig)"
    using demo_sender_sig by (auto simp: demo_streaming_def)
  have esc: "sdp_escape [CHR ''v'', CHR 0x0A] = [CHR ''v'', CHR 0x5C, CHR ''n'']" by (simp add: escape_char_def)
  from answer_stays_escaped [OF sig, of "- 1" demo_answer "''p1''" "[CHR ''v'', CHR 0x0A]" demo_session _ demo_sender_env] esc
  show ?thesis
    by (simp add: demo_answer_def find_session_locked_def demo_streaming_def demo_session_def has_peer_def)
qed

text \<open>The tracks follow the captures: a new session for a peer has one encoder per captured source, in order, with
  the capture's mid, and the track id of the \<open>k\<close>-th encoder leads to the track libdatachannel made for the \<open>k\<close>-th
  capture, whatever becomes of the audio sources.\<close>

theorem session_tracks_match_captures:
  fixes s :: "'a tether_sender"
  assumes "create_session xe s p = (s', os)" and "0 < xe_pc xe"
    and "\<forall>k < length (sn_captures s). 0 < fst (xe_video xe k)" and "\<forall>c \<in> set (sn_captures s). vc_mid c \<noteq> []"
  shows "\<exists>r w. sn_sessions s' = sn_sessions s @ [r] \<and> rs_wrtc r = Some w \<and>
    rs_peer_id r = strncpy_buf TETHER_PEER_ID_MAX (peer_id p) \<and>
    length (rs_src_encoders r) = length (sn_captures s) \<and>
    (\<forall>k < length (sn_captures s).
      se_mid (rs_src_encoders r ! k) = strncpy_buf 64 (vc_mid (sn_captures s ! k)) \<and>
      track_handle_for w (se_video_track_id (rs_src_encoders r ! k)) = fst (xe_video xe k))"
proof -
  let ?n = "length (sn_captures s)"
  obtain w0 c0 where w0: "tether_webrtc_create (xe_wr xe) (xe_pc xe) (Some (session_webrtc_config (sn_cfg s))) = (Some w0, c0)"
    using assms(2) by (auto simp: tether_webrtc_create_def)
  then have num: "numbered w0" "wr_tracks w0 = []" using created_numbered by blast+
  then have next1: "wr_next_track_id w0 = 1" by (simp add: numbered_def)
  obtain w1 es o1 where vid: "add_video_tracks (xe_video xe) 0 (sn_captures s) w0 = (w1, es, o1)" by (metis prod_cases3)
  obtain w2 au o2 where aud: "attach_audio_sources (xe_audio xe) (sd_twitch_st_mode (sn_cfg s)) 0 (sn_audio_source_names s) w1
      (Some (tether_audio_sender_create session_audio_config :: 'a tether_audio_sender)) = (w2, au, o2)" by (metis prod_cases3)
  from add_video_tracks_result [OF vid num(1)] assms(3,4)
  have w1: "numbered w1" "length es = ?n" "wr_tracks w1 = map (\<lambda>j. \<lparr>tr_handle = fst (xe_video xe j),
      tr_track_id = 1 + int j, tr_is_video = True, tr_mid = strncpy_buf 64 (vc_mid (sn_captures s ! j))\<rparr>) [0..<?n]"
    and es: "\<forall>j < ?n. es ! j = new_encoder (1 + int j) (vc_mid (sn_captures s ! j))"
    by (simp_all add: num next1)
  from attach_audio_sources_appends [OF aud w1(1)] obtain ts where
    w2: "numbered w2" "wr_tracks w2 = wr_tracks w1 @ ts" by blast
  have "track_handle_for w2 (1 + int k) = fst (xe_video xe k)" if "k < ?n" for k
    using track_handle_numbered [OF w2(1), of k] that w2(2) w1(3) by (simp add: nth_append)
  then have "\<forall>k < ?n. se_mid (es ! k) = strncpy_buf 64 (vc_mid (sn_captures s ! k)) \<and>
      track_handle_for w2 (se_video_track_id (es ! k)) = fst (xe_video xe k)"
    using es by (simp add: new_encoder_def)
  moreover have "sn_sessions s' = sn_sessions s @ [\<lparr>rs_peer_id = strncpy_buf TETHER_PEER_ID_MAX (peer_id p),
      rs_wrtc = Some w2, rs_audio = au, rs_src_encoders = es\<rparr>]"
    using assms(1) w0 vid aud by (auto simp: create_session_def Let_def)
  ultimately show ?thesis using w1(2) by auto
qed

lemma session_tracks_match_captures_witness:
  "\<exists>r w. sn_sessions (fst (create_session demo_session_env demo_sender demo_peer)) = [r] \<and> rs_wrtc r = Some w \<and>
    track_handle_for w (se_video_track_id (hd (rs_src_encoders r))) = 11"
proof -
  obtain s' os where s': "create_session demo_session_env demo_sender demo_peer = (s', os)" by fastforce
  from session_tracks_match_captures [OF s'] obtain r w where "sn_sessions s' = [r]" "rs_wrtc r = Some w"
    "length (rs_src_encoders r) = 1" "track_handle_for w (se_video_track_id (rs_src_encoders r ! 0)) = 11"
    by (auto simp: demo_session_env_def new_capture_def)
  with s' show ?thesis by (cases "rs_src_encoders r") auto
qed

text \<open>C25: a ready frame reaches every session: the worker's visit to a capture with a ready frame empties it and, when
  the sessions' encoders are up for the frame's size, has every session that has an encoder for the capture
  encode that frame with its next time stamp and send the packets on its own track, each session in its turn;
  sessions without one (made before the capture existed) are left alone.\<close>

theorem ready_frame_reaches_every_session:
  assumes "i < length (sn_captures s)" and "take_frame (sn_captures s ! i) = (c, Some fr)"
    and "\<forall>r \<in> set (sn_sessions s). ready_for i fr r"
  shows "worker_visit env i s =
    Some (s\<lparr>sn_captures := (sn_captures s)[i := c], sn_sessions := map (encoded_once i) (sn_sessions s)\<rparr>,
      concat (map (\<lambda>k. session_stream_outs (env k) i fr (sn_sessions s ! k)) [0..<length (sn_sessions s)])) \<and>
    \<not> vc_frame_ready c"
proof -
  have "encode_sessions env br i fr 0 (sn_sessions s) = Some (map (encoded_once i) (sn_sessions s),
      concat (map (\<lambda>k. session_stream_outs (env k) i fr (sn_sessions s ! k)) [0..<length (sn_sessions s)]))" for br
    using encode_ready_sessions [OF assms(3), of env br 0] by simp
  with assms(2) show ?thesis
    by (auto simp: worker_visit_def encode_capture_to_sessions_def Let_def take_frame_def split: if_splits)
qed

definition demo_live_encoder :: source_encoder where
  "demo_live_encoder = (new_encoder 1 ''video0'')\<lparr>se_enc := Some (codec_parameters 2 1 6000),
     se_enc_in := Some \<lparr>ef_width = 2, ef_height = 1, ef_buffers = True\<rparr>, se_enc_pkt := True, se_sws := True,
     se_enc_width := 2, se_enc_height := 1\<rparr>"

definition demo_live :: "nat tether_sender" where
  "demo_live = demo_streaming\<lparr>sn_sessions := [demo_session\<lparr>rs_src_encoders := [demo_live_encoder]\<rparr>],
     sn_captures := [(new_capture ''Cam'' 0)\<lparr>vc_latest_frame := bf_data demo_frame, vc_frame_w := 2, vc_frame_h := 1,
       vc_frame_linesize := 8, vc_frame_ready := True\<rparr>]\<rparr>"

lemma demo_live_frame:
  "take_frame (sn_captures demo_live ! 0) = ((sn_captures demo_live ! 0)\<lparr>vc_frame_ready := False\<rparr>, Some demo_frame)"
  by (simp add: demo_live_def take_frame_def frame_bytes_def demo_frame_def)

lemma demo_live_ready: "\<forall>r \<in> set (sn_sessions demo_live). ready_for 0 demo_frame r"
  by (auto simp: demo_live_def ready_for_def running_def demo_live_encoder_def demo_frame_def int_of_u32_def new_encoder_def)

lemma ready_frame_reaches_every_session_witness:
  "\<exists>s'. worker_visit (\<lambda>k. demo_enc_env) 0 demo_live = Some (s',
    [SnFrame ''p1'' demo_frame 0, SnWr ''p1'' (RtcSendMessage 11 [9] 1)])"
proof -
  have "0 < length (sn_captures demo_live)" by (simp add: demo_live_def)
  from ready_frame_reaches_every_session [OF this demo_live_frame demo_live_ready, of "\<lambda>k. demo_enc_env"]
  show ?thesis
    by (simp add: session_stream_outs_def packets_of_def demo_enc_env_def session_enc_out_def demo_live_def
        demo_session_def demo_live_encoder_def new_encoder_def tether_webrtc_push_video_def track_handle_for_def
        has_track_id_def)
qed

lemma reject_leaves_sessions:
  assumes "with_admission env (tether_admission_reject adm pid) s = (s', os)"
  shows "sn_sessions s' = sn_sessions s \<and> sn_captures s' = sn_captures s \<and> sn_cfg s' = sn_cfg s \<and>
    (\<forall>p x. SnWr p x \<notin> set os)"
proof -
  obtain adm' ok ps where res: "tether_admission_reject adm pid = (adm', ok, ps)" by (metis prod_cases3)
  then have "\<exists>b p. ps = on_changed b p \<and> peer_state p = TETHER_PEER_REJECTED \<or> ps = []"
    by (auto simp: tether_admission_reject_def set_peer_state_def Let_def on_changed_def
        split: option.splits if_splits)
  with assms res show ?thesis
    by (auto simp: with_admission_def on_changed_def on_admission_changed_def split: if_splits)
qed

lemma worker_visit_cong:
  assumes "sn_sessions s' = sn_sessions s" and "sn_captures s' = sn_captures s" and "sn_cfg s' = sn_cfg s"
  shows "map_option snd (worker_visit env i s') = map_option snd (worker_visit env i s)"
proof -
  have "fst (sn_cfg s', k) = sn_cfg s" for k :: nat using assms(3) by simp
  with assms show ?thesis
    by (cases "take_frame (sn_captures s ! i)")
       (auto simp: worker_visit_def encode_capture_to_sessions_def Let_def option.map_comp comp_def split_def
         split: option.splits)
qed

text \<open>Revoking and rejecting do not stop the stream: after the host revoked the token, or rejected a peer, every
  session is as before, no track and no connection is closed, and the worker sends the same frames to the same
  peers as if nothing had happened (only disconnecting a peer ends its media).\<close>

theorem revoked_sessions_stream_on:
  assumes "op = SnRevoke \<or> op = SnReject xe pid" and "sn_call op s = Some (s', os)"
  shows "sn_sessions s' = sn_sessions s \<and> (\<forall>p x. SnWr p x \<notin> set os) \<and>
    map_option snd (worker_visit env i s') = map_option snd (worker_visit env i s)"
proof -
  have "sn_sessions s' = sn_sessions s \<and> sn_captures s' = sn_captures s \<and> sn_cfg s' = sn_cfg s \<and>
      (\<forall>p x. SnWr p x \<notin> set os)"
    using assms(1)
  proof
    assume "op = SnRevoke"
    with assms(2) show ?thesis by (auto simp: tether_sender_revoke_token_def)
  next
    assume "op = SnReject xe pid"
    with assms(2) have "with_admission xe (tether_admission_reject (sn_adm s) pid) s = (s', os)"
      by (simp add: tether_sender_reject_def)
    then show ?thesis by (rule reject_leaves_sessions)
  qed
  with worker_visit_cong [of s' s env i] show ?thesis by blast
qed

lemma revoked_sessions_stream_on_witness:
  "\<exists>s' os. sn_call SnRevoke demo_live = Some (s', os) \<and> length (sn_sessions s') = 1 \<and>
    map_option snd (worker_visit (\<lambda>k. demo_enc_env) 0 s') = map_option snd (worker_visit (\<lambda>k. demo_enc_env) 0 demo_live)"
proof -
  obtain s' os where s': "sn_call SnRevoke demo_live = Some (s', os)"
    by (simp add: tether_sender_revoke_token_def)
  from revoked_sessions_stream_on [OF disjI1 [OF refl] s', of "\<lambda>k. demo_enc_env" 0] s' show ?thesis
    by (intro exI [of _ s'] exI [of _ os]) (simp add: demo_live_def del: sn_call.simps)
qed

text \<open>A request reaches the host: a \<open>pending\<close> frame, in any well-formed object whose name and fingerprint have no
  quotes, runs the waiting room with the peer's id, name and fingerprint (cut to 127 characters, empty when
  absent) and then tells the host the same; it tells the host also when the waiting room has turned the
  request away, and then the list of peers the host could accept from does not have it.\<close>

theorem pending_request_reaches_host:
  assumes "sn_sig s = Some sig" and "sc_cb (sig_cfg sig)" and "n < 0" and "object_ok fs"
    and "lookup_str fs ''type'' = Some ''pending''" and "lookup_str fs ''peer_id'' = Some i"
    and "CHR 0x22 \<notin> set (opt_str (lookup_str fs ''name''))" and "CHR 0x22 \<notin> set (opt_str (lookup_str fs ''fingerprint''))"
    and "name = strncpy_buf 128 (opt_str (lookup_str fs ''name''))"
    and "fp = strncpy_buf 128 (opt_str (lookup_str fs ''fingerprint''))"
    and "tether_admission_add_pending (ne_clock env) (sn_adm s) (Some i) (Some name) (Some fp) = (adm, ok, ns)"
    and "cb_on_pending (sn_cbs s)"
    and "with_admission (ne_session env) (adm, ok, ns) s = (s1, o1)"
  shows "sn_socket_event env (SigReceived (Some (print_object fs)) n) s = (s1, o1 @ [CbPending i name fp]) \<and>
    (\<not> ok \<longrightarrow> s1 = s\<lparr>sn_adm := adm\<rparr> \<and> o1 = [] \<and> map_option adm_peers adm = map_option adm_peers (sn_adm s))"
proof -
  have f: "quoted_field 128 (print_object fs) ''name'' = name" "quoted_field 128 (print_object fs) ''fingerprint'' = fp"
    using quoted_field_object [OF assms(4) _ assms(7)] quoted_field_object [OF assms(4) _ assms(8)] assms(9,10) by auto
  have "sn_socket_event env (SigReceived (Some (print_object fs)) n) s = (s1, o1 @ [CbPending i name fp])"
    unfolding sn_received(1) [OF assms(1-5) refl] assms(6)
    by (simp add: f assms(11,12,13) Let_def)
  moreover have "ns = [] \<and> map_option adm_peers adm = map_option adm_peers (sn_adm s)" if "\<not> ok"
    using assms(11) that by (rule refused_pending)
  ultimately show ?thesis using assms(13) by (auto simp: with_admission_def)
qed

lemma pending_request_reaches_host_witness:
  "snd (sn_socket_event demo_sender_env (SigReceived (Some demo_pending) (- 1))
    (demo_sender\<lparr>sn_adm := Some ((demo_room_of [])\<lparr>adm_lockout_until_ns := 200000000000\<rparr>)\<rparr>)) =
    [CbPending ''p1'' ''Ann'' []]"
proof -
  let ?a = "(demo_room_of [])\<lparr>adm_lockout_until_ns := 200000000000\<rparr>"
  let ?s = "demo_sender\<lparr>sn_adm := Some ?a\<rparr>"
  obtain sig where sig: "sn_sig ?s = Some sig" "sc_cb (sig_cfg sig)" using demo_sender_sig by auto
  have adm: "tether_admission_add_pending (ne_clock demo_sender_env) (sn_adm ?s) (Some ''p1'') (Some ''Ann'') (Some []) =
      (Some ?a, False, [])"
    by (simp add: tether_admission_add_pending_def rate_limit_blocks_locked_def demo_sender_env_def demo_clock_def)
  have w: "with_admission (ne_session demo_sender_env) (Some ?a, False, []) ?s = (?s, [])"
    by (simp add: with_admission_def)
  from pending_request_reaches_host [OF sig _ demo_pending_ok _ _ _ _ _ _ adm _ w, where n = "- 1"] show ?thesis
    by (simp add: demo_pending_def opt_str_def strncpy_buf_def all_callbacks_def)
qed

text \<open>One pinned receiver lets everyone in: no hello the plugin sends has a fingerprint, so requests come with an
  empty one; once a peer with an empty fingerprint has been pinned (the control plane pins every peer it accepts),
  any new request without a fingerprint that the rate limit and the cap let through is accepted on the spot,
  without the host, and gets a session.\<close>

theorem pin_admits_everyone:
  assumes "sn_sig s = Some sig" and "sc_cb (sig_cfg sig)" and "n < 0" and "object_ok fs"
    and "lookup_str fs ''type'' = Some ''pending''" and "lookup_str fs ''peer_id'' = Some i"
    and "CHR 0x22 \<notin> set (opt_str (lookup_str fs ''name''))" and "opt_str (lookup_str fs ''fingerprint'') = []"
    and "sn_adm s = Some a" and "ac_auto_accept_pinned (adm_cfg a)" and "ac_on_changed (adm_cfg a)"
    and "q \<in> set (adm_peers a)" and "peer_pinned q" and "peer_fingerprint q = []"
    and "rate_limit_blocks_locked (ck_limit (ne_clock env)) (ck_prune (ne_clock env)) a = (a1, False)"
    and "find_peer_locked a i = None" and "count_locked a TETHER_PEER_ACCEPTED < ac_max_receivers (adm_cfg a)"
    and "0 < xe_pc (ne_session env)" and "length i < TETHER_PEER_ID_MAX"
  shows "lookup_str (hello_object anyone) ''fingerprint'' = None \<and>
    (\<exists>s' os. sn_socket_event env (SigReceived (Some (print_object fs)) n) s = (s', os) \<and>
      (\<exists>r w. sn_sessions s' = sn_sessions s @ [r] \<and> rs_peer_id r = i \<and> rs_wrtc r = Some w) \<and>
      set (map SnSig (send_raw sig (accept_json i))) \<subseteq> set os)"
proof -
  let ?name = "strncpy_buf 128 (opt_str (lookup_str fs ''name''))"
  have f: "quoted_field 128 (print_object fs) ''name'' = ?name" "quoted_field 128 (print_object fs) ''fingerprint'' = []"
    using quoted_field_object [OF assms(4) _ assms(7)] quoted_field_object [OF assms(4), of "''fingerprint''" 128] assms(8)
    by (simp_all add: strncpy_buf_def)
  obtain p adm' where add: "tether_admission_add_pending (ne_clock env) (sn_adm s) (Some i) (Some ?name) (Some []) =
      (Some adm', True, [p])" and p: "peer_state p = TETHER_PEER_ACCEPTED" "peer_id p = i"
    using add_pending_pinned [OF assms(15-17,10-14,19)] assms(9) by metis
  let ?s = "s\<lparr>sn_adm := Some adm'\<rparr>"
  obtain s1 o1 where cr: "create_session (ne_session env) ?s p = (s1, o1)" by fastforce
  have "\<exists>r w. sn_sessions s1 = sn_sessions s @ [r] \<and> rs_peer_id r = i \<and> rs_wrtc r = Some w"
    using create_session_works [OF cr assms(18)] p(2) assms(19) by (auto simp: strncpy_buf_fits)
  moreover have "sn_socket_event env (SigReceived (Some (print_object fs)) n) s =
      (s1, map SnSig (send_raw sig (accept_json i)) @ o1 @ (if cb_on_pending (sn_cbs s1) then [CbPending i ?name []] else []))"
    if "sn_cbs s1 = sn_cbs s"
    unfolding sn_received(1) [OF assms(1-5) refl] assms(6)
    using that assms(1)
    by (simp add: f add Let_def with_admission_def on_admission_changed_def p cr tether_signaling_accept_def)
  moreover have "sn_cbs s1 = sn_cbs s" using create_session_frame [OF cr] by simp
  moreover have "lookup_str (hello_object anyone) ''fingerprint'' = None" by (simp add: hello_object_def)
  ultimately show ?thesis by auto
qed

lemma pin_admits_everyone_witness:
  "\<exists>s' os. sn_socket_event demo_sender_env (SigReceived (Some demo_pending) (- 1))
      (demo_sender\<lparr>sn_adm := Some (demo_room_of [demo_peer\<lparr>peer_id := ''p0'', peer_pinned := True,
         peer_state := TETHER_PEER_DISCONNECTED\<rparr>])\<rparr>) = (s', os) \<and>
    map rs_peer_id (sn_sessions s') = [''p1'']"
proof -
  let ?q = "demo_peer\<lparr>peer_id := ''p0'', peer_pinned := True, peer_state := TETHER_PEER_DISCONNECTED\<rparr>"
  let ?a = "demo_room_of [?q]"
  let ?s = "demo_sender\<lparr>sn_adm := Some ?a\<rparr>"
  obtain sig where sig: "sn_sig ?s = Some sig" "sc_cb (sig_cfg sig)" using demo_sender_sig by auto
  have "rate_limit_blocks_locked (ck_limit (ne_clock demo_sender_env)) (ck_prune (ne_clock demo_sender_env)) ?a = (?a, False)"
    by (simp add: rate_limit_blocks_locked_def demo_simps demo_sender_env_def demo_room_of_def sender_admission_config_def)
  then have "lookup_str (hello_object sig) ''fingerprint'' = None \<and>
    (\<exists>s' os. sn_socket_event demo_sender_env (SigReceived (Some demo_pending) (- 1)) ?s = (s', os) \<and>
      (\<exists>r w. sn_sessions s' = sn_sessions ?s @ [r] \<and> rs_peer_id r = ''p1'' \<and> rs_wrtc r = Some w) \<and>
      set (map SnSig (send_raw sig (accept_json ''p1''))) \<subseteq> set os)"
    unfolding demo_pending_def
    by (intro pin_admits_everyone [OF sig _ demo_pending_ok, where a = ?a and q = ?q])
       (simp_all add: opt_str_def demo_room_of_def demo_peer_def find_peer_locked_def has_peer_id_def
         count_locked_def sender_admission_config_def with_defaults_def or_default_def demo_sender_cfg_def
         tether_admission_create_def demo_sender_env_def demo_session_env_def peer_sizes)
  then show ?thesis by force
qed

text \<open>The token reaches the owner: a \<open>token\<close> frame with a token that fits the buffer makes it the current token
  (also after another one) and reports it; until then there is none.\<close>

theorem token_reaches_owner:
  assumes "sn_sig s = Some sig" and "sc_cb (sig_cfg sig)" and "n < 0" and "object_ok fs"
    and "lookup_str fs ''type'' = Some ''token''" and "lookup_str fs ''token'' = Some t"
    and "t \<noteq> []" and "length t < TETHER_TOKEN_BUF" and "cb_on_token (sn_cbs s)"
  shows "\<exists>s'. sn_socket_event env (SigReceived (Some (print_object fs)) n) s = (s', [CbToken t]) \<and>
    tether_sender_current_token (Some s') = Some t \<and> sn_sessions s' = sn_sessions s \<and> sn_adm s' = sn_adm s"
  unfolding sn_received_token [OF assms(1-5)] assms(6)
  using assms(7-9) by (simp add: tether_sender_current_token_def strncpy_buf_fits Let_def)

lemma token_reaches_owner_witness:
  "tether_sender_current_token (Some demo_sender) = None \<and>
   (\<exists>s'. sn_socket_event demo_sender_env (SigReceived (Some (print_object
      [(''type'', JStr ''token''), (''token'', JStr ''TTHR-ABCD-EFGH-JKMN'')])) (- 1)) demo_sender =
      (s', [CbToken ''TTHR-ABCD-EFGH-JKMN'']) \<and>
     tether_sender_current_token (Some s') = Some ''TTHR-ABCD-EFGH-JKMN'')"
proof -
  obtain sig where sig: "sn_sig demo_sender = Some sig" "sc_cb (sig_cfg sig)" using demo_sender_sig by auto
  have "tether_sender_current_token (Some demo_sender) = None"
    by (simp add: tether_sender_current_token_def demo_sender_eq new_sender_def)
  moreover have "\<exists>s'. sn_socket_event demo_sender_env (SigReceived (Some (print_object
      [(''type'', JStr ''token''), (''token'', JStr ''TTHR-ABCD-EFGH-JKMN'')])) (- 1)) demo_sender =
      (s', [CbToken ''TTHR-ABCD-EFGH-JKMN'']) \<and>
     tether_sender_current_token (Some s') = Some ''TTHR-ABCD-EFGH-JKMN'' \<and>
     sn_sessions s' = sn_sessions demo_sender \<and> sn_adm s' = sn_adm demo_sender"
    by (rule token_reaches_owner [OF sig])
       (simp_all add: TETHER_TOKEN_BUF_def all_callbacks_def)
  ultimately show ?thesis by blast
qed

text \<open>What a sender needs: it is refused exactly when there is no configuration or no nonempty source name;
  otherwise it has one capture per nonempty name of the array in order (the single name when the array has
  none), numbered mids, no session, no peer, the defaults in place of every nonpositive number, and it runs.\<close>

theorem sender_create_result:
  fixes env ws cfg cbs
  shows "case fst (tether_sender_create env ws cfg cbs :: 'f tether_sender option \<times> 'f sender_out list) of
      None \<Rightarrow> (case cfg of None \<Rightarrow> [] | Some c \<Rightarrow> named_sources c) = []
    | Some s \<Rightarrow> (\<exists>c. cfg = Some c \<and> named_sources c \<noteq> [] \<and>
        map vc_source_name (sn_captures s) = map (strncpy_buf 256) (named_sources c) \<and>
        map vc_mid (sn_captures s) = map (\<lambda>i. take 63 (''video'' @ show_nat i)) [0..<length (named_sources c)] \<and>
        sn_sessions s = [] \<and> tether_admission_iter (sn_adm s) True = [] \<and> sn_worker_running s \<and>
        0 < sd_video_bitrate_kbps (sn_cfg s) \<and> 0 < sd_max_receivers (sn_cfg s) \<and> 0 < sd_token_ttl_minutes (sn_cfg s))"
proof (cases "\<exists>c first. cfg = Some c \<and> first_source c = Some first")
  case True
  then obtain c first where c: "cfg = Some c" "first_source c = Some first" by blast
  obtain s :: "'f tether_sender" and o1 sig' where s: "tether_sender_create env ws cfg cbs = (Some s, o1)"
    "s = (new_sender c first cbs)\<lparr>sn_sig := sig', sn_worker_running := True\<rparr>"
    using create_frame [OF c] by blast
  from c(2) have "named_sources c \<noteq> []" and
    "sender_captures c first = map (\<lambda>i. new_capture (named_sources c ! i) i) [0..<length (named_sources c)]"
    by (auto simp: first_source_def named_sources_def sender_captures_def Let_def split: list.splits if_splits)
  moreover have "map (\<lambda>i. strncpy_buf 256 (xs ! i)) [0..<length xs] = map (strncpy_buf 256) xs" for xs
    by (rule nth_equalityI) simp_all
  ultimately show ?thesis
    using c s by (simp add: new_sender_def new_capture_def comp_def tether_admission_iter_def with_defaults_def or_default_def)
next
  case False
  then have "fst (tether_sender_create env ws cfg cbs :: 'f tether_sender option \<times> 'f sender_out list) = None"
    by (auto simp: tether_sender_create_def split: option.splits)
  moreover have "(case cfg of None \<Rightarrow> [] | Some c \<Rightarrow> named_sources c) = []"
  proof (cases cfg)
    case (Some c)
    with False have "first_source c = None" by (cases "first_source c") auto
    with Some show ?thesis
      by (auto simp: named_sources_def first_source_def nonempty_str_def Let_def split: option.splits list.splits if_splits)
  qed simp
  ultimately show ?thesis by simp
qed

end
