(* ===== verification/Source.thy ===== *)
theory Source
  imports Known_Tokens Receive_Session Audio Capture
begin

text \<open>
  \<open>src/source.c\<close> and \<open>src/properties.c\<close>: the OBS source that shows one receive session. It holds a
  subscription to the session of its token, decodes the video packets of the stream it was told to
  show, and hands decoded frames and audio to OBS. FFmpeg's and OBS's answers are arguments. The
  sources live at addresses, which are the user pointers of their subscriptions; a callback that
  follows a freed subscription has no result.
\<close>

section \<open>The video decoder\<close>

record video_decoder =
  vd_ctx :: bool
  vd_pkt :: bool
  vd_frame :: bool

record dec_env =
  de_codec :: bool
  de_context :: bool
  de_open :: int
  de_packet :: bool
  de_frame :: bool

definition no_decoder :: video_decoder where
  "no_decoder = \<lparr>vd_ctx = False, vd_pkt = False, vd_frame = False\<rparr>"

definition init_video_decoder :: "dec_env \<Rightarrow> video_decoder \<times> bool \<times> ff_out list" where
  "init_video_decoder env =
     (if \<not> de_codec env then (no_decoder, False, [])
      else if \<not> de_context env then (no_decoder, False, [])
      else if de_open env < 0 then (no_decoder, False, [FfAlloc FfCodec, FfFree FfCodec])
      else
        let o1 = [FfAlloc FfCodec] @ (if de_packet env then [FfAlloc FfPacket] else []) @
                 (if de_frame env then [FfAlloc FfFrame] else []) in
        if \<not> de_packet env \<or> \<not> de_frame env
        then (no_decoder, False,
              o1 @ (if de_packet env then [FfFree FfPacket] else []) @
              (if de_frame env then [FfFree FfFrame] else []) @ [FfFree FfCodec])
        else (\<lparr>vd_ctx = True, vd_pkt = True, vd_frame = True\<rparr>, True, o1))"

definition release_video_decoder :: "video_decoder \<Rightarrow> video_decoder \<times> ff_out list" where
  "release_video_decoder d =
     (no_decoder,
      (if vd_frame d then [FfFree FfFrame] else []) @ (if vd_pkt d then [FfFree FfPacket] else []) @
      (if vd_ctx d then [FfFree FfCodec] else []))"

datatype av_pix_fmt =
    AV_PIX_FMT_YUV420P | AV_PIX_FMT_YUVJ420P | AV_PIX_FMT_NV12 | AV_PIX_FMT_YUV422P | AV_PIX_FMT_YUV444P
  | AV_PIX_FMT_OTHER int

datatype video_format =
    VIDEO_FORMAT_NONE | VIDEO_FORMAT_I420 | VIDEO_FORMAT_NV12 | VIDEO_FORMAT_I422 | VIDEO_FORMAT_I444

fun av_to_obs_video_format :: "av_pix_fmt \<Rightarrow> video_format" where
  "av_to_obs_video_format AV_PIX_FMT_YUV420P = VIDEO_FORMAT_I420"
| "av_to_obs_video_format AV_PIX_FMT_YUVJ420P = VIDEO_FORMAT_I420"
| "av_to_obs_video_format AV_PIX_FMT_NV12 = VIDEO_FORMAT_NV12"
| "av_to_obs_video_format AV_PIX_FMT_YUV422P = VIDEO_FORMAT_I422"
| "av_to_obs_video_format AV_PIX_FMT_YUV444P = VIDEO_FORMAT_I444"
| "av_to_obs_video_format (AV_PIX_FMT_OTHER n) = VIDEO_FORMAT_NONE"

text \<open>A decoded frame: \<open>vf_planes\<close> are the plane pointers with their line sizes, NULL being \<^const>\<open>None\<close>.\<close>

record av_frame =
  vf_format :: av_pix_fmt
  vf_width :: int
  vf_height :: int
  vf_jpeg_range :: bool
  vf_planes :: "(u8 list \<times> int) option list"

record obs_frame =
  of_format :: video_format
  of_width :: u32
  of_height :: u32
  of_timestamp :: u64
  of_full_range :: bool
  of_planes :: "(u8 list \<times> u32) list"

definition MAX_AV_PLANES :: nat where
  "MAX_AV_PLANES = 8"

text \<open>The loop over the planes: up to the first NULL, at most \<^const>\<open>MAX_AV_PLANES\<close>.\<close>

fun copy_planes :: "nat \<Rightarrow> (u8 list \<times> int) option list \<Rightarrow> (u8 list \<times> u32) list" where
  "copy_planes 0 ps = []"
| "copy_planes (Suc n) [] = []"
| "copy_planes (Suc n) (None # ps) = []"
| "copy_planes (Suc n) (Some (dat, ls) # ps) = (dat, word_of_int ls) # copy_planes n ps"

text \<open>\<open>now\<close> is the reading of the clock.\<close>

definition deliver_decoded_frame :: "u64 \<Rightarrow> av_frame \<Rightarrow> int \<Rightarrow> obs_frame option" where
  "deliver_decoded_frame now fr pts =
     (let obs_fmt = av_to_obs_video_format (vf_format fr) in
      if obs_fmt = VIDEO_FORMAT_NONE then None
      else Some \<lparr>of_format = obs_fmt, of_width = word_of_int (vf_width fr), of_height = word_of_int (vf_height fr),
             of_timestamp = (if 0 < pts then word_of_int pts else now),
             of_full_range = vf_jpeg_range fr, of_planes = copy_planes MAX_AV_PLANES (vf_planes fr)\<rparr>)"

section \<open>The source\<close>

record tether_source =
  so_source :: nat
  so_token :: "string option"
  so_video_mid :: "string option"
  so_audio_mid :: "string option"
  so_session :: "nat option"
  so_sub :: "(nat \<times> nat) option"
  so_audio :: "tether_audio_receiver option"
  so_decoder :: video_decoder

text \<open>The settings of the source, \<^const>\<open>None\<close> when a member is missing.\<close>

record source_settings =
  ss_token :: "string option"
  ss_video_mid :: "string option"
  ss_audio_mid :: "string option"

text \<open>\<open>(mid && *mid) ? bstrdup (mid) : NULL\<close>\<close>

definition dup_nonempty :: "string \<Rightarrow> string option" where
  "dup_nonempty t = (if t \<noteq> [] then Some t else None)"

text \<open>A packet handed to the decoder with its time, a frame handed to OBS, and audio handed to OBS.\<close>

datatype 'f source_out =
    DecodePacket "u8 list" int
  | OutputVideo nat obs_frame
  | OutputAudio nat "'f audio_output"
  | SourceFf ff_out
  | FreeOpus nat

definition AVERROR_EAGAIN :: int where
  "AVERROR_EAGAIN = -11"

definition mid_mismatch :: "string option \<Rightarrow> string option \<Rightarrow> bool" where
  "mid_mismatch own mid \<longleftrightarrow> nonempty_str own \<and> mid \<noteq> None \<and> own \<noteq> mid"

text \<open>
  \<open>rc\<close> is what \<open>avcodec_send_packet\<close> returns, \<open>frames\<close> are the frames \<open>avcodec_receive_frame\<close> gives
  before it stops.
\<close>

definition on_session_video ::
  "u64 \<Rightarrow> int \<Rightarrow> av_frame list \<Rightarrow> tether_source \<Rightarrow> u8 list option \<Rightarrow> int \<Rightarrow> string option \<Rightarrow> 'f source_out list" where
  "on_session_video now rc frames s dat pts mid =
     (case dat of
        None \<Rightarrow> []
      | Some d \<Rightarrow>
          if d = [] then []
          else if mid_mismatch (so_video_mid s) mid then []
          else if \<not> vd_ctx (so_decoder s) then []
          else DecodePacket d pts #
            (if rc < 0 \<and> rc \<noteq> AVERROR_EAGAIN then []
             else List.map_filter (\<lambda>f. map_option (OutputVideo (so_source s)) (deliver_decoded_frame now f pts)) frames))"

definition on_session_audio ::
  "u64 \<Rightarrow> nat option \<Rightarrow> (nat \<Rightarrow> u8 list \<Rightarrow> int \<Rightarrow> int \<times> 'f list) \<Rightarrow> tether_source \<Rightarrow> u8 list option \<Rightarrow> string option \<Rightarrow>
   tether_source \<times> 'f source_out list" where
  "on_session_audio now dec decode s dat mid =
     (if mid_mismatch (so_audio_mid s) mid then (s, [])
      else case tether_audio_receiver_push_packet now dec decode 0 dat (so_audio s) of
        (r, outs) \<Rightarrow> (s\<lparr>so_audio := r\<rparr>, map (\<lambda>(src, a). OutputAudio src a) outs))"

section \<open>Creation, destruction, settings\<close>

text \<open>
  The two modules a source calls: the registry of sessions and the list of known tokens. \<open>me\<close> is the
  address of the source, \<open>env\<close> what libdatachannel answers should a session have to be made.
\<close>

record rx_modules =
  rm_rx :: rx_world
  rm_known :: known_tokens

definition drop_subscription ::
  "tether_source \<Rightarrow> rx_modules \<Rightarrow> (tether_source \<times> rx_modules \<times> rx_out list) option" where
  "drop_subscription s m =
     (if so_sub s = None then Some (s, m, [])
      else case tether_receive_session_unsubscribe (so_sub s) (rm_rx m) of
        None \<Rightarrow> None
      | Some (w, outs) \<Rightarrow> Some (s\<lparr>so_sub := None, so_session := None\<rparr>, m\<lparr>rm_rx := w\<rparr>, outs))"

definition open_subscription ::
  "rx_env \<Rightarrow> nat \<Rightarrow> string \<Rightarrow> tether_source \<Rightarrow> rx_modules \<Rightarrow> (tether_source \<times> rx_modules \<times> rx_out list) option" where
  "open_subscription env me t s m =
     (case rx_get env (Some t) (rm_rx m) of
        None \<Rightarrow> None
      | Some (w1, None, o1) \<Rightarrow> Some (s\<lparr>so_session := None\<rparr>, m\<lparr>rm_rx := w1\<rparr>, o1)
      | Some (w1, Some a, o1) \<Rightarrow>
          (case rx_subscribe (True, True, True, me) (Some a) w1 of
             None \<Rightarrow> None
           | Some (w2, sub, o2) \<Rightarrow>
               (case tether_receive_session_release (Some a) w2 of
                  None \<Rightarrow> None
                | Some (w3, o3) \<Rightarrow>
                    Some (s\<lparr>so_session := Some a, so_sub := sub\<rparr>,
                      \<lparr>rm_rx = w3, rm_known = fst (tether_known_tokens_add (Some t) (rm_known m))\<rparr>,
                      o1 @ o2 @ o3))))"

definition attach_session ::
  "rx_env \<Rightarrow> nat \<Rightarrow> string \<Rightarrow> tether_source \<Rightarrow> rx_modules \<Rightarrow> (tether_source \<times> rx_modules \<times> rx_out list) option" where
  "attach_session env me token s m =
     (case drop_subscription s m of
        None \<Rightarrow> None
      | Some (s1, m1, o1) \<Rightarrow>
          let s2 = s1\<lparr>so_token := dup_nonempty token\<rparr> in
          (case so_token s2 of
             None \<Rightarrow> Some (s2, m1, o1)
           | Some t \<Rightarrow>
               (case open_subscription env me t s2 m1 of
                  None \<Rightarrow> None
                | Some (s3, m2, o2) \<Rightarrow> Some (s3, m2, o1 @ o2))))"

definition source_create ::
  "rx_env \<Rightarrow> dec_env \<Rightarrow> nat \<Rightarrow> source_settings \<Rightarrow> nat \<Rightarrow> rx_modules \<Rightarrow>
   (tether_source \<times> rx_modules \<times> rx_out list \<times> ff_out list) option" where
  "source_create env denv me st source m =
     (case init_video_decoder denv of
        (dec, ok, fo) \<Rightarrow>
          (case attach_session env me (get_string (ss_token st))
             \<lparr>so_source = source, so_token = None, so_video_mid = dup_nonempty (get_string (ss_video_mid st)),
              so_audio_mid = dup_nonempty (get_string (ss_audio_mid st)), so_session = None, so_sub = None,
              so_audio = tether_audio_receiver_bind_source (Some source) (Some (tether_audio_receiver_create 48000 2)),
              so_decoder = dec\<rparr> m of
             None \<Rightarrow> None
           | Some (s, m', outs) \<Rightarrow> Some (s, m', outs, fo)))"

definition source_destroy ::
  "tether_source \<Rightarrow> rx_modules \<Rightarrow> (rx_modules \<times> rx_out list \<times> 'f source_out list) option" where
  "source_destroy s m =
     (case drop_subscription s m of
        None \<Rightarrow> None
      | Some (s1, m1, outs) \<Rightarrow>
          Some (m1, outs, map SourceFf (snd (release_video_decoder (so_decoder s))) @
                 (if so_audio s = None then [] else map FreeOpus (snd (tether_audio_receiver_release (so_audio s))))))"

definition source_update ::
  "rx_env \<Rightarrow> nat \<Rightarrow> source_settings \<Rightarrow> tether_source \<Rightarrow> rx_modules \<Rightarrow>
   (tether_source \<times> rx_modules \<times> rx_out list) option" where
  "source_update env me st s m =
     (let tok = get_string (ss_token st) in
      case (if so_token s = None \<or> so_token s \<noteq> Some tok then attach_session env me tok s m else Some (s, m, [])) of
        None \<Rightarrow> None
      | Some (s1, m1, outs) \<Rightarrow>
          Some (s1\<lparr>so_video_mid := dup_nonempty (get_string (ss_video_mid st)),
                  so_audio_mid := dup_nonempty (get_string (ss_audio_mid st))\<rparr>, m1, outs))"

definition source_defaults :: "source_settings \<Rightarrow> source_settings" where
  "source_defaults st = (if ss_token st = None then st\<lparr>ss_token := Some []\<rparr> else st)"

section \<open>The property page\<close>

text \<open>
  A property, with its setting, its label and, for lists and text, its description. \<open>tr\<close> is
  \<open>obs_module_text\<close>, the translation of a label.
\<close>

datatype obs_property =
    PropList string string bool "(string \<times> string) list" "string option"
  | PropIntList string string "(string \<times> int) list"
  | PropInt string string int int int
  | PropBool string string
  | PropText string string bool "string option"
  | PropGroup string string "obs_property list"

definition add_advanced :: "(string \<Rightarrow> string) \<Rightarrow> obs_property list \<Rightarrow> obs_property list" where
  "add_advanced tr p = p @ [PropGroup ''advanced'' (tr ''Settings.Group.Advanced'')
     [PropIntList ''video_codec'' (tr ''Settings.Advanced.Codec'')
        [(tr ''Settings.Advanced.Codec.H264'', 0), (tr ''Settings.Advanced.Codec.Vp9'', 1),
         (tr ''Settings.Advanced.Codec.Av1'', 2)],
      PropInt ''max_bitrate'' (tr ''Settings.Advanced.MaxBitrate'') 500 20000 250,
      PropInt ''max_receivers'' (tr ''Settings.Advanced.MaxReceivers'') 1 16 1,
      PropInt ''token_ttl_minutes'' (tr ''Settings.Advanced.TokenTtlMinutes'') 5 1440 5,
      PropBool ''auto_accept_pinned'' (tr ''Settings.Advanced.AutoAccept.Pinned'')]]"

definition add_connection_group :: "(string \<Rightarrow> string) \<Rightarrow> obs_property list \<Rightarrow> obs_property list" where
  "add_connection_group tr p = p @ [PropGroup ''connection'' (tr ''Settings.Group.Connection'')
     [PropText ''server_url'' (tr ''Settings.Server.Url'') False (Some (tr ''Settings.Server.Url.Description'')),
      PropText ''stun_url'' (tr ''Settings.Stun.Url'') False None,
      PropText ''turn_url'' (tr ''Settings.Turn.Url'') False (Some (tr ''Settings.Turn.Url.Description'')),
      PropText ''turn_user'' (tr ''Settings.Turn.Username'') False None,
      PropText ''turn_pass'' (tr ''Settings.Turn.Credential'') True None]]"

text \<open>The mids on offer: those of the session of the configured token, which is got and given back.\<close>

definition page_mids ::
  "rx_env \<Rightarrow> source_settings option \<Rightarrow> rx_world \<Rightarrow> (rx_world \<times> string list \<times> string list \<times> rx_out list) option" where
  "page_mids env src w =
     (case src of
        None \<Rightarrow> Some (w, [], [], [])
      | Some st \<Rightarrow>
          let tok = get_string (ss_token st) in
          if tok = [] then Some (w, [], [], [])
          else case rx_get env (Some tok) w of
            None \<Rightarrow> None
          | Some (w1, None, o1) \<Rightarrow> Some (w1, [], [], o1)
          | Some (w1, Some a, o1) \<Rightarrow>
              (case tether_receive_session_release (Some a) w1 of
                 None \<Rightarrow> None
               | Some (w2, o2) \<Rightarrow>
                   Some (w2, fst (tether_receive_session_video_mids (rx_heap w1 a)),
                         fst (tether_receive_session_audio_mids (rx_heap w1 a)), o1 @ o2)))"

definition same_item :: "string \<Rightarrow> string \<times> string" where
  "same_item t = (t, t)"

definition tether_properties_for_receiver ::
  "(string \<Rightarrow> string) \<Rightarrow> rx_env \<Rightarrow> source_settings option \<Rightarrow> rx_modules \<Rightarrow>
   (obs_property list \<times> rx_modules \<times> rx_out list) option" where
  "tether_properties_for_receiver tr env src m =
     (case page_mids env src (rm_rx m) of
        None \<Rightarrow> None
      | Some (w, vmids, amids, outs) \<Rightarrow>
          Some (add_advanced tr (add_connection_group tr [] @
            [PropGroup ''token_group'' (tr ''Settings.Group.Source'')
              [PropList ''token'' (tr ''Token.Paste'') True
                 (map same_item (fst (tether_known_tokens_snapshot (rm_known m)))) (Some (tr ''Token.Paste.Description'')),
               PropList ''video_mid'' (tr ''Settings.Stream.Video'') True
                 ((tr ''Settings.Stream.Any'', []) # map same_item vmids) None,
               PropList ''audio_mid'' (tr ''Settings.Stream.Audio'') True
                 ((tr ''Settings.Stream.Any'', []) # map same_item amids) None]]),
            m\<lparr>rm_rx := w\<rparr>, outs))"

section \<open>Sources and the network\<close>

text \<open>
  The world of the sources: the modules, the sources at their addresses, and the callbacks that
  a session has started and not finished. A session copies its list of subscriptions while it holds
  its lock and calls them after it has let go of it, so a callback in flight is a pointer to a
  subscription together with the call.
\<close>

record source_world =
  sw_mod :: rx_modules
  sw_sources :: "nat \<rightharpoonup> tether_source"
  sw_next :: nat
  sw_inflight :: "((nat \<times> nat) \<times> rx_out) list"

definition call_target :: "rx_out \<Rightarrow> nat option" where
  "call_target out =
     (case out of
        SubState u st \<Rightarrow> Some u
      | SubVideo u dat mid \<Rightarrow> Some u
      | SubAudio u dat rate ch mid \<Rightarrow> Some u
      | _ \<Rightarrow> None)"

definition media_calls :: "nat \<Rightarrow> rx_session \<Rightarrow> rx_out list \<Rightarrow> ((nat \<times> nat) \<times> rx_out) list" where
  "media_calls a s outs = List.map_filter (\<lambda>out. case call_target out of
     None \<Rightarrow> None
   | Some u \<Rightarrow> map_option (\<lambda>b. ((a, sub_addr b), out)) (find (\<lambda>b. sub_user b = u) (rx_subs s))) outs"

text \<open>A subscription that has not been freed, with the client it calls.\<close>

definition sub_alive :: "rx_world \<Rightarrow> nat \<times> nat \<Rightarrow> bool" where
  "sub_alive w h \<longleftrightarrow> (case rx_heap w (fst h) of None \<Rightarrow> False
     | Some s \<Rightarrow> find (has_sub_addr (snd h)) (rx_subs s) \<noteq> None)"

datatype 'f src_op =
    SrcCreate rx_env dec_env source_settings nat
  | SrcDestroy nat
  | SrcUpdate rx_env nat source_settings
  | SrcPage "string \<Rightarrow> string" rx_env "nat option" source_settings
  | SrcSocket nat int int sig_op
  | SrcRtc nat u64 rtc_callback
  | SrcDeliver u64 int "av_frame list" "nat option" "nat \<Rightarrow> u8 list \<Rightarrow> int \<Rightarrow> int \<times> 'f list"

definition set_session :: "nat \<Rightarrow> rx_session \<Rightarrow> source_world \<Rightarrow> source_world" where
  "set_session a s w = w\<lparr>sw_mod := (sw_mod w)\<lparr>rm_rx := (rm_rx (sw_mod w))\<lparr>rx_heap := (rx_heap (rm_rx (sw_mod w)))(a \<mapsto> s)\<rparr>\<rparr>\<rparr>"

text \<open>One callback in flight reaches its source; \<open>on_session_state\<close> only logs.\<close>

fun source_call ::
  "u64 \<Rightarrow> int \<Rightarrow> av_frame list \<Rightarrow> nat option \<Rightarrow> (nat \<Rightarrow> u8 list \<Rightarrow> int \<Rightarrow> int \<times> 'f list) \<Rightarrow> rx_out \<Rightarrow> tether_source \<Rightarrow>
   tether_source \<times> 'f source_out list" where
  "source_call now rc frames dec decode (SubVideo u dat mid) s = (s, on_session_video now rc frames s (Some dat) 0 mid)"
| "source_call now rc frames dec decode (SubAudio u dat rate ch mid) s =
     on_session_audio now dec decode s (Some dat) mid"
| "source_call now rc frames dec decode out s = (s, [])"

fun src_call :: "'f src_op \<Rightarrow> source_world \<Rightarrow> (source_world \<times> 'f source_out list) option" where
  "src_call (SrcCreate env denv st source) w =
     (case source_create env denv (sw_next w) st source (sw_mod w) of
        None \<Rightarrow> None
      | Some (s, m, outs, fo) \<Rightarrow>
          Some (w\<lparr>sw_mod := m, sw_sources := (sw_sources w)(sw_next w \<mapsto> s), sw_next := sw_next w + 1\<rparr>, map SourceFf fo))"
| "src_call (SrcDestroy u) w =
     (case sw_sources w u of
        None \<Rightarrow> Some (w, [])
      | Some s \<Rightarrow>
          (case source_destroy s (sw_mod w) of
             None \<Rightarrow> None
           | Some (m, outs, so) \<Rightarrow> Some (w\<lparr>sw_mod := m, sw_sources := (sw_sources w)(u := None)\<rparr>, so)))"
| "src_call (SrcUpdate env u st) w =
     (case sw_sources w u of
        None \<Rightarrow> Some (w, [])
      | Some s \<Rightarrow>
          (case source_update env u st s (sw_mod w) of
             None \<Rightarrow> None
           | Some (s', m, outs) \<Rightarrow> Some (w\<lparr>sw_mod := m, sw_sources := (sw_sources w)(u \<mapsto> s')\<rparr>, [])))"
| "src_call (SrcPage tr env u st) w =
     (case tether_properties_for_receiver tr env (map_option (\<lambda>_. st) u) (sw_mod w) of
        None \<Rightarrow> None
      | Some (page, m, outs) \<Rightarrow> Some (w\<lparr>sw_mod := m\<rparr>, []))"
| "src_call (SrcSocket a rc rc2 op) w =
     (case rx_heap (rm_rx (sw_mod w)) a of
        None \<Rightarrow> Some (w, [])
      | Some s \<Rightarrow>
          (case rx_socket_event rc rc2 op s of (s', outs) \<Rightarrow>
             Some ((set_session a s' w)\<lparr>sw_inflight := sw_inflight w @ media_calls a s outs\<rparr>, [])))"
| "src_call (SrcRtc a now cb) w =
     (case rx_heap (rm_rx (sw_mod w)) a of
        None \<Rightarrow> Some (w, [])
      | Some s \<Rightarrow>
          (case rx_rtc_event now cb s of (s', outs) \<Rightarrow>
             Some ((set_session a s' w)\<lparr>sw_inflight := sw_inflight w @ media_calls a s outs\<rparr>, [])))"
| "src_call (SrcDeliver now rc frames dec decode) w =
     (case sw_inflight w of
        [] \<Rightarrow> Some (w, [])
      | (h, out) # rest \<Rightarrow>
          if \<not> sub_alive (rm_rx (sw_mod w)) h then None
          else case call_target out of
            None \<Rightarrow> Some (w\<lparr>sw_inflight := rest\<rparr>, [])
          | Some u \<Rightarrow>
              (case sw_sources w u of
                 None \<Rightarrow> None
               | Some s \<Rightarrow>
                   (case source_call now rc frames dec decode out s of (s', outs) \<Rightarrow>
                      Some (w\<lparr>sw_inflight := rest, sw_sources := (sw_sources w)(u \<mapsto> s')\<rparr>, outs))))"

section \<open>What every operation keeps\<close>

definition own_users :: "nat \<Rightarrow> tether_source \<Rightarrow> (nat \<times> nat \<times> nat) set" where
  "own_users me s = (case so_sub s of None \<Rightarrow> {} | Some (a, i) \<Rightarrow> {(a, i, me)})"

definition src_users :: "(nat \<rightharpoonup> tether_source) \<Rightarrow> (nat \<times> nat \<times> nat) set" where
  "src_users srcs = {(a, i, u). \<exists>s. srcs u = Some s \<and> so_sub s = Some (a, i)}"

definition source_ok :: "rx_world \<Rightarrow> tether_source \<Rightarrow> bool" where
  "source_ok rx s \<longleftrightarrow> so_token s \<noteq> Some [] \<and> (case so_sub s of
     None \<Rightarrow> so_session s = None
   | Some (a, i) \<Rightarrow> so_session s = Some a \<and> so_token s \<noteq> None \<and> rx_token_at rx a = so_token s)"

text \<open>
  The registry accounts for the references \<open>refs\<close> of the other clients and for one subscription per
  attached source, which calls that source.
\<close>

definition src_inv :: "nat multiset \<Rightarrow> source_world \<Rightarrow> bool" where
  "src_inv refs w \<longleftrightarrow>
     (\<exists>subs. rx_ok (rm_rx (sw_mod w)) refs subs) \<and> rx_users (rm_rx (sw_mod w)) = src_users (sw_sources w) \<and>
     (\<forall>u s. sw_sources w u = Some s \<longrightarrow> u < sw_next w \<and> source_ok (rm_rx (sw_mod w)) s)"

text \<open>A session somebody else still uses keeps its token.\<close>

definition keeps_tokens :: "nat multiset \<Rightarrow> (nat \<times> nat \<times> nat) set \<Rightarrow> rx_world \<Rightarrow> rx_world \<Rightarrow> bool" where
  "keeps_tokens refs U w w' \<longleftrightarrow>
     (\<forall>b t. b \<in># refs \<or> b \<in> fst ` U \<longrightarrow> rx_token_at w b = Some t \<longrightarrow> rx_token_at w' b = Some t)"

lemma keeps_tokens_refl [simp]: "keeps_tokens refs U w w"
  by (simp add: keeps_tokens_def)

lemma keeps_tokens_trans:
  "keeps_tokens refs U w w1 \<Longrightarrow> keeps_tokens refs U w1 w2 \<Longrightarrow> keeps_tokens refs U w w2"
  by (auto simp: keeps_tokens_def)

lemma subs_users_fst: "rx_ok w refs subs \<Longrightarrow> fst ` set subs = fst ` rx_users w"
  using rx_users_subs [of w refs subs] by force

lemma src_users_upd: "src_users (srcs(me \<mapsto> s)) = src_users (srcs(me := None)) \<union> own_users me s"
  by (auto simp: src_users_def own_users_def split: option.splits prod.splits if_splits)

lemma src_users_not_me: "(a, i, me) \<notin> src_users (srcs(me := None))"
  by (simp add: src_users_def)

lemma src_users_same_sub: "srcs u = Some s \<Longrightarrow> so_sub s' = so_sub s \<Longrightarrow> src_users (srcs(u \<mapsto> s')) = src_users srcs"
  by (auto simp: src_users_def)

lemma drop_subscription_ok:
  assumes ok: "rx_ok (rm_rx m) refs subs" and us: "rx_users (rm_rx m) = U \<union> own_users me s"
    and me: "\<And>a i. (a, i, me) \<notin> U" and s: "source_ok (rm_rx m) s"
  obtains w outs subs' where "drop_subscription s m = Some (s\<lparr>so_sub := None, so_session := None\<rparr>, m\<lparr>rm_rx := w\<rparr>, outs)"
    and "rx_ok w refs subs'" and "rx_users w = U" and "keeps_tokens refs U (rm_rx m) w"
proof (cases "so_sub s")
  case None
  then have "s\<lparr>so_sub := None, so_session := None\<rparr> = s" "own_users me s = {}" using s by (simp_all add: source_ok_def own_users_def)
  with None that [of "rm_rx m" "[]" subs] ok us show thesis by (simp add: drop_subscription_def)
next
  case (Some h)
  then obtain a i where h: "so_sub s = Some (a, i)" by (cases h) simp
  then have own: "own_users me s = {(a, i, me)}" by (simp add: own_users_def)
  then have "(a, i, me) \<in> rx_users (rm_rx m)" using us by simp
  then have "(\<lambda>(a, i, u). (a, i)) (a, i, me) \<in> set subs" using rx_users_subs [OF ok] by blast
  then have "(a, i) \<in> set subs" by simp
  note det = sessions.detach [OF ok this]
  obtain w outs subs' where
    d: "tether_receive_session_unsubscribe (Some (a, i)) (rm_rx m) = Some (w, outs)" "rx_ok w refs subs'"
    and us': "rx_users w = rx_users (rm_rx m) - {(a, i, u) | u. True}"
    and k: "\<And>b t. b \<in># refs \<or> b \<in> fst ` set subs' \<Longrightarrow> rx_token_at (rm_rx m) b = Some t \<Longrightarrow> rx_token_at w b = Some t"
    by (rule det) blast
  have "(a, i, u) \<notin> U" for u
    using rx_users_fun [OF ok, of a i u me] us own me by auto
  then have U: "rx_users w = U" using us us' own by auto
  then have "keeps_tokens refs U (rm_rx m) w" using k subs_users_fst [OF d(2)] by (simp add: keeps_tokens_def)
  with d h U show thesis by (intro that [of w outs subs']) (simp_all add: drop_subscription_def)
qed

lemma open_subscription_ok:
  assumes ok: "rx_ok (rm_rx m) refs subs" and us: "rx_users (rm_rx m) = U"
    and s: "so_sub s = None" "so_token s = Some t" "t \<noteq> []"
  obtains s' m' outs subs' where "open_subscription env me t s m = Some (s', m', outs)"
    and "rx_ok (rm_rx m') refs subs'" and "rx_users (rm_rx m') = U \<union> own_users me s'"
    and "source_ok (rm_rx m') s'" and "\<exists>p q. s' = s\<lparr>so_session := p, so_sub := q\<rparr>"
    and "keeps_tokens refs U (rm_rx m) (rm_rx m')"
    and "so_sub s' = None \<Longrightarrow> rm_known m' = rm_known m"
    and "so_sub s' \<noteq> None \<Longrightarrow> rm_known m' = fst (tether_known_tokens_add (Some t) (rm_known m))"
proof -
  from registry.get_total [OF ok] obtain w1 p o1 where g: "rx_get env (Some t) (rm_rx m) = Some (w1, p, o1)" by blast
  show thesis
  proof (cases p)
    case None
    have ok1: "rx_ok w1 refs subs" using registry.get_none_ok [OF ok] g None by simp
    have "rx_users w1 = U" using sessions.get_users [OF ok g] us by simp
    moreover have "keeps_tokens refs U (rm_rx m) w1"
      unfolding keeps_tokens_def using sessions.get_keeps [OF g _ ok] by simp
    moreover have "s\<lparr>so_session := None\<rparr> = s\<lparr>so_session := None, so_sub := None\<rparr>" using s by simp
    then have "\<exists>p q. s\<lparr>so_session := None\<rparr> = s\<lparr>so_session := p, so_sub := q\<rparr>" by blast
    ultimately show thesis using that [of "s\<lparr>so_session := None\<rparr>" "m\<lparr>rm_rx := w1\<rparr>" o1 subs] g None ok1 s
      by (simp add: open_subscription_def own_users_def source_ok_def)
  next
    case (Some a)
    note g = g [unfolded Some]
    obtain w2 i o2 w3 o3 where
      sb: "rx_subscribe (True, True, True, me) (Some a) w1 = Some (w2, Some (a, i), o2)"
      and r: "tether_receive_session_release (Some a) w2 = Some (w3, o3)"
      and ok3: "rx_ok w3 refs (subs @ [(a, i)])" and u3: "rx_users w3 = insert (a, i, me) (rx_users (rm_rx m))"
      and t3: "rx_token_at w3 a = Some t"
      and k: "\<And>b x. b \<in># refs \<or> b \<in> fst ` set subs \<Longrightarrow> rx_token_at (rm_rx m) b = Some x \<Longrightarrow> rx_token_at w3 b = Some x"
      by (rule sessions.attach [OF ok g, of "(True, True, True, me)"]) auto
    let ?s = "s\<lparr>so_session := Some a, so_sub := Some (a, i)\<rparr>"
    let ?m = "\<lparr>rm_rx = w3, rm_known = fst (tether_known_tokens_add (Some t) (rm_known m))\<rparr>"
    have "keeps_tokens refs U (rm_rx m) w3" unfolding keeps_tokens_def
      using k us subs_users_fst [OF ok] by simp
    then show thesis using that [of ?s ?m "o1 @ o2 @ o3" "subs @ [(a, i)]"] g sb r ok3 u3 t3 us s
      by (auto simp: open_subscription_def own_users_def source_ok_def)
  qed
qed

text \<open>The parts of a source that attaching it does not touch.\<close>

definition source_rest :: "tether_source \<Rightarrow> nat \<times> string option \<times> string option \<times> tether_audio_receiver option \<times> video_decoder" where
  "source_rest s = (so_source s, so_video_mid s, so_audio_mid s, so_audio s, so_decoder s)"

lemma attach_session_ok:
  assumes ok: "rx_ok (rm_rx m) refs subs" and us: "rx_users (rm_rx m) = U \<union> own_users me s"
    and me: "\<And>a i. (a, i, me) \<notin> U" and s: "source_ok (rm_rx m) s"
  obtains s' m' outs subs' where "attach_session env me token s m = Some (s', m', outs)"
    and "rx_ok (rm_rx m') refs subs'" and "rx_users (rm_rx m') = U \<union> own_users me s'"
    and "source_ok (rm_rx m') s'" and "so_token s' = dup_nonempty token" and "source_rest s' = source_rest s"
    and "keeps_tokens refs U (rm_rx m) (rm_rx m')"
proof -
  obtain w1 o1 subs1 where d: "drop_subscription s m = Some (s\<lparr>so_sub := None, so_session := None\<rparr>, m\<lparr>rm_rx := w1\<rparr>, o1)"
    and ok1: "rx_ok w1 refs subs1" and u1: "rx_users w1 = U" and k1: "keeps_tokens refs U (rm_rx m) w1"
    by (rule drop_subscription_ok [OF assms])
  let ?m1 = "m\<lparr>rm_rx := w1\<rparr>"
  let ?s2 = "s\<lparr>so_sub := None, so_session := None, so_token := dup_nonempty token\<rparr>"
  show thesis
  proof (cases "token = []")
    case True
    then show thesis using that [of ?s2 ?m1 o1 subs1] d ok1 u1 k1
      by (simp add: attach_session_def dup_nonempty_def own_users_def source_ok_def source_rest_def)
  next
    case False
    then have t: "so_token ?s2 = Some token" by (simp add: dup_nonempty_def)
    have ok1': "rx_ok (rm_rx ?m1) refs subs1" and u1': "rx_users (rm_rx ?m1) = U" using ok1 u1 by simp_all
    obtain s' m' o2 subs' where op: "open_subscription env me token ?s2 ?m1 = Some (s', m', o2)"
      and "rx_ok (rm_rx m') refs subs'" and "rx_users (rm_rx m') = U \<union> own_users me s'"
      and "source_ok (rm_rx m') s'" and s': "\<exists>p q. s' = ?s2\<lparr>so_session := p, so_sub := q\<rparr>"
      and k2: "keeps_tokens refs U (rm_rx ?m1) (rm_rx m')"
      by (rule open_subscription_ok [OF ok1' u1' _ t False]) simp
    moreover have "attach_session env me token s m = Some (s', m', o1 @ o2)"
      using d op t by (simp add: attach_session_def dup_nonempty_def Let_def False)
    moreover have "so_token s' = dup_nonempty token" "source_rest s' = source_rest s"
      using s' by (auto simp: source_rest_def)
    moreover have "keeps_tokens refs U (rm_rx m) (rm_rx m')" using keeps_tokens_trans [OF k1] k2 by simp
    ultimately show thesis using that by blast
  qed
qed

lemma others_ok:
  assumes "keeps_tokens refs (src_users srcs) rx rx'" and "srcs v = Some s" and "source_ok rx s"
  shows "source_ok rx' s"
proof (cases "so_sub s")
  case (Some h)
  then obtain a i where "so_sub s = Some (a, i)" by (cases h) simp
  moreover from this have "a \<in> fst ` src_users srcs" using assms(2) by (force simp: src_users_def)
  moreover from this have "rx_token_at rx' a = so_token s" if "rx_token_at rx a = so_token s" "so_token s \<noteq> None"
    using assms(1) that unfolding keeps_tokens_def by fastforce
  ultimately show ?thesis using assms(3) by (simp add: source_ok_def)
qed (use assms in \<open>simp add: source_ok_def\<close>)

lemma put_source:
  assumes inv: "src_inv refs w"
    and ok: "rx_ok (rm_rx m) refs subs" and us: "rx_users (rm_rx m) = src_users ((sw_sources w)(u := None)) \<union> own_users u s"
    and s: "source_ok (rm_rx m) s"
    and k: "keeps_tokens refs (src_users ((sw_sources w)(u := None))) (rm_rx (sw_mod w)) (rm_rx m)"
    and n: "u < n" "sw_next w \<le> n"
  shows "src_inv refs (w\<lparr>sw_mod := m, sw_sources := (sw_sources w)(u \<mapsto> s), sw_next := n\<rparr>)"
proof -
  have "v < n \<and> source_ok (rm_rx m) x" if "((sw_sources w)(u \<mapsto> s)) v = Some x" for v x
  proof (cases "v = u")
    case False
    with that inv have x: "((sw_sources w)(u := None)) v = Some x" "source_ok (rm_rx (sw_mod w)) x" "v < sw_next w"
      by (auto simp: src_inv_def)
    with others_ok [OF k x(1,2)] n show ?thesis by simp
  qed (use that s n in simp)
  with ok us show ?thesis by (auto simp: src_inv_def src_users_upd)
qed

lemma src_inv_users: "src_inv refs w \<Longrightarrow> sw_sources w u = Some s \<Longrightarrow>
    rx_users (rm_rx (sw_mod w)) = src_users ((sw_sources w)(u := None)) \<union> own_users u s"
  using src_users_upd [of "sw_sources w" u s] by (simp add: src_inv_def fun_upd_idem)

lemma src_keeps_refs: "keeps_tokens refs U w w' \<Longrightarrow> keeps_tokens refs {} w w'"
  by (simp add: keeps_tokens_def)

lemma create_ok:
  assumes inv: "src_inv refs w"
  obtains s m outs fo where "source_create env denv (sw_next w) st source (sw_mod w) = Some (s, m, outs, fo)"
    and "src_inv refs (w\<lparr>sw_mod := m, sw_sources := (sw_sources w)(sw_next w \<mapsto> s), sw_next := sw_next w + 1\<rparr>)"
    and "keeps_tokens refs {} (rm_rx (sw_mod w)) (rm_rx m)" and "so_token s = dup_nonempty (get_string (ss_token st))"
    and "fo = snd (snd (init_video_decoder denv))"
proof -
  obtain dec ok fo where dec: "init_video_decoder denv = (dec, ok, fo)" by (metis prod_cases3)
  let ?u = "sw_next w"
  define s0 where "s0 = \<lparr>so_source = source, so_token = None, so_video_mid = dup_nonempty (get_string (ss_video_mid st)),
    so_audio_mid = dup_nonempty (get_string (ss_audio_mid st)), so_session = None, so_sub = None,
    so_audio = tether_audio_receiver_bind_source (Some source) (Some (tether_audio_receiver_create 48000 2)),
    so_decoder = dec\<rparr>"
  have "sw_sources w ?u = None" using inv by (cases "sw_sources w ?u") (auto simp: src_inv_def)
  then have idem: "(sw_sources w)(?u := None) = sw_sources w" by (simp add: fun_upd_idem)
  obtain subs where "rx_ok (rm_rx (sw_mod w)) refs subs" using inv by (auto simp: src_inv_def)
  moreover have "rx_users (rm_rx (sw_mod w)) = src_users ((sw_sources w)(?u := None)) \<union> own_users ?u s0"
    using inv by (simp add: src_inv_def idem own_users_def s0_def)
  moreover have "source_ok (rm_rx (sw_mod w)) s0" by (simp add: source_ok_def s0_def)
  ultimately obtain s m outs subs' where
    a: "attach_session env ?u (get_string (ss_token st)) s0 (sw_mod w) = Some (s, m, outs)"
    and "rx_ok (rm_rx m) refs subs'" and "rx_users (rm_rx m) = src_users ((sw_sources w)(?u := None)) \<union> own_users ?u s"
    and "source_ok (rm_rx m) s" and t: "so_token s = dup_nonempty (get_string (ss_token st))"
    and k: "keeps_tokens refs (src_users ((sw_sources w)(?u := None))) (rm_rx (sw_mod w)) (rm_rx m)"
    using attach_session_ok [of "sw_mod w" refs subs _ ?u s0 env "get_string (ss_token st)"] src_users_not_me by metis
  then have "src_inv refs (w\<lparr>sw_mod := m, sw_sources := (sw_sources w)(?u \<mapsto> s), sw_next := ?u + 1\<rparr>)"
    using put_source [OF inv] by simp
  moreover have "source_create env denv ?u st source (sw_mod w) = Some (s, m, outs, fo)"
    using a dec by (simp add: source_create_def s0_def)
  ultimately show thesis using that t src_keeps_refs [OF k] dec by simp
qed

lemma update_ok:
  assumes inv: "src_inv refs w" and u: "sw_sources w u = Some s"
  obtains s' m outs where "source_update env u st s (sw_mod w) = Some (s', m, outs)"
    and "src_inv refs (w\<lparr>sw_mod := m, sw_sources := (sw_sources w)(u \<mapsto> s')\<rparr>)"
    and "keeps_tokens refs {} (rm_rx (sw_mod w)) (rm_rx m)"
    and "so_token s' = dup_nonempty (get_string (ss_token st))"
    and "so_token s = Some (get_string (ss_token st)) \<Longrightarrow> so_sub s' = so_sub s"
proof -
  let ?tok = "get_string (ss_token st)"
  define mids where "mids x = x\<lparr>so_video_mid := dup_nonempty (get_string (ss_video_mid st)),
    so_audio_mid := dup_nonempty (get_string (ss_audio_mid st))\<rparr>" for x :: tether_source
  have mids [simp]: "so_sub (mids x) = so_sub x" "so_token (mids x) = so_token x" "so_session (mids x) = so_session x" for x
    by (simp_all add: mids_def)
  have mids_ok [simp]: "source_ok rx (mids x) = source_ok rx x" "own_users u (mids x) = own_users u x" for x rx
    by (simp_all add: source_ok_def own_users_def split: option.splits)
  obtain subs where ok: "rx_ok (rm_rx (sw_mod w)) refs subs" using inv by (auto simp: src_inv_def)
  have s: "source_ok (rm_rx (sw_mod w)) s" and lt: "u < sw_next w" using inv u by (auto simp: src_inv_def)
  note us = src_inv_users [OF inv u]
  show thesis
  proof (cases "so_token s = Some ?tok")
    case True
    have "source_update env u st s (sw_mod w) = Some (mids s, sw_mod w, [])" using True by (simp add: source_update_def mids_def)
    moreover have "src_inv refs (w\<lparr>sw_mod := sw_mod w, sw_sources := (sw_sources w)(u \<mapsto> mids s), sw_next := sw_next w\<rparr>)"
      by (rule put_source [OF inv ok _ _ _ lt]) (use us s in simp_all)
    moreover have "so_token s = dup_nonempty ?tok" using s True by (simp add: source_ok_def dup_nonempty_def)
    ultimately show thesis using that True by simp
  next
    case False
    obtain s1 m outs subs' where a: "attach_session env u ?tok s (sw_mod w) = Some (s1, m, outs)"
      and r: "rx_ok (rm_rx m) refs subs'" "rx_users (rm_rx m) = src_users ((sw_sources w)(u := None)) \<union> own_users u s1"
      "source_ok (rm_rx m) s1" and t: "so_token s1 = dup_nonempty ?tok"
      and k: "keeps_tokens refs (src_users ((sw_sources w)(u := None))) (rm_rx (sw_mod w)) (rm_rx m)"
      by (rule attach_session_ok [OF ok us src_users_not_me s])
    have "source_update env u st s (sw_mod w) = Some (mids s1, m, outs)"
      using False a by (simp add: source_update_def mids_def)
    moreover have "src_inv refs (w\<lparr>sw_mod := m, sw_sources := (sw_sources w)(u \<mapsto> mids s1), sw_next := sw_next w\<rparr>)"
      by (rule put_source [OF inv r(1) _ _ k lt]) (use r in simp_all)
    ultimately show thesis using that False t src_keeps_refs [OF k] by simp
  qed
qed

lemma destroy_ok:
  assumes inv: "src_inv refs w" and u: "sw_sources w u = Some s"
  obtains m outs and so :: "'f source_out list" where "source_destroy s (sw_mod w) = Some (m, outs, so)"
    and "src_inv refs (w\<lparr>sw_mod := m, sw_sources := (sw_sources w)(u := None)\<rparr>)"
    and "keeps_tokens refs {} (rm_rx (sw_mod w)) (rm_rx m)"
proof -
  obtain subs where ok: "rx_ok (rm_rx (sw_mod w)) refs subs" using inv by (auto simp: src_inv_def)
  have s: "source_ok (rm_rx (sw_mod w)) s" using inv u by (auto simp: src_inv_def)
  note us = src_inv_users [OF inv u]
  let ?S = "(sw_sources w)(u := None)"
  obtain rx outs subs' where d: "drop_subscription s (sw_mod w) =
      Some (s\<lparr>so_sub := None, so_session := None\<rparr>, (sw_mod w)\<lparr>rm_rx := rx\<rparr>, outs)"
    and r: "rx_ok rx refs subs'" "rx_users rx = src_users ?S"
    and k: "keeps_tokens refs (src_users ?S) (rm_rx (sw_mod w)) rx"
    by (rule drop_subscription_ok [OF ok us src_users_not_me s])
  let ?m = "(sw_mod w)\<lparr>rm_rx := rx\<rparr>"
  have "v < sw_next w \<and> source_ok rx x" if "?S v = Some x" for v x
  proof -
    from that inv have "v < sw_next w" "source_ok (rm_rx (sw_mod w)) x" by (auto simp: src_inv_def split: if_splits)
    with others_ok [OF k that] show ?thesis by simp
  qed
  with r have "src_inv refs (w\<lparr>sw_mod := ?m, sw_sources := ?S\<rparr>)" by (auto simp: src_inv_def)
  moreover obtain so :: "'f source_out list" where "source_destroy s (sw_mod w) = Some (?m, outs, so)" using d by (simp add: source_destroy_def)
  ultimately show thesis using that src_keeps_refs [OF k] by simp
qed

lemma page_mids_ok:
  assumes ok: "rx_ok rx refs subs"
  obtains rx' vm am outs where "page_mids env st rx = Some (rx', vm, am, outs)" and "rx_ok rx' refs subs"
    and "rx_users rx' = rx_users rx" and "keeps_tokens refs (rx_users rx) rx rx'"
proof -
  note result = that
  have same: thesis if "page_mids env st rx = Some (rx, vm, am, outs)" for vm am outs
    by (rule result [OF that ok]) simp_all
  show thesis
  proof (cases st)
    case None
    then show thesis by (intro same) (simp add: page_mids_def)
  next
    case (Some v)
    let ?tok = "get_string (ss_token v)"
    show thesis
    proof (cases "?tok = []")
      case True
      with Some show thesis by (intro same) (simp add: page_mids_def)
    next
      case False
      obtain w1 p o1 where g: "rx_get env (Some ?tok) rx = Some (w1, p, o1)" using registry.get_total [OF ok] by blast
      show thesis
      proof (cases p)
        case None
        have "keeps_tokens refs (rx_users rx) rx w1" unfolding keeps_tokens_def using sessions.get_keeps [OF g _ ok] by simp
        with g None Some False registry.get_none_ok [OF ok] sessions.get_users [OF ok g] show thesis
          by (intro that [of w1 "[]" "[]" o1]) (simp_all add: page_mids_def)
      next
        case (Some a)
        note g = g [unfolded Some]
        obtain w2 o2 where r: "tether_receive_session_release (Some a) w1 = Some (w2, o2)" and ok2: "rx_ok w2 refs subs"
          and u2: "rx_users w2 = rx_users rx"
          and k: "\<And>b x. b \<in># refs \<or> b \<in> fst ` set subs \<Longrightarrow> rx_token_at rx b = Some x \<Longrightarrow> rx_token_at w2 b = Some x"
          by (rule sessions.visit [OF ok g]) blast
        have "keeps_tokens refs (rx_users rx) rx w2" unfolding keeps_tokens_def
          using k by (simp add: subs_users_fst [OF ok])
        with g r \<open>st = Some v\<close> False ok2 u2 show thesis by (intro that) (auto simp: page_mids_def)
      qed
    qed
  qed
qed

text \<open>Changing the registry's world under the sources, with the same subscriptions.\<close>

lemma src_inv_rx:
  assumes inv: "src_inv refs w" and "rx_ok rx refs' subs" and "rx_users rx = rx_users (rm_rx (sw_mod w))"
    and k: "keeps_tokens r (rx_users (rm_rx (sw_mod w))) (rm_rx (sw_mod w)) rx"
  shows "src_inv refs' (w\<lparr>sw_mod := (sw_mod w)\<lparr>rm_rx := rx\<rparr>\<rparr>)"
proof -
  have "source_ok rx s" if "sw_sources w u = Some s" for u s
    by (rule others_ok [OF k [unfolded conjunct1 [OF conjunct2 [OF inv [unfolded src_inv_def]]]] that])
       (use inv that in \<open>auto simp: src_inv_def\<close>)
  with assms show ?thesis by (auto simp: src_inv_def)
qed

lemma src_inv_event:
  assumes inv: "src_inv refs w" and a: "rx_heap (rm_rx (sw_mod w)) a = Some s" and c: "rx_core s' = rx_core s"
  shows "src_inv refs (set_session a s' w)"
    and "rx_token_at (rm_rx (sw_mod (set_session a s' w))) = rx_token_at (rm_rx (sw_mod w))"
proof -
  obtain subs where ok: "rx_ok (rm_rx (sw_mod w)) refs subs" using inv by (auto simp: src_inv_def)
  note fr = rx_event_frame [OF ok a c]
  have "keeps_tokens refs (rx_users (rm_rx (sw_mod w))) (rm_rx (sw_mod w))
      ((rm_rx (sw_mod w))\<lparr>rx_heap := (rx_heap (rm_rx (sw_mod w)))(a \<mapsto> s')\<rparr>)" using fr(3) by (simp add: keeps_tokens_def)
  from src_inv_rx [OF inv fr(1,2) this] show "src_inv refs (set_session a s' w)" by (simp add: set_session_def)
  show "rx_token_at (rm_rx (sw_mod (set_session a s' w))) = rx_token_at (rm_rx (sw_mod w))"
    using fr(3) by (simp add: set_session_def)
qed

section \<open>Callbacks in flight\<close>

text \<open>A callback in flight is a pointer to the subscription of a source that is there.\<close>

definition inflight_ok :: "source_world \<Rightarrow> bool" where
  "inflight_ok w \<longleftrightarrow> (\<forall>((a, i), out) \<in> set (sw_inflight w). \<exists>u. call_target out = Some u \<and> (a, i, u) \<in> src_users (sw_sources w))"

text \<open>The subscription an operation gives back: a source that goes away, or that is pointed to another token.\<close>

fun given_back :: "'f src_op \<Rightarrow> source_world \<Rightarrow> (nat \<times> nat) option" where
  "given_back (SrcDestroy u) w = Option.bind (sw_sources w u) so_sub"
| "given_back (SrcUpdate env u st) w = Option.bind (sw_sources w u)
     (\<lambda>s. if so_token s = Some (get_string (ss_token st)) then None else so_sub s)"
| "given_back op w = None"

definition settled :: "'f src_op \<Rightarrow> source_world \<Rightarrow> bool" where
  "settled op w \<longleftrightarrow> (\<forall>(h, out) \<in> set (sw_inflight w). given_back op w \<noteq> Some h)"

lemma alive_iff: "sub_alive w (a, i) \<longleftrightarrow> (\<exists>u. (a, i, u) \<in> rx_users w)"
  by (auto simp: sub_alive_def rx_users_def sub_pair_def find_None_iff has_sub_addr_def image_iff split: option.splits)

lemma inflight_keep:
  assumes fl: "inflight_ok w" and "sw_inflight w' = sw_inflight w"
    and "\<And>a i u out. ((a, i), out) \<in> set (sw_inflight w) \<Longrightarrow> (a, i, u) \<in> src_users (sw_sources w) \<Longrightarrow>
      (a, i, u) \<in> src_users (sw_sources w')"
  shows "inflight_ok w'"
  unfolding inflight_ok_def
proof (clarify)
  fix a i out
  assume m: "((a, i), out) \<in> set (sw_inflight w')"
  with assms(2) fl obtain u where "call_target out = Some u" "(a, i, u) \<in> src_users (sw_sources w)"
    by (auto simp: inflight_ok_def)
  with assms(3) m assms(2) show "\<exists>u. call_target out = Some u \<and> (a, i, u) \<in> src_users (sw_sources w')" by auto
qed

lemma media_calls_users:
  assumes "((b, i), out) \<in> set (media_calls a s outs)" and "rx_heap rx a = Some s"
  shows "\<exists>u. call_target out = Some u \<and> (b, i, u) \<in> rx_users rx"
  using assms
  by (force simp: media_calls_def map_filter_def rx_users_def sub_pair_def dest: find_SomeD split: option.splits)

lemma source_call_frame:
  "source_call now rc frames dec decode out s = (s', outs) \<Longrightarrow>
    so_sub s' = so_sub s \<and> so_token s' = so_token s \<and> so_session s' = so_session s"
  by (cases out) (auto simp: on_session_audio_def split: if_splits prod.splits)

lemma src_inv_same:
  assumes inv: "src_inv refs w" and u: "sw_sources w u = Some s"
    and "so_sub s' = so_sub s \<and> so_token s' = so_token s \<and> so_session s' = so_session s"
  shows "src_inv refs (w\<lparr>sw_inflight := q, sw_sources := (sw_sources w)(u \<mapsto> s')\<rparr>)"
proof -
  have "src_users ((sw_sources w)(u \<mapsto> s')) = src_users (sw_sources w)" using assms by (intro src_users_same_sub) auto
  moreover have "source_ok rx s' = source_ok rx s" for rx using assms(3) by (simp add: source_ok_def split: option.splits)
  ultimately show ?thesis using inv u by (auto simp: src_inv_def)
qed

lemma deliver_ok:
  fixes decode :: "nat \<Rightarrow> u8 list \<Rightarrow> int \<Rightarrow> int \<times> 'f list"
  assumes inv: "src_inv refs w" and fl: "inflight_ok w"
  obtains w' outs where "src_call (SrcDeliver now rc frames dec decode) w = Some (w', outs)" and "src_inv refs w'"
    and "inflight_ok w'" and "sw_mod w' = sw_mod w"
proof (cases "sw_inflight w")
  case Nil
  then show thesis using that [of w "[]"] assms by simp
next
  case (Cons c rest)
  obtain a i out where c: "c = ((a, i), out)" by (metis surj_pair)
  with Cons fl obtain u where u: "call_target out = Some u" "(a, i, u) \<in> src_users (sw_sources w)"
    by (auto simp: inflight_ok_def)
  then obtain s where s: "sw_sources w u = Some s" "so_sub s = Some (a, i)" by (auto simp: src_users_def)
  have alive: "sub_alive (rm_rx (sw_mod w)) (a, i)" using u inv by (auto simp: alive_iff src_inv_def)
  obtain s' outs where call: "source_call now rc frames dec decode out s = (s', outs)" by fastforce
  note fr = source_call_frame [OF call]
  let ?w = "w\<lparr>sw_inflight := rest, sw_sources := (sw_sources w)(u \<mapsto> s')\<rparr>"
  have "src_users (sw_sources ?w) = src_users (sw_sources w)" using s fr by (simp add: src_users_same_sub)
  then have "inflight_ok ?w" using fl Cons by (auto simp: inflight_ok_def)
  moreover have "src_call (SrcDeliver now rc frames dec decode) w = Some (?w, outs)"
    using Cons c alive u s call by simp
  ultimately show thesis using that src_inv_same [OF inv s(1) fr] by simp
qed

lemma event_ok:
  assumes inv: "src_inv refs w" and fl: "inflight_ok w" and s: "rx_heap (rm_rx (sw_mod w)) a = Some s"
    and core: "rx_core s' = rx_core s"
  shows "src_inv refs ((set_session a s' w)\<lparr>sw_inflight := sw_inflight w @ media_calls a s outs\<rparr>)"
    and "inflight_ok ((set_session a s' w)\<lparr>sw_inflight := sw_inflight w @ media_calls a s outs\<rparr>)"
proof -
  from src_inv_event(1) [OF inv s core] show "src_inv refs ((set_session a s' w)\<lparr>sw_inflight := sw_inflight w @ media_calls a s outs\<rparr>)"
    by (simp add: src_inv_def)
  have us: "rx_users (rm_rx (sw_mod w)) = src_users (sw_sources w)" using inv by (simp add: src_inv_def)
  have "\<exists>u. call_target out = Some u \<and> (b, i, u) \<in> src_users (sw_sources w)"
    if "((b, i), out) \<in> set (media_calls a s outs)" for b i out
    using media_calls_users [OF that s] us by simp
  with fl show "inflight_ok ((set_session a s' w)\<lparr>sw_inflight := sw_inflight w @ media_calls a s outs\<rparr>)"
    by (force simp: inflight_ok_def set_session_def)
qed

text \<open>No operation fails, and each keeps the accounts, unless it gives back a subscription that is in use.\<close>

definition src_goes_well :: "nat multiset \<Rightarrow> 'f src_op \<Rightarrow> source_world \<Rightarrow> bool" where
  "src_goes_well refs op w \<longleftrightarrow> (\<exists>w' outs. src_call op w = Some (w', outs) \<and> src_inv refs w' \<and> inflight_ok w' \<and>
     keeps_tokens refs {} (rm_rx (sw_mod w)) (rm_rx (sw_mod w')))"

lemma src_goes_wellI:
  "src_call op w = Some (w', outs) \<Longrightarrow> src_inv refs w' \<Longrightarrow> inflight_ok w' \<Longrightarrow>
    keeps_tokens refs {} (rm_rx (sw_mod w)) (rm_rx (sw_mod w')) \<Longrightarrow> src_goes_well refs op w"
  unfolding src_goes_well_def by blast

lemma src_create_well:
  assumes inv: "src_inv refs w" and fl: "inflight_ok w"
  shows "src_goes_well refs (SrcCreate env denv st source) w"
proof -
  obtain s m outs fo where c: "source_create env denv (sw_next w) st source (sw_mod w) = Some (s, m, outs, fo)"
    and i: "src_inv refs (w\<lparr>sw_mod := m, sw_sources := (sw_sources w)(sw_next w \<mapsto> s), sw_next := sw_next w + 1\<rparr>)" (is "src_inv refs ?w")
    and k: "keeps_tokens refs {} (rm_rx (sw_mod w)) (rm_rx m)"
    by (rule create_ok [OF inv])
  have "inflight_ok ?w"
  proof (rule inflight_keep [OF fl])
    fix a i u out
    assume "(a, i, u) \<in> src_users (sw_sources w)"
    moreover from this inv have "u \<noteq> sw_next w" by (auto simp: src_users_def src_inv_def)
    ultimately show "(a, i, u) \<in> src_users (sw_sources ?w)" by (simp add: src_users_def)
  qed simp
  with c i k show ?thesis by (intro src_goes_wellI) auto
qed

lemma src_destroy_well:
  assumes inv: "src_inv refs w" and fl: "inflight_ok w" and se: "settled (SrcDestroy u :: 'f src_op) w"
  shows "src_goes_well refs (SrcDestroy u :: 'f src_op) w"
proof (cases "sw_sources w u")
  case None
  with inv fl show ?thesis by (intro src_goes_wellI) auto
next
  case (Some s)
  obtain m outs and so :: "'f source_out list" where d: "source_destroy s (sw_mod w) = Some (m, outs, so)"
    and i: "src_inv refs (w\<lparr>sw_mod := m, sw_sources := (sw_sources w)(u := None)\<rparr>)" (is "src_inv refs ?w")
    and k: "keeps_tokens refs {} (rm_rx (sw_mod w)) (rm_rx m)"
    by (rule destroy_ok [OF inv Some])
  have "inflight_ok ?w"
  proof (rule inflight_keep [OF fl])
    fix a i v out
    assume "((a, i), out) \<in> set (sw_inflight w)" and v: "(a, i, v) \<in> src_users (sw_sources w)"
    with se have "so_sub s \<noteq> Some (a, i)" by (auto simp: settled_def Some)
    with v Some show "(a, i, v) \<in> src_users (sw_sources ?w)" by (auto simp: src_users_def)
  qed simp
  with d i k Some show ?thesis by (intro src_goes_wellI [of _ _ ?w so]) auto
qed

lemma src_update_well:
  assumes inv: "src_inv refs w" and fl: "inflight_ok w" and se: "settled (SrcUpdate env u st :: 'f src_op) w"
  shows "src_goes_well refs (SrcUpdate env u st :: 'f src_op) w"
proof (cases "sw_sources w u")
  case None
  with inv fl show ?thesis by (intro src_goes_wellI) auto
next
  case (Some s)
  obtain s' m outs where d: "source_update env u st s (sw_mod w) = Some (s', m, outs)"
    and i: "src_inv refs (w\<lparr>sw_mod := m, sw_sources := (sw_sources w)(u \<mapsto> s')\<rparr>)" (is "src_inv refs ?w")
    and k: "keeps_tokens refs {} (rm_rx (sw_mod w)) (rm_rx m)"
    and same: "so_token s = Some (get_string (ss_token st)) \<Longrightarrow> so_sub s' = so_sub s"
    by (rule update_ok [OF inv Some, where env = env and st = st]) blast
  have "inflight_ok ?w"
  proof (rule inflight_keep [OF fl])
    fix a i v out
    assume "((a, i), out) \<in> set (sw_inflight w)" and v: "(a, i, v) \<in> src_users (sw_sources w)"
    with se have "so_token s = Some (get_string (ss_token st)) \<or> so_sub s \<noteq> Some (a, i)"
      by (auto simp: settled_def Some split: if_splits)
    with v Some same show "(a, i, v) \<in> src_users (sw_sources ?w)" by (auto simp: src_users_def)
  qed simp
  with d i k Some show ?thesis by (intro src_goes_wellI) auto
qed

lemma src_page_well:
  assumes inv: "src_inv refs w" and fl: "inflight_ok w"
  shows "src_goes_well refs (SrcPage tr env u st) w"
proof -
  obtain subs where ok: "rx_ok (rm_rx (sw_mod w)) refs subs" using inv by (auto simp: src_inv_def)
  obtain rx vm am outs where p: "page_mids env (map_option (\<lambda>_. st) u) (rm_rx (sw_mod w)) = Some (rx, vm, am, outs)"
    and r: "rx_ok rx refs subs" "rx_users rx = rx_users (rm_rx (sw_mod w))"
    and k: "keeps_tokens refs (rx_users (rm_rx (sw_mod w))) (rm_rx (sw_mod w)) rx"
    by (rule page_mids_ok [OF ok])
  have "inflight_ok (w\<lparr>sw_mod := (sw_mod w)\<lparr>rm_rx := rx\<rparr>\<rparr>)" by (rule inflight_keep [OF fl]) simp_all
  with p src_inv_rx [OF inv r k] src_keeps_refs [OF k] show ?thesis
    by (intro src_goes_wellI) (auto simp: tether_properties_for_receiver_def)
qed

lemma src_call_well:
  assumes inv: "src_inv refs w" and fl: "inflight_ok w" and se: "settled op w"
  shows "src_goes_well refs op w"
proof (cases op)
  case (SrcSocket a rc rc2 sop)
  show ?thesis
  proof (cases "rx_heap (rm_rx (sw_mod w)) a")
    case None
    with SrcSocket inv fl show ?thesis by (intro src_goes_wellI) auto
  next
    case (Some s)
    obtain s' outs where e: "rx_socket_event rc rc2 sop s = (s', outs)" by fastforce
    have core: "rx_core s' = rx_core s" using rx_event_core(1) [of rc rc2 sop s] e by simp
    note tok = src_inv_event(2) [OF inv Some core]
    show ?thesis using SrcSocket Some e event_ok [OF inv fl Some core] tok
      by (intro src_goes_wellI) (auto simp: keeps_tokens_def)
  qed
next
  case (SrcRtc a now cb)
  show ?thesis
  proof (cases "rx_heap (rm_rx (sw_mod w)) a")
    case None
    with SrcRtc inv fl show ?thesis by (intro src_goes_wellI) auto
  next
    case (Some s)
    obtain s' outs where e: "rx_rtc_event now cb s = (s', outs)" by fastforce
    have core: "rx_core s' = rx_core s" using rx_event_core(2) [of now cb s] e by simp
    note tok = src_inv_event(2) [OF inv Some core]
    show ?thesis using SrcRtc Some e event_ok [OF inv fl Some core] tok
      by (intro src_goes_wellI) (auto simp: keeps_tokens_def)
  qed
next
  case (SrcDeliver now rc frames dec decode)
  obtain w' outs where "src_call op w = Some (w', outs)" "src_inv refs w'" "inflight_ok w'" "sw_mod w' = sw_mod w"
    unfolding SrcDeliver by (rule deliver_ok [OF inv fl])
  then show ?thesis by (intro src_goes_wellI) auto
qed (use assms src_create_well src_destroy_well src_update_well src_page_well in auto)

section \<open>Runs\<close>

fun src_run :: "'f src_op list \<Rightarrow> source_world \<Rightarrow> (source_world \<times> 'f source_out list) option" where
  "src_run [] w = Some (w, [])"
| "src_run (op # ops) w =
     (case src_call op w of
        None \<Rightarrow> None
      | Some (w1, o1) \<Rightarrow> (case src_run ops w1 of None \<Rightarrow> None | Some (w2, o2) \<Rightarrow> Some (w2, o1 @ o2)))"

text \<open>No source goes away, or changes its token, while a callback to its subscription is in flight.\<close>

fun orderly :: "'f src_op list \<Rightarrow> source_world \<Rightarrow> bool" where
  "orderly [] w \<longleftrightarrow> True"
| "orderly (op # ops) w \<longleftrightarrow> settled op w \<and> (case src_call op w of None \<Rightarrow> True | Some (w1, o1) \<Rightarrow> orderly ops w1)"

definition rx_empty :: rx_world where
  "rx_empty = \<lparr>rx_heap = Map.empty, rx_registry = [], rx_initialised = False, rx_next = 0\<rparr>"

text \<open>After the plugin is loaded, with whatever tokens are known.\<close>

definition sw_start :: "known_tokens \<Rightarrow> source_world" where
  "sw_start k = \<lparr>sw_mod = \<lparr>rm_rx = tether_receive_session_init rx_empty, rm_known = k\<rparr>, sw_sources = Map.empty,
     sw_next = 0, sw_inflight = []\<rparr>"

lemma sw_start_ok: "src_inv {#} (sw_start k)" "inflight_ok (sw_start k)"
proof -
  have "rx_ok (rm_rx (sw_mod (sw_start k))) {#} []"
    by (simp add: sw_start_def rx_empty_def tether_receive_session_init_def rx_ok_def one_per_token_def)
  then show "src_inv {#} (sw_start k)"
    by (auto simp: src_inv_def sw_start_def rx_empty_def tether_receive_session_init_def rx_users_def src_users_def)
qed (simp add: inflight_ok_def sw_start_def)

lemma src_run_ok:
  "orderly ops w \<Longrightarrow> src_inv refs w \<Longrightarrow> inflight_ok w \<Longrightarrow>
    \<exists>w' outs. src_run ops w = Some (w', outs) \<and> src_inv refs w' \<and> inflight_ok w'"
proof (induction ops arbitrary: w)
  case (Cons op ops)
  from Cons.prems(1) have "settled op w" by simp
  from src_call_well [OF Cons.prems(2,3) this] obtain w1 o1 where w1: "src_call op w = Some (w1, o1)"
    "src_inv refs w1" "inflight_ok w1" by (auto simp: src_goes_well_def)
  with Cons.prems(1) have "orderly ops w1" by simp
  from Cons.IH [OF this w1(2,3)] w1(1) show ?case by fastforce
qed simp

lemma session_has_source:
  assumes inv: "src_inv refs w" and a: "rx_token_at (rm_rx (sw_mod w)) a = Some t" and free: "a \<notin># refs"
  shows "\<exists>u s i. sw_sources w u = Some s \<and> so_sub s = Some (a, i) \<and> so_token s = Some t"
proof -
  obtain subs where ok: "rx_ok (rm_rx (sw_mod w)) refs subs" using inv by (auto simp: src_inv_def)
  obtain s where s: "rx_heap (rm_rx (sw_mod w)) a = Some s" using a by (auto simp: rx_token_at_def)
  with ok have "session_ok refs subs a s" by (simp add: rx_ok_def)
  then obtain b where "b \<in> set (rx_subs s)"
    using free by (cases "rx_subs s") (auto simp: session_ok_def not_in_iff)
  with s have "(a, sub_addr b, sub_user b) \<in> rx_users (rm_rx (sw_mod w))" by (auto simp: rx_users_def sub_pair_def)
  then obtain v where v: "sw_sources w (sub_user b) = Some v" "so_sub v = Some (a, sub_addr b)"
    using inv by (auto simp: src_inv_def src_users_def)
  with inv have "source_ok (rm_rx (sw_mod w)) v" by (auto simp: src_inv_def)
  with v a show ?thesis by (force simp: source_ok_def)
qed

lemma source_has_session:
  assumes inv: "src_inv refs w" and "sw_sources w u = Some s" and "so_sub s \<noteq> None"
  shows "\<exists>a t. so_session s = Some a \<and> so_token s = Some t \<and> rx_token_at (rm_rx (sw_mod w)) a = Some t"
proof -
  have "source_ok (rm_rx (sw_mod w)) s" using assms by (auto simp: src_inv_def)
  with assms(3) show ?thesis by (auto simp: source_ok_def split: option.splits prod.splits)
qed

lemma one_session_per_token:
  assumes "src_inv refs w" and "rx_token_at (rm_rx (sw_mod w)) a = Some t" and "rx_token_at (rm_rx (sw_mod w)) b = Some t"
  shows "a = b"
  using assms by (fastforce simp: src_inv_def rx_ok_def one_per_token_def rx_token_at_def)

text \<open>The sources and the sessions mirror each other: whatever the sources are told, and whatever the network
  does, no operation of theirs follows a freed pointer, provided no source is destroyed or retargeted while a
  callback to it is in flight; there is a live session for a token exactly when a source with that token is
  attached, never two for one token, and a source that is attached is so to the session of its own token.\<close>

theorem sources_mirror_sessions:
  fixes ops :: "'f src_op list"
  assumes "orderly ops (sw_start k)"
  shows "\<exists>w outs. src_run ops (sw_start k) = Some (w, outs) \<and>
    (\<forall>t. (\<exists>a. rx_token_at (rm_rx (sw_mod w)) a = Some t) \<longleftrightarrow>
         (\<exists>u s. sw_sources w u = Some s \<and> so_sub s \<noteq> None \<and> so_token s = Some t)) \<and>
    (\<forall>a b t. rx_token_at (rm_rx (sw_mod w)) a = Some t \<longrightarrow> rx_token_at (rm_rx (sw_mod w)) b = Some t \<longrightarrow> a = b) \<and>
    (\<forall>u s. sw_sources w u = Some s \<longrightarrow> so_sub s \<noteq> None \<longrightarrow>
       (\<exists>a. so_session s = Some a \<and> rx_token_at (rm_rx (sw_mod w)) a = so_token s))"
proof -
  from src_run_ok [OF assms sw_start_ok] obtain w outs where r: "src_run ops (sw_start k) = Some (w, outs)"
    and inv: "src_inv {#} w" by blast
  have "(\<exists>a. rx_token_at (rm_rx (sw_mod w)) a = Some t) \<longleftrightarrow>
      (\<exists>u s. sw_sources w u = Some s \<and> so_sub s \<noteq> None \<and> so_token s = Some t)" for t
    using session_has_source [OF inv, of _ t] source_has_session [OF inv] by fastforce
  moreover have "\<exists>a. so_session s = Some a \<and> rx_token_at (rm_rx (sw_mod w)) a = so_token s"
    if "sw_sources w u = Some s" "so_sub s \<noteq> None" for u s
    using source_has_session [OF inv that] by auto
  ultimately show ?thesis using r one_session_per_token [OF inv] by blast
qed

lemma registry_next:
  "tether_receive_session_release p w = Some (w', o1) \<Longrightarrow> rx_next w' = rx_next w"
  "tether_receive_session_unsubscribe h w = Some (w', o1) \<Longrightarrow> rx_next w' = rx_next w"
  "rx_get env t w = Some (w', q, o1) \<Longrightarrow> rx_next w \<le> rx_next w'"
  "tether_receive_session_subscribe v au st user (Some a) w = Some (w', g, o1) \<Longrightarrow> g = Some (a, rx_next w)"
proof -
  have rel: "tether_receive_session_release p w = Some (w', o1) \<Longrightarrow> rx_next w' = rx_next w" for p w w' o1
    by (auto simp: tether_receive_session_release_def Let_def split: option.splits if_splits)
  then show "tether_receive_session_release p w = Some (w', o1) \<Longrightarrow> rx_next w' = rx_next w" .
  show "tether_receive_session_unsubscribe h w = Some (w', o1) \<Longrightarrow> rx_next w' = rx_next w"
    by (auto simp: tether_receive_session_unsubscribe_def dest!: rel split: option.splits if_splits)
  show "rx_get env t w = Some (w', q, o1) \<Longrightarrow> rx_next w \<le> rx_next w'"
    by (cases env) (auto simp: tether_receive_session_get_def split: option.splits if_splits prod.splits)
  show "tether_receive_session_subscribe v au st user (Some a) w = Some (w', g, o1) \<Longrightarrow> g = Some (a, rx_next w)"
    by (auto simp: tether_receive_session_subscribe_def Let_def split: option.splits)
qed

text \<open>A source that is attached anew gets a subscription at a fresh address.\<close>

lemma attach_fresh:
  assumes "attach_session env me token s m = Some (s', m', outs)" and "so_sub s' = Some (a, i)"
  shows "rx_next (rm_rx m) \<le> i"
proof -
  from assms(1) obtain s1 m1 o1 where d: "drop_subscription s m = Some (s1, m1, o1)"
    by (auto simp: attach_session_def split: option.splits)
  then have sub1: "so_sub s1 = None" and next1: "rx_next (rm_rx m1) = rx_next (rm_rx m)"
    by (auto simp: drop_subscription_def dest: registry_next(2) split: if_splits option.splits)
  from assms d sub1 obtain t o2 where "open_subscription env me t (s1\<lparr>so_token := dup_nonempty token\<rparr>) m1 = Some (s', m', o2)"
    by (auto simp: attach_session_def Let_def split: option.splits)
  with assms(2) sub1 have "rx_next (rm_rx m1) \<le> i"
    by (auto simp: open_subscription_def dest!: registry_next(3,4) split: option.splits)
  with next1 show ?thesis by simp
qed

lemma retarget_fresh:
  assumes inv: "src_inv refs w" and u: "sw_sources w u = Some s" and h: "so_sub s = Some (a, i)"
    and t: "so_token s \<noteq> Some (get_string (ss_token st))"
    and up: "source_update env u st s (sw_mod w) = Some (s', m, outs)"
  shows "so_sub s' \<noteq> Some (a, i)"
proof
  assume s': "so_sub s' = Some (a, i)"
  obtain subs where ok: "rx_ok (rm_rx (sw_mod w)) refs subs" using inv by (auto simp: src_inv_def)
  have "(a, i, u) \<in> rx_users (rm_rx (sw_mod w))" using inv u h by (auto simp: src_inv_def src_users_def)
  then have "(\<lambda>(a, i, u). (a, i)) (a, i, u) \<in> set subs" using rx_users_subs [OF ok] by blast
  then have "i < rx_next (rm_rx (sw_mod w))" using ok by (force simp: rx_ok_def)
  moreover obtain s1 m1 o1 where "attach_session env u (get_string (ss_token st)) s (sw_mod w) = Some (s1, m1, o1)" "so_sub s1 = so_sub s'"
    using up t by (auto simp: source_update_def Let_def split: option.splits if_splits)
  ultimately show False using attach_fresh s' by (metis leD)
qed

text \<open>A subscription that no source has is gone.\<close>

lemma sub_gone:
  assumes inv: "src_inv refs w" and u: "sw_sources w u = Some s" and h: "so_sub s = Some h"
    and inv': "src_inv refs (w\<lparr>sw_mod := m, sw_sources := (sw_sources w)(u := x)\<rparr>)"
    and new: "\<And>s'. x = Some s' \<Longrightarrow> so_sub s' \<noteq> Some h"
  shows "\<not> sub_alive (rm_rx m) h"
proof -
  obtain a i where h': "h = (a, i)" by fastforce
  obtain subs where ok: "rx_ok (rm_rx (sw_mod w)) refs subs" using inv by (auto simp: src_inv_def)
  have "(a, i, v) \<notin> src_users ((sw_sources w)(u := x))" for v
  proof
    assume v: "(a, i, v) \<in> src_users ((sw_sources w)(u := x))"
    then have "v \<noteq> u" using new h' by (auto simp: src_users_def)
    with v have "(a, i, v) \<in> rx_users (rm_rx (sw_mod w))" using inv by (auto simp: src_inv_def src_users_def)
    moreover have "(a, i, u) \<in> rx_users (rm_rx (sw_mod w))" using inv u h h' by (auto simp: src_inv_def src_users_def)
    ultimately show False using rx_users_fun [OF ok] \<open>v \<noteq> u\<close> by blast
  qed
  then show ?thesis using inv' by (simp add: h' alive_iff src_inv_def)
qed

text \<open>C24: A source that is destroyed, or given another token, while a frame for it is in flight: the session
  copied the pointer to the subscription before it let go of its lock, so the call follows freed memory.\<close>

theorem detach_in_flight_crashes:
  fixes decode :: "nat \<Rightarrow> u8 list \<Rightarrow> int \<Rightarrow> int \<times> 'f list"
  assumes inv: "src_inv refs w" and u: "sw_sources w u = Some s" and h: "so_sub s = Some h"
    and fl: "sw_inflight w = (h, out) # rest" and t: "so_token s \<noteq> Some (get_string (ss_token st))"
  shows "src_run [SrcDestroy u, SrcDeliver now rc frames dec decode] w = None \<and>
    src_run [SrcUpdate env u st, SrcDeliver now rc frames dec decode] w = None"
proof
  obtain m outs and so :: "'f source_out list" where d: "source_destroy s (sw_mod w) = Some (m, outs, so)"
    and inv': "src_inv refs (w\<lparr>sw_mod := m, sw_sources := (sw_sources w)(u := None)\<rparr>)"
    by (rule destroy_ok [OF inv u])
  have "\<not> sub_alive (rm_rx m) h" by (rule sub_gone [OF inv u h inv']) simp
  with u d fl show "src_run [SrcDestroy u, SrcDeliver now rc frames dec decode] w = None" by simp
next
  obtain s' m outs where d: "source_update env u st s (sw_mod w) = Some (s', m, outs)"
    and inv': "src_inv refs (w\<lparr>sw_mod := m, sw_sources := (sw_sources w)(u \<mapsto> s')\<rparr>)"
    by (rule update_ok [OF inv u, where env = env and st = st]) blast
  have "so_sub s' \<noteq> Some h" using retarget_fresh [OF inv u _ t d] h by (cases h) simp
  then have "\<not> sub_alive (rm_rx m) h" by (intro sub_gone [OF inv u h inv']) simp
  with u d fl show "src_run [SrcUpdate env u st, SrcDeliver now rc frames dec decode] w = None" by simp
qed

section \<open>Frames\<close>

type_synonym 'f answers = "u64 \<times> int \<times> av_frame list \<times> nat option \<times> (nat \<Rightarrow> u8 list \<Rightarrow> int \<Rightarrow> int \<times> 'f list)"

fun deliver_op :: "'f answers \<Rightarrow> 'f src_op" where
  "deliver_op (now, rc, frames, dec, decode) = SrcDeliver now rc frames dec decode"

text \<open>
  What a source makes of a video packet, stated apart from the code: the sources that show this stream
  (or any) hand it to their decoder with the time 0, and put out every picture the decoder then has, if it
  is in one of the five known formats, with the time of the call; a source that shows another stream or
  has no decoder does nothing.
\<close>

definition shows_stream :: "string option \<Rightarrow> tether_source \<Rightarrow> bool" where
  "shows_stream mid s \<longleftrightarrow> so_video_mid s \<in> {None, Some []} \<or> mid \<in> {None, so_video_mid s}"

definition known_formats :: "(av_pix_fmt \<times> video_format) list" where
  "known_formats = [(AV_PIX_FMT_YUV420P, VIDEO_FORMAT_I420), (AV_PIX_FMT_YUVJ420P, VIDEO_FORMAT_I420),
     (AV_PIX_FMT_NV12, VIDEO_FORMAT_NV12), (AV_PIX_FMT_YUV422P, VIDEO_FORMAT_I422),
     (AV_PIX_FMT_YUV444P, VIDEO_FORMAT_I444)]"

definition picture_planes :: "av_frame \<Rightarrow> (u8 list \<times> u32) list" where
  "picture_planes f = map ((\<lambda>(dat, ls). (dat, word_of_int ls)) \<circ> the) (takeWhile (\<lambda>p. p \<noteq> None) (take 8 (vf_planes f)))"

definition pictures :: "u64 \<Rightarrow> nat \<Rightarrow> av_frame list \<Rightarrow> 'f source_out list" where
  "pictures now src frames =
     [OutputVideo src \<lparr>of_format = the (map_of known_formats (vf_format f)), of_width = word_of_int (vf_width f),
        of_height = word_of_int (vf_height f), of_timestamp = now, of_full_range = vf_jpeg_range f,
        of_planes = picture_planes f\<rparr>. f \<leftarrow> frames, vf_format f \<in> fst ` set known_formats]"

fun shown :: "tether_source \<Rightarrow> u8 list \<Rightarrow> string option \<Rightarrow> 'f answers \<Rightarrow> 'f source_out list" where
  "shown s dat mid (now, rc, frames, dec, decode) =
     (if shows_stream mid s \<and> vd_ctx (so_decoder s)
      then DecodePacket dat 0 # (if 0 \<le> rc \<or> rc = -11 then pictures now (so_source s) frames else [])
      else [])"

lemma copy_planes_picture:
  "copy_planes n ps = map ((\<lambda>(dat, ls). (dat, word_of_int ls)) \<circ> the) (takeWhile (\<lambda>p. p \<noteq> None) (take n ps))"
  by (induction n ps rule: copy_planes.induct) simp_all

lemma pictures_delivered:
  "List.map_filter (\<lambda>f. map_option (OutputVideo src) (deliver_decoded_frame now f 0)) frames = pictures now src frames"
proof (induction frames)
  case (Cons f fs)
  have "deliver_decoded_frame now f 0 =
      (if vf_format f \<in> fst ` set known_formats
       then Some \<lparr>of_format = the (map_of known_formats (vf_format f)), of_width = word_of_int (vf_width f),
         of_height = word_of_int (vf_height f), of_timestamp = now, of_full_range = vf_jpeg_range f,
         of_planes = picture_planes f\<rparr>
       else None)"
    by (cases "vf_format f") (simp_all add: deliver_decoded_frame_def known_formats_def picture_planes_def copy_planes_picture
        MAX_AV_PLANES_def)
  with Cons show ?case by (simp add: pictures_def map_filter_simps)
qed (simp add: pictures_def map_filter_simps)

lemma on_session_video_shown:
  assumes "dat \<noteq> []"
  shows "on_session_video now rc frames s (Some dat) 0 mid = shown s dat mid (now, rc, frames, dec, decode)"
proof -
  have "mid_mismatch (so_video_mid s) mid \<longleftrightarrow> \<not> shows_stream mid s"
    by (cases "so_video_mid s") (auto simp: mid_mismatch_def shows_stream_def)
  then show ?thesis using assms by (simp add: on_session_video_def pictures_delivered AVERROR_EAGAIN_def not_le)
qed

lemma deliver_all:
  fixes answers :: "'f answers list"
  assumes "src_inv refs w" and "sw_inflight w = map (\<lambda>b. ((a, sub_addr b), SubVideo (sub_user b) dat mid)) bs"
    and "\<forall>b \<in> set bs. (a, sub_addr b, sub_user b) \<in> src_users (sw_sources w)" and "length answers = length bs"
    and dat: "dat \<noteq> []"
  shows "src_run (map deliver_op answers) w = Some (w\<lparr>sw_inflight := []\<rparr>,
    concat (map2 (\<lambda>b ans. shown (the (sw_sources w (sub_user b))) dat mid ans) bs answers))"
  using assms
proof (induction bs arbitrary: w answers)
  case Nil
  then have "w\<lparr>sw_inflight := []\<rparr> = w" by simp
  with Nil show ?case by simp
next
  case (Cons b bs)
  then obtain ans rest where ans: "answers = ans # rest" by (cases answers) auto
  obtain now rc frames dec decode where e: "ans = (now, rc, frames, dec, decode)" by (metis prod_cases5)
  let ?q = "map (\<lambda>b. ((a, sub_addr b), SubVideo (sub_user b) dat mid)) bs"
  obtain s where s: "sw_sources w (sub_user b) = Some s" using Cons.prems(3) by (auto simp: src_users_def)
  have alive: "sub_alive (rm_rx (sw_mod w)) (a, sub_addr b)"
    using Cons.prems(1,3) by (auto simp: alive_iff src_inv_def)
  have step: "src_call (deliver_op ans) w = Some (w\<lparr>sw_inflight := ?q\<rparr>, shown s dat mid ans)"
    using Cons.prems(2) alive s on_session_video_shown [OF dat, of now rc frames s mid dec decode]
    by (simp add: e call_target_def fun_upd_idem del: shown.simps)
  have "src_inv refs (w\<lparr>sw_inflight := ?q\<rparr>)" using Cons.prems(1) by (simp add: src_inv_def)
  from Cons.IH [OF this, of rest] Cons.prems(3,4) ans dat
  have "src_run (map deliver_op rest) (w\<lparr>sw_inflight := ?q\<rparr>) = Some (w\<lparr>sw_inflight := []\<rparr>,
      concat (map2 (\<lambda>b ans. shown (the (sw_sources w (sub_user b))) dat mid ans) bs rest))" by simp
  with step s ans show ?case by (simp del: shown.simps)
qed

lemma session_users:
  assumes inv: "src_inv refs w" and s: "rx_heap (rm_rx (sw_mod w)) a = Some s"
  shows "distinct (map sub_user (rx_subs s))"
    and "sub_user ` set (rx_subs s) = {u. \<exists>v. sw_sources w u = Some v \<and> so_session v = Some a}"
    and "b \<in> set (rx_subs s) \<Longrightarrow> (a, sub_addr b, sub_user b) \<in> src_users (sw_sources w)"
proof -
  obtain subs where ok: "rx_ok (rm_rx (sw_mod w)) refs subs" using inv by (auto simp: src_inv_def)
  have us: "rx_users (rm_rx (sw_mod w)) = src_users (sw_sources w)" using inv by (simp add: src_inv_def)
  have mem: "(a, p) \<in> src_users (sw_sources w) \<longleftrightarrow> p \<in> sub_pair ` set (rx_subs s)" for p
    unfolding us [symmetric] using s by (simp add: rx_users_def)
  have inj: "sub_addr b = sub_addr c" if "b \<in> set (rx_subs s)" "c \<in> set (rx_subs s)" "sub_user b = sub_user c" for b c
    using mem [of "sub_pair b"] mem [of "sub_pair c"] that by (auto simp: src_users_def sub_pair_def)
  have d: "distinct (map sub_addr (rx_subs s))" by (rule rx_addrs_distinct [OF ok s])
  then have ia: "inj_on sub_addr (set (rx_subs s))" and "distinct (rx_subs s)" by (simp_all add: distinct_map)
  moreover have "inj_on sub_user (set (rx_subs s))"
    by (rule inj_onI) (rule inj_onD [OF ia inj], assumption+)
  ultimately show "distinct (map sub_user (rx_subs s))" by (simp add: distinct_map)
  have "(\<exists>v. sw_sources w u = Some v \<and> so_session v = Some a) \<longleftrightarrow> (\<exists>i. (a, i, u) \<in> src_users (sw_sources w))" for u
  proof -
    have "source_ok (rm_rx (sw_mod w)) v" if "sw_sources w u = Some v" for v using inv that by (auto simp: src_inv_def)
    then show ?thesis by (fastforce simp: src_users_def source_ok_def split: option.splits)
  qed
  with mem show "sub_user ` set (rx_subs s) = {u. \<exists>v. sw_sources w u = Some v \<and> so_session v = Some a}"
    by (auto simp: sub_pair_def image_iff)
  show "(a, sub_addr b, sub_user b) \<in> src_users (sw_sources w)" if "b \<in> set (rx_subs s)"
    using mem [of "sub_pair b"] that by (simp add: sub_pair_def)
qed

lemma video_frame_outs:
  assumes "find (has_handle tr) (wr_tracks (rx_wrtc s)) = Some e" and "tr_is_video e" and "wc_on_video (wr_cfg (rx_wrtc s))"
    and "dat \<noteq> []" and "\<forall>b \<in> set (rx_subs s). sub_on_video b"
  shows "\<exists>s'. rx_rtc_event now (RtcFrame tr (Some dat) (int (length dat))) s =
    (s', map (\<lambda>b. SubVideo (sub_user b) dat (Some (tr_mid e))) (rx_subs s)) \<and> rx_subs s' = rx_subs s"
proof -
  have "filter sub_on_video (rx_subs s) = rx_subs s" using assms(5) by (induction "rx_subs s") (simp_all add: filter_id_conv)
  with assms show ?thesis
    by (simp add: rx_rtc_event_def on_track_message_def wrtc_video_cb_def remember_mid_locked_def Let_def)
qed

lemma media_calls_map:
  assumes d: "distinct (map sub_user (rx_subs s))"
  shows "media_calls a s (map (\<lambda>b. SubVideo (sub_user b) dat mid) (rx_subs s)) =
    map (\<lambda>b. ((a, sub_addr b), SubVideo (sub_user b) dat mid)) (rx_subs s)"
proof -
  have "media_calls a s (map (\<lambda>b. SubVideo (sub_user b) dat mid) bs) =
      map (\<lambda>b. ((a, sub_addr b), SubVideo (sub_user b) dat mid)) bs" if "set bs \<subseteq> set (rx_subs s)" for bs
    using that
  proof (induction bs)
    case (Cons b bs)
    then have "find (\<lambda>x. sub_user x = sub_user b) (rx_subs s) = Some b" using find_key_unique [OF d] by simp
    with Cons show ?case by (simp add: media_calls_def map_filter_simps call_target_def)
  qed (simp add: media_calls_def map_filter_simps)
  then show ?thesis by simp
qed

text \<open>C13: A video frame that arrives at a session is handed to every source attached to it, to each of them once and to
  no other; a source that shows this stream, or any, decodes it and puts out the pictures of a known format the
  decoder then has, and a source that shows another stream does nothing (\<^const>\<open>shown\<close>).\<close>

theorem frame_reaches_attached_sources:
  fixes answers :: "'f answers list"
  assumes inv: "src_inv refs w" and fl: "sw_inflight w = []" and s: "rx_heap (rm_rx (sw_mod w)) a = Some s"
    and e: "find (has_handle tr) (wr_tracks (rx_wrtc s)) = Some e" "tr_is_video e" "wc_on_video (wr_cfg (rx_wrtc s))"
    and dat: "dat \<noteq> []" and v: "\<forall>b \<in> set (rx_subs s). sub_on_video b" and len: "length answers = length (rx_subs s)"
  shows "\<exists>w'. src_run (SrcRtc a now (RtcFrame tr (Some dat) (int (length dat))) # map deliver_op answers) w =
      Some (w', concat (map2 (\<lambda>u ans. shown (the (sw_sources w u)) dat (Some (tr_mid e)) ans) (map sub_user (rx_subs s)) answers)) \<and>
    sw_sources w' = sw_sources w \<and> sw_inflight w' = [] \<and>
    distinct (map sub_user (rx_subs s)) \<and>
    set (map sub_user (rx_subs s)) = {u. \<exists>v. sw_sources w u = Some v \<and> so_session v = Some a}"
proof -
  note su = session_users [OF inv s]
  from video_frame_outs [OF e dat v, of now] obtain s' where ev: "rx_rtc_event now (RtcFrame tr (Some dat) (int (length dat))) s =
    (s', map (\<lambda>b. SubVideo (sub_user b) dat (Some (tr_mid e))) (rx_subs s))" by blast
  then have core: "rx_core s' = rx_core s" using rx_event_core(2) by (metis fst_conv)
  let ?q = "map (\<lambda>b. ((a, sub_addr b), SubVideo (sub_user b) dat (Some (tr_mid e)))) (rx_subs s)"
  let ?w = "(set_session a s' w)\<lparr>sw_inflight := ?q\<rparr>"
  have "inflight_ok w" by (simp add: inflight_ok_def fl)
  from event_ok(1) [OF inv this s core, where outs = "map (\<lambda>b. SubVideo (sub_user b) dat (Some (tr_mid e))) (rx_subs s)"]
  have inv': "src_inv refs ?w" by (simp add: fl media_calls_map [OF su(1)])
  have src: "sw_sources ?w = sw_sources w" by (simp add: set_session_def)
  have "src_run (map deliver_op answers) ?w = Some (?w\<lparr>sw_inflight := []\<rparr>,
    concat (map2 (\<lambda>b ans. shown (the (sw_sources w (sub_user b))) dat (Some (tr_mid e)) ans) (rx_subs s) answers))"
    using deliver_all [OF inv', of a dat "Some (tr_mid e)" "rx_subs s" answers] su(3) len src dat by (simp del: shown.simps)
  moreover have "src_call (SrcRtc a now (RtcFrame tr (Some dat) (int (length dat)))) w = Some (?w, [] :: 'f source_out list)"
    by (simp only: src_call.simps s ev option.case prod.case fl media_calls_map [OF su(1)] append_Nil)
  moreover have "map2 (\<lambda>u ans. shown (the (sw_sources w u)) dat (Some (tr_mid e)) ans) (map sub_user (rx_subs s)) answers =
      map2 (\<lambda>b ans. shown (the (sw_sources w (sub_user b))) dat (Some (tr_mid e)) ans) (rx_subs s) answers"
    by (simp add: zip_map1 comp_def case_prod_unfold)
  ultimately have "src_run (SrcRtc a now (RtcFrame tr (Some dat) (int (length dat))) # map deliver_op answers) w =
      Some (?w\<lparr>sw_inflight := []\<rparr>,
        concat (map2 (\<lambda>u ans. shown (the (sw_sources w u)) dat (Some (tr_mid e)) ans) (map sub_user (rx_subs s)) answers))"
    by (simp only: src_run.simps option.case prod.case append_Nil)
  then show ?thesis using su(1,2) src by (intro exI [of _ "?w\<lparr>sw_inflight := []\<rparr>"] conjI) (assumption | simp)+
qed

section \<open>Smaller facts\<close>

text \<open>The decoder is made whole or not at all, and its objects are freed once.\<close>

lemma decoder_balanced:
  assumes "init_video_decoder env = (d, ok, o1)" and "release_video_decoder d = (d', o2)"
  shows "ff_allocs (o1 @ o2) = ff_frees (o1 @ o2)" and "d' = no_decoder" and "ok \<longleftrightarrow> vd_ctx d \<and> vd_pkt d \<and> vd_frame d"
    and "\<not> ok \<longleftrightarrow> d = no_decoder"
  using assms by (auto simp: init_video_decoder_def release_video_decoder_def no_decoder_def Let_def split: if_splits)

text \<open>A source whose session could not be made is not attached by a later update with the same token.\<close>

lemma failed_source_stays:
  assumes "so_token s = Some (get_string (ss_token st))" and "so_sub s = None"
  shows "\<exists>s'. source_update env me st s m = Some (s', m, []) \<and> so_sub s' = None"
  using assms by (simp add: source_update_def)

lemma erase_first_append_new: "a \<notin> set xs \<Longrightarrow> erase_first (\<lambda>b. b = a) (xs @ [a]) = xs"
  by (induction xs) auto

text \<open>Opening the property page of a source whose token has no session dials one and hangs up again.\<close>

lemma page_dials:
  assumes ok: "rx_ok rx refs subs" and tok: "get_string (ss_token st) = tok" "tok \<noteq> []"
    and none: "find_session (rx_heap rx) tok (rx_registry rx) = Some None"
    and mk: "session_create_locked env pc ws tok = (Some x, o1)"
  shows "\<exists>vm am. page_mids (env, pc, ws) (Some st) rx =
    Some (rx\<lparr>rx_next := rx_next rx + 1\<rparr>, vm, am, o1 @ session_destroy (x\<lparr>rx_refcount := 0\<rparr>))"
proof -
  have i: "rx_initialised rx" "rx_heap rx (rx_next rx) = None" "rx_next rx \<notin> set (rx_registry rx)"
    using ok by (auto simp: rx_ok_def)
  have "erase_first (\<lambda>b. b = rx_next rx) (rx_registry rx @ [rx_next rx]) = rx_registry rx"
    using erase_first_append_new [OF i(3)] by simp
  moreover have "(rx_heap rx)(rx_next rx := None) = rx_heap rx" using i(2) by (simp add: fun_upd_idem)
  ultimately show ?thesis
    using i tok none mk session_create_facts(2) [OF mk]
    by (simp add: page_mids_def tether_receive_session_get_def tether_receive_session_release_def Let_def)
qed

section \<open>Examples\<close>

definition demo_token :: string where
  "demo_token = ''TTHR-ABCD-EFGH-JKMN''"

definition demo_known :: known_tokens where
  "demo_known = \<lparr>g_entries = [], g_initialised = True, kt_config_path = None, kt_disk = None, kt_dirs = []\<rparr>"

definition demo_dec :: dec_env where
  "demo_dec = \<lparr>de_codec = True, de_context = True, de_open = 0, de_packet = True, de_frame = True\<rparr>"

definition demo_settings :: source_settings where
  "demo_settings = \<lparr>ss_token = Some demo_token, ss_video_mid = None, ss_audio_mid = Some []\<rparr>"

definition demo_source :: tether_source where
  "demo_source = \<lparr>so_source = 30, so_token = Some demo_token, so_video_mid = None, so_audio_mid = None,
     so_session = Some 0, so_sub = Some (0, 1),
     so_audio = Some \<lparr>ar_sample_rate = 48000, ar_channels = 2, ar_tracks = [], ar_bound_source = Some 30\<rparr>,
     so_decoder = \<lparr>vd_ctx = True, vd_pkt = True, vd_frame = True\<rparr>\<rparr>"

definition demo_sub :: rx_subscription where
  "demo_sub = \<lparr>sub_addr = 1, sub_on_video = True, sub_on_audio = True, sub_on_state = True, sub_user = 0\<rparr>"

definition demo_src_world :: source_world where
  "demo_src_world = \<lparr>sw_mod = \<lparr>rm_rx = \<lparr>rx_heap = [0 \<mapsto> demo_rx\<lparr>rx_subs := [demo_sub]\<rparr>], rx_registry = [0],
       rx_initialised = True, rx_next = 2\<rparr>,
     rm_known = demo_known\<lparr>g_entries := [\<lparr>te_token = demo_token, te_name = None\<rparr>]\<rparr>\<rparr>,
     sw_sources = [0 \<mapsto> demo_source], sw_next = 1, sw_inflight = []\<rparr>"

definition demo_create :: "'f src_op" where
  "demo_create = SrcCreate (demo_env, 1, 7) demo_dec demo_settings 30"

lemma demo_get: "\<exists>outs. rx_get (demo_env, 1, 7) (Some demo_token) (rm_rx (sw_mod (sw_start demo_known))) =
    Some (\<lparr>rx_heap = [0 \<mapsto> demo_rx], rx_registry = [0], rx_initialised = True, rx_next = 1\<rparr>, Some 0, outs)"
  using demo_created
  by (auto simp: demo_token_def sw_start_def rx_empty_def tether_receive_session_init_def tether_receive_session_get_def)

lemma demo_attach: "\<exists>outs. attach_session (demo_env, 1, 7) 0 demo_token
    (demo_source\<lparr>so_token := None, so_session := None, so_sub := None\<rparr>) (sw_mod (sw_start demo_known)) =
    Some (demo_source, sw_mod demo_src_world, outs)"
proof -
  obtain outs where g: "rx_get (demo_env, 1, 7) (Some demo_token) (rm_rx (sw_mod (sw_start demo_known))) =
    Some (\<lparr>rx_heap = [0 \<mapsto> demo_rx], rx_registry = [0], rx_initialised = True, rx_next = 1\<rparr>, Some 0, outs)"
    using demo_get by blast
  have k: "fst (tether_known_tokens_add (Some demo_token) demo_known) =
      demo_known\<lparr>g_entries := [\<lparr>te_token = demo_token, te_name = None\<rparr>]\<rparr>"
    by (simp add: tether_known_tokens_add_def demo_known_def demo_token_def save_to_disk_locked_def config_path_def)
  have rc: "demo_rx\<lparr>rx_subs := x, rx_refcount := 1\<rparr> = demo_rx\<lparr>rx_subs := x\<rparr>" for x by (simp add: demo_rx_def)
  have n: "demo_token \<noteq> []" "rx_refcount demo_rx = 1" "rx_subs demo_rx = []" by (simp_all add: demo_token_def demo_rx_def)
  show ?thesis
    using g n k
    by (simp add: rc attach_session_def drop_subscription_def open_subscription_def dup_nonempty_def Let_def demo_source_def
        tether_receive_session_subscribe_def tether_receive_session_release_def demo_src_world_def demo_sub_def sw_start_def)
qed

lemma demo_step: "src_call demo_create (sw_start demo_known) = Some (demo_src_world,
    map SourceFf [FfAlloc FfCodec, FfAlloc FfPacket, FfAlloc FfFrame])"
proof -
  obtain outs where a: "attach_session (demo_env, 1, 7) 0 demo_token
    (demo_source\<lparr>so_token := None, so_session := None, so_sub := None\<rparr>) (sw_mod (sw_start demo_known)) =
    Some (demo_source, sw_mod demo_src_world, outs)" using demo_attach by blast
  have s0: "demo_source\<lparr>so_token := None, so_session := None, so_sub := None\<rparr> =
    \<lparr>so_source = 30, so_token = None, so_video_mid = dup_nonempty (get_string (ss_video_mid demo_settings)),
     so_audio_mid = dup_nonempty (get_string (ss_audio_mid demo_settings)), so_session = None, so_sub = None,
     so_audio = tether_audio_receiver_bind_source (Some 30) (Some (tether_audio_receiver_create 48000 2)),
     so_decoder = \<lparr>vd_ctx = True, vd_pkt = True, vd_frame = True\<rparr>\<rparr>"
    by (simp add: demo_source_def dup_nonempty_def get_string_def demo_settings_def tether_audio_receiver_bind_source_def
        tether_audio_receiver_create_def)
  have d: "init_video_decoder demo_dec = (\<lparr>vd_ctx = True, vd_pkt = True, vd_frame = True\<rparr>, True,
    [FfAlloc FfCodec, FfAlloc FfPacket, FfAlloc FfFrame])"
    by (simp add: init_video_decoder_def demo_dec_def)
  have t: "get_string (ss_token demo_settings) = demo_token" by (simp add: get_string_def demo_settings_def)
  have "source_create (demo_env, 1, 7) demo_dec 0 demo_settings 30 (sw_mod (sw_start demo_known)) =
    Some (demo_source, sw_mod demo_src_world, outs, [FfAlloc FfCodec, FfAlloc FfPacket, FfAlloc FfFrame])"
    using a unfolding s0 by (simp add: source_create_def d t)
  then show ?thesis by (simp add: demo_create_def sw_start_def demo_src_world_def)
qed

lemma demo_inv: "src_inv {#} demo_src_world" "inflight_ok demo_src_world"
proof -
  have "settled (demo_create :: nat src_op) (sw_start demo_known)" by (simp add: settled_def sw_start_def)
  from src_call_well [OF sw_start_ok this] demo_step [where 'a = nat] show "src_inv {#} demo_src_world" "inflight_ok demo_src_world"
    by (auto simp: src_goes_well_def)
qed

lemma sources_mirror_sessions_witness:
  "\<exists>w outs. src_run [demo_create :: nat src_op] (sw_start demo_known) = Some (w, outs) \<and>
    (\<exists>a. rx_token_at (rm_rx (sw_mod w)) a = Some demo_token)"
proof -
  have "orderly [demo_create :: nat src_op] (sw_start demo_known)"
    by (simp add: settled_def sw_start_def split: option.split)
  note th = sources_mirror_sessions [OF this]
  have run: "src_run [demo_create :: nat src_op] (sw_start demo_known) =
      Some (demo_src_world, map SourceFf [FfAlloc FfCodec, FfAlloc FfPacket, FfAlloc FfFrame])" by (simp add: demo_step)
  have "(\<exists>a. rx_token_at (rm_rx (sw_mod demo_src_world)) a = Some demo_token) \<longleftrightarrow>
      (\<exists>u s. sw_sources demo_src_world u = Some s \<and> so_sub s \<noteq> None \<and> so_token s = Some demo_token)"
    using th unfolding run by blast
  moreover have "sw_sources demo_src_world 0 = Some demo_source" "so_sub demo_source \<noteq> None"
    "so_token demo_source = Some demo_token" by (simp_all add: demo_src_world_def demo_source_def)
  ultimately show ?thesis using run by blast
qed

lemma detach_in_flight_crashes_witness:
  "src_run [SrcDestroy 0, SrcDeliver 5 0 [] None (\<lambda>k p m. (0, [] :: nat list))]
     (demo_src_world\<lparr>sw_inflight := [((0, 1), SubVideo 0 [7] None)]\<rparr>) = None \<and>
   src_run [SrcUpdate (demo_env, 2, 8) 0 (demo_settings\<lparr>ss_token := Some ''TTHR-WXYZ-2345-6789''\<rparr>),
      SrcDeliver 5 0 [] None (\<lambda>k p m. (0, [] :: nat list))]
     (demo_src_world\<lparr>sw_inflight := [((0, 1), SubVideo 0 [7] None)]\<rparr>) = None"
proof (rule detach_in_flight_crashes)
  show "src_inv {#} (demo_src_world\<lparr>sw_inflight := [((0, 1), SubVideo 0 [7] None)]\<rparr>)"
    using demo_inv(1) by (simp add: src_inv_def)
  show "sw_sources (demo_src_world\<lparr>sw_inflight := [((0, 1), SubVideo 0 [7] None)]\<rparr>) 0 = Some demo_source"
    by (simp add: demo_src_world_def)
qed (simp_all add: demo_source_def get_string_def demo_token_def)

definition demo_video_track :: track_entry where
  "demo_video_track = \<lparr>tr_handle = 40, tr_track_id = 1, tr_is_video = True, tr_mid = ''v''\<rparr>"

definition demo_picture :: av_frame where
  "demo_picture = \<lparr>vf_format = AV_PIX_FMT_NV12, vf_width = 2, vf_height = 2, vf_jpeg_range = False,
     vf_planes = [Some ([1, 2, 3, 4], 2), Some ([5, 6], 2), None]\<rparr>"

text \<open>A second source of the same session, which shows another stream.\<close>

definition demo_other :: tether_source where
  "demo_other = demo_source\<lparr>so_source := 31, so_video_mid := Some ''camera-2'', so_sub := Some (0, 2)\<rparr>"

definition demo_two :: source_world where
  "demo_two = \<lparr>sw_mod = \<lparr>rm_rx = \<lparr>rx_heap = [0 \<mapsto> demo_rx\<lparr>rx_refcount := 2, rx_subs := [demo_sub, demo_sub\<lparr>sub_addr := 2, sub_user := 1\<rparr>],
         rx_wrtc := (rx_wrtc demo_rx)\<lparr>wr_tracks := [demo_video_track]\<rparr>\<rparr>], rx_registry = [0],
       rx_initialised = True, rx_next = 3\<rparr>, rm_known = demo_known\<rparr>,
     sw_sources = [0 \<mapsto> demo_source, 1 \<mapsto> demo_other], sw_next = 2, sw_inflight = []\<rparr>"

lemma demo_two_inv: "src_inv {#} demo_two"
proof -
  have "rx_ok (rm_rx (sw_mod demo_two)) {#} [(0, 1), (0, 2)]"
    by (simp add: rx_ok_def demo_two_def session_ok_def one_per_token_def demo_sub_def)
  moreover have "rx_users (rm_rx (sw_mod demo_two)) = src_users (sw_sources demo_two)"
    by (auto simp: rx_users_def src_users_def demo_two_def sub_pair_def demo_sub_def demo_source_def demo_other_def split: if_splits)
  ultimately show ?thesis
    by (auto simp: src_inv_def demo_two_def source_ok_def demo_source_def demo_other_def rx_token_at_def demo_token_def demo_rx_def
        split: if_splits)
qed

lemma frame_reaches_attached_sources_witness:
  "\<exists>w'. src_run (SrcRtc 0 9 (RtcFrame 40 (Some [7, 8]) 2) # map deliver_op
      [(9, 0, [demo_picture], None, \<lambda>k p m. (0, [] :: nat list)), (9, 0, [demo_picture], None, \<lambda>k p m. (0, []))]) demo_two =
      Some (w', [DecodePacket [7, 8] 0, OutputVideo 30 \<lparr>of_format = VIDEO_FORMAT_NV12, of_width = 2, of_height = 2,
        of_timestamp = 9, of_full_range = False, of_planes = [([1, 2, 3, 4], 2), ([5, 6], 2)]\<rparr>])"
proof -
  let ?sub = "demo_sub\<lparr>sub_addr := 2, sub_user := 1\<rparr>"
  let ?t = "demo_rx\<lparr>rx_refcount := 2, rx_subs := [demo_sub, ?sub], rx_wrtc := (rx_wrtc demo_rx)\<lparr>wr_tracks := [demo_video_track]\<rparr>\<rparr>"
  let ?ans = "(9, 0, [demo_picture], None, \<lambda>k p m. (0, [] :: nat list)) :: nat answers"
  have w: "sw_inflight demo_two = []" "rx_heap (rm_rx (sw_mod demo_two)) 0 = Some ?t" "sw_sources demo_two 0 = Some demo_source"
    "sw_sources demo_two 1 = Some demo_other"
    by (simp_all add: demo_two_def)
  have tr: "find (has_handle 40) (wr_tracks (rx_wrtc ?t)) = Some demo_video_track" "tr_is_video demo_video_track"
    "wc_on_video (wr_cfg (rx_wrtc ?t))" "([7, 8] :: u8 list) \<noteq> []" "\<forall>b \<in> set (rx_subs ?t). sub_on_video b"
    "length [?ans, ?ans] = length (rx_subs ?t)"
    by (simp_all add: demo_video_track_def has_handle_def demo_rx_def rx_webrtc_config_def demo_sub_def)
  note fr = frame_reaches_attached_sources [OF demo_two_inv w(1,2) tr, of 9]
  have two: "map sub_user (rx_subs ?t) = [0, 1]" "tr_mid demo_video_track = ''v''" by (simp_all add: demo_sub_def demo_video_track_def)
  obtain w' where
    "src_run (SrcRtc 0 9 (RtcFrame 40 (Some [7, 8]) (int (length [7, 8 :: u8]))) # map deliver_op [?ans, ?ans]) demo_two =
      Some (w', shown demo_source [7, 8] (Some ''v'') ?ans @ shown demo_other [7, 8] (Some ''v'') ?ans)"
    using fr unfolding two by (auto simp only: zip_Cons_Cons zip_Nil list.map prod.case w(3,4) option.sel concat.simps append_Nil2)
  moreover have "shown demo_source [7, 8] (Some ''v'') ?ans = [DecodePacket [7, 8] 0, OutputVideo 30 \<lparr>of_format = VIDEO_FORMAT_NV12,
      of_width = 2, of_height = 2, of_timestamp = 9, of_full_range = False, of_planes = [([1, 2, 3, 4], 2), ([5, 6], 2)]\<rparr>]"
    by (simp add: shows_stream_def demo_source_def pictures_def known_formats_def picture_planes_def demo_picture_def)
  moreover have "shown demo_other [7, 8] (Some ''v'') ?ans = []"
    by (simp add: shows_stream_def demo_other_def demo_source_def)
  moreover have "int (length [7, 8 :: u8]) = 2" by simp
  ultimately have "src_run (SrcRtc 0 9 (RtcFrame 40 (Some [7, 8]) 2) # map deliver_op [?ans, ?ans]) demo_two =
      Some (w', [DecodePacket [7, 8] 0, OutputVideo 30 \<lparr>of_format = VIDEO_FORMAT_NV12, of_width = 2, of_height = 2,
        of_timestamp = 9, of_full_range = False, of_planes = [([1, 2, 3, 4], 2), ([5, 6], 2)]\<rparr>])" by (simp only: append_Nil2)
  then show ?thesis by blast
qed
end
