(* ===== verification/Control.thy ===== *)
theory Control
  imports Sender Source
begin

text \<open>
  \<open>src/control.c\<close>: the command socket. A worker thread takes one connection after the other, reads one
  line from it, runs the command and writes one reply. It owns at most one sender, whose callbacks keep
  its list of peers, and one reference to the session of every token it was told to register. The
  answers of the system calls are arguments; the POSIX branch is the one modelled (the Windows one
  is empty).
\<close>

section \<open>State\<close>

record ctrl_peer =
  cp_peer_id :: string
  cp_name :: string
  cp_fingerprint :: string
  cp_state :: int

text \<open>\<open>ct_held\<close> is \<open>g_held_sessions\<close>; the sender's samples are of the type parameter.\<close>

record 'f tether_control =
  ct_stop :: bool
  ct_socket_path :: string
  ct_sender :: "'f tether_sender option"
  ct_current_token :: string
  ct_peers :: "ctrl_peer list"
  ct_held :: "nat list"

section \<open>Callbacks of the sender\<close>

definition on_sender_token :: "string option \<Rightarrow> 'f tether_control \<Rightarrow> 'f tether_control" where
  "on_sender_token token c =
     (case token of None \<Rightarrow> c | Some t \<Rightarrow> c\<lparr>ct_current_token := strncpy_buf 64 t\<rparr>)"

definition on_sender_pending ::
  "string option \<Rightarrow> string option \<Rightarrow> string option \<Rightarrow> 'f tether_control \<Rightarrow> 'f tether_control" where
  "on_sender_pending pid name fp c =
     c\<lparr>ct_peers := ct_peers c @ [\<lparr>cp_peer_id = copy_field 64 pid, cp_name = copy_field 64 name,
        cp_fingerprint = copy_field 160 fp, cp_state = 0\<rparr>]\<rparr>"

definition is_ctrl_peer :: "string \<Rightarrow> ctrl_peer \<Rightarrow> bool" where
  "is_ctrl_peer pid p \<longleftrightarrow> cp_peer_id p = pid"

definition peer_state_code :: "tether_sender_state \<Rightarrow> int" where
  "peer_state_code st = (if st = TETHER_SENDER_STATE_PEER_CONNECTED then 1
     else if st = TETHER_SENDER_STATE_FAILED then 2 else 0)"

definition on_sender_peer_state :: "string \<Rightarrow> tether_sender_state \<Rightarrow> 'f tether_control \<Rightarrow> 'f tether_control" where
  "on_sender_peer_state pid st c =
     c\<lparr>ct_peers := update_first (is_ctrl_peer pid) (\<lambda>p. p\<lparr>cp_state := peer_state_code st\<rparr>) (ct_peers c)\<rparr>"

definition on_sender_peer_gone :: "string \<Rightarrow> 'f tether_control \<Rightarrow> 'f tether_control" where
  "on_sender_peer_gone pid c = c\<lparr>ct_peers := erase_first (is_ctrl_peer pid) (ct_peers c)\<rparr>"

fun ctrl_callback :: "'f sender_out \<Rightarrow> 'f tether_control \<Rightarrow> 'f tether_control" where
  "ctrl_callback (CbToken t) c = on_sender_token (Some t) c"
| "ctrl_callback (CbPending i n f) c = on_sender_pending (Some i) (Some n) (Some f) c"
| "ctrl_callback (CbPeerState i st) c = on_sender_peer_state i st c"
| "ctrl_callback (CbPeerGone i) c = on_sender_peer_gone i c"
| "ctrl_callback out c = c"

definition state_word :: "int \<Rightarrow> string" where
  "state_word st = (if st = 0 then ''waiting'' else if st = 1 then ''connected'' else if st = 2 then ''failed''
     else ''unknown'')"

section \<open>Writing\<close>

text \<open>An answer of \<open>write\<close>: up to so many bytes are taken, it was interrupted, or it failed.\<close>

datatype write_result = Wrote nat | WriteInterrupted | WriteError

text \<open>
  The bytes that went out, and the result, for as many answers as the loop asked for: \<^const>\<open>None\<close>
  when it still waits for one.
\<close>

fun write_all :: "write_result list \<Rightarrow> string \<Rightarrow> string \<times> int option \<times> write_result list" where
  "write_all rs [] = ([], Some 0, rs)"
| "write_all [] (b # bs) = ([], None, [])"
| "write_all (Wrote n # rs) (b # bs) =
     (case write_all rs (drop n (b # bs)) of (out, rc, rest) \<Rightarrow> (take n (b # bs) @ out, rc, rest))"
| "write_all (WriteInterrupted # rs) (b # bs) = write_all rs (b # bs)"
| "write_all (WriteError # rs) (b # bs) = ([], Some (-1), rs)"

text \<open>The text of the reply and the newline that is added when it has none.\<close>

definition newline :: char where
  "newline = CHR 0x0A"

definition reply_chunks :: "string \<Rightarrow> string list" where
  "reply_chunks s = s # (if last s \<noteq> newline then [[newline]] else [])"

text \<open>The results of the writes are ignored.\<close>

fun reply :: "write_result list \<Rightarrow> string list \<Rightarrow> string" where
  "reply rs [] = []"
| "reply rs (s # ss) = (case write_all rs s of (out, rc, rest) \<Rightarrow> if rc = None then out else out @ reply rest ss)"

section \<open>Commands on the sender\<close>

text \<open>
  What the libraries and the clock return during one command, and which events of the sender happen
  during each 100 ms the command sleeps.
\<close>

record ctrl_env =
  cv_sender :: sender_env
  cv_ws :: int
  cv_session :: session_env
  cv_rx :: rx_env
  cv_polls :: "nat \<Rightarrow> sn_op list"

text \<open>\<open>strtok_r\<close> with one delimiter: the non-empty pieces.\<close>

fun strtok :: "char \<Rightarrow> string \<Rightarrow> string \<Rightarrow> string list" where
  "strtok d acc [] = (if acc = [] then [] else [rev acc])"
| "strtok d acc (c # s) =
     (if c = d then (if acc = [] then strtok d [] s else rev acc # strtok d [] s) else strtok d (c # acc) s)"

text \<open>The video and the audio sources of \<open>sender-create\<close>.\<close>

definition parse_sources :: "string \<Rightarrow> string list \<times> string list" where
  "parse_sources args =
     (case strchr args (CHR 0x7C) of
        Some e \<Rightarrow> (strtok (CHR 0x2C) [] (takeWhile (\<lambda>c. c \<noteq> CHR 0x7C) args), strtok (CHR 0x2C) [] (tl e))
      | None \<Rightarrow>
          (let v = strtok (CHR 0x2C) [] args in
           if 1 < length v then (take 1 v, drop 1 v) else (v, [])))"

definition control_sender_config :: "string list \<Rightarrow> string list \<Rightarrow> tether_sender_config" where
  "control_sender_config v a =
     \<lparr>sd_server_url = None, sd_stun_url = None, sd_turn_url = None, sd_turn_username = None, sd_turn_credential = None,
      sd_source_name = None, sd_video_source_names = Some v, sd_audio_source_names = Some a,
      sd_video_bitrate_kbps = 6000, sd_max_receivers = 4, sd_token_ttl_minutes = 30, sd_reusable_token = True,
      sd_twitch_st_mode = False\<rparr>"

definition control_callbacks :: tether_sender_callbacks where
  "control_callbacks = \<lparr>cb_on_token = True, cb_on_pending = True, cb_on_peer_state = True, cb_on_peer_gone = True\<rparr>"

text \<open>Events of the sender and the callbacks they make.\<close>

definition sender_events :: "sn_op list \<Rightarrow> 'f tether_control \<Rightarrow> 'f tether_control option" where
  "sender_events ops c =
     (case ct_sender c of
        None \<Rightarrow> Some c
      | Some s \<Rightarrow>
          (case sn_run ops s of
             None \<Rightarrow> None
           | Some (s', outs) \<Rightarrow> Some (fold ctrl_callback outs (c\<lparr>ct_sender := Some s'\<rparr>))))"

text \<open>The loop that waits for the token: \<open>n\<close> rounds are left, \<open>i\<close> are done.\<close>

fun wait_for_token :: "(nat \<Rightarrow> sn_op list) \<Rightarrow> nat \<Rightarrow> nat \<Rightarrow> 'f tether_control \<Rightarrow> 'f tether_control option" where
  "wait_for_token polls 0 i c = Some c"
| "wait_for_token polls (Suc n) i c =
     (case sender_events (polls i) c of
        None \<Rightarrow> None
      | Some c' \<Rightarrow> if ct_current_token c' \<noteq> [] then Some c' else wait_for_token polls n (i + 1) c')"

definition em_dash :: string where
  "em_dash = [CHR 0xE2, CHR 0x80, CHR 0x94]"

definition cmd_sender_create ::
  "ctrl_env \<Rightarrow> string option \<Rightarrow> 'f tether_control \<Rightarrow> ('f tether_control \<times> string) option" where
  "cmd_sender_create env args c =
     (if ct_sender c \<noteq> None
      then Some (c, ''ERR sender already running '' @ em_dash @ '' call sender-revoke first'')
      else if \<not> nonempty_str args then Some (c, ''ERR missing source name'')
      else case parse_sources (the args) of
        (v, a) \<Rightarrow>
          if v = [] then Some (c, ''ERR missing video source'')
          else case tether_sender_create (cv_sender env) (cv_ws env) (Some (control_sender_config v a))
              (Some control_callbacks) of
            (None, outs) \<Rightarrow> Some (fold ctrl_callback outs c, ''ERR sender create failed'')
          | (Some s, outs) \<Rightarrow>
              map_option (\<lambda>c'. (c', if ct_current_token c' \<noteq> [] then ''OK token='' @ ct_current_token c'
                                    else ''ERR token not yet issued (timeout)''))
                (wait_for_token (cv_polls env) 50 0 (fold ctrl_callback outs (c\<lparr>ct_sender := Some s\<rparr>))))"

fun join_with :: "string \<Rightarrow> string list \<Rightarrow> string" where
  "join_with sep [] = []"
| "join_with sep [x] = x"
| "join_with sep (x # y # ys) = x @ sep @ join_with sep (y # ys)"

definition peer_line :: "ctrl_peer \<Rightarrow> string" where
  "peer_line p = cp_peer_id p @ '':'' @ state_word (cp_state p) @ '':'' @ cp_name p"

definition cmd_sender_status :: "'f tether_control \<Rightarrow> string" where
  "cmd_sender_status c =
     ''OK token='' @ (if ct_current_token c \<noteq> [] then ct_current_token c else ''-'') @ '' peers='' @
     join_with '','' (map peer_line (ct_peers c))"

text \<open>A call of the sender with the callbacks it makes.\<close>

definition with_sender ::
  "('f tether_sender \<Rightarrow> 'f tether_sender \<times> 'f sender_out list) \<Rightarrow> 'f tether_sender \<Rightarrow> 'f tether_control \<Rightarrow>
   'f tether_control" where
  "with_sender f s c = (case f s of (s', outs) \<Rightarrow> fold ctrl_callback outs (c\<lparr>ct_sender := Some s'\<rparr>))"

definition cmd_sender_accept ::
  "ctrl_env \<Rightarrow> string option \<Rightarrow> 'f tether_control \<Rightarrow> 'f tether_control \<times> string" where
  "cmd_sender_accept env args c =
     (case ct_sender c of
        None \<Rightarrow> (c, ''ERR no sender'')
      | Some s \<Rightarrow>
          if \<not> nonempty_str args then (c, ''ERR missing peer_id'')
          else (with_sender (\<lambda>s. tether_sender_accept (cv_session env) s args True) s c, ''OK accepted '' @ the args))"

definition cmd_sender_reject ::
  "ctrl_env \<Rightarrow> string option \<Rightarrow> 'f tether_control \<Rightarrow> 'f tether_control \<times> string" where
  "cmd_sender_reject env args c =
     (case ct_sender c of
        None \<Rightarrow> (c, ''ERR no sender'')
      | Some s \<Rightarrow>
          if \<not> nonempty_str args then (c, ''ERR missing peer_id'')
          else (with_sender (\<lambda>s. tether_sender_reject (cv_session env) s args) s c, ''OK rejected '' @ the args))"

definition cmd_sender_disconnect ::
  "ctrl_env \<Rightarrow> string option \<Rightarrow> 'f tether_control \<Rightarrow> 'f tether_control \<times> string" where
  "cmd_sender_disconnect env args c =
     (case ct_sender c of
        None \<Rightarrow> (c, ''ERR no sender'')
      | Some s \<Rightarrow>
          if \<not> nonempty_str args then (c, ''ERR missing peer_id'')
          else (with_sender (\<lambda>s. tether_sender_disconnect_peer (cv_session env) s args) s c,
                ''OK disconnected '' @ the args))"

definition cmd_sender_revoke :: "ctrl_env \<Rightarrow> 'f tether_control \<Rightarrow> 'f tether_control \<times> string" where
  "cmd_sender_revoke env c =
     (case ct_sender c of
        None \<Rightarrow> (c, ''ERR no sender'')
      | Some s \<Rightarrow>
          (case tether_sender_revoke_token s of
             (s1, o1) \<Rightarrow>
               (case tether_sender_release (cv_sender env) (Some s1) of
                  (s2, o2) \<Rightarrow>
                    ((fold ctrl_callback (o1 @ o2) c)\<lparr>ct_sender := None, ct_current_token := [], ct_peers := []\<rparr>,
                     ''OK revoked''))))"

section \<open>Commands on the receive sessions\<close>

fun rx_state_word :: "tether_receive_state \<Rightarrow> string" where
  "rx_state_word TETHER_RX_STATE_CONNECTING = ''connecting''"
| "rx_state_word TETHER_RX_STATE_AWAITING_ACCEPT = ''awaiting-accept''"
| "rx_state_word TETHER_RX_STATE_ACCEPTED = ''accepted''"
| "rx_state_word TETHER_RX_STATE_NEGOTIATING = ''negotiating''"
| "rx_state_word TETHER_RX_STATE_CONNECTED = ''connected''"
| "rx_state_word TETHER_RX_STATE_FAILED = ''failed''"
| "rx_state_word TETHER_RX_STATE_CLOSED = ''closed''"

definition cmd_receive_register ::
  "ctrl_env \<Rightarrow> string option \<Rightarrow> 'f tether_control \<times> rx_modules \<Rightarrow> (('f tether_control \<times> rx_modules) \<times> string) option" where
  "cmd_receive_register env args cm =
     (case cm of (c, m) \<Rightarrow>
        if \<not> nonempty_str args then Some ((c, m), ''ERR missing token'')
        else
          let m1 = m\<lparr>rm_known := fst (tether_known_tokens_add args (rm_known m))\<rparr> in
          case rx_get (cv_rx env) args (rm_rx m1) of
            None \<Rightarrow> None
          | Some (w, None, outs) \<Rightarrow> Some ((c, m1\<lparr>rm_rx := w\<rparr>), ''ERR session create failed'')
          | Some (w, Some a, outs) \<Rightarrow>
              (case rx_heap w a of
                 None \<Rightarrow> None
               | Some s \<Rightarrow>
                   Some ((c\<lparr>ct_held := ct_held c @ [a]\<rparr>, m1\<lparr>rm_rx := w\<rparr>),
                     ''OK registered '' @ the args @ '' state='' @
                     rx_state_word (tether_receive_session_state (Some s)))))"

definition session_line :: "rx_session \<Rightarrow> string" where
  "session_line s = the (tether_receive_session_token (Some s)) @ '':'' @
     rx_state_word (tether_receive_session_state (Some s))"

text \<open>The callback of the enumeration runs on the sessions the registry listed.\<close>

definition cmd_receive_status :: "rx_modules \<Rightarrow> (rx_modules \<times> string) option" where
  "cmd_receive_status m =
     (case tether_receive_session_enumerate True (rm_rx m) of
        None \<Rightarrow> None
      | Some (w, as, outs) \<Rightarrow>
          Some (m\<lparr>rm_rx := w\<rparr>,
            ''OK sessions='' @ join_with '','' (map (\<lambda>a. session_line (the (rx_heap (rm_rx m) a))) as)))"

text \<open>The loop that drops the references to the sessions of a token, from the last to the first.\<close>

fun forget_held :: "string \<Rightarrow> nat list \<Rightarrow> rx_world \<Rightarrow> (nat list \<times> rx_world \<times> rx_out list) option" where
  "forget_held t [] w = Some ([], w, [])"
| "forget_held t (a # as) w =
     (case rx_heap w a of
        None \<Rightarrow> None
      | Some s \<Rightarrow>
          if tether_receive_session_token (Some s) = Some t
          then (case tether_receive_session_release (Some a) w of
                  None \<Rightarrow> None
                | Some (w1, o1) \<Rightarrow>
                    (case forget_held t as w1 of
                       None \<Rightarrow> None
                     | Some (keep, w2, o2) \<Rightarrow> Some (keep, w2, o1 @ o2)))
          else (case forget_held t as w of
                  None \<Rightarrow> None
                | Some (keep, w2, o2) \<Rightarrow> Some (a # keep, w2, o2)))"

definition cmd_receive_forget ::
  "string option \<Rightarrow> 'f tether_control \<times> rx_modules \<Rightarrow> (('f tether_control \<times> rx_modules) \<times> string) option" where
  "cmd_receive_forget args cm =
     (case cm of (c, m) \<Rightarrow>
        if \<not> nonempty_str args then Some ((c, m), ''ERR missing token'')
        else
          let m1 = m\<lparr>rm_known := fst (tether_known_tokens_remove args (rm_known m))\<rparr> in
          case forget_held (the args) (rev (ct_held c)) (rm_rx m1) of
            None \<Rightarrow> None
          | Some (keep, w, outs) \<Rightarrow>
              Some ((c\<lparr>ct_held := rev keep\<rparr>, m1\<lparr>rm_rx := w\<rparr>), ''OK forgot '' @ the args))"

section \<open>Lines\<close>

definition trailing :: "char \<Rightarrow> bool" where
  "trailing c \<longleftrightarrow> c = CHR 0x0A \<or> c = CHR 0x0D \<or> c = CHR 0x20"

text \<open>The line without its trailing blanks, and the word before the first space with what follows it.\<close>

definition strip_line :: "string \<Rightarrow> string" where
  "strip_line line = rev (dropWhile trailing (rev line))"

definition split_command :: "string \<Rightarrow> string \<times> string option" where
  "split_command line =
     (case strchr line (CHR 0x20) of
        None \<Rightarrow> (line, None)
      | Some e \<Rightarrow> (takeWhile (\<lambda>c. c \<noteq> CHR 0x20) line, Some (tl e)))"

definition on_control ::
  "'f tether_control \<times> string \<Rightarrow> rx_modules \<Rightarrow> (('f tether_control \<times> rx_modules) \<times> string) option" where
  "on_control r m = Some ((fst r, m), snd r)"

definition dispatch ::
  "ctrl_env \<Rightarrow> string \<Rightarrow> 'f tether_control \<times> rx_modules \<Rightarrow> (('f tether_control \<times> rx_modules) \<times> string) option" where
  "dispatch env line cm =
     (case (cm, split_command (strip_line line)) of
        ((c, m), (cmd, args)) \<Rightarrow>
          if cmd = ''sender-create'' then map_option (\<lambda>(c', r). ((c', m), r)) (cmd_sender_create env args c)
          else if cmd = ''sender-status'' then on_control (c, cmd_sender_status c) m
          else if cmd = ''sender-accept'' then on_control (cmd_sender_accept env args c) m
          else if cmd = ''sender-reject'' then on_control (cmd_sender_reject env args c) m
          else if cmd = ''sender-disconnect'' then on_control (cmd_sender_disconnect env args c) m
          else if cmd = ''sender-revoke'' then on_control (cmd_sender_revoke env c) m
          else if cmd = ''receive-register'' then cmd_receive_register env args (c, m)
          else if cmd = ''receive-status'' then map_option (\<lambda>(m', r). ((c, m'), r)) (cmd_receive_status m)
          else if cmd = ''receive-forget'' then cmd_receive_forget args (c, m)
          else if cmd = ''ping'' then Some ((c, m), ''OK pong'')
          else Some ((c, m), ''ERR unknown command '' @ [CHR 0x27] @ cmd @ [CHR 0x27]))"

section \<open>Connections\<close>

text \<open>
  What the worker's thread sees: an answer of \<open>accept\<close>, which is a connection with the bytes one \<open>read\<close> gives
  (\<^const>\<open>None\<close> when it fails), the answers to the writes and what happens during the command, or an
  interruption, or a failure; and, while it waits for the next connection, events of the sender, whose
  callbacks change the list of peers from other threads.
\<close>

datatype worker_event =
    Accepted "string option" "write_result list" ctrl_env
  | AcceptAgain
  | AcceptFailed
  | SenderActs "sn_op list"

definition CTRL_BUF :: nat where
  "CTRL_BUF = 2048"

text \<open>The buffer as a C string: what was read, up to a NUL byte.\<close>

definition line_of :: "string \<Rightarrow> string" where
  "line_of msg = takeWhile (\<lambda>c. c \<noteq> NUL) (take (CTRL_BUF - 1) msg)"

definition serve ::
  "string option \<Rightarrow> write_result list \<Rightarrow> ctrl_env \<Rightarrow> 'f tether_control \<times> rx_modules \<Rightarrow>
   (('f tether_control \<times> rx_modules) \<times> string) option" where
  "serve msg rs env cm =
     (if \<not> nonempty_str msg then Some (cm, [])
      else case dispatch env (line_of (the msg)) cm of
        None \<Rightarrow> None
      | Some (cm', r) \<Rightarrow> Some (cm', reply rs (reply_chunks r)))"

text \<open>The worker: what it sent, connection by connection.\<close>

fun worker :: "worker_event list \<Rightarrow> 'f tether_control \<times> rx_modules \<Rightarrow> (('f tether_control \<times> rx_modules) \<times> string list) option" where
  "worker [] cm = Some (cm, [])"
| "worker (SenderActs ops # xs) cm =
     (case sender_events ops (fst cm) of None \<Rightarrow> None | Some c \<Rightarrow> worker xs (c, snd cm))"
| "worker (AcceptAgain # xs) cm = (if ct_stop (fst cm) then Some (cm, []) else worker xs cm)"
| "worker (AcceptFailed # xs) cm = Some (cm, [])"
| "worker (Accepted msg rs env # xs) cm =
     (if ct_stop (fst cm) then Some (cm, [])
      else case serve msg rs env cm of
        None \<Rightarrow> None
      | Some (cm1, out) \<Rightarrow>
          (case worker xs cm1 of None \<Rightarrow> None | Some (cm2, outs) \<Rightarrow> Some (cm2, out # outs)))"

section \<open>Start and end\<close>

datatype ctrl_sys =
    SysUnlink string
  | SysSocket
  | SysBind string
  | SysListen
  | SysClose
  | SysThread
  | SysShutdown
  | SysJoin

text \<open>The environment variables, the process id and the results of the system calls.\<close>

record init_env =
  ie_control :: "string option"
  ie_socket :: "string option"
  ie_pid :: int
  ie_socket_rc :: int
  ie_bind :: int
  ie_listen :: int

definition SUN_PATH_SIZE :: nat where
  "SUN_PATH_SIZE = 108"

definition socket_path_of :: "init_env \<Rightarrow> string" where
  "socket_path_of env = strncpy_buf 128 (if nonempty_str (ie_socket env) then the (ie_socket env)
     else ''/tmp/tether-'' @ show_int (ie_pid env) @ ''.sock'')"

definition new_control :: "string \<Rightarrow> 'f tether_control" where
  "new_control path = \<lparr>ct_stop = False, ct_socket_path = path, ct_sender = None, ct_current_token = [], ct_peers = [],
     ct_held = []\<rparr>"

definition tether_control_init :: "init_env \<Rightarrow> 'f tether_control option \<times> ctrl_sys list" where
  "tether_control_init env =
     (if ie_control env \<noteq> Some ''1'' then (None, [])
      else let path = socket_path_of env in
        if ie_socket_rc env < 0 then (None, [SysUnlink path, SysSocket])
        else if ie_bind env < 0
        then (None, [SysUnlink path, SysSocket, SysBind (strncpy_buf SUN_PATH_SIZE path), SysClose])
        else if ie_listen env < 0
        then (None, [SysUnlink path, SysSocket, SysBind (strncpy_buf SUN_PATH_SIZE path), SysListen, SysClose, SysUnlink path])
        else (Some (new_control path),
              [SysUnlink path, SysSocket, SysBind (strncpy_buf SUN_PATH_SIZE path), SysListen, SysThread]))"

text \<open>
  Where the worker's thread is when the plugin is unloaded: it has no client and waits in \<open>accept\<close> (or has
  ended), which the shutdown of the listening socket ends; or it waits in \<open>read\<close> for a client that connected:
  one that never sends anything, or one that sends a line (or closes), with what follows.
\<close>

datatype worker_place =
    InAccept
  | InRead "(string option \<times> write_result list \<times> ctrl_env) option"

text \<open>A loop over the chunks of a reply that waits for a \<open>write\<close> without end: the client does not take its bytes.\<close>

fun reply_waits :: "write_result list \<Rightarrow> string list \<Rightarrow> bool" where
  "reply_waits rs [] \<longleftrightarrow> False"
| "reply_waits rs (s # ss) \<longleftrightarrow> (case write_all rs s of (out, rc, rest) \<Rightarrow> rc = None \<or> reply_waits rest ss)"

definition serve_waits :: "string option \<Rightarrow> write_result list \<Rightarrow> ctrl_env \<Rightarrow> 'f tether_control \<times> rx_modules \<Rightarrow> bool" where
  "serve_waits msg rs env cm \<longleftrightarrow> nonempty_str msg \<and>
     (case dispatch env (line_of (the msg)) cm of None \<Rightarrow> False | Some (cm', r) \<Rightarrow> reply_waits rs (reply_chunks r))"

text \<open>A call that returns, or that waits for ever.\<close>

datatype 'a outcome = Returned 'a | NeverReturns

text \<open>\<open>pthread_join\<close>: the thread finishes with its client first.\<close>

definition join_worker ::
  "worker_place \<Rightarrow> 'f tether_control \<times> rx_modules \<Rightarrow> ('f tether_control \<times> rx_modules) outcome option" where
  "join_worker place cm =
     (case place of
        InAccept \<Rightarrow> Some (Returned cm)
      | InRead None \<Rightarrow> Some NeverReturns
      | InRead (Some (msg, rs, env)) \<Rightarrow>
          (case serve msg rs env cm of
             None \<Rightarrow> None
           | Some (cm1, out) \<Rightarrow> Some (if serve_waits msg rs env cm then NeverReturns else Returned cm1)))"

definition tether_control_shutdown ::
  "sender_env \<Rightarrow> worker_place \<Rightarrow> 'f tether_control option \<Rightarrow> rx_modules \<Rightarrow>
   ('f tether_control option \<times> rx_modules \<times> ctrl_sys list \<times> 'f sender_out list) outcome option" where
  "tether_control_shutdown env place ctrl m =
     (case ctrl of
        None \<Rightarrow> Some (Returned (None, m, [], []))
      | Some c0 \<Rightarrow>
          (case join_worker place (c0\<lparr>ct_stop := True\<rparr>, m) of
             None \<Rightarrow> None
           | Some NeverReturns \<Rightarrow> Some NeverReturns
           | Some (Returned (c, m1)) \<Rightarrow>
               (case release_all (ct_held c) (rm_rx m1) of
                  None \<Rightarrow> None
                | Some (w, outs) \<Rightarrow>
                    Some (Returned (None, m1\<lparr>rm_rx := w\<rparr>, [SysShutdown, SysClose, SysJoin, SysUnlink (ct_socket_path c)],
                      if ct_sender c = None then [] else snd (tether_sender_release env (ct_sender c)))))))"

section \<open>Replies\<close>

definition answered :: "string \<Rightarrow> bool" where
  "answered r \<longleftrightarrow> starts_with ''OK '' r \<or> starts_with ''ERR '' r"

lemma answeredI [simp]: "answered (CHR ''O'' # CHR ''K'' # CHR '' '' # r)"
  "answered (CHR ''E'' # CHR ''R'' # CHR ''R'' # CHR '' '' # r)"
  by (simp_all add: answered_def)

definition progress :: "write_result list \<Rightarrow> nat" where
  "progress rs = length (filter (\<lambda>x. case x of Wrote n \<Rightarrow> 0 < n | _ \<Rightarrow> False) rs)"

lemma progress_simps [simp]:
  "progress [] = 0" "progress (Wrote n # rs) = (if 0 < n then 1 else 0) + progress rs"
  "progress (WriteInterrupted # rs) = progress rs" "progress (WriteError # rs) = progress rs"
  by (simp_all add: progress_def)

lemma write_all_prefix: "write_all rs bs = (out, rc, rest) \<Longrightarrow> \<exists>k. out = take k bs \<and> (rc = Some 0 \<longrightarrow> out = bs)"
proof (induction rs bs arbitrary: out rule: write_all.induct)
  case (3 n rs b bs)
  obtain o1 where o1: "write_all rs (drop n (b # bs)) = (o1, rc, rest)" and out: "out = take n (b # bs) @ o1"
    using "3.prems" by (auto split: prod.splits)
  from "3.IH" [OF o1] obtain k where k: "o1 = take k (drop n (b # bs))" "rc = Some 0 \<longrightarrow> o1 = drop n (b # bs)" by blast
  have "out = take (n + k) (b # bs)" using out k by (simp add: take_add)
  moreover have "rc = Some 0 \<longrightarrow> out = b # bs" using out k by auto
  ultimately show ?case by blast
qed (auto intro: exI [of _ 0])

lemma write_all_done:
  "WriteError \<notin> set rs \<Longrightarrow> length bs \<le> progress rs \<Longrightarrow>
    \<exists>rest. write_all rs bs = (bs, Some 0, rest) \<and> WriteError \<notin> set rest \<and> progress rs \<le> progress rest + length bs"
proof (induction rs bs rule: write_all.induct)
  case (3 n rs b bs)
  have len: "length (drop n (b # bs)) \<le> progress rs" using "3.prems"(2) by (cases n) auto
  from "3.IH" [OF _ len] "3.prems"(1) obtain rest where w: "write_all rs (drop n (b # bs)) = (drop n (b # bs), Some 0, rest)"
    "WriteError \<notin> set rest" "progress rs \<le> progress rest + length (drop n (b # bs))" by auto
  have "write_all (Wrote n # rs) (b # bs) = (take n (b # bs) @ drop n (b # bs), Some 0, rest)" by (simp add: w(1))
  then have "write_all (Wrote n # rs) (b # bs) = (b # bs, Some 0, rest)" by simp
  moreover have "progress (Wrote n # rs) \<le> progress rest + length (b # bs)" using w(3) by (cases n) auto
  ultimately show ?case using w(2) by blast
qed auto

text \<open>C27: Writing to a client ends and delivers: whatever the system answers, what went out is a prefix of the text, and all
  of it when the loop reports success; and the loop ends in success after at most as many writes that take something as
  there are bytes, however many are cut short or interrupted in between.\<close>

theorem write_all_delivers:
  shows "(\<forall>out rc rest. write_all rs bs = (out, rc, rest) \<longrightarrow> (\<exists>k. out = take k bs) \<and> (rc = Some 0 \<longrightarrow> out = bs)) \<and>
    (WriteError \<notin> set rs \<longrightarrow> length bs \<le> progress rs \<longrightarrow>
      (\<exists>rest. write_all rs bs = (bs, Some 0, rest) \<and> progress rs \<le> progress rest + length bs))"
  using write_all_prefix [of rs bs] write_all_done [of rs bs] by blast

lemma write_all_delivers_witness:
  "\<exists>rest. write_all [Wrote 1, WriteInterrupted, Wrote 1, Wrote 1] ''pin'' = (''pin'', Some 0, rest)"
proof -
  have "WriteError \<notin> set [Wrote 1, WriteInterrupted, Wrote 1, Wrote 1]"
    "length ''pin'' \<le> progress [Wrote 1, WriteInterrupted, Wrote 1, Wrote 1]" by simp_all
  with write_all_delivers [of "[Wrote 1, WriteInterrupted, Wrote 1, Wrote 1]" "''pin''"] show ?thesis by blast
qed

lemma reply_done:
  "WriteError \<notin> set rs \<Longrightarrow> length (concat ss) \<le> progress rs \<Longrightarrow> reply rs ss = concat ss"
proof (induction ss arbitrary: rs)
  case (Cons s ss)
  from write_all_done [OF Cons.prems(1), of s] Cons.prems(2) obtain rest where
    "write_all rs s = (s, Some 0, rest)" "WriteError \<notin> set rest" "progress rs \<le> progress rest + length s" by auto
  with Cons show ?case by simp
qed simp

lemma answered_nonempty: "answered r \<Longrightarrow> r \<noteq> []"
  by (auto simp: answered_def)

lemma chunks_text: "answered r \<Longrightarrow> concat (reply_chunks r) = (if last r = newline then r else r @ [newline])"
  by (simp add: reply_chunks_def)

section \<open>Parsing the sources\<close>

text \<open>A name that can be named on the command line.\<close>

definition plain_name :: "string \<Rightarrow> bool" where
  "plain_name n \<longleftrightarrow> n \<noteq> [] \<and> CHR 0x2C \<notin> set n \<and> CHR 0x7C \<notin> set n \<and> NUL \<notin> set n \<and> \<not> trailing (last n)"

lemma strtok_rest: "d \<notin> set n \<Longrightarrow> strtok d acc (n @ s) = strtok d (rev n @ acc) s"
  by (induction n arbitrary: acc) auto

lemma strtok_name: "d \<notin> set n \<Longrightarrow> n \<noteq> [] \<Longrightarrow> strtok d [] (n @ d # s) = n # strtok d [] s"
  using strtok_rest [of d n "[]" "d # s"] by simp

lemma strtok_last: "d \<notin> set n \<Longrightarrow> n \<noteq> [] \<Longrightarrow> strtok d [] n = [n]"
  using strtok_rest [of d n "[]" "[]"] by simp

lemma strtok_join: "\<forall>n \<in> set ns. n \<noteq> [] \<and> d \<notin> set n \<Longrightarrow> strtok d [] (join_with [d] ns) = ns"
proof (induction "[d]" ns rule: join_with.induct)
  case (3 x y ys)
  then show ?case by (simp add: strtok_name)
qed (auto simp: strtok_last)

lemma join_chars: "c \<in> set (join_with [d] ns) \<Longrightarrow> c = d \<or> (\<exists>n \<in> set ns. c \<in> set n)"
  by (induction "[d]" ns rule: join_with.induct) auto

lemma join_last: "ns \<noteq> [] \<Longrightarrow> \<forall>n \<in> set ns. n \<noteq> [] \<Longrightarrow> last (join_with sep ns) = last (last ns) \<and> join_with sep ns \<noteq> []"
proof (induction sep ns rule: join_with.induct)
  case (3 sep x y ys)
  then have "last (join_with sep (y # ys)) = last (last (y # ys)) \<and> join_with sep (y # ys) \<noteq> []" by simp
  then show ?case by simp
qed auto

text \<open>A command with its arguments, as the dispatcher finds it in the buffer.\<close>

lemma command_line_read:
  assumes "CHR 0x20 \<notin> set cmd" and "NUL \<notin> set cmd" and "NUL \<notin> set args" and "args \<noteq> []" and "\<not> trailing (last args)"
    and "length cmd + length args + 2 < CTRL_BUF"
  shows "split_command (strip_line (line_of (cmd @ CHR 0x20 # args @ [newline]))) = (cmd, Some args)"
proof -
  have nz: "newline \<noteq> NUL" "CHR 0x20 \<noteq> NUL" "trailing newline" by (simp_all add: newline_def NUL_def trailing_def)
  have "line_of (cmd @ CHR 0x20 # args @ [newline]) = cmd @ CHR 0x20 # args @ [newline]"
    using assms(2,3,6) nz by (simp add: line_of_def takeWhile_eq_all_conv) auto
  moreover obtain as c where args: "args = as @ [c]" using assms(4) by (cases args rule: rev_cases) auto
  have "strip_line (cmd @ CHR 0x20 # args @ [newline]) = cmd @ CHR 0x20 # args"
    using assms(5) nz(3) by (simp add: strip_line_def args)
  moreover have "strchr (cmd @ CHR 0x20 # args) (CHR 0x20) = Some (CHR 0x20 # args)"
    using assms(1) by (induction cmd) auto
  moreover have "takeWhile (\<lambda>c. c \<noteq> CHR 0x20) (cmd @ CHR 0x20 # args) = cmd"
    using assms(1) by (subst takeWhile_append2) auto
  ultimately show ?thesis by (simp add: split_command_def)
qed

text \<open>C28: The two lists of names survive the command line: when no name is empty, holds a comma, a bar or a NUL byte or ends
  in a blank or a line break, and the line fits the buffer, then the line of \<open>sender-create\<close> with the names joined by
  commas and the lists by a bar reaches the command with its arguments whole, and they are read back as the two lists;
  without a bar the first name is the video source and all others are audio sources. (A comma splits a name, see
  \<open>comma_splits_name\<close>.)\<close>

theorem sources_round_trip:
  assumes plain: "\<forall>n \<in> set v \<union> set a. plain_name n" and v: "v \<noteq> []"
    and fits: "length (join_with '','' v @ CHR 0x7C # join_with '','' a) + 15 < CTRL_BUF"
  shows "split_command (strip_line (line_of (''sender-create '' @ join_with '','' v @ CHR 0x7C # join_with '','' a @ [newline]))) =
      (''sender-create'', Some (join_with '','' v @ CHR 0x7C # join_with '','' a)) \<and>
    parse_sources (join_with '','' v @ CHR 0x7C # join_with '','' a) = (v, a) \<and>
    (length (join_with '','' (v @ a)) + 15 < CTRL_BUF \<longrightarrow>
      split_command (strip_line (line_of (''sender-create '' @ join_with '','' (v @ a) @ [newline]))) =
        (''sender-create'', Some (join_with '','' (v @ a)))) \<and>
    parse_sources (join_with '','' (v @ a)) = (take 1 (v @ a), drop 1 (v @ a))"
proof (intro conjI impI)
  have bar: "CHR 0x7C \<notin> set (join_with '','' ns)" and nul: "NUL \<notin> set (join_with '','' ns)" if "\<forall>n \<in> set ns. plain_name n" for ns
    using join_chars [of "CHR 0x7C" "CHR '',''" ns] join_chars [of NUL "CHR '',''" ns] that
    by (auto simp: plain_name_def NUL_def)
  have names: "strtok (CHR 0x2C) [] (join_with '','' ns) = ns" if "\<forall>n \<in> set ns. plain_name n" for ns
    using strtok_join [of ns "CHR '',''"] that by (simp add: plain_name_def)
  have pv: "\<forall>n \<in> set v. plain_name n" and pa: "\<forall>n \<in> set a. plain_name n" and va: "\<forall>n \<in> set (v @ a). plain_name n"
    using plain by auto
  have ends: "\<not> trailing (last (join_with '','' ns)) \<and> join_with '','' ns \<noteq> []" if "\<forall>n \<in> set ns. plain_name n" "ns \<noteq> []" for ns
    using join_last [of ns "'',''"] that by (auto simp: plain_name_def)
  let ?bar = "join_with '','' v @ CHR 0x7C # join_with '','' a"
  have "\<not> trailing (last ?bar)" using ends [OF pa] by (cases "a = []") (simp_all add: trailing_def)
  moreover have "NUL \<notin> set ?bar" using nul [OF pv] nul [OF pa] by (simp add: NUL_def)
  ultimately show "split_command (strip_line (line_of (''sender-create '' @ join_with '','' v @ CHR 0x7C # join_with '','' a @ [newline]))) =
      (''sender-create'', Some ?bar)"
    using command_line_read [of "''sender-create''" ?bar] fits by (simp add: NUL_def)
  have "takeWhile (\<lambda>c. c \<noteq> CHR 0x7C) (join_with '','' v @ CHR 0x7C # r) = join_with '','' v" for r
    using bar [OF pv] by (subst takeWhile_append2) auto
  then show "parse_sources ?bar = (v, a)"
    using bar [OF pv] names [OF pv] names [OF pa] by (simp add: parse_sources_def)
  have "v @ a \<noteq> []" using v by simp
  then show "split_command (strip_line (line_of (''sender-create '' @ join_with '','' (v @ a) @ [newline]))) =
      (''sender-create'', Some (join_with '','' (v @ a)))" if "length (join_with '','' (v @ a)) + 15 < CTRL_BUF"
    using command_line_read [of "''sender-create''" "join_with '','' (v @ a)"] that ends [OF va] nul [OF va] by (simp add: NUL_def)
  have none: "strchr (join_with '','' (v @ a)) (CHR 0x7C) = None" using bar [OF va] by simp
  show "parse_sources (join_with '','' (v @ a)) = (take 1 (v @ a), drop 1 (v @ a))"
    using names [OF va] by (auto simp: parse_sources_def none Let_def)
qed

lemma sources_round_trip_witness:
  "split_command (strip_line (line_of (''sender-create Scene,Cam 2|Mic'' @ [newline]))) = (''sender-create'', Some ''Scene,Cam 2|Mic'') \<and>
    parse_sources ''Scene,Cam 2|Mic'' = ([''Scene'', ''Cam 2''], [''Mic''])"
  using sources_round_trip [of "[''Scene'', ''Cam 2'']" "[''Mic'']"]
  by (simp add: plain_name_def trailing_def NUL_def CTRL_BUF_def)

text \<open>A source that has a comma in its name cannot be named.\<close>

lemma comma_splits_name: "parse_sources ''Cam, left|'' = ([''Cam'', '' left''], [])"
  by (simp add: parse_sources_def)

section \<open>What the control plane holds\<close>

text \<open>
  The accounts of the registry while the control plane holds \<open>held\<close>, other clients hold \<open>refs\<close>, and the
  sources hold their subscriptions. A result that keeps them:
\<close>

definition ctrl_inv :: "nat multiset \<Rightarrow> 'f tether_control \<times> rx_modules \<Rightarrow> source_world \<Rightarrow> bool" where
  "ctrl_inv refs cm w \<longleftrightarrow> src_inv (refs + mset (ct_held (fst cm))) (w\<lparr>sw_mod := snd cm\<rparr>)"

lemma src_inv_known: "src_inv refs (w\<lparr>sw_mod := m\<lparr>rm_known := k\<rparr>\<rparr>) = src_inv refs (w\<lparr>sw_mod := m\<rparr>)"
  by (simp add: src_inv_def)

lemma ctrl_inv_known: "ctrl_inv refs (c, m\<lparr>rm_known := k\<rparr>) w = ctrl_inv refs (c, m) w"
  by (simp add: ctrl_inv_def src_inv_known)

lemma src_inv_ok: "src_inv refs w \<Longrightarrow> \<exists>subs. rx_ok (rm_rx (sw_mod w)) refs subs"
  by (simp add: src_inv_def)

lemma ctrl_inv_rx:
  assumes inv: "ctrl_inv refs (c, m) w" and ok: "rx_ok rx (refs + mset (ct_held c')) subs"
    and us: "rx_users rx = rx_users (rm_rx m)" and k: "keeps_tokens r (rx_users (rm_rx m)) (rm_rx m) rx"
  shows "ctrl_inv refs (c', m\<lparr>rm_rx := rx\<rparr>) w"
  using src_inv_rx [of "refs + mset (ct_held c)" "w\<lparr>sw_mod := m\<rparr>" rx "refs + mset (ct_held c')" subs r] assms
  by (simp add: ctrl_inv_def)

lemma register_ok:
  assumes inv: "ctrl_inv refs (c, m) w"
  shows "\<exists>c' m' r. cmd_receive_register env args (c, m) = Some ((c', m'), r) \<and> answered r \<and> ctrl_inv refs (c', m') w \<and>
    keeps_tokens refs {} (rm_rx m) (rm_rx m')"
proof (cases "nonempty_str args")
  case False
  with inv show ?thesis by (simp add: cmd_receive_register_def)
next
  case True
  then obtain t where t: "args = Some t" "t \<noteq> []" by (cases args) auto
  define m1 where "m1 = m\<lparr>rm_known := fst (tether_known_tokens_add args (rm_known m))\<rparr>"
  have inv1: "ctrl_inv refs (c, m1) w" and rx1: "rm_rx m1 = rm_rx m" using inv by (simp_all add: m1_def ctrl_inv_known)
  from inv obtain subs where ok: "rx_ok (rm_rx m) (refs + mset (ct_held c)) subs"
    using src_inv_ok [of _ "w\<lparr>sw_mod := m\<rparr>"] by (auto simp: ctrl_inv_def)
  obtain rx p o1 where g: "rx_get (cv_rx env) args (rm_rx m) = Some (rx, p, o1)" using registry.get_total [OF ok] by blast
  have k: "keeps_tokens refs (rx_users (rm_rx m)) (rm_rx m) rx"
    unfolding keeps_tokens_def using sessions.get_keeps [OF g _ ok] by simp
  have us: "rx_users rx = rx_users (rm_rx m1)" using sessions.get_users [OF ok g] rx1 by simp
  show ?thesis
  proof (cases p)
    case None
    have "rx_ok rx (refs + mset (ct_held c)) subs" using registry.get_none_ok [OF ok] g None by simp
    from ctrl_inv_rx [OF inv1 this us] k src_keeps_refs [OF k] True g None rx1 show ?thesis
      by (simp add: cmd_receive_register_def m1_def Let_def)
  next
    case (Some a)
    from registry.get_held [OF ok g [unfolded Some]] have
      ok1: "rx_ok rx (add_mset a (refs + mset (ct_held c))) subs" and ta: "rx_token_at rx a = args" by simp_all
    then obtain s where s: "rx_heap rx a = Some s" using t by (auto simp: rx_token_at_def)
    have "rx_ok rx (refs + mset (ct_held (c\<lparr>ct_held := ct_held c @ [a]\<rparr>))) subs" using ok1 by simp
    from ctrl_inv_rx [OF inv1 this us] k src_keeps_refs [OF k] True g Some rx1 s show ?thesis
      by (simp add: cmd_receive_register_def m1_def Let_def)
  qed
qed

lemma status_ok:
  assumes inv: "ctrl_inv refs (c, m) w"
  shows "\<exists>m' r. cmd_receive_status m = Some (m', r) \<and> answered r \<and> ctrl_inv refs (c, m') w \<and>
    keeps_tokens refs {} (rm_rx m) (rm_rx m')"
proof -
  from inv obtain subs where ok: "rx_ok (rm_rx m) (refs + mset (ct_held c)) subs"
    using src_inv_ok [of _ "w\<lparr>sw_mod := m\<rparr>"] by (auto simp: ctrl_inv_def)
  obtain rx outs where e: "tether_receive_session_enumerate True (rm_rx m) = Some (rx, rx_registry (rm_rx m), outs)"
    and ok1: "rx_ok rx (refs + mset (ct_held c)) subs" and us: "rx_users rx = rx_users (rm_rx m)"
    and k: "\<And>b x. b \<in># refs + mset (ct_held c) \<or> b \<in> fst ` set subs \<Longrightarrow> rx_token_at (rm_rx m) b = Some x \<Longrightarrow>
      rx_token_at rx b = Some x"
    by (rule rx_enumerate_frame [OF ok]) blast
  have "keeps_tokens refs (rx_users (rm_rx m)) (rm_rx m) rx"
    unfolding keeps_tokens_def using k by (auto simp: subs_users_fst [OF ok, symmetric])
  from ctrl_inv_rx [OF inv ok1 us this] e src_keeps_refs [OF this] show ?thesis by (simp add: cmd_receive_status_def)
qed

lemma forget_held_ok:
  assumes "rx_ok rx (refs + mset as) subs"
  shows "\<exists>keep rx' outs. forget_held t as rx = Some (keep, rx', outs) \<and> rx_ok rx' (refs + mset keep) subs \<and>
    rx_users rx' = rx_users rx \<and> keeps_tokens refs (rx_users rx) rx rx' \<and>
    keep = filter (\<lambda>a. rx_token_at rx a \<noteq> Some t) as \<and> (\<forall>a \<in> set keep. rx_token_at rx' a = rx_token_at rx a)"
  using assms
proof (induction "as" arbitrary: rx refs)
  case (Cons a "as")
  have live: "rx_token_at rx a \<noteq> None" by (rule sessions.live_tokens [OF Cons.prems]) simp
  then obtain s where s: "rx_heap rx a = Some s" "rx_token_at rx a = Some (rx_token s)" by (auto simp: rx_token_at_def)
  show ?case
  proof (cases "rx_token s = t")
    case True
    have "a \<in># refs + mset (a # as)" by simp
    then obtain w1 o1 where r: "tether_receive_session_release (Some a) rx = Some (w1, o1)"
      and ok1: "rx_ok w1 (refs + mset (a # as) - {#a#}) subs" and us: "rx_users w1 = rx_users rx"
      and k: "\<And>b x. b \<in># refs + mset (a # as) - {#a#} \<or> b \<in> fst ` set subs \<Longrightarrow> rx_token_at rx b = Some x \<Longrightarrow> rx_token_at w1 b = Some x"
      by (rule sessions.drop_ref [OF Cons.prems]) blast
    from ok1 have ok1: "rx_ok w1 (refs + mset as) subs" by simp
    from Cons.IH [OF ok1] obtain keep w2 o2 where f: "forget_held t as w1 = Some (keep, w2, o2)"
      "rx_ok w2 (refs + mset keep) subs" "rx_users w2 = rx_users w1" "keeps_tokens refs (rx_users w1) w1 w2"
      "keep = filter (\<lambda>a. rx_token_at w1 a \<noteq> Some t) as" "\<forall>a \<in> set keep. rx_token_at w2 a = rx_token_at w1 a" by blast
    have same: "rx_token_at w1 b = rx_token_at rx b" if "b \<in> set as" for b
    proof -
      have "rx_token_at rx b \<noteq> None" using sessions.live_tokens [OF Cons.prems, of b] that by simp
      then obtain x where "rx_token_at rx b = Some x" by blast
      with k [of b x] that show ?thesis by simp
    qed
    have "keeps_tokens refs (rx_users rx) rx w1" unfolding keeps_tokens_def
      using k by (simp add: subs_users_fst [OF Cons.prems, symmetric])
    with f us have "keeps_tokens refs (rx_users rx) rx w2" using keeps_tokens_trans by metis
    moreover have "keep = filter (\<lambda>a. rx_token_at rx a \<noteq> Some t) as" using f(5) same by (simp cong: filter_cong)
    ultimately show ?thesis using f r s True us same by (auto simp: tether_receive_session_token_def)
  next
    case False
    have "rx_ok rx ((refs + {#a#}) + mset as) subs" using Cons.prems by simp
    from Cons.IH [OF this] obtain keep w2 o2 where f: "forget_held t as rx = Some (keep, w2, o2)"
      "rx_ok w2 ((refs + {#a#}) + mset keep) subs" "rx_users w2 = rx_users rx"
      "keeps_tokens (refs + {#a#}) (rx_users rx) rx w2"
      "keep = filter (\<lambda>a. rx_token_at rx a \<noteq> Some t) as" "\<forall>a \<in> set keep. rx_token_at w2 a = rx_token_at rx a" by blast
    have "rx_token_at w2 a = rx_token_at rx a" using f(4) s(2) by (simp add: keeps_tokens_def)
    moreover have "keeps_tokens refs (rx_users rx) rx w2" using f(4) by (simp add: keeps_tokens_def)
    ultimately show ?thesis using f s False by (auto simp: tether_receive_session_token_def)
  qed
qed simp

lemma forget_ok:
  assumes inv: "ctrl_inv refs (c, m) w"
  shows "\<exists>c' m' r. cmd_receive_forget args (c, m) = Some ((c', m'), r) \<and> answered r \<and> ctrl_inv refs (c', m') w \<and>
    keeps_tokens refs {} (rm_rx m) (rm_rx m') \<and>
    (nonempty_str args \<longrightarrow> ct_held c' = filter (\<lambda>a. rx_token_at (rm_rx m) a \<noteq> args) (ct_held c) \<and>
      (\<forall>a \<in> set (ct_held c'). rx_token_at (rm_rx m') a = rx_token_at (rm_rx m) a))"
proof (cases "nonempty_str args")
  case False
  with inv show ?thesis by (simp add: cmd_receive_forget_def)
next
  case True
  then obtain t where t: "args = Some t" "t \<noteq> []" by (cases args) auto
  define m1 where "m1 = m\<lparr>rm_known := fst (tether_known_tokens_remove args (rm_known m))\<rparr>"
  have inv1: "ctrl_inv refs (c, m1) w" and rx1: "rm_rx m1 = rm_rx m" using inv by (simp_all add: m1_def ctrl_inv_known)
  from inv obtain subs where ok: "rx_ok (rm_rx m) (refs + mset (rev (ct_held c))) subs"
    using src_inv_ok [of _ "w\<lparr>sw_mod := m\<rparr>"] by (auto simp: ctrl_inv_def)
  from forget_held_ok [OF ok, of t] obtain keep rx outs where f: "forget_held t (rev (ct_held c)) (rm_rx m) = Some (keep, rx, outs)"
    "rx_ok rx (refs + mset keep) subs" "rx_users rx = rx_users (rm_rx m)" "keeps_tokens refs (rx_users (rm_rx m)) (rm_rx m) rx"
    "keep = filter (\<lambda>a. rx_token_at (rm_rx m) a \<noteq> Some t) (rev (ct_held c))"
    "\<forall>a \<in> set keep. rx_token_at rx a = rx_token_at (rm_rx m) a" by blast
  let ?c = "c\<lparr>ct_held := rev keep\<rparr>"
  have "ctrl_inv refs (?c, m1\<lparr>rm_rx := rx\<rparr>) w"
    by (rule ctrl_inv_rx [OF inv1, of rx ?c subs]) (use f rx1 in simp_all)
  moreover have "cmd_receive_forget args (c, m) = Some ((?c, m1\<lparr>rm_rx := rx\<rparr>), ''OK forgot '' @ t)"
    using True t f(1) rx1 by (simp add: cmd_receive_forget_def m1_def Let_def)
  moreover have "rev keep = filter (\<lambda>a. rx_token_at (rm_rx m) a \<noteq> args) (ct_held c)" unfolding f(5) t(1) rev_filter by simp
  moreover have "\<forall>a. a \<in> set (ct_held c) \<and> rx_token_at (rm_rx m) a \<noteq> args \<longrightarrow> rx_token_at rx a = rx_token_at (rm_rx m) a"
    using f(5,6) t(1) by simp
  ultimately show ?thesis using f(6) src_keeps_refs [OF f(4)] by simp
qed

lemma ctrl_callback_held [simp]: "ct_held (ctrl_callback out c) = ct_held c"
  by (cases out) (simp_all add: on_sender_token_def on_sender_pending_def on_sender_peer_state_def on_sender_peer_gone_def)

lemma callbacks_held [simp]: "ct_held (fold ctrl_callback outs c) = ct_held c"
  by (induction outs arbitrary: c) simp_all

lemma sender_events_held: "sender_events ops c = Some c' \<Longrightarrow> ct_held c' = ct_held c"
  by (auto simp: sender_events_def split: option.splits)

lemma wait_for_token_held: "wait_for_token polls n i c = Some c' \<Longrightarrow> ct_held c' = ct_held c"
  by (induction n arbitrary: i c) (auto dest: sender_events_held split: option.splits if_splits)

text \<open>
  The sender a line creates, if it creates one, and that none of its events in the rounds of the wait that
  follows goes through a NULL scaler (its encoder's worker may well visit it).
\<close>

definition created_sender :: "ctrl_env \<Rightarrow> string option \<Rightarrow> 'f tether_control \<Rightarrow> 'f tether_sender option" where
  "created_sender env args c =
     (if ct_sender c \<noteq> None \<or> \<not> nonempty_str args then None
      else case parse_sources (the args) of
        (v, a) \<Rightarrow>
          if v = [] then None
          else fst (tether_sender_create (cv_sender env) (cv_ws env) (Some (control_sender_config v a)) (Some control_callbacks)))"

fun polls_survive :: "(nat \<Rightarrow> sn_op list) \<Rightarrow> nat \<Rightarrow> nat \<Rightarrow> 'f tether_sender \<Rightarrow> bool" where
  "polls_survive polls 0 i s \<longleftrightarrow> True"
| "polls_survive polls (Suc n) i s \<longleftrightarrow>
     (case sn_run (polls i) s of None \<Rightarrow> False | Some (s', outs) \<Rightarrow> polls_survive polls n (i + 1) s')"

definition calm :: "'f tether_control \<Rightarrow> ctrl_env \<Rightarrow> string \<Rightarrow> bool" where
  "calm c env line \<longleftrightarrow>
     (case split_command (strip_line line) of
        (cmd, args) \<Rightarrow> cmd = ''sender-create'' \<longrightarrow>
          (case created_sender env args c of None \<Rightarrow> True | Some s \<Rightarrow> polls_survive (cv_polls env) 50 0 s))"

lemma ctrl_callback_sender [simp]: "ct_sender (ctrl_callback out c) = ct_sender c"
  by (cases out)
     (auto simp: on_sender_token_def on_sender_pending_def on_sender_peer_state_def on_sender_peer_gone_def)

lemma callbacks_sender [simp]: "ct_sender (fold ctrl_callback outs c) = ct_sender c"
  by (induction outs arbitrary: c) simp_all

lemma wait_for_token_total:
  fixes c :: "'f tether_control"
  assumes "ct_sender c = Some s" and "polls_survive polls n i s"
  shows "\<exists>c'. wait_for_token polls n i c = Some c'"
  using assms
proof (induction n arbitrary: i c s)
  case (Suc n)
  then obtain s' outs where run: "sn_run (polls i) s = Some (s', outs)" and ps: "polls_survive polls n (i + 1) s'"
    by (auto split: option.splits)
  let ?c = "fold ctrl_callback outs (c\<lparr>ct_sender := Some s'\<rparr>)"
  have "sender_events (polls i) c = Some ?c" using Suc.prems(1) run by (simp add: sender_events_def)
  moreover from Suc.IH [OF _ ps, of ?c] have "\<exists>c'. wait_for_token polls n (i + 1) ?c = Some c'" by simp
  ultimately show ?case by auto
qed simp

lemma create_command_ok:
  fixes c :: "'f tether_control"
  assumes calm: "case created_sender env args c of None \<Rightarrow> True | Some s \<Rightarrow> polls_survive (cv_polls env) 50 0 s"
  shows "\<exists>c' r. cmd_sender_create env args c = Some (c', r) \<and> answered r \<and> ct_held c' = ct_held c"
proof -
  obtain v a where p: "parse_sources (the args) = (v, a)" by fastforce
  obtain so :: "'f tether_sender option" and outs where cr: "tether_sender_create (cv_sender env) (cv_ws env) (Some (control_sender_config v a))
      (Some control_callbacks) = (so, outs)" by fastforce
  show ?thesis
  proof (cases "ct_sender c \<noteq> None \<or> \<not> nonempty_str args \<or> v = [] \<or> so = None")
    case True
    with p cr show ?thesis by (auto simp: cmd_sender_create_def)
  next
    case False
    then obtain s where s: "so = Some s" by blast
    have "created_sender env args c = Some s" using False p cr s by (simp add: created_sender_def)
    with calm have ps: "polls_survive (cv_polls env) 50 0 s" by simp
    have "ct_sender (fold ctrl_callback outs (c\<lparr>ct_sender := Some s\<rparr>)) = Some s" by simp
    from wait_for_token_total [OF this ps] obtain c' where
      w: "wait_for_token (cv_polls env) 50 0 (fold ctrl_callback outs (c\<lparr>ct_sender := Some s\<rparr>)) = Some c'" by blast
    from wait_for_token_held [OF this] False p cr s w show ?thesis by (simp add: cmd_sender_create_def)
  qed
qed

lemma sender_commands_ok:
  "answered (cmd_sender_status c)"
  "cmd_sender_accept env args c = (c1, r) \<Longrightarrow> answered r \<and> ct_held c1 = ct_held c"
  "cmd_sender_reject env args c = (c1, r) \<Longrightarrow> answered r \<and> ct_held c1 = ct_held c"
  "cmd_sender_disconnect env args c = (c1, r) \<Longrightarrow> answered r \<and> ct_held c1 = ct_held c"
  "cmd_sender_revoke env c = (c1, r) \<Longrightarrow> answered r \<and> ct_held c1 = ct_held c"
  by (auto simp: cmd_sender_status_def cmd_sender_accept_def cmd_sender_reject_def cmd_sender_disconnect_def
      cmd_sender_revoke_def with_sender_def split: option.splits prod.splits if_splits)

lemma ctrl_inv_held: "ct_held c' = ct_held c \<Longrightarrow> ctrl_inv refs (c', m) w = ctrl_inv refs (c, m) w"
  by (simp add: ctrl_inv_def)

definition command_ok ::
  "nat multiset \<Rightarrow> source_world \<Rightarrow> rx_modules \<Rightarrow> (('f tether_control \<times> rx_modules) \<times> string) option \<Rightarrow> bool" where
  "command_ok refs w m res \<longleftrightarrow> (\<exists>c' m' r. res = Some ((c', m'), r) \<and> answered r \<and> ctrl_inv refs (c', m') w \<and>
     keeps_tokens refs {} (rm_rx m) (rm_rx m'))"

lemma on_control_ok:
  assumes "ctrl_inv refs (c, m) w" and "\<And>c1 r. p = (c1, r) \<Longrightarrow> answered r \<and> ct_held c1 = ct_held c"
  shows "command_ok refs w m (on_control p m)"
proof -
  obtain c1 r where p: "p = (c1, r)" by fastforce
  from assms(1) assms(2) [OF p] show ?thesis by (simp add: p command_ok_def on_control_def ctrl_inv_held [of c1 c])
qed

lemma command_ok_if:
  "(P \<Longrightarrow> command_ok refs w m a) \<Longrightarrow> command_ok refs w m b \<Longrightarrow> command_ok refs w m (if P then a else b)"
  by simp

lemma dispatch_ok:
  assumes inv: "ctrl_inv refs (c, m) w" and calm: "calm c env line"
  shows "command_ok refs w m (dispatch env line (c, m))"
proof -
  obtain cmd args where sp: "split_command (strip_line line) = (cmd, args)" by fastforce
  have create: "command_ok refs w m (map_option (\<lambda>(c', r). ((c', m), r)) (cmd_sender_create env args c))"
    if "cmd = ''sender-create''"
  proof -
    have "case created_sender env args c of None \<Rightarrow> True | Some s \<Rightarrow> polls_survive (cv_polls env) 50 0 s"
      using calm sp that by (simp add: calm_def)
    from create_command_ok [OF this] obtain c1 r1 where
      "cmd_sender_create env args c = Some (c1, r1)" "answered r1" "ct_held c1 = ct_held c" by blast
    then show ?thesis using inv by (simp add: command_ok_def ctrl_inv_held [of c1 c])
  qed
  have status: "command_ok refs w m (map_option (\<lambda>(m', r). ((c, m'), r)) (cmd_receive_status m))"
    using status_ok [OF inv] by (auto simp: command_ok_def)
  have ctl: "command_ok refs w m (on_control (cmd_sender_accept env args c) m)"
    "command_ok refs w m (on_control (cmd_sender_reject env args c) m)"
    "command_ok refs w m (on_control (cmd_sender_disconnect env args c) m)"
    "command_ok refs w m (on_control (cmd_sender_revoke env c) m)"
    "command_ok refs w m (on_control (c, cmd_sender_status c) m)"
    by (rule on_control_ok [OF inv], (erule sender_commands_ok(2-5) | simp add: sender_commands_ok(1)))+
  have rx: "command_ok refs w m (cmd_receive_register env args (c, m))" "command_ok refs w m (cmd_receive_forget args (c, m))"
    using register_ok [OF inv] forget_ok [OF inv] unfolding command_ok_def by blast+
  have texts: "command_ok refs w m (Some ((c, m), ''OK pong''))"
    "command_ok refs w m (Some ((c, m), ''ERR unknown command '' @ x))" for x
    using inv by (auto simp: command_ok_def)
  show ?thesis unfolding dispatch_def sp prod.case
    by (rule command_ok_if, (erule create | rule status ctl rx texts))+ (rule texts)
qed

text \<open>C14: The control plane always answers: whatever line arrives, in whatever state the plugin is, the command runs
  to its end without following a freed pointer, and when the client takes the bytes it gets exactly one reply that
  starts with OK or ERR and ends with a newline; the references the plane holds stay accounted for. The one thing
  supposed is for \<open>sender-create\<close>: while it waits for the token, no event of the sender it has just created,
  its encoder's worker included, goes through a NULL scaler.\<close>

theorem every_line_answered:
  fixes c :: "'f tether_control"
  assumes inv: "ctrl_inv refs (c, m) w" and calm: "calm c env (line_of msg)" and msg: "msg \<noteq> []"
  shows "\<exists>c' m' r. dispatch env (line_of msg) (c, m) = Some ((c', m'), r) \<and>
    (starts_with ''OK '' r \<or> starts_with ''ERR '' r) \<and> ctrl_inv refs (c', m') w \<and>
    (\<forall>rs. WriteError \<notin> set rs \<longrightarrow> length r + 1 \<le> progress rs \<longrightarrow>
       serve (Some msg) rs env (c, m) = Some ((c', m'), if last r = newline then r else r @ [newline]))"
proof -
  from dispatch_ok [OF inv calm] obtain c' m' r where
    d: "dispatch env (line_of msg) (c, m) = Some ((c', m'), r)" "answered r" "ctrl_inv refs (c', m') w"
    by (auto simp: command_ok_def)
  have "serve (Some msg) rs env (c, m) = Some ((c', m'), if last r = newline then r else r @ [newline])"
    if "WriteError \<notin> set rs" "length r + 1 \<le> progress rs" for rs
  proof -
    have "length (concat (reply_chunks r)) \<le> length r + 1" by (simp add: reply_chunks_def)
    with that have "reply rs (reply_chunks r) = concat (reply_chunks r)" by (intro reply_done) linarith+
    with d msg show ?thesis by (simp add: serve_def chunks_text)
  qed
  with d show ?thesis unfolding answered_def by blast
qed

text \<open>C26: Forgetting a token gives back every reference the plane holds to its session and no other one. The header says
  that the session is torn down; it is so exactly when no source is attached to it and no other client (an open
  receive dialog) holds a reference to it: \<open>refs\<close> are the references of the others.\<close>

theorem forget_ends_what_it_holds:
  fixes c :: "'f tether_control"
  assumes inv: "ctrl_inv refs (c, m) w" and line: "split_command (strip_line line) = (''receive-forget'', Some t)" and t: "t \<noteq> []"
  shows "\<exists>c' m' r. dispatch env line (c, m) = Some ((c', m'), r) \<and>
    ct_held c' = filter (\<lambda>a. rx_token_at (rm_rx m) a \<noteq> Some t) (ct_held c) \<and>
    ((\<exists>a. rx_token_at (rm_rx m') a = Some t) \<longleftrightarrow>
      (\<exists>u s. sw_sources w u = Some s \<and> so_sub s \<noteq> None \<and> so_token s = Some t) \<or>
      (\<exists>a \<in># refs. rx_token_at (rm_rx m) a = Some t))"
proof -
  have ne: "nonempty_str (Some t)" using t by simp
  from forget_ok [OF inv, of "Some t"] ne obtain c' m' r where f: "cmd_receive_forget (Some t) (c, m) = Some ((c', m'), r)"
    and inv': "ctrl_inv refs (c', m') w" and held: "ct_held c' = filter (\<lambda>a. rx_token_at (rm_rx m) a \<noteq> Some t) (ct_held c)"
    and keeps: "keeps_tokens refs {} (rm_rx m) (rm_rx m')"
    and kept: "\<forall>a \<in> set (ct_held c'). rx_token_at (rm_rx m') a = rx_token_at (rm_rx m) a" by blast
  have inv'': "src_inv (refs + mset (ct_held c')) (w\<lparr>sw_mod := m'\<rparr>)" using inv' by (simp add: ctrl_inv_def)
  have others: "rx_token_at (rm_rx m') a = rx_token_at (rm_rx m) a" if "a \<in># refs" for a
  proof -
    from inv obtain subs where ok: "rx_ok (rm_rx m) (refs + mset (ct_held c)) subs"
      using src_inv_ok [of _ "w\<lparr>sw_mod := m\<rparr>"] by (auto simp: ctrl_inv_def)
    have "rx_token_at (rm_rx m) a \<noteq> None" by (rule sessions.live_tokens [OF ok]) (use that in simp)
    with keeps that show ?thesis by (auto simp: keeps_tokens_def)
  qed
  have "(\<exists>u s. sw_sources w u = Some s \<and> so_sub s \<noteq> None \<and> so_token s = Some t) \<or> (\<exists>b \<in># refs. rx_token_at (rm_rx m) b = Some t)"
    if a: "rx_token_at (rm_rx m') a = Some t" for a
  proof (cases "a \<in># refs")
    case True
    with others a show ?thesis by auto
  next
    case False
    have "a \<notin> set (ct_held c')" using kept held a by auto
    with False have free: "a \<notin># refs + mset (ct_held c')" by simp
    have "rx_token_at (rm_rx (sw_mod (w\<lparr>sw_mod := m'\<rparr>))) a = Some t" using a by simp
    from session_has_source [OF inv'' this free] show ?thesis by auto
  qed
  moreover have "\<exists>a. rx_token_at (rm_rx m') a = Some t"
    if "sw_sources w u = Some s" "so_sub s \<noteq> None" "so_token s = Some t" for u s
    using source_has_session [OF inv'', of u s] that by auto
  moreover have "\<exists>a. rx_token_at (rm_rx m') a = Some t" if "b \<in># refs" "rx_token_at (rm_rx m) b = Some t" for b
    using others that by metis
  moreover have "dispatch env line (c, m) = Some ((c', m'), r)" using f by (simp add: dispatch_def line)
  ultimately show ?thesis using held by blast
qed

section \<open>The socket path\<close>

text \<open>
  The path is kept to 127 bytes and bound to 107: a longer one is bound under its prefix, while the
  name that is removed before and after is the whole.
\<close>

lemma long_path_stays:
  assumes "ie_control env = Some ''1''" and "0 \<le> ie_socket_rc env" and "0 \<le> ie_bind env" and "0 \<le> ie_listen env"
    and "107 < length (socket_path_of env)"
  shows "\<exists>c out. tether_control_init env = (Some (c :: 'f tether_control), out) \<and>
    (\<exists>p. SysBind p \<in> set out \<and> p \<noteq> ct_socket_path c \<and> SysUnlink p \<notin> set out)"
proof -
  have "length (strncpy_buf SUN_PATH_SIZE (socket_path_of env)) = 107"
    using assms(5) by (simp add: strncpy_buf_def SUN_PATH_SIZE_def)
  then have "strncpy_buf SUN_PATH_SIZE (socket_path_of env) \<noteq> socket_path_of env" using assms(5) by auto
  with assms show ?thesis by (simp add: tether_control_init_def new_control_def Let_def)
qed

section \<open>The buffers\<close>

text \<open>Every text is in its buffer with the NUL byte after it, and a state of a peer is one of the three that have a word.\<close>

definition peer_typed :: "ctrl_peer \<Rightarrow> bool" where
  "peer_typed p \<longleftrightarrow> length (cp_peer_id p) < 64 \<and> length (cp_name p) < 64 \<and> length (cp_fingerprint p) < 160 \<and>
     cp_state p \<in> {0, 1, 2}"

definition ctrl_typed :: "'f tether_control \<Rightarrow> bool" where
  "ctrl_typed c \<longleftrightarrow> length (ct_socket_path c) < 128 \<and> length (ct_current_token c) < 64 \<and> (\<forall>p \<in> set (ct_peers c). peer_typed p)"

lemma copy_field_fits: "0 < n \<Longrightarrow> length (copy_field n s) < n"
  by (cases s) (simp_all add: copy_field_def length_strncpy_buf)

lemma ctrl_callback_typed: "ctrl_typed c \<Longrightarrow> ctrl_typed (ctrl_callback out c)"
proof (induction out c rule: ctrl_callback.induct)
  case (3 i st c)
  then show ?case
    by (auto simp: ctrl_typed_def on_sender_peer_state_def peer_state_code_def peer_typed_def
        dest!: bspec [OF update_first_ball [of _ peer_typed], rotated 2])
next
  case (4 i c)
  then show ?case by (auto simp: ctrl_typed_def on_sender_peer_gone_def dest: set_erase_first [THEN subsetD])
qed (auto simp: ctrl_typed_def on_sender_token_def on_sender_pending_def peer_typed_def length_strncpy_buf copy_field_fits)

lemma callbacks_typed: "ctrl_typed c \<Longrightarrow> ctrl_typed (fold ctrl_callback outs c)"
  by (induction outs arbitrary: c) (simp_all add: ctrl_callback_typed)

lemma typed_fields [simp]:
  "ctrl_typed (c\<lparr>ct_sender := s\<rparr>) = ctrl_typed c" "ctrl_typed (c\<lparr>ct_held := as\<rparr>) = ctrl_typed c"
  "ctrl_typed c \<Longrightarrow> ctrl_typed (c\<lparr>ct_sender := s, ct_current_token := [], ct_peers := []\<rparr>)"
  by (simp_all add: ctrl_typed_def)

lemma sender_events_typed: "sender_events ops c = Some c' \<Longrightarrow> ctrl_typed c \<Longrightarrow> ctrl_typed c'"
  by (auto simp: sender_events_def callbacks_typed split: option.splits)

lemma wait_typed: "wait_for_token polls n i c = Some c' \<Longrightarrow> ctrl_typed c \<Longrightarrow> ctrl_typed c'"
  by (induction n arbitrary: i c) (auto split: option.splits if_splits dest: sender_events_typed)

lemma create_typed: "cmd_sender_create env args c = Some (c', r) \<Longrightarrow> ctrl_typed c \<Longrightarrow> ctrl_typed c'"
  by (auto simp: cmd_sender_create_def callbacks_typed split: if_splits prod.splits option.splits dest!: wait_typed)

lemma with_sender_typed: "ctrl_typed c \<Longrightarrow> ctrl_typed (with_sender f s c)"
  by (simp add: with_sender_def callbacks_typed split: prod.splits)

lemma revoke_typed: "ctrl_typed c \<Longrightarrow> ctrl_typed (fst (cmd_sender_revoke env c))"
  by (auto simp: cmd_sender_revoke_def callbacks_typed split: option.splits prod.splits)

lemma peer_commands_typed:
  assumes "ctrl_typed c"
  shows "ctrl_typed (fst (cmd_sender_accept env args c))" "ctrl_typed (fst (cmd_sender_reject env args c))"
    "ctrl_typed (fst (cmd_sender_disconnect env args c))"
  using assms with_sender_typed
  by (auto simp: cmd_sender_accept_def cmd_sender_reject_def cmd_sender_disconnect_def split: option.splits)

lemma receive_commands_typed:
  "cmd_receive_register env args (c, m) = Some ((c', m'), r) \<Longrightarrow> ctrl_typed c \<Longrightarrow> ctrl_typed c'"
  "cmd_receive_forget args (c, m) = Some ((c', m'), r) \<Longrightarrow> ctrl_typed c \<Longrightarrow> ctrl_typed c'"
  by (auto simp: cmd_receive_register_def cmd_receive_forget_def Let_def split: option.splits if_splits prod.splits)

lemma dispatch_typed: "dispatch env line (c, m) = Some ((c', m'), r) \<Longrightarrow> ctrl_typed c \<Longrightarrow> ctrl_typed c'"
  using create_typed receive_commands_typed peer_commands_typed revoke_typed
  by (auto simp: dispatch_def on_control_def split: prod.splits if_splits)

lemma serve_typed: "serve msg rs env cm = Some (cm', out) \<Longrightarrow> ctrl_typed (fst cm) \<Longrightarrow> ctrl_typed (fst cm')"
  using dispatch_typed by (cases cm; cases cm') (auto simp: serve_def split: if_splits option.splits)

lemma worker_typed: "worker xs cm = Some (cm', outs) \<Longrightarrow> ctrl_typed (fst cm) \<Longrightarrow> ctrl_typed (fst cm')"
proof (induction xs cm arbitrary: outs rule: worker.induct)
  case (5 msg rs env xs cm)
  show ?case
  proof (cases "ct_stop (fst cm)")
    case False
    with "5.prems"(1) obtain cm1 out outs' where s: "serve msg rs env cm = Some (cm1, out)"
      and w: "worker xs cm1 = Some (cm', outs')" by (auto split: option.splits)
    from "5.IH" [OF False s refl w] serve_typed [OF s "5.prems"(2)] show ?thesis .
  qed (use "5.prems" in simp)
qed (auto split: if_splits option.splits dest: sender_events_typed)

text \<open>C35: The buffers of the control plane are typed: from its start on, whatever clients send and whatever its sender reports,
  during a command or between two of them, the path of the socket, the token and the three texts of every peer fit their
  arrays with the byte that ends them, and the list of peers never shows a state that has no word.\<close>

theorem control_state_typed:
  assumes "tether_control_init env = (Some c, sys)" and "worker xs (c, m) = Some ((c', m'), outs)"
  shows "length (ct_socket_path c') < 128 \<and> length (ct_current_token c') < 64 \<and>
    (\<forall>p \<in> set (ct_peers c'). length (cp_peer_id p) < 64 \<and> length (cp_name p) < 64 \<and> length (cp_fingerprint p) < 160 \<and>
       state_word (cp_state p) \<in> {''waiting'', ''connected'', ''failed''})"
proof -
  have "ctrl_typed c" using assms(1)
    by (auto simp: tether_control_init_def socket_path_of_def new_control_def ctrl_typed_def length_strncpy_buf Let_def split: if_splits)
  from worker_typed [OF assms(2)] this have "ctrl_typed c'" by simp
  then show ?thesis by (fastforce simp: ctrl_typed_def peer_typed_def state_word_def)
qed

section \<open>Examples\<close>

definition demo_ctrl_env :: ctrl_env where
  "demo_ctrl_env = \<lparr>cv_sender = demo_sender_env, cv_ws = 7, cv_session = demo_session_env, cv_rx = (demo_env, 1, 7),
     cv_polls = (\<lambda>i. [])\<rparr>"

lemma demo_ctrl_inv: "ctrl_inv {#} (new_control ''/tmp/t'' :: nat tether_control, sw_mod demo_src_world) demo_src_world"
  using demo_inv(1) by (simp add: ctrl_inv_def new_control_def)

text \<open>
  A sender that a client creates: a request arrives in the first round of the wait, and the encoder's worker
  looks for a frame in every round.
\<close>

definition ctl_sender :: "nat tether_sender" where
  "ctl_sender = the (fst (tether_sender_create demo_sender_env 7 (Some (control_sender_config [''Cam''] [])) (Some control_callbacks)))"

definition ctl_work :: sn_op where
  "ctl_work = SnWork (\<lambda>i k. demo_enc_env)"

definition ctl_env :: ctrl_env where
  "ctl_env = demo_ctrl_env\<lparr>cv_polls := (\<lambda>i. if i = 0 then [demo_request, ctl_work] else [ctl_work])\<rparr>"

lemma ctl_sender_created:
  "\<exists>os. tether_sender_create demo_sender_env 7 (Some (control_sender_config [''Cam''] [])) (Some control_callbacks) = (Some ctl_sender, os) \<and>
    (\<forall>c. fold ctrl_callback os c = c)"
  by (simp add: ctl_sender_def tether_sender_create_def control_sender_config_def first_source_def valid_names_def
      sender_captures_def Let_def tether_signaling_create_def sender_signaling_config_def fallback_or_def
      tether_signaling_connect_def Signaling.set_state_def emit_def new_capture_def new_sender_def with_defaults_def
      strncpy_buf_def)

lemma ctl_sender_eq:
  "ctl_sender = (new_sender (control_sender_config [''Cam''] []) ''Cam'' (Some control_callbacks))\<lparr>
     sn_sig := Some \<lparr>sig_cfg = sender_signaling_config (with_defaults (control_sender_config [''Cam''] [])) [new_capture ''Cam'' 0],
       sig_server_url = tether_default_server_url, sig_display_name = ''Cam'', sig_token = None, sig_ws = 7,
       sig_state = TETHER_SIG_STATE_CONNECTING\<rparr>, sn_worker_running := True\<rparr>"
  by (simp add: ctl_sender_def tether_sender_create_def control_sender_config_def first_source_def valid_names_def
      sender_captures_def Let_def tether_signaling_create_def sender_signaling_config_def fallback_or_def
      tether_signaling_connect_def Signaling.set_state_def emit_def new_capture_def new_sender_def with_defaults_def
      strncpy_buf_def)

lemma ctl_requested:
  "\<exists>a. sn_call demo_request ctl_sender = Some (ctl_sender\<lparr>sn_adm := a\<rparr>, [CbPending ''p1'' ''Ann'' []])"
proof -
  obtain sig where sig: "sn_sig ctl_sender = Some sig" "sc_cb (sig_cfg sig)"
    by (simp add: ctl_sender_eq sender_signaling_config_def)
  have ev: "sn_call demo_request ctl_sender =
      Some (on_signaling_event demo_sender_env TETHER_SIG_EVT_REQUEST_PENDING (Some ''p1'') (Some demo_pending) ctl_sender)"
    unfolding demo_request_def sn_call.simps demo_pending_def
    by (subst sn_received(1) [OF sig _ demo_pending_ok]) simp_all
  have f: "sn_adm ctl_sender = Some (tether_admission_create (sender_admission_config (with_defaults (control_sender_config [''Cam''] []))))"
    "sn_cbs ctl_sender = control_callbacks"
    by (simp_all add: ctl_sender_eq new_sender_def)
  show ?thesis
    unfolding ev
    by (simp add: demo_fields Let_def with_admission_def demo_sender_env_def demo_simps sender_admission_config_def
        with_defaults_def or_default_def control_sender_config_def on_admission_changed_def control_callbacks_def f)
      (rule exI, rule refl)
qed

lemma ctl_idle: "sn_call ctl_work (ctl_sender\<lparr>sn_adm := a\<rparr>) = Some (ctl_sender\<lparr>sn_adm := a\<rparr>, [])"
  by (simp add: ctl_work_def encoder_worker_pass_def any_ready_def ctl_sender_eq new_sender_def sender_captures_def valid_names_def
      control_sender_config_def with_defaults_def new_capture_def)

lemma sender_idle: "ct_sender c = Some s \<Longrightarrow> sn_run ops s = Some (s, []) \<Longrightarrow> sender_events ops c = Some c"
  by (cases c) (simp add: sender_events_def)

lemma wait_idle:
  assumes "ct_sender c = Some s" and "ct_current_token c = []" and "\<And>j. i \<le> j \<Longrightarrow> sn_run (polls j) s = Some (s, [])"
  shows "wait_for_token polls n i c = Some c" and "polls_survive polls n i s"
proof -
  have "sender_events (polls j) c = Some c" if "i \<le> j" for j by (rule sender_idle [OF assms(1) assms(3) [OF that]])
  then have "wait_for_token polls n j c = Some c \<and> polls_survive polls n j s" if "i \<le> j" for j
    using that assms by (induction n arbitrary: j) simp_all
  then show "wait_for_token polls n i c = Some c" and "polls_survive polls n i s" by simp_all
qed

lemma ctl_rounds: "1 \<le> j \<Longrightarrow> sn_run (cv_polls ctl_env j) (ctl_sender\<lparr>sn_adm := a\<rparr>) = Some (ctl_sender\<lparr>sn_adm := a\<rparr>, [])"
  by (simp add: ctl_env_def ctl_idle)

lemma ctl_create:
  "\<exists>c'. cmd_sender_create ctl_env (Some ''Cam'') (new_control path :: nat tether_control) = Some (c', ''ERR token not yet issued (timeout)'') \<and>
    map cp_name (ct_peers c') = [''Ann'']"
  "case created_sender ctl_env (Some ''Cam'') (new_control path) of None \<Rightarrow> True
   | Some s \<Rightarrow> polls_survive (cv_polls ctl_env) 50 0 (s :: nat tether_sender)"
proof -
  obtain a where rq: "sn_call demo_request ctl_sender = Some (ctl_sender\<lparr>sn_adm := a\<rparr>, [CbPending ''p1'' ''Ann'' []])"
    using ctl_requested by blast
  have src: "parse_sources ''Cam'' = ([''Cam''], [])" by (simp add: parse_sources_def)
  obtain os where cr: "tether_sender_create demo_sender_env 7 (Some (control_sender_config [''Cam''] [])) (Some control_callbacks) =
      (Some ctl_sender, os)" and os: "\<And>c. fold ctrl_callback os c = c" using ctl_sender_created by blast
  have env: "cv_sender ctl_env = demo_sender_env" "cv_ws ctl_env = 7" "cv_polls ctl_env 0 = [demo_request, ctl_work]"
    by (simp_all add: ctl_env_def demo_ctrl_env_def)
  have run: "sn_run [demo_request, ctl_work] ctl_sender = Some (ctl_sender\<lparr>sn_adm := a\<rparr>, [CbPending ''p1'' ''Ann'' []])"
    by (simp add: rq ctl_idle)
  have fifty: "(50 :: nat) = Suc 49" by simp
  let ?c = "(new_control path :: nat tether_control)\<lparr>ct_sender := Some ctl_sender\<rparr>"
  let ?c1 = "on_sender_pending (Some ''p1'') (Some ''Ann'') (Some []) ((new_control path :: nat tether_control)\<lparr>ct_sender := Some (ctl_sender\<lparr>sn_adm := a\<rparr>)\<rparr>)"
  have ev: "sender_events [demo_request, ctl_work] ?c = Some ?c1"
    unfolding sender_events_def by (simp add: run del: sn_run.simps)
  have t: "ct_current_token ?c1 = []" "ct_sender ?c1 = Some (ctl_sender\<lparr>sn_adm := a\<rparr>)"
    by (simp_all add: on_sender_pending_def new_control_def)
  have w: "wait_for_token (cv_polls ctl_env) 50 0 ?c = Some ?c1"
    unfolding fifty wait_for_token.simps env(3) ev option.case t(1)
    using wait_idle(1) [OF t(2,1) ctl_rounds, of 1] by simp
  have "cmd_sender_create ctl_env (Some ''Cam'') (new_control path) = Some (?c1, ''ERR token not yet issued (timeout)'')"
    using w t(1) by (simp add: cmd_sender_create_def src env(1,2) cr os new_control_def)
  moreover have "map cp_name (ct_peers ?c1) = [''Ann'']"
    by (simp add: on_sender_pending_def new_control_def copy_field_def strncpy_buf_def)
  ultimately show "\<exists>c'. cmd_sender_create ctl_env (Some ''Cam'') (new_control path :: nat tether_control) = Some (c', ''ERR token not yet issued (timeout)'') \<and>
    map cp_name (ct_peers c') = [''Ann'']" by (intro exI [of _ ?c1] conjI)
  have "polls_survive (cv_polls ctl_env) 50 0 ctl_sender"
    unfolding fifty polls_survive.simps env(3) run option.case prod.case using wait_idle(2) [OF t(2,1) ctl_rounds, of 1] by simp
  then show "case created_sender ctl_env (Some ''Cam'') (new_control path) of None \<Rightarrow> True
   | Some s \<Rightarrow> polls_survive (cv_polls ctl_env) 50 0 (s :: nat tether_sender)"
    by (simp add: created_sender_def src env(1,2) cr)
qed

lemma ctl_line: "split_command (strip_line (line_of ''sender-create Cam'')) = (''sender-create'', Some ''Cam'')"
proof -
  have "line_of ''sender-create Cam'' = ''sender-create Cam''" by (simp add: line_of_def CTRL_BUF_def NUL_def)
  then show ?thesis by (simp add: split_command_def strip_line_def trailing_def)
qed

lemma every_line_answered_witness:
  "\<exists>c m. serve (Some ''sender-create Cam'') (replicate 40 (Wrote 1)) ctl_env
     (new_control ''/tmp/t'' :: nat tether_control, sw_mod demo_src_world) =
       Some ((c, m), ''ERR token not yet issued (timeout)'' @ [newline]) \<and> ctrl_inv {#} (c, m) demo_src_world"
proof -
  let ?c = "new_control ''/tmp/t'' :: nat tether_control"
  have "calm ?c ctl_env (line_of ''sender-create Cam'')" using ctl_create(2) [of "''/tmp/t''"] by (simp add: calm_def ctl_line)
  from every_line_answered [OF demo_ctrl_inv this] obtain c' m' r where
    d: "dispatch ctl_env (line_of ''sender-create Cam'') (?c, sw_mod demo_src_world) = Some ((c', m'), r)"
    and inv: "ctrl_inv {#} (c', m') demo_src_world"
    and sv: "\<And>rs. WriteError \<notin> set rs \<Longrightarrow> length r + 1 \<le> progress rs \<Longrightarrow>
      serve (Some ''sender-create Cam'') rs ctl_env (?c, sw_mod demo_src_world) =
        Some ((c', m'), if last r = newline then r else r @ [newline])" by auto
  have r: "r = ''ERR token not yet issued (timeout)''"
    using d ctl_create(1) [of "''/tmp/t''"] by (auto simp: dispatch_def ctl_line)
  have "progress (replicate 40 (Wrote 1)) = 40" by (simp add: progress_def)
  with sv [of "replicate 40 (Wrote 1)"] r inv show ?thesis by (auto simp: newline_def)
qed

lemma forget_ends_what_it_holds_witness:
  "\<exists>c' m' r. dispatch demo_ctrl_env (''receive-forget TTHR-ABCD-EFGH-JKMN'' @ [newline])
      (new_control ''/tmp/t'' :: nat tether_control, sw_mod demo_src_world) = Some ((c', m'), r) \<and>
    (\<exists>a. rx_token_at (rm_rx m') a = Some demo_token)"
proof -
  have sp: "split_command (strip_line (''receive-forget TTHR-ABCD-EFGH-JKMN'' @ [newline])) = (''receive-forget'', Some demo_token)"
    by (simp add: split_command_def strip_line_def trailing_def newline_def demo_token_def)
  have "demo_token \<noteq> []" by (simp add: demo_token_def)
  from forget_ends_what_it_holds [OF demo_ctrl_inv sp this, of demo_ctrl_env] obtain c' m' r where
    d: "dispatch demo_ctrl_env (''receive-forget TTHR-ABCD-EFGH-JKMN'' @ [newline])
      (new_control ''/tmp/t'' :: nat tether_control, sw_mod demo_src_world) = Some ((c', m'), r)"
    and iff: "(\<exists>a. rx_token_at (rm_rx m') a = Some demo_token) \<longleftrightarrow>
      (\<exists>u s. sw_sources demo_src_world u = Some s \<and> so_sub s \<noteq> None \<and> so_token s = Some demo_token)" by fastforce
  have "sw_sources demo_src_world 0 = Some demo_source" "so_sub demo_source \<noteq> None" "so_token demo_source = Some demo_token"
    by (simp_all add: demo_src_world_def demo_source_def)
  with iff d show ?thesis by blast
qed

text \<open>A client has a sender created, and a request arrives after the command has ended.\<close>

definition ctl_events :: "worker_event list" where
  "ctl_events = [AcceptAgain, Accepted (Some ''sender-create Cam'') (replicate 40 (Wrote 1)) demo_ctrl_env, SenderActs [demo_request]]"

definition long_path_env :: init_env where
  "long_path_env = \<lparr>ie_control = Some ''1'', ie_socket = Some (replicate 300 CHR ''x''), ie_pid = 7,
     ie_socket_rc = 3, ie_bind = 0, ie_listen = 0\<rparr>"

lemma ctl_worker:
  "\<exists>c' outs. worker ctl_events (new_control path :: nat tether_control, m) = Some ((c', m), outs) \<and> map cp_name (ct_peers c') = [''Ann'']"
proof -
  obtain a where rq: "sn_call demo_request ctl_sender = Some (ctl_sender\<lparr>sn_adm := a\<rparr>, [CbPending ''p1'' ''Ann'' []])"
    using ctl_requested by blast
  obtain os where cr: "tether_sender_create demo_sender_env 7 (Some (control_sender_config [''Cam''] [])) (Some control_callbacks) =
      (Some ctl_sender, os)" and os: "\<And>c. fold ctrl_callback os c = c" using ctl_sender_created by blast
  let ?c = "(new_control path :: nat tether_control)\<lparr>ct_sender := Some ctl_sender\<rparr>"
  have t: "ct_sender ?c = Some ctl_sender" "ct_current_token ?c = []" by (simp_all add: new_control_def)
  have w: "wait_for_token (cv_polls demo_ctrl_env) 50 0 ?c = Some ?c"
    by (rule wait_idle(1) [OF t]) (simp add: demo_ctrl_env_def)
  have src: "parse_sources ''Cam'' = ([''Cam''], [])" by (simp add: parse_sources_def)
  have env: "cv_sender demo_ctrl_env = demo_sender_env" "cv_ws demo_ctrl_env = 7" by (simp_all add: demo_ctrl_env_def)
  have "cmd_sender_create demo_ctrl_env (Some ''Cam'') (new_control path :: nat tether_control) =
      Some (?c, ''ERR token not yet issued (timeout)'')"
    using w t(2) by (simp add: cmd_sender_create_def src env cr os) (simp add: new_control_def)
  then obtain out where sv: "serve (Some ''sender-create Cam'') (replicate 40 (Wrote 1)) demo_ctrl_env
      (new_control path :: nat tether_control, m) = Some ((?c, m), out)"
    by (simp add: serve_def dispatch_def ctl_line)
  have ev: "sender_events [demo_request] ?c = Some (on_sender_pending (Some ''p1'') (Some ''Ann'') (Some [])
      ((new_control path)\<lparr>ct_sender := Some (ctl_sender\<lparr>sn_adm := a\<rparr>)\<rparr>))"
    by (simp add: sender_events_def rq)
  have "\<not> ct_stop (new_control path :: nat tether_control)" by (simp add: new_control_def)
  then have "worker ctl_events (new_control path :: nat tether_control, m) = Some ((on_sender_pending (Some ''p1'') (Some ''Ann'') (Some [])
      ((new_control path :: nat tether_control)\<lparr>ct_sender := Some (ctl_sender\<lparr>sn_adm := a\<rparr>)\<rparr>), m), [out])"
    using sv ev by (simp add: ctl_events_def)
  moreover have "map cp_name (ct_peers (on_sender_pending (Some ''p1'') (Some ''Ann'') (Some [])
      ((new_control path :: nat tether_control)\<lparr>ct_sender := Some (ctl_sender\<lparr>sn_adm := a\<rparr>)\<rparr>))) = [''Ann'']"
    by (simp add: on_sender_pending_def new_control_def copy_field_def strncpy_buf_def)
  ultimately show ?thesis by (intro exI conjI)
qed

lemma control_state_typed_witness:
  "\<exists>c sys c' m' outs. tether_control_init long_path_env = (Some (c :: nat tether_control), sys) \<and>
    worker ctl_events (c, sw_mod demo_src_world) = Some ((c', m'), outs) \<and> map cp_name (ct_peers c') = [''Ann''] \<and>
    length (ct_socket_path c') < 128 \<and>
    (\<forall>p \<in> set (ct_peers c'). length (cp_name p) < 64 \<and> state_word (cp_state p) \<in> {''waiting'', ''connected'', ''failed''})"
proof -
  obtain sys where i: "tether_control_init long_path_env = (Some (new_control (socket_path_of long_path_env)) :: nat tether_control option, sys)"
    by (simp add: tether_control_init_def long_path_env_def Let_def)
  obtain c' outs where w: "worker ctl_events (new_control (socket_path_of long_path_env) :: nat tether_control, sw_mod demo_src_world) =
      Some ((c', sw_mod demo_src_world), outs)" "map cp_name (ct_peers c') = [''Ann'']"
    using ctl_worker [of "socket_path_of long_path_env" "sw_mod demo_src_world"] by (elim exE conjE) (rule that)
  have "length (ct_socket_path c') < 128 \<and> (\<forall>p \<in> set (ct_peers c'). length (cp_name p) < 64 \<and>
      state_word (cp_state p) \<in> {''waiting'', ''connected'', ''failed''})"
    using control_state_typed [OF i w(1)] by simp
  with i w show ?thesis by (intro exI conjI) (assumption | erule conjunct1 | erule conjunct2)+
qed

end
