(* ===== verification/Receive_Dialog.thy ===== *)
theory Receive_Dialog
  imports Source
begin

text \<open>
  \<open>src/receive-dialog.cpp\<close>: the logic of the window that lists the known tokens, without its widgets: it
  holds one reference to the session of every listed token, and recomputes the list, the states and the
  bitrates on every tick. Qt's text functions and the translation of labels are arguments.
\<close>

section \<open>State\<close>

record stat_sample =
  sa_video_bytes :: u64
  sa_audio_bytes :: u64
  sa_t_ns :: u64

text \<open>One row: what it shows and the token it stands for.\<close>

record dialog_row =
  dr_label :: string
  dr_token :: string

text \<open>
  \<open>rd_sessions\<close> and \<open>rd_last_stats\<close> are the maps of the dialog, \<open>rd_current\<close> is the token of the
  current row.
\<close>

record receive_dialog =
  rd_sessions :: "(string \<times> nat) list"
  rd_last_stats :: "string \<rightharpoonup> stat_sample"
  rd_rows :: "dialog_row list"
  rd_current :: "string option"

text \<open>
  What Qt answers: trimming and upper-casing of what was typed, the translation of a key, the text of
  the two rates for the bytes received and the nanoseconds passed, and the parts of a label put together.
\<close>

record dialog_env =
  de_clean :: "string \<Rightarrow> string"
  de_tr :: "string \<Rightarrow> string"
  de_rates :: "u64 \<Rightarrow> u64 \<Rightarrow> u64 \<Rightarrow> string"
  de_label :: "string \<Rightarrow> string \<Rightarrow> string"
  de_now :: u64
  de_rx :: "string \<Rightarrow> rx_env"

fun state_label_key :: "tether_receive_state \<Rightarrow> string" where
  "state_label_key TETHER_RX_STATE_CONNECTING = ''Receive.State.Connecting''"
| "state_label_key TETHER_RX_STATE_AWAITING_ACCEPT = ''Receive.State.AwaitingAccept''"
| "state_label_key TETHER_RX_STATE_ACCEPTED = ''Receive.State.Accepted''"
| "state_label_key TETHER_RX_STATE_NEGOTIATING = ''Receive.State.Negotiating''"
| "state_label_key TETHER_RX_STATE_CONNECTED = ''Receive.State.Connected''"
| "state_label_key TETHER_RX_STATE_FAILED = ''Receive.State.Failed''"
| "state_label_key TETHER_RX_STATE_CLOSED = ''Receive.State.Closed''"

section \<open>Operations\<close>

text \<open>\<open>if (sessions_.find (tok) == sessions_.end ())\<close>: get a session for a token that has none.\<close>

definition adopt ::
  "rx_env \<Rightarrow> string \<Rightarrow> receive_dialog \<times> rx_world \<Rightarrow> (receive_dialog \<times> rx_world) option" where
  "adopt env tok dw =
     (case dw of (d, w) \<Rightarrow>
        if map_of (rd_sessions d) tok \<noteq> None then Some (d, w)
        else case rx_get env (Some tok) w of
          None \<Rightarrow> None
        | Some (w1, None, outs) \<Rightarrow> Some (d, w1)
        | Some (w1, Some a, outs) \<Rightarrow> Some (d\<lparr>rd_sessions := rd_sessions d @ [(tok, a)]\<rparr>, w1))"

text \<open>The tail of a label, and the statistics kept for the next one.\<close>

definition row_tail ::
  "dialog_env \<Rightarrow> string \<Rightarrow> rx_session option \<Rightarrow> (string \<rightharpoonup> stat_sample) \<Rightarrow> string \<times> (string \<rightharpoonup> stat_sample)" where
  "row_tail env tok s stats =
     (let st = tether_receive_session_state s;
          txt = de_tr env (state_label_key st) in
      case s of
        None \<Rightarrow> (txt, stats)
      | Some v \<Rightarrow>
          if st \<noteq> TETHER_RX_STATE_CONNECTED then (txt, stats)
          else
            (txt @ (case stats tok of
                      None \<Rightarrow> []
                    | Some l \<Rightarrow>
                        if 100000000 < unat (de_now env - sa_t_ns l)
                        then de_rates env (video_bytes (rx_stats v) - sa_video_bytes l)
                               (audio_bytes (rx_stats v) - sa_audio_bytes l) (de_now env - sa_t_ns l)
                        else []),
             stats(tok \<mapsto> \<lparr>sa_video_bytes = video_bytes (rx_stats v), sa_audio_bytes = audio_bytes (rx_stats v),
                          sa_t_ns = de_now env\<rparr>)))"

text \<open>The loop over the known tokens with their names.\<close>

fun list_tokens ::
  "dialog_env \<Rightarrow> (string \<times> string option) list \<Rightarrow> receive_dialog \<times> rx_world \<Rightarrow> (receive_dialog \<times> rx_world) option" where
  "list_tokens env [] dw = Some dw"
| "list_tokens env ((tok, name) # ts) dw =
     (case adopt (de_rx env tok) tok dw of
        None \<Rightarrow> None
      | Some (d, w) \<Rightarrow>
          (case (case map_of (rd_sessions d) tok of None \<Rightarrow> Some None | Some a \<Rightarrow> map_option Some (rx_heap w a)) of
             None \<Rightarrow> None
           | Some s \<Rightarrow>
               (case row_tail env tok s (rd_last_stats d) of
                  (tail, stats) \<Rightarrow>
                    list_tokens env ts
                      (d\<lparr>rd_last_stats := stats,
                         rd_rows := rd_rows d @ [\<lparr>dr_label = de_label env (case name of None \<Rightarrow> tok | Some n \<Rightarrow> n) tail,
                                                  dr_token = tok\<rparr>]\<rparr>, w))))"

text \<open>The loop that drops the sessions of tokens that are no longer listed.\<close>

fun drop_unlisted ::
  "string set \<Rightarrow> (string \<times> nat) list \<Rightarrow> rx_world \<Rightarrow> ((string \<times> nat) list \<times> rx_world) option" where
  "drop_unlisted T [] w = Some ([], w)"
| "drop_unlisted T ((tok, a) # ss) w =
     (if tok \<in> T then map_option (\<lambda>(keep, w'). ((tok, a) # keep, w')) (drop_unlisted T ss w)
      else case tether_receive_session_release (Some a) w of
        None \<Rightarrow> None
      | Some (w1, outs) \<Rightarrow> drop_unlisted T ss w1)"

definition refreshTokenList ::
  "dialog_env \<Rightarrow> receive_dialog \<times> rx_modules \<Rightarrow> (receive_dialog \<times> rx_modules) option" where
  "refreshTokenList env dm =
     (case dm of (d, m) \<Rightarrow>
        case tether_known_tokens_snapshot_with_names True (rm_known m) of
          (toks, n, names) \<Rightarrow>
            (case list_tokens env (zip toks (the names)) (d\<lparr>rd_rows := []\<rparr>, rm_rx m) of
               None \<Rightarrow> None
             | Some (d1, w1) \<Rightarrow>
                 (case drop_unlisted (dr_token ` set (rd_rows d1)) (rd_sessions d1) w1 of
                    None \<Rightarrow> None
                  | Some (keep, w2) \<Rightarrow>
                      Some (d1\<lparr>rd_sessions := keep,
                              rd_current := (if rd_current d \<in> Some ` dr_token ` set (rd_rows d1) then rd_current d else None)\<rparr>,
                            m\<lparr>rm_rx := w2\<rparr>))))"

fun adopt_all ::
  "(string \<Rightarrow> rx_env) \<Rightarrow> string list \<Rightarrow> receive_dialog \<times> rx_world \<Rightarrow> (receive_dialog \<times> rx_world) option" where
  "adopt_all env [] dw = Some dw"
| "adopt_all env (t # ts) dw = (case adopt (env t) t dw of None \<Rightarrow> None | Some dw' \<Rightarrow> adopt_all env ts dw')"

definition new_dialog :: receive_dialog where
  "new_dialog = \<lparr>rd_sessions = [], rd_last_stats = Map.empty, rd_rows = [], rd_current = None\<rparr>"

definition ReceiveDialog :: "dialog_env \<Rightarrow> rx_modules \<Rightarrow> (receive_dialog \<times> rx_modules) option" where
  "ReceiveDialog env m =
     (case adopt_all (de_rx env) (fst (tether_known_tokens_snapshot (rm_known m))) (new_dialog, rm_rx m) of
        None \<Rightarrow> None
      | Some (d, w) \<Rightarrow> refreshTokenList env (d, m\<lparr>rm_rx := w\<rparr>))"

definition releaseAllSessions :: "receive_dialog \<times> rx_modules \<Rightarrow> (receive_dialog \<times> rx_modules) option" where
  "releaseAllSessions dm =
     (case dm of (d, m) \<Rightarrow>
        case release_all (map snd (rd_sessions d)) (rm_rx m) of
          None \<Rightarrow> None
        | Some (w, outs) \<Rightarrow> Some (d\<lparr>rd_sessions := []\<rparr>, m\<lparr>rm_rx := w\<rparr>))"

definition onRegisterToken ::
  "dialog_env \<Rightarrow> string \<Rightarrow> receive_dialog \<times> rx_modules \<Rightarrow> (receive_dialog \<times> rx_modules) option" where
  "onRegisterToken env field dm =
     (case dm of (d, m) \<Rightarrow>
        let token = de_clean env field in
        if token = [] then Some (d, m)
        else
          let m1 = m\<lparr>rm_known := fst (tether_known_tokens_add (Some token) (rm_known m))\<rparr> in
          case adopt (de_rx env token) token (d, rm_rx m1) of
            None \<Rightarrow> None
          | Some (d1, w) \<Rightarrow> refreshTokenList env (d1, m1\<lparr>rm_rx := w\<rparr>))"

definition has_key :: "string \<Rightarrow> string \<times> nat \<Rightarrow> bool" where
  "has_key t p \<longleftrightarrow> fst p = t"

definition onForgetToken ::
  "dialog_env \<Rightarrow> receive_dialog \<times> rx_modules \<Rightarrow> (receive_dialog \<times> rx_modules) option" where
  "onForgetToken env dm =
     (case dm of (d, m) \<Rightarrow>
        if \<not> nonempty_str (rd_current d) then Some (d, m)
        else
          let token = the (rd_current d);
              m1 = m\<lparr>rm_known := fst (tether_known_tokens_remove (Some token) (rm_known m))\<rparr> in
          case map_of (rd_sessions d) token of
            None \<Rightarrow> refreshTokenList env (d, m1)
          | Some a \<Rightarrow>
              (case tether_receive_session_release (Some a) (rm_rx m1) of
                 None \<Rightarrow> None
               | Some (w, outs) \<Rightarrow>
                   refreshTokenList env (d\<lparr>rd_sessions := erase_first (has_key token) (rd_sessions d)\<rparr>, m1\<lparr>rm_rx := w\<rparr>)))"

text \<open>The handler of the rename button; \<open>name\<close> is what the input dialog gives, \<^const>\<open>None\<close> when it is cancelled.\<close>

definition onRenameToken ::
  "dialog_env \<Rightarrow> string option \<Rightarrow> receive_dialog \<times> rx_modules \<Rightarrow> (receive_dialog \<times> rx_modules) option" where
  "onRenameToken env name dm =
     (case dm of (d, m) \<Rightarrow>
        if \<not> nonempty_str (rd_current d) then Some (d, m)
        else case name of
          None \<Rightarrow> Some (d, m)
        | Some n \<Rightarrow>
            refreshTokenList env (d, m\<lparr>rm_known := fst (tether_known_tokens_set_name (rd_current d) (Some n) (rm_known m))\<rparr>))"

section \<open>What the dialog holds\<close>

abbreviation held_refs :: "receive_dialog \<Rightarrow> nat multiset" where
  "held_refs d \<equiv> mset (map snd (rd_sessions d))"

abbreviation held_tokens :: "receive_dialog \<Rightarrow> string set" where
  "held_tokens d \<equiv> fst ` set (rd_sessions d)"

text \<open>
  One reference per token, to the session of that token, besides what the others hold (\<open>refs\<close>) and the
  subscriptions \<open>U\<close> of the sources.
\<close>

definition keys_ok :: "(string \<times> nat) list \<Rightarrow> rx_world \<Rightarrow> bool" where
  "keys_ok ss rx \<longleftrightarrow> distinct (map fst ss) \<and> (\<forall>(t, a) \<in> set ss. rx_token_at rx a = Some t)"

definition dlg_ok :: "nat multiset \<Rightarrow> (nat \<times> nat \<times> nat) set \<Rightarrow> receive_dialog \<times> rx_world \<Rightarrow> bool" where
  "dlg_ok refs U dw \<longleftrightarrow>
     (\<exists>subs. rx_ok (snd dw) (refs + held_refs (fst dw)) subs) \<and> rx_users (snd dw) = U \<and>
     keys_ok (rd_sessions (fst dw)) (snd dw)"

lemma dlg_ok_cong: "rd_sessions d' = rd_sessions d \<Longrightarrow> dlg_ok refs U (d', w) = dlg_ok refs U (d, w)"
  by (simp add: dlg_ok_def)

text \<open>A session for the token can be made.\<close>

fun can_make :: "rx_env \<Rightarrow> string \<Rightarrow> bool" where
  "can_make (env, pc, ws) t \<longleftrightarrow> t \<noteq> [] \<and> fst (session_create_locked env pc ws t) \<noteq> None"

lemma can_make_get:
  assumes "can_make env t" and ok: "rx_ok w refs subs" and g: "rx_get env (Some t) w = Some (w', p, outs)"
  shows "p \<noteq> None"
proof -
  obtain e pc ws where env: "env = (e, pc, ws)" by (metis prod_cases3)
  have "rx_initialised w" using ok by (simp add: rx_ok_def)
  then show ?thesis using assms(1) g
    by (auto simp: env tether_receive_session_get_def split: option.splits prod.splits)
qed

lemma adopt_ok:
  assumes ok: "dlg_ok refs U (d, w)"
  obtains d' w' where "adopt env t (d, w) = Some (d', w')" and "dlg_ok refs U (d', w')" and "keeps_tokens refs U w w'"
    and "d' = d\<lparr>rd_sessions := rd_sessions d'\<rparr>" and "held_tokens d \<subseteq> held_tokens d'"
    and "held_tokens d' \<subseteq> insert t (held_tokens d)" and "can_make env t \<Longrightarrow> t \<in> held_tokens d'"
proof (cases "map_of (rd_sessions d) t")
  case (Some a)
  then have "t \<in> held_tokens d" by (metis Some_eq_map_of_iff fst_conv image_eqI map_of_SomeD)
  then show thesis using that [of d w] ok Some by (auto simp: adopt_def)
next
  case None
  obtain subs where rx: "rx_ok w (refs + held_refs d) subs" and us: "rx_users w = U" and ks: "keys_ok (rd_sessions d) w"
    using ok by (auto simp: dlg_ok_def)
  obtain w1 p o1 where g: "rx_get env (Some t) w = Some (w1, p, o1)" using registry.get_total [OF rx] by blast
  have keep: "rx_token_at w b = Some x \<Longrightarrow> rx_token_at w1 b = Some x" for b x
    by (rule sessions.get_keeps [OF g _ rx])
  have k: "keeps_tokens refs U w w1" using keep by (simp add: keeps_tokens_def)
  have us1: "rx_users w1 = U" using sessions.get_users [OF rx g] us by simp
  have ks1: "keys_ok (rd_sessions d) w1" using ks keep by (auto simp: keys_ok_def)
  show thesis
  proof (cases p)
    case None
    have "rx_ok w1 (refs + held_refs d) subs" using registry.get_none_ok [OF rx] g None by simp
    with us1 ks1 have "dlg_ok refs U (d, w1)" by (auto simp: dlg_ok_def)
    moreover have "\<not> can_make env t" using can_make_get [OF _ rx g] None by blast
    ultimately show thesis using that [of d w1] \<open>map_of (rd_sessions d) t = None\<close> g None k by (auto simp: adopt_def)
  next
    case (Some a)
    from registry.get_held [OF rx g [unfolded Some]] have ok1: "rx_ok w1 (add_mset a (refs + held_refs d)) subs"
      and ta: "rx_token_at w1 a = Some t" by simp_all
    let ?d = "d\<lparr>rd_sessions := rd_sessions d @ [(t, a)]\<rparr>"
    have "t \<notin> held_tokens d" using None by (simp add: map_of_eq_None_iff)
    then have "keys_ok (rd_sessions ?d) w1" using ks1 ta by (auto simp: keys_ok_def)
    moreover have "rx_ok w1 (refs + held_refs ?d) subs" using ok1 by simp
    ultimately have "dlg_ok refs U (?d, w1)" using us1 unfolding dlg_ok_def by auto
    then show thesis using that [of ?d w1] None g Some k by (auto simp: adopt_def)
  qed
qed

lemma list_tokens_ok:
  assumes "dlg_ok refs U (d, w)"
  shows "\<exists>d' w'. list_tokens env ts (d, w) = Some (d', w') \<and> dlg_ok refs U (d', w') \<and> keeps_tokens refs U w w' \<and>
    map dr_token (rd_rows d') = map dr_token (rd_rows d) @ map fst ts \<and> held_tokens d \<subseteq> held_tokens d' \<and>
    held_tokens d' \<subseteq> held_tokens d \<union> set (map fst ts) \<and> rd_current d' = rd_current d \<and>
    (\<forall>t \<in> set (map fst ts). can_make (de_rx env t) t \<longrightarrow> t \<in> held_tokens d')"
  using assms
proof (induction ts arbitrary: d w)
  case (Cons p ts)
  obtain tok name where p: "p = (tok, name)" by fastforce
  obtain d1 w1 where a: "adopt (de_rx env tok) tok (d, w) = Some (d1, w1)" and ok1: "dlg_ok refs U (d1, w1)"
    and k1: "keeps_tokens refs U w w1" and same: "d1 = d\<lparr>rd_sessions := rd_sessions d1\<rparr>"
    and h1: "held_tokens d \<subseteq> held_tokens d1" "held_tokens d1 \<subseteq> insert tok (held_tokens d)"
    "can_make (de_rx env tok) tok \<Longrightarrow> tok \<in> held_tokens d1"
    by (rule adopt_ok [OF Cons.prems]) blast
  have "\<exists>s. (case map_of (rd_sessions d1) tok of None \<Rightarrow> Some None | Some a \<Rightarrow> map_option Some (rx_heap w1 a)) = Some s"
  proof (cases "map_of (rd_sessions d1) tok")
    case (Some a)
    then have "(tok, a) \<in> set (rd_sessions d1)" by (rule map_of_SomeD)
    then have "rx_token_at w1 a = Some tok" using ok1 by (auto simp: dlg_ok_def keys_ok_def)
    then show ?thesis using Some by (auto simp: rx_token_at_def)
  qed simp
  then obtain s where s: "(case map_of (rd_sessions d1) tok of None \<Rightarrow> Some None | Some a \<Rightarrow> map_option Some (rx_heap w1 a)) = Some s"
    by blast
  obtain tail stats where tail: "row_tail env tok s (rd_last_stats d1) = (tail, stats)" by fastforce
  let ?row = "\<lparr>dr_label = de_label env (case name of None \<Rightarrow> tok | Some n \<Rightarrow> n) tail, dr_token = tok\<rparr>"
  let ?d = "d1\<lparr>rd_last_stats := stats, rd_rows := rd_rows d1 @ [?row]\<rparr>"
  have "dlg_ok refs U (?d, w1)" using ok1 by (simp add: dlg_ok_def)
  from Cons.IH [OF this] obtain d' w' where r: "list_tokens env ts (?d, w1) = Some (d', w')" "dlg_ok refs U (d', w')"
    "keeps_tokens refs U w1 w'" "map dr_token (rd_rows d') = map dr_token (rd_rows ?d) @ map fst ts"
    "held_tokens ?d \<subseteq> held_tokens d'" "held_tokens d' \<subseteq> held_tokens ?d \<union> set (map fst ts)" "rd_current d' = rd_current ?d"
    "\<forall>t \<in> set (map fst ts). can_make (de_rx env t) t \<longrightarrow> t \<in> held_tokens d'" by blast
  have step: "list_tokens env (p # ts) (d, w) = Some (d', w')" using p a s tail r(1) by simp
  have rows: "rd_rows d1 = rd_rows d" "rd_current d1 = rd_current d" by (subst same, simp)+
  have k: "keeps_tokens refs U w w'" by (rule keeps_tokens_trans [OF k1 r(3)])
  have se: "rd_sessions ?d = rd_sessions d1" by simp
  have "held_tokens d \<subseteq> held_tokens d'" using h1(1) r(5) unfolding se by (rule subset_trans)
  moreover have "held_tokens d' \<subseteq> held_tokens d \<union> set (map fst (p # ts))"
    using subset_trans [OF r(6) [unfolded se] Un_mono [OF h1(2) subset_refl]] p by auto
  moreover have "can_make (de_rx env tok) tok \<Longrightarrow> tok \<in> held_tokens d'" using h1(3) r(5) unfolding se by (rule subsetD [rotated])
  moreover have "map dr_token (rd_rows d') = map dr_token (rd_rows d) @ map fst (p # ts)" using r(4) rows p by simp
  moreover have "rd_current d' = rd_current d" using r(7) rows by simp
  ultimately show ?case
    using step r(2,8) k p by (intro exI [of _ d'] exI [of _ w'] conjI) auto
qed simp

lemma drop_unlisted_ok:
  assumes "rx_ok rx (refs + mset (map snd ss)) subs"
  shows "\<exists>rx'. drop_unlisted T ss rx = Some (filter (\<lambda>p. fst p \<in> T) ss, rx') \<and>
    rx_ok rx' (refs + mset (map snd (filter (\<lambda>p. fst p \<in> T) ss))) subs \<and> rx_users rx' = rx_users rx \<and>
    keeps_tokens (refs + mset (map snd (filter (\<lambda>p. fst p \<in> T) ss))) (rx_users rx) rx rx'"
  using assms
proof (induction ss arbitrary: rx refs)
  case (Cons p ss)
  obtain t a where p: "p = (t, a)" by fastforce
  show ?case
  proof (cases "t \<in> T")
    case True
    have "rx_ok rx ((refs + {#a#}) + mset (map snd ss)) subs" using Cons.prems p by simp
    from Cons.IH [OF this] True p show ?thesis by auto
  next
    case False
    have "a \<in># refs + mset (map snd (p # ss))" using p by simp
    then obtain w1 o1 where r: "tether_receive_session_release (Some a) rx = Some (w1, o1)"
      and ok1: "rx_ok w1 (refs + mset (map snd (p # ss)) - {#a#}) subs" and us: "rx_users w1 = rx_users rx"
      and k: "\<And>b x. b \<in># refs + mset (map snd (p # ss)) - {#a#} \<or> b \<in> fst ` set subs \<Longrightarrow> rx_token_at rx b = Some x \<Longrightarrow>
        rx_token_at w1 b = Some x"
      by (rule sessions.drop_ref [OF Cons.prems]) blast
    have ok1: "rx_ok w1 (refs + mset (map snd ss)) subs" using ok1 p by simp
    let ?R = "refs + mset (map snd (filter (\<lambda>p. fst p \<in> T) ss))"
    from Cons.IH [OF ok1] obtain rx' where i: "drop_unlisted T ss w1 = Some (filter (\<lambda>p. fst p \<in> T) ss, rx')"
      "rx_ok rx' ?R subs" "rx_users rx' = rx_users w1" "keeps_tokens ?R (rx_users w1) w1 rx'" by blast
    have k1: "keeps_tokens ?R (rx_users rx) rx w1" unfolding keeps_tokens_def
      using k p by (auto simp: subs_users_fst [OF Cons.prems, symmetric])
    have "keeps_tokens ?R (rx_users rx) rx rx'" using keeps_tokens_trans [OF k1] i(4) us by simp
    with i us r p False show ?thesis by simp
  qed
qed simp

definition listed :: "known_tokens \<Rightarrow> string list" where
  "listed k = (if g_initialised k then map te_token (g_entries k) else [])"

lemma snapshot_listed:
  "\<exists>names. tether_known_tokens_snapshot_with_names True k = (listed k, length (listed k), Some names) \<and>
    length names = length (listed k)"
  by (auto simp: tether_known_tokens_snapshot_with_names_def listed_def Let_def intro: nth_equalityI)

lemma refresh_ok:
  assumes ok: "dlg_ok refs U (d, rm_rx m)"
  shows "\<exists>d' m'. refreshTokenList env (d, m) = Some (d', m') \<and> dlg_ok refs U (d', rm_rx m') \<and>
    keeps_tokens refs U (rm_rx m) (rm_rx m') \<and> rm_known m' = rm_known m \<and>
    map dr_token (rd_rows d') = listed (rm_known m) \<and> held_tokens d' \<subseteq> set (listed (rm_known m)) \<and>
    (\<forall>t \<in> set (listed (rm_known m)). can_make (de_rx env t) t \<longrightarrow> t \<in> held_tokens d')"
proof -
  let ?L = "listed (rm_known m)"
  obtain names where sn: "tether_known_tokens_snapshot_with_names True (rm_known m) = (?L, length ?L, Some names)"
    and len: "length names = length ?L" using snapshot_listed by blast
  have f: "map fst (zip ?L names) = ?L" using len by simp
  have "dlg_ok refs U (d\<lparr>rd_rows := []\<rparr>, rm_rx m)" using ok by (simp add: dlg_ok_def)
  from list_tokens_ok [OF this, of env "zip ?L names"] obtain d1 w1 where
    l: "list_tokens env (zip ?L names) (d\<lparr>rd_rows := []\<rparr>, rm_rx m) = Some (d1, w1)" and ok1: "dlg_ok refs U (d1, w1)"
    and k1: "keeps_tokens refs U (rm_rx m) w1" and rows: "map dr_token (rd_rows d1) = ?L"
    and made: "\<forall>t \<in> set ?L. can_make (de_rx env t) t \<longrightarrow> t \<in> held_tokens d1" unfolding f by auto
  define T where "T = dr_token ` set (rd_rows d1)"
  have T: "T = set ?L" unfolding T_def rows [symmetric] by simp
  let ?keep = "filter (\<lambda>p. fst p \<in> T) (rd_sessions d1)"
  obtain subs where rx1: "rx_ok w1 (refs + mset (map snd (rd_sessions d1))) subs" and u1: "rx_users w1 = U"
    and ks: "keys_ok (rd_sessions d1) w1" using ok1 by (auto simp: dlg_ok_def)
  from drop_unlisted_ok [OF rx1, of T] obtain w2 where dr: "drop_unlisted T (rd_sessions d1) w1 = Some (?keep, w2)"
    and rx2: "rx_ok w2 (refs + mset (map snd ?keep)) subs" and u2: "rx_users w2 = rx_users w1"
    and k2: "keeps_tokens (refs + mset (map snd ?keep)) (rx_users w1) w1 w2" by blast
  have "rx_token_at w2 a = Some t" if "(t, a) \<in> set ?keep" for t a
  proof -
    have "a \<in># mset (map snd ?keep)" using that by (simp add: image_iff) force
    moreover have "rx_token_at w1 a = Some t" using that ks by (auto simp: keys_ok_def)
    ultimately show ?thesis using k2 by (simp add: keeps_tokens_def)
  qed
  moreover have "distinct (map fst ?keep)" using ks by (simp add: keys_ok_def distinct_map_filter)
  ultimately have "keys_ok ?keep w2" by (auto simp: keys_ok_def)
  moreover define d' where "d' = d1\<lparr>rd_sessions := ?keep,
    rd_current := (if rd_current d \<in> Some ` T then rd_current d else None)\<rparr>"
  ultimately have ok2: "dlg_ok refs U (d', w2)" using rx2 u2 u1 unfolding dlg_ok_def by auto
  have "keeps_tokens refs U w1 w2" using k2 u1 by (simp add: keeps_tokens_def)
  then have k: "keeps_tokens refs U (rm_rx m) w2" by (rule keeps_tokens_trans [OF k1])
  have "refreshTokenList env (d, m) = Some (d', m\<lparr>rm_rx := w2\<rparr>)"
    using sn l dr by (simp add: refreshTokenList_def d'_def T_def)
  moreover have "held_tokens d' = held_tokens d1 \<inter> T" by (auto simp: d'_def)
  moreover have "map dr_token (rd_rows d') = ?L" using rows by (simp add: d'_def)
  ultimately show ?thesis using ok2 k made T by (intro exI [of _ d'] exI [of _ "m\<lparr>rm_rx := w2\<rparr>"]) auto
qed

definition dlg_well ::
  "nat multiset \<Rightarrow> (nat \<times> nat \<times> nat) set \<Rightarrow> rx_modules \<Rightarrow> (receive_dialog \<times> rx_modules) option \<Rightarrow> bool" where
  "dlg_well refs U m res \<longleftrightarrow> (\<exists>d' m'. res = Some (d', m') \<and> dlg_ok refs U (d', rm_rx m') \<and>
     keeps_tokens refs U (rm_rx m) (rm_rx m') \<and> held_tokens d' \<subseteq> set (listed (rm_known m')) \<and>
     map dr_token (rd_rows d') = listed (rm_known m'))"

lemma refresh_well:
  assumes "dlg_ok refs U (d, rm_rx m1)" and k: "keeps_tokens refs U (rm_rx m) (rm_rx m1)"
  shows "dlg_well refs U m (refreshTokenList env (d, m1))"
  using refresh_ok [OF assms(1), of env] keeps_tokens_trans [OF k] unfolding dlg_well_def by metis

lemma adopt_all_ok:
  assumes "dlg_ok refs U (d, w)"
  shows "\<exists>d' w'. adopt_all env ts (d, w) = Some (d', w') \<and> dlg_ok refs U (d', w') \<and> keeps_tokens refs U w w'"
  using assms
proof (induction ts arbitrary: d w)
  case (Cons t ts)
  obtain d1 w1 where a: "adopt (env t) t (d, w) = Some (d1, w1)" and ok1: "dlg_ok refs U (d1, w1)"
    and k1: "keeps_tokens refs U w w1" by (rule adopt_ok [OF Cons.prems]) blast
  from Cons.IH [OF ok1] a keeps_tokens_trans [OF k1] show ?case by fastforce
qed simp

lemma ReceiveDialog_well:
  assumes "rx_ok (rm_rx m) refs subs" and "rx_users (rm_rx m) = U"
  shows "dlg_well refs U m (ReceiveDialog env m)"
proof -
  have "dlg_ok refs U (new_dialog, rm_rx m)" using assms by (auto simp: dlg_ok_def new_dialog_def keys_ok_def)
  from adopt_all_ok [OF this] obtain d w where
    a: "adopt_all (de_rx env) (fst (tether_known_tokens_snapshot (rm_known m))) (new_dialog, rm_rx m) = Some (d, w)"
    and ok: "dlg_ok refs U (d, w)" and k: "keeps_tokens refs U (rm_rx m) w" by blast
  have "dlg_well refs U m (refreshTokenList env (d, m\<lparr>rm_rx := w\<rparr>))" by (rule refresh_well) (use ok k in simp_all)
  then show ?thesis using a by (simp add: ReceiveDialog_def)
qed

lemma erase_key: "distinct (map fst ss) \<Longrightarrow> map_of ss t = Some a \<Longrightarrow>
    mset (map snd ss) = add_mset a (mset (map snd (erase_first (has_key t) ss))) \<and>
    set (erase_first (has_key t) ss) = {p \<in> set ss. fst p \<noteq> t} \<and> distinct (map fst (erase_first (has_key t) ss))"
proof (induction ss)
  case (Cons p ss)
  obtain u b where p: "p = (u, b)" by fastforce
  show ?case
  proof (cases "u = t")
    case True
    have "\<forall>q \<in> set ss. fst q \<noteq> t" using Cons.prems(1) p True by (auto simp: image_iff)
    with Cons.prems p True show ?thesis by (auto simp: has_key_def)
  next
    case False
    have "erase_first (has_key t) (p # ss) = p # erase_first (has_key t) ss" using p False by (simp add: has_key_def)
    moreover from Cons.IH Cons.prems p False have "mset (map snd ss) = add_mset a (mset (map snd (erase_first (has_key t) ss)))"
      and st: "set (erase_first (has_key t) ss) = {p \<in> set ss. fst p \<noteq> t}"
      and "distinct (map fst (erase_first (has_key t) ss))" by auto
    moreover have "u \<notin> fst ` set (erase_first (has_key t) ss)" using Cons.prems(1) p by (auto simp: st)
    ultimately show ?thesis using p False by auto
  qed
qed simp

lemma forget_well:
  assumes ok: "dlg_ok refs U (d, rm_rx m)" and cur: "nonempty_str (rd_current d)"
  shows "dlg_well refs U m (onForgetToken env (d, m))"
proof -
  obtain t where t: "rd_current d = Some t" "t \<noteq> []" using cur by (cases "rd_current d") auto
  define m1 where "m1 = m\<lparr>rm_known := fst (tether_known_tokens_remove (Some t) (rm_known m))\<rparr>"
  have m1: "rm_rx m1 = rm_rx m" by (simp add: m1_def)
  show ?thesis
  proof (cases "map_of (rd_sessions d) t")
    case None
    have "dlg_well refs U m (refreshTokenList env (d, m1))" by (rule refresh_well) (use ok m1 in simp_all)
    then show ?thesis using cur t None by (simp add: onForgetToken_def m1_def)
  next
    case (Some a)
    let ?ss = "erase_first (has_key t) (rd_sessions d)"
    obtain subs where rx: "rx_ok (rm_rx m) (refs + held_refs d) subs" and us: "rx_users (rm_rx m) = U"
      and ks: "keys_ok (rd_sessions d) (rm_rx m)" using ok by (auto simp: dlg_ok_def)
    have e: "held_refs d = add_mset a (mset (map snd ?ss))" "set ?ss = {p \<in> set (rd_sessions d). fst p \<noteq> t}"
      "distinct (map fst ?ss)" using erase_key [OF _ Some] ks by (simp_all add: keys_ok_def)
    then have "a \<in># refs + held_refs d" by simp
    then obtain w o1 where r: "tether_receive_session_release (Some a) (rm_rx m) = Some (w, o1)"
      and ok1: "rx_ok w (refs + held_refs d - {#a#}) subs" and u1: "rx_users w = rx_users (rm_rx m)"
      and k: "\<And>b x. b \<in># refs + held_refs d - {#a#} \<or> b \<in> fst ` set subs \<Longrightarrow> rx_token_at (rm_rx m) b = Some x \<Longrightarrow>
        rx_token_at w b = Some x"
      by (rule sessions.drop_ref [OF rx]) blast
    have keep: "rx_token_at w b = Some x" if "(x, b) \<in> set ?ss" for x b
    proof (rule k)
      have "b \<in># mset (map snd ?ss)" using that by (force simp: image_iff)
      then show "b \<in># refs + held_refs d - {#a#} \<or> b \<in> fst ` set subs" using e(1) by simp
      show "rx_token_at (rm_rx m) b = Some x" using that ks e(2) by (auto simp: keys_ok_def)
    qed
    let ?d = "d\<lparr>rd_sessions := ?ss\<rparr>"
    have "keys_ok ?ss w" using keep e(3) by (auto simp: keys_ok_def)
    moreover have "rx_ok w (refs + held_refs ?d) subs" using ok1 e(1) by simp
    ultimately have "dlg_ok refs U (?d, w)" using u1 us unfolding dlg_ok_def by auto
    moreover have "fst ` U = fst ` set subs" using subs_users_fst [OF rx] us by simp
    then have "keeps_tokens refs U (rm_rx m) w" unfolding keeps_tokens_def using k e(1) by simp
    ultimately have "dlg_well refs U m (refreshTokenList env (?d, m1\<lparr>rm_rx := w\<rparr>))"
      by (intro refresh_well) simp_all
    then show ?thesis using cur t Some r m1 by (simp add: onForgetToken_def m1_def Let_def)
  qed
qed

lemma register_well:
  assumes ok: "dlg_ok refs U (d, rm_rx m)" and tok: "de_clean env field \<noteq> []"
  shows "dlg_well refs U m (onRegisterToken env field (d, m))"
proof -
  let ?t = "de_clean env field"
  define m1 where "m1 = m\<lparr>rm_known := fst (tether_known_tokens_add (Some ?t) (rm_known m))\<rparr>"
  obtain d1 w where a: "adopt (de_rx env ?t) ?t (d, rm_rx m) = Some (d1, w)" and ok1: "dlg_ok refs U (d1, w)"
    and k: "keeps_tokens refs U (rm_rx m) w" by (rule adopt_ok [OF ok]) blast
  have "dlg_well refs U m (refreshTokenList env (d1, m1\<lparr>rm_rx := w\<rparr>))"
    by (rule refresh_well) (use ok1 k in simp_all)
  then show ?thesis using a tok by (simp add: onRegisterToken_def m1_def Let_def)
qed

section \<open>The life of the dialog\<close>

datatype dlg_op =
    DlgTick dialog_env
  | DlgRegister dialog_env string
  | DlgForget dialog_env
  | DlgRename dialog_env "string option"
  | DlgSelect nat

definition select_row :: "nat \<Rightarrow> receive_dialog \<Rightarrow> receive_dialog" where
  "select_row k d = (if k < length (rd_rows d) then d\<lparr>rd_current := Some (dr_token (rd_rows d ! k))\<rparr> else d)"

fun dlg_call :: "dlg_op \<Rightarrow> receive_dialog \<times> rx_modules \<Rightarrow> (receive_dialog \<times> rx_modules) option" where
  "dlg_call (DlgTick env) dm = refreshTokenList env dm"
| "dlg_call (DlgRegister env field) dm = onRegisterToken env field dm"
| "dlg_call (DlgForget env) dm = onForgetToken env dm"
| "dlg_call (DlgRename env name) dm = onRenameToken env name dm"
| "dlg_call (DlgSelect k) dm = Some (select_row k (fst dm), snd dm)"

lemma dlg_call_ok:
  assumes ok: "dlg_ok refs U (d, rm_rx m)"
  shows "\<exists>d' m'. dlg_call op (d, m) = Some (d', m') \<and> dlg_ok refs U (d', rm_rx m') \<and>
    keeps_tokens refs U (rm_rx m) (rm_rx m')"
proof (cases op)
  case (DlgTick env)
  with refresh_well [OF ok, of m env] show ?thesis by (auto simp: dlg_well_def)
next
  case (DlgRegister env field)
  show ?thesis
  proof (cases "de_clean env field = []")
    case True
    with DlgRegister ok show ?thesis by (simp add: onRegisterToken_def)
  next
    case False
    from register_well [OF ok this] DlgRegister show ?thesis by (auto simp: dlg_well_def)
  qed
next
  case (DlgForget env)
  show ?thesis
  proof (cases "nonempty_str (rd_current d)")
    case False
    with DlgForget ok show ?thesis by (simp add: onForgetToken_def)
  next
    case True
    from forget_well [OF ok this, of env] DlgForget show ?thesis by (auto simp: dlg_well_def)
  qed
next
  case (DlgRename env name)
  show ?thesis
  proof (cases "nonempty_str (rd_current d) \<and> name \<noteq> None")
    case False
    with DlgRename ok show ?thesis by (auto simp: onRenameToken_def)
  next
    case True
    then obtain n where "name = Some n" by blast
    moreover have "dlg_well refs U m (refreshTokenList env
        (d, m\<lparr>rm_known := fst (tether_known_tokens_set_name (rd_current d) (Some n) (rm_known m))\<rparr>))"
      by (rule refresh_well) (use ok in simp_all)
    ultimately show ?thesis using DlgRename True by (auto simp: onRenameToken_def dlg_well_def)
  qed
next
  case (DlgSelect k)
  have "dlg_ok refs U (select_row k d, rm_rx m)" using ok by (simp add: dlg_ok_def select_row_def)
  with DlgSelect show ?thesis by simp
qed

lemma release_dialog_ok:
  assumes ok: "dlg_ok refs U (d, rm_rx m)"
  shows "\<exists>d' w subs. releaseAllSessions (d, m) = Some (d', m\<lparr>rm_rx := w\<rparr>) \<and> rx_ok w refs subs \<and> rx_users w = U \<and>
    keeps_tokens refs U (rm_rx m) w"
proof -
  obtain subs where rx: "rx_ok (rm_rx m) (refs + held_refs d) subs" and us: "rx_users (rm_rx m) = U"
    using ok by (auto simp: dlg_ok_def)
  from release_all_ok [OF rx] obtain w outs where r: "release_all (map snd (rd_sessions d)) (rm_rx m) = Some (w, outs)"
    by blast
  note fr = release_all_frame [OF rx r]
  have "fst ` U = fst ` set subs" using subs_users_fst [OF rx] us by simp
  then have "keeps_tokens refs U (rm_rx m) w" using fr by (simp add: keeps_tokens_def)
  with fr r us show ?thesis by (auto simp: releaseAllSessions_def)
qed

text \<open>C11: The dialog shows what is known and holds what it shows: after every refresh the rows are the known tokens in their
  order; it holds at most one reference per token, only for tokens it shows, to the session of that token, and one for
  every token for which a session can be made; and closing it gives all of them back, leaving the references of the
  others.\<close>

theorem dialog_holds_what_it_lists:
  assumes ok: "dlg_ok refs U (d, rm_rx m)"
  shows "\<exists>d' m'. refreshTokenList env (d, m) = Some (d', m') \<and>
    map dr_token (rd_rows d') = listed (rm_known m) \<and> distinct (map fst (rd_sessions d')) \<and>
    (\<forall>(t, a) \<in> set (rd_sessions d'). t \<in> set (listed (rm_known m)) \<and> rx_token_at (rm_rx m') a = Some t) \<and>
    (\<forall>t \<in> set (listed (rm_known m)). can_make (de_rx env t) t \<longrightarrow> t \<in> fst ` set (rd_sessions d')) \<and>
    (\<exists>d'' m'' subs. releaseAllSessions (d', m') = Some (d'', m'') \<and> rx_ok (rm_rx m'') refs subs \<and> rx_users (rm_rx m'') = U)"
proof -
  from refresh_ok [OF ok, of env] obtain d' m' where r: "refreshTokenList env (d, m) = Some (d', m')"
    and ok': "dlg_ok refs U (d', rm_rx m')" and rows: "map dr_token (rd_rows d') = listed (rm_known m)"
    and sub: "held_tokens d' \<subseteq> set (listed (rm_known m))"
    and made: "\<forall>t \<in> set (listed (rm_known m)). can_make (de_rx env t) t \<longrightarrow> t \<in> held_tokens d'" by blast
  from release_dialog_ok [OF ok'] obtain d'' w subs where
    rel: "releaseAllSessions (d', m') = Some (d'', m'\<lparr>rm_rx := w\<rparr>)" "rx_ok w refs subs" "rx_users w = U" by blast
  have rel': "\<exists>d'' m'' subs. releaseAllSessions (d', m') = Some (d'', m'') \<and> rx_ok (rm_rx m'') refs subs \<and> rx_users (rm_rx m'') = U"
    by (intro exI conjI) (rule rel(1), use rel in simp_all)
  have ks: "keys_ok (rd_sessions d') (rm_rx m')" using ok' by (simp add: dlg_ok_def)
  then have dist: "distinct (map fst (rd_sessions d'))" by (simp add: keys_ok_def)
  have all: "\<forall>(t, a) \<in> set (rd_sessions d'). t \<in> set (listed (rm_known m)) \<and> rx_token_at (rm_rx m') a = Some t"
    using ks sub by (force simp: keys_ok_def)
  show ?thesis
    by (rule exI [of _ d'], rule exI [of _ m'], intro conjI) (fact r rows dist all made rel')+
qed

definition demo_dialog_env :: dialog_env where
  "demo_dialog_env = \<lparr>de_clean = (\<lambda>s. s), de_tr = (\<lambda>s. s), de_rates = (\<lambda>v a ns. []), de_label = (\<lambda>n t. n @ '' '' @ t), de_now = 9,
     de_rx = (\<lambda>t. (demo_env, 1, 7))\<rparr>"

lemma dialog_holds_what_it_lists_witness:
  "\<exists>d' m'. refreshTokenList demo_dialog_env (new_dialog, sw_mod demo_src_world) = Some (d', m') \<and>
    map dr_token (rd_rows d') = [demo_token] \<and> demo_token \<in> fst ` set (rd_sessions d')"
proof -
  obtain subs where "rx_ok (rm_rx (sw_mod demo_src_world)) {#} subs" using demo_inv(1) by (auto simp: src_inv_def)
  then have "dlg_ok {#} (rx_users (rm_rx (sw_mod demo_src_world))) (new_dialog, rm_rx (sw_mod demo_src_world))"
    by (auto simp: dlg_ok_def new_dialog_def keys_ok_def)
  note th = dialog_holds_what_it_lists [OF this, of demo_dialog_env]
  have l: "listed (rm_known (sw_mod demo_src_world)) = [demo_token]"
    by (simp add: listed_def demo_src_world_def demo_known_def)
  obtain outs where "session_create_locked demo_env 1 7 demo_token = (Some demo_rx, outs)"
    using demo_created by (auto simp: demo_token_def)
  then have "can_make (de_rx demo_dialog_env demo_token) demo_token"
    by (simp add: demo_dialog_env_def demo_token_def)
  with th show ?thesis unfolding l by auto
qed
end
