(* ===== verification/Sender_Dialog.thy ===== *)
theory Sender_Dialog
  imports Sender Control
begin

text \<open>
  \<open>src/sender-dialog.cpp\<close>: the logic of the host's window, without its widgets. It owns at most one sender;
  the sender's callbacks come on other threads and are queued for the thread of the window, which
  handles them one by one. Qt's current row is an argument of the operations that ask for it.
\<close>

section \<open>State\<close>

record peer_row =
  pr_id :: string
  pr_text :: string
  pr_state :: tether_sender_state

datatype dialog_status =
    StatusIdle
  | StatusConnecting
  | StatusNoVideoSource
  | StatusFailed
  | StatusPending nat
  | StatusConnected nat
  | StatusMixed nat nat

text \<open>A callback on its way to the window.\<close>

datatype dialog_post =
    PostToken string
  | PostPending string string string
  | PostState string tether_sender_state
  | PostGone string

text \<open>The lists of sources have a box per row, checked or not.\<close>

record 'f sender_dialog =
  dl_sources :: "(string \<times> bool) list"
  dl_audio :: "(string \<times> bool) list"
  dl_twitch :: bool
  dl_server :: string
  dl_sender :: "'f tether_sender option"
  dl_shutting_down :: bool
  dl_queue :: "dialog_post list"
  dl_token_field :: string
  dl_copy_enabled :: bool
  dl_generate_enabled :: bool
  dl_revoke_enabled :: bool
  dl_status :: dialog_status
  dl_peers :: "peer_row list"

section \<open>The lists of sources\<close>

text \<open>What OBS says of one source: its name, and whether it has video and audio.\<close>

record obs_source_entry =
  os_name :: "string option"
  os_video :: bool
  os_audio :: bool

text \<open>
  A source goes into the lists of what it has, unchecked and once per name; a video source that is in its
  list already is not looked at for audio.
\<close>

definition add_source :: "obs_source_entry \<Rightarrow> 'f sender_dialog \<Rightarrow> 'f sender_dialog" where
  "add_source src d =
     (case os_name src of
        None \<Rightarrow> d
      | Some n \<Rightarrow>
          if os_video src \<and> n \<in> fst ` set (dl_sources d) then d
          else
            let d1 = (if os_video src then d\<lparr>dl_sources := dl_sources d @ [(n, False)]\<rparr> else d) in
            if os_audio src
            then (if n \<in> fst ` set (dl_audio d1) then d1 else d1\<lparr>dl_audio := dl_audio d1 @ [(n, False)]\<rparr>)
            else d1)"

text \<open>The sources OBS enumerates, and those on its output channels, \<^const>\<open>None\<close> where there is none.\<close>

definition populateSourceList ::
  "obs_source_entry list \<Rightarrow> obs_source_entry option list \<Rightarrow> 'f sender_dialog \<Rightarrow> 'f sender_dialog" where
  "populateSourceList srcs channels d =
     fold (\<lambda>c d. case c of None \<Rightarrow> d | Some s \<Rightarrow> add_source s d) channels (fold add_source srcs d)"

section \<open>Callbacks of the sender\<close>

fun dialog_callback :: "'f sender_out \<Rightarrow> dialog_post list" where
  "dialog_callback (CbToken t) = [PostToken t]"
| "dialog_callback (CbPending i n f) = [PostPending i n f]"
| "dialog_callback (CbPeerState i st) = [PostState i st]"
| "dialog_callback (CbPeerGone i) = [PostGone i]"
| "dialog_callback out = []"

definition queue_callbacks :: "'f sender_out list \<Rightarrow> 'f sender_dialog \<Rightarrow> 'f sender_dialog" where
  "queue_callbacks outs d =
     (if dl_shutting_down d then d else d\<lparr>dl_queue := dl_queue d @ concat (map dialog_callback outs)\<rparr>)"

definition refreshStatusLabel :: "'f sender_dialog \<Rightarrow> 'f sender_dialog" where
  "refreshStatusLabel d =
     (let connected = length (filter (\<lambda>r. pr_state r = TETHER_SENDER_STATE_PEER_CONNECTED) (dl_peers d));
          pending = length (filter (\<lambda>r. pr_state r \<noteq> TETHER_SENDER_STATE_PEER_CONNECTED) (dl_peers d)) in
      if 0 < connected \<and> 0 < pending then d\<lparr>dl_status := StatusMixed connected pending\<rparr>
      else if 0 < connected then d\<lparr>dl_status := StatusConnected connected\<rparr>
      else if 0 < pending then d\<lparr>dl_status := StatusPending pending\<rparr>
      else if tether_sender_current_token (dl_sender d) \<noteq> None then d\<lparr>dl_status := StatusIdle\<rparr>
      else d)"

definition postTokenIssued :: "string \<Rightarrow> 'f sender_dialog \<Rightarrow> 'f sender_dialog" where
  "postTokenIssued t d = d\<lparr>dl_token_field := t, dl_copy_enabled := True, dl_status := StatusIdle\<rparr>"

definition postPendingPeer :: "string \<Rightarrow> string \<Rightarrow> string \<Rightarrow> 'f sender_dialog \<Rightarrow> 'f sender_dialog" where
  "postPendingPeer i name fp d =
     refreshStatusLabel (d\<lparr>dl_peers := dl_peers d @
       [\<lparr>pr_id = i, pr_text = (if name = [] then i else name) @ ''  ('' @ fp @ '')'',
         pr_state = TETHER_SENDER_STATE_WAITING\<rparr>]\<rparr>)"

text \<open>The dash between spaces, and what stands before its first occurrence.\<close>

definition dash :: string where
  "dash = '' '' @ em_dash @ '' ''"

fun before_dash :: "string \<Rightarrow> string" where
  "before_dash [] = []"
| "before_dash (c # s) = (if starts_with dash (c # s) then [] else c # before_dash s)"

definition state_suffix :: "tether_sender_state \<Rightarrow> string" where
  "state_suffix st = (if st = TETHER_SENDER_STATE_PEER_CONNECTED then dash @ ''connected''
     else if st = TETHER_SENDER_STATE_FAILED then dash @ ''failed'' else [])"

definition is_row :: "string \<Rightarrow> peer_row \<Rightarrow> bool" where
  "is_row i r \<longleftrightarrow> pr_id r = i"

definition postPeerState :: "string \<Rightarrow> tether_sender_state \<Rightarrow> 'f sender_dialog \<Rightarrow> 'f sender_dialog" where
  "postPeerState i st d =
     refreshStatusLabel (d\<lparr>dl_peers := update_first (is_row i)
       (\<lambda>r. r\<lparr>pr_text := before_dash (pr_text r) @ state_suffix st, pr_state := st\<rparr>) (dl_peers d)\<rparr>)"

definition postPeerGone :: "string \<Rightarrow> 'f sender_dialog \<Rightarrow> 'f sender_dialog" where
  "postPeerGone i d = refreshStatusLabel (d\<lparr>dl_peers := erase_first (is_row i) (dl_peers d)\<rparr>)"

fun handle_post :: "dialog_post \<Rightarrow> 'f sender_dialog \<Rightarrow> 'f sender_dialog" where
  "handle_post (PostToken t) d = postTokenIssued t d"
| "handle_post (PostPending i n f) d = postPendingPeer i n f d"
| "handle_post (PostState i st) d = postPeerState i st d"
| "handle_post (PostGone i) d = postPeerGone i d"

text \<open>The event loop of the window handles the oldest callback, or all of them.\<close>

definition handle_next :: "'f sender_dialog \<Rightarrow> 'f sender_dialog" where
  "handle_next d = (case dl_queue d of [] \<Rightarrow> d | p # ps \<Rightarrow> handle_post p (d\<lparr>dl_queue := ps\<rparr>))"

definition handle_all :: "'f sender_dialog \<Rightarrow> 'f sender_dialog" where
  "handle_all d = fold handle_post (dl_queue d) (d\<lparr>dl_queue := []\<rparr>)"

section \<open>Buttons\<close>

definition checked :: "(string \<times> bool) list \<Rightarrow> string list" where
  "checked rows = map fst (filter snd rows)"

definition dialog_sender_config :: "'f sender_dialog \<Rightarrow> tether_sender_config" where
  "dialog_sender_config d =
     \<lparr>sd_server_url = (if dl_server d = [] then None else Some (dl_server d)), sd_stun_url = None, sd_turn_url = None,
      sd_turn_username = None, sd_turn_credential = None, sd_source_name = None,
      sd_video_source_names = Some (checked (dl_sources d)), sd_audio_source_names = Some (checked (dl_audio d)),
      sd_video_bitrate_kbps = 6000, sd_max_receivers = 4, sd_token_ttl_minutes = 30, sd_reusable_token = True,
      sd_twitch_st_mode = dl_twitch d\<rparr>"

definition dialog_callbacks :: tether_sender_callbacks where
  "dialog_callbacks = \<lparr>cb_on_token = True, cb_on_pending = True, cb_on_peer_state = True, cb_on_peer_gone = True\<rparr>"

definition release_sender :: "sender_env \<Rightarrow> 'f sender_dialog \<Rightarrow> 'f sender_dialog" where
  "release_sender env d =
     (case dl_sender d of
        None \<Rightarrow> d
      | Some s \<Rightarrow> (queue_callbacks (snd (tether_sender_release env (Some s))) d)\<lparr>dl_sender := None\<rparr>)"

definition onGenerateToken :: "sender_env \<Rightarrow> int \<Rightarrow> 'f sender_dialog \<Rightarrow> 'f sender_dialog" where
  "onGenerateToken env ws d =
     (let d1 = release_sender env d in
      if checked (dl_sources d1) = [] then d1\<lparr>dl_status := StatusNoVideoSource\<rparr>
      else case tether_sender_create env ws (Some (dialog_sender_config d1)) (Some dialog_callbacks) of
        (None, outs) \<Rightarrow> (queue_callbacks outs d1)\<lparr>dl_status := StatusFailed\<rparr>
      | (Some s, outs) \<Rightarrow>
          (queue_callbacks outs d1)\<lparr>dl_sender := Some s, dl_generate_enabled := False, dl_revoke_enabled := True,
             dl_status := StatusConnecting\<rparr>)"

definition onRevokeToken :: "sender_env \<Rightarrow> 'f sender_dialog \<Rightarrow> 'f sender_dialog" where
  "onRevokeToken env d =
     (case dl_sender d of
        None \<Rightarrow> d
      | Some s \<Rightarrow>
          (case tether_sender_revoke_token s of
             (s1, outs) \<Rightarrow> release_sender env ((queue_callbacks outs d)\<lparr>dl_sender := Some s1\<rparr>)))
     \<lparr>dl_token_field := [], dl_copy_enabled := False, dl_peers := [], dl_status := StatusIdle,
      dl_generate_enabled := True, dl_revoke_enabled := False\<rparr>"

text \<open>A button that acts on the peer of the current row, when there is one and a sender.\<close>

definition on_current ::
  "string option \<Rightarrow> (string \<Rightarrow> 'f tether_sender \<Rightarrow> 'f tether_sender \<times> 'f sender_out list) \<Rightarrow> 'f sender_dialog \<Rightarrow>
   'f sender_dialog" where
  "on_current sel f d =
     (case (sel, dl_sender d) of
        (Some i, Some s) \<Rightarrow> (case f i s of (s', outs) \<Rightarrow> queue_callbacks outs (d\<lparr>dl_sender := Some s'\<rparr>))
      | _ \<Rightarrow> d)"

definition onAcceptPeer :: "session_env \<Rightarrow> string option \<Rightarrow> 'f sender_dialog \<Rightarrow> 'f sender_dialog" where
  "onAcceptPeer env sel d = on_current sel (\<lambda>i s. tether_sender_accept env s (Some i) True) d"

definition onRejectPeer :: "session_env \<Rightarrow> string option \<Rightarrow> 'f sender_dialog \<Rightarrow> 'f sender_dialog" where
  "onRejectPeer env sel d = on_current sel (\<lambda>i s. tether_sender_reject env s (Some i)) d"

definition onDisconnectPeer :: "session_env \<Rightarrow> string option \<Rightarrow> 'f sender_dialog \<Rightarrow> 'f sender_dialog" where
  "onDisconnectPeer env sel d = on_current sel (\<lambda>i s. tether_sender_disconnect_peer env s (Some i)) d"

text \<open>The destructor.\<close>

definition close_sender_dialog :: "sender_env \<Rightarrow> 'f sender_dialog \<Rightarrow> 'f sender_dialog" where
  "close_sender_dialog env d = release_sender env (d\<lparr>dl_shutting_down := True\<rparr>)"

section \<open>The life of the window\<close>

definition new_window :: "'f sender_dialog" where
  "new_window = \<lparr>dl_sources = [], dl_audio = [], dl_twitch = False, dl_server = [], dl_sender = None,
     dl_shutting_down = False, dl_queue = [], dl_token_field = [], dl_copy_enabled = False, dl_generate_enabled = True,
     dl_revoke_enabled = False, dl_status = StatusIdle, dl_peers = []\<rparr>"

definition SenderDialog :: "obs_source_entry list \<Rightarrow> obs_source_entry option list \<Rightarrow> 'f sender_dialog" where
  "SenderDialog srcs channels = populateSourceList srcs channels new_window"

text \<open>Events of the sender on its own threads.\<close>

definition window_events :: "sn_op list \<Rightarrow> 'f sender_dialog \<Rightarrow> 'f sender_dialog option" where
  "window_events ops d =
     (case dl_sender d of
        None \<Rightarrow> Some d
      | Some s \<Rightarrow> map_option (\<lambda>(s', outs). queue_callbacks outs (d\<lparr>dl_sender := Some s'\<rparr>)) (sn_run ops s))"

datatype window_op =
    WinChoose "(string \<times> bool) list" "(string \<times> bool) list" bool string
  | WinGenerate sender_env int
  | WinRevoke sender_env
  | WinAccept session_env "string option"
  | WinReject session_env "string option"
  | WinDisconnect session_env "string option"
  | WinEvents "sn_op list"
  | WinNext

fun window_call :: "window_op \<Rightarrow> 'f sender_dialog \<Rightarrow> 'f sender_dialog option" where
  "window_call (WinChoose v a twitch server) d =
     Some (d\<lparr>dl_sources := v, dl_audio := a, dl_twitch := twitch, dl_server := server\<rparr>)"
| "window_call (WinGenerate env ws) d = Some (onGenerateToken env ws d)"
| "window_call (WinRevoke env) d = Some (onRevokeToken env d)"
| "window_call (WinAccept env sel) d = Some (onAcceptPeer env sel d)"
| "window_call (WinReject env sel) d = Some (onRejectPeer env sel d)"
| "window_call (WinDisconnect env sel) d = Some (onDisconnectPeer env sel d)"
| "window_call (WinEvents ops) d = window_events ops d"
| "window_call WinNext d = Some (handle_next d)"

section \<open>The window and the command socket show the same\<close>

text \<open>
  Two owners of a sender, fed with the same callbacks: the rows of the window and the peers of the control
  plane, and the token each shows.
\<close>

definition rows_match :: "peer_row list \<Rightarrow> ctrl_peer list \<Rightarrow> bool" where
  "rows_match rows ps \<longleftrightarrow>
     map (\<lambda>r. (pr_id r, peer_state_code (pr_state r))) rows = map (\<lambda>p. (cp_peer_id p, cp_state p)) ps"

text \<open>What fits the fixed buffers of the control plane.\<close>

fun fits_control :: "'f sender_out \<Rightarrow> bool" where
  "fits_control (CbToken t) \<longleftrightarrow> length t < 64"
| "fits_control (CbPending i n f) \<longleftrightarrow> length i < 64"
| "fits_control out \<longleftrightarrow> True"

lemma refresh_frame [simp]:
  "dl_peers (refreshStatusLabel d) = dl_peers d" "dl_token_field (refreshStatusLabel d) = dl_token_field d"
  "dl_queue (refreshStatusLabel d) = dl_queue d" "dl_shutting_down (refreshStatusLabel d) = dl_shutting_down d"
  "dl_sender (refreshStatusLabel d) = dl_sender d"
  by (simp_all add: refreshStatusLabel_def Let_def)

lemma rows_match_update:
  "rows_match rows ps \<Longrightarrow> (\<And>r. pr_id (f r) = pr_id r \<and> pr_state (f r) = st) \<Longrightarrow>
    rows_match (update_first (is_row i) f rows) (update_first (is_ctrl_peer i) (\<lambda>p. p\<lparr>cp_state := peer_state_code st\<rparr>) ps)"
proof (induction rows arbitrary: ps)
  case (Cons r rows)
  then obtain p qs where ps: "ps = p # qs" by (cases ps) (auto simp: rows_match_def)
  with Cons show ?case by (auto simp: rows_match_def is_row_def is_ctrl_peer_def)
qed (simp add: rows_match_def)

lemma rows_match_erase:
  "rows_match rows ps \<Longrightarrow> rows_match (erase_first (is_row i) rows) (erase_first (is_ctrl_peer i) ps)"
proof (induction rows arbitrary: ps)
  case (Cons r rows)
  then obtain p qs where ps: "ps = p # qs" by (cases ps) (auto simp: rows_match_def)
  with Cons show ?case by (auto simp: rows_match_def is_row_def is_ctrl_peer_def)
qed (simp add: rows_match_def)

definition same_view :: "'f sender_dialog \<Rightarrow> 'f tether_control \<Rightarrow> bool" where
  "same_view d c \<longleftrightarrow> rows_match (dl_peers d) (ct_peers c) \<and> dl_token_field d = ct_current_token c"

lemma same_view_step:
  assumes "same_view d c" and "fits_control out"
  shows "same_view (fold handle_post (dialog_callback out) d) (ctrl_callback out c)"
proof (cases out)
  case (CbPending i n f)
  with assms show ?thesis
    by (simp add: same_view_def rows_match_def postPendingPeer_def on_sender_pending_def copy_field_def strncpy_buf_fits
        peer_state_code_def)
next
  case (CbPeerState i st)
  have "rows_match (dl_peers (postPeerState i st d)) (ct_peers (on_sender_peer_state i st c))"
    using assms(1) unfolding postPeerState_def on_sender_peer_state_def
    by (simp add: same_view_def rows_match_update)
  with CbPeerState assms show ?thesis by (simp add: same_view_def postPeerState_def on_sender_peer_state_def)
next
  case (CbPeerGone i)
  with assms show ?thesis by (simp add: same_view_def postPeerGone_def on_sender_peer_gone_def rows_match_erase)
qed (use assms in \<open>simp_all add: same_view_def postTokenIssued_def on_sender_token_def strncpy_buf_fits\<close>)

lemma same_view_run:
  "same_view d c \<Longrightarrow> \<forall>out \<in> set outs. fits_control out \<Longrightarrow>
    same_view (fold handle_post (concat (map dialog_callback outs)) d) (fold ctrl_callback outs c)"
proof (induction outs arbitrary: d c)
  case (Cons out outs)
  then have "same_view (fold handle_post (dialog_callback out) d) (ctrl_callback out c)"
    by (intro same_view_step) simp_all
  with Cons show ?case by simp
qed simp

text \<open>C21: The two views of a sender agree: if the window and the control plane show the same token and the same peers in the
  same states, and the same callbacks of the sender reach both (the window's through its queue), then they show the same
  again, as long as ids and tokens fit the 64-byte buffers of the control plane.\<close>

theorem views_agree:
  assumes "same_view d c" and "dl_queue d = []" and "\<not> dl_shutting_down d" and "\<forall>out \<in> set outs. fits_control out"
  shows "same_view (handle_all (queue_callbacks outs d)) (fold ctrl_callback outs c)"
proof -
  have e: "d\<lparr>dl_queue := []\<rparr> = d" using assms(2) by (cases d) simp
  have "handle_all (queue_callbacks outs d) = fold handle_post (concat (map dialog_callback outs)) d"
    by (simp add: handle_all_def queue_callbacks_def assms(2,3) e)
  with same_view_run [OF assms(1,4)] show ?thesis by simp
qed

section \<open>After a revocation\<close>

lemma queue_grows: "\<exists>ps. dl_queue (queue_callbacks outs d) = dl_queue d @ ps"
  by (simp add: queue_callbacks_def)

lemma revoke_queue: "\<exists>ps. dl_queue (onRevokeToken env d) = dl_queue d @ ps"
proof (cases "dl_sender d")
  case (Some s)
  then show ?thesis
    by (auto simp: onRevokeToken_def release_sender_def queue_callbacks_def split: prod.splits)
qed (simp add: onRevokeToken_def)

lemma revoke_sender: "dl_sender (onRevokeToken env d) = None"
  by (auto simp: onRevokeToken_def release_sender_def split: option.splits prod.splits)

text \<open>A revocation clears the window, but not what is queued for it: a callback of the sender that was under way when the
  token was revoked is handled afterwards, and the window shows the revoked token, or a peer that waits, of a sender that is
  gone.\<close>

theorem revoked_token_comes_back:
  assumes "dl_queue d = p # ps"
  shows "dl_sender (handle_next (onRevokeToken env d)) = None \<and>
    (\<forall>t. p = PostToken t \<longrightarrow> dl_token_field (handle_next (onRevokeToken env d)) = t \<and>
       dl_copy_enabled (handle_next (onRevokeToken env d))) \<and>
    (\<forall>i n f. p = PostPending i n f \<longrightarrow>
       map pr_id (dl_peers (handle_next (onRevokeToken env d))) = [i] \<and>
       dl_status (handle_next (onRevokeToken env d)) = StatusPending 1)"
proof -
  obtain qs where q: "dl_queue (onRevokeToken env d) = p # qs" using revoke_queue [of env d] assms by auto
  have s: "dl_sender (handle_post p (d0\<lparr>dl_queue := x\<rparr>)) = dl_sender d0" for d0 :: "'a sender_dialog" and x
    by (cases p) (simp_all add: postTokenIssued_def postPendingPeer_def postPeerState_def postPeerGone_def)
  have rows: "dl_peers (onRevokeToken env d) = []" by (simp add: onRevokeToken_def)
  show ?thesis
    using q s [of qs "onRevokeToken env d"] revoke_sender [of env d] rows
    by (auto simp: handle_next_def postTokenIssued_def postPendingPeer_def refreshStatusLabel_def Let_def)
qed

definition demo_window :: "nat sender_dialog" where
  "demo_window = SenderDialog [\<lparr>os_name = Some ''Scene'', os_video = True, os_audio = False\<rparr>] [None]"

lemma demo_window_fields [simp]:
  "dl_peers demo_window = []" "dl_token_field demo_window = []" "dl_queue demo_window = []" "\<not> dl_shutting_down demo_window"
  by (simp_all add: demo_window_def SenderDialog_def populateSourceList_def add_source_def new_window_def)

lemma views_agree_witness:
  "map pr_id (dl_peers (handle_all (queue_callbacks
     [CbToken ''T'', CbPending ''p'' ''n'' [], CbPending ''q'' [] [], CbPeerState ''q'' TETHER_SENDER_STATE_FAILED, CbPeerGone ''p''] demo_window))) =
   map cp_peer_id (ct_peers (fold ctrl_callback
     [CbToken ''T'', CbPending ''p'' ''n'' [], CbPending ''q'' [] [], CbPeerState ''q'' TETHER_SENDER_STATE_FAILED, CbPeerGone ''p'']
     (new_control ''/tmp/t'' :: nat tether_control)))"
proof -
  let ?outs = "[CbToken ''T'', CbPending ''p'' ''n'' [], CbPending ''q'' [] [], CbPeerState ''q'' TETHER_SENDER_STATE_FAILED, CbPeerGone ''p''] :: nat sender_out list"
  have "same_view demo_window (new_control ''/tmp/t'' :: nat tether_control)"
    by (simp add: same_view_def rows_match_def new_control_def)
  then have "same_view (handle_all (queue_callbacks ?outs demo_window)) (fold ctrl_callback ?outs (new_control ''/tmp/t''))"
    by (rule views_agree) simp_all
  then have "map fst (map (\<lambda>r. (pr_id r, peer_state_code (pr_state r))) (dl_peers (handle_all (queue_callbacks ?outs demo_window)))) =
      map fst (map (\<lambda>p. (cp_peer_id p, cp_state p)) (ct_peers (fold ctrl_callback ?outs (new_control ''/tmp/t''))))"
    unfolding same_view_def rows_match_def by presburger
  then show ?thesis by (simp add: comp_def del: fold_simps)
qed

lemma revoked_token_comes_back_witness:
  "dl_token_field (handle_next (onRevokeToken demo_sender_env (demo_window\<lparr>dl_queue := [PostToken ''T'']\<rparr>))) = ''T''"
  using revoked_token_comes_back [of "demo_window\<lparr>dl_queue := [PostToken ''T'']\<rparr>" "PostToken ''T''" "[]" demo_sender_env] by simp

end
