(* ===== verification/Plugin.thy ===== *)
theory Plugin
  imports Control Receive_Dialog Sender_Dialog
begin

text \<open>
  \<open>src/plugin-main.c\<close>: what is started and stopped when OBS loads and unloads the plugin, and in which
  order; and the running plugin as one machine, in which the command socket, the two dialogs, the sources
  and the network share the registry of sessions and the list of known tokens. The hub dialog only opens the
  other two and has no state.
\<close>

section \<open>Load and unload\<close>

text \<open>
  \<open>pl_count\<close> is the reference count of the WebRTC library, \<open>pl_closed\<close> and \<open>pl_closed_window\<close> are dialogs that
  were closed and whose destructors Qt runs when control comes back to the event loop
  (\<open>WA_DeleteOnClose\<close>).
\<close>

record 'f plugin =
  pl_count :: int
  pl_control :: "'f tether_control option"
  pl_dialog :: "receive_dialog option"
  pl_closed :: "receive_dialog option"
  pl_window :: "'f sender_dialog option"
  pl_closed_window :: "'f sender_dialog option"
  pl_world :: source_world

definition with_modules :: "rx_modules \<Rightarrow> 'f plugin \<Rightarrow> 'f plugin" where
  "with_modules m p = p\<lparr>pl_world := (pl_world p)\<lparr>sw_mod := m\<rparr>\<rparr>"

definition obs_module_load ::
  "init_env \<Rightarrow> 'f plugin \<Rightarrow> 'f plugin \<times> bool \<times> ctrl_sys list \<times> rtc_global_out list" where
  "obs_module_load env p =
     (case tether_webrtc_global_init (pl_count p) of
        (n, False, go) \<Rightarrow> (p\<lparr>pl_count := n\<rparr>, False, [], go)
      | (n, True, go) \<Rightarrow>
          let m = sw_mod (pl_world p);
              m' = \<lparr>rm_rx = tether_receive_session_init (rm_rx m), rm_known = tether_known_tokens_init (rm_known m)\<rparr> in
          case tether_control_init env of
            (c, sys) \<Rightarrow> ((with_modules m' p)\<lparr>pl_count := n, pl_control := c\<rparr>, True, sys, go))"

definition tether_close_receive_dialog :: "'f plugin \<Rightarrow> 'f plugin" where
  "tether_close_receive_dialog p =
     (case pl_dialog p of None \<Rightarrow> p | Some d \<Rightarrow> p\<lparr>pl_dialog := None, pl_closed := Some d\<rparr>)"

definition tether_close_sender_dialog :: "'f plugin \<Rightarrow> 'f plugin" where
  "tether_close_sender_dialog p =
     (case pl_window p of None \<Rightarrow> p | Some d \<Rightarrow> p\<lparr>pl_window := None, pl_closed_window := Some d\<rparr>)"

definition tether_close_all_dialogs :: "'f plugin \<Rightarrow> 'f plugin" where
  "tether_close_all_dialogs p = tether_close_receive_dialog (tether_close_sender_dialog p)"

text \<open>
  \<open>place\<close> is where the worker of the control plane is. \<open>tether_sender_shutdown\<close> and
  \<open>tether_source_shutdown\<close> do nothing.
\<close>

definition obs_module_unload ::
  "sender_env \<Rightarrow> worker_place \<Rightarrow> 'f plugin \<Rightarrow> ('f plugin \<times> ctrl_sys list \<times> rtc_global_out list) outcome option" where
  "obs_module_unload env place p =
     (case tether_control_shutdown env place (pl_control p) (sw_mod (pl_world p)) of
        None \<Rightarrow> None
      | Some NeverReturns \<Rightarrow> Some NeverReturns
      | Some (Returned (c, m, sys, so)) \<Rightarrow>
          let p1 = tether_close_all_dialogs ((with_modules m p)\<lparr>pl_control := c\<rparr>) in
          (case tether_receive_session_shutdown (rm_rx m) of
             None \<Rightarrow> None
           | Some (w, outs) \<Rightarrow>
               (case tether_webrtc_global_shutdown (pl_count p1) of
                  (n, go) \<Rightarrow>
                    Some (Returned ((with_modules \<lparr>rm_rx = w, rm_known = tether_known_tokens_shutdown (rm_known m)\<rparr> p1)
                            \<lparr>pl_count := n\<rparr>, sys, go)))))"


section \<open>The running plugin\<close>

datatype 'f pl_op =
    PlLine ctrl_env string
  | PlSender "sn_op list"
  | PlOpen dialog_env
  | PlDialog dlg_op
  | PlClose
  | PlOpenWindow "obs_source_entry list" "obs_source_entry option list"
  | PlWindow window_op
  | PlCloseWindow
  | PlSource "'f src_op"

fun pl_call :: "'f pl_op \<Rightarrow> 'f plugin \<Rightarrow> 'f plugin option" where
  "pl_call (PlLine env line) p =
     (case pl_control p of
        None \<Rightarrow> Some p
      | Some c \<Rightarrow>
          (case dispatch env line (c, sw_mod (pl_world p)) of
             None \<Rightarrow> None
           | Some ((c', m), r) \<Rightarrow> Some ((with_modules m p)\<lparr>pl_control := Some c'\<rparr>)))"
| "pl_call (PlSender ops) p =
     (case pl_control p of
        None \<Rightarrow> Some p
      | Some c \<Rightarrow> map_option (\<lambda>c'. p\<lparr>pl_control := Some c'\<rparr>) (sender_events ops c))"
| "pl_call (PlOpen env) p =
     (if pl_dialog p \<noteq> None then Some p
      else case ReceiveDialog env (sw_mod (pl_world p)) of
        None \<Rightarrow> None
      | Some (d, m) \<Rightarrow> Some ((with_modules m p)\<lparr>pl_dialog := Some d\<rparr>))"
| "pl_call (PlDialog op) p =
     (case pl_dialog p of
        None \<Rightarrow> Some p
      | Some d \<Rightarrow>
          (case dlg_call op (d, sw_mod (pl_world p)) of
             None \<Rightarrow> None
           | Some (d', m) \<Rightarrow> Some ((with_modules m p)\<lparr>pl_dialog := Some d'\<rparr>)))"
| "pl_call PlClose p =
     (case pl_dialog p of
        None \<Rightarrow> Some p
      | Some d \<Rightarrow>
          (case releaseAllSessions (d, sw_mod (pl_world p)) of
             None \<Rightarrow> None
           | Some (d', m) \<Rightarrow> Some ((with_modules m p)\<lparr>pl_dialog := None\<rparr>)))"
| "pl_call (PlOpenWindow srcs channels) p =
     (if pl_window p \<noteq> None then Some p else Some (p\<lparr>pl_window := Some (SenderDialog srcs channels)\<rparr>))"
| "pl_call (PlWindow op) p =
     (case pl_window p of
        None \<Rightarrow> Some p
      | Some d \<Rightarrow> map_option (\<lambda>d'. p\<lparr>pl_window := Some d'\<rparr>) (window_call op d))"
| "pl_call PlCloseWindow p = Some (p\<lparr>pl_window := None\<rparr>)"
| "pl_call (PlSource op) p =
     (case src_call op (pl_world p) of
        None \<Rightarrow> None
      | Some (w, outs) \<Rightarrow> Some (p\<lparr>pl_world := w\<rparr>))"

fun pl_run :: "'f pl_op list \<Rightarrow> 'f plugin \<Rightarrow> 'f plugin option" where
  "pl_run [] p = Some p"
| "pl_run (op # ops) p = (case pl_call op p of None \<Rightarrow> None | Some p' \<Rightarrow> pl_run ops p')"

text \<open>
  What an operation may rely on: no source is detached while a callback to it is in flight, and the events
  of the sender do not crash its encoder.
\<close>

fun pl_fine :: "'f pl_op \<Rightarrow> 'f plugin \<Rightarrow> bool" where
  "pl_fine (PlSource op) p \<longleftrightarrow> settled op (pl_world p)"
| "pl_fine (PlLine env line) p \<longleftrightarrow> (case pl_control p of None \<Rightarrow> True | Some c \<Rightarrow> calm c env line)"
| "pl_fine (PlSender ops) p \<longleftrightarrow> (case pl_control p of None \<Rightarrow> True | Some c \<Rightarrow> sender_events ops c \<noteq> None)"
| "pl_fine (PlWindow op) p \<longleftrightarrow> (case pl_window p of None \<Rightarrow> True | Some d \<Rightarrow> window_call op d \<noteq> None)"
| "pl_fine op p \<longleftrightarrow> True"

fun pl_orderly :: "'f pl_op list \<Rightarrow> 'f plugin \<Rightarrow> bool" where
  "pl_orderly [] p \<longleftrightarrow> True"
| "pl_orderly (op # ops) p \<longleftrightarrow> pl_fine op p \<and> (case pl_call op p of None \<Rightarrow> True | Some p' \<Rightarrow> pl_orderly ops p')"

section \<open>The accounts of the whole plugin\<close>

definition ctrl_refs :: "'f plugin \<Rightarrow> nat multiset" where
  "ctrl_refs p = (case pl_control p of None \<Rightarrow> {#} | Some c \<Rightarrow> mset (ct_held c))"

definition dlg_refs :: "'f plugin \<Rightarrow> nat multiset" where
  "dlg_refs p = (case pl_dialog p of None \<Rightarrow> {#} | Some d \<Rightarrow> held_refs d)"

abbreviation pl_rx :: "'f plugin \<Rightarrow> rx_world" where
  "pl_rx p \<equiv> rm_rx (sw_mod (pl_world p))"

definition dlg_keys :: "receive_dialog option \<Rightarrow> rx_world \<Rightarrow> bool" where
  "dlg_keys d rx \<longleftrightarrow> (case d of None \<Rightarrow> True | Some v \<Rightarrow> keys_ok (rd_sessions v) rx)"

lemma dlg_keys_simps [simp]: "dlg_keys None rx" "dlg_keys (Some d) rx = keys_ok (rd_sessions d) rx"
  by (simp_all add: dlg_keys_def)

definition pl_inv :: "'f plugin \<Rightarrow> bool" where
  "pl_inv p \<longleftrightarrow> src_inv (ctrl_refs p + dlg_refs p) (pl_world p) \<and> inflight_ok (pl_world p) \<and>
     dlg_keys (pl_dialog p) (pl_rx p)"

lemma keys_ok_kept:
  assumes "keys_ok ss rx" and "keeps_tokens refs U rx rx'" and "mset (map snd ss) \<subseteq># refs"
  shows "keys_ok ss rx'"
proof -
  have "rx_token_at rx' a = Some t" if "(t, a) \<in> set ss" for t a
  proof -
    have "a \<in># mset (map snd ss)" using that by (force simp: image_iff)
    then have "a \<in># refs" using assms(3) by (rule mset_subset_eqD [rotated])
    moreover have "rx_token_at rx a = Some t" using assms(1) that by (auto simp: keys_ok_def)
    ultimately show ?thesis using assms(2) by (simp add: keeps_tokens_def)
  qed
  with assms(1) show ?thesis by (auto simp: keys_ok_def)
qed

lemma inflight_mod [simp]: "inflight_ok (w\<lparr>sw_mod := m\<rparr>) = inflight_ok w"
  by (simp add: inflight_ok_def)

lemma keys_of_dialog:
  "pl_inv p \<Longrightarrow> keeps_tokens (ctrl_refs p + dlg_refs p) {} (pl_rx p) rx' \<Longrightarrow>
    dlg_keys (pl_dialog p) rx'"
  using keys_ok_kept [of _ "pl_rx p" "ctrl_refs p + dlg_refs p" "{}" rx']
  by (cases "pl_dialog p") (auto simp: pl_inv_def dlg_refs_def)

lemma pl_source_ok:
  assumes inv: "pl_inv p" and "settled op (pl_world p)"
  shows "\<exists>p'. pl_call (PlSource op) p = Some p' \<and> pl_inv p'"
proof -
  from inv have "src_inv (ctrl_refs p + dlg_refs p) (pl_world p)" "inflight_ok (pl_world p)" by (simp_all add: pl_inv_def)
  from src_call_well [OF this assms(2)] obtain w outs where c: "src_call op (pl_world p) = Some (w, outs)" "src_inv (ctrl_refs p + dlg_refs p) w"
    "inflight_ok w" and k: "keeps_tokens (ctrl_refs p + dlg_refs p) {} (pl_rx p) (rm_rx (sw_mod w))"
    by (auto simp: src_goes_well_def)
  with keys_of_dialog [OF inv k] show ?thesis by (simp add: pl_inv_def ctrl_refs_def dlg_refs_def)
qed

lemma keeps_sum: "keeps_tokens refs {} w w' \<Longrightarrow> r \<subseteq># refs \<Longrightarrow> keeps_tokens r {} w w'"
  by (auto simp: keeps_tokens_def dest: mset_subset_eqD)

lemma pl_line_ok:
  assumes inv: "pl_inv p" and c: "pl_control p = Some c" and calm: "calm c env line"
  shows "\<exists>p'. pl_call (PlLine env line) p = Some p' \<and> pl_inv p'"
proof -
  have "ctrl_inv (dlg_refs p) (c, sw_mod (pl_world p)) (pl_world p)"
    using inv c by (simp add: pl_inv_def ctrl_inv_def ctrl_refs_def add.commute)
  from dispatch_ok [OF this calm] obtain c' m r where
    d: "dispatch env line (c, sw_mod (pl_world p)) = Some ((c', m), r)" and i: "ctrl_inv (dlg_refs p) (c', m) (pl_world p)"
    and k: "keeps_tokens (dlg_refs p) {} (pl_rx p) (rm_rx m)" by (auto simp: command_ok_def)
  have "dlg_keys (pl_dialog p) (rm_rx m)"
    using keys_ok_kept [OF _ k] inv by (cases "pl_dialog p") (auto simp: pl_inv_def dlg_refs_def)
  with d i c inv show ?thesis
    by (simp add: pl_inv_def ctrl_inv_def ctrl_refs_def dlg_refs_def with_modules_def add.commute)
qed

lemma pl_dialog_result:
  assumes inv: "pl_inv p" and ok: "dlg_ok (ctrl_refs p) (rx_users (pl_rx p)) (d, rm_rx m)"
    and k: "keeps_tokens (ctrl_refs p) (rx_users (pl_rx p)) (pl_rx p) (rm_rx m)"
  shows "pl_inv ((with_modules m p)\<lparr>pl_dialog := Some d\<rparr>)"
proof -
  obtain subs where rx: "rx_ok (rm_rx m) (ctrl_refs p + held_refs d) subs" and us: "rx_users (rm_rx m) = rx_users (pl_rx p)"
    and ks: "keys_ok (rd_sessions d) (rm_rx m)" using ok by (auto simp: dlg_ok_def)
  from inv have "src_inv (ctrl_refs p + dlg_refs p) (pl_world p)" by (simp add: pl_inv_def)
  from src_inv_rx [OF this rx us k] have "src_inv (ctrl_refs p + held_refs d) ((pl_world p)\<lparr>sw_mod := m\<rparr>)"
    by (simp add: src_inv_def)
  with inv ks show ?thesis by (simp add: pl_inv_def with_modules_def ctrl_refs_def dlg_refs_def)
qed

lemma pl_dlg_ok:
  assumes "pl_inv p" and "pl_dialog p = Some d"
  shows "dlg_ok (ctrl_refs p) (rx_users (pl_rx p)) (d, pl_rx p)"
  using assms by (auto simp: pl_inv_def dlg_ok_def src_inv_def dlg_refs_def)

lemma pl_inv_window: "pl_inv (p\<lparr>pl_window := d\<rparr>) = pl_inv p"
  by (simp add: pl_inv_def ctrl_refs_def dlg_refs_def)

lemma pl_call_ok:
  assumes inv: "pl_inv p" and fine: "pl_fine op p"
  shows "\<exists>p'. pl_call op p = Some p' \<and> pl_inv p'"
proof (cases op)
  case (PlLine env line)
  with pl_line_ok [OF inv] inv fine show ?thesis by (cases "pl_control p") auto
next
  case (PlSender ops)
  show ?thesis
  proof (cases "pl_control p")
    case (Some c)
    with PlSender fine obtain c' where c': "sender_events ops c = Some c'" by auto
    have "ct_held c' = ct_held c" by (rule sender_events_held [OF c'])
    with PlSender Some c' inv show ?thesis by (simp add: pl_inv_def ctrl_refs_def dlg_refs_def)
  qed (use PlSender inv in simp)
next
  case (PlOpen env)
  show ?thesis
  proof (cases "pl_dialog p")
    case None
    then obtain subs where rx: "rx_ok (pl_rx p) (ctrl_refs p) subs" using inv by (auto simp: pl_inv_def src_inv_def dlg_refs_def)
    from ReceiveDialog_well [OF rx refl, of env] obtain d m where
      r: "ReceiveDialog env (sw_mod (pl_world p)) = Some (d, m)" "dlg_ok (ctrl_refs p) (rx_users (pl_rx p)) (d, rm_rx m)"
      "keeps_tokens (ctrl_refs p) (rx_users (pl_rx p)) (pl_rx p) (rm_rx m)" by (auto simp: dlg_well_def)
    with pl_dialog_result [OF inv r(2,3)] PlOpen None show ?thesis by simp
  qed (use PlOpen inv in simp)
next
  case (PlDialog dop)
  show ?thesis
  proof (cases "pl_dialog p")
    case (Some d)
    from dlg_call_ok [OF pl_dlg_ok [OF inv Some], of dop] obtain d' m where
      r: "dlg_call dop (d, sw_mod (pl_world p)) = Some (d', m)" "dlg_ok (ctrl_refs p) (rx_users (pl_rx p)) (d', rm_rx m)"
      "keeps_tokens (ctrl_refs p) (rx_users (pl_rx p)) (pl_rx p) (rm_rx m)" by blast
    with pl_dialog_result [OF inv r(2,3)] PlDialog Some show ?thesis by simp
  qed (use PlDialog inv in simp)
next
  case PlClose
  show ?thesis
  proof (cases "pl_dialog p")
    case (Some d)
    from release_dialog_ok [OF pl_dlg_ok [OF inv Some]] obtain d' w subs where
      r: "releaseAllSessions (d, sw_mod (pl_world p)) = Some (d', (sw_mod (pl_world p))\<lparr>rm_rx := w\<rparr>)"
      "rx_ok w (ctrl_refs p) subs" "rx_users w = rx_users (pl_rx p)"
      "keeps_tokens (ctrl_refs p) (rx_users (pl_rx p)) (pl_rx p) w" by blast
    from inv have "src_inv (ctrl_refs p + dlg_refs p) (pl_world p)" by (simp add: pl_inv_def)
    from src_inv_rx [OF this r(2-4)] r(1) PlClose Some inv show ?thesis
      by (simp add: pl_inv_def with_modules_def ctrl_refs_def dlg_refs_def)
  qed (use PlClose inv in simp)
next
  case (PlOpenWindow srcs channels)
  then show ?thesis using inv by (simp add: pl_inv_window)
next
  case (PlWindow wop)
  with fine inv show ?thesis by (cases "pl_window p") (auto simp: pl_inv_window)
next
  case PlCloseWindow
  then show ?thesis using inv by (simp add: pl_inv_window)
next
  case (PlSource sop)
  with pl_source_ok [OF inv] fine show ?thesis by simp
qed

section \<open>From load to unload\<close>

text \<open>The module before it is loaded, with the file of known tokens as it is found.\<close>

definition pl_fresh :: "known_tokens \<Rightarrow> 'f plugin" where
  "pl_fresh k = \<lparr>pl_count = 0, pl_control = None, pl_dialog = None, pl_closed = None, pl_window = None,
     pl_closed_window = None,
     pl_world = \<lparr>sw_mod = \<lparr>rm_rx = rx_empty, rm_known = k\<rparr>, sw_sources = Map.empty, sw_next = 0, sw_inflight = []\<rparr>\<rparr>"

definition pl_loaded :: "init_env \<Rightarrow> known_tokens \<Rightarrow> 'f plugin" where
  "pl_loaded env k = fst (obs_module_load env (pl_fresh k))"

lemma loaded_world: "pl_world (pl_loaded env k) = sw_start (tether_known_tokens_init k)"
  "pl_dialog (pl_loaded env k) = None" "pl_count (pl_loaded env k) = 1"
  by (simp_all add: pl_loaded_def obs_module_load_def tether_webrtc_global_init_def pl_fresh_def with_modules_def sw_start_def
      Let_def split: prod.split)

lemma init_holds_nothing: "tether_control_init env = (Some c, sys) \<Longrightarrow> ct_held c = []"
  by (auto simp: tether_control_init_def new_control_def Let_def split: if_splits)

lemma loaded_ok: "pl_inv (pl_loaded env k :: 'f plugin)"
proof -
  have c: "pl_control (pl_loaded env k :: 'f plugin) = fst (tether_control_init env)"
    by (simp add: pl_loaded_def obs_module_load_def tether_webrtc_global_init_def Let_def split: prod.split)
  have "ctrl_refs (pl_loaded env k :: 'f plugin) = {#}"
    using init_holds_nothing [of env] by (cases "fst (tether_control_init env :: 'f tether_control option \<times> ctrl_sys list)")
      (auto simp: ctrl_refs_def c prod_eq_iff)
  moreover have "dlg_refs (pl_loaded env k :: 'f plugin) = {#}" by (simp add: dlg_refs_def loaded_world)
  ultimately show ?thesis using sw_start_ok by (simp add: pl_inv_def loaded_world)
qed

lemma pl_run_ok:
  "pl_orderly ops p \<Longrightarrow> pl_inv p \<Longrightarrow> \<exists>p'. pl_run ops p = Some p' \<and> pl_inv p'"
proof (induction ops arbitrary: p)
  case (Cons op ops)
  from Cons.prems have "pl_fine op p" by simp
  from pl_call_ok [OF Cons.prems(2) this] obtain p1 where p1: "pl_call op p = Some p1" "pl_inv p1" by blast
  with Cons.prems(1) have "pl_orderly ops p1" by simp
  from Cons.IH [OF this p1(2)] p1(1) show ?case by simp
qed simp

text \<open>Who keeps a session alive: the control plane, the dialog with its token, or a source with its token.\<close>

definition holds_session :: "'f plugin \<Rightarrow> nat \<Rightarrow> string \<Rightarrow> bool" where
  "holds_session p a t \<longleftrightarrow>
     (\<exists>c. pl_control p = Some c \<and> a \<in> set (ct_held c)) \<or>
     (\<exists>d. pl_dialog p = Some d \<and> (t, a) \<in> set (rd_sessions d)) \<or>
     (\<exists>u s. sw_sources (pl_world p) u = Some s \<and> so_sub s \<noteq> None \<and> so_session s = Some a \<and> so_token s = Some t)"

lemma live_iff_held:
  assumes inv: "pl_inv p" and t: "rx_token_at (pl_rx p) a = Some t"
  shows "holds_session p a t"
proof (cases "a \<in># ctrl_refs p + dlg_refs p")
  case True
  then consider c where "pl_control p = Some c" "a \<in> set (ct_held c)" | d x where "pl_dialog p = Some d" "(x, a) \<in> set (rd_sessions d)"
    by (auto simp: ctrl_refs_def dlg_refs_def split: option.splits)
  then show ?thesis
  proof cases
    case (2 d x)
    with inv have "rx_token_at (pl_rx p) a = Some x" by (auto simp: pl_inv_def keys_ok_def)
    with 2 t show ?thesis by (auto simp: holds_session_def)
  qed (auto simp: holds_session_def)
next
  case False
  have i: "src_inv (ctrl_refs p + dlg_refs p) (pl_world p)" using inv by (simp add: pl_inv_def)
  from session_has_source [OF i t False] obtain u s j where
    s: "sw_sources (pl_world p) u = Some s" "so_sub s = Some (a, j)" "so_token s = Some t" by blast
  with i have "source_ok (pl_rx p) s" by (auto simp: src_inv_def)
  with s have "so_session s = Some a" "so_sub s \<noteq> None" by (simp_all add: source_ok_def)
  with s show ?thesis unfolding holds_session_def by blast
qed

lemma held_is_live:
  assumes inv: "pl_inv p"
  shows "pl_control p = Some c \<Longrightarrow> a \<in> set (ct_held c) \<Longrightarrow> rx_token_at (pl_rx p) a \<noteq> None"
    and "pl_dialog p = Some d \<Longrightarrow> (t, a) \<in> set (rd_sessions d) \<Longrightarrow> rx_token_at (pl_rx p) a = Some t"
    and "sw_sources (pl_world p) u = Some s \<Longrightarrow> so_sub s \<noteq> None \<Longrightarrow> so_session s = Some a \<Longrightarrow>
      rx_token_at (pl_rx p) a = so_token s"
proof -
  have i: "src_inv (ctrl_refs p + dlg_refs p) (pl_world p)" using inv by (simp add: pl_inv_def)
  then obtain subs where ok: "rx_ok (pl_rx p) (ctrl_refs p + dlg_refs p) subs" by (auto simp: src_inv_def)
  show "rx_token_at (pl_rx p) a \<noteq> None" if "pl_control p = Some c" "a \<in> set (ct_held c)"
    by (rule sessions.live_tokens [OF ok]) (use that in \<open>simp add: ctrl_refs_def\<close>)
  show "rx_token_at (pl_rx p) a = Some t" if "pl_dialog p = Some d" "(t, a) \<in> set (rd_sessions d)"
    using inv that by (auto simp: pl_inv_def keys_ok_def)
  show "rx_token_at (pl_rx p) a = so_token s" if "sw_sources (pl_world p) u = Some s" "so_sub s \<noteq> None" "so_session s = Some a"
  proof -
    from i that(1) have "source_ok (pl_rx p) s" by (auto simp: src_inv_def)
    with that show ?thesis by (auto simp: source_ok_def split: option.splits)
  qed
qed

text \<open>C3: The plugin as a whole: from the moment it is loaded, whatever commands, clicks, timer ticks, settings and network
  events come in whatever order, no part of it follows a freed session, provided no source is detached while a callback to
  it is in flight and the sender's encoder does not crash; and at every moment the sessions in memory are exactly those
  somebody holds: each is held by the control plane, by the dialog or by a source, under its own token, every one of these
  holds a session that is there, and no token has two.\<close>

theorem plugin_sessions_have_holders:
  fixes ops :: "'f pl_op list"
  assumes "pl_orderly ops (pl_loaded env k)"
  shows "\<exists>p. pl_run ops (pl_loaded env k) = Some p \<and>
    (\<forall>a t. rx_token_at (pl_rx p) a = Some t \<longrightarrow> holds_session p a t) \<and>
    (\<forall>c a. pl_control p = Some c \<longrightarrow> a \<in> set (ct_held c) \<longrightarrow> rx_token_at (pl_rx p) a \<noteq> None) \<and>
    (\<forall>d t a. pl_dialog p = Some d \<longrightarrow> (t, a) \<in> set (rd_sessions d) \<longrightarrow> rx_token_at (pl_rx p) a = Some t) \<and>
    (\<forall>u s. sw_sources (pl_world p) u = Some s \<longrightarrow> so_sub s \<noteq> None \<longrightarrow>
       (\<exists>a. so_session s = Some a \<and> rx_token_at (pl_rx p) a = so_token s)) \<and>
    (\<forall>a b t. rx_token_at (pl_rx p) a = Some t \<longrightarrow> rx_token_at (pl_rx p) b = Some t \<longrightarrow> a = b)"
proof -
  from pl_run_ok [OF assms loaded_ok] obtain p where r: "pl_run ops (pl_loaded env k) = Some p" and inv: "pl_inv p" by blast
  have i: "src_inv (ctrl_refs p + dlg_refs p) (pl_world p)" using inv by (simp add: pl_inv_def)
  have "\<exists>a. so_session s = Some a \<and> rx_token_at (pl_rx p) a = so_token s"
    if "sw_sources (pl_world p) u = Some s" "so_sub s \<noteq> None" for u s
    using source_has_session [OF i that] by auto
  with r live_iff_held [OF inv] held_is_live(1,2) [OF inv] one_session_per_token [OF i] show ?thesis by blast
qed





lemma silent_client_hangs_unload:
  "pl_control p = Some c \<Longrightarrow> obs_module_unload env (InRead None) p = Some NeverReturns"
  by (simp add: obs_module_unload_def tether_control_shutdown_def join_worker_def)





section \<open>Examples\<close>

definition demo_init :: init_env where
  "demo_init = \<lparr>ie_control = Some ''1'', ie_socket = None, ie_pid = 12, ie_socket_rc = 3, ie_bind = 0, ie_listen = 0\<rparr>"

definition demo_file :: known_tokens where
  "demo_file = \<lparr>g_entries = [], g_initialised = False, kt_config_path = None, kt_disk = None, kt_dirs = []\<rparr>"

lemma plugin_sessions_have_holders_witness:
  "\<exists>p. pl_run [PlSource (demo_create :: nat src_op), PlOpen demo_dialog_env, PlLine demo_ctrl_env ''ping''] (pl_loaded demo_init demo_file) = Some p \<and>
    (\<forall>a t. rx_token_at (pl_rx p) a = Some t \<longrightarrow> holds_session p a t)"
proof -
  have set: "settled (demo_create :: nat src_op) w" for w by (simp add: settled_def demo_create_def split: prod.splits)
  have "split_command (strip_line ''ping'') = (''ping'', None)" by (simp add: split_command_def strip_line_def trailing_def)
  then have calm: "calm (c :: nat tether_control) demo_ctrl_env ''ping''" for c by (simp add: calm_def)
  have "pl_orderly [PlSource (demo_create :: nat src_op), PlOpen demo_dialog_env, PlLine demo_ctrl_env ''ping''] (pl_loaded demo_init demo_file)"
    by (simp only: pl_orderly.simps pl_fine.simps set calm) (auto simp: calm split: option.splits)
  from plugin_sessions_have_holders [OF this] show ?thesis by blast
qed


end
