(* ===== verification/Json.thy ===== *)
theory Json
  imports Signaling
begin

text \<open>
  \<open>JSON.parse\<close> and \<open>JSON.stringify\<close>, as far as the signaling server uses them: flat objects whose members
  are strings, integers, booleans or null. A character is a byte; the text is UTF-8, so characters
  beyond ASCII are passed through, and an escaped one is encoded. Arrays and objects as members
  can occur in a parsed message (\<open>JsOther\<close>, which keeps their text), but the parser here does not read
  them: text it does not represent is treated like text \<open>JSON.parse\<close> throws on.
\<close>

section \<open>Values and objects\<close>

datatype js_value =
    JsStr string
  | JsNum int
  | JsBool bool
  | JsNull
  | JsOther string

type_synonym js_object = "(string \<times> js_value) list"

text \<open>Reading a member, and assigning one: an existing member keeps its place.\<close>

definition js_get :: "js_object \<Rightarrow> string \<Rightarrow> js_value option" where
  "js_get ob k = map_of ob k"

fun js_set :: "js_object \<Rightarrow> string \<Rightarrow> js_value \<Rightarrow> js_object" where
  "js_set [] k v = [(k, v)]"
| "js_set ((k', v') # ob) k v = (if k' = k then (k, v) # ob else (k', v') # js_set ob k v)"

text \<open>\<open>ob.k ?? d\<close>, and the test \<open>!ob.k\<close>.\<close>

definition js_or :: "js_object \<Rightarrow> string \<Rightarrow> js_value \<Rightarrow> js_value" where
  "js_or ob k d = (case js_get ob k of None \<Rightarrow> d | Some v \<Rightarrow> if v = JsNull then d else v)"

fun js_falsy :: "js_value option \<Rightarrow> bool" where
  "js_falsy None = True"
| "js_falsy (Some (JsStr s)) = (s = [])"
| "js_falsy (Some (JsNum n)) = (n = 0)"
| "js_falsy (Some (JsBool b)) = (\<not> b)"
| "js_falsy (Some JsNull) = True"
| "js_falsy (Some (JsOther t)) = False"

lemma js_get_simps [simp]:
  "js_get [] k = None" "js_get ((k', v) # ob) k = (if k' = k then Some v else js_get ob k)"
  by (simp_all add: js_get_def)

lemma js_get_set [simp]: "js_get (js_set ob k v) j = (if j = k then Some v else js_get ob j)"
  by (induction ob) auto

lemma js_set_keys: "map fst (js_set ob k v) = (if k \<in> set (map fst ob) then map fst ob else map fst ob @ [k])"
proof (induction ob)
  case (Cons p ob)
  then show ?case by (cases p) simp
qed simp

lemma js_set_distinct: "distinct (map fst ob) \<Longrightarrow> distinct (map fst (js_set ob k v))"
  by (simp add: js_set_keys)

lemma js_set_new: "k \<notin> fst ` set ob \<Longrightarrow> js_set ob k v = ob @ [(k, v)]"
  by (induction ob) auto

section \<open>Printing\<close>

definition hex_digit :: "nat \<Rightarrow> char" where
  "hex_digit n = (''0123456789abcdef'' ! n)"

text \<open>A character inside a string: the short escapes, \<open>\u00XX\<close> for the other control characters.\<close>

definition js_escape_char :: "char \<Rightarrow> string" where
  "js_escape_char c =
     (if c = CHR 0x22 \<or> c = CHR 0x5C then [CHR 0x5C, c]
      else if c = CHR 0x0A then [CHR 0x5C, CHR ''n'']
      else if c = CHR 0x0D then [CHR 0x5C, CHR ''r'']
      else if c = CHR 0x09 then [CHR 0x5C, CHR ''t'']
      else if c = CHR 0x08 then [CHR 0x5C, CHR ''b'']
      else if c = CHR 0x0C then [CHR 0x5C, CHR ''f'']
      else if (of_char c :: nat) < 32
      then [CHR 0x5C, CHR ''u'', CHR ''0'', CHR ''0'', hex_digit (of_char c div 16), hex_digit (of_char c mod 16)]
      else [c])"

fun js_escape :: "string \<Rightarrow> string" where
  "js_escape [] = []"
| "js_escape (c # s) = js_escape_char c @ js_escape s"

fun js_printed :: "js_value \<Rightarrow> json_value" where
  "js_printed (JsStr s) = JStr (js_escape s)"
| "js_printed (JsNum n) = JRaw (show_int n)"
| "js_printed (JsBool b) = JRaw (if b then ''true'' else ''false'')"
| "js_printed JsNull = JRaw ''null''"
| "js_printed (JsOther t) = JRaw t"

definition js_object_printed :: "js_object \<Rightarrow> json_object" where
  "js_object_printed ob = map (\<lambda>(k, v). (js_escape k, js_printed v)) ob"

definition json_stringify :: "js_object \<Rightarrow> string" where
  "json_stringify ob = print_object (js_object_printed ob)"

section \<open>Parsing\<close>

definition js_space :: "char \<Rightarrow> bool" where
  "js_space c \<longleftrightarrow> c \<in> {CHR 0x20, CHR 0x09, CHR 0x0A, CHR 0x0D}"

definition skip_ws :: "string \<Rightarrow> string" where
  "skip_ws s = dropWhile js_space s"

definition hex_value :: "char \<Rightarrow> nat option" where
  "hex_value c =
     (let n = of_char c :: nat in
      if 48 \<le> n \<and> n \<le> 57 then Some (n - 48)
      else if 97 \<le> n \<and> n \<le> 102 then Some (n - 87)
      else if 65 \<le> n \<and> n \<le> 70 then Some (n - 55)
      else None)"

definition hex_code :: "char \<Rightarrow> char \<Rightarrow> char \<Rightarrow> char \<Rightarrow> nat option" where
  "hex_code a b c d =
     (case (hex_value a, hex_value b, hex_value c, hex_value d) of
        (Some w, Some x, Some y, Some z) \<Rightarrow> Some (((w * 16 + x) * 16 + y) * 16 + z)
      | _ \<Rightarrow> None)"

text \<open>The bytes of a code unit; the two halves of a surrogate pair are not put together.\<close>

definition utf8 :: "nat \<Rightarrow> string" where
  "utf8 n =
     (if n < 128 then [char_of n]
      else if n < 2048 then [char_of (192 + n div 64), char_of (128 + n mod 64)]
      else [char_of (224 + n div 4096), char_of (128 + n div 64 mod 64), char_of (128 + n mod 64)])"

definition short_escape :: "char \<Rightarrow> char option" where
  "short_escape e =
     (if e \<in> {CHR 0x22, CHR 0x5C, CHR ''/''} then Some e
      else if e = CHR ''n'' then Some (CHR 0x0A)
      else if e = CHR ''r'' then Some (CHR 0x0D)
      else if e = CHR ''t'' then Some (CHR 0x09)
      else if e = CHR ''b'' then Some (CHR 0x08)
      else if e = CHR ''f'' then Some (CHR 0x0C)
      else None)"

text \<open>The string after its opening quote: its value, and what follows the closing quote.\<close>

fun js_string :: "string \<Rightarrow> (string \<times> string) option" where
  "js_string [] = None"
| "js_string (c # s) =
     (if c = CHR 0x22 then Some ([], s)
      else if c = CHR 0x5C then
        (case s of
           [] \<Rightarrow> None
         | e # t \<Rightarrow>
             if e = CHR ''u'' then
               (case t of
                  h1 # h2 # h3 # h4 # r \<Rightarrow>
                    (case hex_code h1 h2 h3 h4 of
                       None \<Rightarrow> None
                     | Some n \<Rightarrow> map_option (\<lambda>(v, q). (utf8 n @ v, q)) (js_string r))
                | _ \<Rightarrow> None)
             else
               (case short_escape e of
                  None \<Rightarrow> None
                | Some d \<Rightarrow> map_option (\<lambda>(v, q). (d # v, q)) (js_string t)))
      else if (of_char c :: nat) < 32 then None
      else map_option (\<lambda>(v, q). (c # v, q)) (js_string s))"

definition is_digit :: "char \<Rightarrow> bool" where
  "is_digit c \<longleftrightarrow> 48 \<le> (of_char c :: nat) \<and> (of_char c :: nat) \<le> 57"

text \<open>An integer without leading zeros; a fraction or an exponent is not represented.\<close>

definition js_number :: "string \<Rightarrow> (int \<times> string) option" where
  "js_number s =
     (let neg = starts_with ''-'' s;
          p = (if neg then tl s else s);
          ds = takeWhile is_digit p;
          r = dropWhile is_digit p in
      if ds = [] \<or> (1 < length ds \<and> cur ds = CHR ''0'') \<or> cur r \<in> {CHR ''.'', CHR ''e'', CHR ''E''} then None
      else Some (if neg then - int (read_digits ds) else int (read_digits ds), r))"

definition js_read_value :: "string \<Rightarrow> (js_value \<times> string) option" where
  "js_read_value s =
     (if starts_with [CHR 0x22] s then map_option (\<lambda>(v, r). (JsStr v, r)) (js_string (tl s))
      else if starts_with ''true'' s then Some (JsBool True, drop 4 s)
      else if starts_with ''false'' s then Some (JsBool False, drop 5 s)
      else if starts_with ''null'' s then Some (JsNull, drop 4 s)
      else map_option (\<lambda>(n, r). (JsNum n, r)) (js_number s))"

text \<open>One member, with the blanks around its parts.\<close>

definition js_member :: "string \<Rightarrow> (string \<times> js_value \<times> string) option" where
  "js_member s =
     (if \<not> starts_with [CHR 0x22] (skip_ws s) then None
      else case js_string (tl (skip_ws s)) of
        None \<Rightarrow> None
      | Some (k, r) \<Rightarrow>
          if \<not> starts_with '':'' (skip_ws r) then None
          else case js_read_value (skip_ws (tl (skip_ws r))) of
            None \<Rightarrow> None
          | Some (v, q) \<Rightarrow> Some (k, v, skip_ws q))"

lemma skip_ws_length: "length (skip_ws s) \<le> length s"
  by (simp add: skip_ws_def length_dropWhile_le)

lemma js_string_length: "js_string s = Some (v, r) \<Longrightarrow> length r < length s"
proof (induction s arbitrary: v r rule: js_string.induct)
  case (2 c s)
  then show ?case
    by (fastforce split: if_splits list.splits option.splits prod.splits)
qed simp

lemma js_number_length: "js_number s = Some (n, r) \<Longrightarrow> length r < length s"
proof -
  assume n: "js_number s = Some (n, r)"
  define p where "p = (if starts_with ''-'' s then tl s else s)"
  have "takeWhile is_digit p \<noteq> []" "r = dropWhile is_digit p"
    using n by (auto simp: js_number_def Let_def p_def split: if_splits)
  moreover from this have "length r < length p"
    by (metis length_append length_greater_0_conv less_add_same_cancel2 takeWhile_dropWhile_id)
  moreover have "length p \<le> length s" by (simp add: p_def)
  ultimately show ?thesis by simp
qed

lemma js_read_value_length: "js_read_value s = Some (v, r) \<Longrightarrow> length r < length s"
  by (cases s)
     (auto simp: js_read_value_def split: if_splits dest!: js_string_length js_number_length)

lemma js_member_length: "js_member s = Some (k, v, r) \<Longrightarrow> length r < length s"
proof -
  assume "js_member s = Some (k, v, r)"
  then obtain p q where 1: "starts_with [CHR 0x22] (skip_ws s)" "js_string (tl (skip_ws s)) = Some (k, p)"
    "js_read_value (skip_ws (tl (skip_ws p))) = Some (v, q)" "r = skip_ws q"
    by (auto simp: js_member_def split: if_splits option.splits)
  have "length r \<le> length q" "length (skip_ws p) \<le> length p" "length (skip_ws s) \<le> length s"
    "length (skip_ws (tl (skip_ws p))) \<le> length (tl (skip_ws p))"
    using 1 skip_ws_length by (simp_all del: length_tl)
  moreover have "length q < length (skip_ws (tl (skip_ws p)))" by (rule js_read_value_length) (rule 1)
  moreover have "length p < length (tl (skip_ws s))" by (rule js_string_length) (rule 1)
  ultimately show ?thesis by simp
qed

text \<open>The members after the opening brace; of two members with one key the later one counts.\<close>

function js_members :: "js_object \<Rightarrow> string \<Rightarrow> (js_object \<times> string) option" where
  "js_members acc s =
     (case js_member s of
        None \<Rightarrow> None
      | Some (k, v, r) \<Rightarrow>
          if starts_with '','' r then js_members (js_set acc k v) (tl r)
          else if starts_with ''}'' r then Some (js_set acc k v, tl r)
          else None)"
  by pat_completeness auto
termination
  by (relation "measure (\<lambda>(acc, s). length s)") (auto dest!: js_member_length)

declare js_members.simps [simp del]

definition json_parse :: "string \<Rightarrow> js_object option" where
  "json_parse s =
     (let p = skip_ws s in
      if \<not> starts_with ''{'' p then None
      else if starts_with ''}'' (skip_ws (tl p))
      then (if skip_ws (tl (skip_ws (tl p))) = [] then Some [] else None)
      else case js_members [] (tl p) of
        None \<Rightarrow> None
      | Some (ob, r) \<Rightarrow> if skip_ws r = [] then Some ob else None)"

section \<open>What is printed is read back\<close>

lemma of_char_lt_32: "(of_char c :: nat) < 32 \<Longrightarrow> n = of_char c \<Longrightarrow> char_of n = c"
  by simp

lemma hex_value_digit: "n < 16 \<Longrightarrow> hex_value (hex_digit n) = Some n"
proof -
  have "\<forall>n < 16. hex_value (hex_digit n) = Some n" by code_simp
  then show "n < 16 \<Longrightarrow> ?thesis" by blast
qed

lemma js_string_escape_char: "js_string (js_escape_char c @ t) = map_option (\<lambda>(v, q). (c # v, q)) (js_string t)"
proof (cases "c \<in> {CHR 0x22, CHR 0x5C, CHR 0x0A, CHR 0x0D, CHR 0x09, CHR 0x08, CHR 0x0C}")
  case True
  then show ?thesis by (auto simp: js_escape_char_def short_escape_def)
next
  case False
  show ?thesis
  proof (cases "(of_char c :: nat) < 32")
    case True
    then have "hex_code (CHR ''0'') (CHR ''0'') (hex_digit (of_char c div 16)) (hex_digit (of_char c mod 16)) =
        Some (of_char c)"
      using hex_value_digit by (simp add: hex_code_def hex_value_def)
    moreover have "utf8 (of_char c) = [c]" using True by (simp add: utf8_def)
    ultimately show ?thesis using True False by (simp add: js_escape_char_def)
  qed (use False in \<open>simp add: js_escape_char_def\<close>)
qed

lemma js_string_escape: "js_string (js_escape s @ CHR 0x22 # r) = Some (s, r)"
  by (induction s) (simp_all add: js_string_escape_char)

lemma show_nat_all_digits: "\<forall>c \<in> set (show_nat n). is_digit c"
  using show_nat_digits [of n] by (auto simp: is_digit_def)

lemma show_nat_no_zero: "1 < length (show_nat n) \<Longrightarrow> cur (show_nat n) \<noteq> CHR ''0''"
proof (induction n rule: show_nat.induct)
  case (1 n)
  show ?case
  proof (cases "n < 10")
    case True
    with 1 show ?thesis by (simp add: show_nat.simps [of n])
  next
    case False
    define m where "m = n div 10"
    have n: "show_nat n = show_nat m @ [char_of (48 + n mod 10)]"
      using False by (subst show_nat.simps) (simp add: m_def)
    have cur: "cur (show_nat n) = cur (show_nat m)"
      unfolding n by (cases "show_nat m") simp_all
    show ?thesis
    proof (cases "1 < length (show_nat m)")
      case True
      with 1 False cur show ?thesis by (simp add: m_def)
    next
      case one: False
      have "m < 10"
      proof (rule ccontr)
        assume "\<not> m < 10"
        then have "length (show_nat m) = length (show_nat (m div 10)) + 1" by (subst show_nat.simps) simp
        with one show False by (cases "show_nat (m div 10)") simp_all
      qed
      moreover have "0 < m" using False by (simp add: m_def)
      moreover have "(of_char (CHR ''0'') :: nat) = 48" by simp
      ultimately have "char_of (48 + m) \<noteq> CHR ''0''" using of_char_digit [of m] by force
      with \<open>m < 10\<close> show ?thesis unfolding cur by (simp add: show_nat.simps [of m])
    qed
  qed
qed

lemma is_digit_stop [simp]: "\<not> is_digit (CHR '','')" "\<not> is_digit (CHR ''}'')" "\<not> is_digit (CHR ''-'')"
  by (simp_all add: is_digit_def)

lemma js_number_nat:
  assumes "x \<in> {CHR '','', CHR ''}''}"
  shows "js_number (show_nat n @ x # r) = Some (int n, x # r)"
proof -
  have x: "\<not> is_digit x" "x \<notin> {CHR ''.'', CHR ''e'', CHR ''E''}" using assms by auto
  have "takeWhile is_digit (show_nat n @ x # r) = show_nat n" "dropWhile is_digit (show_nat n @ x # r) = x # r"
    using show_nat_all_digits [of n] x by (simp_all add: takeWhile_append2 dropWhile_append2)
  moreover have "\<not> starts_with ''-'' (show_nat n @ x # r)"
    using show_nat_all_digits [of n] by (cases "show_nat n") (auto simp: is_digit_def)
  ultimately show ?thesis using show_nat_no_zero [of n] x by (auto simp: js_number_def Let_def)
qed

lemma js_number_int:
  assumes "x \<in> {CHR '','', CHR ''}''}"
  shows "js_number (show_int n @ x # r) = Some (n, x # r)"
proof (cases "n < 0")
  case True
  have x: "\<not> is_digit x" "x \<notin> {CHR ''.'', CHR ''e'', CHR ''E''}" using assms by auto
  let ?s = "show_nat (nat (- n))"
  have "takeWhile is_digit (?s @ x # r) = ?s" "dropWhile is_digit (?s @ x # r) = x # r"
    using show_nat_all_digits [of "nat (- n)"] x by (simp_all add: takeWhile_append2 dropWhile_append2)
  with True show ?thesis using show_nat_no_zero [of "nat (- n)"] x by (auto simp: js_number_def Let_def show_int_def)
qed (use js_number_nat [OF assms, of "nat n"] in \<open>simp add: show_int_def\<close>)

text \<open>A value the printer prints as JSON itself.\<close>

fun js_flat :: "js_value \<Rightarrow> bool" where
  "js_flat (JsOther t) = False"
| "js_flat v = True"

lemma show_int_start: "cur (show_int n @ s) \<in> {c. is_digit c} \<union> {CHR ''-''}"
  using show_nat_all_digits [of "nat n"] by (cases "show_nat (nat n)") (auto simp: show_int_def)

lemma js_read_value_printed:
  assumes "js_flat v" and "x \<in> {CHR '','', CHR ''}''}"
  shows "js_read_value (print_value (js_printed v) @ x # r) = Some (v, x # r)"
proof (cases v)
  case (JsStr s)
  then show ?thesis by (simp add: js_read_value_def js_string_escape)
next
  case (JsNum n)
  define t where "t = show_int n @ x # r"
  have "cur t \<in> {c. is_digit c} \<union> {CHR ''-''}" unfolding t_def by (rule show_int_start)
  then have "\<not> starts_with [CHR 0x22] t" "\<not> starts_with ''true'' t" "\<not> starts_with ''false'' t" "\<not> starts_with ''null'' t"
    by (cases t; auto simp: is_digit_def)+
  moreover have "js_number t = Some (n, x # r)" unfolding t_def by (rule js_number_int [OF assms(2)])
  ultimately show ?thesis using JsNum by (simp add: js_read_value_def flip: t_def)
qed (use assms in \<open>auto simp: js_read_value_def\<close>)

lemma skip_ws_here [simp]: "\<not> js_space c \<Longrightarrow> skip_ws (c # s) = c # s"
  by (simp add: skip_ws_def)

lemma js_space_stop [simp]:
  "\<not> js_space (CHR 0x22)" "\<not> js_space (CHR '':'')" "\<not> js_space (CHR '','')" "\<not> js_space (CHR ''{'')" "\<not> js_space (CHR ''}'')"
  by (simp_all add: js_space_def)

lemma printed_no_space: "js_flat v \<Longrightarrow> skip_ws (print_value (js_printed v) @ x # r) = print_value (js_printed v) @ x # r"
proof (cases v)
  case (JsNum n)
  define t where "t = show_int n @ x # r"
  have "cur t \<in> {c. is_digit c} \<union> {CHR ''-''}" unfolding t_def by (rule show_int_start)
  then have "skip_ws t = t" by (cases t) (auto simp: is_digit_def js_space_def skip_ws_def)
  with JsNum show ?thesis by (simp add: t_def)
qed (auto simp: js_space_def skip_ws_def)

lemma js_member_printed:
  assumes "js_flat v" and "x \<in> {CHR '','', CHR ''}''}"
  shows "js_member (print_field (js_escape k, js_printed v) @ x # r) = Some (k, v, x # r)"
proof -
  have "skip_ws (x # r) = x # r" using assms(2) by auto
  then show ?thesis
    using js_read_value_printed [OF assms] printed_no_space [OF assms(1)]
    by (simp add: js_member_def print_field_def js_string_escape)
qed

lemma js_members_printed:
  "ob \<noteq> [] \<Longrightarrow> distinct (map fst (acc @ ob)) \<Longrightarrow> list_all (js_flat \<circ> snd) ob \<Longrightarrow>
    js_members acc (print_fields (js_object_printed ob)) = Some (acc @ ob, [])"
proof (induction ob arbitrary: acc)
  case (Cons f ob)
  obtain k v where f: "f = (k, v)" by fastforce
  with Cons.prems have v: "js_flat v" and k: "k \<notin> fst ` set acc" by auto
  have set: "js_set acc k v = acc @ [(k, v)]" using k by (rule js_set_new)
  show ?case
  proof (cases ob)
    case Nil
    with f set show ?thesis using js_member_printed [OF v, of "CHR ''}''" k "[]"]
      by (simp add: js_object_printed_def js_members.simps)
  next
    case (Cons g gs)
    then have "print_fields (js_object_printed (f # ob)) =
        print_field (js_escape k, js_printed v) @ CHR '','' # print_fields (js_object_printed ob)"
      by (simp add: js_object_printed_def f split_beta)
    moreover have "js_members (acc @ [(k, v)]) (print_fields (js_object_printed ob)) = Some (acc @ [(k, v)] @ ob, [])"
      using Cons.IH [of "acc @ [(k, v)]"] Cons.prems \<open>ob = g # gs\<close> f by simp
    ultimately show ?thesis
      using js_member_printed [OF v, of "CHR '',''" k "print_fields (js_object_printed ob)"] set f
      by (simp add: js_members.simps [of acc])
  qed
qed simp

lemma printed_brace: "ob \<noteq> [] \<Longrightarrow> \<exists>r. print_fields (js_object_printed ob) = CHR 0x22 # r"
  by (cases ob; cases "tl ob") (auto simp: js_object_printed_def print_field_def)

lemma json_parse_printed:
  assumes "distinct (map fst ob)" and "list_all (js_flat \<circ> snd) ob"
  shows "json_parse (json_stringify ob) = Some ob"
proof (cases "ob = []")
  case True
  then show ?thesis by (simp add: json_parse_def json_stringify_def print_object_def js_object_printed_def Let_def skip_ws_def)
next
  case False
  from printed_brace [OF False] obtain r where r: "print_fields (js_object_printed ob) = CHR 0x22 # r" by blast
  have "js_members [] (print_fields (js_object_printed ob)) = Some (ob, [])"
    using js_members_printed [OF False, of "[]"] assms by simp
  with r show ?thesis by (simp add: json_parse_def json_stringify_def print_object_def Let_def) (simp add: skip_ws_def)
qed

section \<open>The two sides of the wire\<close>

text \<open>What the server prints is a flat object for the plugin's reader, which finds its members still escaped.\<close>

lemma json_text_js_escape [simp]: "json_text (js_escape s)"
proof (induction s)
  case (Cons c s)
  have "hex_digit m \<noteq> CHR 0x22 \<and> hex_digit m \<noteq> CHR 0x5C" if "m < 16" for m
  proof -
    have "\<forall>m < 16. hex_digit m \<noteq> CHR 0x22 \<and> hex_digit m \<noteq> CHR 0x5C" by code_simp
    with that show ?thesis by blast
  qed
  then have "hex_digit (of_char c div 16) \<notin> {CHR 0x22, CHR 0x5C}" "hex_digit (of_char c mod 16) \<notin> {CHR 0x22, CHR 0x5C}"
    if "(of_char c :: nat) < 32" using that by (simp_all add: less_mult_imp_div_less)
  with Cons show ?case by (auto simp: js_escape_char_def)
qed simp

definition plain :: "string \<Rightarrow> bool" where
  "plain s \<longleftrightarrow> (\<forall>c \<in> set s. c \<noteq> CHR 0x22 \<and> c \<noteq> CHR 0x5C \<and> 32 \<le> (of_char c :: nat))"

lemma plain_simps [simp]: "plain []" "plain (c # s) \<longleftrightarrow> c \<noteq> CHR 0x22 \<and> c \<noteq> CHR 0x5C \<and> 32 \<le> (of_char c :: nat) \<and> plain s"
  by (auto simp: plain_def)

lemma plain_append [simp]: "plain (s @ t) \<longleftrightarrow> plain s \<and> plain t"
  by (auto simp: plain_def)

lemma js_escape_plain [simp]: "plain s \<Longrightarrow> js_escape s = s"
  by (induction s) (auto simp: js_escape_char_def)

lemma plain_text: "plain s \<Longrightarrow> json_text s"
  by (rule json_text_plain) (auto simp: plain_def)

declare js_escape.simps [simp del]

text \<open>An SDP: lines of printable characters and tabs.\<close>

definition sdp_plain :: "string \<Rightarrow> bool" where
  "sdp_plain s \<longleftrightarrow> (\<forall>c \<in> set s. c \<in> {CHR 0x0A, CHR 0x0D, CHR 0x09} \<or> 32 \<le> (of_char c :: nat))"

lemma js_escape_char_sdp:
  assumes "c \<in> {CHR 0x0A, CHR 0x0D, CHR 0x09} \<or> 32 \<le> (of_char c :: nat)"
  shows "js_escape_char c = escape_char c"
proof (cases "c \<in> {CHR 0x0A, CHR 0x0D, CHR 0x09, CHR 0x22, CHR 0x5C}")
  case True
  then show ?thesis by (auto simp: js_escape_char_def escape_char_def)
next
  case False
  with assms have "32 \<le> (of_char c :: nat)" by simp
  moreover from this have "c \<noteq> CHR 0x08" "c \<noteq> CHR 0x0C" by auto
  ultimately show ?thesis using False by (simp add: js_escape_char_def escape_char_def)
qed

lemma js_escape_sdp: "sdp_plain s \<Longrightarrow> js_escape s = sdp_escape s"
  by (induction s) (simp_all add: js_escape.simps js_escape_char_sdp sdp_plain_def)

definition js_ok :: "js_object \<Rightarrow> bool" where
  "js_ok ob \<longleftrightarrow> list_all (\<lambda>(k, v). js_flat v \<and> key_ok k \<and> plain k) ob"

lemma js_ok_simps [simp]:
  "js_ok []" "js_ok ((k, v) # ob) \<longleftrightarrow> js_flat v \<and> key_ok k \<and> plain k \<and> js_ok ob"
  by (simp_all add: js_ok_def)

lemma js_printed_ok: "js_flat v \<Longrightarrow> value_ok (js_printed v)"
  using show_int_raw by (cases v) (auto simp: NUL_def)

lemma js_ok_object_ok: "js_ok ob \<Longrightarrow> object_ok (js_object_printed ob)"
  by (induction ob) (auto simp: js_object_printed_def js_printed_ok)

text \<open>The member the plugin's reader finds, when it is a string.\<close>

fun js_text :: "js_object \<Rightarrow> string \<Rightarrow> string option" where
  "js_text [] k = None"
| "js_text ((k', JsStr s) # ob) k = (if k' = k then Some s else js_text ob k)"
| "js_text ((k', v) # ob) k = js_text ob k"

lemma lookup_printed: "js_ok ob \<Longrightarrow> lookup_str (js_object_printed ob) k = map_option js_escape (js_text ob k)"
  by (induction ob k rule: js_text.induct) (auto simp: js_object_printed_def)

text \<open>The plugin's messages, seen by the server.\<close>

lemma plugin_messages:
  "plain i \<Longrightarrow> accept_json i = json_stringify [(''type'', JsStr ''accept''), (''peer_id'', JsStr i)]"
  "plain i \<Longrightarrow> reject_json i = json_stringify [(''type'', JsStr ''reject''), (''peer_id'', JsStr i)]"
  "plain i \<Longrightarrow> plain ty \<Longrightarrow> sdp_plain d \<Longrightarrow> sdp_json i ty d = json_stringify
     [(''type'', JsStr ''sdp''), (''peer_id'', JsStr i), (''sdp_type'', JsStr ty), (''sdp'', JsStr d)]"
  "plain i \<Longrightarrow> plain c \<Longrightarrow> plain m \<Longrightarrow> ice_json i c m n = json_stringify
     [(''type'', JsStr ''ice''), (''peer_id'', JsStr i), (''candidate'', JsStr c), (''mid'', JsStr m), (''mline'', JsNum n)]"
  by (simp_all add: message_objects json_stringify_def js_object_printed_def js_escape_sdp)

definition hello_message :: "tether_signaling \<Rightarrow> js_object" where
  "hello_message sig =
     [(''type'', JsStr ''hello''),
      (''role'', JsStr (if sc_role (sig_cfg sig) = TETHER_ROLE_SENDER then ''sender'' else ''receiver'')),
      (''name'', JsStr (sig_display_name sig))] @
     (if sc_role (sig_cfg sig) = TETHER_ROLE_RECEIVER
      then [(''token'', JsStr (case sig_token sig of None \<Rightarrow> [] | Some t \<Rightarrow> t))] else []) @
     [(''ttl_minutes'', JsNum (sc_token_ttl_minutes (sig_cfg sig))), (''reusable'', JsBool (sc_reusable_token (sig_cfg sig)))]"

lemma hello_stringify:
  assumes "plain (sig_display_name sig)" and "pred_option plain (sig_token sig)"
  shows "hello_json sig = json_stringify (hello_message sig)"
  using assms
  by (cases "sc_role (sig_cfg sig)"; cases "sig_token sig")
     (simp_all add: hello_json_object hello_object_def hello_message_def json_stringify_def js_object_printed_def)

lemma revoke_stringify: "''{\"type\":\"revoke\"}'' = json_stringify [(''type'', JsStr ''revoke'')]"
  by (simp add: json_stringify_def js_object_printed_def print_object_def print_field_def)

text \<open>The texts that go out on the socket.\<close>

fun sent :: "sig_out list \<Rightarrow> string list" where
  "sent [] = []"
| "sent (WsSend ws t # outs) = t # sent outs"
| "sent (out # outs) = sent outs"

lemma sent_append [simp]: "sent (xs @ ys) = sent xs @ sent ys"
  by (induction xs rule: sent.induct) simp_all

lemma sent_raw: "0 < sig_ws sig \<Longrightarrow> sent (send_raw sig t) = [t]"
  by (simp add: send_raw_def)

lemma sent_emit: "sent (emit sig evt pid payload) = []"
  by (simp add: emit_def)

lemma hello_message_flat: "distinct (map fst (hello_message sig)) \<and> list_all (js_flat \<circ> snd) (hello_message sig)"
  by (simp add: hello_message_def)

text \<open>C17: The server reads what the plugin writes: as long as the names, the token, the ids and the parts of a candidate hold no
  quote, backslash or control character, and a description only line breaks and tabs of these (quotes and backslashes are fine
  there), every message of the client is one text that \<open>JSON.parse\<close> reads as exactly the members meant: the hello with the
  role, the name, the token of a receiver and the two settings; accept, reject and revoke; and the description, its escapes
  undone, and the candidate with its index. (A name with a quote is another matter, see \<open>hello_name_injection\<close>.)\<close>

theorem plugin_messages_parsed:
  assumes open_socket: "0 < sig_ws sig"
    and hello: "plain (sig_display_name sig)" "pred_option plain (sig_token sig)"
    and parts: "plain i" "plain ty" "plain c" "plain m" "sdp_plain d"
  shows "map json_parse (sent (snd (on_open sig))) = [Some (hello_message sig)] \<and>
    map json_parse (sent (snd (tether_signaling_accept (Some sig) (Some i)))) =
      [Some [(''type'', JsStr ''accept''), (''peer_id'', JsStr i)]] \<and>
    map json_parse (sent (snd (tether_signaling_reject (Some sig) (Some i)))) =
      [Some [(''type'', JsStr ''reject''), (''peer_id'', JsStr i)]] \<and>
    map json_parse (sent (snd (tether_signaling_revoke_token (Some sig)))) = [Some [(''type'', JsStr ''revoke'')]] \<and>
    map json_parse (sent (snd (tether_signaling_send_sdp (Some sig) (Some i) (Some ty) (Some d)))) =
      [Some [(''type'', JsStr ''sdp''), (''peer_id'', JsStr i), (''sdp_type'', JsStr ty), (''sdp'', JsStr d)]] \<and>
    map json_parse (sent (snd (tether_signaling_send_ice (Some sig) (Some i) (Some c) (Some m) n))) =
      [Some [(''type'', JsStr ''ice''), (''peer_id'', JsStr i), (''candidate'', JsStr c), (''mid'', JsStr m), (''mline'', JsNum n)]]"
proof -
  let ?sig = "sig\<lparr>sig_state := TETHER_SIG_STATE_CONNECTED\<rparr>"
  have same: "hello_message ?sig = hello_message sig" by (simp add: hello_message_def)
  have "hello_json ?sig = json_stringify (hello_message sig)"
    using hello_stringify [of ?sig] hello same by simp
  moreover have "json_parse (json_stringify (hello_message sig)) = Some (hello_message sig)"
    using json_parse_printed hello_message_flat by blast
  moreover have "hello_json sig = json_stringify (hello_message sig)" by (rule hello_stringify [OF hello])
  ultimately have "map json_parse (sent (snd (on_open sig))) = [Some (hello_message sig)]"
    using open_socket by (simp add: on_open_def Signaling.set_state_def sent_raw sent_emit)
  then show ?thesis
    using parts open_socket
    by (simp add: tether_signaling_accept_def tether_signaling_reject_def tether_signaling_revoke_token_def
        tether_signaling_send_sdp_def tether_signaling_send_ice_def sent_raw plugin_messages revoke_stringify json_parse_printed)
qed

definition demo_client :: tether_signaling where
  "demo_client = \<lparr>sig_cfg = \<lparr>sc_server_url = None, sc_role = TETHER_ROLE_RECEIVER, sc_display_name = Some ''Tether'',
       sc_token = Some ''TTHR-ABCD-EFGH-JKMN'', sc_token_ttl_minutes = 0, sc_reusable_token = False, sc_cb = True\<rparr>,
     sig_server_url = ''wss://s'', sig_display_name = ''Tether'', sig_token = Some ''TTHR-ABCD-EFGH-JKMN'', sig_ws = 7,
     sig_state = TETHER_SIG_STATE_CONNECTING\<rparr>"

lemma plugin_messages_parsed_witness:
  "map json_parse (sent (snd (on_open demo_client))) =
     [Some [(''type'', JsStr ''hello''), (''role'', JsStr ''receiver''), (''name'', JsStr ''Tether''),
       (''token'', JsStr ''TTHR-ABCD-EFGH-JKMN''), (''ttl_minutes'', JsNum 0), (''reusable'', JsBool False)]] \<and>
   map json_parse (sent (snd (tether_signaling_send_sdp (Some demo_client) (Some ''sender'') (Some ''answer'')
       (Some [CHR ''v'', CHR 0x0D, CHR 0x0A, CHR 0x22])))) =
     [Some [(''type'', JsStr ''sdp''), (''peer_id'', JsStr ''sender''), (''sdp_type'', JsStr ''answer''),
       (''sdp'', JsStr [CHR ''v'', CHR 0x0D, CHR 0x0A, CHR 0x22])]]"
proof -
  have f: "0 < sig_ws demo_client" "sig_display_name demo_client = ''Tether''" "sig_token demo_client = Some ''TTHR-ABCD-EFGH-JKMN''"
    by (simp_all add: demo_client_def)
  have h: "plain (sig_display_name demo_client)" "pred_option plain (sig_token demo_client)" by (simp_all add: f)
  have p: "plain ''sender''" "plain ''answer''" "plain []" "sdp_plain [CHR ''v'', CHR 0x0D, CHR 0x0A, CHR 0x22]"
    by (simp_all add: sdp_plain_def)
  have "hello_message demo_client = [(''type'', JsStr ''hello''), (''role'', JsStr ''receiver''), (''name'', JsStr ''Tether''),
       (''token'', JsStr ''TTHR-ABCD-EFGH-JKMN''), (''ttl_minutes'', JsNum 0), (''reusable'', JsBool False)]"
    by (simp add: hello_message_def demo_client_def)
  with plugin_messages_parsed [OF f(1) h p(1,2,3,3,4)] show ?thesis by simp
qed

end
