(* ===== verification/Room.thy ===== *)
theory Room
  imports Json Token
begin

text \<open>
  The signaling server: \<open>backend/src/room.ts\<close>, one room per token, and \<open>backend/src/index.ts\<close>, the edge that
  routes a connection to the room of its token. A WebSocket is a number. \<open>Date.now ()\<close>, the random UUID
  and the random bytes are arguments. A handler runs without another one in between: the storage calls it
  awaits hold back the events of the room. Numbers of JavaScript that are not integers do not occur, but
  \<open>NaN\<close> is represented.
\<close>

section \<open>State\<close>

text \<open>The name and the fingerprint are whatever value the message has.\<close>

record peer_conn =
  pc_id :: string
  pc_role :: tether_role
  pc_name :: js_value
  pc_fingerprint :: "js_value option"
  pc_ws :: nat
  pc_accepted :: bool
  pc_pinned :: bool

text \<open>The durable part, and the room; a time is \<^const>\<open>None\<close> when it is \<open>NaN\<close>.\<close>

record room_storage =
  st_token :: "string option"
  st_expires :: "int option option"
  st_reusable :: "bool option"

record room =
  ro_store :: room_storage
  ro_token :: "string option"
  ro_expires :: "int option"
  ro_reusable :: bool
  ro_peers :: "peer_conn list"
  ro_attempts :: "int list"
  ro_locked_until :: int
  ro_params :: "nat \<rightharpoonup> string option"

text \<open>The variables of the deployment, and how JavaScript makes a number of a string.\<close>

record room_env =
  re_max_ttl :: int
  re_window :: int
  re_max_attempts :: int
  re_lockout :: int
  re_number :: "string \<Rightarrow> int option"

text \<open>\<open>ws.send (JSON.stringify (...))\<close>, and \<open>ws.close (code, reason)\<close>.\<close>

datatype room_out = RoomSend nat js_object | RoomClose nat int string

definition room_load :: "room_storage \<Rightarrow> room" where
  "room_load st = \<lparr>ro_store = st, ro_token = st_token st,
     ro_expires = (case st_expires st of None \<Rightarrow> Some 0 | Some e \<Rightarrow> e),
     ro_reusable = (case st_reusable st of None \<Rightarrow> False | Some b \<Rightarrow> b),
     ro_peers = [], ro_attempts = [], ro_locked_until = 0, ro_params = Map.empty\<rparr>"

definition has_pc_id :: "string \<Rightarrow> peer_conn \<Rightarrow> bool" where
  "has_pc_id i p \<longleftrightarrow> pc_id p = i"

lemma has_pc_id_fun: "has_pc_id i = (\<lambda>p. pc_id p = i)"
  by (simp add: fun_eq_iff has_pc_id_def)

definition findSender :: "room \<Rightarrow> peer_conn option" where
  "findSender r = find (\<lambda>p. pc_role p = TETHER_ROLE_SENDER) (ro_peers r)"

definition findPeerByWs :: "nat \<Rightarrow> room \<Rightarrow> peer_conn option" where
  "findPeerByWs ws r = find (\<lambda>p. pc_ws p = ws) (ro_peers r)"

text \<open>\<open>this.peers.get (v)\<close>: only a string can be a key that is there.\<close>

definition get_peer :: "js_value option \<Rightarrow> room \<Rightarrow> peer_conn option" where
  "get_peer v r = (case v of Some (JsStr i) \<Rightarrow> find (has_pc_id i) (ro_peers r) | _ \<Rightarrow> None)"

definition set_peer :: "peer_conn \<Rightarrow> peer_conn list \<Rightarrow> peer_conn list" where
  "set_peer p ps = (if find (has_pc_id (pc_id p)) ps = None then ps @ [p] else update_first (has_pc_id (pc_id p)) (\<lambda>_. p) ps)"

definition delete_peer :: "string \<Rightarrow> room \<Rightarrow> room" where
  "delete_peer i r = r\<lparr>ro_peers := erase_first (has_pc_id i) (ro_peers r)\<rparr>"

section \<open>The handlers\<close>

definition recordAttempt :: "room_env \<Rightarrow> int \<Rightarrow> room \<Rightarrow> room" where
  "recordAttempt env now r =
     (let a = filter (\<lambda>t. now - t < re_window env * 1000) (ro_attempts r) @ [now] in
      if re_max_attempts env \<le> int (length a)
      then r\<lparr>ro_locked_until := now + re_lockout env * 1000, ro_attempts := []\<rparr>
      else r\<lparr>ro_attempts := a\<rparr>)"

text \<open>\<open>Math.min (msg.ttl_minutes ?? 30, MAX)\<close>.\<close>

definition hello_ttl :: "room_env \<Rightarrow> js_object \<Rightarrow> int option" where
  "hello_ttl env msg =
     map_option (min (re_max_ttl env))
       (case js_or msg ''ttl_minutes'' (JsNum 30) of
          JsNum n \<Rightarrow> Some n
        | JsBool b \<Rightarrow> Some (if b then 1 else 0)
        | JsStr s \<Rightarrow> re_number env s
        | JsOther t \<Rightarrow> re_number env t
        | JsNull \<Rightarrow> Some 0)"

text \<open>\<open>toUpperCase\<close> on the letters of ASCII; on a value that is not a string the call throws.\<close>

definition toUpperCase :: "js_value \<Rightarrow> string option" where
  "toUpperCase v = (case v of JsStr s \<Rightarrow> Some (map toupper s) | _ \<Rightarrow> None)"

definition claimed_token :: "js_object \<Rightarrow> string option \<Rightarrow> string option" where
  "claimed_token msg param = toUpperCase (js_or msg ''token'' (JsStr (case param of None \<Rightarrow> [] | Some t \<Rightarrow> t)))"

definition sender_hello :: "room_env \<Rightarrow> int \<Rightarrow> string \<Rightarrow> nat \<Rightarrow> js_object \<Rightarrow> room \<Rightarrow> room \<times> room_out list" where
  "sender_hello env now uuid ws msg r =
     (let r1 = (if ro_expires r = None \<or> ro_expires r = Some 0
                then (let e = map_option (\<lambda>ttl. now + ttl * 60000) (hello_ttl env msg);
                          b = (\<not> js_falsy (js_get msg ''reusable'')) in
                      r\<lparr>ro_expires := e, ro_reusable := b,
                         ro_store := \<lparr>st_token = (if nonempty_str (ro_token r) then ro_token r else st_token (ro_store r)),
                                      st_expires = Some e, st_reusable = Some b\<rparr>\<rparr>)
                else r) in
      (r1\<lparr>ro_peers := set_peer \<lparr>pc_id = uuid, pc_role = TETHER_ROLE_SENDER, pc_name = js_or msg ''name'' (JsStr []),
          pc_fingerprint = None, pc_ws = ws, pc_accepted = True, pc_pinned = False\<rparr> (ro_peers r1)\<rparr>,
       [RoomSend ws [(''type'', JsStr ''token''),
          (''token'', case ro_token r1 of None \<Rightarrow> JsNull | Some t \<Rightarrow> JsStr t)]]))"

definition receiver_hello_room ::
  "room_env \<Rightarrow> int \<Rightarrow> string \<Rightarrow> nat \<Rightarrow> js_object \<Rightarrow> string option \<Rightarrow> room \<Rightarrow> room \<times> room_out list" where
  "receiver_hello_room env now uuid ws msg param r =
     (case claimed_token msg param of
        None \<Rightarrow> (r, [])
      | Some claimed \<Rightarrow>
          if \<not> nonempty_str (ro_token r) \<or> ro_token r \<noteq> Some claimed
          then (recordAttempt env now r,
                [RoomSend ws [(''type'', JsStr ''token_invalid'')], RoomClose ws 1008 ''invalid token''])
          else if (case ro_expires r of None \<Rightarrow> False | Some e \<Rightarrow> e < now)
          then (r, [RoomSend ws [(''type'', JsStr ''token_invalid'')], RoomClose ws 1008 ''expired''])
          else if now < ro_locked_until r
          then (r, [RoomSend ws [(''type'', JsStr ''token_locked_out''),
                      (''retry_after'', JsNum (- ((now - ro_locked_until r) div 1000)))],
                    RoomClose ws 1013 ''locked out''])
          else
            let r1 = r\<lparr>ro_peers := set_peer \<lparr>pc_id = uuid, pc_role = TETHER_ROLE_RECEIVER,
                   pc_name = js_or msg ''name'' (JsStr []), pc_fingerprint = js_get msg ''fingerprint'', pc_ws = ws,
                   pc_accepted = False, pc_pinned = False\<rparr> (ro_peers r)\<rparr> in
            (r1, case findSender r1 of
                   None \<Rightarrow> []
                 | Some s \<Rightarrow> [RoomSend (pc_ws s) [(''type'', JsStr ''pending''), (''peer_id'', JsStr uuid),
                     (''name'', js_or msg ''name'' (JsStr [])), (''fingerprint'', js_or msg ''fingerprint'' (JsStr []))]]))"

definition handleHello ::
  "room_env \<Rightarrow> int \<Rightarrow> string \<Rightarrow> nat \<Rightarrow> js_object \<Rightarrow> string option \<Rightarrow> room \<Rightarrow> room \<times> room_out list" where
  "handleHello env now uuid ws msg param r =
     (if js_get msg ''role'' = Some (JsStr ''sender'') then sender_hello env now uuid ws msg r
      else receiver_hello_room env now uuid ws msg param r)"

definition handleAccept :: "peer_conn \<Rightarrow> js_object \<Rightarrow> room \<Rightarrow> room \<times> room_out list" where
  "handleAccept sender msg r =
     (if pc_role sender \<noteq> TETHER_ROLE_SENDER \<or> js_falsy (js_get msg ''peer_id'') then (r, [])
      else case get_peer (js_get msg ''peer_id'') r of
        None \<Rightarrow> (r, [])
      | Some p \<Rightarrow>
          if pc_role p \<noteq> TETHER_ROLE_RECEIVER then (r, [])
          else (r\<lparr>ro_peers := update_first (has_pc_id (pc_id p)) (\<lambda>q. q\<lparr>pc_accepted := True\<rparr>) (ro_peers r)\<rparr>,
                [RoomSend (pc_ws p) [(''type'', JsStr ''accepted'')]]))"

definition handleReject :: "peer_conn \<Rightarrow> js_object \<Rightarrow> room \<Rightarrow> room \<times> room_out list" where
  "handleReject sender msg r =
     (if pc_role sender \<noteq> TETHER_ROLE_SENDER \<or> js_falsy (js_get msg ''peer_id'') then (r, [])
      else case get_peer (js_get msg ''peer_id'') r of
        None \<Rightarrow> (r, [])
      | Some p \<Rightarrow>
          (delete_peer (pc_id p) r,
           [RoomSend (pc_ws p) [(''type'', JsStr ''rejected'')], RoomClose (pc_ws p) 1000 ''rejected'']))"

definition is_receiver :: "peer_conn \<Rightarrow> bool" where
  "is_receiver p \<longleftrightarrow> pc_role p = TETHER_ROLE_RECEIVER"

definition handleRevoke :: "peer_conn \<Rightarrow> room \<Rightarrow> room \<times> room_out list" where
  "handleRevoke sender r =
     (if pc_role sender \<noteq> TETHER_ROLE_SENDER then (r, [])
      else (r\<lparr>ro_token := None, ro_expires := Some 0,
              ro_store := (ro_store r)\<lparr>st_token := None, st_expires := None\<rparr>,
              ro_peers := filter (\<lambda>p. \<not> is_receiver p) (ro_peers r)\<rparr>,
            concat (map (\<lambda>p. [RoomSend (pc_ws p) [(''type'', JsStr ''rejected'')], RoomClose (pc_ws p) 1000 ''revoked''])
              (filter is_receiver (ro_peers r)))))"

definition relayToPeer :: "peer_conn \<Rightarrow> js_object \<Rightarrow> room \<Rightarrow> room_out list" where
  "relayToPeer from_peer msg r =
     (let pid = js_get msg ''peer_id'' in
      if pc_role from_peer = TETHER_ROLE_RECEIVER \<and> (js_falsy pid \<or> pid = Some (JsStr ''sender''))
      then (case findSender r of
              None \<Rightarrow> []
            | Some s \<Rightarrow> [RoomSend (pc_ws s) (js_set msg ''peer_id'' (JsStr (pc_id from_peer)))])
      else if js_falsy pid then []
      else case get_peer pid r of
        None \<Rightarrow> []
      | Some target \<Rightarrow>
          if pc_role from_peer = TETHER_ROLE_SENDER \<and> \<not> pc_accepted target then []
          else if pc_role from_peer = TETHER_ROLE_RECEIVER \<and> \<not> pc_accepted from_peer then []
          else [RoomSend (pc_ws target)
                  (if pc_role target = TETHER_ROLE_SENDER then js_set msg ''peer_id'' (JsStr (pc_id from_peer)) else msg)])"

definition onMessage ::
  "room_env \<Rightarrow> int \<Rightarrow> string \<Rightarrow> nat \<Rightarrow> js_object option \<Rightarrow> room \<Rightarrow> room \<times> room_out list" where
  "onMessage env now uuid ws parsed r =
     (case parsed of
        None \<Rightarrow> (r, [])
      | Some msg \<Rightarrow>
          if js_get msg ''type'' = Some (JsStr ''hello'')
          then handleHello env now uuid ws msg (case ro_params r ws of None \<Rightarrow> None | Some t \<Rightarrow> t) r
          else case findPeerByWs ws r of
            None \<Rightarrow> (r, [])
          | Some p \<Rightarrow>
              if js_get msg ''type'' = Some (JsStr ''accept'') then handleAccept p msg r
              else if js_get msg ''type'' = Some (JsStr ''reject'') then handleReject p msg r
              else if js_get msg ''type'' = Some (JsStr ''revoke'') then handleRevoke p r
              else if js_get msg ''type'' = Some (JsStr ''sdp'') \<or> js_get msg ''type'' = Some (JsStr ''ice'')
              then (r, relayToPeer p msg r)
              else (r, []))"

definition onClose :: "nat \<Rightarrow> room \<Rightarrow> room \<times> room_out list" where
  "onClose ws r =
     (case findPeerByWs ws r of
        None \<Rightarrow> (r, [])
      | Some p \<Rightarrow>
          let r1 = delete_peer (pc_id p) r in
          if pc_role p = TETHER_ROLE_RECEIVER
          then (r1, case findSender r1 of
                      None \<Rightarrow> []
                    | Some s \<Rightarrow> [RoomSend (pc_ws s) [(''type'', JsStr ''peer_gone''), (''peer_id'', JsStr (pc_id p))]])
          else if ro_reusable r1 then (r1, [])
          else (r1\<lparr>ro_peers := []\<rparr>, map (\<lambda>q. RoomClose (pc_ws q) 1001 ''sender gone'') (ro_peers r1)))"

text \<open>A new connection, with the room's name from the edge and the token of its URL.\<close>

definition room_fetch :: "string option \<Rightarrow> string option \<Rightarrow> nat \<Rightarrow> room \<Rightarrow> room" where
  "room_fetch hint param ws r =
     (let r1 = (if nonempty_str hint \<and> ro_token r \<noteq> hint
                then r\<lparr>ro_token := hint, ro_store := (ro_store r)\<lparr>st_token := hint\<rparr>\<rparr> else r) in
      r1\<lparr>ro_params := (ro_params r1)(ws \<mapsto> param)\<rparr>)"

section \<open>The edge\<close>

definition ALPHABET :: string where
  "ALPHABET = ''ABCDEFGHJKMNPQRSTUVWXYZ23456789''"

definition token_group_of :: "u8 list \<Rightarrow> string" where
  "token_group_of buf = map (\<lambda>b. ALPHABET ! (unat b mod length ALPHABET)) buf"

text \<open>Three times four random bytes.\<close>

definition generateToken :: "u8 list \<Rightarrow> u8 list \<Rightarrow> u8 list \<Rightarrow> string" where
  "generateToken a b c = ''TTHR-'' @ token_group_of a @ ''-'' @ token_group_of b @ ''-'' @ token_group_of c"

text \<open>\<open>[A-HJKMNPQRSTUVWXYZ2-9]\<close>, and the expression as a whole.\<close>

definition regex_class :: "char \<Rightarrow> bool" where
  "regex_class c \<longleftrightarrow> (65 \<le> (of_char c :: nat) \<and> (of_char c :: nat) \<le> 72) \<or> c \<in> set ''JKMNPQRSTUVWXYZ'' \<or>
     (50 \<le> (of_char c :: nat) \<and> (of_char c :: nat) \<le> 57)"

definition TOKEN_REGEX :: "string \<Rightarrow> bool" where
  "TOKEN_REGEX s \<longleftrightarrow> length s = 19 \<and> take 5 s = ''TTHR-'' \<and> list_all regex_class (take 4 (drop 5 s)) \<and>
     s ! 9 = CHR ''-'' \<and> list_all regex_class (take 4 (drop 10 s)) \<and> s ! 14 = CHR ''-'' \<and>
     list_all regex_class (drop 15 s)"

text \<open>
  What the edge answers to a request: a status, or the name of the room the connection goes to. The pathname,
  the value of the Upgrade header and the token of the query come from the request; \<open>minted\<close> is what
  \<^const>\<open>generateToken\<close> returns.
\<close>

datatype edge_result = EdgeStatus int | EdgeRoom string

definition edge_fetch :: "string \<Rightarrow> string option \<Rightarrow> string option \<Rightarrow> string \<Rightarrow> edge_result" where
  "edge_fetch path upgrade param minted =
     (if path = ''/health'' then EdgeStatus 200
      else if path \<noteq> ''/v1'' then EdgeStatus 404
      else if upgrade \<noteq> Some ''websocket'' then EdgeStatus 426
      else if nonempty_str param
      then (if TOKEN_REGEX (map toupper (the param)) then EdgeRoom (map toupper (the param)) else EdgeStatus 400)
      else EdgeRoom minted)"

section \<open>The room as a machine\<close>

datatype room_event =
    RoomFetch "string option" "string option" nat
  | RoomMessage room_env int string nat "js_object option"
  | RoomClosed nat
  | RoomReload

fun room_call :: "room_event \<Rightarrow> room \<Rightarrow> room \<times> room_out list" where
  "room_call (RoomFetch hint param ws) r = (room_fetch hint param ws r, [])"
| "room_call (RoomMessage env now uuid ws msg) r = onMessage env now uuid ws msg r"
| "room_call (RoomClosed ws) r = onClose ws r"
| "room_call RoomReload r = (room_load (ro_store r), [])"

text \<open>The receivers a message of a sender accepts.\<close>

fun grants :: "room_event \<Rightarrow> room \<Rightarrow> string set" where
  "grants (RoomMessage env now uuid ws (Some msg)) r =
     (case findPeerByWs ws r of
        None \<Rightarrow> {}
      | Some p \<Rightarrow>
          if pc_role p = TETHER_ROLE_SENDER \<and> js_get msg ''type'' = Some (JsStr ''accept'')
          then (case js_get msg ''peer_id'' of Some (JsStr i) \<Rightarrow> {i} | _ \<Rightarrow> {}) else {})"
| "grants ev r = {}"

text \<open>The state of the room with everybody a sender has accepted so far.\<close>

fun room_step :: "room_event \<Rightarrow> room \<times> string set \<Rightarrow> room \<times> string set" where
  "room_step ev (r, G) = (fst (room_call ev r), G \<union> grants ev r)"

section \<open>What every event keeps\<close>

text \<open>The durable copy agrees with the memory.\<close>

definition stored :: "room \<Rightarrow> bool" where
  "stored r \<longleftrightarrow> ro_token r = st_token (ro_store r) \<and>
     ro_expires r = (case st_expires (ro_store r) of None \<Rightarrow> Some 0 | Some e \<Rightarrow> e) \<and>
     ro_reusable r = (case st_reusable (ro_store r) of None \<Rightarrow> False | Some b \<Rightarrow> b)"

text \<open>A sender counts as accepted, a receiver only if it was granted.\<close>

definition peer_good :: "string set \<Rightarrow> peer_conn \<Rightarrow> bool" where
  "peer_good G p \<longleftrightarrow> (if pc_role p = TETHER_ROLE_SENDER then pc_accepted p else pc_accepted p \<longrightarrow> pc_id p \<in> G)"

definition peers_good :: "string set \<Rightarrow> peer_conn list \<Rightarrow> bool" where
  "peers_good G ps \<longleftrightarrow> distinct (map pc_id ps) \<and> (\<forall>p \<in> set ps. peer_good G p)"

lemma peers_good_Nil [simp]: "peers_good G []"
  by (simp add: peers_good_def)

lemma peers_good_mono: "peers_good G ps \<Longrightarrow> G \<subseteq> H \<Longrightarrow> peers_good H ps"
  by (auto simp: peers_good_def peer_good_def)

lemma peers_good_filter: "peers_good G ps \<Longrightarrow> peers_good G (filter q ps)"
  by (auto simp: peers_good_def distinct_map_filter)

lemma peers_good_erase: "peers_good G ps \<Longrightarrow> peers_good G (erase_first q ps)"
  using erase_first_ball [of ps "peer_good G" q] by (simp add: peers_good_def distinct_map_erase_first)

lemma peers_good_set: "peers_good G ps \<Longrightarrow> peer_good G p \<Longrightarrow> peers_good G (set_peer p ps)"
proof -
  assume ps: "peers_good G ps" and p: "peer_good G p"
  have "pc_id p \<notin> pc_id ` set ps" if "find (has_pc_id (pc_id p)) ps = None"
    using that by (auto simp: find_None_iff has_pc_id_def)
  moreover have "map pc_id (update_first (has_pc_id (pc_id p)) (\<lambda>_. p) ps) = map pc_id ps"
    by (rule map_update_first) (simp add: has_pc_id_def)
  moreover have "\<forall>q \<in> set (update_first (has_pc_id (pc_id p)) (\<lambda>_. p) ps). peer_good G q"
    by (rule update_first_ball) (use ps p in \<open>auto simp: peers_good_def\<close>)
  ultimately show ?thesis using ps p by (auto simp: set_peer_def peers_good_def)
qed

lemma peers_good_accept:
  assumes "peers_good G ps" and "i \<in> G"
  shows "peers_good G (update_first (has_pc_id i) (\<lambda>q. q\<lparr>pc_accepted := True\<rparr>) ps)"
proof -
  have "map pc_id (update_first (has_pc_id i) (\<lambda>q. q\<lparr>pc_accepted := True\<rparr>) ps) = map pc_id ps"
    by (rule map_update_first) simp
  moreover have "\<forall>q \<in> set (update_first (has_pc_id i) (\<lambda>q. q\<lparr>pc_accepted := True\<rparr>) ps). peer_good G q"
    by (rule update_first_ball) (use assms in \<open>auto simp: peers_good_def peer_good_def has_pc_id_def\<close>)
  ultimately show ?thesis using assms by (simp add: peers_good_def)
qed

definition room_inv :: "room \<times> string set \<Rightarrow> bool" where
  "room_inv x \<longleftrightarrow> peers_good (snd x) (ro_peers (fst x)) \<and> stored (fst x)"

lemma recordAttempt_frame [simp]:
  "ro_peers (recordAttempt env now r) = ro_peers r" "ro_store (recordAttempt env now r) = ro_store r"
  "stored (recordAttempt env now r) = stored r"
  by (simp_all add: recordAttempt_def stored_def Let_def)

lemma stored_update [simp]:
  "stored (r\<lparr>ro_peers := ps\<rparr>) = stored r" "stored (r\<lparr>ro_params := q\<rparr>) = stored r"
  by (simp_all add: stored_def)

lemma hello_ok:
  assumes "handleHello env now uuid ws msg param r = (r', outs)" and "peers_good G (ro_peers r)" and "stored r"
  shows "peers_good G (ro_peers r') \<and> stored r'"
proof (cases "js_get msg ''role'' = Some (JsStr ''sender'')")
  case True
  with assms show ?thesis
    by (auto simp: handleHello_def sender_hello_def Let_def stored_def peer_good_def intro!: peers_good_set split: if_splits)
next
  case False
  with assms show ?thesis
    by (auto simp: handleHello_def receiver_hello_room_def Let_def peer_good_def intro!: peers_good_set
        split: if_splits option.splits)
qed

lemma accept_ok:
  assumes "handleAccept p msg r = (r', outs)" and "peers_good G (ro_peers r)" and "stored r"
    and "\<And>i. pc_role p = TETHER_ROLE_SENDER \<Longrightarrow> js_get msg ''peer_id'' = Some (JsStr i) \<Longrightarrow> i \<in> G"
  shows "peers_good G (ro_peers r') \<and> stored r'"
proof -
  have "js_get msg ''peer_id'' = Some (JsStr (pc_id q))" if "get_peer (js_get msg ''peer_id'') r = Some q" for q
    using that by (auto simp: get_peer_def has_pc_id_def split: option.splits js_value.splits dest: find_SomeD)
  with assms show ?thesis
    by (auto simp: handleAccept_def intro!: peers_good_accept split: if_splits option.splits)
qed

lemma reject_ok: "handleReject p msg r = (r', outs) \<Longrightarrow> peers_good G (ro_peers r) \<Longrightarrow> stored r \<Longrightarrow>
    peers_good G (ro_peers r') \<and> stored r'"
  by (auto simp: handleReject_def delete_peer_def intro: peers_good_erase split: if_splits option.splits)

lemma revoke_ok: "handleRevoke p r = (r', outs) \<Longrightarrow> peers_good G (ro_peers r) \<Longrightarrow> stored r \<Longrightarrow>
    peers_good G (ro_peers r') \<and> stored r'"
  by (auto simp: handleRevoke_def stored_def intro: peers_good_filter split: if_splits)

lemma close_ok: "onClose ws r = (r', outs) \<Longrightarrow> peers_good G (ro_peers r) \<Longrightarrow> stored r \<Longrightarrow>
    peers_good G (ro_peers r') \<and> stored r'"
  by (auto simp: onClose_def delete_peer_def Let_def intro: peers_good_erase split: if_splits option.splits)

lemma message_ok:
  assumes "onMessage env now uuid ws msg r = (r', outs)" and "peers_good G (ro_peers r)" and "stored r"
    and "grants (RoomMessage env now uuid ws msg) r \<subseteq> G"
  shows "peers_good G (ro_peers r') \<and> stored r'"
proof (cases msg)
  case None
  with assms show ?thesis by (simp add: onMessage_def)
next
  case (Some m)
  show ?thesis
  proof (cases "js_get m ''type'' = Some (JsStr ''hello'')")
    case True
    with assms Some show ?thesis by (intro hello_ok) (simp_all add: onMessage_def)
  next
    case other: False
    show ?thesis
    proof (cases "findPeerByWs ws r")
      case None
      with assms Some other show ?thesis by (simp add: onMessage_def)
    next
      case (Some p)
      note mem = Some
      have call: "(if js_get m ''type'' = Some (JsStr ''accept'') then handleAccept p m r
          else if js_get m ''type'' = Some (JsStr ''reject'') then handleReject p m r
          else if js_get m ''type'' = Some (JsStr ''revoke'') then handleRevoke p r
          else (r, snd (r', outs))) = (r', outs)"
        using assms(1) mem other \<open>msg = Some m\<close> by (auto simp: onMessage_def split: if_splits)
      show ?thesis
      proof (cases "js_get m ''type'' = Some (JsStr ''accept'')")
        case True
        with call have "handleAccept p m r = (r', outs)" by simp
        then show ?thesis
          by (rule accept_ok) (use assms True mem \<open>msg = Some m\<close> in \<open>auto split: if_splits\<close>)
      next
        case False
        with call assms(2,3) reject_ok revoke_ok show ?thesis by (auto split: if_splits)
      qed
    qed
  qed
qed

interpretation room: invariant_machine room_step room_inv
proof
  fix x ev
  assume inv: "room_inv x"
  obtain r G where x: "x = (r, G)" by fastforce
  let ?G = "G \<union> grants ev r"
  have ok: "peers_good ?G (ro_peers r)" "stored r"
    using inv x peers_good_mono [of G _ ?G] by (auto simp: room_inv_def)
  obtain r' outs where call: "room_call ev r = (r', outs)" by fastforce
  have "peers_good ?G (ro_peers r') \<and> stored r'"
  proof (cases ev)
    case (RoomFetch hint param ws)
    with call ok show ?thesis by (auto simp: room_fetch_def stored_def Let_def split: if_splits)
  next
    case (RoomMessage env now uuid ws msg)
    with call ok show ?thesis by (intro message_ok) auto
  next
    case (RoomClosed ws)
    with call close_ok [OF _ ok] show ?thesis by simp
  next
    case RoomReload
    with call ok show ?thesis by (auto simp: room_load_def stored_def)
  qed
  with x call show "room_inv (room_step ev x)" by (simp add: room_inv_def)
qed

lemma room_load_inv: "room_inv (room_load st, {})"
  by (simp add: room_inv_def room_load_def stored_def)

section \<open>Who hears whom\<close>

abbreviation media :: "js_object \<Rightarrow> bool" where
  "media ob \<equiv> js_get ob ''type'' \<in> {Some (JsStr ''sdp''), Some (JsStr ''ice'')}"

lemma findSenderD: "findSender r = Some s \<Longrightarrow> s \<in> set (ro_peers r) \<and> pc_role s = TETHER_ROLE_SENDER"
  by (auto simp: findSender_def dest: find_SomeD)

lemma get_peerD: "get_peer v r = Some t \<Longrightarrow> t \<in> set (ro_peers r) \<and> v = Some (JsStr (pc_id t))"
  by (auto simp: get_peer_def has_pc_id_def split: option.splits js_value.splits dest: find_SomeD)

lemma findPeerByWsD: "findPeerByWs ws r = Some p \<Longrightarrow> p \<in> set (ro_peers r) \<and> pc_ws p = ws"
  by (auto simp: findPeerByWs_def dest: find_SomeD)

lemma relay_target:
  assumes "RoomSend w ob \<in> set (relayToPeer p msg r)"
  shows "\<exists>t \<in> set (ro_peers r). pc_ws t = w \<and>
    (pc_role t = TETHER_ROLE_SENDER \<or>
     (if pc_role p = TETHER_ROLE_SENDER then pc_accepted t else pc_accepted p))"
proof (cases "pc_role p = TETHER_ROLE_RECEIVER \<and> (js_falsy (js_get msg ''peer_id'') \<or> js_get msg ''peer_id'' = Some (JsStr ''sender''))")
  case True
  with assms obtain s where "findSender r = Some s" "w = pc_ws s"
    by (cases "findSender r") (auto simp: relayToPeer_def Let_def)
  with findSenderD [of r s] show ?thesis by blast
next
  case False
  with assms obtain t where t: "get_peer (js_get msg ''peer_id'') r = Some t" "w = pc_ws t"
      "pc_role p = TETHER_ROLE_SENDER \<longrightarrow> pc_accepted t" "pc_role p = TETHER_ROLE_RECEIVER \<longrightarrow> pc_accepted p"
    by (cases "get_peer (js_get msg ''peer_id'') r") (auto simp: relayToPeer_def Let_def split: if_splits)
  with get_peerD [OF t(1)] show ?thesis by (cases "pc_role p") auto
qed

lemma media_is_relayed:
  assumes "room_call ev r = (r', outs)" and "RoomSend w ob \<in> set outs" and "media ob"
  obtains env now uuid ws msg p where "ev = RoomMessage env now uuid ws (Some msg)" and "findPeerByWs ws r = Some p"
    and "RoomSend w ob \<in> set (relayToPeer p msg r)"
proof (cases ev)
  case (RoomMessage env now uuid ws m)
  then obtain msg where m: "m = Some msg" using assms by (cases m) (auto simp: onMessage_def)
  have no_hello: "js_get msg ''type'' \<noteq> Some (JsStr ''hello'')"
    using assms RoomMessage m
    by (auto simp: onMessage_def handleHello_def sender_hello_def receiver_hello_room_def Let_def split: if_splits option.splits)
  with assms RoomMessage m obtain p where p: "findPeerByWs ws r = Some p"
    by (cases "findPeerByWs ws r") (auto simp: onMessage_def)
  have "RoomSend w ob \<in> set (relayToPeer p msg r)"
    using assms RoomMessage m p no_hello
    by (auto simp: onMessage_def handleAccept_def handleReject_def handleRevoke_def split: if_splits option.splits)
  with that RoomMessage m p show thesis by blast
qed (use assms in \<open>auto simp: onClose_def Let_def split: if_splits option.splits\<close>)

text \<open>C5: Nothing reaches a receiver unaccepted: whatever connections and messages a room sees, from whomever, an SDP or
  ICE message that it sends to a socket goes to a peer of that socket, and that peer is a sender, or is a receiver
  which some sender accepted before and hears a sender, or hears a receiver that some sender accepted before.\<close>

theorem media_needs_acceptance:
  assumes "fold room_step evs (room_load st, {}) = (r, G)"
    and "room_call ev r = (r', outs)" and "RoomSend w ob \<in> set outs" and "media ob"
  shows "\<exists>env now uuid ws msg p t. ev = RoomMessage env now uuid ws (Some msg) \<and> findPeerByWs ws r = Some p \<and>
    t \<in> set (ro_peers r) \<and> pc_ws t = w \<and>
    (pc_role t = TETHER_ROLE_SENDER \<or> pc_role p = TETHER_ROLE_SENDER \<and> pc_id t \<in> G \<or>
     pc_role p = TETHER_ROLE_RECEIVER \<and> pc_id p \<in> G)"
proof -
  obtain env now uuid ws msg p where ev: "ev = RoomMessage env now uuid ws (Some msg)" "findPeerByWs ws r = Some p"
    "RoomSend w ob \<in> set (relayToPeer p msg r)"
    by (rule media_is_relayed [OF assms(2-4)])
  from relay_target [OF ev(3)] obtain t where t: "t \<in> set (ro_peers r)" "pc_ws t = w"
    "pc_role t = TETHER_ROLE_SENDER \<or> (if pc_role p = TETHER_ROLE_SENDER then pc_accepted t else pc_accepted p)" by blast
  have "room_inv (r, G)" using room.run_inv [OF room_load_inv, of evs st] assms(1) by simp
  then have good: "peer_good G q" if "q \<in> set (ro_peers r)" for q using that by (auto simp: room_inv_def peers_good_def)
  have "p \<in> set (ro_peers r)" using ev(2) by (auto simp: findPeerByWs_def dest: find_SomeD)
  with good t have "pc_role t = TETHER_ROLE_SENDER \<or> pc_role p = TETHER_ROLE_SENDER \<and> pc_id t \<in> G \<or>
     pc_role p = TETHER_ROLE_RECEIVER \<and> pc_id p \<in> G"
    by (cases "pc_role p"; cases "pc_role t") (force simp: peer_good_def split: if_splits)+
  with ev t show ?thesis by blast
qed

text \<open>A comment says that receivers must be accepted before any SDP or ICE goes through them; a receiver that has not
  been accepted reaches the sender by naming it \<open>sender\<close> or naming nobody, which is what the plugin does.\<close>

theorem unaccepted_receiver_is_heard:
  assumes "findPeerByWs ws r = Some p" and "pc_role p = TETHER_ROLE_RECEIVER" and "\<not> pc_accepted p"
    and "findSender r = Some s" and "media msg" and "js_get msg ''peer_id'' \<in> {None, Some (JsStr ''sender'')}"
  shows "onMessage env now uuid ws (Some msg) r = (r, [RoomSend (pc_ws s) (js_set msg ''peer_id'' (JsStr (pc_id p)))])"
  using assms by (auto simp: onMessage_def relayToPeer_def)

text \<open>C39: The durable copy is enough: a room that is dropped from memory and loaded again has the token, the expiry and the
  reusability it had; it has lost its peers, the attempts it counted, and a lockout in force.\<close>

theorem reload_keeps_the_token:
  assumes "fold room_step evs (room_load st, {}) = (r, G)"
  shows "fst (room_call RoomReload r) = r\<lparr>ro_peers := [], ro_attempts := [], ro_locked_until := 0, ro_params := Map.empty\<rparr>"
proof -
  have "room_inv (r, G)" using room.run_inv [OF room_load_inv, of evs st] assms by simp
  then show ?thesis by (simp add: room_inv_def stored_def room_load_def)
qed

text \<open>C37: Guesses are not counted: a client that guesses a token connects to the room of its guess, and its hello claims
  that same token, so the room records no failed attempt and locks nobody out, however many guesses are made.\<close>

theorem guesses_are_not_counted:
  assumes "edge_fetch ''/v1'' (Some ''websocket'') (Some guess) minted = EdgeRoom name" and g: "guess \<noteq> []"
    and "js_get msg ''type'' = Some (JsStr ''hello'')" and tok: "js_get msg ''token'' \<in> {None, Some (JsStr guess)}"
    and hello: "onMessage env now uuid ws (Some msg) (room_fetch (Some name) (Some guess) ws r) = (r', outs)"
  shows "ro_attempts r' = ro_attempts r \<and> ro_locked_until r' = ro_locked_until r"
proof -
  have name: "name = map toupper guess"
    using assms(1) g by (auto simp: edge_fetch_def TOKEN_REGEX_def split: if_splits)
  let ?r = "room_fetch (Some name) (Some guess) ws r"
  have r: "ro_token ?r = Some name" "ro_params ?r ws = Some (Some guess)" "ro_attempts ?r = ro_attempts r"
    "ro_locked_until ?r = ro_locked_until r"
    using name g by (auto simp: room_fetch_def Let_def)
  have "claimed_token msg (Some guess) = Some name"
    using tok name by (auto simp: claimed_token_def js_or_def toUpperCase_def)
  with r name g assms(3) hello show ?thesis
    by (auto simp: onMessage_def handleHello_def sender_hello_def receiver_hello_room_def Let_def split: if_splits option.splits)
qed

text \<open>C38: Whoever holds the token can let himself in: with a second connection he says hello as a sender, which the room
  does not question, and accepts the receiver of his first one.\<close>

theorem token_holder_accepts_himself:
  assumes "findPeerByWs w1 r = Some p" and "pc_role p = TETHER_ROLE_RECEIVER" and "peers_good G (ro_peers r)"
    and "findPeerByWs w2 r = None" and "find (has_pc_id u) (ro_peers r) = None" and "pc_id p \<noteq> []"
    and "hello = [(''type'', JsStr ''hello''), (''role'', JsStr ''sender'')]"
    and "acc = [(''type'', JsStr ''accept''), (''peer_id'', JsStr (pc_id p))]"
    and "onMessage env now u w2 (Some hello) r = (r1, o1)" and "onMessage env now' u' w2 (Some acc) r1 = (r2, o2)"
  shows "o2 = [RoomSend w1 [(''type'', JsStr ''accepted'')]] \<and> (\<exists>q \<in> set (ro_peers r2). pc_id q = pc_id p \<and> pc_accepted q)"
proof -
  define s where "s = \<lparr>pc_id = u, pc_role = TETHER_ROLE_SENDER, pc_name = JsStr [], pc_fingerprint = None, pc_ws = w2,
      pc_accepted = True, pc_pinned = False\<rparr>"
  have ps1: "ro_peers r1 = ro_peers r @ [s]"
    using assms(5,7,9) by (auto simp: onMessage_def handleHello_def sender_hello_def set_peer_def js_or_def s_def Let_def)
  have p: "p \<in> set (ro_peers r)" "pc_ws p = w1" using assms(1) by (auto simp: findPeerByWs_def dest: find_SomeD)
  have "find (has_pc_id (pc_id p)) (ro_peers r) = Some p"
    using find_key_unique [of pc_id "ro_peers r" p] assms(3) p by (simp add: peers_good_def has_pc_id_fun)
  then have get: "get_peer (Some (JsStr (pc_id p))) r1 = Some p" using ps1 by (simp add: get_peer_def)
  have who: "findPeerByWs w2 r1 = Some s" using assms(4) ps1 by (simp add: findPeerByWs_def s_def)
  have "(r2, o2) = (r1\<lparr>ro_peers := update_first (has_pc_id (pc_id p)) (\<lambda>q. q\<lparr>pc_accepted := True\<rparr>) (ro_peers r1)\<rparr>,
      [RoomSend w1 [(''type'', JsStr ''accepted'')]])"
    using assms(2,6,8,10) who get p by (simp add: onMessage_def handleAccept_def s_def)
  moreover have "\<exists>q \<in> set (update_first (has_pc_id (pc_id p)) (\<lambda>q. q\<lparr>pc_accepted := True\<rparr>) ps). pc_id q = pc_id p \<and> pc_accepted q"
    if "p \<in> set ps" for ps
    using that by (induction ps) (auto simp: has_pc_id_def)
  ultimately show ?thesis using p ps1 by simp
qed

section \<open>The language of tokens\<close>

lemma regex_class_alphabet: "regex_class c \<longleftrightarrow> c \<in> set k_alphabet"
proof
  show "c \<in> set k_alphabet \<Longrightarrow> regex_class c"
  proof -
    have "list_all regex_class k_alphabet" by code_simp
    then show "c \<in> set k_alphabet \<Longrightarrow> regex_class c" by (simp add: list_all_iff)
  qed
  show "c \<in> set k_alphabet" if "regex_class c"
  proof -
    define n where "n = (of_char c :: nat)"
    have codes: "(of_char ` set k_alphabet :: nat set) = {65..72} \<union> of_char ` set ''JKMNPQRSTUVWXYZ'' \<union> {50..57}"
      by (simp add: k_alphabet_def) auto
    from that have "n \<in> {65..72} \<union> of_char ` set ''JKMNPQRSTUVWXYZ'' \<union> {50..57}"
      unfolding regex_class_def n_def by auto
    then have "of_char c \<in> (of_char ` set k_alphabet :: nat set)" by (simp only: codes n_def)
    then show ?thesis by (auto simp del: set_simps)
  qed
qed

lemma list_all_regex: "list_all regex_class s \<longleftrightarrow> set s \<subseteq> set k_alphabet"
  by (auto simp: list_all_iff regex_class_alphabet)

lemma split_at: "k \<le> length s \<Longrightarrow> s = take k s @ drop k s"
  by simp

lemma regex_iff: "TOKEN_REGEX s \<longleftrightarrow> tether_token_is_well_formed (Some s)"
proof
  assume w: "tether_token_is_well_formed (Some s)"
  then obtain a b c where abc: "token_block a" "token_block b" "token_block c" "s = token_of a b c"
    unfolding well_formed_iff by blast
  then have "length a = 4" "length b = 4" "length c = 4" by (simp_all add: token_block_def)
  with abc show "TOKEN_REGEX s"
    by (simp add: TOKEN_REGEX_def token_of_def TETHER_TOKEN_PREFIX_def list_all_regex token_block_def nth_append)
next
  assume re: "TOKEN_REGEX s"
  define a b c where abc: "a = take 4 (drop 5 s)" "b = take 4 (drop 10 s)" "c = drop 15 s"
  have blocks: "token_block a" "token_block b" "token_block c"
    using re by (simp_all add: TOKEN_REGEX_def abc token_block_def list_all_regex)
  have s: "length s = 19" "take 5 s = TETHER_TOKEN_PREFIX" "s ! 9 = CHR ''-''" "s ! 14 = CHR ''-''"
    using re by (simp_all add: TOKEN_REGEX_def TETHER_TOKEN_PREFIX_def)
  have "s = take 5 s @ drop 5 s" "drop 5 s = a @ drop 9 s" "drop 9 s = s ! 9 # drop 10 s"
    "drop 10 s = b @ drop 14 s" "drop 14 s = s ! 14 # c"
    using s(1) append_take_drop_id [of 4 "drop 5 s"] append_take_drop_id [of 4 "drop 10 s"]
      Cons_nth_drop_Suc [of 9 s] Cons_nth_drop_Suc [of 14 s]
    by (simp_all add: abc)
  then have "s = token_of a b c" using s by (metis append_Cons append_Nil token_of_def)
  with blocks show "tether_token_is_well_formed (Some s)" unfolding well_formed_iff by blast
qed

lemma toupper_alphabet: "c \<in> set k_alphabet \<union> set TETHER_TOKEN_PREFIX \<Longrightarrow> toupper c = c"
proof -
  have "list_all (\<lambda>c. toupper c = c) (k_alphabet @ TETHER_TOKEN_PREFIX)" by code_simp
  then show "c \<in> set k_alphabet \<union> set TETHER_TOKEN_PREFIX \<Longrightarrow> ?thesis" by (auto simp: list_all_iff)
qed

lemma toupper_well_formed: "tether_token_is_well_formed (Some t) \<Longrightarrow> map toupper t = t"
  using well_formed_chars [of t] toupper_alphabet by (intro map_idI) blast

lemma ALPHABET_eq: "ALPHABET = k_alphabet"
  by (simp add: ALPHABET_def k_alphabet_def)

lemma token_group_of_block: "length b = 4 \<Longrightarrow> token_block (token_group_of b)"
proof -
  have "ALPHABET ! (n mod length ALPHABET) \<in> set k_alphabet" for n
    unfolding ALPHABET_eq by (intro nth_mem mod_less_divisor) (simp add: k_alphabet_def)
  then show "length b = 4 \<Longrightarrow> ?thesis" by (auto simp: token_block_def token_group_of_def)
qed

text \<open>C16: The server and the plugin agree on what a token is: the edge's regular expression accepts exactly the strings the
  plugin finds well-formed; every token the edge mints is one; and whatever the plugin's normaliser makes of a paste, the edge
  takes to the room of that name, where the sender's token was minted.\<close>

theorem edge_agrees_with_plugin:
  "(TOKEN_REGEX s \<longleftrightarrow> tether_token_is_well_formed (Some s)) \<and>
   (length a = 4 \<and> length b = 4 \<and> length c = 4 \<longrightarrow> tether_token_is_well_formed (Some (generateToken a b c))) \<and>
   (tether_token_normalise (Some paste) n = (True, Some t) \<longrightarrow>
      edge_fetch ''/v1'' (Some ''websocket'') (Some t) minted = EdgeRoom t)"
proof (intro conjI impI)
  show "TOKEN_REGEX s \<longleftrightarrow> tether_token_is_well_formed (Some s)" by (rule regex_iff)
next
  assume "length a = 4 \<and> length b = 4 \<and> length c = 4"
  then have "token_block (token_group_of a)" "token_block (token_group_of b)" "token_block (token_group_of c)"
    by (simp_all add: token_group_of_block)
  then show "tether_token_is_well_formed (Some (generateToken a b c))"
    unfolding well_formed_iff by (auto simp: generateToken_def token_of_def TETHER_TOKEN_PREFIX_def)
next
  assume "tether_token_normalise (Some paste) n = (True, Some t)"
  then have w: "tether_token_is_well_formed (Some t)" by (auto simp: tether_token_normalise_def Let_def split: if_splits)
  with toupper_well_formed [OF w] regex_iff [of t] well_formed_length [OF w]
  show "edge_fetch ''/v1'' (Some ''websocket'') (Some t) minted = EdgeRoom t"
    by (cases t) (simp_all add: edge_fetch_def)
qed

section \<open>The lockout\<close>

lemma recordAttempt_run:
  assumes "\<forall>t \<in> set (ro_attempts r) \<union> set ts. \<forall>u \<in> set ts. u - t < re_window env * 1000"
    and "int (length (ro_attempts r) + length ts) < re_max_attempts env"
  shows "fold (recordAttempt env) ts r = r\<lparr>ro_attempts := ro_attempts r @ ts\<rparr>"
  using assms
proof (induction ts arbitrary: r)
  case (Cons t ts)
  have "filter (\<lambda>u. t - u < re_window env * 1000) (ro_attempts r) = ro_attempts r"
    using Cons.prems(1) by (intro filter_True) auto
  then have "recordAttempt env t r = r\<lparr>ro_attempts := ro_attempts r @ [t]\<rparr>"
    using Cons.prems(2) by (simp add: recordAttempt_def)
  with Cons.IH [of "recordAttempt env t r"] Cons.prems show ?case by auto
qed simp

text \<open>A hello whose token is not the room's.\<close>

definition wrong_hello :: "string option \<Rightarrow> js_object \<Rightarrow> room \<Rightarrow> bool" where
  "wrong_hello param msg r \<longleftrightarrow> claimed_token msg param \<noteq> None \<and> claimed_token msg param \<noteq> ro_token r"

lemma wrong_hello_recorded:
  "wrong_hello param msg r \<Longrightarrow> fst (receiver_hello_room env now uuid ws msg param r) = recordAttempt env now r"
  by (auto simp: wrong_hello_def receiver_hello_room_def)

lemma recordAttempt_token [simp]:
  "ro_token (recordAttempt env now r) = ro_token r" "ro_expires (recordAttempt env now r) = ro_expires r"
  by (simp_all add: recordAttempt_def Let_def)

lemma wrong_hellos_recorded:
  assumes "\<forall>(now, q, msg) \<in> set knocks. wrong_hello q msg r"
  shows "fold (\<lambda>(now, q, msg) r. fst (receiver_hello_room env now uuid ws msg q r)) knocks r =
    fold (recordAttempt env) (map fst knocks) r"
  using assms
proof (induction knocks arbitrary: r)
  case (Cons k ks)
  obtain now q msg where k: "k = (now, q, msg)" by (cases k) auto
  with Cons.prems have "wrong_hello q msg r" by auto
  moreover have "\<forall>(now, q, msg) \<in> set ks. wrong_hello q msg (recordAttempt env now' r)" for now'
    using Cons.prems by (auto simp: wrong_hello_def)
  ultimately show ?case using Cons.IH [of "recordAttempt env now r"] k by (simp add: wrong_hello_recorded)
qed simp

text \<open>C36: The lockout of receivers: the hello with a wrong token that brings a room with no attempt on record up to the limit,
  all within one window, locks it (reaching the limit is enough, while the documents ask for more than that). Until the lockout has
  passed the room turns every receiver away that names the right token of a room that has not expired: it is told how many seconds are
  left, rounded up, and its socket is closed. A hello in the role of the sender is not held up by the lockout.\<close>

theorem wrong_hellos_lock_the_room:
  assumes "ro_attempts r = []" and "knocks = early @ [(t, q0, bad)]" and "int (length knocks) = re_max_attempts env"
    and "\<forall>(now, q, msg) \<in> set knocks. wrong_hello q msg r"
    and "\<forall>x \<in> fst ` set knocks. \<forall>y \<in> fst ` set knocks. y - x < re_window env * 1000"
    and "r1 = fold (\<lambda>(now, q, msg) r. fst (receiver_hello_room env now uuid ws msg q r)) knocks r"
    and "ro_token r = claimed_token msg param" and "nonempty_str (ro_token r)" and "\<forall>e. ro_expires r = Some e \<longrightarrow> now \<le> e"
    and "now < t + re_lockout env * 1000"
  shows "\<exists>n. receiver_hello_room env now uuid' ws' msg param r1 =
    (r1, [RoomSend ws' [(''type'', JsStr ''token_locked_out''), (''retry_after'', JsNum n)], RoomClose ws' 1013 ''locked out'']) \<and>
    0 < n \<and> t + re_lockout env * 1000 - now \<le> n * 1000 \<and> n * 1000 < t + re_lockout env * 1000 - now + 1000"
proof -
  let ?ts = "map fst early"
  have "fold (recordAttempt env) ?ts r = r\<lparr>ro_attempts := ?ts\<rparr>"
    using recordAttempt_run [of r ?ts env] assms(1-3,5) by auto
  then have r1: "r1 = recordAttempt env t (r\<lparr>ro_attempts := ?ts\<rparr>)"
    using assms(2,4,6) wrong_hellos_recorded [OF assms(4), of env uuid ws] by simp
  have "filter (\<lambda>u. t - u < re_window env * 1000) ?ts = ?ts"
    using assms(2,5) by (intro filter_True) auto
  then have lock: "ro_locked_until r1 = t + re_lockout env * 1000"
    using assms(2,3) by (simp add: r1 recordAttempt_def)
  define d where "d = t + re_lockout env * 1000 - now"
  obtain tok where tok: "ro_token r = Some tok" "tok \<noteq> []" using assms(8) by (cases "ro_token r") auto
  have "\<not> (case ro_expires r of None \<Rightarrow> False | Some e \<Rightarrow> e < now)" using assms(9) by (auto split: option.splits)
  with tok assms(7,10) lock have "receiver_hello_room env now uuid' ws' msg param r1 =
      (r1, [RoomSend ws' [(''type'', JsStr ''token_locked_out''), (''retry_after'', JsNum (- (- d div 1000)))], RoomClose ws' 1013 ''locked out''])"
    by (auto simp: receiver_hello_room_def r1 d_def split: option.splits)
  moreover have "0 < - (- d div 1000)" "d \<le> - (- d div 1000) * 1000" "- (- d div 1000) * 1000 < d + 1000"
    using assms(10) by (auto simp: d_def)
  ultimately show ?thesis unfolding d_def by blast
qed

lemma room_facts [simp]:
  "findSender (r\<lparr>ro_params := q\<rparr>) = findSender r" "findPeerByWs ws (r\<lparr>ro_params := q\<rparr>) = findPeerByWs ws r"
  by (simp_all add: findSender_def findPeerByWs_def)

section \<open>Examples\<close>

definition demo_vars :: room_env where
  "demo_vars = \<lparr>re_max_ttl = 1440, re_window = 60, re_max_attempts = 2, re_lockout = 300, re_number = (\<lambda>_. None)\<rparr>"

definition demo_store :: room_storage where
  "demo_store = \<lparr>st_token = Some ''TTHR-ABCD-EFGH-JKMN'', st_expires = Some (Some 1000000), st_reusable = Some True\<rparr>"

definition demo_hello :: "string \<Rightarrow> js_object" where
  "demo_hello role = [(''type'', JsStr ''hello''), (''role'', JsStr role), (''name'', JsStr ''me'')]"

text \<open>A sender on socket 1, a receiver on socket 2, accepted.\<close>

definition demo_events :: "room_event list" where
  "demo_events =
     [RoomFetch (Some ''TTHR-ABCD-EFGH-JKMN'') None 1, RoomMessage demo_vars 5 ''s1'' 1 (Some (demo_hello ''sender'')),
      RoomFetch (Some ''TTHR-ABCD-EFGH-JKMN'') (Some ''TTHR-ABCD-EFGH-JKMN'') 2,
      RoomMessage demo_vars 6 ''r1'' 2 (Some (demo_hello ''receiver'')),
      RoomMessage demo_vars 7 ''u'' 1 (Some [(''type'', JsStr ''accept''), (''peer_id'', JsStr ''r1'')])]"

definition demo_offer_msg :: js_object where
  "demo_offer_msg = [(''type'', JsStr ''sdp''), (''peer_id'', JsStr ''r1''), (''sdp'', JsStr ''v=0'')]"

definition demo_sender_conn :: peer_conn where
  "demo_sender_conn = \<lparr>pc_id = ''s1'', pc_role = TETHER_ROLE_SENDER, pc_name = JsStr ''me'', pc_fingerprint = None, pc_ws = 1,
     pc_accepted = True, pc_pinned = False\<rparr>"

definition demo_receiver_conn :: peer_conn where
  "demo_receiver_conn = \<lparr>pc_id = ''r1'', pc_role = TETHER_ROLE_RECEIVER, pc_name = JsStr ''me'', pc_fingerprint = None, pc_ws = 2,
     pc_accepted = False, pc_pinned = False\<rparr>"

text \<open>The room when the receiver waits, and when it is accepted.\<close>

definition demo_waiting :: room where
  "demo_waiting = (room_load demo_store)\<lparr>ro_peers := [demo_sender_conn, demo_receiver_conn],
     ro_params := [1 \<mapsto> None, 2 \<mapsto> Some ''TTHR-ABCD-EFGH-JKMN'']\<rparr>"

definition demo_joined :: room where
  "demo_joined = demo_waiting\<lparr>ro_peers := [demo_sender_conn, demo_receiver_conn\<lparr>pc_accepted := True\<rparr>]\<rparr>"

lemmas demo_peers = demo_waiting_def demo_joined_def demo_sender_conn_def demo_receiver_conn_def demo_store_def demo_vars_def
  demo_hello_def demo_offer_msg_def

lemmas room_simps = room_load_def room_fetch_def onMessage_def handleHello_def sender_hello_def receiver_hello_room_def
  handleAccept_def relayToPeer_def claimed_token_def toUpperCase_def js_or_def set_peer_def findSender_def findPeerByWs_def
  get_peer_def has_pc_id_def Let_def

lemma demo_upper [simp]:
  "toupper (CHR ''T'') = CHR ''T''" "toupper (CHR ''H'') = CHR ''H''" "toupper (CHR ''R'') = CHR ''R''" "toupper (CHR ''-'') = CHR ''-''"
  "toupper (CHR ''A'') = CHR ''A''" "toupper (CHR ''B'') = CHR ''B''" "toupper (CHR ''C'') = CHR ''C''" "toupper (CHR ''D'') = CHR ''D''"
  "toupper (CHR ''E'') = CHR ''E''" "toupper (CHR ''F'') = CHR ''F''" "toupper (CHR ''G'') = CHR ''G''" "toupper (CHR ''J'') = CHR ''J''"
  "toupper (CHR ''K'') = CHR ''K''" "toupper (CHR ''M'') = CHR ''M''" "toupper (CHR ''N'') = CHR ''N''"
  by (simp_all add: toupper_def)

lemma demo_room_run: "fold room_step demo_events (room_load demo_store, {}) = (demo_joined, {''r1''})"
  by (simp add: demo_events_def demo_peers room_simps)

lemma demo_relay: "room_call (RoomMessage demo_vars 8 ''u'' 1 (Some demo_offer_msg)) demo_joined = (demo_joined, [RoomSend 2 demo_offer_msg])"
  by (simp add: demo_peers room_simps)

lemma media_needs_acceptance_witness:
  "\<exists>p t. findPeerByWs 1 demo_joined = Some p \<and> t \<in> set (ro_peers demo_joined) \<and> pc_ws t = 2 \<and>
    (pc_role t = TETHER_ROLE_SENDER \<or> pc_role p = TETHER_ROLE_SENDER \<and> pc_id t \<in> {''r1''} \<or>
     pc_role p = TETHER_ROLE_RECEIVER \<and> pc_id p \<in> {''r1''})"
proof -
  have "RoomSend 2 demo_offer_msg \<in> set [RoomSend 2 demo_offer_msg]" "media demo_offer_msg" by (simp_all add: demo_offer_msg_def)
  from media_needs_acceptance [OF demo_room_run demo_relay this] show ?thesis by blast
qed

lemma unaccepted_receiver_is_heard_witness:
  "onMessage demo_vars 8 ''u'' 2 (Some [(''type'', JsStr ''sdp''), (''peer_id'', JsStr ''sender'')]) demo_waiting =
    (demo_waiting, [RoomSend 1 [(''type'', JsStr ''sdp''), (''peer_id'', JsStr ''r1'')]])"
  using unaccepted_receiver_is_heard [of 2 demo_waiting demo_receiver_conn demo_sender_conn
      "[(''type'', JsStr ''sdp''), (''peer_id'', JsStr ''sender'')]" demo_vars 8 "''u''"]
  by (simp add: demo_peers room_simps)

lemma reload_keeps_the_token_witness: "ro_token (fst (room_call RoomReload demo_joined)) = Some ''TTHR-ABCD-EFGH-JKMN''"
  using reload_keeps_the_token [OF demo_room_run] by (simp add: demo_peers room_simps)

lemma guesses_are_not_counted_witness:
  "\<exists>r' outs. onMessage demo_vars 8 ''u'' 3 (Some [(''type'', JsStr ''hello''), (''token'', JsStr ''TTHR-ABCD-EFGH-JKMN'')])
      (room_fetch (Some ''TTHR-ABCD-EFGH-JKMN'') (Some ''TTHR-ABCD-EFGH-JKMN'') 3 demo_joined) = (r', outs) \<and> ro_attempts r' = []"
proof -
  have "tether_token_is_well_formed (Some ''TTHR-ABCD-EFGH-JKMN'')" by code_simp
  then have route: "edge_fetch ''/v1'' (Some ''websocket'') (Some ''TTHR-ABCD-EFGH-JKMN'') [] = EdgeRoom ''TTHR-ABCD-EFGH-JKMN''"
    by (simp add: edge_fetch_def regex_iff)
  obtain r' outs where call: "onMessage demo_vars 8 ''u'' 3 (Some [(''type'', JsStr ''hello''), (''token'', JsStr ''TTHR-ABCD-EFGH-JKMN'')])
      (room_fetch (Some ''TTHR-ABCD-EFGH-JKMN'') (Some ''TTHR-ABCD-EFGH-JKMN'') 3 demo_joined) = (r', outs)" by fastforce
  with guesses_are_not_counted [OF route _ _ _ call] show ?thesis by (simp add: demo_peers room_simps)
qed

lemma token_holder_accepts_himself_witness:
  "\<exists>r1 o1 r2 o2. onMessage demo_vars 8 ''x'' 3 (Some [(''type'', JsStr ''hello''), (''role'', JsStr ''sender'')]) demo_waiting = (r1, o1) \<and>
    onMessage demo_vars 9 ''y'' 3 (Some [(''type'', JsStr ''accept''), (''peer_id'', JsStr (pc_id demo_receiver_conn))]) r1 = (r2, o2) \<and>
    o2 = [RoomSend 2 [(''type'', JsStr ''accepted'')]]"
proof -
  define hello :: js_object where "hello = [(''type'', JsStr ''hello''), (''role'', JsStr ''sender'')]"
  define acc where "acc = [(''type'', JsStr ''accept''), (''peer_id'', JsStr (pc_id demo_receiver_conn))]"
  obtain r1 o1 where 1: "onMessage demo_vars 8 ''x'' 3 (Some hello) demo_waiting = (r1, o1)" by fastforce
  obtain r2 o2 where 2: "onMessage demo_vars 9 ''y'' 3 (Some acc) r1 = (r2, o2)" by fastforce
  have "findPeerByWs 2 demo_waiting = Some demo_receiver_conn" "pc_role demo_receiver_conn = TETHER_ROLE_RECEIVER"
    "peers_good {} (ro_peers demo_waiting)" "findPeerByWs 3 demo_waiting = None"
    "find (has_pc_id ''x'') (ro_peers demo_waiting) = None" "pc_id demo_receiver_conn \<noteq> []"
    by (simp_all add: demo_peers room_simps peers_good_def peer_good_def)
  from token_holder_accepts_himself [OF this hello_def acc_def 1 2] 1 2 show ?thesis
    by (simp add: hello_def acc_def)
qed

lemma wrong_hellos_lock_the_room_witness:
  "\<exists>r1 n. fold (\<lambda>(now, q, msg) r. fst (receiver_hello_room demo_vars now ''u'' 4 msg q r))
      [(7, Some ''B'', []), (8, Some ''A'', [])] demo_joined = r1 \<and>
    receiver_hello_room demo_vars 9 ''u'' 5 (demo_hello ''receiver'') (Some ''TTHR-ABCD-EFGH-JKMN'') r1 =
    (r1, [RoomSend 5 [(''type'', JsStr ''token_locked_out''), (''retry_after'', JsNum n)], RoomClose 5 1013 ''locked out''])"
proof -
  define k :: "(int \<times> string option \<times> js_object) list" where "k = [(7, Some ''B'', []), (8, Some ''A'', [])]"
  define r1 where "r1 = fold (\<lambda>(now, q, msg) r. fst (receiver_hello_room demo_vars now ''u'' 4 msg q r)) k demo_joined"
  have k: "ro_attempts demo_joined = []" "k = [(7, Some ''B'', [])] @ [(8, Some ''A'', [])]"
    "int (length k) = re_max_attempts demo_vars"
    by (simp_all add: k_def demo_vars_def demo_peers room_load_def)
  have wrong: "\<forall>(now, q, msg) \<in> set k. wrong_hello q msg demo_joined"
    by (simp add: k_def wrong_hello_def demo_peers room_simps)
  have window: "\<forall>x \<in> fst ` set k. \<forall>y \<in> fst ` set k. y - x < re_window demo_vars * 1000"
    by (simp add: k_def demo_vars_def)
  have right: "ro_token demo_joined = claimed_token (demo_hello ''receiver'') (Some ''TTHR-ABCD-EFGH-JKMN'')"
    "nonempty_str (ro_token demo_joined)" "\<forall>e. ro_expires demo_joined = Some e \<longrightarrow> 9 \<le> e"
    "(9::int) < 8 + re_lockout demo_vars * 1000"
    by (simp_all add: demo_peers room_simps)
  from wrong_hellos_lock_the_room [OF k wrong window r1_def right, of "''u''" 5] show ?thesis
    unfolding r1_def k_def by blast
qed

lemma edge_agrees_with_plugin_witness:
  "tether_token_is_well_formed (Some (generateToken [0, 1, 2, 31] [8, 9, 10, 11] [255, 30, 29, 28])) \<and>
   edge_fetch ''/v1'' (Some ''websocket'') (Some ''TTHR-ABCD-EFGH-JKMN'') [] = EdgeRoom ''TTHR-ABCD-EFGH-JKMN''"
proof -
  have "tether_token_normalise (Some ''  tthr-abcd-efgh-jkmn '') TETHER_TOKEN_BUF = (True, Some ''TTHR-ABCD-EFGH-JKMN'')"
    by code_simp
  with edge_agrees_with_plugin [of "[]" "[0, 1, 2, 31]" "[8, 9, 10, 11]" "[255, 30, 29, 28]" "''  tthr-abcd-efgh-jkmn ''"
      TETHER_TOKEN_BUF "''TTHR-ABCD-EFGH-JKMN''" "[]"] show ?thesis by simp
qed

end
