(* ===== verification/Network.thy ===== *)
theory Network
  imports Sender Room Receive_Session
begin

text \<open>
  The three programs together: one sender, receive sessions, and the signaling server with a room per
  token. A client's socket is a number, the sender's is \<open>0\<close>; each direction of it is a queue, so that nothing
  is lost or overtaken. Which queue moves next, and what the libraries answer, is the choice of the step.
\<close>

section \<open>The network\<close>

text \<open>What is under way on a socket: a text, or the end of the connection.\<close>

datatype frame = FrText string | FrClosed

text \<open>
  \<open>nt_place\<close> is the room a socket is connected to. The last two fields record what the sender and the receivers did.
\<close>

record 'f network =
  nt_sender :: "'f tether_sender"
  nt_receivers :: "nat \<rightharpoonup> rx_session"
  nt_rooms :: "string \<Rightarrow> room"
  nt_place :: "nat \<rightharpoonup> string"
  nt_up :: "nat \<Rightarrow> frame list"
  nt_down :: "nat \<Rightarrow> frame list"
  nt_sent :: "'f sender_out list"
  nt_received :: "(nat \<times> rx_out) list"

fun socket_frames :: "sig_out \<Rightarrow> frame list" where
  "socket_frames (WsSend h t) = [FrText t]"
| "socket_frames (WsClose h) = [FrClosed]"
| "socket_frames out = []"

fun sender_frames :: "'f sender_out \<Rightarrow> frame list" where
  "sender_frames (SnSig out) = socket_frames out"
| "sender_frames out = []"

fun receiver_frames :: "rx_out \<Rightarrow> frame list" where
  "receiver_frames (RxSig out) = socket_frames out"
| "receiver_frames out = []"

text \<open>A frame that arrives at a client: the size of a text is negative and counts the final NUL.\<close>

fun arrival :: "frame \<Rightarrow> sig_op" where
  "arrival (FrText t) = SigReceived (Some t) (- int (length t) - 1)"
| "arrival FrClosed = SigClosed"

fun server_send :: "room_out \<Rightarrow> (nat \<Rightarrow> frame list) \<Rightarrow> nat \<Rightarrow> frame list" where
  "server_send (RoomSend k ob) q = q(k := q k @ [FrText (json_stringify ob)])"
| "server_send (RoomClose k code reason) q = q(k := q k @ [FrClosed])"

definition sender_acts :: "sn_op \<Rightarrow> 'f network \<Rightarrow> 'f network option" where
  "sender_acts op st =
     map_option (\<lambda>(s, outs). st\<lparr>nt_sender := s, nt_up := (nt_up st)(0 := nt_up st 0 @ concat (map sender_frames outs)),
        nt_sent := nt_sent st @ outs\<rparr>) (sn_call op (nt_sender st))"

definition receiver_acts :: "nat \<Rightarrow> rx_event \<Rightarrow> 'f network \<Rightarrow> 'f network option" where
  "receiver_acts k ev st =
     (case nt_receivers st k of
        None \<Rightarrow> None
      | Some s \<Rightarrow>
          (case rx_session_step ev (s, []) of
             (s', outs) \<Rightarrow>
               Some (st\<lparr>nt_receivers := (nt_receivers st)(k \<mapsto> s'),
                 nt_up := (nt_up st)(k := nt_up st k @ concat (map receiver_frames outs)),
                 nt_received := nt_received st @ map (\<lambda>out. (k, out)) outs\<rparr>)))"

text \<open>The token in the URL a client connects to.\<close>

definition url_token :: "tether_signaling \<Rightarrow> string option" where
  "url_token sig = (if sc_role (sig_cfg sig) = TETHER_ROLE_RECEIVER \<and> nonempty_str (sig_token sig) then sig_token sig else None)"

definition client_of :: "'f network \<Rightarrow> nat \<Rightarrow> tether_signaling option" where
  "client_of st k = (if k = 0 then sn_sig (nt_sender st) else map_option rx_sig (nt_receivers st k))"

definition reads :: "sig_op \<Rightarrow> bool" where
  "reads op \<longleftrightarrow> (case op of SigReceived m n \<Rightarrow> True | _ \<Rightarrow> False)"

text \<open>
  A client's connection reaches a room; the sender or a receiver does something of its own, that is anything but
  read from its socket; the server, the sender or a receiver handles the oldest frame of a socket.
\<close>

datatype net_op =
    NetJoin nat string
  | NetSender sn_op
  | NetReceiver nat rx_event
  | NetServe nat room_env int string
  | NetToSender sender_env
  | NetToReceiver nat int int

definition joins :: "nat \<Rightarrow> string \<Rightarrow> 'f network \<Rightarrow> 'f network option" where
  "joins k minted st =
     (case client_of st k of
        None \<Rightarrow> None
      | Some sig \<Rightarrow>
          (case edge_fetch ''/v1'' (Some ''websocket'') (url_token sig) minted of
             EdgeStatus code \<Rightarrow> None
           | EdgeRoom n \<Rightarrow>
               Some (st\<lparr>nt_place := (nt_place st)(k \<mapsto> n),
                 nt_rooms := (nt_rooms st)(n := room_fetch (Some n) (url_token sig) k (nt_rooms st n))\<rparr>)))"

definition serves :: "nat \<Rightarrow> room_env \<Rightarrow> int \<Rightarrow> string \<Rightarrow> 'f network \<Rightarrow> 'f network option" where
  "serves k env now uuid st =
     (case (nt_place st k, nt_up st k) of
        (Some n, f # fs) \<Rightarrow>
          (case (case f of FrText t \<Rightarrow> onMessage env now uuid k (json_parse t) (nt_rooms st n)
                 | FrClosed \<Rightarrow> onClose k (nt_rooms st n)) of
             (r, outs) \<Rightarrow>
               Some (st\<lparr>nt_rooms := (nt_rooms st)(n := r), nt_up := (nt_up st)(k := fs),
                 nt_down := fold server_send outs (nt_down st)\<rparr>))
      | _ \<Rightarrow> None)"

fun net_call :: "net_op \<Rightarrow> 'f network \<Rightarrow> 'f network option" where
  "net_call (NetJoin k minted) st = joins k minted st"
| "net_call (NetSender op) st =
     (case op of
        SnSocket env sop \<Rightarrow> if reads sop then None else sender_acts op st
      | _ \<Rightarrow> sender_acts op st)"
| "net_call (NetReceiver k ev) st =
     (case ev of
        RxSocketEvent rc rc2 sop \<Rightarrow> if k = 0 \<or> reads sop then None else receiver_acts k ev st
      | _ \<Rightarrow> if k = 0 then None else receiver_acts k ev st)"
| "net_call (NetServe k env now uuid) st = serves k env now uuid st"
| "net_call (NetToSender env) st =
     (case nt_down st 0 of
        [] \<Rightarrow> None
      | f # fs \<Rightarrow> sender_acts (SnSocket env (arrival f)) (st\<lparr>nt_down := (nt_down st)(0 := fs)\<rparr>))"
| "net_call (NetToReceiver k rc rc2) st =
     (case nt_down st k of
        [] \<Rightarrow> None
      | f # fs \<Rightarrow>
          if k = 0 then None
          else receiver_acts k (RxSocketEvent rc rc2 (arrival f)) (st\<lparr>nt_down := (nt_down st)(k := fs)\<rparr>))"

fun net_run :: "net_op list \<Rightarrow> 'f network \<Rightarrow> 'f network option" where
  "net_run [] st = Some st"
| "net_run (op # ops) st = (case net_call op st of None \<Rightarrow> None | Some st' \<Rightarrow> net_run ops st')"

lemma net_run_append: "net_run (a @ b) st = Option.bind (net_run a st) (net_run b)"
  by (induction a arbitrary: st) (auto split: option.splits)

text \<open>The URL does carry that token.\<close>

lemma ws_url_token:
  "ws_url sig = sig_server_url sig @
     (case url_token sig of
        None \<Rightarrow> []
      | Some t \<Rightarrow> (if strchr (sig_server_url sig) (CHR ''?'') \<noteq> None then ''&token='' else ''?token='') @ t)"
  by (auto simp: ws_url_def url_token_def split: option.splits)

section \<open>What each client does in a handshake\<close>

definition connected :: "tether_signaling \<Rightarrow> bool" where
  "connected sig \<longleftrightarrow> sc_cb (sig_cfg sig) \<and> 0 < sig_ws sig"

lemma connected_update [simp]:
  "connected (sig\<lparr>sig_state := c\<rparr>) = connected sig" "connected (sig\<lparr>sig_token := t\<rparr>) = connected sig"
  by (simp_all add: connected_def)

lemma hello_json_state [simp]: "hello_json (sig\<lparr>sig_state := c\<rparr>) = hello_json sig"
  by (simp add: hello_json_def cong: option.case_cong)

lemma sender_opens:
  assumes "sn_sig s = Some sig" and "connected sig"
  shows "sn_call (SnSocket e SigOpened) s =
    Some (s\<lparr>sn_sig := Some (sig\<lparr>sig_state := TETHER_SIG_STATE_CONNECTED\<rparr>)\<rparr>, [SnSig (WsSend (sig_ws sig) (hello_json sig))])"
  using assms by (simp add: sn_socket_event_def on_open_def Signaling.set_state_def emit_def send_raw_def connected_def)

lemma receiver_opens:
  assumes "connected (rx_sig x)"
  shows "rx_session_step (RxSocketEvent rc rc2 SigOpened) (x, []) =
    (x\<lparr>rx_sig := (rx_sig x)\<lparr>sig_state := TETHER_SIG_STATE_CONNECTED\<rparr>\<rparr>, [RxSig (WsSend (sig_ws (rx_sig x)) (hello_json (rx_sig x)))])"
  using assms by (simp add: rx_socket_event_def on_open_def Signaling.set_state_def emit_def send_raw_def connected_def)

lemma sender_gets_token:
  assumes "sn_sig s = Some sig" and "connected sig" and "plain t" and "t \<noteq> []" and "length t < TETHER_TOKEN_BUF"
  shows "sn_call (SnSocket e (arrival (FrText (json_stringify [(''type'', JsStr ''token''), (''token'', JsStr t)])))) s =
    Some (s\<lparr>sn_sig := Some (sig\<lparr>sig_token := Some t\<rparr>), sn_current_token := t\<rparr>, if cb_on_token (sn_cbs s) then [CbToken t] else [])"
proof -
  let ?ob = "[(''type'', JsStr ''token''), (''token'', JsStr t)]"
  have ok: "js_ok ?ob" by simp
  have "sn_socket_event e (SigReceived (Some (json_stringify ?ob)) n) s =
      on_signaling_event e TETHER_SIG_EVT_TOKEN_ISSUED None (Some t) (s\<lparr>sn_sig := Some (sig\<lparr>sig_token := Some t\<rparr>)\<rparr>)"
    if "n < 0" for n
    unfolding json_stringify_def
    using sn_received_token [OF assms(1) _ that js_ok_object_ok [OF ok], of e] assms(2,3)
    by (simp add: lookup_printed [OF ok] connected_def)
  with assms(5) show ?thesis by (simp add: strncpy_buf_fits)
qed

text \<open>The request a room sends for a receiver of the plugin, whose hello has a name and no fingerprint.\<close>

definition request_message :: "string \<Rightarrow> string \<Rightarrow> js_object" where
  "request_message rid name = [(''type'', JsStr ''pending''), (''peer_id'', JsStr rid), (''name'', JsStr name), (''fingerprint'', JsStr [])]"

lemma sender_gets_request:
  assumes "sn_sig s = Some sig" and "connected sig" and "plain rid" and "plain name" and "length name < 128"
    and "with_admission (ne_session e)
      (tether_admission_add_pending (ne_clock e) (sn_adm s) (Some rid) (Some name) (Some [])) s = (s', outs)"
  shows "sn_call (SnSocket e (arrival (FrText (json_stringify (request_message rid name))))) s =
    Some (s', outs @ (if cb_on_pending (sn_cbs s) then [CbPending rid name []] else []))"
proof -
  have ok: "js_ok (request_message rid name)" by (simp add: request_message_def)
  let ?fs = "js_object_printed (request_message rid name)"
  have l: "lookup_str ?fs ''type'' = Some ''pending''" "lookup_str ?fs ''peer_id'' = Some rid"
      "lookup_str ?fs ''name'' = Some name" "lookup_str ?fs ''fingerprint'' = Some []"
    unfolding lookup_printed [OF ok] using assms(3,4) by (simp_all add: request_message_def)
  have "CHR 0x22 \<notin> set name" using assms(4) by (auto simp: plain_def)
  then have f: "quoted_field 128 (print_object ?fs) ''name'' = name" "quoted_field 128 (print_object ?fs) ''fingerprint'' = []"
    using quoted_field_object [OF js_ok_object_ok [OF ok], of "''name''" 128] assms(5)
      quoted_field_object [OF js_ok_object_ok [OF ok], of "''fingerprint''" 128]
    by (simp_all add: l opt_str_def strncpy_buf_fits)
  have "sn_socket_event e (SigReceived (Some (print_object ?fs)) n) s =
      on_signaling_event e TETHER_SIG_EVT_REQUEST_PENDING (Some rid) (Some (print_object ?fs)) s" if "n < 0" for n
    using sn_received(1) [OF assms(1) _ that js_ok_object_ok [OF ok] l(1) refl, of e] assms(2)
    by (simp add: l connected_def del: on_signaling_event.simps)
  with f assms(6) show ?thesis by (simp add: Let_def json_stringify_def)
qed

text \<open>Making a session sends nothing on the socket, and the new connection reports its descriptions.\<close>

lemma add_video_tracks_cfg: "add_video_tracks tr k cs w = (w', es, os) \<Longrightarrow> wr_cfg w' = wr_cfg w"
proof (induction cs arbitrary: k w w' es os)
  case (Cons c cs)
  obtain w1 tid o1 where a: "tether_webrtc_add_video_track_ex (fst (tr k)) (snd (tr k)) (Some w) (Some (vc_mid c)) (Some (vc_source_name c)) = (w1, tid, o1)"
    by (metis prod_cases3)
  have "wr_cfg (the w1) = wr_cfg w"
    using a by (auto simp: tether_webrtc_add_video_track_ex_def push_track_def Let_def split: option.splits if_splits prod.splits)
  with Cons.prems a Cons.IH show ?case by (fastforce split: prod.splits)
qed simp

lemma attach_cfg: "tether_audio_sender_attach env w au n l = (w', au', tid, os) \<Longrightarrow> wr_cfg w' = wr_cfg w"
  by (auto simp: tether_audio_sender_attach_def tether_webrtc_add_audio_track_def push_track_def Let_def
      split: option.splits if_splits prod.splits)

lemma attach_audio_sources_cfg: "attach_audio_sources env twitch k ns w au = (w', au', os) \<Longrightarrow> wr_cfg w' = wr_cfg w"
proof (induction ns arbitrary: k w au w' au' os)
  case (Cons n ns)
  show ?case
  proof (cases "twitch \<and> strstr n ''Mic'' \<noteq> None")
    case False
    obtain w1 au1 tid o1 where a: "tether_audio_sender_attach (env k) w au (Some n) (Some n) = (w1, au1, tid, o1)"
      by (metis prod_cases4)
    obtain w2 au2 o2 where "attach_audio_sources env twitch (k + 1) ns w1 au1 = (w2, au2, o2)" by (metis prod_cases3)
    with Cons.IH attach_cfg [OF a] False Cons.prems a show ?thesis by fastforce
  qed (use Cons in \<open>metis attach_audio_sources.simps(2)\<close>)
qed simp

lemma session_made:
  fixes s :: "'f tether_sender"
  assumes "0 < xe_pc xe" and "length (peer_id p) < TETHER_PEER_ID_MAX"
  obtains r w outs where "create_session xe s p = (s\<lparr>sn_sessions := sn_sessions s @ [r]\<rparr>, outs)"
    and "rs_peer_id r = peer_id p" and "rs_wrtc r = Some w" and "wc_on_local_sdp (wr_cfg w)"
    and "concat (map sender_frames outs) = []"
proof -
  define w0 where "w0 = \<lparr>wr_cfg = session_webrtc_config (sn_cfg s), wr_pc = xe_pc xe, wr_state = TETHER_WRTC_STATE_NEW,
    wr_tracks = [], wr_next_track_id = 1, wr_local_fingerprint = []\<rparr>"
  have w0: "fst (tether_webrtc_create (xe_wr xe) (xe_pc xe) (Some (session_webrtc_config (sn_cfg s)))) = Some w0"
    using assms(1) by (simp add: tether_webrtc_create_def w0_def)
  obtain w1 es o1 where 1: "add_video_tracks (xe_video xe) 0 (sn_captures s) w0 = (w1, es, o1)" by (metis prod_cases3)
  obtain w2 o2 and au :: "'f tether_audio_sender option" where 2: "attach_audio_sources (xe_audio xe) (sd_twitch_st_mode (sn_cfg s)) 0 (sn_audio_source_names s) w1
      (Some (tether_audio_sender_create session_audio_config)) = (w2, au, o2)" by (metis prod_cases3)
  have "wr_cfg w2 = wr_cfg w0"
    using add_video_tracks_cfg [OF 1] attach_audio_sources_cfg [OF 2] by simp
  then have "wc_on_local_sdp (wr_cfg w2)" by (simp add: w0_def session_webrtc_config_def)
  define r where "r = \<lparr>rs_peer_id = peer_id p, rs_wrtc = Some w2, rs_audio = au, rs_src_encoders = es\<rparr>"
  have "create_session xe s p = (s\<lparr>sn_sessions := sn_sessions s @ [r]\<rparr>, map (SnWr (peer_id p)) o1 @ map (SnAudio (peer_id p)) o2 @
      map (SnWr (peer_id p)) (snd (tether_webrtc_negotiate (xe_negotiate xe) (Some w2))))"
    using w0 1 2 assms(2) by (simp add: create_session_def Let_def strncpy_buf_fits r_def)
  then show thesis
    by (rule that) (use \<open>wc_on_local_sdp (wr_cfg w2)\<close> in \<open>auto simp: r_def\<close>)
qed

text \<open>An accepted peer is told, and gets its session.\<close>

lemma sender_lets_in:
  assumes "sn_sig s = Some sig" and "connected sig" and "0 < xe_pc xe" and "length (peer_id p) < TETHER_PEER_ID_MAX"
    and "peer_state p = TETHER_PEER_ACCEPTED"
  obtains r w outs where "on_admission_changed xe s p = (s\<lparr>sn_sessions := sn_sessions s @ [r]\<rparr>, outs)"
    and "rs_peer_id r = peer_id p" and "rs_wrtc r = Some w" and "wc_on_local_sdp (wr_cfg w)"
    and "concat (map sender_frames outs) = [FrText (accept_json (peer_id p))]"
proof -
  obtain r w outs where c: "create_session xe s p = (s\<lparr>sn_sessions := sn_sessions s @ [r]\<rparr>, outs)"
    "rs_peer_id r = peer_id p" "rs_wrtc r = Some w" "wc_on_local_sdp (wr_cfg w)" "concat (map sender_frames outs) = []"
    by (rule session_made [OF assms(3,4)])
  with that show thesis
    using assms(1,2,5) by (simp add: on_admission_changed_def tether_signaling_accept_def send_raw_def connected_def)
qed

lemma sender_accepts:
  assumes "sn_sig s = Some sig" and "connected sig" and "sn_adm s = Some a" and "find_peer_locked a rid = Some q"
    and "ac_on_changed (adm_cfg a)" and "0 < xe_pc xe" and "length rid < TETHER_PEER_ID_MAX"
  obtains r w outs where "sn_call (SnAccept xe (Some rid) pin) s = Some (s\<lparr>
      sn_adm := Some (a\<lparr>adm_peers := update_first (has_peer_id rid) (with_state TETHER_PEER_ACCEPTED pin) (adm_peers a)\<rparr>),
      sn_sessions := sn_sessions s @ [r]\<rparr>, outs)"
    and "rs_peer_id r = rid" and "rs_wrtc r = Some w" and "wc_on_local_sdp (wr_cfg w)"
    and "concat (map sender_frames outs) = [FrText (accept_json rid)]"
proof -
  let ?a = "a\<lparr>adm_peers := update_first (has_peer_id rid) (with_state TETHER_PEER_ACCEPTED pin) (adm_peers a)\<rparr>"
  let ?p = "with_state TETHER_PEER_ACCEPTED pin q"
  have p: "peer_id ?p = rid" "peer_state ?p = TETHER_PEER_ACCEPTED"
    using assms(4) by (auto simp: find_peer_locked_def has_peer_id_def with_state_def dest: find_SomeD)
  obtain r w outs where "on_admission_changed xe (s\<lparr>sn_adm := Some ?a\<rparr>) ?p =
      (s\<lparr>sn_adm := Some ?a, sn_sessions := sn_sessions s @ [r]\<rparr>, outs)"
    "rs_peer_id r = rid" "rs_wrtc r = Some w" "wc_on_local_sdp (wr_cfg w)"
    "concat (map sender_frames outs) = [FrText (accept_json rid)]"
    by (rule sender_lets_in [of "s\<lparr>sn_adm := Some ?a\<rparr>" sig xe ?p]) (use assms p in simp_all)
  with that show thesis
    using assms(3-5) by (simp add: tether_sender_accept_def with_admission_def tether_admission_accept_def set_peer_state_def
        Let_def Admission.on_changed_def)
qed

lemma sender_describes:
  assumes "sn_sig s = Some sig" and "connected sig" and "i < length (sn_sessions s)" and "sn_sessions s ! i = r"
    and "rs_wrtc r = Some w" and "wc_on_local_sdp (wr_cfg w)"
  shows "sn_call (SnRtc e i (RtcLocalDescription d ty)) s =
    Some (s\<lparr>sn_sessions := (sn_sessions s)[i := r\<lparr>rs_wrtc := Some (fst (on_local_description d ty w))\<rparr>]\<rparr>,
      [SnSig (WsSend (sig_ws sig) (sdp_json (rs_peer_id r) ty d))])"
  using assms
  by (simp add: sn_rtc_event_def on_local_description_def session_local_sdp_def tether_signaling_send_sdp_def send_raw_def
      connected_def Let_def)

lemma receiver_describes:
  assumes "connected (rx_sig x)" and "wc_on_local_sdp (wr_cfg (rx_wrtc x))"
  shows "rx_session_step (RxRtcEvent now (RtcLocalDescription d ty)) (x, []) =
    (x\<lparr>rx_wrtc := fst (on_local_description d ty (rx_wrtc x))\<rparr>, [RxSig (WsSend (sig_ws (rx_sig x)) (sdp_json ''sender'' ty d))])"
  using assms
  by (simp add: rx_rtc_event_def on_local_description_def wrtc_local_sdp_def tether_signaling_send_sdp_def send_raw_def
      connected_def Let_def)

definition sdp_message :: "string \<Rightarrow> string \<Rightarrow> string \<Rightarrow> js_object" where
  "sdp_message pid ty d = [(''type'', JsStr ''sdp''), (''peer_id'', JsStr pid), (''sdp_type'', JsStr ty), (''sdp'', JsStr d)]"

lemma sdp_message_members:
  assumes "plain pid" and "plain ty" and "sdp_plain d"
  shows "js_ok (sdp_message pid ty d)" and "json_stringify (sdp_message pid ty d) = sdp_json pid ty d"
    and "lookup_str (js_object_printed (sdp_message pid ty d)) ''type'' = Some ''sdp''"
    and "lookup_str (js_object_printed (sdp_message pid ty d)) ''peer_id'' = Some pid"
    and "lookup_str (js_object_printed (sdp_message pid ty d)) ''sdp_type'' = Some ty"
    and "lookup_str (js_object_printed (sdp_message pid ty d)) ''sdp'' = Some (sdp_escape d)"
proof -
  show ok: "js_ok (sdp_message pid ty d)" by (simp add: sdp_message_def)
  show "json_stringify (sdp_message pid ty d) = sdp_json pid ty d"
    using assms by (simp add: plugin_messages(3) sdp_message_def)
  show "lookup_str (js_object_printed (sdp_message pid ty d)) ''type'' = Some ''sdp''"
    "lookup_str (js_object_printed (sdp_message pid ty d)) ''peer_id'' = Some pid"
    "lookup_str (js_object_printed (sdp_message pid ty d)) ''sdp_type'' = Some ty"
    "lookup_str (js_object_printed (sdp_message pid ty d)) ''sdp'' = Some (sdp_escape d)"
    unfolding lookup_printed [OF ok] using assms by (simp_all add: sdp_message_def js_escape_sdp)
qed

lemma receiver_gets_accepted:
  assumes "connected (rx_sig x)" and "awaiting_offer x"
  shows "\<exists>outs. rx_session_step (RxSocketEvent rc rc2 (arrival (FrText (json_stringify [(''type'', JsStr ''accepted'')])))) (x, []) =
    (x\<lparr>rx_state := TETHER_RX_STATE_ACCEPTED\<rparr>, outs) \<and> concat (map receiver_frames outs) = []"
proof -
  have ok: "js_ok [(''type'', JsStr ''accepted'')]" by simp
  note find = json_find_object [OF js_ok_object_ok [OF ok]]
  have "on_message (rx_sig x) (Some (json_stringify [(''type'', JsStr ''accepted'')])) n =
      (rx_sig x, [Emit TETHER_SIG_EVT_REQUEST_ACCEPTED None None])" if "n < 0" for n
    using assms(1) that
    by (simp add: on_message_def handle_message_def json_stringify_def find lookup_printed [OF ok] emit_def connected_def)
  then show ?thesis
    using assms(2) by (auto simp: rx_socket_event_def awaiting_offer_def rx_set_state_def)
qed

lemma receiver_gets_offer:
  assumes "connected (rx_sig x)" and "awaiting_offer x" and "plain pid" and "sdp_plain d"
  shows "rx_session_step (RxSocketEvent rc rc2 (arrival (FrText (sdp_json pid ''offer'' d)))) (x, []) =
    (x\<lparr>rx_state := TETHER_RX_STATE_NEGOTIATING\<rparr>,
     map (\<lambda>b. SubState (sub_user b) TETHER_RX_STATE_NEGOTIATING) (filter sub_on_state (rx_subs x)) @
     RxWr (RtcSetRemoteDescription (wr_pc (rx_wrtc x)) d ''offer'') #
     (if rc < 0 then [] else [RxWr (RtcSetLocalDescription (wr_pc (rx_wrtc x)))]))"
proof -
  have "plain ''offer''" by simp
  note m = sdp_message_members [OF assms(3) this assms(4)]
  note ok = js_ok_object_ok [OF m(1)]
  have "on_message (rx_sig x) (Some (json_stringify (sdp_message pid ''offer'' d))) n = (rx_sig x,
      [Emit TETHER_SIG_EVT_SDP_OFFER (Some pid) (Some (json_stringify (sdp_message pid ''offer'' d)))])" if "n < 0" for n
    using assms(1) that
    by (simp add: on_message_def handle_message_def json_stringify_def json_find_object [OF ok] m emit_def connected_def)
  with offer_event [OF ok m(6) assms(2), of rc rc2] show ?thesis
    by (simp add: rx_socket_event_def json_stringify_def flip: m(2) del: rx_signaling_event.simps)
qed

lemma sender_gets_answer:
  assumes "sn_sig s = Some sig" and "connected sig" and "plain rid" and "sdp_plain d" and "CHR 0x22 \<notin> set d"
    and "find_session_locked s rid = Some r" and "rs_wrtc r = Some w"
  shows "sn_call (SnSocket e (arrival (FrText (sdp_json rid ''answer'' d)))) s =
    Some (s, [SnWr rid (RtcSetRemoteDescription (wr_pc w) (sdp_escape d) ''answer'')])"
proof -
  have "plain ''answer''" by simp
  note m = sdp_message_members [OF assms(3) this assms(4)]
  note ok = js_ok_object_ok [OF m(1)]
  have "sn_socket_event e (SigReceived (Some (json_stringify (sdp_message rid ''answer'' d))) n) s =
      on_signaling_event e TETHER_SIG_EVT_SDP_ANSWER (Some rid) (Some (json_stringify (sdp_message rid ''answer'' d))) s" if "n < 0" for n
    using sn_received(2) [OF assms(1) _ that ok m(3) refl, of e] assms(2)
    by (simp add: json_stringify_def m connected_def del: on_signaling_event.simps)
  moreover have "answered_sdp (json_stringify (sdp_message rid ''answer'' d)) = Some (sdp_escape d)"
    unfolding json_stringify_def by (rule answered_sdp_object [OF ok m(6)]) (rule escaped_no_quote [OF assms(5)])
  ultimately show ?thesis
    using assms(6,7) by (simp add: tether_webrtc_apply_remote_sdp_def Let_def flip: m(2))
qed

section \<open>What the room does in a handshake\<close>

lemma token_facts:
  assumes "tether_token_is_well_formed (Some t)"
  shows "plain t" and "map toupper t = t" and "t \<noteq> []" and "length t < TETHER_TOKEN_BUF"
    and "edge_fetch ''/v1'' (Some ''websocket'') (Some t) minted = EdgeRoom t"
proof -
  show len: "t \<noteq> []" "length t < TETHER_TOKEN_BUF" using well_formed_length [OF assms] by (auto simp: TETHER_TOKEN_BUF_def)
  show up: "map toupper t = t" by (rule toupper_well_formed [OF assms])
  have "\<forall>c \<in> set TETHER_TOKEN_PREFIX \<union> set k_alphabet. c \<noteq> CHR 0x22 \<and> c \<noteq> CHR 0x5C \<and> 32 \<le> (of_char c :: nat)"
    by code_simp
  then show "plain t" using well_formed_chars [OF assms] unfolding plain_def by blast
  show "edge_fetch ''/v1'' (Some ''websocket'') (Some t) minted = EdgeRoom t"
    using up len(1) assms by (cases t) (simp_all add: edge_fetch_def regex_iff)
qed

text \<open>The room \<open>r\<close> of the token is open until \<open>e\<close>, and the peer on socket \<open>0\<close> is its sender; the peer on socket \<open>k\<close> is a
  receiver with the id \<open>rid\<close>.\<close>

definition hosted :: "string \<Rightarrow> int \<Rightarrow> room \<Rightarrow> bool" where
  "hosted t e r \<longleftrightarrow> ro_token r = Some t \<and> ro_expires r = Some e \<and> (\<exists>p. findPeerByWs 0 r = Some p \<and> findSender r = Some p)"

definition seated :: "nat \<Rightarrow> string \<Rightarrow> bool \<Rightarrow> room \<Rightarrow> bool" where
  "seated k rid acc r \<longleftrightarrow> (\<exists>p. findPeerByWs k r = Some p \<and> find (has_pc_id rid) (ro_peers r) = Some p \<and>
     pc_role p = TETHER_ROLE_RECEIVER \<and> pc_accepted p = acc)"

lemma hostedE:
  assumes "hosted t e r"
  obtains p where "ro_token r = Some t" "ro_expires r = Some e" "findPeerByWs 0 r = Some p" "findSender r = Some p"
    "pc_role p = TETHER_ROLE_SENDER" "pc_ws p = 0"
  using assms findSenderD findPeerByWsD unfolding hosted_def by metis

lemma seatedE:
  assumes "seated k rid acc r"
  obtains p where "findPeerByWs k r = Some p" "find (has_pc_id rid) (ro_peers r) = Some p"
    "pc_role p = TETHER_ROLE_RECEIVER" "pc_accepted p = acc" "pc_ws p = k" "pc_id p = rid"
  using assms findPeerByWsD find_SomeD [of "has_pc_id rid"] unfolding seated_def has_pc_id_def by metis

lemma hello_members:
  "js_get (hello_message sig) ''type'' = Some (JsStr ''hello'')"
  "js_get (hello_message sig) ''role'' = Some (JsStr (if sc_role (sig_cfg sig) = TETHER_ROLE_SENDER then ''sender'' else ''receiver''))"
  "js_get (hello_message sig) ''name'' = Some (JsStr (sig_display_name sig))"
  "js_get (hello_message sig) ''fingerprint'' = None"
  "js_get (hello_message sig) ''ttl_minutes'' = Some (JsNum (sc_token_ttl_minutes (sig_cfg sig)))"
  "js_get (hello_message sig) ''reusable'' = Some (JsBool (sc_reusable_token (sig_cfg sig)))"
  "sc_role (sig_cfg sig) = TETHER_ROLE_RECEIVER \<Longrightarrow> js_get (hello_message sig) ''token'' =
     Some (JsStr (case sig_token sig of None \<Rightarrow> [] | Some t \<Rightarrow> t))"
  by (cases "sc_role (sig_cfg sig)"; simp add: hello_message_def)+

lemma hello_flat: "distinct (map fst (hello_message sig))" "list_all (js_flat \<circ> snd) (hello_message sig)"
  by (cases "sc_role (sig_cfg sig)"; simp add: hello_message_def)+

lemma room_opens:
  assumes "ro_token r = Some t" and "ro_expires r = Some 0" and "ro_peers r = []" and "sc_role (sig_cfg sig) = TETHER_ROLE_SENDER"
  shows "\<exists>r'. onMessage env now sid 0 (Some (hello_message sig)) r = (r', [RoomSend 0 [(''type'', JsStr ''token''), (''token'', JsStr t)]]) \<and>
    hosted t (now + min (re_max_ttl env) (sc_token_ttl_minutes (sig_cfg sig)) * 60000) r' \<and> ro_locked_until r' = ro_locked_until r \<and>
    map pc_id (ro_peers r') = [sid] \<and> map pc_ws (ro_peers r') = [0]"
  using assms
  by (simp add: onMessage_def handleHello_def sender_hello_def hello_members hello_ttl_def js_or_def Let_def set_peer_def hosted_def
      findPeerByWs_def findSender_def)

lemma room_seats:
  assumes "hosted t e r" and "findPeerByWs k r = None" and "find (has_pc_id rid) (ro_peers r) = None"
    and "sc_role (sig_cfg sig) = TETHER_ROLE_RECEIVER" and "sig_token sig = Some t" and "map toupper t = t" and "t \<noteq> []"
    and "now \<le> e" and "ro_locked_until r \<le> now"
  shows "\<exists>r' p. onMessage env now rid k (Some (hello_message sig)) r = (r', [RoomSend 0 (request_message rid (sig_display_name sig))]) \<and>
    hosted t e r' \<and> seated k rid False r' \<and> ro_locked_until r' = ro_locked_until r \<and> ro_peers r' = ro_peers r @ [p] \<and>
    pc_id p = rid \<and> pc_ws p = k"
proof -
  from assms(1) obtain s where s: "ro_token r = Some t" "ro_expires r = Some e" "findPeerByWs 0 r = Some s"
    "findSender r = Some s" "pc_role s = TETHER_ROLE_SENDER" "pc_ws s = 0" by (rule hostedE)
  define p where "p = \<lparr>pc_id = rid, pc_role = TETHER_ROLE_RECEIVER, pc_name = JsStr (sig_display_name sig),
    pc_fingerprint = None, pc_ws = k, pc_accepted = False, pc_pinned = False\<rparr>"
  let ?r = "r\<lparr>ro_peers := ro_peers r @ [p]\<rparr>"
  have find: "findSender ?r = Some s" "findPeerByWs 0 ?r = Some s" "findPeerByWs k ?r = Some p"
    "find (has_pc_id rid) (ro_peers ?r) = Some p"
    using s assms(2,3) by (auto simp: findSender_def findPeerByWs_def find_append p_def has_pc_id_def)
  have "claimed_token (hello_message sig) q = Some t" for q
    using assms(4-7) by (simp add: claimed_token_def js_or_def hello_members toUpperCase_def)
  moreover have "set_peer p (ro_peers r) = ro_peers r @ [p]" using assms(3) by (simp add: set_peer_def p_def)
  ultimately have "onMessage env now rid k (Some (hello_message sig)) r = (?r, [RoomSend 0 (request_message rid (sig_display_name sig))])"
    using s assms(4,7-9) find
    by (simp add: onMessage_def handleHello_def receiver_hello_room_def hello_members js_or_def Let_def request_message_def flip: p_def)
  with find s show ?thesis by (auto simp: hosted_def seated_def p_def)
qed

lemma find_update_first:
  assumes "\<And>x. P (f x) = P x" and "find q xs = Some p"
  shows "find P xs = Some s \<Longrightarrow> s \<noteq> p \<Longrightarrow> find P (update_first q f xs) = Some s"
    and "find P xs = Some p \<Longrightarrow> find P (update_first q f xs) = Some (f p)"
  using assms(2) by (induction xs) (auto simp: assms(1) split: if_splits dest: find_SomeD)

lemma room_accepts:
  assumes "hosted t e r" and "seated k rid acc r" and "rid \<noteq> []"
  shows "\<exists>r'. onMessage env now u 0 (Some [(''type'', JsStr ''accept''), (''peer_id'', JsStr rid)]) r =
      (r', [RoomSend k [(''type'', JsStr ''accepted'')]]) \<and> hosted t e r' \<and> seated k rid True r' \<and>
    ro_locked_until r' = ro_locked_until r \<and> map pc_id (ro_peers r') = map pc_id (ro_peers r) \<and>
    map pc_ws (ro_peers r') = map pc_ws (ro_peers r)"
proof -
  obtain s where s: "ro_token r = Some t" "ro_expires r = Some e" "findPeerByWs 0 r = Some s"
    "findSender r = Some s" "pc_role s = TETHER_ROLE_SENDER" "pc_ws s = 0" by (rule hostedE [OF assms(1)])
  obtain p where p: "findPeerByWs k r = Some p" "find (has_pc_id rid) (ro_peers r) = Some p"
    "pc_role p = TETHER_ROLE_RECEIVER" "pc_accepted p = acc" "pc_ws p = k" "pc_id p = rid" by (rule seatedE [OF assms(2)])
  have "s \<noteq> p" using s(5) p(3) by auto
  let ?f = "\<lambda>q :: peer_conn. q\<lparr>pc_accepted := True\<rparr>"
  let ?r = "r\<lparr>ro_peers := update_first (has_pc_id rid) ?f (ro_peers r)\<rparr>"
  have "findSender ?r = Some s" "findPeerByWs 0 ?r = Some s" "findPeerByWs k ?r = Some (?f p)"
    "find (has_pc_id rid) (ro_peers ?r) = Some (?f p)"
    using s p \<open>s \<noteq> p\<close> find_update_first [OF _ p(2), of _ ?f]
    by (simp_all add: findSender_def findPeerByWs_def has_pc_id_def)
  then have "hosted t e ?r" "seated k rid True ?r" using s p by (simp_all add: hosted_def seated_def)
  moreover have "map pc_id (ro_peers ?r) = map pc_id (ro_peers r)" "map pc_ws (ro_peers ?r) = map pc_ws (ro_peers r)"
    by (simp_all add: map_update_first)
  moreover have "onMessage env now u 0 (Some [(''type'', JsStr ''accept''), (''peer_id'', JsStr rid)]) r =
      (?r, [RoomSend k [(''type'', JsStr ''accepted'')]])"
    using s p assms(3) by (simp add: onMessage_def handleAccept_def get_peer_def)
  ultimately show ?thesis by fastforce
qed

lemma sdp_members:
  "js_get (sdp_message pid ty d) ''type'' = Some (JsStr ''sdp'')" "js_get (sdp_message pid ty d) ''peer_id'' = Some (JsStr pid)"
  "js_set (sdp_message pid ty d) ''peer_id'' (JsStr i) = sdp_message i ty d"
  by (simp_all add: sdp_message_def)

lemma room_relays_offer:
  assumes "hosted t e r" and "seated k rid True r" and "rid \<noteq> []"
  shows "onMessage env now u 0 (Some (sdp_message rid ty d)) r = (r, [RoomSend k (sdp_message rid ty d)])"
proof -
  obtain s where s: "findPeerByWs 0 r = Some s" "pc_role s = TETHER_ROLE_SENDER" by (rule hostedE [OF assms(1)])
  obtain p where p: "find (has_pc_id rid) (ro_peers r) = Some p" "pc_role p = TETHER_ROLE_RECEIVER" "pc_accepted p"
    "pc_ws p = k" using seatedE [OF assms(2)] by metis
  from s p assms(3) show ?thesis by (simp add: onMessage_def relayToPeer_def get_peer_def sdp_members Let_def)
qed

lemma room_relays_answer:
  assumes "hosted t e r" and "seated k rid acc r"
  shows "onMessage env now u k (Some (sdp_message ''sender'' ty d)) r = (r, [RoomSend 0 (sdp_message rid ty d)])"
proof -
  obtain s where s: "findSender r = Some s" "pc_ws s = 0" by (rule hostedE [OF assms(1)])
  obtain p where p: "findPeerByWs k r = Some p" "pc_role p = TETHER_ROLE_RECEIVER" "pc_id p = rid"
    by (rule seatedE [OF assms(2)])
  from s p show ?thesis by (simp add: onMessage_def relayToPeer_def sdp_members Let_def)
qed

section \<open>The phases of a handshake\<close>

lemma serves_object:
  assumes "nt_place st k = Some n" and "nt_up st k = FrText (json_stringify ob) # fs"
    and "distinct (map fst ob)" and "list_all (js_flat \<circ> snd) ob"
    and "onMessage env now u k (Some ob) (nt_rooms st n) = (r, outs)"
  shows "serves k env now u st = Some (st\<lparr>nt_rooms := (nt_rooms st)(n := r), nt_up := (nt_up st)(k := fs),
    nt_down := fold server_send outs (nt_down st)\<rparr>)"
proof -
  have "json_parse (json_stringify ob) = Some ob" by (rule json_parse_printed [OF assms(3,4)])
  with assms show ?thesis by (simp add: serves_def)
qed

text \<open>Nothing is under way.\<close>

definition quiet :: "'f network \<Rightarrow> bool" where
  "quiet st \<longleftrightarrow> nt_up st = (\<lambda>k. []) \<and> nt_down st = (\<lambda>k. [])"

definition online :: "string \<Rightarrow> int \<Rightarrow> 'f network \<Rightarrow> bool" where
  "online t e st \<longleftrightarrow> quiet st \<and> nt_place st 0 = Some t \<and> hosted t e (nt_rooms st t) \<and>
     (\<exists>sig. sn_sig (nt_sender st) = Some sig \<and> connected sig)"

lemma empty_queues [simp]: "(\<lambda>k. [])(i := []) = (\<lambda>k. [])"
  by auto

text \<open>The sender gets its token.\<close>

lemma registers:
  assumes "sn_sig (nt_sender st) = Some sig" and "connected sig" and "sc_role (sig_cfg sig) = TETHER_ROLE_SENDER"
    and "plain (sig_display_name sig)" and "sig_token sig = None" and "quiet st"
    and "nt_rooms st t = room_load store" and "st_expires store = None" and "tether_token_is_well_formed (Some t)"
  obtains st' where "net_run [NetJoin 0 t, NetSender (SnSocket e1 SigOpened), NetServe 0 env now sid, NetToSender e2] st = Some st'"
    and "online t (now + min (re_max_ttl env) (sc_token_ttl_minutes (sig_cfg sig)) * 60000) st'"
    and "\<exists>sig'. nt_sender st' = (nt_sender st)\<lparr>sn_sig := Some sig', sn_current_token := t\<rparr>"
    and "nt_receivers st' = nt_receivers st" and "\<forall>k. k \<noteq> 0 \<longrightarrow> nt_place st' k = nt_place st k"
    and "ro_locked_until (nt_rooms st' t) = 0" and "map pc_id (ro_peers (nt_rooms st' t)) = [sid]"
    and "map pc_ws (ro_peers (nt_rooms st' t)) = [0]"
proof -
  note tok = token_facts [OF assms(9)]
  let ?s = "nt_sender st" and ?sig = "sig\<lparr>sig_state := TETHER_SIG_STATE_CONNECTED\<rparr>"
  define r0 where "r0 = room_fetch (Some t) None 0 (room_load store)"
  have r0: "ro_token r0 = Some t" "ro_expires r0 = Some 0" "ro_peers r0 = []" "ro_locked_until r0 = 0"
    using tok(3) assms(8) by (auto simp: r0_def room_fetch_def room_load_def Let_def)
  obtain r1 where r1: "onMessage env now sid 0 (Some (hello_message sig)) r0 =
      (r1, [RoomSend 0 [(''type'', JsStr ''token''), (''token'', JsStr t)]])"
    "hosted t (now + min (re_max_ttl env) (sc_token_ttl_minutes (sig_cfg sig)) * 60000) r1" "ro_locked_until r1 = 0"
    "map pc_id (ro_peers r1) = [sid]" "map pc_ws (ro_peers r1) = [0]"
    using room_opens [OF r0(1-3) assms(3), of env now sid] r0(4) by auto
  define st1 where "st1 = st\<lparr>nt_place := (nt_place st)(0 \<mapsto> t), nt_rooms := (nt_rooms st)(t := r0)\<rparr>"
  have "url_token sig = None" using assms(3) by (simp add: url_token_def)
  then have 1: "net_call (NetJoin 0 t) st = Some st1"
    using assms(1,7) by (simp add: joins_def client_of_def edge_fetch_def st1_def r0_def)
  define st2 where "st2 = st1\<lparr>nt_sender := ?s\<lparr>sn_sig := Some ?sig\<rparr>, nt_up := (nt_up st)(0 := [FrText (json_stringify (hello_message sig))]),
      nt_sent := nt_sent st @ [SnSig (WsSend (sig_ws sig) (hello_json sig))]\<rparr>"
  have hello: "hello_json sig = json_stringify (hello_message sig)"
    using assms(4,5) by (intro hello_stringify) simp_all
  have 2: "net_call (NetSender (SnSocket e1 SigOpened)) st1 = Some st2"
    using sender_opens [OF assms(1,2), of e1] assms(6) hello
    by (simp add: reads_def sender_acts_def st1_def st2_def quiet_def del: sn_call.simps)
  let ?tok = "[(''type'', JsStr ''token''), (''token'', JsStr t)]"
  define st3 where "st3 = st2\<lparr>nt_rooms := (nt_rooms st2)(t := r1), nt_up := \<lambda>k. [], nt_down := (\<lambda>k. [])(0 := [FrText (json_stringify ?tok)])\<rparr>"
  have "serves 0 env now sid st2 = Some (st2\<lparr>nt_rooms := (nt_rooms st2)(t := r1), nt_up := (nt_up st2)(0 := []),
      nt_down := fold server_send [RoomSend 0 ?tok] (nt_down st2)\<rparr>)"
    by (rule serves_object) (use hello_flat [of sig] r1(1) in \<open>simp_all add: st1_def st2_def\<close>)
  then have 3: "net_call (NetServe 0 env now sid) st2 = Some st3"
    using assms(6) by (simp add: st3_def st2_def st1_def quiet_def)
  have "sn_sig (?s\<lparr>sn_sig := Some ?sig\<rparr>) = Some ?sig" "connected ?sig" using assms(2) by simp_all
  note got = sender_gets_token [OF this tok(1,3,4), of e2]
  define st4 where "st4 = st3\<lparr>nt_sender := ?s\<lparr>sn_sig := Some (?sig\<lparr>sig_token := Some t\<rparr>), sn_current_token := t\<rparr>, nt_down := \<lambda>k. [],
      nt_sent := nt_sent st3 @ (if cb_on_token (sn_cbs ?s) then [CbToken t] else [])\<rparr>"
  have 4: "net_call (NetToSender e2) st3 = Some st4"
    using got by (simp add: st4_def st3_def st2_def sender_acts_def del: sn_call.simps)
  show thesis
  proof (rule that [of st4])
    show "net_run [NetJoin 0 t, NetSender (SnSocket e1 SigOpened), NetServe 0 env now sid, NetToSender e2] st = Some st4"
      using 1 2 3 4 by (simp del: net_call.simps)
  qed (use r1 assms(2) in \<open>auto simp: st4_def st3_def st2_def st1_def online_def quiet_def\<close>)
qed

lemma changed_peers_frame: "changed_peers xe ps s = (s', outs) \<Longrightarrow> sn_cbs s' = sn_cbs s \<and> sn_sig s' = sn_sig s"
proof (induction ps arbitrary: s s' outs)
  case (Cons p ps)
  obtain s1 o1 where a: "on_admission_changed xe s p = (s1, o1)" by fastforce
  have "sn_cbs s1 = sn_cbs s \<and> sn_sig s1 = sn_sig s"
    using a create_session_frame by (fastforce simp: on_admission_changed_def split: tether_peer_state.splits prod.splits)
  with Cons a show ?case by (fastforce split: prod.splits)
qed simp

lemma with_admission_cbs: "with_admission xe res s = (s', outs) \<Longrightarrow> sn_cbs s' = sn_cbs s \<and> sn_sig s' = sn_sig s"
  by (cases res) (auto simp: with_admission_def dest: changed_peers_frame)

text \<open>A receiver's request reaches the waiting room of the sender.\<close>

lemma knock_arrives:
  assumes "online t e st" and "k \<noteq> 0" and "nt_receivers st k = Some x" and "connected (rx_sig x)"
    and "sc_role (sig_cfg (rx_sig x)) = TETHER_ROLE_RECEIVER" and "sig_token (rx_sig x) = Some t"
    and "sig_display_name (rx_sig x) = name" and "plain name" and "length name < 128"
    and "findPeerByWs k (nt_rooms st t) = None" and "find (has_pc_id rid) (ro_peers (nt_rooms st t)) = None"
    and "now \<le> e" and "ro_locked_until (nt_rooms st t) \<le> now" and "tether_token_is_well_formed (Some t)" and "plain rid"
    and "with_admission (ne_session e2)
      (tether_admission_add_pending (ne_clock e2) (sn_adm (nt_sender st)) (Some rid) (Some name) (Some [])) (nt_sender st) = (s', outs)"
  obtains st' p where "net_run [NetJoin k minted, NetReceiver k (RxSocketEvent rc rc2 SigOpened), NetServe k env now rid, NetToSender e2] st = Some st'"
    and "nt_sender st' = s'" and "nt_up st' = (\<lambda>k. [])(0 := concat (map sender_frames outs))" and "nt_down st' = (\<lambda>k. [])"
    and "nt_place st' = (nt_place st)(k \<mapsto> t)"
    and "nt_receivers st' = (nt_receivers st)(k \<mapsto> x\<lparr>rx_sig := (rx_sig x)\<lparr>sig_state := TETHER_SIG_STATE_CONNECTED\<rparr>\<rparr>)"
    and "hosted t e (nt_rooms st' t)" and "seated k rid False (nt_rooms st' t)"
    and "ro_locked_until (nt_rooms st' t) = ro_locked_until (nt_rooms st t)"
    and "ro_peers (nt_rooms st' t) = ro_peers (nt_rooms st t) @ [p]" and "pc_id p = rid" and "pc_ws p = k"
    and "nt_sent st' = nt_sent st @ outs @ (if cb_on_pending (sn_cbs s') then [CbPending rid name []] else [])"
proof -
  note tok = token_facts [OF assms(14)]
  have on: "quiet st" "nt_place st 0 = Some t" "hosted t e (nt_rooms st t)" using assms(1) by (simp_all add: online_def)
  obtain sig where sig: "sn_sig (nt_sender st) = Some sig" "connected sig" using assms(1) by (auto simp: online_def)
  let ?x = "x\<lparr>rx_sig := (rx_sig x)\<lparr>sig_state := TETHER_SIG_STATE_CONNECTED\<rparr>\<rparr>"
  define r0 where "r0 = room_fetch (Some t) (Some t) k (nt_rooms st t)"
  have r0: "r0 = (nt_rooms st t)\<lparr>ro_params := (ro_params (nt_rooms st t))(k \<mapsto> Some t)\<rparr>"
    using on(3) by (simp add: r0_def room_fetch_def hosted_def Let_def)
  have h0: "hosted t e r0" "findPeerByWs k r0 = None" "find (has_pc_id rid) (ro_peers r0) = None" "ro_locked_until r0 \<le> now"
    using on(3) assms(10,11,13) by (simp_all add: r0 hosted_def)
  obtain r1 p where r1: "onMessage env now rid k (Some (hello_message (rx_sig x))) r0 = (r1, [RoomSend 0 (request_message rid name)])"
    "hosted t e r1" "seated k rid False r1" "ro_locked_until r1 = ro_locked_until r0" "ro_peers r1 = ro_peers r0 @ [p]" "pc_id p = rid" "pc_ws p = k"
    using room_seats [OF h0(1-3) assms(5,6) tok(2,3) assms(12) h0(4), of env] unfolding assms(7) by blast
  define st1 where "st1 = st\<lparr>nt_place := (nt_place st)(k \<mapsto> t), nt_rooms := (nt_rooms st)(t := r0)\<rparr>"
  have "url_token (rx_sig x) = Some t" using assms(5,6) tok(3) by (cases t) (simp_all add: url_token_def)
  then have 1: "net_call (NetJoin k minted) st = Some st1"
    using assms(2,3) tok(5) by (simp add: joins_def client_of_def st1_def r0_def)
  define st2 where "st2 = st1\<lparr>nt_receivers := (nt_receivers st)(k \<mapsto> ?x), nt_up := (\<lambda>k. [])(k := [FrText (json_stringify (hello_message (rx_sig x)))]),
      nt_received := nt_received st @ [(k, RxSig (WsSend (sig_ws (rx_sig x)) (hello_json (rx_sig x))))]\<rparr>"
  have hello: "hello_json (rx_sig x) = json_stringify (hello_message (rx_sig x))"
    using assms(6-8) tok(1) by (intro hello_stringify) simp_all
  have 2: "net_call (NetReceiver k (RxSocketEvent rc rc2 SigOpened)) st1 = Some st2"
    using receiver_opens [OF assms(4), of rc rc2] assms(2,3) on(1) hello
    by (simp add: reads_def receiver_acts_def st1_def st2_def quiet_def del: rx_session_step.simps)
  define st3 where "st3 = st2\<lparr>nt_rooms := (nt_rooms st2)(t := r1), nt_up := \<lambda>k. [],
      nt_down := (\<lambda>k. [])(0 := [FrText (json_stringify (request_message rid name))])\<rparr>"
  have "serves k env now rid st2 = Some (st2\<lparr>nt_rooms := (nt_rooms st2)(t := r1), nt_up := (nt_up st2)(k := []),
      nt_down := fold server_send [RoomSend 0 (request_message rid name)] (nt_down st2)\<rparr>)"
    by (rule serves_object) (use hello_flat [of "rx_sig x"] r1(1) in \<open>simp_all add: st1_def st2_def\<close>)
  then have 3: "net_call (NetServe k env now rid) st2 = Some st3"
    using on(1) by (simp add: st3_def st2_def st1_def quiet_def)
  note got = sender_gets_request [OF sig assms(15,8,9,16)]
  have cbs: "sn_cbs s' = sn_cbs (nt_sender st)"
    using with_admission_cbs [OF assms(16)] by simp
  define st4 where "st4 = st3\<lparr>nt_sender := s', nt_down := \<lambda>k. [], nt_up := (\<lambda>k. [])(0 := concat (map sender_frames outs)),
      nt_sent := nt_sent st3 @ outs @ (if cb_on_pending (sn_cbs s') then [CbPending rid name []] else [])\<rparr>"
  have 4: "net_call (NetToSender e2) st3 = Some st4"
    using got cbs by (simp add: st4_def st3_def st2_def st1_def sender_acts_def del: sn_call.simps)
  show thesis
  proof (rule that [of st4 p])
    show "net_run [NetJoin k minted, NetReceiver k (RxSocketEvent rc rc2 SigOpened), NetServe k env now rid, NetToSender e2] st = Some st4"
      using 1 2 3 4 by (simp del: net_call.simps)
  qed (use r1 r0 in \<open>simp_all add: st4_def st3_def st2_def st1_def\<close>)
qed

text \<open>The host decides.\<close>

lemma host_acceptance:
  assumes "sn_sig (nt_sender st) = Some sig" and "connected sig" and "sn_adm (nt_sender st) = Some a"
    and "find_peer_locked a rid = Some q" and "ac_on_changed (adm_cfg a)" and "0 < xe_pc xe" and "length rid < TETHER_PEER_ID_MAX"
    and "nt_up st = (\<lambda>k. [])"
  obtains st' r w b where "net_call (NetSender (SnAccept xe (Some rid) pin)) st = Some st'"
    and "nt_sender st' = (nt_sender st)\<lparr>sn_adm := Some b, sn_sessions := sn_sessions (nt_sender st) @ [r]\<rparr>"
    and "b = a\<lparr>adm_peers := update_first (has_peer_id rid) (with_state TETHER_PEER_ACCEPTED pin) (adm_peers a)\<rparr>"
    and "rs_peer_id r = rid" and "rs_wrtc r = Some w" and "wc_on_local_sdp (wr_cfg w)"
    and "nt_up st' = (\<lambda>k. [])(0 := [FrText (accept_json rid)])" and "nt_down st' = nt_down st" and "nt_rooms st' = nt_rooms st"
    and "nt_place st' = nt_place st" and "nt_receivers st' = nt_receivers st" and "set (nt_sent st) \<subseteq> set (nt_sent st')"
proof -
  obtain r w outs where o: "sn_call (SnAccept xe (Some rid) pin) (nt_sender st) = Some ((nt_sender st)\<lparr>
      sn_adm := Some (a\<lparr>adm_peers := update_first (has_peer_id rid) (with_state TETHER_PEER_ACCEPTED pin) (adm_peers a)\<rparr>),
      sn_sessions := sn_sessions (nt_sender st) @ [r]\<rparr>, outs)"
    "rs_peer_id r = rid" "rs_wrtc r = Some w" "wc_on_local_sdp (wr_cfg w)"
    "concat (map sender_frames outs) = [FrText (accept_json rid)]"
    by (rule sender_accepts [OF assms(1-7)])
  define b where "b = a\<lparr>adm_peers := update_first (has_peer_id rid) (with_state TETHER_PEER_ACCEPTED pin) (adm_peers a)\<rparr>"
  define st' where "st' = st\<lparr>nt_sender := (nt_sender st)\<lparr>sn_adm := Some b, sn_sessions := sn_sessions (nt_sender st) @ [r]\<rparr>,
      nt_up := (\<lambda>k. [])(0 := [FrText (accept_json rid)]), nt_sent := nt_sent st @ outs\<rparr>"
  show thesis
    by (rule that [where st' = st' and r = r and w = w and b = b]) (use o assms(8) in \<open>simp_all add: sender_acts_def st'_def b_def del: sn_call.simps\<close>)
qed

text \<open>The decision reaches the room and the receiver.\<close>

lemma acceptance_travels:
  assumes "nt_place st 0 = Some t" and "hosted t e (nt_rooms st t)" and "seated k rid acc (nt_rooms st t)"
    and "nt_up st = (\<lambda>k. [])(0 := [FrText (accept_json rid)])" and "nt_down st = (\<lambda>k. [])" and "k \<noteq> 0"
    and "nt_receivers st k = Some x" and "connected (rx_sig x)" and "awaiting_offer x" and "plain rid" and "rid \<noteq> []"
    and "sn_sig (nt_sender st) = Some sig" and "connected sig"
  obtains st' where "net_run [NetServe 0 env now u, NetToReceiver k rc rc2] st = Some st'" and "online t e st'"
    and "seated k rid True (nt_rooms st' t)" and "nt_sender st' = nt_sender st" and "nt_sent st' = nt_sent st"
    and "nt_receivers st' = (nt_receivers st)(k \<mapsto> x\<lparr>rx_state := TETHER_RX_STATE_ACCEPTED\<rparr>)" and "nt_place st' = nt_place st"
    and "ro_locked_until (nt_rooms st' t) = ro_locked_until (nt_rooms st t)"
    and "map pc_id (ro_peers (nt_rooms st' t)) = map pc_id (ro_peers (nt_rooms st t))"
    and "map pc_ws (ro_peers (nt_rooms st' t)) = map pc_ws (ro_peers (nt_rooms st t))"
proof -
  let ?acc = "[(''type'', JsStr ''accept''), (''peer_id'', JsStr rid)]" and ?told = "[(''type'', JsStr ''accepted'')]"
  obtain r where r: "onMessage env now u 0 (Some ?acc) (nt_rooms st t) = (r, [RoomSend k ?told])" "hosted t e r" "seated k rid True r"
    "ro_locked_until r = ro_locked_until (nt_rooms st t)" "map pc_id (ro_peers r) = map pc_id (ro_peers (nt_rooms st t))"
    "map pc_ws (ro_peers r) = map pc_ws (ro_peers (nt_rooms st t))"
    using room_accepts [OF assms(2,3,11), of env now u] by blast
  define st1 where "st1 = st\<lparr>nt_rooms := (nt_rooms st)(t := r), nt_up := \<lambda>k. [], nt_down := (\<lambda>k. [])(k := [FrText (json_stringify ?told)])\<rparr>"
  have "serves 0 env now u st = Some (st\<lparr>nt_rooms := (nt_rooms st)(t := r), nt_up := (nt_up st)(0 := []),
      nt_down := fold server_send [RoomSend k ?told] (nt_down st)\<rparr>)"
    by (rule serves_object) (use assms(1,4,10) r(1) plugin_messages(1) [OF assms(10)] in simp_all)
  then have 1: "net_call (NetServe 0 env now u) st = Some st1"
    using assms(4,5) by (simp add: st1_def)
  obtain outs where o: "rx_session_step (RxSocketEvent rc rc2 (arrival (FrText (json_stringify ?told)))) (x, []) =
      (x\<lparr>rx_state := TETHER_RX_STATE_ACCEPTED\<rparr>, outs)" "concat (map receiver_frames outs) = []"
    using receiver_gets_accepted [OF assms(8,9)] by blast
  define st2 where "st2 = st1\<lparr>nt_receivers := (nt_receivers st)(k \<mapsto> x\<lparr>rx_state := TETHER_RX_STATE_ACCEPTED\<rparr>), nt_down := \<lambda>k. [],
      nt_received := nt_received st @ map (\<lambda>out. (k, out)) outs\<rparr>"
  have 2: "net_call (NetToReceiver k rc rc2) st1 = Some st2"
    using o assms(6,7) by (simp add: st1_def st2_def receiver_acts_def del: rx_session_step.simps concat_eq_Nil_conv)
  show thesis
  proof (rule that [of st2])
    show "net_run [NetServe 0 env now u, NetToReceiver k rc rc2] st = Some st2" using 1 2 by (simp del: net_call.simps)
  qed (use r assms(1,12,13) in \<open>simp_all add: st2_def st1_def online_def quiet_def\<close>)
qed

text \<open>An offer reaches the peer connection of the receiver it is for.\<close>

lemma offer_travels:
  assumes "online t e st" and "seated k rid True (nt_rooms st t)" and "k \<noteq> 0" and "nt_receivers st k = Some x"
    and "connected (rx_sig x)" and "awaiting_offer x" and "plain rid" and "rid \<noteq> []" and "sdp_plain d"
    and "i < length (sn_sessions (nt_sender st))" and "sn_sessions (nt_sender st) ! i = r" and "rs_peer_id r = rid"
    and "rs_wrtc r = Some w" and "wc_on_local_sdp (wr_cfg w)"
  obtains st' where "net_run [NetSender (SnRtc e1 i (RtcLocalDescription d ''offer'')), NetServe 0 env now u, NetToReceiver k rc rc2] st = Some st'"
    and "online t e st'" and "nt_rooms st' = nt_rooms st" and "nt_place st' = nt_place st"
    and "nt_sender st' = (nt_sender st)\<lparr>sn_sessions :=
      (sn_sessions (nt_sender st))[i := r\<lparr>rs_wrtc := Some (fst (on_local_description d ''offer'' w))\<rparr>]\<rparr>"
    and "nt_receivers st' = (nt_receivers st)(k \<mapsto> x\<lparr>rx_state := TETHER_RX_STATE_NEGOTIATING\<rparr>)"
    and "(k, RxWr (RtcSetRemoteDescription (wr_pc (rx_wrtc x)) d ''offer'')) \<in> set (nt_received st')"
    and "set (nt_sent st) \<subseteq> set (nt_sent st')"
proof -
  obtain sig where sig: "sn_sig (nt_sender st) = Some sig" "connected sig" using assms(1) by (auto simp: online_def)
  have on: "nt_up st = (\<lambda>k. [])" "nt_down st = (\<lambda>k. [])" "nt_place st 0 = Some t" "hosted t e (nt_rooms st t)"
    using assms(1) by (simp_all add: online_def quiet_def)
  have p: "plain ''offer''" by simp
  note m = sdp_message_members [OF assms(7) p assms(9)]
  let ?s = "(nt_sender st)\<lparr>sn_sessions := (sn_sessions (nt_sender st))[i := r\<lparr>rs_wrtc := Some (fst (on_local_description d ''offer'' w))\<rparr>]\<rparr>"
  define st1 where "st1 = st\<lparr>nt_sender := ?s, nt_up := (\<lambda>k. [])(0 := [FrText (sdp_json rid ''offer'' d)]),
      nt_sent := nt_sent st @ [SnSig (WsSend (sig_ws sig) (sdp_json rid ''offer'' d))]\<rparr>"
  have 1: "net_call (NetSender (SnRtc e1 i (RtcLocalDescription d ''offer''))) st = Some st1"
    using sender_describes [OF sig assms(10,11,13,14), of e1 d "''offer''"] assms(12) on
    by (simp add: sender_acts_def st1_def del: sn_call.simps)
  define st2 where "st2 = st1\<lparr>nt_up := \<lambda>k. [], nt_down := (\<lambda>k. [])(k := [FrText (sdp_json rid ''offer'' d)])\<rparr>"
  have "serves 0 env now u st1 = Some (st1\<lparr>nt_rooms := (nt_rooms st1)(t := nt_rooms st1 t), nt_up := (nt_up st1)(0 := []),
      nt_down := fold server_send [RoomSend k (sdp_message rid ''offer'' d)] (nt_down st1)\<rparr>)"
    by (rule serves_object)
       (use on room_relays_offer [OF on(4) assms(2,8)] in \<open>simp_all add: st1_def m(2) flip: m(2)\<close>, simp_all add: sdp_message_def)
  then have 2: "net_call (NetServe 0 env now u) st1 = Some st2"
    using on by (simp add: st2_def st1_def m(2))
  define outs where "outs = map (\<lambda>b. SubState (sub_user b) TETHER_RX_STATE_NEGOTIATING) (filter sub_on_state (rx_subs x)) @
     RxWr (RtcSetRemoteDescription (wr_pc (rx_wrtc x)) d ''offer'') #
     (if rc < 0 then [] else [RxWr (RtcSetLocalDescription (wr_pc (rx_wrtc x)))])"
  note got = receiver_gets_offer [OF assms(5,6,7,9), of rc rc2, folded outs_def]
  have frames: "concat (map receiver_frames outs) = []" by (auto simp: outs_def)
  define st3 where "st3 = st2\<lparr>nt_receivers := (nt_receivers st)(k \<mapsto> x\<lparr>rx_state := TETHER_RX_STATE_NEGOTIATING\<rparr>), nt_down := \<lambda>k. [],
      nt_received := nt_received st @ map (\<lambda>out. (k, out)) outs\<rparr>"
  have 3: "net_call (NetToReceiver k rc rc2) st2 = Some st3"
    using got frames assms(3,4) by (simp add: st1_def st2_def st3_def receiver_acts_def del: rx_session_step.simps concat_eq_Nil_conv)
  show thesis
  proof (rule that [of st3])
    show "net_run [NetSender (SnRtc e1 i (RtcLocalDescription d ''offer'')), NetServe 0 env now u, NetToReceiver k rc rc2] st = Some st3"
      using 1 2 3 by (simp del: net_call.simps)
  qed (use on sig in \<open>auto simp: st3_def st2_def st1_def online_def quiet_def outs_def\<close>)
qed

text \<open>An answer reaches the peer connection of the session it is from, with its escapes.\<close>

lemma answer_travels:
  assumes "online t e st" and "seated k rid acc (nt_rooms st t)" and "k \<noteq> 0" and "nt_receivers st k = Some x"
    and "connected (rx_sig x)" and "wc_on_local_sdp (wr_cfg (rx_wrtc x))" and "plain rid" and "sdp_plain d"
    and "CHR 0x22 \<notin> set d" and "find_session_locked (nt_sender st) rid = Some r" and "rs_wrtc r = Some w"
    and "nt_place st k = Some t"
  obtains st' where "net_run [NetReceiver k (RxRtcEvent n (RtcLocalDescription d ''answer'')), NetServe k env now u, NetToSender e2] st = Some st'"
    and "online t e st'" and "nt_rooms st' = nt_rooms st" and "nt_place st' = nt_place st" and "nt_sender st' = nt_sender st"
    and "nt_receivers st' = (nt_receivers st)(k \<mapsto> x\<lparr>rx_wrtc := fst (on_local_description d ''answer'' (rx_wrtc x))\<rparr>)"
    and "SnWr rid (RtcSetRemoteDescription (wr_pc w) (sdp_escape d) ''answer'') \<in> set (nt_sent st')"
    and "set (nt_received st) \<subseteq> set (nt_received st')" and "set (nt_sent st) \<subseteq> set (nt_sent st')"
proof -
  obtain sig where sig: "sn_sig (nt_sender st) = Some sig" "connected sig" using assms(1) by (auto simp: online_def)
  have on: "nt_up st = (\<lambda>k. [])" "nt_down st = (\<lambda>k. [])" "nt_place st 0 = Some t" "hosted t e (nt_rooms st t)"
    using assms(1) by (simp_all add: online_def quiet_def)
  have pl: "plain ''sender''" "plain ''answer''" by simp_all
  note m = sdp_message_members(2) [OF pl assms(8)] and m' = sdp_message_members(2) [OF assms(7) pl(2) assms(8)]
  let ?x = "x\<lparr>rx_wrtc := fst (on_local_description d ''answer'' (rx_wrtc x))\<rparr>"
  define st1 where "st1 = st\<lparr>nt_receivers := (nt_receivers st)(k \<mapsto> ?x), nt_up := (\<lambda>k. [])(k := [FrText (sdp_json ''sender'' ''answer'' d)]),
      nt_received := nt_received st @ [(k, RxSig (WsSend (sig_ws (rx_sig x)) (sdp_json ''sender'' ''answer'' d)))]\<rparr>"
  have 1: "net_call (NetReceiver k (RxRtcEvent n (RtcLocalDescription d ''answer''))) st = Some st1"
    using receiver_describes [OF assms(5,6), of n d "''answer''"] assms(3,4) on
    by (simp add: receiver_acts_def st1_def del: rx_session_step.simps)
  define st2 where "st2 = st1\<lparr>nt_up := \<lambda>k. [], nt_down := (\<lambda>k. [])(0 := [FrText (sdp_json rid ''answer'' d)])\<rparr>"
  have "serves k env now u st1 = Some (st1\<lparr>nt_rooms := (nt_rooms st1)(t := nt_rooms st1 t), nt_up := (nt_up st1)(k := []),
      nt_down := fold server_send [RoomSend 0 (sdp_message rid ''answer'' d)] (nt_down st1)\<rparr>)"
    by (rule serves_object)
       (use on assms(12) room_relays_answer [OF on(4) assms(2)] in \<open>simp_all add: st1_def flip: m\<close>, simp_all add: sdp_message_def)
  then have 2: "net_call (NetServe k env now u) st1 = Some st2"
    using on assms(12) by (simp add: st2_def st1_def m')
  note got = sender_gets_answer [OF sig assms(7-11), of e2]
  define st3 where "st3 = st2\<lparr>nt_down := \<lambda>k. [],
      nt_sent := nt_sent st @ [SnWr rid (RtcSetRemoteDescription (wr_pc w) (sdp_escape d) ''answer'')]\<rparr>"
  have 3: "net_call (NetToSender e2) st2 = Some st3"
    using got by (simp add: st1_def st2_def st3_def sender_acts_def del: sn_call.simps)
  show thesis
  proof (rule that [of st3])
    show "net_run [NetReceiver k (RxRtcEvent n (RtcLocalDescription d ''answer'')), NetServe k env now u, NetToSender e2] st = Some st3"
      using 1 2 3 by (simp del: net_call.simps)
  qed (use on sig in \<open>auto simp: st3_def st2_def st1_def online_def quiet_def\<close>)
qed

section \<open>The two clients when they are new\<close>

lemma plain_strncpy [simp]: "plain s \<Longrightarrow> plain (strncpy_buf n s)"
  by (auto simp: plain_def strncpy_buf_def dest: in_set_takeD)

lemma first_capture: "first_source c = Some first \<Longrightarrow> \<exists>cs. sender_captures c first = new_capture first 0 # cs"
  by (auto simp: first_source_def sender_captures_def Let_def upt_conv_Cons split: list.splits if_splits simp del: upt_Suc)

lemma created_sender:
  fixes s :: "'f tether_sender"
  assumes "tether_sender_create e ws (Some c) cbs = (Some s, o1)" and "0 < ws"
  obtains sig first where "first_source c = Some first" and "sn_sig s = Some sig" and "connected sig"
    and "sc_role (sig_cfg sig) = TETHER_ROLE_SENDER" and "sig_token sig = None" and "sig_display_name sig = strncpy_buf 256 first"
    and "sc_token_ttl_minutes (sig_cfg sig) = or_default (sd_token_ttl_minutes c) 30"
    and "sn_adm s = Some (tether_admission_create (sender_admission_config (with_defaults c)))" and "sn_sessions s = []"
    and "sn_cbs s = (case cbs of None \<Rightarrow> no_callbacks | Some b \<Rightarrow> b)"
proof -
  obtain first where f: "first_source c = Some first" using assms(1) by (auto simp: tether_sender_create_def split: option.splits)
  obtain cs where cs: "sender_captures c first = new_capture first 0 # cs" using first_capture [OF f] by blast
  define sig0 where "sig0 = the (sn_sig (new_sender c first cbs :: 'f tether_sender))"
  have sig0: "sn_sig (new_sender c first cbs :: 'f tether_sender) = Some sig0" "sig_ws sig0 = -1" "sig_token sig0 = None"
    "sc_cb (sig_cfg sig0)" "sc_role (sig_cfg sig0) = TETHER_ROLE_SENDER" "sig_display_name sig0 = strncpy_buf 256 first"
    "sc_token_ttl_minutes (sig_cfg sig0) = or_default (sd_token_ttl_minutes c) 30"
    by (simp_all add: sig0_def new_sender_def tether_signaling_create_def sender_signaling_config_def cs new_capture_def with_defaults_def)
  let ?sig = "sig0\<lparr>sig_state := TETHER_SIG_STATE_CONNECTING, sig_ws := ws\<rparr>"
  obtain ok outs where conn: "tether_signaling_connect ws (Some sig0) = (Some ?sig, ok, outs)"
    using sig0(2) assms(2) by (simp add: tether_signaling_connect_def Signaling.set_state_def Let_def)
  let ?s = "new_sender c first cbs\<lparr>sn_sig := Some ?sig\<rparr> :: 'f tether_sender"
  have "fst (sn_deliver_sig e outs ?s) = ?s"
    by (rule deliver_quiet) (use connect_quiet [OF conn] in blast)
  then have "s = ?s\<lparr>sn_worker_running := True\<rparr>"
    using assms(1) f conn sig0(1) by (simp add: tether_sender_create_def Let_def split: prod.splits)
  with that [OF f, of ?sig] show thesis
    using sig0 assms(2) by (simp add: connected_def new_sender_def)
qed

lemma well_formed_normalised:
  assumes "tether_token_is_well_formed (Some t)"
  shows "tether_token_normalise (Some t) TETHER_TOKEN_BUF = (True, Some t)"
proof -
  have "normalise_loop (Suc (TETHER_TOKEN_BUF - 1)) 0 t = t"
    unfolding normalise_loop_eq using clean_paste_fixed [OF assms] well_formed_length [OF assms] by (simp add: TETHER_TOKEN_BUF_def)
  with assms show ?thesis by (simp add: tether_token_normalise_def token_consts TETHER_TOKEN_BUF_def)
qed

lemma created_receiver:
  assumes "session_create_locked env pc ws t = (Some x, o1)" and "0 < ws" and "tether_token_is_well_formed (Some t)"
  shows "connected (rx_sig x)" and "sc_role (sig_cfg (rx_sig x)) = TETHER_ROLE_RECEIVER" and "sig_token (rx_sig x) = Some t"
    and "sig_display_name (rx_sig x) = ''Tether''" and "awaiting_offer x" and "wc_on_local_sdp (wr_cfg (rx_wrtc x))"
    and "rx_state x = TETHER_RX_STATE_AWAITING_ACCEPT"
  using assms(1,2) token_facts(3) [OF assms(3)]
  by (auto simp: session_create_locked_def well_formed_normalised [OF assms(3)] tether_webrtc_create_def
      tether_signaling_create_def rx_signaling_config_def rx_webrtc_config_def tether_signaling_connect_def Signaling.set_state_def
      emit_def rx_set_state_def Let_def connected_def awaiting_offer_def nonempty_str_def split: if_splits option.splits)

text \<open>The waiting room of a new sender takes the first request, and after one peer with no fingerprint has been
  accepted and pinned, it accepts the next one.\<close>

definition waiting_room :: "tether_sender_config \<Rightarrow> tether_peer \<Rightarrow> u64 \<Rightarrow> tether_admission" where
  "waiting_room c p at = (tether_admission_create (sender_admission_config (with_defaults c)))\<lparr>adm_attempts := [at], adm_peers := [p]\<rparr>"

lemma first_request:
  assumes "sn_adm s = Some (tether_admission_create (sender_admission_config (with_defaults c)))"
    and "p = new_peer (ck_seen ck) rid (Some n) (Some f)" and "length rid < TETHER_PEER_ID_MAX"
  shows "with_admission xe (tether_admission_add_pending ck (sn_adm s) (Some rid) (Some n) (Some f)) s =
      (s\<lparr>sn_adm := Some (waiting_room c p (ck_attempt ck))\<rparr>, [])"
    and "find_peer_locked (waiting_room c p at) rid = Some p" and "ac_on_changed (adm_cfg (waiting_room c p at))"
proof -
  let ?a = "tether_admission_create (sender_admission_config (with_defaults c))"
  have "rate_limit_blocks_locked l l' ?a = (?a, False)" for l l'
    by (simp add: rate_limit_blocks_locked_def prune_attempts_locked_def tether_admission_create_def int_of_size_def Let_def)
  moreover have "0 < ac_max_receivers (adm_cfg ?a)" by (simp add: tether_admission_create_def)
  ultimately have "tether_admission_add_pending ck (Some ?a) (Some rid) (Some n) (Some f) = (Some (waiting_room c p (ck_attempt ck)), True, [p])"
    by (simp add: tether_admission_add_pending_def find_peer_locked_def count_locked_def auto_accept_def Admission.on_changed_def
        tether_admission_create_def sender_admission_config_def waiting_room_def assms(2) Let_def)
  with assms(1,2) show "with_admission xe (tether_admission_add_pending ck (sn_adm s) (Some rid) (Some n) (Some f)) s =
      (s\<lparr>sn_adm := Some (waiting_room c p (ck_attempt ck))\<rparr>, [])"
    by (simp add: with_admission_def on_admission_changed_def new_peer_def)
  show "find_peer_locked (waiting_room c p at) rid = Some p" "ac_on_changed (adm_cfg (waiting_room c p at))"
    using assms(2,3) by (simp_all add: waiting_room_def new_peer_def find_peer_locked_def has_peer_id_def strncpy_buf_fits
        tether_admission_create_def sender_admission_config_def)
qed

lemma next_request:
  fixes s :: "'f tether_sender"
  assumes "sn_adm s = Some (waiting_room c p at)" and "peer_pinned p" and "peer_fingerprint p = []" and "peer_id p \<noteq> rid"
    and "1 < or_default (sd_max_receivers c) 4" and "length rid < TETHER_PEER_ID_MAX"
    and "sn_sig s = Some sig" and "connected sig" and "0 < xe_pc xe"
  obtains adm r outs where "with_admission xe (tether_admission_add_pending ck (sn_adm s) (Some rid) (Some n) (Some [])) s =
      (s\<lparr>sn_adm := adm, sn_sessions := sn_sessions s @ [r]\<rparr>, outs)" and "rs_peer_id r = rid"
    and "concat (map sender_frames outs) = [FrText (accept_json rid)]"
proof -
  let ?a = "waiting_room c p at"
  have "\<exists>a1. rate_limit_blocks_locked (ck_limit ck) (ck_prune ck) ?a = (a1, False)"
    by (cases "ck_prune ck - ns_of_secs 60 \<le> at")
       (simp_all add: rate_limit_blocks_locked_def prune_attempts_locked_def waiting_room_def tether_admission_create_def
        sender_admission_config_def int_of_size_def Let_def)
  then obtain a1 where limit: "rate_limit_blocks_locked (ck_limit ck) (ck_prune ck) ?a = (a1, False)" by blast
  have cfg: "count_locked ?a TETHER_PEER_ACCEPTED < ac_max_receivers (adm_cfg ?a)" "ac_auto_accept_pinned (adm_cfg ?a)"
    "ac_on_changed (adm_cfg ?a)" "p \<in> set (adm_peers ?a)" "find_peer_locked ?a rid = None"
    using assms(4,5) by (auto simp: waiting_room_def tether_admission_create_def sender_admission_config_def with_defaults_def
        count_locked_def find_peer_locked_def has_peer_id_def)
  obtain adm q where q: "tether_admission_add_pending ck (Some ?a) (Some rid) (Some n) (Some []) = (Some adm, True, [q])"
    "peer_state q = TETHER_PEER_ACCEPTED" "peer_id q = rid"
    using add_pending_pinned [OF limit cfg(5,1-4) assms(2,3,6)] by metis
  obtain r w outs where "on_admission_changed xe (s\<lparr>sn_adm := Some adm\<rparr>) q = (s\<lparr>sn_adm := Some adm, sn_sessions := sn_sessions s @ [r]\<rparr>, outs)"
    "rs_peer_id r = rid" "concat (map sender_frames outs) = [FrText (accept_json rid)]"
    using sender_lets_in [of "s\<lparr>sn_adm := Some adm\<rparr>" sig xe q thesis] assms(6-9) q(2,3) by fastforce
  with that q(1) assms(1) show thesis by (simp add: with_admission_def)
qed

section \<open>Properties\<close>

definition net_start :: "'f tether_sender \<Rightarrow> (nat \<rightharpoonup> rx_session) \<Rightarrow> (string \<Rightarrow> room) \<Rightarrow> 'f network" where
  "net_start s rxs rooms = \<lparr>nt_sender = s, nt_receivers = rxs, nt_rooms = rooms, nt_place = Map.empty,
     nt_up = (\<lambda>k. []), nt_down = (\<lambda>k. []), nt_sent = [], nt_received = []\<rparr>"

text \<open>
  The steps of a handshake. The sender connects, says hello and gets the token; the receiver connects, says hello, and
  the request is shown; the host accepts, and the receiver learns of it; the offer goes one way, the answer the other.
\<close>

definition registration :: "string \<Rightarrow> string \<Rightarrow> sender_env \<Rightarrow> room_env \<Rightarrow> int \<Rightarrow> net_op list" where
  "registration t sid e env now = [NetJoin 0 t, NetSender (SnSocket e SigOpened), NetServe 0 env now sid, NetToSender e]"

definition request :: "nat \<Rightarrow> string \<Rightarrow> string \<Rightarrow> sender_env \<Rightarrow> room_env \<Rightarrow> int \<Rightarrow> net_op list" where
  "request k minted rid e env now =
     [NetJoin k minted, NetReceiver k (RxSocketEvent 0 0 SigOpened), NetServe k env now rid, NetToSender e]"

definition notice :: "nat \<Rightarrow> room_env \<Rightarrow> int \<Rightarrow> string \<Rightarrow> net_op list" where
  "notice k env now u = [NetServe 0 env now u, NetToReceiver k 0 0]"

definition exchange :: "nat \<Rightarrow> nat \<Rightarrow> string \<Rightarrow> string \<Rightarrow> sender_env \<Rightarrow> u64 \<Rightarrow> room_env \<Rightarrow> int \<Rightarrow> string \<Rightarrow> net_op list" where
  "exchange k i offer answer e n env now u =
     [NetSender (SnRtc e i (RtcLocalDescription offer ''offer'')), NetServe 0 env now u, NetToReceiver k 0 0] @
     [NetReceiver k (RxRtcEvent n (RtcLocalDescription answer ''answer'')), NetServe k env now u, NetToSender e]"

lemma net_start_fields [simp]:
  "quiet (net_start s rxs rooms)" "nt_sender (net_start s rxs rooms) = s" "nt_receivers (net_start s rxs rooms) = rxs"
  "nt_rooms (net_start s rxs rooms) = rooms" "nt_place (net_start s rxs rooms) = Map.empty"
  by (simp_all add: quiet_def net_start_def)

lemma net_run_appendI: "net_run a st = Some st1 \<Longrightarrow> net_run b st1 = Some st2 \<Longrightarrow> net_run (a @ b) st = Some st2"
  by (simp add: net_run_append)

text \<open>A new sender with the first request in its waiting room.\<close>

definition knocked :: "'f tether_sender \<Rightarrow> tether_sender_callbacks \<Rightarrow> tether_sender_config \<Rightarrow> string \<Rightarrow> int \<Rightarrow> nat \<Rightarrow> string \<Rightarrow> string \<Rightarrow>
   tether_peer \<Rightarrow> u64 \<Rightarrow> (nat \<rightharpoonup> rx_session) \<Rightarrow> rx_session \<Rightarrow> tether_signaling \<Rightarrow> 'f network \<Rightarrow> bool" where
  "knocked s cbs c t e k rid sid p at rxs x sig st \<longleftrightarrow>
     connected sig \<and>
     sn_sessions s = [] \<and>
     nt_sender st = s\<lparr>sn_sig := Some sig, sn_current_token := t, sn_adm := Some (waiting_room c p at)\<rparr> \<and>
     nt_up st = (\<lambda>k. []) \<and>
     nt_down st = (\<lambda>k. []) \<and>
     nt_place st 0 = Some t \<and>
     nt_place st k = Some t \<and>
     nt_receivers st = rxs(k \<mapsto> x\<lparr>rx_sig := (rx_sig x)\<lparr>sig_state := TETHER_SIG_STATE_CONNECTED\<rparr>\<rparr>) \<and>
     hosted t e (nt_rooms st t) \<and>
     seated k rid False (nt_rooms st t) \<and>
     ro_locked_until (nt_rooms st t) = 0 \<and>
     map pc_id (ro_peers (nt_rooms st t)) = [sid, rid] \<and>
     map pc_ws (ro_peers (nt_rooms st t)) = [0, k] \<and>
     (cb_on_pending cbs \<longrightarrow> CbPending rid ''Tether'' [] \<in> set (nt_sent st))"

lemma knockedD:
  assumes "knocked s cbs c t e k rid sid p at rxs x sig st"
  shows "connected sig"
    and "sn_sessions s = []"
    and "nt_sender st = s\<lparr>sn_sig := Some sig, sn_current_token := t, sn_adm := Some (waiting_room c p at)\<rparr>"
    and "nt_up st = (\<lambda>k. [])"
    and "nt_down st = (\<lambda>k. [])"
    and "nt_place st 0 = Some t"
    and "nt_place st k = Some t"
    and "nt_receivers st = rxs(k \<mapsto> x\<lparr>rx_sig := (rx_sig x)\<lparr>sig_state := TETHER_SIG_STATE_CONNECTED\<rparr>\<rparr>)"
    and "hosted t e (nt_rooms st t)"
    and "seated k rid False (nt_rooms st t)"
    and "ro_locked_until (nt_rooms st t) = 0"
    and "map pc_id (ro_peers (nt_rooms st t)) = [sid, rid]"
    and "map pc_ws (ro_peers (nt_rooms st t)) = [0, k]"
    and "cb_on_pending cbs \<longrightarrow> CbPending rid ''Tether'' [] \<in> set (nt_sent st)"
  using assms by (simp_all add: knocked_def)

lemma first_knock:
  fixes s :: "'f tether_sender"
  assumes "tether_sender_create e0 ws (Some c) cbs = (Some s, o1)" and "0 < ws"
    and "\<forall>first. first_source c = Some first \<longrightarrow> plain first"
    and "session_create_locked we pc ws' t = (Some x, o2)" and "0 < ws'" and "tether_token_is_well_formed (Some t)"
    and "st_expires store = None" and "rooms t = room_load store" and "k \<noteq> 0" and "rxs k = Some x"
    and "plain rid" and "rid \<noteq> sid" and "length rid < TETHER_PEER_ID_MAX" and "0 \<le> n1"
    and "n1 \<le> n0 + min (re_max_ttl env) (or_default (sd_token_ttl_minutes c) 30) * 60000"
    and "p = new_peer (ck_seen (ne_clock e2)) rid (Some ''Tether'') (Some [])"
  obtains st sig where
    "net_run (registration t sid e1 env n0 @ request k minted rid e2 env n1) (net_start s rxs rooms) = Some st"
    and "knocked s (case cbs of None \<Rightarrow> no_callbacks | Some b \<Rightarrow> b) c t
      (n0 + min (re_max_ttl env) (or_default (sd_token_ttl_minutes c) 30) * 60000) k rid sid p (ck_attempt (ne_clock e2)) rxs x sig st"
proof -
  let ?st = "net_start s rxs rooms"
  obtain sig first where s: "first_source c = Some first" "sn_sig s = Some sig" "connected sig"
    "sc_role (sig_cfg sig) = TETHER_ROLE_SENDER" "sig_token sig = None" "sig_display_name sig = strncpy_buf 256 first"
    "sc_token_ttl_minutes (sig_cfg sig) = or_default (sd_token_ttl_minutes c) 30"
    "sn_adm s = Some (tether_admission_create (sender_admission_config (with_defaults c)))" "sn_sessions s = []"
    "sn_cbs s = (case cbs of None \<Rightarrow> no_callbacks | Some b \<Rightarrow> b)"
    by (rule created_sender [OF assms(1,2)])
  note x = created_receiver [OF assms(4-6)]
  let ?e = "n0 + min (re_max_ttl env) (or_default (sd_token_ttl_minutes c) 30) * 60000"
  have p: "sn_sig (nt_sender ?st) = Some sig" "plain (sig_display_name sig)" "nt_rooms ?st t = room_load store"
    using s(1,2,6) assms(3,8) by simp_all
  obtain st1 where 1: "net_run (registration t sid e1 env n0) ?st = Some st1" "online t ?e st1"
    "\<exists>sig'. nt_sender st1 = (nt_sender ?st)\<lparr>sn_sig := Some sig', sn_current_token := t\<rparr>" "nt_receivers st1 = nt_receivers ?st"
    "\<forall>k. k \<noteq> 0 \<longrightarrow> nt_place st1 k = nt_place ?st k"
    "ro_locked_until (nt_rooms st1 t) = 0" "map pc_id (ro_peers (nt_rooms st1 t)) = [sid]" "map pc_ws (ro_peers (nt_rooms st1 t)) = [0]"
    by (rule registers [OF p(1) s(3,4) p(2) s(5) net_start_fields(1) p(3) assms(7,6), of e1 env n0 sid e1,
          unfolded s(7), folded registration_def])
  obtain sig1 where sig1: "nt_sender st1 = s\<lparr>sn_sig := Some sig1, sn_current_token := t\<rparr>" "connected sig1"
    using 1(2,3) by (auto simp: online_def)
  have new: "findPeerByWs k (nt_rooms st1 t) = None" "find (has_pc_id rid) (ro_peers (nt_rooms st1 t)) = None"
    using 1(7,8) assms(9,12) by (auto simp: findPeerByWs_def has_pc_id_def find_None_iff map_eq_Cons_conv)
  have adm1: "sn_adm (nt_sender st1) = Some (tether_admission_create (sender_admission_config (with_defaults c)))"
    using sig1 s(8) by simp
  note a = first_request(1) [OF adm1 assms(16,13), of "ne_session e2"]
  let ?s2 = "(nt_sender st1)\<lparr>sn_adm := Some (waiting_room c p (ck_attempt (ne_clock e2)))\<rparr>"
  have q: "plain ''Tether''" "length ''Tether'' < 128" "nt_receivers st1 k = Some x" "ro_locked_until (nt_rooms st1 t) \<le> n1"
    using 1(4,6) assms(10,14) by simp_all
  obtain st2 w where 2: "net_run (request k minted rid e2 env n1) st1 = Some st2" "nt_sender st2 = ?s2"
    "nt_up st2 = (\<lambda>k. [])(0 := concat (map sender_frames ([] :: 'f sender_out list)))" "nt_down st2 = (\<lambda>k. [])"
    "nt_place st2 = (nt_place st1)(k \<mapsto> t)"
    "nt_receivers st2 = (nt_receivers st1)(k \<mapsto> x\<lparr>rx_sig := (rx_sig x)\<lparr>sig_state := TETHER_SIG_STATE_CONNECTED\<rparr>\<rparr>)"
    "hosted t ?e (nt_rooms st2 t)" "seated k rid False (nt_rooms st2 t)"
    "ro_locked_until (nt_rooms st2 t) = ro_locked_until (nt_rooms st1 t)"
    "ro_peers (nt_rooms st2 t) = ro_peers (nt_rooms st1 t) @ [w]" "pc_id w = rid" "pc_ws w = k"
    "nt_sent st2 = nt_sent st1 @ [] @ (if cb_on_pending (sn_cbs ?s2) then [CbPending rid ''Tether'' []] else [])"
    by (rule knock_arrives [OF 1(2) assms(9) q(3) x(1-4) q(1,2) new assms(15) q(4) assms(6,11) a, of minted 0 0 env, folded request_def])
  have on: "nt_place st1 0 = Some t" using 1(2) by (simp add: online_def)
  show thesis
  proof (rule that [of st2 sig1])
    show "net_run (registration t sid e1 env n0 @ request k minted rid e2 env n1) ?st = Some st2"
      by (rule net_run_appendI [OF 1(1) 2(1)])
  qed (use 1 2 on sig1 s(9,10) assms(9) in \<open>simp add: knocked_def\<close>)
qed

text \<open>The same after the host has accepted, \<open>st0\<close> being the state before.\<close>

definition let_in :: "'f tether_sender \<Rightarrow> tether_sender_config \<Rightarrow> string \<Rightarrow> int \<Rightarrow> nat \<Rightarrow> string \<Rightarrow> bool \<Rightarrow> tether_peer \<Rightarrow> u64 \<Rightarrow>
   rx_session \<Rightarrow> tether_signaling \<Rightarrow> 'f receiver_session \<Rightarrow> tether_webrtc \<Rightarrow> 'f network \<Rightarrow> 'f network \<Rightarrow> bool" where
  "let_in s c t e k rid pin p at x sig r w st0 st \<longleftrightarrow>
     online t e st \<and>
     seated k rid True (nt_rooms st t) \<and>
     nt_sender st = s\<lparr>sn_sig := Some sig, sn_current_token := t,
      sn_adm := Some (waiting_room c (with_state TETHER_PEER_ACCEPTED pin p) at), sn_sessions := [r]\<rparr> \<and>
     rs_peer_id r = rid \<and>
     rs_wrtc r = Some w \<and>
     wc_on_local_sdp (wr_cfg w) \<and>
     nt_receivers st = (nt_receivers st0)(k \<mapsto> x\<lparr>rx_state := TETHER_RX_STATE_ACCEPTED\<rparr>) \<and>
     nt_place st = nt_place st0 \<and>
     ro_locked_until (nt_rooms st t) = ro_locked_until (nt_rooms st0 t) \<and>
     map pc_id (ro_peers (nt_rooms st t)) = map pc_id (ro_peers (nt_rooms st0 t)) \<and>
     map pc_ws (ro_peers (nt_rooms st t)) = map pc_ws (ro_peers (nt_rooms st0 t)) \<and>
     set (nt_sent st0) \<subseteq> set (nt_sent st)"

lemma let_inD:
  assumes "let_in s c t e k rid pin p at x sig r w st0 st"
  shows "online t e st"
    and "seated k rid True (nt_rooms st t)"
    and "nt_sender st = s\<lparr>sn_sig := Some sig, sn_current_token := t,
      sn_adm := Some (waiting_room c (with_state TETHER_PEER_ACCEPTED pin p) at), sn_sessions := [r]\<rparr>"
    and "rs_peer_id r = rid"
    and "rs_wrtc r = Some w"
    and "wc_on_local_sdp (wr_cfg w)"
    and "nt_receivers st = (nt_receivers st0)(k \<mapsto> x\<lparr>rx_state := TETHER_RX_STATE_ACCEPTED\<rparr>)"
    and "nt_place st = nt_place st0"
    and "ro_locked_until (nt_rooms st t) = ro_locked_until (nt_rooms st0 t)"
    and "map pc_id (ro_peers (nt_rooms st t)) = map pc_id (ro_peers (nt_rooms st0 t))"
    and "map pc_ws (ro_peers (nt_rooms st t)) = map pc_ws (ro_peers (nt_rooms st0 t))"
    and "set (nt_sent st0) \<subseteq> set (nt_sent st)"
  using assms by (simp_all add: let_in_def)

lemma first_acceptance:
  assumes "nt_sender st = s\<lparr>sn_sig := Some sig, sn_current_token := t, sn_adm := Some (waiting_room c p at)\<rparr>"
    and "sn_sessions s = []" and "connected sig"
    and "p = new_peer sn rid (Some ''Tether'') (Some [])" and "length rid < TETHER_PEER_ID_MAX" and "plain rid" and "rid \<noteq> []"
    and "0 < xe_pc xe" and "nt_up st = (\<lambda>k. [])" and "nt_down st = (\<lambda>k. [])" and "nt_place st 0 = Some t"
    and "hosted t e (nt_rooms st t)" and "seated k rid False (nt_rooms st t)" and "k \<noteq> 0" and "nt_receivers st k = Some x"
    and "connected (rx_sig x)" and "awaiting_offer x"
  obtains st' r w where "net_run (NetSender (SnAccept xe (Some rid) pin) # notice k env n u) st = Some st'"
    and "let_in s c t e k rid pin p at x sig r w st st'"
proof -
  have s: "sn_sig (nt_sender st) = Some sig" "sn_adm (nt_sender st) = Some (waiting_room c p at)" using assms(1) by simp_all
  have a: "find_peer_locked (waiting_room c p at) rid = Some p" "ac_on_changed (adm_cfg (waiting_room c p at))"
    using assms(4,5) by (simp_all add: waiting_room_def new_peer_def find_peer_locked_def has_peer_id_def strncpy_buf_fits
        tether_admission_create_def sender_admission_config_def)
  obtain st1 r w b where 1: "net_call (NetSender (SnAccept xe (Some rid) pin)) st = Some st1"
    "nt_sender st1 = (nt_sender st)\<lparr>sn_adm := Some b, sn_sessions := sn_sessions (nt_sender st) @ [r]\<rparr>"
    "b = (waiting_room c p at)\<lparr>adm_peers := update_first (has_peer_id rid) (with_state TETHER_PEER_ACCEPTED pin)
        (adm_peers (waiting_room c p at))\<rparr>"
    "rs_peer_id r = rid" "rs_wrtc r = Some w" "wc_on_local_sdp (wr_cfg w)"
    "nt_up st1 = (\<lambda>k. [])(0 := [FrText (accept_json rid)])" "nt_down st1 = nt_down st" "nt_rooms st1 = nt_rooms st"
    "nt_place st1 = nt_place st" "nt_receivers st1 = nt_receivers st" "set (nt_sent st) \<subseteq> set (nt_sent st1)"
    by (rule host_acceptance [OF s(1) assms(3) s(2) a assms(8,5,9), of pin])
  have b: "b = waiting_room c (with_state TETHER_PEER_ACCEPTED pin p) at"
    using 1(3) a(1) by (simp add: waiting_room_def find_peer_locked_def split: if_splits)
  have q: "nt_place st1 0 = Some t" "hosted t e (nt_rooms st1 t)" "seated k rid False (nt_rooms st1 t)" "nt_down st1 = (\<lambda>k. [])"
    "nt_receivers st1 k = Some x" "sn_sig (nt_sender st1) = Some sig"
    using assms 1(2,8-11) by simp_all
  obtain st2 where 2: "net_run (notice k env n u) st1 = Some st2" "online t e st2" "seated k rid True (nt_rooms st2 t)"
    "nt_sender st2 = nt_sender st1" "nt_sent st2 = nt_sent st1"
    "nt_receivers st2 = (nt_receivers st1)(k \<mapsto> x\<lparr>rx_state := TETHER_RX_STATE_ACCEPTED\<rparr>)" "nt_place st2 = nt_place st1"
    "ro_locked_until (nt_rooms st2 t) = ro_locked_until (nt_rooms st1 t)"
    "map pc_id (ro_peers (nt_rooms st2 t)) = map pc_id (ro_peers (nt_rooms st1 t))"
    "map pc_ws (ro_peers (nt_rooms st2 t)) = map pc_ws (ro_peers (nt_rooms st1 t))"
    by (rule acceptance_travels [OF q(1-3) 1(7) q(4) assms(14) q(5) assms(16,17,6,7) q(6) assms(3), of env n u 0 0, folded notice_def])
  show thesis
  proof (rule that [of st2 r w])
    show "net_run (NetSender (SnAccept xe (Some rid) pin) # notice k env n u) st = Some st2"
      using 1(1) 2(1) by (simp del: net_call.simps)
  qed (use 1 2 b assms(1,2) in \<open>simp add: let_in_def\<close>)
qed

text \<open>Both descriptions travel.\<close>

lemma descriptions_exchanged:
  assumes "online t e st" and "seated k rid True (nt_rooms st t)" and "nt_place st k = Some t" and "k \<noteq> 0"
    and "nt_receivers st k = Some x" and "connected (rx_sig x)" and "awaiting_offer x" and "wc_on_local_sdp (wr_cfg (rx_wrtc x))"
    and "plain rid" and "rid \<noteq> []" and "sn_sessions (nt_sender st) = [r]" and "rs_peer_id r = rid" and "rs_wrtc r = Some w"
    and "wc_on_local_sdp (wr_cfg w)" and "sdp_plain offer" and "sdp_plain answer" and "CHR 0x22 \<notin> set answer"
  obtains st' x' where "net_run (exchange k 0 offer answer e3 n env now u) st = Some st'"
    and "sn_current_token (nt_sender st') = sn_current_token (nt_sender st)" and "set (nt_sent st) \<subseteq> set (nt_sent st')"
    and "nt_receivers st' k = Some x'" and "rx_state x' = TETHER_RX_STATE_NEGOTIATING"
    and "(k, RxWr (RtcSetRemoteDescription (wr_pc (rx_wrtc x)) offer ''offer'')) \<in> set (nt_received st')"
    and "SnWr rid (RtcSetRemoteDescription (wr_pc w) (sdp_escape answer) ''answer'') \<in> set (nt_sent st')"
proof -
  have i: "0 < length (sn_sessions (nt_sender st))" "sn_sessions (nt_sender st) ! 0 = r" using assms(11) by simp_all
  obtain st1 where 1: "net_run [NetSender (SnRtc e3 0 (RtcLocalDescription offer ''offer'')), NetServe 0 env now u, NetToReceiver k 0 0] st = Some st1"
    "online t e st1" "nt_rooms st1 = nt_rooms st" "nt_place st1 = nt_place st"
    "nt_sender st1 = (nt_sender st)\<lparr>sn_sessions :=
      (sn_sessions (nt_sender st))[0 := r\<lparr>rs_wrtc := Some (fst (on_local_description offer ''offer'' w))\<rparr>]\<rparr>"
    "nt_receivers st1 = (nt_receivers st)(k \<mapsto> x\<lparr>rx_state := TETHER_RX_STATE_NEGOTIATING\<rparr>)"
    "(k, RxWr (RtcSetRemoteDescription (wr_pc (rx_wrtc x)) offer ''offer'')) \<in> set (nt_received st1)"
    "set (nt_sent st) \<subseteq> set (nt_sent st1)"
    by (rule offer_travels [OF assms(1,2,4-7,9,10,15) i assms(12-14), of e3 env now u 0 0])
  let ?x = "x\<lparr>rx_state := TETHER_RX_STATE_NEGOTIATING\<rparr>" and ?w = "fst (on_local_description offer ''offer'' w)"
  let ?r = "r\<lparr>rs_wrtc := Some ?w\<rparr>"
  have w: "wr_pc ?w = wr_pc w" by (simp add: on_local_description_def Let_def split: option.splits)
  have p: "seated k rid True (nt_rooms st1 t)" "nt_receivers st1 k = Some ?x" "connected (rx_sig ?x)"
    "wc_on_local_sdp (wr_cfg (rx_wrtc ?x))" "find_session_locked (nt_sender st1) rid = Some ?r" "rs_wrtc ?r = Some ?w"
    "nt_place st1 k = Some t"
    using assms 1(3-6) by (simp_all add: find_session_locked_def has_peer_def)
  obtain st2 where 2: "net_run [NetReceiver k (RxRtcEvent n (RtcLocalDescription answer ''answer'')), NetServe k env now u, NetToSender e3] st1 = Some st2"
    "online t e st2" "nt_rooms st2 = nt_rooms st1" "nt_place st2 = nt_place st1" "nt_sender st2 = nt_sender st1"
    "nt_receivers st2 = (nt_receivers st1)(k \<mapsto> ?x\<lparr>rx_wrtc := fst (on_local_description answer ''answer'' (rx_wrtc ?x))\<rparr>)"
    "SnWr rid (RtcSetRemoteDescription (wr_pc ?w) (sdp_escape answer) ''answer'') \<in> set (nt_sent st2)"
    "set (nt_received st1) \<subseteq> set (nt_received st2)" "set (nt_sent st1) \<subseteq> set (nt_sent st2)"
    by (rule answer_travels [OF 1(2) p(1) assms(4) p(2-4) assms(9,16,17) p(5-7), of n env now u e3])
  have "net_run (exchange k 0 offer answer e3 n env now u) st = Some st2"
    unfolding exchange_def by (rule net_run_appendI [OF 1(1) 2(1)])
  then show thesis by (rule that) (use 1 2 w in auto)
qed

text \<open>C1: The handshake works: when a sender is created, whose first source has a name without quotes, backslashes and control
  characters, and a session for the token the edge mints for it, and the token's room is new, then connecting both, the
  receiver within the time the token lives, the host's acceptance, for which a peer connection can be made, and a description
  from each peer connection, that of the receiver without quotes, lead, with nothing else happening, to this: the sender
  owns the token, the host has been shown the request of the receiver with its name and no fingerprint, the
  receiver's peer connection has been given exactly the offer the sender's connection described, and the
  session's connection the receiver's answer, but with its JSON escapes.\<close>

theorem handshake:
  assumes "tether_sender_create e0 ws (Some c) (Some cbs) = (Some s, o1)" and "0 < ws" and "cb_on_pending cbs"
    and "\<forall>first. first_source c = Some first \<longrightarrow> plain first"
    and "session_create_locked we pc ws' t = (Some x, o2)" and "0 < ws'" and "tether_token_is_well_formed (Some t)"
    and "st_expires store = None" and "rooms t = room_load store" and "k \<noteq> 0" and "rxs k = Some x"
    and "plain rid" and "rid \<noteq> []" and "rid \<noteq> sid" and "length rid < TETHER_PEER_ID_MAX"
    and "0 \<le> n1" and "n1 \<le> n0 + min (re_max_ttl env) (or_default (sd_token_ttl_minutes c) 30) * 60000"
    and "0 < xe_pc xe" and "sdp_plain offer" and "sdp_plain answer" and "CHR 0x22 \<notin> set answer"
  shows "\<exists>st x'. net_run (registration t sid e1 env n0 @ request k minted rid e2 env n1 @
      (NetSender (SnAccept xe (Some rid) pin) # notice k env n2 u) @ exchange k 0 offer answer e3 n env n3 u)
      (net_start s rxs rooms) = Some st \<and>
    tether_sender_current_token (Some (nt_sender st)) = Some t \<and> CbPending rid ''Tether'' [] \<in> set (nt_sent st) \<and>
    nt_receivers st k = Some x' \<and> rx_state x' = TETHER_RX_STATE_NEGOTIATING \<and>
    (k, RxWr (RtcSetRemoteDescription (wr_pc (rx_wrtc x)) offer ''offer'')) \<in> set (nt_received st) \<and>
    (\<exists>h. SnWr rid (RtcSetRemoteDescription h (sdp_escape answer) ''answer'') \<in> set (nt_sent st))"
proof -
  let ?e = "n0 + min (re_max_ttl env) (or_default (sd_token_ttl_minutes c) 30) * 60000"
  define p where "p = new_peer (ck_seen (ne_clock e2)) rid (Some ''Tether'') (Some [])"
  note x = created_receiver [OF assms(5-7)]
  let ?x1 = "x\<lparr>rx_sig := (rx_sig x)\<lparr>sig_state := TETHER_SIG_STATE_CONNECTED\<rparr>\<rparr>"
  obtain st1 sig where k: "net_run (registration t sid e1 env n0 @ request k minted rid e2 env n1) (net_start s rxs rooms) = Some st1"
    "knocked s (case Some cbs of None \<Rightarrow> no_callbacks | Some b \<Rightarrow> b) c t ?e k rid sid p (ck_attempt (ne_clock e2)) rxs x sig st1"
    by (rule first_knock [where rxs = rxs and rooms = rooms and k = k and t = t, OF assms(1,2,4-12,14-17) p_def, of e1 minted])
  note 1 = k(1) knockedD [OF k(2)]
  have x1: "nt_receivers st1 k = Some ?x1" "connected (rx_sig ?x1)" "awaiting_offer ?x1" using 1(9) x by (simp_all add: awaiting_offer_def)
  obtain st2 r w where l: "net_run (NetSender (SnAccept xe (Some rid) pin) # notice k env n2 u) st1 = Some st2"
    "let_in s c t ?e k rid pin p (ck_attempt (ne_clock e2)) ?x1 sig r w st1 st2"
    by (rule first_acceptance [OF 1(4,3,2) p_def assms(15,12,13,18) 1(5-7,10,11) assms(10) x1, of pin env n2 u])
  note 2 = l(1) let_inD [OF l(2)]
  let ?x2 = "?x1\<lparr>rx_state := TETHER_RX_STATE_ACCEPTED\<rparr>"
  have x2: "nt_place st2 k = Some t" "nt_receivers st2 k = Some ?x2" "connected (rx_sig ?x2)" "awaiting_offer ?x2"
    "wc_on_local_sdp (wr_cfg (rx_wrtc ?x2))" "sn_sessions (nt_sender st2) = [r]"
    using 1(8) 2(4,8,9) x by (simp_all add: awaiting_offer_def)
  obtain st3 x3 where 3: "net_run (exchange k 0 offer answer e3 n env n3 u) st2 = Some st3"
    "sn_current_token (nt_sender st3) = sn_current_token (nt_sender st2)" "set (nt_sent st2) \<subseteq> set (nt_sent st3)"
    "nt_receivers st3 k = Some x3" "rx_state x3 = TETHER_RX_STATE_NEGOTIATING"
    "(k, RxWr (RtcSetRemoteDescription (wr_pc (rx_wrtc ?x2)) offer ''offer'')) \<in> set (nt_received st3)"
    "SnWr rid (RtcSetRemoteDescription (wr_pc w) (sdp_escape answer) ''answer'') \<in> set (nt_sent st3)"
    by (rule descriptions_exchanged [OF 2(2,3) x2(1) assms(10) x2(2-5) assms(12,13) x2(6) 2(5-7) assms(19-21), of e3 n env n3 u])
  from net_run_appendI [OF 1(1) net_run_appendI [OF 2(1) 3(1)]]
  have "net_run (registration t sid e1 env n0 @ request k minted rid e2 env n1 @
      (NetSender (SnAccept xe (Some rid) pin) # notice k env n2 u) @ exchange k 0 offer answer e3 n env n3 u)
      (net_start s rxs rooms) = Some st3" by (simp only: append_assoc)
  moreover have "CbPending rid ''Tether'' [] \<in> set (nt_sent st3)" using 1(15) assms(3) 2(13) 3(3) by auto
  moreover have "tether_sender_current_token (Some (nt_sender st3)) = Some t"
    using 2(4) 3(2) token_facts(3) [OF assms(7)] by (simp add: tether_sender_current_token_def)
  ultimately show ?thesis using 3(4-7) by auto
qed

definition demo_server :: room_env where
  "demo_server = \<lparr>re_max_ttl = 1440, re_window = 60, re_max_attempts = 10, re_lockout = 300, re_number = (\<lambda>_. None)\<rparr>"

definition unused_room :: room where
  "unused_room = room_load \<lparr>st_token = None, st_expires = None, st_reusable = None\<rparr>"

abbreviation demo_token :: string where
  "demo_token \<equiv> ''TTHR-ABCD-EFGH-JKMN''"

lemma demo_token_ok: "tether_token_is_well_formed (Some demo_token)"
  by code_simp

lemma demo_plain: "\<forall>first. first_source demo_sender_cfg = Some first \<longrightarrow> plain first"
  by (simp add: first_source_def demo_sender_cfg_def valid_names_def)

lemma handshake_witness:
  "\<exists>st x'. net_run (registration demo_token ''s1'' demo_sender_env demo_server 1000 @ request 1 [] ''r1'' demo_sender_env demo_server 2000 @
      (NetSender (SnAccept demo_session_env (Some ''r1'') True) # notice 1 demo_server 3000 ''u'') @
      exchange 1 0 ''v=0'' ''v=1'' demo_sender_env 0 demo_server 4000 ''u'')
      (net_start demo_sender [1 \<mapsto> demo_rx] (\<lambda>t. unused_room)) = Some st \<and>
    nt_receivers st 1 = Some x' \<and> rx_state x' = TETHER_RX_STATE_NEGOTIATING \<and>
    (1, RxWr (RtcSetRemoteDescription 1 ''v=0'' ''offer'')) \<in> set (nt_received st)"
proof -
  obtain o1 o2 where o: "tether_sender_create demo_sender_env 7 (Some demo_sender_cfg) (Some all_callbacks) = (Some demo_sender, o1)"
    "session_create_locked demo_env 1 7 demo_token = (Some demo_rx, o2)"
    using demo_sender_created demo_created by blast
  have "\<exists>st x'. net_run (registration demo_token ''s1'' demo_sender_env demo_server 1000 @ request 1 [] ''r1'' demo_sender_env demo_server 2000 @
      (NetSender (SnAccept demo_session_env (Some ''r1'') True) # notice 1 demo_server 3000 ''u'') @
      exchange 1 0 ''v=0'' ''v=1'' demo_sender_env 0 demo_server 4000 ''u'')
      (net_start demo_sender [1 \<mapsto> demo_rx] (\<lambda>t. unused_room)) = Some st \<and>
    tether_sender_current_token (Some (nt_sender st)) = Some demo_token \<and> CbPending ''r1'' ''Tether'' [] \<in> set (nt_sent st) \<and>
    nt_receivers st 1 = Some x' \<and> rx_state x' = TETHER_RX_STATE_NEGOTIATING \<and>
    (1, RxWr (RtcSetRemoteDescription (wr_pc (rx_wrtc demo_rx)) ''v=0'' ''offer'')) \<in> set (nt_received st) \<and>
    (\<exists>h. SnWr ''r1'' (RtcSetRemoteDescription h (sdp_escape ''v=1'') ''answer'') \<in> set (nt_sent st))"
    by (rule handshake [OF o(1) _ _ demo_plain o(2) _ demo_token_ok _ unused_room_def])
       (simp_all add: all_callbacks_def demo_server_def demo_sender_cfg_def or_default_def demo_session_env_def sdp_plain_def
         TETHER_PEER_ID_MAX_def)
  then show ?thesis by (auto simp: demo_rx_def)
qed

text \<open>C12: One acceptance is enough for everybody: the buttons and the commands of the plugin pin whom they accept, and requests
  carry no fingerprint; so after the host has accepted one receiver, a second one that connects with the token, within its
  time and below the cap of receivers, is let in by the sender and told so by the room, without any act of the host,
  and gets a session of its own.\<close>

theorem one_acceptance_admits_all:
  assumes "tether_sender_create e0 ws (Some c) cbs = (Some s, o1)" and "0 < ws"
    and "\<forall>first. first_source c = Some first \<longrightarrow> plain first"
    and "session_create_locked we pc ws' t = (Some x, o2)" and "0 < ws'" and "tether_token_is_well_formed (Some t)"
    and "session_create_locked we' pc' ws'' t = (Some y, o3)" and "0 < ws''"
    and "st_expires store = None" and "rooms t = room_load store" and "k \<noteq> 0" and "l \<noteq> 0" and "k \<noteq> l"
    and "plain rid" and "rid \<noteq> []" and "rid \<noteq> sid" and "length rid < TETHER_PEER_ID_MAX"
    and "plain rid'" and "rid' \<notin> {[], sid, rid}" and "length rid' < TETHER_PEER_ID_MAX"
    and "0 \<le> n1" and "n1 \<le> n0 + min (re_max_ttl env) (or_default (sd_token_ttl_minutes c) 30) * 60000"
    and "0 \<le> n3" and "n3 \<le> n0 + min (re_max_ttl env) (or_default (sd_token_ttl_minutes c) 30) * 60000"
    and "0 < xe_pc xe" and "0 < xe_pc (ne_session e3)" and "1 < or_default (sd_max_receivers c) 4"
  shows "\<exists>st y' p. net_run (registration t sid e1 env n0 @ request k minted rid e2 env n1 @
      (NetSender (SnAccept xe (Some rid) True) # notice k env n2 u) @ request l minted rid' e3 env n3 @ notice l env n4 u)
      (net_start s [k \<mapsto> x, l \<mapsto> y] rooms) = Some st \<and>
    nt_receivers st l = Some y' \<and> rx_state y' = TETHER_RX_STATE_ACCEPTED \<and>
    findPeerByWs l (nt_rooms st t) = Some p \<and> pc_accepted p \<and> map rs_peer_id (sn_sessions (nt_sender st)) = [rid, rid']"
proof -
  let ?e = "n0 + min (re_max_ttl env) (or_default (sd_token_ttl_minutes c) 30) * 60000" and ?rxs = "[k \<mapsto> x, l \<mapsto> y]"
  define p where "p = new_peer (ck_seen (ne_clock e2)) rid (Some ''Tether'') (Some [])"
  define p' where "p' = with_state TETHER_PEER_ACCEPTED True p"
  note x = created_receiver [OF assms(4-6)] and y = created_receiver [OF assms(7,8,6)]
  have kx: "?rxs k = Some x" using assms(13) by simp
  let ?x1 = "x\<lparr>rx_sig := (rx_sig x)\<lparr>sig_state := TETHER_SIG_STATE_CONNECTED\<rparr>\<rparr>"
  obtain st1 sig where k: "net_run (registration t sid e1 env n0 @ request k minted rid e2 env n1) (net_start s ?rxs rooms) = Some st1"
    "knocked s (case cbs of None \<Rightarrow> no_callbacks | Some b \<Rightarrow> b) c t ?e k rid sid p (ck_attempt (ne_clock e2)) ?rxs x sig st1"
    by (rule first_knock [where rxs = ?rxs and rooms = rooms and k = k and t = t,
          OF assms(1-6,9-11) kx assms(14,16,17,21,22) p_def, of e1 minted])
  note 1 = k(1) knockedD [OF k(2)]
  have x1: "nt_receivers st1 k = Some ?x1" "connected (rx_sig ?x1)" "awaiting_offer ?x1" using 1(9) x by (simp_all add: awaiting_offer_def)
  obtain st2 r w where l: "net_run (NetSender (SnAccept xe (Some rid) True) # notice k env n2 u) st1 = Some st2"
    "let_in s c t ?e k rid True p (ck_attempt (ne_clock e2)) ?x1 sig r w st1 st2"
    by (rule first_acceptance [OF 1(4,3,2) p_def assms(17,14,15,25) 1(5-7,10,11) assms(11) x1, of True env n2 u])
  note 2 = l(1) let_inD [OF l(2)]
  have s2: "sn_adm (nt_sender st2) = Some (waiting_room c p' (ck_attempt (ne_clock e2)))" "sn_sig (nt_sender st2) = Some sig"
    "sn_sessions (nt_sender st2) = [r]" using 2(4) by (simp_all add: p'_def)
  have p': "peer_pinned p'" "peer_fingerprint p' = []" "peer_id p' \<noteq> rid'"
    using assms(17,19) by (auto simp: p'_def p_def with_state_def new_peer_def copy_field_def strncpy_buf_fits strncpy_buf_def)
  obtain adm r' outs where a: "with_admission (ne_session e3) (tether_admission_add_pending (ne_clock e3) (sn_adm (nt_sender st2))
      (Some rid') (Some ''Tether'') (Some [])) (nt_sender st2) =
      ((nt_sender st2)\<lparr>sn_adm := adm, sn_sessions := sn_sessions (nt_sender st2) @ [r']\<rparr>, outs)" "rs_peer_id r' = rid'"
    "concat (map sender_frames outs) = [FrText (accept_json rid')]"
    by (rule next_request [OF s2(1) p' assms(27,20) s2(2) 1(2) assms(26)])
  have q: "nt_receivers st2 l = Some y" "findPeerByWs l (nt_rooms st2 t) = None" "find (has_pc_id rid') (ro_peers (nt_rooms st2 t)) = None"
    "ro_locked_until (nt_rooms st2 t) \<le> n3" "plain ''Tether''" "length ''Tether'' < 128"
    using 1(9,12-14) 2(8,10-12) assms(12,13,19,23)
    by (auto simp: findPeerByWs_def has_pc_id_def find_None_iff map_eq_Cons_conv)
  let ?y1 = "y\<lparr>rx_sig := (rx_sig y)\<lparr>sig_state := TETHER_SIG_STATE_CONNECTED\<rparr>\<rparr>"
  let ?s3 = "(nt_sender st2)\<lparr>sn_adm := adm, sn_sessions := sn_sessions (nt_sender st2) @ [r']\<rparr>"
  obtain st3 v where 3: "net_run (request l minted rid' e3 env n3) st2 = Some st3" "nt_sender st3 = ?s3"
    "nt_up st3 = (\<lambda>k. [])(0 := concat (map sender_frames outs))" "nt_down st3 = (\<lambda>k. [])"
    "nt_place st3 = (nt_place st2)(l \<mapsto> t)" "nt_receivers st3 = (nt_receivers st2)(l \<mapsto> ?y1)"
    "hosted t ?e (nt_rooms st3 t)" "seated l rid' False (nt_rooms st3 t)"
    "ro_locked_until (nt_rooms st3 t) = ro_locked_until (nt_rooms st2 t)"
    "ro_peers (nt_rooms st3 t) = ro_peers (nt_rooms st2 t) @ [v]" "pc_id v = rid'" "pc_ws v = l"
    "nt_sent st3 = nt_sent st2 @ outs @ (if cb_on_pending (sn_cbs ?s3) then [CbPending rid' ''Tether'' []] else [])"
    by (rule knock_arrives [OF 2(2) assms(12) q(1) y(1-4) q(5,6,2,3) assms(24) q(4) assms(6,18) a(1), of minted 0 0 env, folded request_def])
  have z: "nt_place st3 0 = Some t" "nt_receivers st3 l = Some ?y1" "connected (rx_sig ?y1)" "awaiting_offer ?y1"
    "sn_sig (nt_sender st3) = Some sig" "rid' \<noteq> []"
    using 1(7) 2(9) 3(2,5,6) s2(2) y assms(12,19) by (simp_all add: awaiting_offer_def)
  obtain st4 where 4: "net_run (notice l env n4 u) st3 = Some st4" "online t ?e st4" "seated l rid' True (nt_rooms st4 t)"
    "nt_sender st4 = nt_sender st3" "nt_sent st4 = nt_sent st3"
    "nt_receivers st4 = (nt_receivers st3)(l \<mapsto> ?y1\<lparr>rx_state := TETHER_RX_STATE_ACCEPTED\<rparr>)" "nt_place st4 = nt_place st3"
    "ro_locked_until (nt_rooms st4 t) = ro_locked_until (nt_rooms st3 t)"
    "map pc_id (ro_peers (nt_rooms st4 t)) = map pc_id (ro_peers (nt_rooms st3 t))"
    "map pc_ws (ro_peers (nt_rooms st4 t)) = map pc_ws (ro_peers (nt_rooms st3 t))"
    by (rule acceptance_travels [OF z(1) 3(7,8) 3(3) [unfolded a(3)] 3(4) assms(12) z(2-4) assms(18) z(6,5) 1(2), of env n4 u 0 0, folded notice_def])
  from net_run_appendI [OF 1(1) net_run_appendI [OF 2(1) net_run_appendI [OF 3(1) 4(1)]]]
  have "net_run (registration t sid e1 env n0 @ request k minted rid e2 env n1 @
      (NetSender (SnAccept xe (Some rid) True) # notice k env n2 u) @ request l minted rid' e3 env n3 @ notice l env n4 u)
      (net_start s ?rxs rooms) = Some st4" by (simp only: append_assoc)
  moreover have "map rs_peer_id (sn_sessions (nt_sender st4)) = [rid, rid']" using 2(5) 3(2) 4(4) a(2) s2(3) by simp
  moreover obtain pc where "findPeerByWs l (nt_rooms st4 t) = Some pc" "pc_accepted pc" using 4(3) by (auto simp: seated_def)
  ultimately show ?thesis using 4(6) by auto
qed

lemma one_acceptance_admits_all_witness:
  "\<exists>st y' p. net_run (registration demo_token ''s1'' demo_sender_env demo_server 1000 @ request 1 [] ''r1'' demo_sender_env demo_server 2000 @
      (NetSender (SnAccept demo_session_env (Some ''r1'') True) # notice 1 demo_server 3000 ''u'') @
      request 2 [] ''r2'' demo_sender_env demo_server 4000 @ notice 2 demo_server 5000 ''u'')
      (net_start demo_sender [1 \<mapsto> demo_rx, 2 \<mapsto> demo_rx] (\<lambda>t. unused_room)) = Some st \<and>
    nt_receivers st 2 = Some y' \<and> rx_state y' = TETHER_RX_STATE_ACCEPTED \<and>
    findPeerByWs 2 (nt_rooms st demo_token) = Some p \<and> pc_accepted p \<and> map rs_peer_id (sn_sessions (nt_sender st)) = [''r1'', ''r2'']"
proof -
  obtain o1 o2 where o: "tether_sender_create demo_sender_env 7 (Some demo_sender_cfg) (Some all_callbacks) = (Some demo_sender, o1)"
    "session_create_locked demo_env 1 7 demo_token = (Some demo_rx, o2)"
    using demo_sender_created demo_created by blast
  show ?thesis
    by (rule one_acceptance_admits_all [OF o(1) _ demo_plain o(2) _ demo_token_ok o(2) _ _ unused_room_def])
       (simp_all add: demo_server_def demo_sender_cfg_def or_default_def demo_session_env_def demo_sender_env_def TETHER_PEER_ID_MAX_def)
qed

text \<open>A rejection.\<close>

lemma sender_rejects:
  assumes "sn_sig s = Some sig" and "connected sig" and "sn_adm s = Some a" and "find_peer_locked a rid = Some q"
    and "ac_on_changed (adm_cfg a)"
  shows "sn_call (SnReject xe (Some rid)) s =
    Some (s\<lparr>sn_adm := Some (a\<lparr>adm_peers := update_first (has_peer_id rid) (with_state TETHER_PEER_REJECTED False) (adm_peers a)\<rparr>)\<rparr>,
      SnSig (WsSend (sig_ws sig) (reject_json rid)) # (if cb_on_peer_gone (sn_cbs s) then [CbPeerGone rid] else []))"
proof -
  have "peer_id (with_state TETHER_PEER_REJECTED False q) = rid" "peer_state (with_state TETHER_PEER_REJECTED False q) = TETHER_PEER_REJECTED"
    using assms(4) by (auto simp: find_peer_locked_def has_peer_id_def with_state_def dest: find_SomeD)
  with assms show ?thesis
    by (simp add: tether_sender_reject_def tether_admission_reject_def set_peer_state_def with_admission_def on_admission_changed_def
        Admission.on_changed_def tether_signaling_reject_def send_raw_def connected_def Let_def)
qed

lemma room_rejects:
  assumes "hosted t e r" and "seated k rid acc r" and "rid \<noteq> []" and "map pc_ws (ro_peers r) = [0, k]" and "k \<noteq> 0"
    and "map pc_id (ro_peers r) = [sid, rid]" and "rid \<noteq> sid"
  shows "\<exists>r'. onMessage env now u 0 (Some [(''type'', JsStr ''reject''), (''peer_id'', JsStr rid)]) r =
      (r', [RoomSend k [(''type'', JsStr ''rejected'')], RoomClose k 1000 ''rejected'']) \<and> findPeerByWs k r' = None"
proof -
  obtain s where s: "findPeerByWs 0 r = Some s" "pc_role s = TETHER_ROLE_SENDER" by (rule hostedE [OF assms(1)])
  obtain p where p: "find (has_pc_id rid) (ro_peers r) = Some p" "pc_ws p = k" "pc_id p = rid" by (rule seatedE [OF assms(2)])
  obtain a b where "ro_peers r = [a, b]" "pc_ws a = 0" "pc_id a = sid" "pc_id b = rid"
    using assms(4,6) by (auto simp: map_eq_Cons_conv)
  then have "findPeerByWs k (delete_peer rid r) = None"
    using assms(5,7) by (simp add: delete_peer_def findPeerByWs_def has_pc_id_def)
  with s p assms(3) show ?thesis by (simp add: onMessage_def handleReject_def get_peer_def)
qed

lemma receiver_gets_rejected:
  assumes "connected (rx_sig x)" and "sig_state (rx_sig x) = TETHER_SIG_STATE_CONNECTED"
  shows "rx_session_step (RxSocketEvent rc rc2 (arrival (FrText (json_stringify [(''type'', JsStr ''rejected'')])))) (x, []) = (x, [])"
    and "rx_session_step (RxSocketEvent rc rc2 (arrival FrClosed)) (x, []) =
      (x\<lparr>rx_sig := (rx_sig x)\<lparr>sig_state := TETHER_SIG_STATE_DISCONNECTED\<rparr>\<rparr>, [])"
proof -
  have ok: "js_ok [(''type'', JsStr ''rejected'')]" by simp
  note find = json_find_object [OF js_ok_object_ok [OF ok]]
  have "on_message (rx_sig x) (Some (json_stringify [(''type'', JsStr ''rejected'')])) n =
      (rx_sig x, [Emit TETHER_SIG_EVT_REQUEST_REJECTED None None])" if "n < 0" for n
    using assms(1) that
    by (simp add: on_message_def handle_message_def json_stringify_def find lookup_printed [OF ok] emit_def connected_def)
  then show "rx_session_step (RxSocketEvent rc rc2 (arrival (FrText (json_stringify [(''type'', JsStr ''rejected'')])))) (x, []) = (x, [])"
    by (simp add: rx_socket_event_def)
  show "rx_session_step (RxSocketEvent rc rc2 (arrival FrClosed)) (x, []) =
      (x\<lparr>rx_sig := (rx_sig x)\<lparr>sig_state := TETHER_SIG_STATE_DISCONNECTED\<rparr>\<rparr>, [])"
    using assms by (simp add: rx_socket_event_def on_closed_def Signaling.set_state_def emit_def connected_def)
qed

text \<open>C22: Whom the host rejects goes on waiting: the room tells the receiver and closes its connection, but the session takes
  no notice of either; it shows that it awaits acceptance, the room no longer knows it, and it does not connect
  again, since its client still holds the handle of the closed socket.\<close>

theorem rejected_receiver_keeps_waiting:
  fixes s :: "'f tether_sender"
  assumes "tether_sender_create e0 ws (Some c) cbs = (Some s, o1)" and "0 < ws"
    and "\<forall>first. first_source c = Some first \<longrightarrow> plain first"
    and "session_create_locked we pc ws' t = (Some x, o2)" and "0 < ws'" and "tether_token_is_well_formed (Some t)"
    and "st_expires store = None" and "rooms t = room_load store" and "k \<noteq> 0" and "rxs k = Some x"
    and "plain rid" and "rid \<noteq> []" and "rid \<noteq> sid" and "length rid < TETHER_PEER_ID_MAX"
    and "0 \<le> n1" and "n1 \<le> n0 + min (re_max_ttl env) (or_default (sd_token_ttl_minutes c) 30) * 60000"
  shows "\<exists>st x'. net_run (registration t sid e1 env n0 @ request k minted rid e2 env n1 @
      [NetSender (SnReject xe (Some rid)), NetServe 0 env n2 u, NetToReceiver k 0 0, NetToReceiver k 0 0])
      (net_start s rxs rooms) = Some st \<and>
    nt_receivers st k = Some x' \<and> rx_state x' = TETHER_RX_STATE_AWAITING_ACCEPT \<and>
    sig_state (rx_sig x') = TETHER_SIG_STATE_DISCONNECTED \<and> findPeerByWs k (nt_rooms st t) = None \<and>
    (\<forall>h. sig_call (SigConnect h) (rx_sig x') = (rx_sig x', []))"
proof -
  let ?e = "n0 + min (re_max_ttl env) (or_default (sd_token_ttl_minutes c) 30) * 60000"
  define p where "p = new_peer (ck_seen (ne_clock e2)) rid (Some ''Tether'') (Some [])"
  note x = created_receiver [OF assms(4-6)]
  let ?x1 = "x\<lparr>rx_sig := (rx_sig x)\<lparr>sig_state := TETHER_SIG_STATE_CONNECTED\<rparr>\<rparr>"
  obtain st1 sig where k: "net_run (registration t sid e1 env n0 @ request k minted rid e2 env n1) (net_start s rxs rooms) = Some st1"
    "knocked s (case cbs of None \<Rightarrow> no_callbacks | Some b \<Rightarrow> b) c t ?e k rid sid p (ck_attempt (ne_clock e2)) rxs x sig st1"
    by (rule first_knock [where rxs = rxs and rooms = rooms and k = k and t = t, OF assms(1-11,13-16) p_def, of e1 minted])
  note 1 = k(1) knockedD [OF k(2)]
  let ?s = "nt_sender st1" and ?a = "waiting_room c p (ck_attempt (ne_clock e2))"
  have s1: "sn_sig ?s = Some sig" "sn_adm ?s = Some ?a" "find_peer_locked ?a rid = Some p" "ac_on_changed (adm_cfg ?a)"
    using 1(4) assms(14) by (simp_all add: waiting_room_def p_def new_peer_def find_peer_locked_def has_peer_id_def strncpy_buf_fits
        tether_admission_create_def sender_admission_config_def)
  note rej = sender_rejects [OF s1(1) 1(2) s1(2-4), of xe]
  define s2 where "s2 = ?s\<lparr>sn_adm := Some (?a\<lparr>adm_peers := update_first (has_peer_id rid) (with_state TETHER_PEER_REJECTED False) (adm_peers ?a)\<rparr>)\<rparr>"
  define out :: "'f sender_out list" where "out = (if cb_on_peer_gone (sn_cbs ?s) then [CbPeerGone rid] else [])"
  define st2 where "st2 = st1\<lparr>nt_sender := s2, nt_up := (\<lambda>k. [])(0 := [FrText (reject_json rid)]),
      nt_sent := nt_sent st1 @ SnSig (WsSend (sig_ws sig) (reject_json rid)) # out\<rparr>"
  have 2: "net_call (NetSender (SnReject xe (Some rid))) st1 = Some st2"
    using rej 1(5) by (simp add: sender_acts_def st2_def out_def flip: s2_def del: sn_call.simps)
  let ?rej = "[(''type'', JsStr ''reject''), (''peer_id'', JsStr rid)]" and ?told = "[(''type'', JsStr ''rejected'')]"
  obtain r where r: "onMessage env n2 u 0 (Some ?rej) (nt_rooms st1 t) = (r, [RoomSend k ?told, RoomClose k 1000 ''rejected''])"
    "findPeerByWs k r = None"
    using room_rejects [OF 1(10,11) assms(12) 1(14) assms(9) 1(13) assms(13), of env n2 u] by blast
  define st3 where "st3 = st2\<lparr>nt_rooms := (nt_rooms st1)(t := r), nt_up := \<lambda>k. [], nt_down := (\<lambda>k. [])(k := [FrText (json_stringify ?told), FrClosed])\<rparr>"
  have "serves 0 env n2 u st2 = Some (st2\<lparr>nt_rooms := (nt_rooms st2)(t := r), nt_up := (nt_up st2)(0 := []),
      nt_down := fold server_send [RoomSend k ?told, RoomClose k 1000 ''rejected''] (nt_down st2)\<rparr>)"
    by (rule serves_object) (use 1(7) r(1) plugin_messages(2) [OF assms(11)] in \<open>simp_all add: st2_def\<close>)
  then have 3: "net_call (NetServe 0 env n2 u) st2 = Some st3" using 1(6) by (simp add: st3_def st2_def)
  have x1: "connected (rx_sig ?x1)" "sig_state (rx_sig ?x1) = TETHER_SIG_STATE_CONNECTED" using x(1) by simp_all
  note told = receiver_gets_rejected [OF x1, of 0 0]
  let ?x2 = "?x1\<lparr>rx_sig := (rx_sig ?x1)\<lparr>sig_state := TETHER_SIG_STATE_DISCONNECTED\<rparr>\<rparr>"
  define st4 where "st4 = st3\<lparr>nt_down := (\<lambda>k. [])(k := [FrClosed])\<rparr>"
  have 4: "net_call (NetToReceiver k 0 0) st3 = Some st4"
    using told(1) 1(9) assms(9) by (simp add: st4_def st3_def st2_def receiver_acts_def fun_upd_idem del: rx_session_step.simps arrival.simps)
  define st5 where "st5 = st4\<lparr>nt_down := \<lambda>k. [], nt_receivers := rxs(k \<mapsto> ?x2)\<rparr>"
  have 5: "net_call (NetToReceiver k 0 0) st4 = Some st5"
    using told(2) 1(9) assms(9) by (simp add: st5_def st4_def st3_def st2_def receiver_acts_def del: rx_session_step.simps arrival.simps)
  have "net_run [NetSender (SnReject xe (Some rid)), NetServe 0 env n2 u, NetToReceiver k 0 0, NetToReceiver k 0 0] st1 = Some st5"
    using 2 3 4 5 by (simp del: net_call.simps)
  from net_run_appendI [OF 1(1) this]
  have "net_run (registration t sid e1 env n0 @ request k minted rid e2 env n1 @
      [NetSender (SnReject xe (Some rid)), NetServe 0 env n2 u, NetToReceiver k 0 0, NetToReceiver k 0 0])
      (net_start s rxs rooms) = Some st5" by (simp only: append_assoc)
  moreover have "sig_call (SigConnect h) (rx_sig ?x2) = (rx_sig ?x2, [])" for h
    using x(1) by (simp add: tether_signaling_connect_def connected_def)
  ultimately show ?thesis using r(2) x(7) by (simp add: st5_def st4_def st3_def)
qed

lemma rejected_receiver_keeps_waiting_witness:
  "\<exists>st x'. net_run (registration demo_token ''s1'' demo_sender_env demo_server 1000 @ request 1 [] ''r1'' demo_sender_env demo_server 2000 @
      [NetSender (SnReject demo_session_env (Some ''r1'')), NetServe 0 demo_server 3000 ''u'', NetToReceiver 1 0 0, NetToReceiver 1 0 0])
      (net_start demo_sender [1 \<mapsto> demo_rx] (\<lambda>t. unused_room)) = Some st \<and>
    nt_receivers st 1 = Some x' \<and> rx_state x' = TETHER_RX_STATE_AWAITING_ACCEPT \<and>
    sig_state (rx_sig x') = TETHER_SIG_STATE_DISCONNECTED \<and> findPeerByWs 1 (nt_rooms st demo_token) = None \<and>
    (\<forall>h. sig_call (SigConnect h) (rx_sig x') = (rx_sig x', []))"
proof -
  obtain o1 o2 where o: "tether_sender_create demo_sender_env 7 (Some demo_sender_cfg) (Some all_callbacks) = (Some demo_sender, o1)"
    "session_create_locked demo_env 1 7 demo_token = (Some demo_rx, o2)"
    using demo_sender_created demo_created by blast
  show ?thesis
    by (rule rejected_receiver_keeps_waiting [OF o(1) _ demo_plain o(2) _ demo_token_ok _ unused_room_def])
       (simp_all add: demo_server_def demo_sender_cfg_def or_default_def TETHER_PEER_ID_MAX_def)
qed

end
