(* ===== verification/Windows.thy ===== *)
theory Windows
  imports Interfaces
begin

text \<open>
  The three windows as objects of Qt: \<open>hub-dialog.cpp\<close>, and how \<open>sender-dialog.cpp\<close> and \<open>receive-dialog.cpp\<close> open
  and close theirs. Each file has one \<open>QPointer\<close>, which becomes null when the window it points to is deleted; a
  window that is closed is hidden at once and deleted later by the event loop (\<open>WA_DeleteOnClose\<close>). What the windows
  do is in \<open>Sender_Dialog\<close> and \<open>Receive_Dialog\<close>.
\<close>

section \<open>State\<close>

datatype window_kind = HubWindow | ShareWindow | ReceiveWindow

record gui_window =
  gw_kind :: window_kind
  gw_visible :: bool
  gw_closed :: bool

text \<open>The windows by their addresses; the pointers \<open>g_hub\<close> and twice \<open>g_dialog\<close>; the calls queued for the GUI thread.\<close>

record gui =
  gu_windows :: "(nat \<times> gui_window) list"
  gu_next :: nat
  gu_pointer :: "window_kind \<Rightarrow> nat option"
  gu_posted :: "window_kind list"

definition gui_start :: gui where
  "gui_start = \<lparr>gu_windows = [], gu_next = 0, gu_pointer = (\<lambda>k. None), gu_posted = []\<rparr>"

definition set_window :: "nat \<Rightarrow> (gui_window \<Rightarrow> gui_window) \<Rightarrow> gui \<Rightarrow> gui" where
  "set_window i f g = g\<lparr>gu_windows := map (\<lambda>(j, w). (j, if j = i then f w else w)) (gu_windows g)\<rparr>"

section \<open>Operations\<close>

text \<open>The lambda \<open>open\<close> of each file.\<close>

definition make_dialog :: "window_kind \<Rightarrow> gui \<Rightarrow> gui" where
  "make_dialog k g =
     (if gu_pointer g k = None
      then g\<lparr>gu_windows := gu_windows g @ [(gu_next g, \<lparr>gw_kind = k, gw_visible = False, gw_closed = False\<rparr>)],
             gu_next := gu_next g + 1, gu_pointer := (gu_pointer g)(k \<mapsto> gu_next g)\<rparr>
      else g)"

definition open_dialog :: "window_kind \<Rightarrow> gui \<Rightarrow> gui" where
  "open_dialog k g =
     (let g1 = make_dialog k g in
      case gu_pointer g1 k of None \<Rightarrow> g1 | Some i \<Rightarrow> set_window i (\<lambda>w. w\<lparr>gw_visible := True\<rparr>) g1)"

text \<open>The three functions that open a window differ in its kind only; \<open>gui_thread\<close> says whether the caller is on the GUI
  thread.\<close>

definition tether_open_dialog :: "bool \<Rightarrow> window_kind \<Rightarrow> gui \<Rightarrow> gui" where
  "tether_open_dialog gui_thread k g = (if gui_thread then open_dialog k g else g\<lparr>gu_posted := gu_posted g @ [k]\<rparr>)"

definition tether_open_hub_dialog :: "bool \<Rightarrow> gui \<Rightarrow> gui" where
  "tether_open_hub_dialog gui_thread g = tether_open_dialog gui_thread HubWindow g"

definition tether_open_sender_dialog :: "bool \<Rightarrow> gui \<Rightarrow> gui" where
  "tether_open_sender_dialog gui_thread g = tether_open_dialog gui_thread ShareWindow g"

definition tether_open_receive_dialog :: "bool \<Rightarrow> gui \<Rightarrow> gui" where
  "tether_open_receive_dialog gui_thread g = tether_open_dialog gui_thread ReceiveWindow g"

lemmas opening_simps = tether_open_hub_dialog_def tether_open_sender_dialog_def tether_open_receive_dialog_def tether_open_dialog_def

definition run_posted :: "gui \<Rightarrow> gui" where
  "run_posted g = (case gu_posted g of [] \<Rightarrow> g | k # ks \<Rightarrow> open_dialog k (g\<lparr>gu_posted := ks\<rparr>))"

text \<open>\<open>QWidget::close\<close>, and what the event loop does later.\<close>

definition close_window :: "nat \<Rightarrow> gui \<Rightarrow> gui" where
  "close_window i g = set_window i (\<lambda>w. w\<lparr>gw_visible := False, gw_closed := True\<rparr>) g"

definition delete_closed :: "gui \<Rightarrow> gui" where
  "delete_closed g =
     (let ws = filter (\<lambda>(i, w). \<not> gw_closed w) (gu_windows g) in
      g\<lparr>gu_windows := ws,
        gu_pointer := \<lambda>k. case gu_pointer g k of None \<Rightarrow> None | Some i \<Rightarrow> if i \<in> fst ` set ws then Some i else None\<rparr>)"

text \<open>\<open>tether_close_sender_dialog\<close>, \<open>tether_close_receive_dialog\<close>, and the hub's part of \<open>tether_close_all_dialogs\<close>.\<close>

definition tether_close_dialog :: "window_kind \<Rightarrow> gui \<Rightarrow> gui" where
  "tether_close_dialog k g =
     (case gu_pointer g k of None \<Rightarrow> g | Some i \<Rightarrow> (close_window i g)\<lparr>gu_pointer := (gu_pointer g)(k := None)\<rparr>)"

definition close_all_dialogs :: "gui \<Rightarrow> gui" where
  "close_all_dialogs g = tether_close_dialog ReceiveWindow (tether_close_dialog ShareWindow (tether_close_dialog HubWindow g))"

text \<open>A click on one of the two buttons of the hub \<open>i\<close>.\<close>

definition shareBtn_clicked :: "nat \<Rightarrow> gui \<Rightarrow> gui" where
  "shareBtn_clicked i g = close_window i (tether_open_sender_dialog True g)"

definition receiveBtn_clicked :: "nat \<Rightarrow> gui \<Rightarrow> gui" where
  "receiveBtn_clicked i g = close_window i (tether_open_receive_dialog True g)"

section \<open>The windows as a machine\<close>

datatype gui_event =
    GuiOpen bool window_kind
  | GuiPosted
  | GuiShare nat
  | GuiReceive nat
  | GuiClose nat
  | GuiCloseAll
  | GuiDelete

fun gui_step :: "gui_event \<Rightarrow> gui \<Rightarrow> gui" where
  "gui_step (GuiOpen gui_thread HubWindow) g = tether_open_hub_dialog gui_thread g"
| "gui_step (GuiOpen gui_thread ShareWindow) g = tether_open_sender_dialog gui_thread g"
| "gui_step (GuiOpen gui_thread ReceiveWindow) g = tether_open_receive_dialog gui_thread g"
| "gui_step GuiPosted g = run_posted g"
| "gui_step (GuiShare i) g = shareBtn_clicked i g"
| "gui_step (GuiReceive i) g = receiveBtn_clicked i g"
| "gui_step (GuiClose i) g = close_window i g"
| "gui_step GuiCloseAll g = close_all_dialogs g"
| "gui_step GuiDelete g = delete_closed g"

text \<open>Addresses are used once, a pointer points to a window of its kind, and a window that is not closed is the one
  its pointer points to.\<close>

definition gui_ok :: "gui \<Rightarrow> bool" where
  "gui_ok g \<longleftrightarrow> distinct (map fst (gu_windows g)) \<and> (\<forall>i \<in> fst ` set (gu_windows g). i < gu_next g) \<and>
     (\<forall>k i. gu_pointer g k = Some i \<longrightarrow> (\<exists>w. (i, w) \<in> set (gu_windows g) \<and> gw_kind w = k)) \<and>
     (\<forall>(i, w) \<in> set (gu_windows g). \<not> gw_closed w \<longrightarrow> gu_pointer g (gw_kind w) = Some i)"

lemma gui_ok_pointer: "gui_ok g \<Longrightarrow> gu_pointer g k = Some i \<Longrightarrow> \<exists>w. (i, w) \<in> set (gu_windows g) \<and> gw_kind w = k"
  unfolding gui_ok_def by blast

lemma gui_start_ok: "gui_ok gui_start"
  by (simp add: gui_ok_def gui_start_def)

lemma set_window_fields [simp]:
  "gu_next (set_window i f g) = gu_next g" "gu_pointer (set_window i f g) = gu_pointer g" "gu_posted (set_window i f g) = gu_posted g"
  "map fst (gu_windows (set_window i f g)) = map fst (gu_windows g)"
  by (simp_all add: set_window_def split_beta comp_def)

lemma set_window_mem:
  "(j, v) \<in> set (gu_windows (set_window i f g)) \<longleftrightarrow> (\<exists>w. (j, w) \<in> set (gu_windows g) \<and> v = (if j = i then f w else w))"
proof -
  have "(j, v) \<in> (\<lambda>(j, w). (j, if j = i then f w else w)) ` ws \<longleftrightarrow> (\<exists>w. (j, w) \<in> ws \<and> v = (if j = i then f w else w))" for ws
    by force
  then show ?thesis by (simp add: set_window_def)
qed

lemma set_window_keys [simp]: "fst ` set (gu_windows (set_window i f g)) = fst ` set (gu_windows g)"
  by (metis set_map set_window_fields(4))

lemma set_window_ok:
  assumes "gui_ok g" and "\<And>w. gw_kind (f w) = gw_kind w" and "\<And>w. gw_closed w \<Longrightarrow> gw_closed (f w)"
  shows "gui_ok (set_window i f g)"
proof -
  have "\<exists>v. (j, v) \<in> set (gu_windows (set_window i f g)) \<and> gw_kind v = k" if "gu_pointer g k = Some j" for k j
    using assms(1,2) that unfolding gui_ok_def set_window_mem by metis
  moreover have "gu_pointer g (gw_kind v) = Some j" if "(j, v) \<in> set (gu_windows (set_window i f g))" "\<not> gw_closed v" for j v
    using assms that unfolding gui_ok_def set_window_mem by (metis (mono_tags, lifting) case_prodD)
  ultimately show ?thesis using assms(1) by (auto simp: gui_ok_def)
qed

lemma make_dialog_ok: "gui_ok g \<Longrightarrow> gui_ok (make_dialog k g)"
proof (cases "gu_pointer g k")
  case None
  assume ok: "gui_ok g"
  have "gw_kind w \<noteq> k" if "(i, w) \<in> set (gu_windows g)" "\<not> gw_closed w" for i w
    using ok that None by (force simp: gui_ok_def)
  with ok None show ?thesis by (fastforce simp: gui_ok_def make_dialog_def)
qed (simp add: make_dialog_def)

lemma open_dialog_ok: "gui_ok g \<Longrightarrow> gui_ok (open_dialog k g)"
  using make_dialog_ok [of g k] by (auto simp: open_dialog_def Let_def intro!: set_window_ok split: option.splits)

lemma close_window_ok: "gui_ok g \<Longrightarrow> gui_ok (close_window i g)"
  by (auto simp: close_window_def intro!: set_window_ok)

lemma forget_pointer_ok:
  assumes "gui_ok g" and "\<And>w. (i, w) \<in> set (gu_windows g) \<Longrightarrow> gw_closed w" and "gu_pointer g k = Some i"
  shows "gui_ok (g\<lparr>gu_pointer := (gu_pointer g)(k := None)\<rparr>)"
  using assms by (fastforce simp: gui_ok_def split: if_splits)

lemma tether_close_dialog_ok: "gui_ok g \<Longrightarrow> gui_ok (tether_close_dialog k g)"
proof (cases "gu_pointer g k")
  case (Some i)
  assume "gui_ok g"
  then have "gui_ok (close_window i g)" by (rule close_window_ok)
  moreover have "gw_closed w" if "(i, w) \<in> set (gu_windows (close_window i g))" for w
    using that by (auto simp: close_window_def set_window_mem)
  moreover have "gu_pointer (close_window i g) = gu_pointer g" by (simp add: close_window_def)
  ultimately have "gui_ok ((close_window i g)\<lparr>gu_pointer := (gu_pointer (close_window i g))(k := None)\<rparr>)"
    using Some by (intro forget_pointer_ok) auto
  with Some \<open>gu_pointer (close_window i g) = gu_pointer g\<close> show ?thesis by (simp add: tether_close_dialog_def)
qed (simp add: tether_close_dialog_def)

lemma delete_closed_fields:
  "gu_windows (delete_closed g) = filter (\<lambda>(i, w). \<not> gw_closed w) (gu_windows g)" "gu_next (delete_closed g) = gu_next g"
  "gu_pointer (delete_closed g) k = Some i \<longleftrightarrow> gu_pointer g k = Some i \<and> (\<exists>w. (i, w) \<in> set (gu_windows g) \<and> \<not> gw_closed w)"
  "gu_posted (delete_closed g) = gu_posted g"
  by (auto simp: delete_closed_def Let_def image_iff split: option.splits if_splits)

lemma delete_closed_ok:
  assumes "gui_ok g"
  shows "gui_ok (delete_closed g)"
proof -
  have same: "w = w'" if "(i, w) \<in> set (gu_windows g)" "(i, w') \<in> set (gu_windows g)" for i w w'
    using assms that by (auto simp: gui_ok_def dest: eq_key_imp_eq_value)
  have "\<exists>w. (i, w) \<in> set (gu_windows (delete_closed g)) \<and> gw_kind w = k" if "gu_pointer (delete_closed g) k = Some i" for k i
  proof -
    from that obtain w where w: "(i, w) \<in> set (gu_windows g)" "\<not> gw_closed w" "gu_pointer g k = Some i"
      by (auto simp: delete_closed_fields)
    then obtain w' where "(i, w') \<in> set (gu_windows g)" "gw_kind w' = k" using gui_ok_pointer [OF assms] by blast
    with same w show ?thesis by (auto simp: delete_closed_fields)
  qed
  moreover have "gu_pointer (delete_closed g) (gw_kind w) = Some i" if "(i, w) \<in> set (gu_windows (delete_closed g))" for i w
    using assms that by (auto simp: gui_ok_def delete_closed_fields)
  moreover have "distinct (map fst (gu_windows (delete_closed g)))" "\<forall>i \<in> fst ` set (gu_windows (delete_closed g)). i < gu_next (delete_closed g)"
    using assms by (auto simp: gui_ok_def delete_closed_fields distinct_map_filter)
  ultimately show ?thesis unfolding gui_ok_def by blast
qed

lemma posted_ok [simp]: "gui_ok (g\<lparr>gu_posted := ks\<rparr>) = gui_ok g"
  by (simp add: gui_ok_def)

interpretation windows: invariant_machine gui_step gui_ok
proof
  fix g ev
  assume "gui_ok g"
  then show "gui_ok (gui_step ev g)"
    by (cases "(ev, g)" rule: gui_step.cases)
      (auto simp: opening_simps run_posted_def shareBtn_clicked_def receiveBtn_clicked_def close_all_dialogs_def
        intro!: open_dialog_ok close_window_ok tether_close_dialog_ok delete_closed_ok split: list.splits)
qed

section \<open>Properties\<close>

text \<open>C34: One window of each kind: whatever is opened, clicked, closed and deleted, in any order and from any thread, no two windows
  of one kind are open at the same time, and once a window is open its pointer points to it.\<close>

theorem one_window_of_each_kind:
  assumes "fold gui_step evs gui_start = g" and "(i, v) \<in> set (gu_windows g)" and "(j, w) \<in> set (gu_windows g)"
    and "\<not> gw_closed v" and "\<not> gw_closed w" and "gw_kind v = gw_kind w"
  shows "i = j \<and> v = w \<and> gu_pointer g (gw_kind v) = Some i"
proof -
  have ok: "gui_ok g" using windows.run_inv [OF gui_start_ok, of evs] assms(1) by simp
  with assms(2-6) have "gu_pointer g (gw_kind v) = Some i" "gu_pointer g (gw_kind w) = Some j" by (auto simp: gui_ok_def)
  with assms(2,3,6) ok show ?thesis by (auto simp: gui_ok_def dest: eq_key_imp_eq_value)
qed

lemma one_window_of_each_kind_witness:
  "gu_pointer (fold gui_step [GuiOpen True HubWindow, GuiShare 0, GuiDelete, GuiOpen True ShareWindow] gui_start) ShareWindow =
    Some 1"
proof -
  let ?g = "fold gui_step [GuiOpen True HubWindow, GuiShare 0, GuiDelete, GuiOpen True ShareWindow] gui_start"
  define w where "w = \<lparr>gw_kind = ShareWindow, gw_visible = True, gw_closed = False\<rparr>"
  have "gu_windows ?g = [(1, w)]" unfolding w_def by code_simp
  then have "(1, w) \<in> set (gu_windows ?g)" by simp
  from one_window_of_each_kind [OF refl this this] show ?thesis by (simp add: w_def)
qed

text \<open>A request to open a window that comes between its closing and its deletion is lost: it shows the window that is about
  to be deleted, and after the deletion no window of that kind is left.\<close>

theorem open_while_closing_is_lost:
  assumes "fold gui_step evs gui_start = g" and "gu_pointer g k = Some i"
  shows "\<exists>w. (i, w) \<in> set (gu_windows (fold gui_step [GuiClose i, GuiOpen True k] g)) \<and> gw_visible w \<and> gw_closed w \<and>
    (\<forall>(j, v) \<in> set (gu_windows (fold gui_step [GuiClose i, GuiOpen True k, GuiDelete] g)). gw_kind v \<noteq> k)"
proof -
  have ok: "gui_ok g" using windows.run_inv [OF gui_start_ok, of evs] assms(1) by simp
  obtain w where w: "(i, w) \<in> set (gu_windows g)" "gw_kind w = k" using gui_ok_pointer [OF ok assms(2)] by blast
  let ?g1 = "close_window i g" and ?g2 = "open_dialog k (close_window i g)"
  have g2: "?g2 = set_window i (\<lambda>w. w\<lparr>gw_visible := True\<rparr>) ?g1"
    using assms(2) by (simp add: open_dialog_def make_dialog_def close_window_def)
  have "(i, w\<lparr>gw_visible := True, gw_closed := True\<rparr>) \<in> set (gu_windows ?g2)"
    using w unfolding g2 set_window_mem by (force simp: close_window_def set_window_mem)
  moreover have "gw_kind v \<noteq> k" if v: "(j, v) \<in> set (gu_windows (delete_closed ?g2))" for j v
  proof
    assume k: "gw_kind v = k"
    have ok2: "gui_ok ?g2" using ok by (intro open_dialog_ok close_window_ok)
    have "\<not> gw_closed v" "(j, v) \<in> set (gu_windows ?g2)" using v by (auto simp: delete_closed_fields)
    with ok2 k have "gu_pointer ?g2 k = Some j" by (auto simp: gui_ok_def)
    then have "j = i" using assms(2) unfolding g2 by (simp add: close_window_def)
    with \<open>(j, v) \<in> set (gu_windows ?g2)\<close> \<open>\<not> gw_closed v\<close> show False
      unfolding g2 set_window_mem by (auto simp: close_window_def set_window_mem)
  qed
  ultimately show ?thesis by (cases k) (force simp: opening_simps)+
qed

lemma open_while_closing_is_lost_witness:
  "\<forall>(j, v) \<in> set (gu_windows (fold gui_step [GuiClose 0, GuiOpen True HubWindow, GuiDelete]
      (fold gui_step [GuiOpen True HubWindow] gui_start))). gw_kind v \<noteq> HubWindow"
proof -
  have "gu_pointer (fold gui_step [GuiOpen True HubWindow] gui_start) HubWindow = Some 0" by code_simp
  from open_while_closing_is_lost [OF refl this] show ?thesis by blast
qed

text \<open>Closing everything closes everything: afterwards every pointer is null and every window is hidden and about to go.\<close>

theorem close_all_closes_all:
  assumes "fold gui_step evs gui_start = g" and "(i, w) \<in> set (gu_windows (close_all_dialogs g))"
  shows "gw_closed w \<and> (\<forall>k. gu_pointer (close_all_dialogs g) k = None)"
proof -
  have "gui_ok g" using windows.run_inv [OF gui_start_ok, of evs] assms(1) by simp
  then have ok: "gui_ok (close_all_dialogs g)"
    by (auto simp: close_all_dialogs_def intro!: tether_close_dialog_ok)
  have gone: "gu_pointer (tether_close_dialog k h) k = None" "gu_pointer h k' = None \<Longrightarrow> gu_pointer (tether_close_dialog k h) k' = None" for k k' h
    by (auto simp: tether_close_dialog_def close_window_def split: option.splits)
  have "gu_pointer (close_all_dialogs g) k = None" for k
    unfolding close_all_dialogs_def by (cases k) (simp_all add: gone)
  with ok assms(2) show ?thesis by (force simp: gui_ok_def)
qed

lemma close_all_closes_all_witness:
  "\<forall>k. gu_pointer (close_all_dialogs (fold gui_step [GuiOpen True HubWindow, GuiOpen False ShareWindow, GuiPosted] gui_start)) k = None"
proof -
  define w where "w = \<lparr>gw_kind = HubWindow, gw_visible = False, gw_closed = True\<rparr>"
  let ?g = "fold gui_step [GuiOpen True HubWindow, GuiOpen False ShareWindow, GuiPosted] gui_start"
  have "(0, w) \<in> set (gu_windows (close_all_dialogs ?g))" unfolding w_def by code_simp
  from close_all_closes_all [OF refl this] show ?thesis by blast
qed

end
