(* ===== verification/Peer_Buttons.thy ===== *)
theory Peer_Buttons
  imports Sender_Dialog
begin

text \<open>
  \<open>src/sender-dialog.cpp\<close>: the current row of the list of peers, the three buttons that act on it, and the button
  that copies the token. The rest of the window is \<open>Sender_Dialog\<close>. Which row becomes current is Qt's and the user's
  choice, so it is an argument: the row a click selects, and the row Qt picks when the current one is removed. Qt
  reports a change with \<open>currentRowChanged\<close>; whether it does so when the list is cleared is left open.
\<close>

section \<open>State\<close>

text \<open>\<open>pw_timers\<close> counts the single shots of 1500 ms under way; \<open>pw_copied\<close> says that the button reads \<open>Token.Copied\<close>.\<close>

record 'f peer_window =
  pw_dialog :: "'f sender_dialog"
  pw_current :: "nat option"
  pw_accept :: bool
  pw_reject :: bool
  pw_disconnect :: bool
  pw_clipboard :: "string option"
  pw_copied :: bool
  pw_timers :: nat

definition new_peer_window :: "'f sender_dialog \<Rightarrow> 'f peer_window" where
  "new_peer_window d = \<lparr>pw_dialog = d, pw_current = None, pw_accept = False, pw_reject = False, pw_disconnect = False,
     pw_clipboard = None, pw_copied = False, pw_timers = 0\<rparr>"

text \<open>\<open>peersList_->item (row)\<close>, null when there is no such row.\<close>

definition item_at :: "nat option \<Rightarrow> 'f sender_dialog \<Rightarrow> peer_row option" where
  "item_at row d = (case row of None \<Rightarrow> None | Some k \<Rightarrow> if k < length (dl_peers d) then Some (dl_peers d ! k) else None)"

definition currentItem :: "'f peer_window \<Rightarrow> peer_row option" where
  "currentItem w = item_at (pw_current w) (pw_dialog w)"

definition is_connected :: "peer_row \<Rightarrow> bool" where
  "is_connected r \<longleftrightarrow> pr_state r = TETHER_SENDER_STATE_PEER_CONNECTED"

text \<open>The row an argument names, when there is one.\<close>

definition valid_row :: "nat option \<Rightarrow> 'f sender_dialog \<Rightarrow> nat option" where
  "valid_row row d = (if item_at row d = None then None else row)"

section \<open>The current row\<close>

text \<open>The slot of \<open>currentRowChanged\<close>; Qt has made the row current.\<close>

definition currentRowChanged :: "nat option \<Rightarrow> 'f peer_window \<Rightarrow> 'f peer_window" where
  "currentRowChanged row w =
     (let it = item_at row (pw_dialog w);
          connected = (case it of None \<Rightarrow> False | Some r \<Rightarrow> is_connected r);
          pending = (it \<noteq> None \<and> \<not> connected) in
      w\<lparr>pw_current := row, pw_accept := pending, pw_reject := pending, pw_disconnect := connected\<rparr>)"

text \<open>The end of \<open>postPeerState\<close>.\<close>

definition update_buttons :: "'f peer_window \<Rightarrow> 'f peer_window" where
  "update_buttons w =
     (case currentItem w of
        None \<Rightarrow> w
      | Some r \<Rightarrow> w\<lparr>pw_accept := \<not> is_connected r, pw_reject := \<not> is_connected r, pw_disconnect := is_connected r\<rparr>)"

fun row_of :: "string \<Rightarrow> peer_row list \<Rightarrow> nat option" where
  "row_of i [] = None"
| "row_of i (r # rs) = (if is_row i r then Some 0 else map_option Suc (row_of i rs))"

text \<open>Qt's current row after row \<open>k\<close> has been taken out, \<open>pick\<close> being the row it picks in place of a current row.\<close>

definition row_after :: "nat \<Rightarrow> nat option \<Rightarrow> nat option \<Rightarrow> nat option" where
  "row_after k pick row =
     (case row of None \<Rightarrow> None | Some c \<Rightarrow> if k < c then Some (c - 1) else if k = c then pick else Some c)"

text \<open>A queued callback, with the buttons.\<close>

definition window_post :: "nat option \<Rightarrow> dialog_post \<Rightarrow> 'f peer_window \<Rightarrow> 'f peer_window" where
  "window_post pick p w =
     (let w1 = w\<lparr>pw_dialog := handle_post p (pw_dialog w)\<rparr> in
      case p of
        PostState i st \<Rightarrow> update_buttons w1
      | PostGone i \<Rightarrow>
          (case row_of i (dl_peers (pw_dialog w)) of
             None \<Rightarrow> w1
           | Some k \<Rightarrow>
               let row = row_after k (valid_row pick (pw_dialog w1)) (pw_current w) in
               if pw_current w = Some k then currentRowChanged row w1 else w1\<lparr>pw_current := row\<rparr>)
      | _ \<Rightarrow> w1)"

definition window_next :: "nat option \<Rightarrow> 'f peer_window \<Rightarrow> 'f peer_window" where
  "window_next pick w =
     (case dl_queue (pw_dialog w) of
        [] \<Rightarrow> w
      | p # ps \<Rightarrow> window_post pick p (w\<lparr>pw_dialog := (pw_dialog w)\<lparr>dl_queue := ps\<rparr>\<rparr>))"

definition window_revoke :: "sender_env \<Rightarrow> bool \<Rightarrow> 'f peer_window \<Rightarrow> 'f peer_window" where
  "window_revoke env told w =
     (let w1 = w\<lparr>pw_dialog := onRevokeToken env (pw_dialog w), pw_current := None\<rparr> in
      if told then currentRowChanged None w1 else w1)"

section \<open>Clicks\<close>

text \<open>A button that is not enabled is not clicked.\<close>

definition click :: "bool \<Rightarrow> (string option \<Rightarrow> 'f sender_dialog \<Rightarrow> 'f sender_dialog) \<Rightarrow> 'f peer_window \<Rightarrow> 'f peer_window" where
  "click enabled slot w =
     (if enabled then w\<lparr>pw_dialog := slot (map_option pr_id (currentItem w)) (pw_dialog w)\<rparr> else w)"

definition copy_clicked :: "'f peer_window \<Rightarrow> 'f peer_window" where
  "copy_clicked w =
     (if dl_copy_enabled (pw_dialog w)
      then w\<lparr>pw_clipboard := Some (dl_token_field (pw_dialog w)), pw_copied := True, pw_timers := pw_timers w + 1\<rparr>
      else w)"

definition copy_timeout :: "'f peer_window \<Rightarrow> 'f peer_window" where
  "copy_timeout w = (if pw_timers w = 0 then w else w\<lparr>pw_copied := False, pw_timers := pw_timers w - 1\<rparr>)"

datatype peer_op =
    PwRow "nat option"
  | PwNext "nat option"
  | PwAccept session_env
  | PwReject session_env
  | PwDisconnect session_env
  | PwRevoke sender_env bool
  | PwGenerate sender_env int
  | PwEvents "sn_op list"
  | PwCopy
  | PwTimeout

fun peer_step :: "peer_op \<Rightarrow> 'f peer_window \<Rightarrow> 'f peer_window" where
  "peer_step (PwRow row) w = currentRowChanged (valid_row row (pw_dialog w)) w"
| "peer_step (PwNext pick) w = window_next pick w"
| "peer_step (PwAccept env) w = click (pw_accept w) (onAcceptPeer env) w"
| "peer_step (PwReject env) w = click (pw_reject w) (onRejectPeer env) w"
| "peer_step (PwDisconnect env) w = click (pw_disconnect w) (onDisconnectPeer env) w"
| "peer_step (PwRevoke env told) w = window_revoke env told w"
| "peer_step (PwGenerate env ws) w = w\<lparr>pw_dialog := onGenerateToken env ws (pw_dialog w)\<rparr>"
| "peer_step (PwEvents ops) w = (case window_events ops (pw_dialog w) of None \<Rightarrow> w | Some d \<Rightarrow> w\<lparr>pw_dialog := d\<rparr>)"
| "peer_step PwCopy w = copy_clicked w"
| "peer_step PwTimeout w = copy_timeout w"

text \<open>Qt reports that clearing the list leaves no current row.\<close>

definition reported :: "peer_op \<Rightarrow> bool" where
  "reported op \<longleftrightarrow> (case op of PwRevoke env told \<Rightarrow> told | _ \<Rightarrow> True)"

section \<open>The buttons follow the row\<close>

definition buttons_right :: "'f peer_window \<Rightarrow> bool" where
  "buttons_right w \<longleftrightarrow>
     (pw_accept w \<longleftrightarrow> (\<exists>r. currentItem w = Some r \<and> \<not> is_connected r)) \<and>
     (pw_reject w \<longleftrightarrow> (\<exists>r. currentItem w = Some r \<and> \<not> is_connected r)) \<and>
     (pw_disconnect w \<longleftrightarrow> (\<exists>r. currentItem w = Some r \<and> is_connected r))"

definition row_right :: "'f peer_window \<Rightarrow> bool" where
  "row_right w \<longleftrightarrow> (pw_current w = None \<or> currentItem w \<noteq> None) \<and> (pw_copied w \<longrightarrow> 0 < pw_timers w)"

lemma row_of_erase: "row_of i ps = Some k \<Longrightarrow> k < length ps \<and> erase_first (is_row i) ps = take k ps @ drop (Suc k) ps"
  by (induction ps arbitrary: k) (auto split: if_splits)

lemma row_of_none: "row_of i ps = None \<Longrightarrow> erase_first (is_row i) ps = ps"
  by (induction ps) (auto split: if_splits)

lemma item_after:
  assumes "row_of i (dl_peers d) = Some k" and "row \<noteq> Some k" and "dl_peers d' = erase_first (is_row i) (dl_peers d)"
  shows "item_at (row_after k pick row) d' = item_at row d"
  using row_of_erase [OF assms(1)] assms(2,3)
  by (cases row) (auto simp: item_at_def row_after_def nth_append min_def)

lemma valid_row_item [simp]: "item_at (valid_row row d) d = item_at row d" "valid_row row d = None \<longleftrightarrow> item_at row d = None"
  by (auto simp: valid_row_def item_at_def)

lemma none_or_some [simp]: "x = None \<or> (\<exists>y. x = Some y)"
  by (cases x) auto

lemma item_at_cong: "dl_peers d = dl_peers d' \<Longrightarrow> item_at row d = item_at row d'"
  by (cases row) (simp_all add: item_at_def)

lemma row_rightD: "row_right w \<Longrightarrow> pw_copied w \<longrightarrow> 0 < pw_timers w"
  by (simp add: row_right_def)

lemma currentRowChanged_right:
  "buttons_right (currentRowChanged row w)"
  "row_right (currentRowChanged row w) \<longleftrightarrow> (row = None \<or> item_at row (pw_dialog w) \<noteq> None) \<and> (pw_copied w \<longrightarrow> 0 < pw_timers w)"
  by (cases "item_at row (pw_dialog w)"; auto simp: buttons_right_def row_right_def currentRowChanged_def currentItem_def Let_def)+

lemma same_rows_right:
  assumes "dl_peers d = dl_peers (pw_dialog w)"
  shows "buttons_right (w\<lparr>pw_dialog := d\<rparr>) = buttons_right w" and "row_right (w\<lparr>pw_dialog := d\<rparr>) = row_right w"
proof -
  have "currentItem (w\<lparr>pw_dialog := d\<rparr>) = currentItem w" using item_at_cong [OF assms] by (simp add: currentItem_def)
  then show "buttons_right (w\<lparr>pw_dialog := d\<rparr>) = buttons_right w" "row_right (w\<lparr>pw_dialog := d\<rparr>) = row_right w"
    by (simp_all add: buttons_right_def row_right_def)
qed

lemma more_rows_right:
  assumes "row_right w" and "dl_peers d = dl_peers (pw_dialog w) @ rs"
  shows "buttons_right (w\<lparr>pw_dialog := d\<rparr>) = buttons_right w" and "row_right (w\<lparr>pw_dialog := d\<rparr>)"
proof -
  have "currentItem (w\<lparr>pw_dialog := d\<rparr>) = currentItem w"
    using assms by (auto simp: row_right_def currentItem_def item_at_def nth_append split: option.splits if_splits)
  with assms(1) show "buttons_right (w\<lparr>pw_dialog := d\<rparr>) = buttons_right w" "row_right (w\<lparr>pw_dialog := d\<rparr>)"
    by (simp_all add: buttons_right_def row_right_def)
qed

text \<open>What each operation does to the rows.\<close>

lemma queue_callbacks_rows [simp]: "dl_peers (queue_callbacks outs d) = dl_peers d"
  by (simp add: queue_callbacks_def)

lemma rows_kept [simp]:
  "dl_peers (release_sender env d) = dl_peers d" "dl_peers (onGenerateToken env ws d) = dl_peers d" "dl_peers (on_current sel f d) = dl_peers d"
  by (auto simp: release_sender_def onGenerateToken_def on_current_def Let_def split: option.splits prod.splits)

lemma click_rows: "dl_peers (slot (map_option pr_id (currentItem w)) (pw_dialog w)) = dl_peers (pw_dialog w) \<Longrightarrow>
    buttons_right (click b slot w) = buttons_right w \<and> row_right (click b slot w) = row_right w"
  using same_rows_right [of _ w] by (simp add: click_def)

lemma window_events_rows: "window_events ops d = Some d' \<Longrightarrow> dl_peers d' = dl_peers d"
  by (auto simp: window_events_def split: option.splits)

lemma update_buttons_right: "row_right w \<Longrightarrow> (pw_current w = None \<Longrightarrow> buttons_right w) \<Longrightarrow> buttons_right (update_buttons w) \<and> row_right (update_buttons w)"
  by (auto simp: update_buttons_def buttons_right_def row_right_def currentItem_def split: option.splits)

lemma window_post_right:
  assumes "buttons_right w" and "row_right w"
  shows "buttons_right (window_post pick p w) \<and> row_right (window_post pick p w)"
proof (cases p)
  case (PostToken t)
  then show ?thesis using assms same_rows_right [of "postTokenIssued t (pw_dialog w)" w]
    by (simp add: window_post_def postTokenIssued_def)
next
  case (PostPending i n f)
  have "\<exists>rs. dl_peers (postPendingPeer i n f (pw_dialog w)) = dl_peers (pw_dialog w) @ rs" by (simp add: postPendingPeer_def)
  then show ?thesis using PostPending assms more_rows_right [OF assms(2)] by (fastforce simp: window_post_def)
next
  case (PostState i st)
  let ?w = "w\<lparr>pw_dialog := postPeerState i st (pw_dialog w)\<rparr>"
  have "length (dl_peers (postPeerState i st (pw_dialog w))) = length (dl_peers (pw_dialog w))" by (simp add: postPeerState_def)
  then have "row_right ?w" "pw_current ?w = None \<longrightarrow> buttons_right ?w"
    using assms by (auto simp: row_right_def buttons_right_def currentItem_def item_at_def split: option.splits if_splits)
  then show ?thesis using PostState update_buttons_right [of ?w] by (simp add: window_post_def)
next
  case (PostGone i)
  let ?d = "postPeerGone i (pw_dialog w)"
  have rows: "dl_peers ?d = erase_first (is_row i) (dl_peers (pw_dialog w))" by (simp add: postPeerGone_def)
  show ?thesis
  proof (cases "row_of i (dl_peers (pw_dialog w))")
    case None
    then show ?thesis using PostGone assms rows row_of_none [OF None] same_rows_right [of ?d w] by (simp add: window_post_def)
  next
    case (Some k)
    show ?thesis
    proof (cases "pw_current w = Some k")
      case True
      with PostGone Some row_rightD [OF assms(2)] show ?thesis
        by (simp add: window_post_def Let_def currentRowChanged_right row_after_def)
    next
      case False
      let ?w = "w\<lparr>pw_dialog := ?d, pw_current := row_after k (valid_row pick ?d) (pw_current w)\<rparr>"
      have "currentItem ?w = currentItem w" using item_after [OF Some False rows] by (simp add: currentItem_def)
      moreover have "pw_current w = None \<Longrightarrow> pw_current ?w = None" by (simp add: row_after_def)
      ultimately have "buttons_right ?w \<and> row_right ?w"
        using assms by (auto simp: buttons_right_def row_right_def)
      with PostGone Some False show ?thesis by (simp add: window_post_def Let_def)
    qed
  qed
qed

lemma peer_step_right:
  assumes "reported op" and "buttons_right w" and "row_right w"
  shows "buttons_right (peer_step op w) \<and> row_right (peer_step op w)"
proof (cases op)
  case (PwRow row)
  with row_rightD [OF assms(3)] show ?thesis by (simp add: currentRowChanged_right)
next
  case (PwNext pick)
  show ?thesis
  proof (cases "dl_queue (pw_dialog w)")
    case (Cons p ps)
    let ?w = "w\<lparr>pw_dialog := (pw_dialog w)\<lparr>dl_queue := ps\<rparr>\<rparr>"
    have "buttons_right ?w" "row_right ?w" using assms same_rows_right [of "(pw_dialog w)\<lparr>dl_queue := ps\<rparr>" w] by simp_all
    with PwNext Cons window_post_right [of ?w] show ?thesis by (simp add: window_next_def)
  qed (use PwNext assms in \<open>simp add: window_next_def\<close>)
next
  case (PwRevoke env told)
  with assms(1) row_rightD [OF assms(3)] show ?thesis
    by (simp add: window_revoke_def Let_def reported_def currentRowChanged_right)
next
  case (PwGenerate env ws)
  with assms same_rows_right [of "onGenerateToken env ws (pw_dialog w)" w] show ?thesis by simp
next
  case (PwEvents ops)
  show ?thesis
  proof (cases "window_events ops (pw_dialog w)")
    case (Some d)
    with PwEvents assms same_rows_right [OF window_events_rows [OF Some]] show ?thesis by simp
  qed (use PwEvents assms in simp)
next
  case PwCopy
  with assms show ?thesis by (auto simp: copy_clicked_def buttons_right_def row_right_def currentItem_def)
next
  case PwTimeout
  with assms show ?thesis by (auto simp: copy_timeout_def buttons_right_def row_right_def currentItem_def)
next
  case (PwAccept env)
  with assms click_rows [of "onAcceptPeer env" w] show ?thesis by (simp add: onAcceptPeer_def)
next
  case (PwReject env)
  with assms click_rows [of "onRejectPeer env" w] show ?thesis by (simp add: onRejectPeer_def)
next
  case (PwDisconnect env)
  with assms click_rows [of "onDisconnectPeer env" w] show ?thesis by (simp add: onDisconnectPeer_def)
qed

interpretation buttons: guarded_machine peer_step reported "\<lambda>w. buttons_right w \<and> row_right w"
  by unfold_locales (rule peer_step_right; blast)

lemma new_peer_window_right: "buttons_right (new_peer_window d) \<and> row_right (new_peer_window d)"
  by (simp add: buttons_right_def row_right_def new_peer_window_def currentItem_def item_at_def)

section \<open>Properties\<close>

text \<open>C33: The buttons fit the peer they act on: whatever is clicked, queued and selected, as long as Qt reports that clearing the
  list leaves no current row, Accept and Reject are enabled exactly when there is a current row whose peer is not
  connected, and Disconnect exactly when it is connected; so a click on Accept accepts the peer the row shows as not
  connected.\<close>

theorem buttons_follow_the_row:
  assumes "\<forall>op \<in> set ops. reported op" and "fold peer_step ops (new_peer_window d) = w"
  shows "(pw_accept w \<longleftrightarrow> (\<exists>r. currentItem w = Some r \<and> pr_state r \<noteq> TETHER_SENDER_STATE_PEER_CONNECTED)) \<and>
    pw_reject w = pw_accept w \<and>
    (pw_disconnect w \<longleftrightarrow> (\<exists>r. currentItem w = Some r \<and> pr_state r = TETHER_SENDER_STATE_PEER_CONNECTED)) \<and>
    (pw_accept w \<longrightarrow> (\<exists>r. currentItem w = Some r \<and> peer_step (PwAccept env) w = w\<lparr>pw_dialog := onAcceptPeer env (Some (pr_id r)) (pw_dialog w)\<rparr>))"
proof -
  have "buttons_right w" using buttons.guarded_run_inv [OF assms(1) new_peer_window_right [of d]] assms(2) by simp
  then show ?thesis by (auto simp: buttons_right_def is_connected_def click_def)
qed

lemma buttons_follow_the_row_witness:
  "pw_disconnect (fold peer_step [PwNext None, PwRow (Some 0), PwNext None]
     (new_peer_window (demo_window\<lparr>dl_queue := [PostPending ''p'' ''n'' [], PostState ''p'' TETHER_SENDER_STATE_PEER_CONNECTED]\<rparr>)))"
proof -
  let ?d = "demo_window\<lparr>dl_queue := [PostPending ''p'' ''n'' [], PostState ''p'' TETHER_SENDER_STATE_PEER_CONNECTED]\<rparr>"
  let ?ops = "[PwNext None, PwRow (Some 0), PwNext None]"
  define w where "w = fold peer_step ?ops (new_peer_window ?d)"
  have ok: "\<forall>op \<in> set ?ops. reported op" by (simp add: reported_def)
  have "\<exists>r. currentItem w = Some r \<and> pr_state r = TETHER_SENDER_STATE_PEER_CONNECTED"
    by (simp add: w_def window_next_def window_post_def new_peer_window_def postPendingPeer_def postPeerState_def valid_row_def
        item_at_def currentRowChanged_def update_buttons_def currentItem_def is_row_def Let_def)
  with buttons_follow_the_row [OF ok, of ?d w] show ?thesis unfolding w_def by blast
qed

text \<open>Should Qt not report the cleared list, the buttons keep what they were after a revocation, but a click on them does nothing
  until a row is selected.\<close>

theorem stale_buttons_do_nothing:
  assumes "window_revoke env False w = w'"
  shows "pw_accept w' = pw_accept w \<and> peer_step (PwAccept xe) w' = w' \<and> peer_step (PwReject xe) w' = w' \<and> peer_step (PwDisconnect xe) w' = w'"
proof -
  have "currentItem w' = None" "pw_accept w' = pw_accept w"
    using assms by (auto simp: window_revoke_def currentItem_def item_at_def)
  then show ?thesis by (simp add: click_def onAcceptPeer_def onRejectPeer_def onDisconnectPeer_def on_current_def)
qed

lemma stale_buttons_do_nothing_witness:
  "peer_step (PwAccept demo_session_env) (window_revoke demo_sender_env False ((new_peer_window demo_window)\<lparr>pw_accept := True\<rparr>)) =
    window_revoke demo_sender_env False ((new_peer_window demo_window)\<lparr>pw_accept := True\<rparr>)"
  using stale_buttons_do_nothing [OF refl] by blast

text \<open>The copy button: a click puts the token the window shows on the clipboard, and the button reads \<open>copied\<close> only while a
  timer is under way that takes it back.\<close>

theorem copied_is_taken_back:
  assumes "dl_copy_enabled (pw_dialog w)"
  shows "pw_clipboard (peer_step PwCopy w) = Some (dl_token_field (pw_dialog w)) \<and> pw_copied (peer_step PwCopy w) \<and>
    \<not> pw_copied ((peer_step PwTimeout ^^ pw_timers (peer_step PwCopy w)) (peer_step PwCopy w))"
proof -
  have "(peer_step PwTimeout ^^ n) v = v\<lparr>pw_copied := False, pw_timers := pw_timers v - n\<rparr>" if "0 < n" "n \<le> pw_timers v" for n and v :: "'a peer_window"
    using that
  proof (induction n)
    case (Suc n)
    then show ?case by (cases "n = 0") (simp_all add: copy_timeout_def)
  qed simp
  from this [of "pw_timers (peer_step PwCopy w)" "peer_step PwCopy w"] assms show ?thesis
    by (simp add: copy_clicked_def)
qed

lemma copied_is_taken_back_witness:
  "pw_clipboard (peer_step PwCopy (new_peer_window (demo_window\<lparr>dl_copy_enabled := True, dl_token_field := ''AB''\<rparr>))) = Some ''AB''"
  using copied_is_taken_back [of "new_peer_window (demo_window\<lparr>dl_copy_enabled := True, dl_token_field := ''AB''\<rparr>)"]
  by (simp add: new_peer_window_def)

end
