(* ===== verification/Uninvited.thy ===== *)
theory Uninvited
  imports Network
begin

text \<open>
  Who gets in, over all runs of the three programs: the steps of \<open>Network\<close> in any order. What is under way on a socket is
  an object one of the programs printed, of a class that its end may send; the invariant carries the ids the host has accepted
  to what the receivers read.
\<close>

section \<open>Objects under way\<close>

definition nice :: "js_object \<Rightarrow> bool" where
  "nice ob \<longleftrightarrow> distinct (map fst ob) \<and> js_ok ob"

definition js_type :: "js_object \<Rightarrow> string \<Rightarrow> bool" where
  "js_type ob ty \<longleftrightarrow> js_get ob ''type'' = Some (JsStr ty)"

text \<open>What the host let in: the ids he accepted, or anybody after he pinned one.\<close>

type_synonym guests = "string set \<times> bool"

definition guest :: "guests \<Rightarrow> string \<Rightarrow> bool" where
  "guest G i \<longleftrightarrow> i \<in> fst G \<or> snd G"

text \<open>The sockets on which a guest sits, \<open>I\<close> being the ids that were given out with the sockets they were given to.\<close>

definition invited :: "guests \<Rightarrow> (nat \<times> string) set \<Rightarrow> nat \<Rightarrow> bool" where
  "invited G I k \<longleftrightarrow> snd G \<or> (\<exists>i. (k, i) \<in> I \<and> guest G i)"

text \<open>The classes of objects by the end that sends and the end that reads them.\<close>

definition from_sender :: "guests \<Rightarrow> js_object \<Rightarrow> bool" where
  "from_sender G ob \<longleftrightarrow> nice ob \<and> (js_type ob ''hello'' \<longrightarrow> js_get ob ''role'' = Some (JsStr ''sender'')) \<and>
     (js_type ob ''accept'' \<longrightarrow> (\<exists>i. js_get ob ''peer_id'' = Some (JsStr i) \<and> guest G i))"

definition from_receiver :: "js_object \<Rightarrow> bool" where
  "from_receiver ob \<longleftrightarrow> nice ob \<and>
     (js_type ob ''hello'' \<and> js_get ob ''role'' = Some (JsStr ''receiver'') \<or>
      (js_type ob ''sdp'' \<or> js_type ob ''ice'') \<and> js_get ob ''peer_id'' = Some (JsStr ''sender''))"

definition to_sender :: "js_object \<Rightarrow> bool" where
  "to_sender ob \<longleftrightarrow> nice ob \<and> (\<exists>ty. js_type ob ty \<and> plain ty \<and>
     (ty = ''pending'' \<longrightarrow> (\<exists>i. js_get ob ''peer_id'' = Some (JsStr i) \<and> plain i)))"

definition to_receiver :: "bool \<Rightarrow> js_object \<Rightarrow> bool" where
  "to_receiver b ob \<longleftrightarrow> nice ob \<and>
     (js_type ob ''token_invalid'' \<or> js_type ob ''token_locked_out'' \<or> js_type ob ''rejected'' \<or>
      b \<and> (js_type ob ''accepted'' \<or> js_type ob ''sdp'' \<or> js_type ob ''ice''))"

definition carries :: "(js_object \<Rightarrow> bool) \<Rightarrow> frame \<Rightarrow> bool" where
  "carries P f \<longleftrightarrow> (case f of FrClosed \<Rightarrow> True | FrText t \<Rightarrow> \<exists>ob. t = json_stringify ob \<and> P ob)"

lemma carries_simps [simp]: "carries P FrClosed" "carries P (FrText t) \<longleftrightarrow> (\<exists>ob. t = json_stringify ob \<and> P ob)"
  by (simp_all add: carries_def)

lemma carries_mono: "carries P f \<Longrightarrow> (\<And>ob. P ob \<Longrightarrow> Q ob) \<Longrightarrow> carries Q f"
  by (auto simp: carries_def split: frame.splits)

lemma guest_mono: "guest (A, P) i \<Longrightarrow> guest (A \<union> A', P \<or> P') i"
  by (auto simp: guest_def)

lemma nice_flat: "nice ob \<Longrightarrow> distinct (map fst ob) \<and> list_all (js_flat \<circ> snd) ob"
  by (auto simp: nice_def js_ok_def list_all_iff)

lemma nice_parse: "nice ob \<Longrightarrow> json_parse (json_stringify ob) = Some ob"
  using nice_flat json_parse_printed by blast

lemma js_ok_set: "js_ok ob \<Longrightarrow> js_flat v \<Longrightarrow> key_ok k \<Longrightarrow> plain k \<Longrightarrow> js_ok (js_set ob k v)"
  by (induction ob k v rule: js_set.induct) auto

lemma nice_set: "nice ob \<Longrightarrow> js_flat v \<Longrightarrow> key_ok k \<Longrightarrow> plain k \<Longrightarrow> nice (js_set ob k v)"
  by (simp add: nice_def js_set_distinct js_ok_set)

lemma js_text_get: "distinct (map fst ob) \<Longrightarrow> js_get ob k = Some (JsStr s) \<Longrightarrow> js_text ob k = Some s"
  by (induction ob k rule: js_text.induct) (auto split: if_splits)

lemma nice_lookup: "nice ob \<Longrightarrow> js_get ob k = Some (JsStr s) \<Longrightarrow> lookup_str (js_object_printed ob) k = Some (js_escape s)"
  using lookup_printed [of ob k] js_text_get [of ob k s] by (simp add: nice_def)

lemma nice_reads:
  assumes "nice ob" and "js_type ob ty" and "plain ty"
  shows "json_eq_str (json_stringify ob) ''type'' v \<longleftrightarrow> ty = v"
  using json_find_object(2) [OF js_ok_object_ok, of ob "''type''" v] nice_lookup [OF assms(1), of "''type''" ty] assms
  by (simp add: json_stringify_def js_type_def nice_def)

lemma nice_dup:
  assumes "nice ob" and "js_get ob k = Some (JsStr s)" and "key_ok k"
  shows "json_dup_str (json_stringify ob) k = Some (js_escape s)"
  using json_find_object(1) [OF js_ok_object_ok, of ob k] nice_lookup [OF assms(1,2)] assms
  by (simp add: json_stringify_def nice_def)

section \<open>The messages of the clients\<close>

lemma hello_json_sender: "sc_role (sig_cfg sig) = TETHER_ROLE_SENDER \<Longrightarrow> hello_json sig = hello_json (sig\<lparr>sig_token := None\<rparr>)"
  by (simp add: hello_json_def split: option.splits)

lemma sender_hello_text:
  assumes "sc_role (sig_cfg sig) = TETHER_ROLE_SENDER" and "plain (sig_display_name sig)"
  shows "\<exists>ob. hello_json sig = json_stringify ob \<and> from_sender G ob"
proof -
  let ?sig = "sig\<lparr>sig_token := None\<rparr>"
  have "hello_json sig = json_stringify (hello_message ?sig)"
    unfolding hello_json_sender [OF assms(1)] by (rule hello_stringify) (use assms in simp_all)
  moreover have "nice (hello_message ?sig)" using assms(1) by (simp add: nice_def hello_message_def)
  moreover have "js_type (hello_message ?sig) ''hello''" "js_get (hello_message ?sig) ''role'' = Some (JsStr ''sender'')"
    using assms(1) by (simp_all add: js_type_def hello_members)
  ultimately show ?thesis by (auto simp: from_sender_def js_type_def)
qed

lemma receiver_hello_text:
  assumes "sc_role (sig_cfg sig) = TETHER_ROLE_RECEIVER" and "plain (sig_display_name sig)" and "pred_option plain (sig_token sig)"
  shows "\<exists>ob. hello_json sig = json_stringify ob \<and> from_receiver ob"
proof -
  have "nice (hello_message sig)" using assms(1) by (simp add: nice_def hello_message_def)
  moreover have "js_type (hello_message sig) ''hello''" "js_get (hello_message sig) ''role'' = Some (JsStr ''receiver'')"
    using assms(1) by (simp_all add: js_type_def hello_members)
  ultimately show ?thesis using hello_stringify [OF assms(2,3)] by (auto simp: from_receiver_def)
qed

lemma sender_texts:
  "plain i \<Longrightarrow> guest G i \<Longrightarrow> \<exists>ob. accept_json i = json_stringify ob \<and> from_sender G ob"
  "plain i \<Longrightarrow> \<exists>ob. reject_json i = json_stringify ob \<and> from_sender G ob"
  "\<exists>ob. ''{\"type\":\"revoke\"}'' = json_stringify ob \<and> from_sender G ob"
  "plain i \<Longrightarrow> plain ty \<Longrightarrow> sdp_plain d \<Longrightarrow> \<exists>ob. sdp_json i ty d = json_stringify ob \<and> from_sender G ob"
  "plain i \<Longrightarrow> plain c \<Longrightarrow> plain m \<Longrightarrow> \<exists>ob. ice_json i c m n = json_stringify ob \<and> from_sender G ob"
proof -
  let ?a = "[(''type'', JsStr ''accept''), (''peer_id'', JsStr i)]"
  show "\<exists>ob. accept_json i = json_stringify ob \<and> from_sender G ob" if "plain i" "guest G i"
    by (rule exI [of _ ?a]) (use that in \<open>simp add: plugin_messages from_sender_def nice_def js_type_def\<close>)
  let ?r = "[(''type'', JsStr ''reject''), (''peer_id'', JsStr i)]"
  show "\<exists>ob. reject_json i = json_stringify ob \<and> from_sender G ob" if "plain i"
    by (rule exI [of _ ?r]) (use that in \<open>simp add: plugin_messages from_sender_def nice_def js_type_def\<close>)
  let ?v = "[(''type'', JsStr ''revoke'')]"
  show "\<exists>ob. ''{\"type\":\"revoke\"}'' = json_stringify ob \<and> from_sender G ob"
    by (rule exI [of _ ?v]) (simp add: revoke_stringify [symmetric] from_sender_def nice_def js_type_def)
  let ?s = "[(''type'', JsStr ''sdp''), (''peer_id'', JsStr i), (''sdp_type'', JsStr ty), (''sdp'', JsStr d)]"
  show "\<exists>ob. sdp_json i ty d = json_stringify ob \<and> from_sender G ob" if "plain i" "plain ty" "sdp_plain d"
    by (rule exI [of _ ?s]) (use that in \<open>simp add: plugin_messages from_sender_def nice_def js_type_def\<close>)
  let ?c = "[(''type'', JsStr ''ice''), (''peer_id'', JsStr i), (''candidate'', JsStr c), (''mid'', JsStr m), (''mline'', JsNum n)]"
  show "\<exists>ob. ice_json i c m n = json_stringify ob \<and> from_sender G ob" if "plain i" "plain c" "plain m"
    by (rule exI [of _ ?c]) (use that in \<open>simp add: plugin_messages from_sender_def nice_def js_type_def\<close>)
qed

lemma receiver_texts:
  "plain ty \<Longrightarrow> sdp_plain d \<Longrightarrow> \<exists>ob. sdp_json ''sender'' ty d = json_stringify ob \<and> from_receiver ob"
  "plain c \<Longrightarrow> plain m \<Longrightarrow> \<exists>ob. ice_json ''sender'' c m n = json_stringify ob \<and> from_receiver ob"
proof -
  let ?s = "[(''type'', JsStr ''sdp''), (''peer_id'', JsStr ''sender''), (''sdp_type'', JsStr ty), (''sdp'', JsStr d)]"
  show "\<exists>ob. sdp_json ''sender'' ty d = json_stringify ob \<and> from_receiver ob" if "plain ty" "sdp_plain d"
    by (rule exI [of _ ?s]) (use that in \<open>simp add: plugin_messages from_receiver_def nice_def js_type_def\<close>)
  let ?c = "[(''type'', JsStr ''ice''), (''peer_id'', JsStr ''sender''), (''candidate'', JsStr c), (''mid'', JsStr m), (''mline'', JsNum n)]"
  show "\<exists>ob. ice_json ''sender'' c m n = json_stringify ob \<and> from_receiver ob" if "plain c" "plain m"
    by (rule exI [of _ ?c]) (use that in \<open>simp add: plugin_messages from_receiver_def nice_def js_type_def\<close>)
qed

section \<open>What a room keeps\<close>

text \<open>The sender sits on socket \<open>0\<close> and nobody else does; a receiver has an id that was given out for its socket, and is marked as
  accepted only when it is a guest.\<close>

definition peer_seated :: "guests \<Rightarrow> (nat \<times> string) set \<Rightarrow> peer_conn \<Rightarrow> bool" where
  "peer_seated G I p \<longleftrightarrow> plain (pc_id p) \<and>
     (if pc_role p = TETHER_ROLE_SENDER then pc_ws p = 0
      else pc_ws p \<noteq> 0 \<and> (pc_ws p, pc_id p) \<in> I \<and> (pc_accepted p \<longrightarrow> guest G (pc_id p)))"

definition room_seated :: "guests \<Rightarrow> (nat \<times> string) set \<Rightarrow> room \<Rightarrow> bool" where
  "room_seated G I r \<longleftrightarrow> (\<forall>p \<in> set (ro_peers r). peer_seated G I p)"

definition sent_right :: "guests \<Rightarrow> (nat \<times> string) set \<Rightarrow> room_out \<Rightarrow> bool" where
  "sent_right G I out \<longleftrightarrow>
     (case out of RoomSend w ob \<Rightarrow> (if w = 0 then to_sender ob else to_receiver (invited G I w) ob) | RoomClose w c t \<Rightarrow> True)"

lemma sent_right_simps [simp]:
  "sent_right G I (RoomSend w ob) \<longleftrightarrow> (if w = 0 then to_sender ob else to_receiver (invited G I w) ob)" "sent_right G I (RoomClose w c t)"
  by (simp_all add: sent_right_def)

lemma peer_seated_invited: "peer_seated G I p \<Longrightarrow> pc_role p \<noteq> TETHER_ROLE_SENDER \<Longrightarrow> guest G (pc_id p) \<Longrightarrow> invited G I (pc_ws p)"
  by (auto simp: peer_seated_def invited_def)

lemma room_seatedD: "room_seated G I r \<Longrightarrow> p \<in> set (ro_peers r) \<Longrightarrow> peer_seated G I p"
  by (simp add: room_seated_def)

lemma room_seated_mono: "room_seated (A, P) I r \<Longrightarrow> room_seated (A \<union> A', P \<or> P') (I \<union> I') r"
  unfolding room_seated_def peer_seated_def using guest_mono [of A P] by (auto split: if_splits)

lemma set_peer_seated: "\<forall>q \<in> set ps. peer_seated G I q \<Longrightarrow> peer_seated G I p \<Longrightarrow> \<forall>q \<in> set (set_peer p ps). peer_seated G I q"
  using update_first_ball [of ps "peer_seated G I" "has_pc_id (pc_id p)" "\<lambda>_. p"] by (auto simp: set_peer_def)

lemma short_messages [simp]:
  "to_sender [(''type'', JsStr ''token''), (''token'', case t of None \<Rightarrow> JsNull | Some t \<Rightarrow> JsStr t)]"
  "to_receiver b [(''type'', JsStr ''token_invalid'')]" "to_sender [(''type'', JsStr ''token_invalid'')]"
  "to_receiver b [(''type'', JsStr ''token_locked_out''), (''retry_after'', JsNum n)]"
  "to_receiver b [(''type'', JsStr ''rejected'')]" "to_sender [(''type'', JsStr ''rejected'')]"
  "to_receiver True [(''type'', JsStr ''accepted'')]"
  "to_sender [(''type'', JsStr ''peer_gone''), (''peer_id'', JsStr i)]"
  by (auto simp: to_sender_def to_receiver_def nice_def js_type_def key_ok_def split: option.splits)

lemma js_or_flat: "nice ob \<Longrightarrow> js_flat (js_or ob k (JsStr []))"
proof (cases "js_get ob k")
  case (Some v)
  moreover assume "nice ob"
  ultimately have "js_flat v" by (auto simp: nice_def js_ok_def list_all_iff js_get_def dest!: map_of_SomeD)
  with Some show ?thesis by (simp add: js_or_def)
qed (simp add: js_or_def)

lemma sender_says_hello:
  assumes "handleHello env now uuid 0 msg q r = (r', outs)" and "js_get msg ''role'' = Some (JsStr ''sender'')"
    and "room_seated G I r" and "plain uuid"
  shows "room_seated G I r' \<and> (\<forall>out \<in> set outs. sent_right G I out)"
proof -
  define p where "p = \<lparr>pc_id = uuid, pc_role = TETHER_ROLE_SENDER, pc_name = js_or msg ''name'' (JsStr []),
    pc_fingerprint = None, pc_ws = 0, pc_accepted = True, pc_pinned = False\<rparr>"
  have peers: "ro_peers r' = set_peer p (ro_peers r)"
    and out: "outs = [RoomSend 0 [(''type'', JsStr ''token''), (''token'', case ro_token r of None \<Rightarrow> JsNull | Some t \<Rightarrow> JsStr t)]]"
    using assms(1) [symmetric] assms(2) by (cases "ro_expires r = None \<or> ro_expires r = Some 0"; simp add: handleHello_def sender_hello_def Let_def p_def)+
  have "\<forall>x \<in> set (set_peer p (ro_peers r)). peer_seated G I x"
    using assms(3,4) by (intro set_peer_seated) (simp_all add: room_seated_def peer_seated_def p_def)
  with peers out show ?thesis by (simp add: room_seated_def)
qed

lemma receiver_says_hello:
  assumes "handleHello env now uuid k msg q r = (r', outs)" and "js_get msg ''role'' = Some (JsStr ''receiver'')"
    and "room_seated G I r" and "plain uuid" and "k \<noteq> 0" and "nice msg" and "(k, uuid) \<in> I"
  shows "room_seated G I r' \<and> (\<forall>out \<in> set outs. sent_right G I out)"
proof -
  define p where "p = \<lparr>pc_id = uuid, pc_role = TETHER_ROLE_RECEIVER, pc_name = js_or msg ''name'' (JsStr []),
    pc_fingerprint = js_get msg ''fingerprint'', pc_ws = k, pc_accepted = False, pc_pinned = False\<rparr>"
  have seated: "room_seated G I (r\<lparr>ro_peers := set_peer p (ro_peers r)\<rparr>)"
  proof -
    have "peer_seated G I p" using assms(4,5,7) by (simp add: peer_seated_def p_def)
    from set_peer_seated [OF _ this] assms(3) show ?thesis by (simp add: room_seated_def)
  qed
  have sender: "pc_ws s = 0" if "findSender (r\<lparr>ro_peers := set_peer p (ro_peers r)\<rparr>) = Some s" for s
    using findSenderD [OF that] room_seatedD [OF seated] by (auto simp: peer_seated_def)
  have pending: "to_sender [(''type'', JsStr ''pending''), (''peer_id'', JsStr uuid), (''name'', js_or msg ''name'' (JsStr [])),
      (''fingerprint'', js_or msg ''fingerprint'' (JsStr []))]"
    using assms(4) js_or_flat [OF assms(6)] by (simp add: to_sender_def nice_def js_type_def)
  show ?thesis
  proof (cases "claimed_token msg q")
    case None
    with assms(1) [symmetric] assms(2,3) show ?thesis by (simp add: handleHello_def receiver_hello_room_def)
  next
    case (Some t)
    with assms(1) [symmetric] assms(2,3,5) seated sender pending show ?thesis
      by (auto simp: handleHello_def receiver_hello_room_def room_seated_def Let_def simp flip: p_def split: if_splits option.splits)
  qed
qed

lemma accept_seated:
  assumes "handleAccept p msg r = (r', outs)" and "room_seated G I r"
    and "\<exists>i. js_get msg ''peer_id'' = Some (JsStr i) \<and> guest G i"
  shows "room_seated G I r' \<and> (\<forall>out \<in> set outs. sent_right G I out)"
proof -
  from assms(3) obtain i where i: "js_get msg ''peer_id'' = Some (JsStr i)" "guest G i" by blast
  have "peer_seated G I (q\<lparr>pc_accepted := True\<rparr>)" if "peer_seated G I q" "has_pc_id i q" for q
    using that i by (auto simp: peer_seated_def has_pc_id_def)
  then have "\<forall>q \<in> set (update_first (has_pc_id i) (\<lambda>q. q\<lparr>pc_accepted := True\<rparr>) (ro_peers r)). peer_seated G I q"
    by (intro update_first_ball) (use assms(2) in \<open>auto simp: room_seated_def\<close>)
  moreover have "invited G I (pc_ws q)" "pc_ws q \<noteq> 0" "pc_id q = i" if "get_peer (Some (JsStr i)) r = Some q" "pc_role q = TETHER_ROLE_RECEIVER" for q
  proof -
    from get_peerD [OF that(1)] assms(2) have "peer_seated G I q" "pc_id q = i" by (auto simp: room_seated_def)
    with that(2) i(2) peer_seated_invited [of G I q] show "invited G I (pc_ws q)" "pc_ws q \<noteq> 0" "pc_id q = i"
      by (auto simp: peer_seated_def)
  qed
  ultimately show ?thesis
    using assms(1,2) i by (auto simp: handleAccept_def room_seated_def split: if_splits option.splits)
qed

lemma reject_seated:
  assumes "handleReject p msg r = (r', outs)" and "room_seated G I r"
  shows "room_seated G I r' \<and> (\<forall>out \<in> set outs. sent_right G I out)"
  using assms set_erase_first
  by (fastforce simp: handleReject_def room_seated_def delete_peer_def split: if_splits option.splits)

lemma revoke_seated:
  assumes "handleRevoke p r = (r', outs)" and "room_seated G I r"
  shows "room_seated G I r' \<and> (\<forall>out \<in> set outs. sent_right G I out)"
  using assms by (auto simp: handleRevoke_def room_seated_def split: if_splits)

lemma relayed_to_sender:
  assumes "nice msg" and "js_type msg ''sdp'' \<or> js_type msg ''ice''"
  shows "to_sender (js_set msg ''peer_id'' (JsStr i))"
  using assms nice_set [OF assms(1), of "JsStr i" "''peer_id''"] by (auto simp: to_sender_def js_type_def)

lemma relay_right:
  assumes "room_seated G I r" and "nice msg" and "js_type msg ''sdp'' \<or> js_type msg ''ice''"
    and "pc_role p = TETHER_ROLE_RECEIVER \<longrightarrow> js_get msg ''peer_id'' = Some (JsStr ''sender'')"
  shows "\<forall>out \<in> set (relayToPeer p msg r). sent_right G I out"
proof (cases "pc_role p")
  case TETHER_ROLE_RECEIVER
  have "pc_ws s = 0" if "findSender r = Some s" for s
    using findSenderD [OF that] assms(1) by (auto simp: room_seated_def peer_seated_def)
  with TETHER_ROLE_RECEIVER assms(4) relayed_to_sender [OF assms(2,3)] show ?thesis
    by (auto simp: relayToPeer_def Let_def split: option.splits)
next
  case TETHER_ROLE_SENDER
  have "sent_right G I (RoomSend (pc_ws t) (if pc_role t = TETHER_ROLE_SENDER then js_set msg ''peer_id'' (JsStr (pc_id p)) else msg))"
    if "get_peer (js_get msg ''peer_id'') r = Some t" "pc_accepted t" for t
  proof -
    from get_peerD [OF that(1)] assms(1) have t: "peer_seated G I t" by (auto simp: room_seated_def)
    show ?thesis
    proof (cases "pc_role t = TETHER_ROLE_SENDER")
      case True
      with t relayed_to_sender [OF assms(2,3)] show ?thesis by (simp add: peer_seated_def)
    next
      case False
      with t that(2) peer_seated_invited [OF t False] assms(2,3) show ?thesis by (auto simp: peer_seated_def to_receiver_def)
    qed
  qed
  with TETHER_ROLE_SENDER show ?thesis
    by (cases "get_peer (js_get msg ''peer_id'') r") (simp_all add: relayToPeer_def Let_def del: sent_right_simps)
qed

lemma seated_role: "room_seated G I r \<Longrightarrow> findPeerByWs k r = Some p \<Longrightarrow> pc_role p = TETHER_ROLE_SENDER \<longleftrightarrow> k = 0"
  using findPeerByWsD [of k r p] room_seatedD [of G I r p] by (auto simp: peer_seated_def split: if_splits)

lemma message_seated:
  assumes "onMessage env now uuid k (Some ob) r = (r', outs)" and "room_seated G I r" and "plain uuid" and "(k, uuid) \<in> I"
    and "k = 0 \<Longrightarrow> from_sender G ob" and "k \<noteq> 0 \<Longrightarrow> from_receiver ob"
  shows "room_seated G I r' \<and> (\<forall>out \<in> set outs. sent_right G I out)"
proof (cases "js_type ob ''hello''")
  case True
  then have hello: "\<exists>q. handleHello env now uuid k ob q r = (r', outs)"
    using assms(1) by (auto simp: onMessage_def js_type_def)
  show ?thesis
  proof (cases "k = 0")
    case True
    with assms(5) \<open>js_type ob ''hello''\<close> have "js_get ob ''role'' = Some (JsStr ''sender'')" by (simp add: from_sender_def)
    with hello True sender_says_hello [OF _ _ assms(2,3)] show ?thesis by blast
  next
    case False
    with assms(6) True have "js_get ob ''role'' = Some (JsStr ''receiver'')" "nice ob"
      by (auto simp: from_receiver_def js_type_def)
    with hello False receiver_says_hello [OF _ _ assms(2,3) False _ assms(4)] show ?thesis by blast
  qed
next
  case other: False
  show ?thesis
  proof (cases "findPeerByWs k r")
    case None
    with assms(1,2) other show ?thesis by (simp add: onMessage_def js_type_def)
  next
    case (Some p)
    note role = seated_role [OF assms(2) Some]
    have call: "(if js_type ob ''accept'' then handleAccept p ob r else if js_type ob ''reject'' then handleReject p ob r
        else if js_type ob ''revoke'' then handleRevoke p r
        else if js_type ob ''sdp'' \<or> js_type ob ''ice'' then (r, relayToPeer p ob r) else (r, [])) = (r', outs)"
      using assms(1) Some other by (auto simp: onMessage_def js_type_def split: if_splits)
    show ?thesis
    proof (cases "js_type ob ''accept''")
      case True
      then have "k = 0" using assms(6) other by (auto simp: from_receiver_def js_type_def)
      with assms(5) True have "\<exists>i. js_get ob ''peer_id'' = Some (JsStr i) \<and> guest G i" by (simp add: from_sender_def)
      with call True accept_seated [OF _ assms(2)] show ?thesis by simp
    next
      case no_accept: False
      show ?thesis
      proof (cases "js_type ob ''sdp'' \<or> js_type ob ''ice''")
        case True
        then have "\<not> js_type ob ''reject''" "\<not> js_type ob ''revoke''" by (auto simp: js_type_def)
        with call no_accept True have r: "r' = r" "outs = relayToPeer p ob r" by auto
        have "pc_role p = TETHER_ROLE_RECEIVER \<longrightarrow> js_get ob ''peer_id'' = Some (JsStr ''sender'')"
          using role assms(6) other by (cases "pc_role p") (auto simp: from_receiver_def)
        moreover have "nice ob" using assms(5,6) by (cases "k = 0") (auto simp: from_sender_def from_receiver_def)
        ultimately show ?thesis using relay_right [OF assms(2) _ True] assms(2) r by simp
      next
        case False
        with call no_accept reject_seated [OF _ assms(2)] revoke_seated [OF _ assms(2)] assms(2) show ?thesis
          by (auto split: if_splits)
      qed
    qed
  qed
qed

lemma close_seated:
  assumes "onClose k r = (r', outs)" and "room_seated G I r"
  shows "room_seated G I r' \<and> (\<forall>out \<in> set outs. sent_right G I out)"
proof (cases "findPeerByWs k r")
  case (Some p)
  let ?r = "delete_peer (pc_id p) r"
  have r: "room_seated G I ?r" using assms(2) set_erase_first by (fastforce simp: room_seated_def delete_peer_def)
  have "pc_ws s = 0" if "findSender ?r = Some s" for s
    using findSenderD [OF that] r by (auto simp: room_seated_def peer_seated_def)
  with Some assms(1) r show ?thesis
    by (auto simp: onClose_def Let_def room_seated_def [of G I "_\<lparr>ro_peers := _\<rparr>"] split: if_splits option.splits)
qed (use assms in \<open>simp add: onClose_def\<close>)

section \<open>What the sender keeps\<close>

text \<open>The events the socket and libdatachannel bring: a description has no control characters but line ends and tabs, a candidate is plain.\<close>

definition socket_callback :: "sig_op \<Rightarrow> bool" where
  "socket_callback op \<longleftrightarrow> op \<in> {SigOpened, SigClosed, SigError}"

definition described :: "rtc_callback \<Rightarrow> bool" where
  "described cb \<longleftrightarrow> (case cb of RtcLocalDescription d ty \<Rightarrow> sdp_plain d \<and> plain ty | RtcLocalCandidate c m \<Rightarrow> plain c \<and> plain m | _ \<Rightarrow> True)"

definition frames_right :: "guests \<Rightarrow> 'f sender_out list \<Rightarrow> bool" where
  "frames_right G outs \<longleftrightarrow> (\<forall>out \<in> set outs. \<forall>f \<in> set (sender_frames out). carries (from_sender G) f)"

lemma frames_right_simps [simp]:
  "frames_right G []" "frames_right G (a @ b) \<longleftrightarrow> frames_right G a \<and> frames_right G b"
  "frames_right G (out # outs) \<longleftrightarrow> (\<forall>f \<in> set (sender_frames out). carries (from_sender G) f) \<and> frames_right G outs"
  "frames_right G (map (SnWr i) ws)" "frames_right G (map (SnAudio i) as)"
  by (auto simp: frames_right_def)

lemma raw_right: "\<exists>ob. t = json_stringify ob \<and> from_sender G ob \<Longrightarrow> frames_right G (map SnSig (send_raw sig t))"
  by (auto simp: send_raw_def)

lemma sent_right_frames:
  "plain i \<Longrightarrow> guest G i \<Longrightarrow> frames_right G (map SnSig (snd (tether_signaling_accept sig (Some i))))"
  "plain i \<Longrightarrow> frames_right G (map SnSig (snd (tether_signaling_reject sig (Some i))))"
  "frames_right G (map SnSig (snd (tether_signaling_revoke_token sig)))"
  "plain i \<Longrightarrow> plain ty \<Longrightarrow> sdp_plain d \<Longrightarrow> frames_right G (map SnSig (snd (tether_signaling_send_sdp sig (Some i) (Some ty) (Some d))))"
  "plain i \<Longrightarrow> plain c \<Longrightarrow> plain m \<Longrightarrow> frames_right G (map SnSig (snd (tether_signaling_send_ice sig (Some i) (Some c) (Some m) n)))"
  unfolding tether_signaling_accept_def tether_signaling_reject_def tether_signaling_revoke_token_def tether_signaling_send_sdp_def
    tether_signaling_send_ice_def
  by (cases sig; simp del: map_eq_conv; rule raw_right; erule (1) sender_texts | (cases sig; simp; rule raw_right; rule sender_texts; assumption?))+

definition sig_named :: "tether_signaling option \<Rightarrow> bool" where
  "sig_named sig \<longleftrightarrow> (case sig of None \<Rightarrow> True | Some s \<Rightarrow> sc_role (sig_cfg s) = TETHER_ROLE_SENDER \<and> plain (sig_display_name s))"

definition ids_plain :: "'f tether_sender \<Rightarrow> bool" where
  "ids_plain s \<longleftrightarrow> sig_named (sn_sig s) \<and> (\<forall>a. sn_adm s = Some a \<longrightarrow> (\<forall>p \<in> set (adm_peers a). plain (peer_id p))) \<and>
     (\<forall>r \<in> set (sn_sessions s). plain (rs_peer_id r))"

definition sender_safe :: "guests \<Rightarrow> 'f tether_sender \<Rightarrow> bool" where
  "sender_safe G s \<longleftrightarrow> admitted (fst G) (snd G) (sn_core s) \<and> ids_plain s"

definition op_plain :: "adm_op \<Rightarrow> bool" where
  "op_plain op \<longleftrightarrow> (case op of AddPending ck i n f \<Rightarrow> pred_option plain i | _ \<Rightarrow> True)"

text \<open>The guests after an operation of the waiting room.\<close>

definition guests_after :: "adm_op \<Rightarrow> guests \<Rightarrow> guests" where
  "guests_after op G = (fst G \<union> lets_in op, snd G \<or> pins op)"

lemma admission_changes:
  assumes "adm_effect op a b ns" and "admitted (fst G) (snd G) (Some a, ids)" and "\<forall>p \<in> set (adm_peers a). plain (peer_id p)"
    and "op_plain op"
  shows "(\<forall>p \<in> set (adm_peers b). plain (peer_id p)) \<and>
    (\<forall>p \<in> set ns. plain (peer_id p) \<and> (peer_state p = TETHER_PEER_ACCEPTED \<longrightarrow> guest (guests_after op G) (peer_id p)))"
  using assms(1)
proof cases
  case no_peer_change
  with assms(3) show ?thesis by simp
next
  case (new_peer f ck i n)
  let ?p = "auto_accept a f (Admission.new_peer (ck_seen ck) i n f)"
  have "?p = Admission.new_peer (ck_seen ck) i n f \<or> snd G"
    using auto_accept_pinned [of a f "Admission.new_peer (ck_seen ck) i n f"] assms(2) by (auto simp: admitted_def)
  moreover have "peer_id ?p = strncpy_buf TETHER_PEER_ID_MAX i"
    by (auto simp: auto_accept_def new_peer_def copy_field_def split: option.splits)
  ultimately show ?thesis
    using new_peer assms(3,4) by (auto simp: op_plain_def on_changed_def guest_def guests_after_def new_peer_def split: if_splits)
next
  case (peer_change i p pin st)
  have p: "p \<in> set (adm_peers a)" "peer_id p = i"
    using peer_change(2) by (auto simp: find_peer_locked_def has_peer_id_def dest: find_SomeD)
  have "plain (peer_id q)" if "q \<in> set (adm_peers b)" for q
    using that peer_change(4) assms(3) by (auto elim!: in_update_firstE simp: with_state_def)
  with p peer_change assms(3) show ?thesis
    by (auto simp: on_changed_def with_state_def guest_def guests_after_def split: if_splits)
next
  case revoked
  with assms(3) show ?thesis by simp
qed

lemma guests_after_same [simp]: "lets_in op = {} \<Longrightarrow> \<not> pins op \<Longrightarrow> guests_after op G = G"
  by (simp add: guests_after_def)

lemma create_session_right:
  assumes "create_session env s p = (s', outs)" and "ids_plain s" and "plain (peer_id p)"
  shows "ids_plain s' \<and> frames_right G outs \<and> sn_sig s' = sn_sig s"
  using assms by (auto simp: create_session_def Let_def ids_plain_def split: option.splits prod.splits)

lemma admission_changed_right:
  assumes "on_admission_changed env s p = (s', outs)" and "ids_plain s" and "plain (peer_id p)"
    and "peer_state p = TETHER_PEER_ACCEPTED \<longrightarrow> guest G (peer_id p)"
  shows "ids_plain s' \<and> frames_right G outs"
proof -
  note accept = sent_right_frames(1) [OF assms(3), of G "sn_sig s"] and reject = sent_right_frames(2) [OF assms(3), of G "sn_sig s"]
  show ?thesis
    using assms accept reject create_session_right [OF _ assms(2,3), of env _ _ G]
    by (cases "peer_state p") (auto simp: on_admission_changed_def split: prod.splits)
qed

lemma changed_peers_right:
  assumes "changed_peers env ps s = (s', outs)" and "ids_plain s"
    and "\<forall>p \<in> set ps. plain (peer_id p) \<and> (peer_state p = TETHER_PEER_ACCEPTED \<longrightarrow> guest G (peer_id p))"
  shows "ids_plain s' \<and> frames_right G outs"
  using assms
proof (induction ps arbitrary: s s' outs)
  case (Cons p ps)
  obtain s1 o1 s2 o2 where 1: "on_admission_changed env s p = (s1, o1)" "changed_peers env ps s1 = (s2, o2)" by fastforce
  have "ids_plain s1 \<and> frames_right G o1" by (rule admission_changed_right [OF 1(1)]) (use Cons.prems in auto)
  with Cons.IH [OF 1(2)] Cons.prems 1 show ?case by auto
qed simp

lemma operation_right:
  assumes "with_admission env (adm_call op (sn_adm s)) s = (s', outs)" and "sender_safe G s" and "op_plain op"
  shows "sender_safe (guests_after op G) s' \<and> frames_right (guests_after op G) outs"
proof -
  from assms(2) have adm: "admitted (fst G) (snd G) (sn_core s)" and ids: "ids_plain s" by (simp_all add: sender_safe_def)
  from adm obtain a where a: "sn_adm s = Some a" by (auto simp: admitted_def sn_core_def)
  obtain r ok ns where res: "adm_call op (Some a) = (r, ok, ns)" by (metis prod_cases3)
  from adm_call_effect [OF res] obtain b where b: "r = Some b" "adm_effect op a b ns" by blast
  have "admitted (fst G) (snd G) (Some a, map rs_peer_id (sn_sessions s))" using adm a by (simp add: sn_core_def)
  moreover have "\<forall>p \<in> set (adm_peers a). plain (peer_id p)" using ids a by (simp add: ids_plain_def)
  ultimately have c: "\<forall>p \<in> set (adm_peers b). plain (peer_id p)"
      "\<forall>p \<in> set ns. plain (peer_id p) \<and> (peer_state p = TETHER_PEER_ACCEPTED \<longrightarrow> guest (guests_after op G) (peer_id p))"
    using admission_changes [OF b(2) _ _ assms(3)] by blast+
  have "with_admission env (adm_call op (sn_adm s)) s = changed_peers env ns (s\<lparr>sn_adm := Some b\<rparr>)"
    by (simp add: with_admission_def a res b(1))
  then have "changed_peers env ns (s\<lparr>sn_adm := Some b\<rparr>) = (s', outs)" using assms(1) by simp
  from changed_peers_right [OF this _ c(2)] c(1) ids have "ids_plain s' \<and> frames_right (guests_after op G) outs"
    by (simp add: ids_plain_def)
  moreover have "admitted (fst G \<union> lets_in op) (snd G \<or> pins op) (sn_core s')"
    using admitted_operation [OF adm refl, of op env] assms(1) by simp
  ultimately show ?thesis by (simp add: sender_safe_def guests_after_def)
qed

lemma disconnect_right:
  "with_admission env (tether_admission_disconnect_peer (sn_adm s) i) s = (s', outs) \<Longrightarrow> sender_safe G s \<Longrightarrow>
    sender_safe G s' \<and> frames_right G outs"
  using operation_right [of env "DisconnectPeer i" s s' outs G] by (simp add: op_plain_def)

lemma request_right:
  "with_admission env (tether_admission_add_pending ck (sn_adm s) (Some i) n f) s = (s', outs) \<Longrightarrow> sender_safe G s \<Longrightarrow> plain i \<Longrightarrow>
    sender_safe G s' \<and> frames_right G outs"
  using operation_right [of env "AddPending ck (Some i) n f" s s' outs G] by (simp add: op_plain_def)

text \<open>What the client of the sender brings up: no request with an id that is not plain, and no text of a wrong class.\<close>

definition sig_out_right :: "guests \<Rightarrow> sig_out \<Rightarrow> bool" where
  "sig_out_right G out \<longleftrightarrow>
     (case out of
        Emit evt pid payload \<Rightarrow> evt = TETHER_SIG_EVT_REQUEST_PENDING \<longrightarrow> pred_option plain pid
      | WsSend h t \<Rightarrow> \<exists>ob. t = json_stringify ob \<and> from_sender G ob
      | _ \<Rightarrow> True)"

lemma sender_event_right:
  assumes "on_signaling_event env evt pid payload s = (s', outs)" and "sender_safe G s"
    and "evt = TETHER_SIG_EVT_REQUEST_PENDING \<longrightarrow> pred_option plain pid"
  shows "sender_safe G s' \<and> frames_right G outs"
proof (cases evt)
  case TETHER_SIG_EVT_REQUEST_PENDING
  with assms show ?thesis
    by (auto simp: Let_def split: option.splits prod.splits dest: request_right)
next
  case TETHER_SIG_EVT_PEER_GONE
  with assms show ?thesis by (auto split: option.splits prod.splits if_splits dest: disconnect_right)
next
  case TETHER_SIG_EVT_TOKEN_ISSUED
  with assms show ?thesis by (auto simp: Let_def sender_safe_def ids_plain_def split: option.splits)
qed (use assms in \<open>auto simp: Let_def split: option.splits prod.splits\<close>)

lemma deliver_right:
  assumes "sn_deliver_sig env outs s = (s', os)" and "sender_safe G s" and "\<forall>out \<in> set outs. sig_out_right G out"
  shows "sender_safe G s' \<and> frames_right G os"
  using assms
proof (induction outs arbitrary: s s' os)
  case (Cons out outs)
  obtain s1 o1 where s1: "(case out of Emit evt pid payload \<Rightarrow> on_signaling_event env evt pid payload s
      | _ \<Rightarrow> (s, [SnSig out])) = (s1, o1)" by fastforce
  have "sender_safe G s1 \<and> frames_right G o1"
  proof (cases out)
    case (Emit evt pid payload)
    with s1 Cons.prems sender_event_right [of env evt pid payload s s1 o1 G] show ?thesis by (simp add: sig_out_right_def)
  qed (use s1 Cons.prems in \<open>auto simp: sig_out_right_def\<close>)
  with Cons s1 show ?case by (auto split: prod.splits)
qed simp

lemma sender_socket_right:
  assumes "sig_call op sig = (sig', outs)" and "sig_named (Some sig)"
    and "socket_callback op \<or> (\<exists>ob n. op = SigReceived (Some (json_stringify ob)) n \<and> to_sender ob)"
  shows "sig_named (Some sig') \<and> (\<forall>out \<in> set outs. sig_out_right G out)"
  using assms(3)
proof
  assume "socket_callback op"
  moreover have "\<exists>ob. hello_json (sig\<lparr>sig_state := c\<rparr>) = json_stringify ob \<and> from_sender G ob" for c
    using sender_hello_text [of sig G] assms(2) by (simp add: sig_named_def)
  ultimately show ?thesis
    using assms(1,2)
    by (auto simp: socket_callback_def on_open_def on_closed_def on_error_def Signaling.set_state_def emit_def send_raw_def
        sig_named_def sig_out_right_def split: if_splits; blast)
next
  assume "\<exists>ob n. op = SigReceived (Some (json_stringify ob)) n \<and> to_sender ob"
  then obtain ob n ty where op: "op = SigReceived (Some (json_stringify ob)) n" and ty: "nice ob" "js_type ob ty" "plain ty"
    and id: "ty = ''pending'' \<longrightarrow> (\<exists>i. js_get ob ''peer_id'' = Some (JsStr i) \<and> plain i)" by (auto simp: to_sender_def)
  have "pred_option plain (json_dup_str (json_stringify ob) ''peer_id'')" if "ty = ''pending''"
    using id that nice_dup [OF ty(1), of "''peer_id''"] by auto
  with op assms(1,2) show ?thesis
    by (auto simp: on_message_def handle_message_def nice_reads [OF ty] emit_def Let_def sig_named_def sig_out_right_def
        split: if_splits)
qed

lemma wr_callback_described:
  assumes "wr_callback cb w = (w', outs)" and "described cb" and "out \<in> set outs"
  shows "case out of OnLocalSdp ty d \<Rightarrow> plain ty \<and> sdp_plain d | OnLocalIce c m n \<Rightarrow> plain c \<and> plain m
    | RtcSetRemoteDescription h d ty \<Rightarrow> False | RtcAddRemoteCandidate h c m \<Rightarrow> False | _ \<Rightarrow> True"
  using assms
  by (cases cb) (auto simp: described_def on_state_change_def on_local_description_def on_local_candidate_def on_track_message_def
      Let_def split: if_splits option.splits)

lemma deliver_wr_right:
  assumes "sn_deliver_wr env pid outs s = (s', os)" and "sender_safe G s" and "plain pid"
    and "\<forall>out \<in> set outs. case out of OnLocalSdp ty d \<Rightarrow> plain ty \<and> sdp_plain d | OnLocalIce c m n \<Rightarrow> plain c \<and> plain m | _ \<Rightarrow> True"
  shows "sender_safe G s' \<and> frames_right G os"
  using assms
proof (induction outs arbitrary: s s' os)
  case (Cons out outs)
  obtain s1 o1 where s1: "(case out of OnLocalSdp ty sdp \<Rightarrow> (s, session_local_sdp pid ty sdp s)
       | OnLocalIce cand mid mline \<Rightarrow> (s, session_local_ice pid cand mid mline s)
       | OnState st \<Rightarrow> session_state (ne_session env) pid st s
       | _ \<Rightarrow> (s, [SnWr pid out])) = (s1, o1)" by fastforce
  have "sender_safe G s1 \<and> frames_right G o1"
  proof (cases out)
    case (OnLocalSdp ty d)
    with s1 Cons.prems sent_right_frames(4) [OF assms(3), of ty d G "sn_sig s"] show ?thesis
      by (auto simp: session_local_sdp_def)
  next
    case (OnLocalIce c m n)
    with s1 Cons.prems sent_right_frames(5) [OF assms(3), of c m G "sn_sig s" n] show ?thesis
      by (auto simp: session_local_ice_def)
  next
    case (OnState st)
    with s1 Cons.prems show ?thesis
      by (auto simp: session_state_def Let_def split: if_splits prod.splits dest: disconnect_right)
  qed (use s1 Cons.prems in auto)
  with Cons s1 show ?case by (auto split: prod.splits)
qed simp

text \<open>The steps of the sender; \<open>reads_from P op\<close> says that the socket brings a text of the class \<open>P\<close>.\<close>

definition reads_from :: "(js_object \<Rightarrow> bool) \<Rightarrow> sig_op \<Rightarrow> bool" where
  "reads_from P op \<longleftrightarrow> socket_callback op \<or> (\<exists>ob n. op = SigReceived (Some (json_stringify ob)) n \<and> P ob)"

definition sender_may :: "sn_op \<Rightarrow> bool" where
  "sender_may op \<longleftrightarrow>
     (case op of
        SnSocket env sop \<Rightarrow> reads_from to_sender sop
      | SnRtc env k cb \<Rightarrow> described cb
      | SnDisconnect env i \<Rightarrow> pred_option plain i
      | _ \<Rightarrow> True)"

lemma ids_plain_eq:
  "ids_plain s \<longleftrightarrow> sig_named (sn_sig s) \<and> (\<forall>a. fst (sn_core s) = Some a \<longrightarrow> (\<forall>p \<in> set (adm_peers a). plain (peer_id p))) \<and>
    (\<forall>i \<in> set (snd (sn_core s)). plain i)"
  by (simp add: ids_plain_def sn_core_def)

lemma ids_plain_core: "sn_core s' = sn_core s \<Longrightarrow> sn_sig s' = sn_sig s \<Longrightarrow> ids_plain s' = ids_plain s"
  by (simp add: ids_plain_eq)

lemma encoded_silent [simp]: "frames_right G (concat (map (session_enc_out r) outs))"
  by (induction outs) (auto simp: session_enc_out_def split: enc_out.splits)

lemma encode_sessions_silent: "encode_sessions env br i fr k rs = Some (rs', outs) \<Longrightarrow> frames_right G outs"
proof (induction rs arbitrary: k rs' outs)
  case (Cons r rs)
  have "frames_right G o1" if "encode_for_session (env k) br i fr r = Some (r1, o1)" for r1 o1
    using that by (auto simp: encode_for_session_def split: if_splits)
  with Cons show ?case by (fastforce split: option.splits)
qed simp

lemma worker_visit_silent: "worker_visit env i s = Some (s', outs) \<Longrightarrow> frames_right G outs \<and> sn_sig s' = sn_sig s"
  by (auto simp: worker_visit_def encode_capture_to_sessions_def Let_def dest: encode_sessions_silent split: option.splits prod.splits)

lemma worker_visits_silent: "worker_visits env is s = Some (s', outs) \<Longrightarrow> frames_right G outs \<and> sn_sig s' = sn_sig s"
  by (induction "is" arbitrary: s s' outs) (fastforce dest!: worker_visit_silent split: option.splits)+

lemma sender_step_right:
  assumes "sn_call op s = Some (s', outs)" and "sender_safe G s" and "sender_may op"
  shows "sender_safe (fst G \<union> host_accepts op, snd G \<or> host_pins op) s' \<and>
    frames_right (fst G \<union> host_accepts op, snd G \<or> host_pins op) outs"
proof (cases op)
  case (SnSocket env sop)
  show ?thesis
  proof (cases "sn_sig s")
    case None
    with SnSocket assms show ?thesis by (simp add: sn_socket_event_def)
  next
    case (Some sig)
    obtain sig' os where call: "sig_call sop sig = (sig', os)" by fastforce
    have named: "sig_named (Some sig)" using assms(2) Some by (simp add: sender_safe_def ids_plain_def)
    from assms(3) SnSocket have "socket_callback sop \<or> (\<exists>ob n. sop = SigReceived (Some (json_stringify ob)) n \<and> to_sender ob)"
      by (simp add: sender_may_def reads_from_def)
    note c = sender_socket_right [OF call named this, of G]
    with assms(2) have "sender_safe G (s\<lparr>sn_sig := Some sig'\<rparr>)" by (simp add: sender_safe_def ids_plain_def)
    from deliver_right [OF _ this, of env os s' outs] c SnSocket assms(1) Some call show ?thesis
      by (simp add: sn_socket_event_def)
  qed
next
  case (SnRtc env k cb)
  show ?thesis
  proof (cases "k < length (sn_sessions s) \<and> rs_wrtc (sn_sessions s ! k) \<noteq> None")
    case True
    then obtain w where w: "rs_wrtc (sn_sessions s ! k) = Some w" by auto
    obtain w' os where cb: "wr_callback cb w = (w', os)" by fastforce
    let ?s = "s\<lparr>sn_sessions := (sn_sessions s)[k := (sn_sessions s ! k)\<lparr>rs_wrtc := Some w'\<rparr>]\<rparr>"
    have "sn_core ?s = sn_core s" using True by (simp add: sn_core_def map_peer_update)
    with assms(2) have safe: "sender_safe G ?s" using ids_plain_core [of ?s s] by (simp add: sender_safe_def)
    have pid: "plain (rs_peer_id (sn_sessions s ! k))" using assms(2) True by (simp add: sender_safe_def ids_plain_def)
    have run: "sn_deliver_wr env (rs_peer_id (sn_sessions s ! k)) os ?s = (s', outs)"
      using SnRtc assms(1) True w cb by (auto simp: sn_rtc_event_def Let_def)
    have "\<forall>out \<in> set os. case out of OnLocalSdp ty d \<Rightarrow> plain ty \<and> sdp_plain d | OnLocalIce c m n \<Rightarrow> plain c \<and> plain m | _ \<Rightarrow> True"
      using wr_callback_described [OF cb] assms(3) SnRtc by (fastforce simp: sender_may_def split: wr_out.splits)
    from deliver_wr_right [OF run safe pid this] SnRtc show ?thesis by simp
  next
    case False
    with SnRtc assms show ?thesis by (auto simp: sn_rtc_event_def Let_def split: if_splits)
  qed
next
  case (SnAccept env i pin)
  have "(fst G \<union> host_accepts op, snd G \<or> host_pins op) = guests_after (AcceptPeer i pin) G"
    using SnAccept by (cases i) (simp_all add: guests_after_def)
  with SnAccept assms operation_right [of env "AcceptPeer i pin" s s' outs G] show ?thesis
    by (simp add: tether_sender_accept_def op_plain_def)
next
  case (SnReject env i)
  with assms operation_right [of env "RejectPeer i" s s' outs G] show ?thesis
    by (simp add: tether_sender_reject_def op_plain_def)
next
  case (SnDisconnect env i)
  show ?thesis
  proof (cases i)
    case None
    with SnDisconnect assms show ?thesis by (simp add: tether_sender_disconnect_peer_def)
  next
    case (Some j)
    let ?s = "s\<lparr>sn_sessions := update_first (has_peer j) (\<lambda>r. fst (drop_media r)) (sn_sessions s)\<rparr>"
    have "sn_core ?s = sn_core s" by (simp add: sn_core_def drop_media_peers)
    with assms(2) have safe: "sender_safe G ?s" using ids_plain_core [of ?s s] by (simp add: sender_safe_def)
    obtain s2 o2 where s2: "with_admission env (tether_admission_disconnect_peer (sn_adm ?s) (Some j)) ?s = (s2, o2)" by fastforce
    have "frames_right G (snd (drop_media r))" for r :: "'a receiver_session" by (simp add: drop_media_def)
    moreover have "frames_right G (map SnSig (snd (tether_signaling_reject (sn_sig s2) (Some j))))"
      using assms(3) SnDisconnect Some by (intro sent_right_frames) (simp add: sender_may_def)
    ultimately show ?thesis
      using disconnect_right [OF s2 safe] Some SnDisconnect assms(1) s2
      by (auto simp: tether_sender_disconnect_peer_def Let_def split: option.splits)
  qed
next
  case SnRevoke
  then have s': "s' = s\<lparr>sn_adm := tether_admission_revoke_all (sn_adm s)\<rparr>"
    and outs: "outs = map SnSig (snd (tether_signaling_revoke_token (sn_sig s)))"
    using assms(1) by (simp_all add: tether_sender_revoke_token_def)
  have "ids_plain s'" using assms(2) unfolding s'
    by (auto simp: sender_safe_def ids_plain_def tether_admission_revoke_all_def split: option.splits)
  moreover have "admitted (fst G) (snd G) (sn_core s')"
    using admitted_step [of "fst G" "snd G" s op s' outs] assms(1,2) SnRevoke by (simp add: sender_safe_def)
  ultimately show ?thesis using SnRevoke outs sent_right_frames(3) [of G "sn_sig s"] by (simp add: sender_safe_def)
next
  case (SnRender env)
  then have "sn_core s' = sn_core s" "sn_sig s' = sn_sig s" "\<exists>os. outs = map SnCapture os"
    using assms(1) by (auto simp: graphics_render_cb_def Let_def)
  with SnRender assms(2) ids_plain_core [of s' s] show ?thesis by (auto simp: sender_safe_def frames_right_def)
next
  case (SnWork env)
  then have pass: "encoder_worker_pass env s = Some (s', outs)" using assms(1) by simp
  then have "sn_sig s' = sn_sig s" "frames_right G outs"
    using worker_visits_silent [of env _ s s' outs G] by (auto simp: encoder_worker_pass_def split: if_splits)
  with SnWork assms(2) ids_plain_core [of s' s] encoder_worker_pass_core [OF pass] show ?thesis by (simp add: sender_safe_def)
qed

section \<open>What a receiver keeps\<close>

definition sig_plain :: "tether_signaling \<Rightarrow> bool" where
  "sig_plain sig \<longleftrightarrow> sc_role (sig_cfg sig) = TETHER_ROLE_RECEIVER \<and> plain (sig_display_name sig) \<and> pred_option plain (sig_token sig)"

definition receiver_safe :: "bool \<Rightarrow> rx_session \<Rightarrow> bool" where
  "receiver_safe b x \<longleftrightarrow> sig_plain (rx_sig x) \<and> (rx_state x = TETHER_RX_STATE_ACCEPTED \<longrightarrow> b)"

text \<open>The peer connection is told of the other side.\<close>

fun reached :: "rx_out \<Rightarrow> bool" where
  "reached (RxWr (RtcSetRemoteDescription h d ty)) = True"
| "reached (RxWr (RtcAddRemoteCandidate h c m)) = True"
| "reached out = False"

definition outs_right :: "bool \<Rightarrow> rx_out list \<Rightarrow> bool" where
  "outs_right b outs \<longleftrightarrow> (\<forall>out \<in> set outs. (\<forall>f \<in> set (receiver_frames out). carries from_receiver f) \<and> (reached out \<longrightarrow> b))"

lemma outs_right_simps [simp]:
  "outs_right b []" "outs_right b (a @ a') \<longleftrightarrow> outs_right b a \<and> outs_right b a'"
  "outs_right b (out # outs) \<longleftrightarrow> (\<forall>f \<in> set (receiver_frames out). carries from_receiver f) \<and> (reached out \<longrightarrow> b) \<and> outs_right b outs"
  "outs_right b (map (\<lambda>s. SubState (u s) c) ss)" "outs_right b (map (\<lambda>s. SubVideo (u s) x y) ss)"
  "outs_right b (map (\<lambda>s. SubAudio (u s) x p q y) ss)" "outs_right True (map RxWr ws)"
  by (auto simp: outs_right_def)

lemma set_state_right:
  "rx_set_state st x = (x', outs) \<Longrightarrow> receiver_safe b x \<Longrightarrow> st = TETHER_RX_STATE_ACCEPTED \<longrightarrow> b \<Longrightarrow>
    receiver_safe b x' \<and> outs_right b outs"
  by (auto simp: rx_set_state_def receiver_safe_def split: if_splits)

definition event_right :: "bool \<Rightarrow> tether_signaling_event \<Rightarrow> bool" where
  "event_right b evt \<longleftrightarrow>
     (evt \<in> {TETHER_SIG_EVT_REQUEST_ACCEPTED, TETHER_SIG_EVT_SDP_OFFER, TETHER_SIG_EVT_ICE_CANDIDATE} \<longrightarrow> b)"

lemma receiver_event_right:
  assumes "rx_signaling_event rc rc2 evt payload x = (x', outs)" and "receiver_safe b x" and "event_right b evt"
  shows "receiver_safe b x' \<and> outs_right b outs"
proof (cases evt)
  case TETHER_SIG_EVT_REQUEST_ACCEPTED
  with assms show ?thesis using set_state_right [of TETHER_RX_STATE_ACCEPTED x x' outs b]
    by (auto simp: event_right_def split: if_splits)
next
  case TETHER_SIG_EVT_TOKEN_INVALID
  with assms show ?thesis using set_state_right [of TETHER_RX_STATE_FAILED x x' outs b] by simp
next
  case TETHER_SIG_EVT_TOKEN_LOCKED_OUT
  with assms show ?thesis using set_state_right [of TETHER_RX_STATE_FAILED x x' outs b] by simp
next
  case TETHER_SIG_EVT_SDP_OFFER
  with assms(3) have b by (simp add: event_right_def)
  obtain x1 o1 where 1: "rx_set_state TETHER_RX_STATE_NEGOTIATING x = (x1, o1)" by fastforce
  from set_state_right [OF this assms(2)] have "receiver_safe b x1" "outs_right b o1" by simp_all
  with TETHER_SIG_EVT_SDP_OFFER assms(1,2) 1 \<open>b\<close> show ?thesis
    by (auto split: if_splits option.splits)
next
  case TETHER_SIG_EVT_ICE_CANDIDATE
  with assms show ?thesis by (auto simp: event_right_def split: option.splits)
qed (use assms in auto)

definition rx_sig_out_right :: "bool \<Rightarrow> sig_out \<Rightarrow> bool" where
  "rx_sig_out_right b out \<longleftrightarrow>
     (case out of Emit evt pid payload \<Rightarrow> event_right b evt | WsSend h t \<Rightarrow> \<exists>ob. t = json_stringify ob \<and> from_receiver ob | _ \<Rightarrow> True)"

lemma rx_deliver_right:
  assumes "rx_deliver_sig rc rc2 outs x = (x', os)" and "receiver_safe b x" and "\<forall>out \<in> set outs. rx_sig_out_right b out"
  shows "receiver_safe b x' \<and> outs_right b os"
  using assms
proof (induction outs arbitrary: x x' os)
  case (Cons out outs)
  show ?case
  proof (cases out)
    case (Emit evt pid payload)
    obtain x1 o1 where 1: "rx_signaling_event rc rc2 evt payload x = (x1, o1)" by fastforce
    have "receiver_safe b x1 \<and> outs_right b o1"
      by (rule receiver_event_right [OF 1]) (use Cons.prems Emit in \<open>simp_all add: rx_sig_out_right_def\<close>)
    with Cons Emit 1 show ?thesis by (auto split: prod.splits)
  qed (use Cons in \<open>auto simp: rx_sig_out_right_def split: prod.splits\<close>)
qed simp

lemma receiver_socket_right:
  assumes "sig_call op sig = (sig', outs)" and "sig_plain sig" and "reads_from (to_receiver b) op"
  shows "sig_plain sig' \<and> (\<forall>out \<in> set outs. rx_sig_out_right b out)"
proof (cases "socket_callback op")
  case True
  moreover have "\<exists>ob. hello_json (sig\<lparr>sig_state := c\<rparr>) = json_stringify ob \<and> from_receiver ob" for c
    using receiver_hello_text [of sig] assms(2) by (simp add: sig_plain_def)
  ultimately show ?thesis
    using assms(1,2)
    by (auto simp: socket_callback_def on_open_def on_closed_def on_error_def Signaling.set_state_def emit_def send_raw_def
        sig_plain_def rx_sig_out_right_def event_right_def split: if_splits; blast)
next
  case False
  with assms(3) obtain ob n where op: "op = SigReceived (Some (json_stringify ob)) n" "to_receiver b ob"
    by (auto simp: reads_from_def)
  then obtain ty where ty: "nice ob" "js_type ob ty" "plain ty"
    "ty \<in> {''token_invalid'', ''token_locked_out'', ''rejected''} \<or> b \<and> ty \<in> {''accepted'', ''sdp'', ''ice''}"
    by (auto simp: to_receiver_def)
  show ?thesis
    using ty(4) op(1) assms(1,2)
    by (auto simp: on_message_def handle_message_def nice_reads [OF ty(1-3)] emit_def rx_sig_out_right_def event_right_def
        split: if_splits)
qed

lemma state_cb_right:
  "wrtc_state_cb st x = (x', outs) \<Longrightarrow> receiver_safe b x \<Longrightarrow> receiver_safe b x' \<and> outs_right b outs"
  using set_state_right by (cases st) auto

lemma remember_mid_same [simp]:
  "rx_sig (remember_mid_locked mid v x) = rx_sig x" "rx_state (remember_mid_locked mid v x) = rx_state x"
  by (simp_all add: remember_mid_locked_def)

lemma media_cb_right:
  "wrtc_video_cb now dat mid x = (x', outs) \<Longrightarrow> receiver_safe b x \<Longrightarrow> receiver_safe b x' \<and> outs_right b outs"
  "wrtc_audio_cb now dat mid x = (x', outs) \<Longrightarrow> receiver_safe b x \<Longrightarrow> receiver_safe b x' \<and> outs_right b outs"
  by (auto simp: wrtc_video_cb_def wrtc_audio_cb_def receiver_safe_def Let_def)

lemma rx_deliver_wr_right:
  assumes "rx_deliver_wr now outs x = (x', os)" and "receiver_safe b x"
    and "\<forall>out \<in> set outs. case out of OnLocalSdp ty d \<Rightarrow> plain ty \<and> sdp_plain d | OnLocalIce c m n \<Rightarrow> plain c \<and> plain m
      | RtcSetRemoteDescription h d ty \<Rightarrow> False | RtcAddRemoteCandidate h c m \<Rightarrow> False | _ \<Rightarrow> True"
  shows "receiver_safe b x' \<and> outs_right b os"
  using assms
proof (induction outs arbitrary: x x' os)
  case (Cons out outs)
  obtain x1 o1 where 1: "(case out of
         OnLocalSdp ty sdp \<Rightarrow> (x, wrtc_local_sdp ty sdp x)
       | OnLocalIce cand mid mline \<Rightarrow> (x, wrtc_local_ice cand mid mline x)
       | OnState st \<Rightarrow> wrtc_state_cb st x
       | OnVideo dat tid mid \<Rightarrow> wrtc_video_cb now dat mid x
       | OnAudio dat tid mid \<Rightarrow> wrtc_audio_cb now dat mid x
       | _ \<Rightarrow> (x, [RxWr out])) = (x1, o1)" by fastforce
  have "receiver_safe b x1 \<and> outs_right b o1"
  proof (cases out)
    case (OnLocalSdp ty d)
    with 1 Cons.prems receiver_texts(1) [of ty d] show ?thesis
      by (auto simp: wrtc_local_sdp_def tether_signaling_send_sdp_def send_raw_def)
  next
    case (OnLocalIce c m n)
    with 1 Cons.prems receiver_texts(2) [of c m n] show ?thesis
      by (auto simp: wrtc_local_ice_def tether_signaling_send_ice_def send_raw_def)
  next
    case (OnState st)
    with 1 Cons.prems state_cb_right [of st x x1 o1 b] show ?thesis by simp
  next
    case (OnVideo dat tid mid)
    with 1 Cons.prems media_cb_right(1) [of now dat mid x x1 o1 b] show ?thesis by simp
  next
    case (OnAudio dat tid mid)
    with 1 Cons.prems media_cb_right(2) [of now dat mid x x1 o1 b] show ?thesis by simp
  qed (use 1 Cons.prems in auto)
  with Cons 1 show ?case by (auto split: prod.splits)
qed simp

definition receiver_may :: "bool \<Rightarrow> rx_event \<Rightarrow> bool" where
  "receiver_may b ev \<longleftrightarrow> (case ev of RxSocketEvent rc rc2 op \<Rightarrow> reads_from (to_receiver b) op | RxRtcEvent now cb \<Rightarrow> described cb)"

lemma receiver_step_right:
  assumes "rx_session_step ev (x, []) = (x', outs)" and "receiver_safe b x" and "receiver_may b ev"
  shows "receiver_safe b x' \<and> outs_right b outs"
proof (cases ev)
  case (RxSocketEvent rc rc2 op)
  obtain sig' os where call: "sig_call op (rx_sig x) = (sig', os)" by fastforce
  have "sig_plain (rx_sig x)" "reads_from (to_receiver b) op" using assms(2,3) RxSocketEvent by (simp_all add: receiver_safe_def receiver_may_def)
  note c = receiver_socket_right [OF call this]
  then have "receiver_safe b (x\<lparr>rx_sig := sig'\<rparr>)" using assms(2) by (simp add: receiver_safe_def)
  from rx_deliver_right [OF _ this, of rc rc2 os x' outs] c assms(1) RxSocketEvent call show ?thesis
    by (simp add: rx_socket_event_def split: prod.splits)
next
  case (RxRtcEvent now cb)
  obtain w' os where call: "wr_callback cb (rx_wrtc x) = (w', os)" by fastforce
  have safe: "receiver_safe b (x\<lparr>rx_wrtc := w'\<rparr>)" using assms(2) by (simp add: receiver_safe_def)
  have "described cb" using assms(3) RxRtcEvent by (simp add: receiver_may_def)
  with wr_callback_described [OF call] have "\<forall>out \<in> set os. case out of OnLocalSdp ty d \<Rightarrow> plain ty \<and> sdp_plain d
      | OnLocalIce c m n \<Rightarrow> plain c \<and> plain m | RtcSetRemoteDescription h d ty \<Rightarrow> False | RtcAddRemoteCandidate h c m \<Rightarrow> False | _ \<Rightarrow> True"
    by blast
  from rx_deliver_wr_right [OF _ safe this, of now x' outs] assms(1) RxRtcEvent call show ?thesis
    by (simp add: rx_rtc_event_def split: prod.splits)
qed

section \<open>The invariant of the network\<close>

text \<open>What the ends of socket \<open>k\<close> may send up and down.\<close>

definition up_class :: "guests \<Rightarrow> nat \<Rightarrow> js_object \<Rightarrow> bool" where
  "up_class G k = (if k = 0 then from_sender G else from_receiver)"

definition down_class :: "guests \<Rightarrow> (nat \<times> string) set \<Rightarrow> nat \<Rightarrow> js_object \<Rightarrow> bool" where
  "down_class G I k = (if k = 0 then to_sender else to_receiver (invited G I k))"

lemma class_simps [simp]:
  "up_class G 0 = from_sender G" "k \<noteq> 0 \<Longrightarrow> up_class G k = from_receiver"
  "down_class G I 0 = to_sender" "k \<noteq> 0 \<Longrightarrow> down_class G I k = to_receiver (invited G I k)"
  by (simp_all add: up_class_def down_class_def)

definition net_safe :: "guests \<Rightarrow> (nat \<times> string) set \<Rightarrow> 'f network \<Rightarrow> bool" where
  "net_safe G I st \<longleftrightarrow>
     sender_safe G (nt_sender st) \<and>
     (\<forall>k x. nt_receivers st k = Some x \<longrightarrow> receiver_safe (invited G I k) x) \<and>
     (\<forall>n. room_seated G I (nt_rooms st n)) \<and>
     (\<forall>k. \<forall>f \<in> set (nt_up st k). carries (up_class G k) f) \<and>
     (\<forall>k. \<forall>f \<in> set (nt_down st k). carries (down_class G I k) f) \<and>
     (\<forall>k out. (k, out) \<in> set (nt_received st) \<longrightarrow> reached out \<longrightarrow> invited G I k)"

lemma net_safeD:
  assumes "net_safe G I st"
  shows "sender_safe G (nt_sender st)" and "nt_receivers st k = Some x \<Longrightarrow> receiver_safe (invited G I k) x"
    and "room_seated G I (nt_rooms st n)" and "f \<in> set (nt_up st k) \<Longrightarrow> carries (up_class G k) f"
    and "f \<in> set (nt_down st k) \<Longrightarrow> carries (down_class G I k) f"
    and "(k, out) \<in> set (nt_received st) \<Longrightarrow> reached out \<Longrightarrow> invited G I k"
  using assms by (simp_all add: net_safe_def)

lemma invited_mono: "invited (A, P) I k \<Longrightarrow> invited (A \<union> A', P \<or> P') (I \<union> I') k"
  using guest_mono [of A P] by (auto simp: invited_def)

lemma class_mono:
  "up_class (A, P) k ob \<Longrightarrow> up_class (A \<union> A', P \<or> P') k ob"
  "down_class (A, P) I k ob \<Longrightarrow> down_class (A \<union> A', P \<or> P') (I \<union> I') k ob"
  using guest_mono [of A P] invited_mono [of A P I k]
  by (auto simp: up_class_def down_class_def from_sender_def to_receiver_def split: if_splits)

lemma net_safe_mono:
  assumes "net_safe (A, P) I st"
  shows "net_safe (A \<union> A', P \<or> P') (I \<union> I') st"
proof -
  note safe = net_safeD [OF assms]
  have "sender_safe (A \<union> A', P \<or> P') (nt_sender st)"
    using safe(1) by (auto simp: sender_safe_def elim: admitted_mono)
  moreover have "receiver_safe (invited (A \<union> A', P \<or> P') (I \<union> I') k) x" if "nt_receivers st k = Some x" for k x
    using safe(2) [OF that] invited_mono [of A P I k A' P' I'] by (auto simp: receiver_safe_def)
  ultimately show ?thesis
    using room_seated_mono [OF safe(3)] carries_mono [OF safe(4) class_mono(1)] carries_mono [OF safe(5) class_mono(2)]
      invited_mono [OF safe(6)] by (simp add: net_safe_def)
qed

section \<open>The steps\<close>

lemma arrival_reads: "carries P f \<Longrightarrow> reads_from P (arrival f)"
  by (cases f) (auto simp: reads_from_def socket_callback_def)

lemma queue_extended:
  "\<forall>i. \<forall>f \<in> set (q i). carries (C i) f \<Longrightarrow> \<forall>f \<in> set fs. carries (C k) f \<Longrightarrow>
    \<forall>i. \<forall>f \<in> set ((q(k := q k @ fs)) i). carries (C i) f"
  by auto

lemma sender_acts_safe:
  assumes "sender_acts op st = Some st'" and "net_safe G I st" and "sender_may op"
  shows "net_safe (fst G \<union> host_accepts op, snd G \<or> host_pins op) I st'"
proof -
  let ?G = "(fst G \<union> host_accepts op, snd G \<or> host_pins op)"
  obtain s outs where call: "sn_call op (nt_sender st) = Some (s, outs)"
    and st': "st' = st\<lparr>nt_sender := s, nt_up := (nt_up st)(0 := nt_up st 0 @ concat (map sender_frames outs)),
      nt_sent := nt_sent st @ outs\<rparr>"
    using assms(1) by (auto simp: sender_acts_def)
  from net_safe_mono [of "fst G" "snd G" I st "host_accepts op" "host_pins op" "{}"] assms(2) have safe: "net_safe ?G I st" by simp
  have "sender_safe ?G s" "frames_right ?G outs"
    using sender_step_right [OF call net_safeD(1) [OF assms(2)] assms(3)] by blast+
  with safe queue_extended [of "nt_up st" "up_class ?G" "concat (map sender_frames outs)" 0] show ?thesis
    unfolding st' by (simp add: net_safe_def frames_right_def)
qed

lemma receiver_acts_safe:
  assumes "receiver_acts k ev st = Some st'" and "net_safe G I st" and "receiver_may (invited G I k) ev" and "k \<noteq> 0"
  shows "net_safe G I st'"
proof -
  obtain x x' outs where x: "nt_receivers st k = Some x" and step: "rx_session_step ev (x, []) = (x', outs)"
    and st': "st' = st\<lparr>nt_receivers := (nt_receivers st)(k \<mapsto> x'), nt_up := (nt_up st)(k := nt_up st k @ concat (map receiver_frames outs)),
      nt_received := nt_received st @ map (\<lambda>out. (k, out)) outs\<rparr>"
    using assms(1) by (auto simp: receiver_acts_def split: option.splits prod.splits)
  have "receiver_safe (invited G I k) x'" "outs_right (invited G I k) outs"
    using receiver_step_right [OF step net_safeD(2) [OF assms(2) x] assms(3)] by blast+
  then have "\<forall>i x. ((nt_receivers st)(k \<mapsto> x')) i = Some x \<longrightarrow> receiver_safe (invited G I i) x"
    "\<forall>i out. (i, out) \<in> set (nt_received st @ map (\<lambda>out. (k, out)) outs) \<longrightarrow> reached out \<longrightarrow> invited G I i"
    "\<forall>f \<in> set (concat (map receiver_frames outs)). carries (up_class G k) f"
    using net_safeD(2,6) [OF assms(2)] assms(4) by (auto simp: outs_right_def)
  with assms(2) queue_extended [of "nt_up st" "up_class G" "concat (map receiver_frames outs)" k] show ?thesis
    unfolding st' by (simp add: net_safe_def del: fun_upd_apply set_append)
qed

lemma sent_carries:
  assumes "\<forall>out \<in> set outs. sent_right G I out" and "\<forall>k. \<forall>f \<in> set (q k). carries (down_class G I k) f"
  shows "\<forall>k. \<forall>f \<in> set (fold server_send outs q k). carries (down_class G I k) f"
  using assms
proof (induction outs arbitrary: q)
  case (Cons out outs)
  have "\<forall>k. \<forall>f \<in> set (server_send out q k). carries (down_class G I k) f"
    using Cons.prems by (cases out) (auto simp: down_class_def)
  with Cons show ?case by simp
qed simp

lemma serves_safe:
  assumes "serves k env now uuid st = Some st'" and "net_safe G I st" and "plain uuid" and "(k, uuid) \<in> I"
  shows "net_safe G I st'"
proof -
  obtain n f fs r outs where up: "nt_up st k = f # fs"
    and r: "(case f of FrText t \<Rightarrow> onMessage env now uuid k (json_parse t) (nt_rooms st n) | FrClosed \<Rightarrow> onClose k (nt_rooms st n)) = (r, outs)"
    and st': "st' = st\<lparr>nt_rooms := (nt_rooms st)(n := r), nt_up := (nt_up st)(k := fs), nt_down := fold server_send outs (nt_down st)\<rparr>"
    using assms(1) by (auto simp: serves_def split: option.splits list.splits prod.splits)
  have room: "room_seated G I (nt_rooms st n)" by (rule net_safeD(3) [OF assms(2)])
  have "room_seated G I r \<and> (\<forall>out \<in> set outs. sent_right G I out)"
  proof (cases f)
    case FrClosed
    with r close_seated [OF _ room] show ?thesis by simp
  next
    case (FrText t)
    with net_safeD(4) [OF assms(2), of f k] up obtain ob where ob: "t = json_stringify ob" "up_class G k ob" by auto
    have "nice ob" using ob(2) by (auto simp: up_class_def from_sender_def from_receiver_def split: if_splits)
    with r FrText ob(1) have "onMessage env now uuid k (Some ob) (nt_rooms st n) = (r, outs)" by (simp add: nice_parse)
    moreover have "k = 0 \<Longrightarrow> from_sender G ob" "k \<noteq> 0 \<Longrightarrow> from_receiver ob" using ob(2) by (simp_all add: up_class_def)
    ultimately show ?thesis by (rule message_seated [OF _ room assms(3,4)])
  qed
  with sent_carries [of outs G I "nt_down st"] assms(2) up show ?thesis unfolding st' by (auto simp: net_safe_def)
qed

lemma joins_safe: "joins k minted st = Some st' \<Longrightarrow> net_safe G I st \<Longrightarrow> net_safe G I st'"
  by (auto simp: joins_def net_safe_def room_seated_def room_fetch_def Let_def split: option.splits edge_result.splits if_splits)

lemma read_safe:
  assumes "nt_down st k = f # fs" and "net_safe G I st"
  shows "net_safe G I (st\<lparr>nt_down := (nt_down st)(k := fs)\<rparr>)" and "carries (down_class G I k) f"
  using assms by (auto simp: net_safe_def)

section \<open>Runs\<close>

text \<open>What the libraries may bring, and what the steps give out and let in.\<close>

definition net_may :: "net_op \<Rightarrow> bool" where
  "net_may op \<longleftrightarrow>
     (case op of
        NetSender (SnSocket env sop) \<Rightarrow> socket_callback sop
      | NetSender sop \<Rightarrow> sender_may sop
      | NetReceiver k (RxSocketEvent rc rc2 sop) \<Rightarrow> socket_callback sop
      | NetReceiver k (RxRtcEvent now cb) \<Rightarrow> described cb
      | NetServe k env now uuid \<Rightarrow> plain uuid
      | _ \<Rightarrow> True)"

fun ids_given :: "net_op \<Rightarrow> (nat \<times> string) set" where
  "ids_given (NetServe k env now uuid) = {(k, uuid)}"
| "ids_given op = {}"

fun net_accepts :: "net_op \<Rightarrow> string set" where
  "net_accepts (NetSender op) = host_accepts op"
| "net_accepts op = {}"

fun net_pins :: "net_op \<Rightarrow> bool" where
  "net_pins (NetSender op) = host_pins op"
| "net_pins op = False"

lemma host_accepts_iff: "i \<in> host_accepts op \<longleftrightarrow> (\<exists>e pin. op = SnAccept e (Some i) pin)"
  by (cases op rule: host_accepts.cases) auto

lemma host_pins_iff: "host_pins op \<longleftrightarrow> (\<exists>e i. op = SnAccept e (Some i) True)"
  by (cases op rule: host_pins.cases) auto

lemma net_op_iff:
  "i \<in> net_accepts op \<longleftrightarrow> (\<exists>e pin. op = NetSender (SnAccept e (Some i) pin))"
  "net_pins op \<longleftrightarrow> (\<exists>e i. op = NetSender (SnAccept e (Some i) True))"
  "(k, i) \<in> ids_given op \<longleftrightarrow> (\<exists>env now. op = NetServe k env now i)"
  by (cases op; auto simp: host_accepts_iff host_pins_iff)+

lemma net_may_simps:
  "net_may (NetSender sop) \<Longrightarrow> sender_may sop"
  "net_may (NetReceiver k (RxSocketEvent rc rc2 op)) \<longleftrightarrow> socket_callback op"
  "net_may (NetReceiver k (RxRtcEvent n cb)) \<longleftrightarrow> described cb"
  "net_may (NetServe k env now uuid) \<longleftrightarrow> plain uuid"
  by (auto simp: net_may_def sender_may_def reads_from_def split: sn_op.splits)

lemma net_call_safe:
  assumes "net_call op st = Some st'" and "net_safe G I st" and "net_may op"
  shows "net_safe (fst G \<union> net_accepts op, snd G \<or> net_pins op) (I \<union> ids_given op) st'"
proof (cases op)
  case (NetJoin k minted)
  with assms joins_safe [of k minted st st' G I] show ?thesis by simp
next
  case (NetSender sop)
  then have "sender_acts sop st = Some st'" using assms(1) by (auto split: sn_op.splits if_splits)
  from sender_acts_safe [OF this assms(2)] NetSender assms(3) show ?thesis by (simp add: net_may_simps)
next
  case (NetReceiver k ev)
  then have act: "receiver_acts k ev st = Some st'" "k \<noteq> 0" using assms(1) by (auto split: rx_event.splits if_splits)
  have "receiver_may (invited G I k) ev"
    using assms(3) NetReceiver by (cases ev) (simp_all add: net_may_simps receiver_may_def reads_from_def)
  from receiver_acts_safe [OF act(1) assms(2) this act(2)] NetReceiver show ?thesis by simp
next
  case (NetServe k env now uuid)
  have "net_safe G (I \<union> {(k, uuid)}) st" using net_safe_mono [of "fst G" "snd G" I st "{}" False "{(k, uuid)}"] assms(2) by simp
  with serves_safe [of k env now uuid st st'] NetServe assms(1,3) show ?thesis by (simp add: net_may_simps)
next
  case (NetToSender env)
  then obtain f fs where down: "nt_down st 0 = f # fs"
    and act: "sender_acts (SnSocket env (arrival f)) (st\<lparr>nt_down := (nt_down st)(0 := fs)\<rparr>) = Some st'"
    using assms(1) by (auto split: list.splits)
  note read = read_safe [OF down assms(2)]
  have "sender_may (SnSocket env (arrival f))" using arrival_reads [OF read(2)] by (simp add: sender_may_def)
  from sender_acts_safe [OF act read(1) this] NetToSender show ?thesis by simp
next
  case (NetToReceiver k rc rc2)
  then obtain f fs where down: "nt_down st k = f # fs" and k: "k \<noteq> 0"
    and act: "receiver_acts k (RxSocketEvent rc rc2 (arrival f)) (st\<lparr>nt_down := (nt_down st)(k := fs)\<rparr>) = Some st'"
    using assms(1) by (auto split: list.splits if_splits)
  note read = read_safe [OF down assms(2)]
  have "receiver_may (invited G I k) (RxSocketEvent rc rc2 (arrival f))"
    using arrival_reads [OF read(2)] k by (simp add: receiver_may_def)
  from receiver_acts_safe [OF act read(1) this k] NetToReceiver show ?thesis by simp
qed

lemma net_run_safe:
  assumes "net_run ops st = Some st'" and "net_safe G I st" and "\<forall>op \<in> set ops. net_may op"
  shows "net_safe (fst G \<union> (\<Union>op \<in> set ops. net_accepts op), snd G \<or> (\<exists>op \<in> set ops. net_pins op)) (I \<union> (\<Union>op \<in> set ops. ids_given op)) st'"
  using assms
proof (induction ops arbitrary: st G I)
  case (Cons op ops)
  then obtain st1 where 1: "net_call op st = Some st1" "net_run ops st1 = Some st'" by (auto split: option.splits simp del: net_call.simps)
  have "net_safe (fst G \<union> net_accepts op, snd G \<or> net_pins op) (I \<union> ids_given op) st1"
    by (rule net_call_safe [OF 1(1)]) (use Cons.prems in simp_all)
  from Cons.IH [OF 1(2) this] Cons.prems show ?case by (simp add: Un_assoc disj_assoc)
qed simp

section \<open>The start\<close>

definition new_session :: "rx_session \<Rightarrow> bool" where
  "new_session x \<longleftrightarrow> (\<exists>env pc ws t x0 subs outs. session_create_locked env pc ws t = (Some x0, outs) \<and> x = x0\<lparr>rx_subs := subs\<rparr>)"

lemma normalised_well_formed: "tether_token_normalise s n = (True, Some t) \<Longrightarrow> tether_token_is_well_formed (Some t)"
  by (auto simp: tether_token_normalise_def Let_def split: option.splits if_splits)

lemma plain_Tether: "plain ''Tether''"
  by simp

lemma new_session_safe: "new_session x \<Longrightarrow> receiver_safe b x"
proof -
  assume "new_session x"
  then obtain env pc ws t x0 subs outs where x: "session_create_locked env pc ws t = (Some x0, outs)" "x = x0\<lparr>rx_subs := subs\<rparr>"
    by (auto simp: new_session_def)
  then obtain canon where canon: "tether_token_normalise (Some t) TETHER_TOKEN_BUF = (True, Some canon)"
    by (auto simp: session_create_locked_def split: prod.splits bool.splits option.splits)
  have p: "plain canon" "canon \<noteq> []" using token_facts(1,3) [OF normalised_well_formed [OF canon]] .
  have "rx_state x0 = TETHER_RX_STATE_AWAITING_ACCEPT \<and> sig_plain (rx_sig x0)"
    using x(1) canon p
    by (auto simp: session_create_locked_def tether_webrtc_create_def sig_plain_def nonempty_str_def
      tether_signaling_create_def rx_signaling_config_def rx_webrtc_config_def tether_signaling_connect_def Signaling.set_state_def
      emit_def rx_set_state_def Let_def split: if_splits option.splits)
  then show ?thesis using x(2) by (simp add: receiver_safe_def)
qed

lemma start_safe:
  fixes s :: "'f tether_sender"
  assumes "tether_sender_create e0 ws (Some c) cbs = (Some s, o1)" and "0 < ws"
    and "\<forall>first. first_source c = Some first \<longrightarrow> plain first"
    and "\<forall>k x. rxs k = Some x \<longrightarrow> new_session x" and "\<forall>n. ro_peers (rooms n) = []"
  shows "net_safe ({}, False) {} (net_start s rxs rooms)"
proof -
  obtain sig first where s: "first_source c = Some first" "sn_sig s = Some sig"
    "sc_role (sig_cfg sig) = TETHER_ROLE_SENDER" "sig_display_name sig = strncpy_buf 256 first"
    "sn_adm s = Some (tether_admission_create (sender_admission_config (with_defaults c)))" "sn_sessions s = []"
    by (rule created_sender [OF assms(1,2)])
  have "ids_plain s" using s assms(3) by (simp add: ids_plain_def sig_named_def tether_admission_create_def)
  then have "sender_safe ({}, False) s" using created_admitted [OF assms(1)] by (simp add: sender_safe_def)
  with assms(4,5) new_session_safe show ?thesis
    by (simp add: net_safe_def net_start_def room_seated_def)
qed

section \<open>Properties\<close>

text \<open>C2: Nobody enters uninvited, over all runs of one sender, its server and any number of new receive sessions, whatever the order of
  the steps, as long as names, ids and candidates hold no quotes, backslashes and control characters, and descriptions no control
  characters but line ends and tabs: a
  receive session that shows that it is accepted, or one whose peer connection was handed an offer or a candidate, sits on a
  socket for which the server made an id that the host accepted; or the host had pinned somebody.\<close>

theorem nobody_enters_uninvited:
  fixes s :: "'f tether_sender"
  assumes "tether_sender_create e0 ws (Some c) cbs = (Some s, o1)" and "0 < ws"
    and "\<forall>first. first_source c = Some first \<longrightarrow> plain first"
    and "\<forall>k x. rxs k = Some x \<longrightarrow> new_session x" and "\<forall>n. \<exists>store. rooms n = room_load store"
    and "\<forall>op \<in> set ops. net_may op" and "net_run ops (net_start s rxs rooms) = Some st"
    and "(\<exists>x. nt_receivers st k = Some x \<and> rx_state x = TETHER_RX_STATE_ACCEPTED) \<or> (\<exists>out. (k, out) \<in> set (nt_received st) \<and> reached out)"
  shows "(\<exists>env now i e pin. NetServe k env now i \<in> set ops \<and> NetSender (SnAccept e (Some i) pin) \<in> set ops) \<or>
    (\<exists>e i. NetSender (SnAccept e (Some i) True) \<in> set ops)"
proof -
  let ?G = "(\<Union>op \<in> set ops. net_accepts op, \<exists>op \<in> set ops. net_pins op)" and ?I = "\<Union>op \<in> set ops. ids_given op"
  have "\<forall>n. ro_peers (rooms n) = []" using assms(5) by (metis room_load_def room.select_convs(5))
  from net_run_safe [OF assms(7) start_safe [OF assms(1-4) this] assms(6)] have safe: "net_safe ?G ?I st" by simp
  have "invited ?G ?I k" using assms(8) net_safeD(2,6) [OF safe] by (auto simp: receiver_safe_def)
  then show ?thesis by (auto simp: invited_def guest_def net_op_iff; blast)
qed

text \<open>The host accepts the one who knocks, without pinning him.\<close>

definition demo_visit :: "net_op list" where
  "demo_visit = (registration demo_token ''s1'' demo_sender_env demo_server 1000 @ request 1 [] ''r1'' demo_sender_env demo_server 2000) @
     NetSender (SnAccept demo_session_env (Some ''r1'') False) # notice 1 demo_server 3000 ''u''"

lemma demo_visit_runs:
  "\<exists>st x. net_run demo_visit (net_start demo_sender [1 \<mapsto> demo_rx] (\<lambda>t. unused_room)) = Some st \<and>
     nt_receivers st 1 = Some x \<and> rx_state x = TETHER_RX_STATE_ACCEPTED"
proof -
  obtain o1 o2 where o: "tether_sender_create demo_sender_env 7 (Some demo_sender_cfg) (Some all_callbacks) = (Some demo_sender, o1)"
    "session_create_locked demo_env 1 7 demo_token = (Some demo_rx, o2)"
    using demo_sender_created demo_created by blast
  define p where "p = new_peer (ck_seen (ne_clock demo_sender_env)) ''r1'' (Some ''Tether'') (Some [])"
  let ?x1 = "demo_rx\<lparr>rx_sig := (rx_sig demo_rx)\<lparr>sig_state := TETHER_SIG_STATE_CONNECTED\<rparr>\<rparr>"
  let ?e = "1000 + min (re_max_ttl demo_server) (or_default (sd_token_ttl_minutes demo_sender_cfg) 30) * 60000"
  obtain st1 sig where k: "net_run (registration demo_token ''s1'' demo_sender_env demo_server 1000 @ request 1 [] ''r1'' demo_sender_env demo_server 2000)
      (net_start demo_sender [1 \<mapsto> demo_rx] (\<lambda>t. unused_room)) = Some st1"
    "knocked demo_sender all_callbacks demo_sender_cfg demo_token ?e 1 ''r1'' ''s1'' p (ck_attempt (ne_clock demo_sender_env)) [1 \<mapsto> demo_rx]
      demo_rx sig st1"
    by (rule first_knock [OF o(1) _ demo_plain o(2) _ demo_token_ok _ unused_room_def, where k = 1 and rid = "''r1''" and sid = "''s1''"
          and rxs = "[1 \<mapsto> demo_rx]" and env = demo_server and ?n0.0 = 1000 and ?n1.0 = 2000 and ?e1.0 = demo_sender_env and ?e2.0 = demo_sender_env
          and minted = "[]" and p = p])
       (simp_all add: demo_server_def demo_sender_cfg_def or_default_def TETHER_PEER_ID_MAX_def p_def)
  note a = knockedD [OF k(2)]
  note x = created_receiver [OF o(2) _ demo_token_ok, simplified]
  obtain st r w where v: "net_run (NetSender (SnAccept demo_session_env (Some ''r1'') False) # notice 1 demo_server 3000 ''u'') st1 = Some st"
    "let_in demo_sender demo_sender_cfg demo_token ?e 1 ''r1'' False p (ck_attempt (ne_clock demo_sender_env)) ?x1 sig r w st1 st"
    by (rule first_acceptance [OF a(3,2,1) p_def, where xe = demo_session_env and k = 1 and e = ?e and x = ?x1 and pin = False
          and env = demo_server and n = 3000 and u = "''u''"])
       (use a x in \<open>simp_all add: demo_session_env_def TETHER_PEER_ID_MAX_def awaiting_offer_def\<close>)
  from net_run_appendI [OF k(1) v(1)] let_inD(7) [OF v(2)] show ?thesis by (simp add: demo_visit_def)
qed

lemma nobody_enters_uninvited_witness:
  "\<exists>st x env now i e. net_run demo_visit (net_start demo_sender [1 \<mapsto> demo_rx] (\<lambda>t. unused_room)) = Some st \<and>
     nt_receivers st 1 = Some x \<and> rx_state x = TETHER_RX_STATE_ACCEPTED \<and>
     NetServe 1 env now i \<in> set demo_visit \<and> NetSender (SnAccept e (Some i) False) \<in> set demo_visit"
proof -
  obtain st x where v: "net_run demo_visit (net_start demo_sender [1 \<mapsto> demo_rx] (\<lambda>t. unused_room)) = Some st"
    "nt_receivers st 1 = Some x" "rx_state x = TETHER_RX_STATE_ACCEPTED" using demo_visit_runs by blast
  obtain o1 where o1: "tether_sender_create demo_sender_env 7 (Some demo_sender_cfg) (Some all_callbacks) = (Some demo_sender, o1)"
    using demo_sender_created by blast
  obtain o2 where "session_create_locked demo_env 1 7 demo_token = (Some demo_rx, o2)" using demo_created by blast
  moreover have "demo_rx = demo_rx\<lparr>rx_subs := rx_subs demo_rx\<rparr>" by simp
  ultimately have "new_session demo_rx" unfolding new_session_def by blast
  then have rxs: "\<forall>k y. [1 \<mapsto> demo_rx] k = Some y \<longrightarrow> new_session y" by simp
  have may: "\<forall>op \<in> set demo_visit. net_may op"
    by (simp add: demo_visit_def registration_def request_def notice_def net_may_def socket_callback_def sender_may_def)
  have rooms: "\<forall>n. \<exists>store. (\<lambda>t. unused_room) n = room_load store" using unused_room_def by blast
  have acc: "(\<exists>x. nt_receivers st 1 = Some x \<and> rx_state x = TETHER_RX_STATE_ACCEPTED) \<or>
      (\<exists>out. (1, out) \<in> set (nt_received st) \<and> reached out)" using v by blast
  have "(0 :: int) < 7" by simp
  from nobody_enters_uninvited [OF o1 this demo_plain rxs rooms may v(1) acc]
  have "(\<exists>env now i e pin. NetServe 1 env now i \<in> set demo_visit \<and> NetSender (SnAccept e (Some i) pin) \<in> set demo_visit) \<or>
    (\<exists>e i. NetSender (SnAccept e (Some i) True) \<in> set demo_visit)" .
  moreover have pin: "\<not> pin" if "NetSender (SnAccept e (Some i) pin) \<in> set demo_visit" for e i pin
    using that by (auto simp: demo_visit_def registration_def request_def notice_def)
  ultimately obtain env now i e p where i: "NetServe 1 env now i \<in> set demo_visit" "NetSender (SnAccept e (Some i) p) \<in> set demo_visit"
    by blast
  with pin [OF i(2)] have "NetSender (SnAccept e (Some i) False) \<in> set demo_visit" by simp
  with v i(1) show ?thesis by (intro exI conjI)
qed

end
