(* ===== verification/Locks.thy ===== *)
theory Locks
  imports Admission Signaling
begin

text \<open>
  Which locks the functions of the plugin take, in which order, and that its threads never block each other for good, unless it
  is a client of the command socket they wait for. The other theories take a critical section for one step; here it is what
  happens between taking a lock and giving it back.
\<close>

section \<open>Threads that take locks\<close>

text \<open>
  \<open>Lock\<close> takes a lock alone. \<open>Share\<close> takes it together with others who share it: that is how calls that are under way
  keep \<open>rtcDelete\<close> waiting. \<open>Await\<close> blocks until something happens outside of the program: a client of the command socket,
  named by its number, sends its line (or hangs up), or takes its reply (or has room for it in its buffer).
\<close>

datatype outside = ClientSpeaks nat | ClientTakes nat

datatype 'm lock_op = Lock 'm | Share 'm | Unlock 'm | Await outside

type_synonym 'm trace = "'m lock_op list"

definition within :: "'m \<Rightarrow> 'm trace \<Rightarrow> 'm trace" where
  "within m t = Lock m # t @ [Unlock m]"

definition during :: "'m \<Rightarrow> 'm trace \<Rightarrow> 'm trace" where
  "during m t = Share m # t @ [Unlock m]"

text \<open>A thread has operations left to do and locks it holds, each alone (\<^const>\<open>True\<close>) or shared.\<close>

type_synonym 'm thread = "'m trace \<times> ('m \<times> bool) list"

definition idle :: "'m thread" where
  "idle = ([], [])"

definition holds :: "'m thread \<Rightarrow> 'm \<Rightarrow> bool" where
  "holds th m \<longleftrightarrow> m \<in> fst ` set (snd th)"

definition holds_alone :: "'m thread \<Rightarrow> 'm \<Rightarrow> bool" where
  "holds_alone th m \<longleftrightarrow> (m, True) \<in> set (snd th)"

text \<open>The next operation of a thread, if it need not wait, when \<open>evs\<close> has happened outside.\<close>

definition act :: "outside list \<Rightarrow> nat \<Rightarrow> 'm thread list \<Rightarrow> 'm thread list option" where
  "act evs i ts =
     (if i < length ts
      then case ts ! i of
          ([], hs) \<Rightarrow> None
        | (Lock m # r, hs) \<Rightarrow> if list_ex (\<lambda>th. holds th m) ts then None else Some (ts[i := (r, (m, True) # hs)])
        | (Share m # r, hs) \<Rightarrow> if list_ex (\<lambda>th. holds_alone th m) ts then None else Some (ts[i := (r, (m, False) # hs)])
        | (Unlock m # r, hs) \<Rightarrow> if m \<in> fst ` set hs then Some (ts[i := (r, filter (\<lambda>h. fst h \<noteq> m) hs)]) else None
        | (Await e # r, hs) \<Rightarrow> if e \<in> set evs then Some (ts[i := (r, hs)]) else None
      else None)"

text \<open>A call begins, a thread goes on, or something happens outside.\<close>

datatype 'm thread_op = Begin nat "'m trace" | Act nat | Happens outside

fun thread_step :: "'m thread_op \<Rightarrow> outside list \<times> 'm thread list \<Rightarrow> (outside list \<times> 'm thread list) option" where
  "thread_step (Begin i t) (evs, ts) = (if i < length ts \<and> ts ! i = idle then Some (evs, ts[i := (t, [])]) else None)"
| "thread_step (Act i) (evs, ts) = map_option (Pair evs) (act evs i ts)"
| "thread_step (Happens e) (evs, ts) = Some (e # evs, ts)"

fun thread_run :: "'m thread_op list \<Rightarrow> outside list \<times> 'm thread list \<Rightarrow> (outside list \<times> 'm thread list) option" where
  "thread_run [] w = Some w"
| "thread_run (op # ops) w = (case thread_step op w of None \<Rightarrow> None | Some w' \<Rightarrow> thread_run ops w')"

text \<open>A thread whose next operation waits for something outside that has not happened.\<close>

definition awaits_outside :: "outside list \<Rightarrow> 'm thread \<Rightarrow> bool" where
  "awaits_outside evs th \<longleftrightarrow> (case fst th of Await e # r \<Rightarrow> e \<notin> set evs | _ \<Rightarrow> False)"

definition awaited :: "'m trace \<Rightarrow> outside set" where
  "awaited t = {e. Await e \<in> set t}"

text \<open>
  Traces whose locks are given back in reverse order and whose ranks grow inwards, all of them at least \<open>n\<close>; and the same
  as a check on what is left of a trace when the locks \<open>hs\<close> are held.
\<close>

inductive nested :: "('m \<Rightarrow> nat) \<Rightarrow> nat \<Rightarrow> 'm trace \<Rightarrow> bool" for rank :: "'m \<Rightarrow> nat" where
  nested_Nil: "nested rank n []"
| nested_append: "nested rank n a \<Longrightarrow> nested rank n b \<Longrightarrow> nested rank n (a @ b)"
| nested_await: "nested rank n [Await e]"
| nested_within: "n \<le> rank m \<Longrightarrow> nested rank (Suc (rank m)) t \<Longrightarrow> nested rank n (within m t)"
| nested_during: "n \<le> rank m \<Longrightarrow> nested rank (Suc (rank m)) t \<Longrightarrow> nested rank n (during m t)"

fun ordered :: "('m \<Rightarrow> nat) \<Rightarrow> 'm list \<Rightarrow> 'm trace \<Rightarrow> bool" where
  "ordered rank hs [] \<longleftrightarrow> hs = []"
| "ordered rank hs (Lock m # t) \<longleftrightarrow> (\<forall>h \<in> set hs. rank h < rank m) \<and> ordered rank (m # hs) t"
| "ordered rank hs (Share m # t) \<longleftrightarrow> (\<forall>h \<in> set hs. rank h < rank m) \<and> ordered rank (m # hs) t"
| "ordered rank hs (Await e # t) \<longleftrightarrow> ordered rank hs t"
| "ordered rank hs (Unlock m # t) \<longleftrightarrow> m \<in> set hs \<and> ordered rank (filter (\<lambda>h. h \<noteq> m) hs) t"

lemma nested_concat: "(\<And>t. t \<in> set ts \<Longrightarrow> nested rank n t) \<Longrightarrow> nested rank n (concat ts)"
  by (induction ts) (simp_all add: nested_Nil nested_append)

lemma nested_ordered:
  assumes "nested rank n t" and "\<forall>h \<in> set hs. rank h < n" and "ordered rank hs rest"
  shows "ordered rank hs (t @ rest)"
  using assms
proof (induction arbitrary: hs rest)
  case (nested_within n m t)
  have "filter (\<lambda>h. h \<noteq> m) hs = hs" using nested_within.prems(1) nested_within.hyps(1) by (auto simp: filter_id_conv)
  then have "ordered rank (m # hs) (t @ Unlock m # rest)"
    using nested_within.prems nested_within.hyps(1) by (intro nested_within.IH) auto
  then show ?case using nested_within.prems(1) nested_within.hyps(1) by (auto simp: within_def)
next
  case (nested_during n m t)
  have "filter (\<lambda>h. h \<noteq> m) hs = hs" using nested_during.prems(1) nested_during.hyps(1) by (auto simp: filter_id_conv)
  then have "ordered rank (m # hs) (t @ Unlock m # rest)"
    using nested_during.prems nested_during.hyps(1) by (intro nested_during.IH) auto
  then show ?case using nested_during.prems(1) nested_during.hyps(1) by (auto simp: during_def)
qed simp_all

definition thread_ok :: "('m \<Rightarrow> nat) \<Rightarrow> 'm thread \<Rightarrow> bool" where
  "thread_ok rank th \<longleftrightarrow> ordered rank (map fst (snd th)) (fst th)"

definition busy :: "'m thread \<Rightarrow> bool" where
  "busy th \<longleftrightarrow> fst th \<noteq> []"

text \<open>What a busy thread has to wait for, if anything.\<close>

definition wanted :: "'m thread \<Rightarrow> 'm option" where
  "wanted th = (case fst th of Lock m # r \<Rightarrow> Some m | Share m # r \<Rightarrow> Some m | _ \<Rightarrow> None)"

definition work_left :: "'m thread list \<Rightarrow> nat" where
  "work_left ts = sum_list (map (\<lambda>th. length (fst th)) ts)"

locale lock_order =
  fixes rank :: "'m \<Rightarrow> nat"
    and call :: "'m trace \<Rightarrow> bool"
  assumes calls_nested: "call t \<Longrightarrow> nested rank 0 t"
begin

lemma call_ok: "call t \<Longrightarrow> thread_ok rank (t, [])"
  using nested_ordered [OF calls_nested, of t "[]" "[]"] by (simp add: thread_ok_def)

lemma idle_ok: "thread_ok rank idle"
  by (simp add: thread_ok_def idle_def)

lemma not_busy: "thread_ok rank th \<Longrightarrow> \<not> busy th \<Longrightarrow> th = idle"
  by (cases th) (simp add: thread_ok_def busy_def idle_def)

lemma act_ok: "act evs i ts = Some ts' \<Longrightarrow> \<forall>th \<in> set ts. thread_ok rank th \<Longrightarrow> \<forall>th \<in> set ts'. thread_ok rank th"
proof -
  assume a: "act evs i ts = Some ts'" and ok: "\<forall>th \<in> set ts. thread_ok rank th"
  obtain r hs where th: "ts ! i = (r, hs)" by fastforce
  have i: "i < length ts" using a by (simp add: act_def split: if_splits)
  with ok th have "thread_ok rank (r, hs)" by (metis nth_mem)
  then have "thread_ok rank (ts' ! i)"
    using a th i by (auto simp: act_def thread_ok_def filter_map comp_def split: list.splits lock_op.splits if_splits)
  moreover have "ts' = ts[i := ts' ! i]"
    using a th i by (auto simp: act_def split: list.splits lock_op.splits if_splits)
  ultimately show ?thesis using ok by (metis set_update_subset_insert subsetD insertE)
qed

lemma act_next:
  assumes "act evs i ts = Some ts'"
  obtains x r hs hs' where "i < length ts" and "ts ! i = (x # r, hs)" and "ts' = ts[i := (r, hs')]"
proof -
  have "i < length ts" using assms by (simp add: act_def split: if_splits)
  with assms that show thesis
    by (auto simp: act_def split: prod.splits list.splits lock_op.splits if_splits)
qed

lemma act_shrinks: "act evs i ts = Some ts' \<Longrightarrow> work_left ts' < work_left ts \<and> length ts' = length ts"
proof (elim act_next)
  fix x r hs hs'
  assume i: "i < length ts" and "ts ! i = (x # r, hs)" "ts' = ts[i := (r, hs')]"
  moreover have "length (fst (ts ! i)) \<le> work_left ts"
    unfolding work_left_def using i by (intro member_le_sum_list) auto
  ultimately show ?thesis
    by (simp add: work_left_def map_update sum_list_update)
qed

lemma act_awaited:
  assumes "act evs i ts = Some ts'"
  shows "(\<Union>th \<in> set ts'. awaited (fst th)) \<subseteq> (\<Union>th \<in> set ts. awaited (fst th))"
  using assms
proof (rule act_next)
  fix x r hs hs'
  assume i: "i < length ts" "ts ! i = (x # r, hs)" "ts' = ts[i := (r, hs')]"
  have old: "(x # r, hs) \<in> set ts" using i(1,2) by (metis nth_mem)
  have less: "awaited r \<subseteq> awaited (x # r)" by (auto simp: awaited_def)
  show ?thesis
  proof (rule UN_least)
    fix th assume "th \<in> set ts'"
    then consider "th = (r, hs')" | "th \<in> set ts" unfolding i(3) by (meson set_update_subset_insert subsetD insertE)
    then show "awaited (fst th) \<subseteq> (\<Union>th \<in> set ts. awaited (fst th))"
    proof cases
      case 1
      with less have "awaited (fst th) \<subseteq> awaited (fst (x # r, hs))" by simp
      also have "\<dots> \<subseteq> (\<Union>th \<in> set ts. awaited (fst th))" using old by (rule UN_upper)
      finally show ?thesis .
    qed (rule UN_upper)
  qed
qed

text \<open>A thread that has to wait wants a lock that some thread holds, or waits for something outside.\<close>

lemma waits_for:
  assumes "i < length ts" and "busy (ts ! i)" and "thread_ok rank (ts ! i)" and "act evs i ts = None"
    and "\<not> awaits_outside evs (ts ! i)"
  obtains m th where "wanted (ts ! i) = Some m" and "th \<in> set ts" and "holds th m"
proof -
  obtain op r hs where th: "ts ! i = (op # r, hs)" using assms(2) by (cases "ts ! i"; cases "fst (ts ! i)") (auto simp: busy_def)
  show thesis
  proof (cases op)
    case (Unlock m)
    with th assms(1,3,4) show ?thesis by (auto simp: act_def thread_ok_def)
  next
    case (Await e)
    with th assms(1,4,5) show ?thesis by (auto simp: act_def awaits_outside_def split: if_splits)
  next
    case (Lock m)
    with th assms(1,4) that [of m] show ?thesis by (auto simp: act_def wanted_def list_ex_iff split: if_splits)
  next
    case (Share m)
    with th assms(1,4) that [of m] show ?thesis
      by (auto simp: act_def wanted_def list_ex_iff holds_def holds_alone_def split: if_splits; force)
  qed
qed

lemma holder_wants_more: "thread_ok rank th \<Longrightarrow> holds th m \<Longrightarrow> wanted th = Some m' \<Longrightarrow> rank m < rank m'"
  by (auto simp: thread_ok_def holds_def wanted_def split: list.splits lock_op.splits)

lemma holder_busy: "thread_ok rank th \<Longrightarrow> holds th m \<Longrightarrow> busy th"
  by (auto simp: thread_ok_def holds_def busy_def)

lemma somebody_acts:
  assumes "\<forall>th \<in> set ts. thread_ok rank th" and "\<exists>th \<in> set ts. busy th" and "\<forall>th \<in> set ts. \<not> awaits_outside evs th"
  shows "\<exists>i ts'. act evs i ts = Some ts'"
proof (rule ccontr)
  assume "\<not> ?thesis"
  then have stuck: "act evs i ts = None" for i by auto
  have waits: "\<exists>m th'. wanted th = Some m \<and> th' \<in> set ts \<and> holds th' m" if "th \<in> set ts" "busy th" for th
  proof -
    from that(1) obtain i where "i < length ts" "ts ! i = th" by (auto simp: in_set_conv_nth)
    with waits_for [of i ts evs] stuck assms(1,3) that show ?thesis by (metis nth_mem)
  qed
  have "\<exists>th \<in> set ts. busy th \<and> n \<le> rank (the (wanted th))" for n
  proof (induction n)
    case 0
    with assms(2) show ?case by simp
  next
    case (Suc n)
    then obtain th m th' where "th \<in> set ts" "wanted th = Some m" "n \<le> rank m" "th' \<in> set ts" "holds th' m"
      using waits by fastforce
    moreover from this assms(1) holder_busy have "busy th'" by blast
    moreover from this \<open>th' \<in> set ts\<close> waits obtain m' where "wanted th' = Some m'" by blast
    ultimately show ?case using assms(1) holder_wants_more [of th' m m'] by (intro bexI [of _ th']) auto
  qed
  from this [of "Suc (Max ((\<lambda>th. rank (the (wanted th))) ` set ts))"] obtain th where "th \<in> set ts"
    "Suc (Max ((\<lambda>th. rank (the (wanted th))) ` set ts)) \<le> rank (the (wanted th))" by blast
  moreover from this have "rank (the (wanted th)) \<le> Max ((\<lambda>th. rank (the (wanted th))) ` set ts)" by (intro Max_ge) auto
  ultimately show False by simp
qed

lemma run_ok:
  "thread_run ops (evs, ts) = Some (evs', ts') \<Longrightarrow> \<forall>th \<in> set ts. thread_ok rank th \<Longrightarrow> \<forall>i t. Begin i t \<in> set ops \<longrightarrow> call t \<Longrightarrow>
    (\<forall>th \<in> set ts'. thread_ok rank th) \<and> length ts' = length ts"
proof (induction ops arbitrary: evs ts)
  case (Cons op ops)
  then obtain evs1 ts1 where 1: "thread_step op (evs, ts) = Some (evs1, ts1)" "thread_run ops (evs1, ts1) = Some (evs', ts')"
    by (auto split: option.splits simp del: thread_step.simps)
  have "(\<forall>th \<in> set ts1. thread_ok rank th) \<and> length ts1 = length ts"
  proof (cases op)
    case (Begin i t)
    with Cons.prems call_ok have "thread_ok rank (t, [])" by auto
    with 1(1) Begin Cons.prems(2) show ?thesis by (auto split: if_splits dest!: set_update_subset_insert [THEN subsetD])
  next
    case (Act i)
    with 1(1) have act: "act evs i ts = Some ts1" by auto
    from act_ok [OF act Cons.prems(2)] act_shrinks [OF act] show ?thesis by simp
  next
    case (Happens e)
    with 1(1) Cons.prems(2) show ?thesis by simp
  qed
  with Cons.IH [OF 1(2)] Cons.prems(3) show ?case by simp
qed simp

lemma acts_ok:
  "thread_run (map Act is) (evs, ts) = Some (evs', ts') \<Longrightarrow> \<forall>th \<in> set ts. thread_ok rank th \<Longrightarrow>
    evs' = evs \<and> (\<forall>th \<in> set ts'. thread_ok rank th) \<and> length ts' = length ts \<and> work_left ts' + length is \<le> work_left ts \<and>
    (\<Union>th \<in> set ts'. awaited (fst th)) \<subseteq> (\<Union>th \<in> set ts. awaited (fst th))"
proof (induction "is" arbitrary: ts)
  case (Cons i "is")
  then obtain ts1 where 1: "act evs i ts = Some ts1" "thread_run (map Act is) (evs, ts1) = Some (evs', ts')"
    by (auto split: option.splits)
  note rest = Cons.IH [OF 1(2) act_ok [OF 1(1) Cons.prems(2)]]
  from subset_trans [OF _ act_awaited [OF 1(1)]] rest
  have "(\<Union>th \<in> set ts'. awaited (fst th)) \<subseteq> (\<Union>th \<in> set ts. awaited (fst th))" by blast
  with rest act_shrinks [OF 1(1)] show ?case by simp
qed simp

lemma threads_finish:
  assumes "thread_run ops ([], replicate n idle) = Some (evs, ts)" and "\<forall>i t. Begin i t \<in> set ops \<longrightarrow> call t"
    and "thread_run (map Act is) (evs, ts) = Some (evs', ts')"
  shows "length is \<le> work_left ts"
    and "(\<exists>i. act evs' i ts' \<noteq> None) \<or> ts' = replicate n idle \<or> (\<exists>th \<in> set ts'. awaits_outside evs' th)"
    and "(\<Union>th \<in> set ts. awaited (fst th)) \<subseteq> set evs \<Longrightarrow> \<not> (\<exists>th \<in> set ts'. awaits_outside evs' th)"
proof -
  have "\<forall>th \<in> set (replicate n idle). thread_ok rank th" using idle_ok by simp
  from run_ok [OF assms(1) this assms(2)] have ok: "\<forall>th \<in> set ts. thread_ok rank th" "length ts = n" by simp_all
  note acts = acts_ok [OF assms(3) ok(1)]
  then show "length is \<le> work_left ts" by simp
  show "(\<exists>i. act evs' i ts' \<noteq> None) \<or> ts' = replicate n idle \<or> (\<exists>th \<in> set ts'. awaits_outside evs' th)"
  proof (cases "\<exists>th \<in> set ts'. busy th")
    case True
    with somebody_acts [of ts' evs'] acts show ?thesis by fastforce
  next
    case False
    with acts ok(2) not_busy show ?thesis by (simp add: list_eq_iff_nth_eq)
  qed
  have "\<not> awaits_outside evs' th" if all: "(\<Union>th \<in> set ts. awaited (fst th)) \<subseteq> set evs" and th: "th \<in> set ts'" for th
  proof -
    have "awaited (fst th) \<subseteq> (\<Union>th \<in> set ts'. awaited (fst th))" using th by (rule UN_upper)
    also have "\<dots> \<subseteq> (\<Union>th \<in> set ts. awaited (fst th))" using acts by simp
    also have "\<dots> \<subseteq> set evs'" using acts all by simp
    finally show ?thesis by (auto simp: awaits_outside_def awaited_def split: list.splits lock_op.splits)
  qed
  then show "(\<Union>th \<in> set ts. awaited (fst th)) \<subseteq> set evs \<Longrightarrow> \<not> (\<exists>th \<in> set ts'. awaits_outside evs' th)" by blast
qed

end

section \<open>The locks of the plugin\<close>

text \<open>
  Objects are named by their addresses. Four of these are not mutexes of the plugin: \<open>GraphicsContext\<close> and \<open>RenderCallbacks\<close> are
  held by libobs while it renders, \<open>AudioCallbacks\<close> while a source hands out audio, and removing a callback takes them. A
  call of libdatachannel that is under way shares the callbacks of its handle, and deleting the handle takes them alone,
  since \<open>rtcDelete\<close> returns when no call is under way. \<open>ControlThread\<close> and \<open>EncoderThread\<close> are held by these two threads while they
  cannot be joined, and taken by \<open>pthread_join\<close>: the one of the control plane from the moment it has accepted a client until it has
  closed the connection, which includes the wait for the client's line and for room for the reply, and the encoder's while it works
  on a frame.
\<close>

datatype mutex =
    ControlThread
  | GraphicsContext
  | RenderCallbacks
  | EncoderThread nat
  | SocketCallbacks nat
  | SessionsLock
  | FrameLock nat
  | SenderLock nat
  | PeerCallbacks nat
  | TrackCallbacks nat
  | AudioCallbacks nat
  | AdmissionLock nat
  | SessionLock nat
  | WebrtcLock nat
  | ControlLock
  | AudioSenderLock nat
  | TrackLock nat
  | AudioReceiverLock nat
  | DecoderLock nat
  | SignalingLock nat
  | TokensLock

text \<open>The order in which they may be taken.\<close>

fun mutex_rank :: "mutex \<Rightarrow> nat" where
  "mutex_rank ControlThread = 0"
| "mutex_rank GraphicsContext = 1"
| "mutex_rank RenderCallbacks = 2"
| "mutex_rank (EncoderThread s) = 2"
| "mutex_rank (SocketCallbacks s) = 2"
| "mutex_rank SessionsLock = 3"
| "mutex_rank (FrameLock s) = 3"
| "mutex_rank (SenderLock s) = 3"
| "mutex_rank (PeerCallbacks w) = 4"
| "mutex_rank (TrackCallbacks tr) = 4"
| "mutex_rank (AudioCallbacks src) = 4"
| "mutex_rank (AdmissionLock s) = 5"
| "mutex_rank (SessionLock x) = 5"
| "mutex_rank (WebrtcLock w) = 5"
| "mutex_rank ControlLock = 5"
| "mutex_rank (AudioSenderLock au) = 5"
| "mutex_rank (TrackLock t) = 5"
| "mutex_rank (AudioReceiverLock ar) = 5"
| "mutex_rank (DecoderLock s) = 5"
| "mutex_rank (SignalingLock s) = 5"
| "mutex_rank TokensLock = 5"

text \<open>Known tokens: every function of the module is one critical section.\<close>

definition tether_known_tokens_init_locks :: "mutex trace" where
  "tether_known_tokens_init_locks = within TokensLock []"

definition tether_known_tokens_shutdown_locks :: "mutex trace" where
  "tether_known_tokens_shutdown_locks = within TokensLock []"

definition tether_known_tokens_get_name_locks :: "mutex trace" where
  "tether_known_tokens_get_name_locks = within TokensLock []"

definition tether_known_tokens_add_locks :: "mutex trace" where
  "tether_known_tokens_add_locks = within TokensLock []"

definition tether_known_tokens_remove_locks :: "mutex trace" where
  "tether_known_tokens_remove_locks = within TokensLock []"

definition tether_known_tokens_set_name_locks :: "mutex trace" where
  "tether_known_tokens_set_name_locks = within TokensLock []"

definition tether_known_tokens_snapshot_locks :: "mutex trace" where
  "tether_known_tokens_snapshot_locks = within TokensLock []"

text \<open>The waiting room calls back after it let go of its lock; \<open>changed\<close> is what the callback does, if it is called.\<close>

definition tether_admission_add_pending_locks :: "nat \<Rightarrow> mutex trace option \<Rightarrow> mutex trace" where
  "tether_admission_add_pending_locks s changed =
     within (AdmissionLock s) [] @ (case changed of None \<Rightarrow> [] | Some t \<Rightarrow> t)"

definition set_peer_state_locks :: "nat \<Rightarrow> mutex trace option \<Rightarrow> mutex trace" where
  "set_peer_state_locks s changed =
     within (AdmissionLock s) [] @ (case changed of None \<Rightarrow> [] | Some t \<Rightarrow> t)"

definition tether_admission_revoke_all_locks :: "nat \<Rightarrow> mutex trace" where
  "tether_admission_revoke_all_locks s = within (AdmissionLock s) []"

text \<open>The signaling client of the object \<open>s\<close>. A message that issues a token changes it under the lock of the client; then the event goes up.\<close>

definition handle_message_locks :: "nat \<Rightarrow> bool \<Rightarrow> mutex trace \<Rightarrow> mutex trace" where
  "handle_message_locks s issued cb = (if issued then within (SignalingLock s) [] else []) @ cb"

definition tether_signaling_disconnect_locks :: "nat \<Rightarrow> bool \<Rightarrow> mutex trace" where
  "tether_signaling_disconnect_locks s is_open = (if is_open then within (SocketCallbacks s) [] else [])"

text \<open>Peer connections.\<close>

definition on_local_description_locks :: "nat \<Rightarrow> bool \<Rightarrow> mutex trace \<Rightarrow> mutex trace" where
  "on_local_description_locks w fp cb = (if fp then within (WebrtcLock w) [] else []) @ cb"

definition on_track_message_locks :: "nat \<Rightarrow> bool \<Rightarrow> mutex trace \<Rightarrow> mutex trace" where
  "on_track_message_locks w is_text cb = (if is_text then [] else within (WebrtcLock w) [] @ cb)"

definition on_track_locks :: "nat \<Rightarrow> mutex trace" where
  "on_track_locks w = within (WebrtcLock w) []"

definition tether_webrtc_add_video_track_locks :: "nat \<Rightarrow> bool \<Rightarrow> mutex trace" where
  "tether_webrtc_add_video_track_locks w added = (if added then within (WebrtcLock w) [] else [])"

definition tether_webrtc_add_audio_track_locks :: "nat \<Rightarrow> bool \<Rightarrow> mutex trace" where
  "tether_webrtc_add_audio_track_locks w added = (if added then within (WebrtcLock w) [] else [])"

definition tether_webrtc_release_locks :: "nat \<times> nat list \<Rightarrow> mutex trace" where
  "tether_webrtc_release_locks = (\<lambda>(w, tracks). concat (map (\<lambda>tr. within (TrackCallbacks tr) []) tracks) @ within (PeerCallbacks w) [])"

text \<open>Audio. \<open>source\<close> is what becomes of an attachment: the source is missing, its track or its encoder cannot be made, or it is done.\<close>

datatype attach_result = SourceMissing | TrackRefused | EncoderFailed | Attached

definition on_audio_capture_locks :: "nat \<Rightarrow> bool \<Rightarrow> mutex trace" where
  "on_audio_capture_locks t muted = (if muted then [] else within (TrackLock t) [])"

definition tether_audio_sender_attach_locks :: "nat \<Rightarrow> nat \<Rightarrow> nat \<times> attach_result \<Rightarrow> mutex trace" where
  "tether_audio_sender_attach_locks w au = (\<lambda>(src, result).
     (if result = SourceMissing then []
      else tether_webrtc_add_audio_track_locks w (result \<noteq> TrackRefused) @
        (if result = Attached then within (AudioCallbacks src) [] @ within (AudioSenderLock au) [] else [])))"

definition tether_audio_sender_detach_locks :: "nat \<Rightarrow> nat option \<Rightarrow> mutex trace" where
  "tether_audio_sender_detach_locks au found =
     within (AudioSenderLock au) [] @ (case found of None \<Rightarrow> [] | Some src \<Rightarrow> within (AudioCallbacks src) [])"

definition tether_audio_sender_release_locks :: "nat list \<Rightarrow> mutex trace" where
  "tether_audio_sender_release_locks srcs = concat (map (\<lambda>src. within (AudioCallbacks src) []) srcs)"

definition tether_audio_receiver_push_packet_locks :: "nat \<Rightarrow> bool \<Rightarrow> mutex trace" where
  "tether_audio_receiver_push_packet_locks ar dropped = (if dropped then [] else within (AudioReceiverLock ar) [])"

section \<open>The sender\<close>

text \<open>Whoever made the sender has callbacks: those of the control plane lock, those of the window only queue a call.\<close>

datatype sender_owner = ByControl | ByWindow

definition owner_told :: "sender_owner \<Rightarrow> mutex trace" where
  "owner_told own = (case own of ByControl \<Rightarrow> within ControlLock [] | ByWindow \<Rightarrow> [])"

text \<open>What a new session gets: its connection, if it can be made, the tracks of the captures, and the audio sender with its sources.\<close>

record session_made =
  ms_wrtc :: "nat option"
  ms_videos :: "bool list"
  ms_audio :: nat
  ms_sources :: "(nat \<times> attach_result) list"

definition create_session_locks :: "nat \<Rightarrow> session_made \<Rightarrow> mutex trace" where
  "create_session_locks s m =
     (case ms_wrtc m of
        None \<Rightarrow> []
      | Some w \<Rightarrow>
          concat (map (tether_webrtc_add_video_track_locks w) (ms_videos m)) @
          concat (map (tether_audio_sender_attach_locks w (ms_audio m)) (ms_sources m)) @
          within (SenderLock s) [])"

definition on_admission_changed_locks :: "nat \<Rightarrow> sender_owner \<Rightarrow> session_made \<Rightarrow> tether_peer_state \<Rightarrow> mutex trace" where
  "on_admission_changed_locks s own m st =
     (case st of
        TETHER_PEER_ACCEPTED \<Rightarrow> create_session_locks s m
      | TETHER_PEER_REJECTED \<Rightarrow> owner_told own
      | TETHER_PEER_REVOKED \<Rightarrow> owner_told own
      | _ \<Rightarrow> [])"

definition session_state_locks :: "nat \<Rightarrow> sender_owner \<Rightarrow> session_made \<Rightarrow> bool \<Rightarrow> bool \<Rightarrow> mutex trace" where
  "session_state_locks s own m over found =
     owner_told own @
     (if over
      then set_peer_state_locks s (if found then Some (on_admission_changed_locks s own m TETHER_PEER_DISCONNECTED) else None)
      else [])"

text \<open>\<open>sound\<close>: the message has the parts that the case needs; \<open>joined\<close>: the state in which the waiting room took the peer, if it did.\<close>

definition on_signaling_event_locks ::
  "nat \<Rightarrow> sender_owner \<Rightarrow> session_made \<Rightarrow> bool \<Rightarrow> tether_peer_state option \<Rightarrow> tether_signaling_event \<Rightarrow> mutex trace" where
  "on_signaling_event_locks s own m sound joined evt =
     (if \<not> sound then []
      else case evt of
        TETHER_SIG_EVT_TOKEN_ISSUED \<Rightarrow> owner_told own
      | TETHER_SIG_EVT_REQUEST_PENDING \<Rightarrow>
          tether_admission_add_pending_locks s (map_option (on_admission_changed_locks s own m) joined) @ owner_told own
      | TETHER_SIG_EVT_SDP_ANSWER \<Rightarrow> within (SenderLock s) []
      | TETHER_SIG_EVT_ICE_CANDIDATE \<Rightarrow> within (SenderLock s) []
      | TETHER_SIG_EVT_PEER_GONE \<Rightarrow>
          set_peer_state_locks s (map_option (\<lambda>_. on_admission_changed_locks s own m TETHER_PEER_DISCONNECTED) joined) @ owner_told own
      | _ \<Rightarrow> [])"

definition capture_one_locks :: "nat \<Rightarrow> bool \<Rightarrow> mutex trace" where
  "capture_one_locks s mapped = (if mapped then within (FrameLock s) [] else [])"

definition graphics_render_cb_locks :: "nat \<Rightarrow> bool list \<Rightarrow> mutex trace" where
  "graphics_render_cb_locks s mapped = concat (map (capture_one_locks s) mapped)"

definition encode_capture_to_sessions_locks :: "nat \<Rightarrow> mutex trace" where
  "encode_capture_to_sessions_locks s = within (SenderLock s) []"

text \<open>The worker lets go of the frames while it encodes one; \<open>n\<close> captures are ready.\<close>

definition encoder_worker_locks :: "nat \<Rightarrow> nat \<Rightarrow> mutex trace" where
  "encoder_worker_locks s n =
     within (FrameLock s) [] @ concat (replicate n (encode_capture_to_sessions_locks s @ within (FrameLock s) []))"

text \<open>The audio sources of a session and its connection; either may be gone.\<close>

definition release_session_locks :: "nat list \<times> (nat \<times> nat list) option \<Rightarrow> mutex trace" where
  "release_session_locks = (\<lambda>(srcs, wrtc).
     tether_audio_sender_release_locks srcs @ (case wrtc of None \<Rightarrow> [] | Some w \<Rightarrow> tether_webrtc_release_locks w))"

definition tether_sender_create_locks :: "mutex trace" where
  "tether_sender_create_locks = within RenderCallbacks []"

definition tether_sender_release_locks :: "nat \<Rightarrow> bool \<Rightarrow> (nat list \<times> (nat \<times> nat list) option) list \<Rightarrow> mutex trace" where
  "tether_sender_release_locks s is_open sessions =
     within RenderCallbacks [] @
     within (FrameLock s) [] @
     within (EncoderThread s) [] @
     within (SenderLock s) (concat (map release_session_locks sessions)) @
     tether_signaling_disconnect_locks s is_open @
     within GraphicsContext []"

definition tether_sender_accept_locks :: "nat \<Rightarrow> sender_owner \<Rightarrow> session_made \<Rightarrow> bool \<Rightarrow> mutex trace" where
  "tether_sender_accept_locks s own m found =
     set_peer_state_locks s (if found then Some (on_admission_changed_locks s own m TETHER_PEER_ACCEPTED) else None)"

definition tether_sender_reject_locks :: "nat \<Rightarrow> sender_owner \<Rightarrow> session_made \<Rightarrow> bool \<Rightarrow> mutex trace" where
  "tether_sender_reject_locks s own m found =
     set_peer_state_locks s (if found then Some (on_admission_changed_locks s own m TETHER_PEER_REJECTED) else None)"

definition tether_sender_disconnect_peer_locks ::
  "nat \<Rightarrow> sender_owner \<Rightarrow> session_made \<Rightarrow> bool \<Rightarrow> (nat list \<times> (nat \<times> nat list) option) option \<Rightarrow> mutex trace" where
  "tether_sender_disconnect_peer_locks s own m found session =
     within (SenderLock s)
       (case session of
          None \<Rightarrow> []
        | Some (srcs, wrtc) \<Rightarrow>
            (case wrtc of None \<Rightarrow> [] | Some w \<Rightarrow> tether_webrtc_release_locks w) @ tether_audio_sender_release_locks srcs) @
     set_peer_state_locks s (if found then Some (on_admission_changed_locks s own m TETHER_PEER_DISCONNECTED) else None) @
     owner_told own"

definition tether_sender_revoke_token_locks :: "nat \<Rightarrow> mutex trace" where
  "tether_sender_revoke_token_locks s = tether_admission_revoke_all_locks s"

section \<open>The receiving side\<close>

text \<open>A session in memory: its address, whether its socket is open, its connection with the tracks.\<close>

type_synonym rx_parts = "nat \<times> bool \<times> nat \<times> nat list"

definition session_destroy_locks :: "rx_parts \<Rightarrow> mutex trace" where
  "session_destroy_locks = (\<lambda>(x, is_open, w). tether_signaling_disconnect_locks x is_open @ tether_webrtc_release_locks w)"

text \<open>Subscribers are copied under the lock and called after it; the only \<open>on_state\<close> there is, that of the source, writes to the log.\<close>

definition set_state_locks :: "nat \<Rightarrow> bool \<Rightarrow> mutex trace" where
  "set_state_locks x changed = (if changed then within (SessionLock x) [] else [])"

definition on_session_video_locks :: "nat \<times> bool \<Rightarrow> mutex trace" where
  "on_session_video_locks = (\<lambda>(src, dropped). if dropped then [] else within (DecoderLock src) [])"

definition on_session_audio_locks :: "nat \<times> bool \<Rightarrow> mutex trace" where
  "on_session_audio_locks = (\<lambda>(src, dropped). if dropped then [] else tether_audio_receiver_push_packet_locks src False)"

definition wrtc_video_cb_locks :: "nat \<Rightarrow> (nat \<times> bool) list \<Rightarrow> mutex trace" where
  "wrtc_video_cb_locks x subs = within (SessionLock x) [] @ concat (map on_session_video_locks subs)"

definition wrtc_audio_cb_locks :: "nat \<Rightarrow> (nat \<times> bool) list \<Rightarrow> mutex trace" where
  "wrtc_audio_cb_locks x subs = within (SessionLock x) [] @ concat (map on_session_audio_locks subs)"

definition wrtc_state_cb_locks :: "nat \<Rightarrow> bool \<Rightarrow> mutex trace" where
  "wrtc_state_cb_locks x changed = set_state_locks x changed"

definition signaling_event_locks :: "nat \<Rightarrow> tether_signaling_event \<Rightarrow> bool \<Rightarrow> mutex trace" where
  "signaling_event_locks x evt changed =
     (case evt of
        TETHER_SIG_EVT_REQUEST_ACCEPTED \<Rightarrow> set_state_locks x changed
      | TETHER_SIG_EVT_TOKEN_INVALID \<Rightarrow> set_state_locks x changed
      | TETHER_SIG_EVT_TOKEN_LOCKED_OUT \<Rightarrow> set_state_locks x changed
      | TETHER_SIG_EVT_SDP_OFFER \<Rightarrow> set_state_locks x changed
      | _ \<Rightarrow> [])"

text \<open>What becomes of a session that is to be made.\<close>

datatype creation = TokenRefused | NoConnection | NoClient "nat \<times> nat list" | Created nat

definition session_create_locked_locks :: "creation \<Rightarrow> mutex trace" where
  "session_create_locked_locks c =
     (case c of
        TokenRefused \<Rightarrow> []
      | NoConnection \<Rightarrow> []
      | NoClient w \<Rightarrow> tether_webrtc_release_locks w
      | Created x \<Rightarrow> set_state_locks x True)"

text \<open>Getting a session: none, one that is there, or a new one.\<close>

datatype lookup = NoToken | Uninitialised | Found | Absent creation

definition tether_receive_session_get_locks :: "lookup \<Rightarrow> mutex trace" where
  "tether_receive_session_get_locks l =
     (case l of
        NoToken \<Rightarrow> []
      | Uninitialised \<Rightarrow> within SessionsLock []
      | Found \<Rightarrow> within SessionsLock []
      | Absent c \<Rightarrow> within SessionsLock (session_create_locked_locks c))"

text \<open>\<open>doomed\<close>: the session, if this was the only reference to it.\<close>

definition tether_receive_session_release_locks :: "rx_parts option \<Rightarrow> mutex trace" where
  "tether_receive_session_release_locks doomed =
     within SessionsLock [] @ (case doomed of None \<Rightarrow> [] | Some x \<Rightarrow> session_destroy_locks x)"

definition tether_receive_session_subscribe_locks :: "nat \<Rightarrow> mutex trace" where
  "tether_receive_session_subscribe_locks x = within (SessionLock x) [] @ within SessionsLock []"

definition tether_receive_session_unsubscribe_locks :: "nat \<Rightarrow> rx_parts option \<Rightarrow> mutex trace" where
  "tether_receive_session_unsubscribe_locks x doomed = within (SessionLock x) [] @ tether_receive_session_release_locks doomed"

definition tether_receive_session_mids_locks :: "nat \<Rightarrow> mutex trace" where
  "tether_receive_session_mids_locks x = within (SessionLock x) []"

definition tether_receive_session_get_stats_locks :: "nat \<Rightarrow> mutex trace" where
  "tether_receive_session_get_stats_locks x = within (SessionLock x) []"

definition tether_receive_session_enumerate_locks :: "rx_parts option list \<Rightarrow> mutex trace" where
  "tether_receive_session_enumerate_locks ds =
     within SessionsLock [] @ concat (map tether_receive_session_release_locks ds)"

definition tether_receive_session_init_locks :: "mutex trace" where
  "tether_receive_session_init_locks = within SessionsLock []"

definition tether_receive_session_shutdown_locks :: "rx_parts list \<Rightarrow> mutex trace" where
  "tether_receive_session_shutdown_locks xs = within SessionsLock [] @ concat (map session_destroy_locks xs)"

text \<open>The source. \<open>old\<close>: the session of the subscription it has; \<open>token\<close>: what it gets for its new token.\<close>

definition attach_session_locks :: "(nat \<times> rx_parts option) option \<Rightarrow> (lookup \<times> nat option) option \<Rightarrow> mutex trace" where
  "attach_session_locks old token =
     (case old of None \<Rightarrow> [] | Some (x, doomed) \<Rightarrow> tether_receive_session_unsubscribe_locks x doomed) @
     (case token of
        None \<Rightarrow> []
      | Some (l, None) \<Rightarrow> tether_receive_session_get_locks l
      | Some (l, Some x) \<Rightarrow>
          tether_receive_session_get_locks l @
          tether_known_tokens_add_locks @
          tether_receive_session_subscribe_locks x @
          tether_receive_session_release_locks None)"

definition source_destroy_locks :: "nat \<Rightarrow> (nat \<times> rx_parts option) option \<Rightarrow> mutex trace" where
  "source_destroy_locks src old =
     (case old of None \<Rightarrow> [] | Some (x, doomed) \<Rightarrow> tether_receive_session_unsubscribe_locks x doomed) @ within (DecoderLock src) []"

section \<open>The command socket\<close>

text \<open>
  What a command does for the client \<open>k\<close>, up to and with its reply, which waits until the client takes it. The reply of
  \<open>sender-create\<close> goes out under the lock of the control plane.
\<close>

definition replied :: "nat \<Rightarrow> mutex trace \<Rightarrow> mutex trace" where
  "replied k t = t @ [Await (ClientTakes k)]"

definition cmd_sender_create_locks :: "nat \<Rightarrow> nat \<Rightarrow> mutex trace" where
  "cmd_sender_create_locks k polls =
     tether_sender_create_locks @ concat (replicate polls (within ControlLock [])) @ within ControlLock (replied k [])"

definition cmd_sender_status_locks :: "nat \<Rightarrow> mutex trace" where
  "cmd_sender_status_locks k = replied k (within ControlLock [])"

definition cmd_sender_accept_locks :: "nat \<Rightarrow> nat \<Rightarrow> session_made \<Rightarrow> bool \<Rightarrow> mutex trace" where
  "cmd_sender_accept_locks k s m found = replied k (tether_sender_accept_locks s ByControl m found)"

definition cmd_sender_reject_locks :: "nat \<Rightarrow> nat \<Rightarrow> session_made \<Rightarrow> bool \<Rightarrow> mutex trace" where
  "cmd_sender_reject_locks k s m found = replied k (tether_sender_reject_locks s ByControl m found)"

definition cmd_sender_disconnect_locks ::
  "nat \<Rightarrow> nat \<Rightarrow> session_made \<Rightarrow> bool \<Rightarrow> (nat list \<times> (nat \<times> nat list) option) option \<Rightarrow> mutex trace" where
  "cmd_sender_disconnect_locks k s m found session = replied k (tether_sender_disconnect_peer_locks s ByControl m found session)"

definition cmd_sender_revoke_locks :: "nat \<Rightarrow> nat \<Rightarrow> bool \<Rightarrow> (nat list \<times> (nat \<times> nat list) option) list \<Rightarrow> mutex trace" where
  "cmd_sender_revoke_locks k s is_open sessions =
     replied k (tether_sender_revoke_token_locks s @ tether_sender_release_locks s is_open sessions @ within ControlLock [])"

definition cmd_receive_register_locks :: "nat \<Rightarrow> lookup \<Rightarrow> mutex trace" where
  "cmd_receive_register_locks k l = replied k (tether_known_tokens_add_locks @ tether_receive_session_get_locks l)"

definition cmd_receive_status_locks :: "nat \<Rightarrow> rx_parts option list \<Rightarrow> mutex trace" where
  "cmd_receive_status_locks k ds = replied k (tether_receive_session_enumerate_locks ds)"

definition cmd_receive_forget_locks :: "nat \<Rightarrow> rx_parts option list \<Rightarrow> mutex trace" where
  "cmd_receive_forget_locks k ds =
     replied k (tether_known_tokens_remove_locks @ concat (map tether_receive_session_release_locks ds))"

text \<open>The body of the worker's loop for one client: it waits for the line, runs the command if there is one, and closes.\<close>

definition serve_locks :: "nat \<Rightarrow> mutex trace \<Rightarrow> mutex trace" where
  "serve_locks k t = within ControlThread (Await (ClientSpeaks k) # t)"

definition tether_control_shutdown_locks ::
  "(nat \<times> bool \<times> (nat list \<times> (nat \<times> nat list) option) list) option \<Rightarrow> rx_parts option list \<Rightarrow> mutex trace" where
  "tether_control_shutdown_locks sender ds =
     within ControlThread [] @
     (case sender of None \<Rightarrow> [] | Some (s, is_open, sessions) \<Rightarrow> tether_sender_release_locks s is_open sessions) @
     concat (map tether_receive_session_release_locks ds)"

section \<open>The threads\<close>

text \<open>
  What follows the line of the client \<open>k\<close>: a command; an error, which is answered at once, as is \<open>ping\<close>; or nothing, when
  the client hung up. The sender of the control plane has its callbacks.
\<close>

inductive command :: "nat \<Rightarrow> mutex trace \<Rightarrow> bool" for k :: nat where
  "command k (cmd_sender_create_locks k polls)"
| "command k (cmd_sender_status_locks k)"
| "command k (cmd_sender_accept_locks k s m found)"
| "command k (cmd_sender_reject_locks k s m found)"
| "command k (cmd_sender_disconnect_locks k s m found session)"
| "command k (cmd_sender_revoke_locks k s is_open sessions)"
| "command k (cmd_receive_register_locks k l)"
| "command k (cmd_receive_status_locks k ds)"
| "command k (cmd_receive_forget_locks k ds)"
| answered_at_once: "command k (replied k [])"
| nothing_read: "command k []"

text \<open>
  The calls that begin with no lock held. First those of the threads of libdatachannel, for the sender's socket and connections and for those of a
  receive session; then libobs, while it renders and hands out audio; then the two threads of the plugin; then the
  thread of the windows, in which a click is a series of such calls, and libobs with the source and its page.
\<close>

inductive plugin_call :: "mutex trace \<Rightarrow> bool" where
  sender_socket: "plugin_call (during (SocketCallbacks s) (handle_message_locks s issued (on_signaling_event_locks s own m sound joined evt)))"
| sender_describes: "plugin_call (during (PeerCallbacks w) (on_local_description_locks w fp []))"
| sender_connection: "plugin_call (during (PeerCallbacks w) (session_state_locks s own m over found))"
| receiver_socket: "plugin_call (during (SocketCallbacks x) (handle_message_locks x issued (signaling_event_locks x evt changed)))"
| receiver_connection: "plugin_call (during (PeerCallbacks w) (wrtc_state_cb_locks x changed))"
| receiver_track: "plugin_call (during (PeerCallbacks w) (on_track_locks w))"
| receiver_video: "plugin_call (during (TrackCallbacks tr) (on_track_message_locks w is_text (wrtc_video_cb_locks x subs)))"
| receiver_audio: "plugin_call (during (TrackCallbacks tr) (on_track_message_locks w is_text (wrtc_audio_cb_locks x subs)))"
| rendering: "plugin_call (within GraphicsContext (within RenderCallbacks (graphics_render_cb_locks s mapped)))"
| capturing: "plugin_call (within (AudioCallbacks src) (on_audio_capture_locks t muted))"
| encoding: "plugin_call (within (EncoderThread s) (encoder_worker_locks s n))"
| controlling: "command k t \<Longrightarrow> plugin_call (serve_locks k t)"
| window_create: "plugin_call tether_sender_create_locks"
| window_release: "plugin_call (tether_sender_release_locks s is_open sessions)"
| window_accept: "plugin_call (tether_sender_accept_locks s ByWindow m found)"
| window_reject: "plugin_call (tether_sender_reject_locks s ByWindow m found)"
| window_disconnect: "plugin_call (tether_sender_disconnect_peer_locks s ByWindow m found session)"
| window_revoke: "plugin_call (tether_sender_revoke_token_locks s)"
| get: "plugin_call (tether_receive_session_get_locks l)"
| release: "plugin_call (tether_receive_session_release_locks doomed)"
| stats: "plugin_call (tether_receive_session_get_stats_locks x)"
| mids: "plugin_call (tether_receive_session_mids_locks x)"
| attach: "plugin_call (attach_session_locks old token)"
| destroy: "plugin_call (source_destroy_locks src old)"
| tokens_init: "plugin_call tether_known_tokens_init_locks"
| tokens_shutdown: "plugin_call tether_known_tokens_shutdown_locks"
| tokens_get_name: "plugin_call tether_known_tokens_get_name_locks"
| tokens_add: "plugin_call tether_known_tokens_add_locks"
| tokens_remove: "plugin_call tether_known_tokens_remove_locks"
| tokens_set_name: "plugin_call tether_known_tokens_set_name_locks"
| tokens_snapshot: "plugin_call tether_known_tokens_snapshot_locks"
| control_shutdown: "plugin_call (tether_control_shutdown_locks sender ds)"
| session_init: "plugin_call tether_receive_session_init_locks"
| session_shutdown: "plugin_call (tether_receive_session_shutdown_locks xs)"

section \<open>Every call keeps the order\<close>

abbreviation keeps_order :: "nat \<Rightarrow> mutex trace \<Rightarrow> bool" where
  "keeps_order \<equiv> nested mutex_rank"

lemma nested_weaken: "nested rank k t \<Longrightarrow> n \<le> k \<Longrightarrow> nested rank n t"
proof (induction arbitrary: n rule: nested.induct)
  case (nested_append k a b)
  then show ?case by (auto intro: nested.intros)
qed (auto intro: nested.intros)

lemmas order_intros = nested_Nil nested_append nested_await nested_within nested_during nested_concat

named_theorems order_rules \<open>how deep the locks of each function may nest\<close>

lemma leaf_order [order_rules]:
  "n \<le> 5 \<Longrightarrow> keeps_order n tether_known_tokens_init_locks" "n \<le> 5 \<Longrightarrow> keeps_order n tether_known_tokens_shutdown_locks"
  "n \<le> 5 \<Longrightarrow> keeps_order n tether_known_tokens_get_name_locks"
  "n \<le> 5 \<Longrightarrow> keeps_order n tether_known_tokens_add_locks" "n \<le> 5 \<Longrightarrow> keeps_order n tether_known_tokens_remove_locks"
  "n \<le> 5 \<Longrightarrow> keeps_order n tether_known_tokens_set_name_locks" "n \<le> 5 \<Longrightarrow> keeps_order n tether_known_tokens_snapshot_locks"
  "n \<le> 5 \<Longrightarrow> keeps_order n (tether_admission_revoke_all_locks s)" "n \<le> 5 \<Longrightarrow> keeps_order n (on_track_locks w)"
  "n \<le> 5 \<Longrightarrow> keeps_order n (tether_webrtc_add_video_track_locks w b)" "n \<le> 5 \<Longrightarrow> keeps_order n (tether_webrtc_add_audio_track_locks w b)"
  "n \<le> 5 \<Longrightarrow> keeps_order n (on_audio_capture_locks t b)" "n \<le> 5 \<Longrightarrow> keeps_order n (tether_audio_receiver_push_packet_locks t b)"
  "n \<le> 5 \<Longrightarrow> keeps_order n (owner_told own)" "n \<le> 5 \<Longrightarrow> keeps_order n (set_state_locks x b)"
  "n \<le> 5 \<Longrightarrow> keeps_order n (tether_receive_session_mids_locks x)" "n \<le> 5 \<Longrightarrow> keeps_order n (tether_receive_session_get_stats_locks x)"
  by (auto simp: tether_known_tokens_init_locks_def tether_known_tokens_shutdown_locks_def tether_known_tokens_get_name_locks_def
      tether_known_tokens_add_locks_def tether_known_tokens_remove_locks_def tether_known_tokens_set_name_locks_def
      tether_known_tokens_snapshot_locks_def tether_admission_revoke_all_locks_def on_track_locks_def
      tether_webrtc_add_video_track_locks_def tether_webrtc_add_audio_track_locks_def on_audio_capture_locks_def
      tether_audio_receiver_push_packet_locks_def owner_told_def set_state_locks_def tether_receive_session_mids_locks_def
      tether_receive_session_get_stats_locks_def intro!: order_intros split: sender_owner.splits)

lemma webrtc_order [order_rules]:
  "n \<le> 4 \<Longrightarrow> keeps_order n (tether_webrtc_release_locks w)"
  "n \<le> 5 \<Longrightarrow> keeps_order n (on_local_description_locks v fp [])"
  "n \<le> 5 \<Longrightarrow> keeps_order n cb \<Longrightarrow> keeps_order n (on_track_message_locks v is_text cb)"
  by (cases w; auto simp: tether_webrtc_release_locks_def on_local_description_locks_def on_track_message_locks_def intro!: order_intros)+

lemma audio_order [order_rules]:
  "n \<le> 4 \<Longrightarrow> keeps_order n (tether_audio_sender_attach_locks w au a)"
  "n \<le> 4 \<Longrightarrow> keeps_order n (tether_audio_sender_detach_locks au found)"
  "n \<le> 4 \<Longrightarrow> keeps_order n (tether_audio_sender_release_locks srcs)"
  by (cases a; auto simp: tether_audio_sender_attach_locks_def tether_audio_sender_detach_locks_def tether_audio_sender_release_locks_def
      intro!: order_intros leaf_order split: option.splits)+

lemma signaling_order [order_rules]:
  "n \<le> 2 \<Longrightarrow> keeps_order n (tether_signaling_disconnect_locks s is_open)"
  "n \<le> 5 \<Longrightarrow> keeps_order n cb \<Longrightarrow> keeps_order n (handle_message_locks s issued cb)"
  by (auto simp: tether_signaling_disconnect_locks_def handle_message_locks_def intro!: order_intros)

lemma admission_order [order_rules]:
  "n \<le> 5 \<Longrightarrow> pred_option (keeps_order n) c \<Longrightarrow> keeps_order n (tether_admission_add_pending_locks s c)"
  "n \<le> 5 \<Longrightarrow> pred_option (keeps_order n) c \<Longrightarrow> keeps_order n (set_peer_state_locks s c)"
  by (auto simp: tether_admission_add_pending_locks_def set_peer_state_locks_def intro!: order_intros split: option.splits)

lemma create_session_order [order_rules]: "n \<le> 3 \<Longrightarrow> keeps_order n (create_session_locks s m)"
  by (auto simp: create_session_locks_def intro!: order_intros leaf_order audio_order split: option.splits)

lemma admission_changed_order [order_rules]:
  "n \<le> 3 \<Longrightarrow> keeps_order n (on_admission_changed_locks s own m st)"
  "n \<le> 5 \<Longrightarrow> keeps_order n (on_admission_changed_locks s own m TETHER_PEER_DISCONNECTED)"
  by (auto simp: on_admission_changed_locks_def intro!: order_intros leaf_order create_session_order split: tether_peer_state.splits)

lemma sender_event_order [order_rules]:
  "n \<le> 3 \<Longrightarrow> keeps_order n (on_signaling_event_locks s own m sound joined evt)"
  "n \<le> 5 \<Longrightarrow> keeps_order n (session_state_locks s own m over found)"
  by (auto simp: on_signaling_event_locks_def session_state_locks_def option.pred_map option.pred_set
      intro!: order_intros leaf_order admission_order admission_changed_order split: tether_signaling_event.splits)

lemma frame_order [order_rules]:
  "n \<le> 3 \<Longrightarrow> keeps_order n (graphics_render_cb_locks s mapped)"
  "n \<le> 3 \<Longrightarrow> keeps_order n (encoder_worker_locks s k)"
  by (auto simp: graphics_render_cb_locks_def capture_one_locks_def encoder_worker_locks_def encode_capture_to_sessions_locks_def
      intro!: order_intros)

lemma release_session_order [order_rules]: "n \<le> 4 \<Longrightarrow> keeps_order n (release_session_locks r)"
  by (cases r) (auto simp: release_session_locks_def intro!: order_intros audio_order webrtc_order split: option.splits)

lemma sender_order [order_rules]:
  "n \<le> 2 \<Longrightarrow> keeps_order n tether_sender_create_locks"
  "n \<le> 1 \<Longrightarrow> keeps_order n (tether_sender_release_locks s is_open sessions)"
  "n \<le> 3 \<Longrightarrow> keeps_order n (tether_sender_accept_locks s own m found)"
  "n \<le> 3 \<Longrightarrow> keeps_order n (tether_sender_reject_locks s own m found)"
  "n \<le> 3 \<Longrightarrow> keeps_order n (tether_sender_disconnect_peer_locks s own m found session)"
  "n \<le> 5 \<Longrightarrow> keeps_order n (tether_sender_revoke_token_locks s)"
  by (auto simp: tether_sender_create_locks_def tether_sender_release_locks_def tether_sender_accept_locks_def
      tether_sender_reject_locks_def tether_sender_disconnect_peer_locks_def tether_sender_revoke_token_locks_def
      intro!: order_intros leaf_order admission_order admission_changed_order release_session_order signaling_order webrtc_order audio_order
      split: option.splits)

lemma session_order [order_rules]:
  "n \<le> 2 \<Longrightarrow> keeps_order n (session_destroy_locks x)"
  "n \<le> 4 \<Longrightarrow> keeps_order n (session_create_locked_locks c)"
  by (cases x; auto simp: session_destroy_locks_def session_create_locked_locks_def
      intro!: order_intros signaling_order webrtc_order leaf_order split: creation.splits)+

lemma session_callback_order [order_rules]:
  "n \<le> 5 \<Longrightarrow> keeps_order n (wrtc_video_cb_locks x subs)"
  "n \<le> 5 \<Longrightarrow> keeps_order n (wrtc_audio_cb_locks x subs)"
  "n \<le> 5 \<Longrightarrow> keeps_order n (wrtc_state_cb_locks x changed)"
  "n \<le> 5 \<Longrightarrow> keeps_order n (signaling_event_locks x evt changed)"
  by (auto simp: wrtc_video_cb_locks_def wrtc_audio_cb_locks_def on_session_video_locks_def on_session_audio_locks_def
      wrtc_state_cb_locks_def signaling_event_locks_def intro!: order_intros leaf_order split: tether_signaling_event.splits)

lemma registry_order [order_rules]:
  "n \<le> 3 \<Longrightarrow> keeps_order n (tether_receive_session_get_locks l)"
  "n \<le> 2 \<Longrightarrow> keeps_order n (tether_receive_session_release_locks doomed)"
  "n \<le> 3 \<Longrightarrow> keeps_order n (tether_receive_session_subscribe_locks x)"
  "n \<le> 3 \<Longrightarrow> keeps_order n tether_receive_session_init_locks"
  "n \<le> 2 \<Longrightarrow> keeps_order n (tether_receive_session_shutdown_locks xs)"
  by (auto simp: tether_receive_session_get_locks_def tether_receive_session_release_locks_def tether_receive_session_subscribe_locks_def
      tether_receive_session_init_locks_def tether_receive_session_shutdown_locks_def intro!: order_intros session_order split: lookup.splits option.splits)

lemma registry_client_order [order_rules]:
  "n \<le> 2 \<Longrightarrow> keeps_order n (tether_receive_session_unsubscribe_locks x doomed)"
  "n \<le> 2 \<Longrightarrow> keeps_order n (tether_receive_session_enumerate_locks ds)"
  by (auto simp: tether_receive_session_unsubscribe_locks_def tether_receive_session_enumerate_locks_def
      intro!: order_intros registry_order)

lemma source_order [order_rules]:
  "n \<le> 2 \<Longrightarrow> keeps_order n (attach_session_locks old token)"
  "n \<le> 2 \<Longrightarrow> keeps_order n (source_destroy_locks src old)"
  by (auto simp: attach_session_locks_def source_destroy_locks_def
      intro!: order_intros registry_order registry_client_order leaf_order split: option.splits)

lemma replied_order: "keeps_order n t \<Longrightarrow> keeps_order n (replied k t)"
  by (simp add: replied_def order_intros)

lemma command_order: "command k t \<Longrightarrow> keeps_order 1 t"
  by (cases rule: command.cases)
     (auto simp: cmd_sender_create_locks_def cmd_sender_status_locks_def cmd_sender_accept_locks_def cmd_sender_reject_locks_def
      cmd_sender_disconnect_locks_def cmd_sender_revoke_locks_def cmd_receive_register_locks_def cmd_receive_status_locks_def
      cmd_receive_forget_locks_def intro!: replied_order order_intros leaf_order sender_order registry_order registry_client_order)

lemma serve_order:
  assumes "command k t"
  shows "keeps_order 0 (serve_locks k t)"
proof -
  have "keeps_order (Suc 0) ([Await (ClientSpeaks k)] @ t)" using command_order [OF assms] by (intro order_intros) simp
  then show ?thesis unfolding serve_locks_def by (intro nested_within) simp_all
qed

lemma control_shutdown_order: "keeps_order 0 (tether_control_shutdown_locks sender ds)"
  by (auto simp: tether_control_shutdown_locks_def intro!: order_intros sender_order registry_order split: option.splits)

lemma plugin_call_order: "plugin_call t \<Longrightarrow> keeps_order 0 t"
  by (cases rule: plugin_call.cases)
     (auto intro!: order_intros order_rules intro: nested_weaken serve_order control_shutdown_order)

interpretation plugin_threads: lock_order mutex_rank plugin_call
  by unfold_locales (rule plugin_call_order)

section \<open>Properties\<close>

text \<open>C8: No deadlock: any number of threads make any calls of the plugin, of libdatachannel and of libobs, in any order, while clients of
  the command socket speak and take their replies at any time; from whatever moment no new call begins any more, each thread
  takes only as many steps as it has operations left, and while some call is not done, some thread can go on, unless a thread
  waits for a client that does not speak or does not take its reply: the locks alone never hold anybody up. And when every client
  that is waited for has done its part, all calls under way run to their end and give back their locks. (A silent client does
  hold up the unload of the plugin for ever, see \<open>silent_client_hangs_shutdown\<close>.)\<close>

theorem nobody_waits_forever:
  assumes "thread_run ops ([], replicate n idle) = Some (evs, ts)" and "\<forall>i t. Begin i t \<in> set ops \<longrightarrow> plugin_call t"
    and "thread_run (map Act is) (evs, ts) = Some (evs', ts')"
  shows "length is \<le> work_left ts \<and>
    ((\<exists>i. act evs' i ts' \<noteq> None) \<or> ts' = replicate n idle \<or> (\<exists>th \<in> set ts'. awaits_outside evs' th)) \<and>
    ((\<forall>th \<in> set ts. awaited (fst th) \<subseteq> set evs) \<longrightarrow> (\<exists>i. act evs' i ts' \<noteq> None) \<or> ts' = replicate n idle)"
proof -
  note fin = plugin_threads.threads_finish [OF assms]
  have "(\<exists>i. act evs' i ts' \<noteq> None) \<or> ts' = replicate n idle" if "\<forall>th \<in> set ts. awaited (fst th) \<subseteq> set evs"
  proof -
    have "(\<Union>th \<in> set ts. awaited (fst th)) \<subseteq> set evs" using that by blast
    from fin(3) [OF this] fin(2) show ?thesis by blast
  qed
  with fin(1,2) show ?thesis by blast
qed

text \<open>The control plane releases its sender while an answer arrives on the sender's socket, and the call has to wait.\<close>

definition demo_made :: session_made where
  "demo_made = \<lparr>ms_wrtc = None, ms_videos = [], ms_audio = 0, ms_sources = []\<rparr>"

definition demo_calls :: "mutex thread_op list" where
  "demo_calls =
     [Begin 0 (serve_locks 0 (cmd_sender_revoke_locks 0 1 True [([3], Some (5, []))])),
      Begin 1 (during (SocketCallbacks 1) (handle_message_locks 1 False (on_signaling_event_locks 1 ByControl demo_made True None TETHER_SIG_EVT_SDP_ANSWER))),
      Happens (ClientSpeaks 0), Happens (ClientTakes 0), Act 1] @ replicate 11 (Act 0)"

lemma nobody_waits_forever_witness:
  "\<exists>evs ts. thread_run demo_calls ([], replicate 2 idle) = Some (evs, ts) \<and> act evs 1 ts = None \<and> holds_alone (ts ! 0) (SenderLock 1) \<and>
     work_left ts = 16 \<and> ((\<exists>i. act evs i ts \<noteq> None) \<or> ts = replicate 2 idle)"
proof -
  define ts where "ts = snd (the (thread_run demo_calls ([], replicate 2 idle)))"
  define evs where "evs = [ClientTakes 0, ClientSpeaks 0]"
  have run: "thread_run demo_calls ([], replicate 2 idle) = Some (evs, ts)" "act evs 1 ts = None" "holds_alone (ts ! 0) (SenderLock 1)"
    "work_left ts = 16"
    unfolding ts_def evs_def by code_simp+
  have "list_all (\<lambda>th. list_all (\<lambda>op. case op of Await e \<Rightarrow> e \<in> set evs | _ \<Rightarrow> True) (fst th)) ts"
    unfolding ts_def evs_def by code_simp
  then have ready: "\<forall>th \<in> set ts. awaited (fst th) \<subseteq> set evs" by (fastforce simp: list_all_iff awaited_def)
  have "command 0 (cmd_sender_revoke_locks 0 1 True [([3], Some (5, []))])" by (rule command.intros)
  then have "\<forall>i t. Begin i t \<in> set demo_calls \<longrightarrow> plugin_call t"
    by (auto simp: demo_calls_def intro: plugin_call.intros)
  moreover have "thread_run (map Act []) (evs, ts) = Some (evs, ts)" by simp
  ultimately have "(\<exists>i. act evs i ts \<noteq> None) \<or> ts = replicate 2 idle"
    using nobody_waits_forever [OF run(1)] ready by blast
  with run show ?thesis by blast
qed

text \<open>
  A client that connects and says nothing: the worker waits for it, and \<open>tether_control_shutdown\<close>, on the thread of the
  windows, for the worker, with nobody to go on. Only the client can end it.
\<close>

lemma silent_client_hangs_shutdown:
  assumes "command k t" and "k < k'"
  shows "\<exists>ts. thread_run [Begin 0 (serve_locks k t), Begin 1 (tether_control_shutdown_locks sender ds), Act 0, Happens (ClientSpeaks k')]
      ([], replicate 2 idle) = Some ([ClientSpeaks k'], ts) \<and>
    (\<forall>i. act [ClientSpeaks k'] i ts = None) \<and> busy (ts ! 1) \<and> awaits_outside [ClientSpeaks k'] (ts ! 0)"
  using assms
  by (auto simp: serve_locks_def tether_control_shutdown_locks_def within_def numeral_2_eq_2 idle_def act_def holds_def
      busy_def awaits_outside_def less_Suc_eq)

text \<open>
  A client that has a sender created and does not take the reply keeps the lock of the control plane, so the sender's callbacks,
  which run on the threads of libdatachannel, wait for it too.
\<close>

lemma deaf_client_holds_callbacks:
  "\<exists>ts. thread_run [Begin 0 (serve_locks 0 (cmd_sender_create_locks 0 0)), Happens (ClientSpeaks 0), Act 0, Act 0, Act 0, Act 0, Act 0,
      Begin 1 (during (PeerCallbacks 5) (session_state_locks 1 ByControl demo_made False False)), Act 1]
      ([], replicate 2 idle) = Some ([ClientSpeaks 0], ts) \<and>
    act [ClientSpeaks 0] 0 ts = None \<and> act [ClientSpeaks 0] 1 ts = None \<and> holds_alone (ts ! 0) ControlLock \<and> busy (ts ! 1)"
proof -
  define ts where "ts = snd (the (thread_run [Begin 0 (serve_locks 0 (cmd_sender_create_locks 0 0)), Happens (ClientSpeaks 0), Act 0, Act 0, Act 0, Act 0, Act 0,
      Begin 1 (during (PeerCallbacks 5) (session_state_locks 1 ByControl demo_made False False)), Act 1]
      ([], replicate 2 idle)))"
  show ?thesis by (rule exI [of _ ts]) (unfold ts_def, code_simp)
qed

end
