(* ===== verification/Spec2Isabelle.thy ===== *)
theory Spec2Isabelle
  imports Token Known_Tokens Admission Signaling Webrtc Receive_Session Audio Capture Sender Source Control Receive_Dialog Sender_Dialog Plugin Json Room Network Windows Peer_Buttons Uninvited Locks
begin

text \<open>
  A verification library for Tether, a plugin of OBS Studio that streams OBS sources from one
  computer to another over WebRTC, and its signaling server. Paths below are relative to \<open>src/src/\<close>, those of
  the server to \<open>src/backend/src/\<close>.

  The program. A \<^emph>\<open>sender\<close> registers with a signaling server, gets a share token and shows it to its
  host. A \<^emph>\<open>receiver\<close> that knows the token asks to be admitted; the sender's \<^emph>\<open>waiting room\<close> keeps the
  request, limits how often one may knock, and lets in whom the host accepts or whose fingerprint is
  pinned. For an accepted receiver the sender makes a peer connection, offers one track per video and
  audio source, and a worker thread encodes every captured frame once per receiver. On the other
  side a process-wide registry holds one counted \<^emph>\<open>receive session\<close> per token; OBS sources subscribe to
  sessions and decode what they forward. Two dialogs, opened from a hub, and a command socket drive both sides.
  The server has a \<^emph>\<open>room\<close> per token, which admits receivers to the sender's attention and relays their messages.

  How code is represented. A struct is a record, an enum a datatype, an operation one definition with
  the guards and early returns of the code. A C string is a list of characters, a pointer the code tests
  is an option, an integer is a word of its width wherever it can wrap around, and otherwise an \<^typ>\<open>int\<close>.
  A module's state is under a mutex and an operation is one critical section, so concurrency is the order
  of operations (\<open>Locks\<close> looks into the critical sections); where the code calls back after it let go of the lock, the call in flight is part of
  the state (\<open>rw_calls\<close> in \<open>Receive_Session\<close>, \<open>sw_inflight\<close> in \<open>Source\<close>), and what frees its target in between makes it fail. Memory is a map from addresses; following a freed pointer has no result
  (\<^const>\<open>None\<close>), so that a theorem that says an execution has a result says that nothing dangles. What
  libdatachannel, FFmpeg, Opus, libobs, Qt and the system return is an argument of the operation that
  calls them, and the calls themselves are outputs in program order. Where a call of the plugin may wait for ever, which is only
  for a client of its command socket, not returning is a value (\<open>NeverReturns\<close>).

  The theories, in the order of their dependencies:

  \<^item> \<open>Tether_Prelude\<close>: types, the C string functions the plugin uses, printing of numbers, and the three
    loops over a dynamic array (find, change, erase the first match).

  \<^item> \<open>Interfaces\<close>: the contracts between the components as locales: machines with an invariant
    (\<open>guarded_machine\<close>, \<open>invariant_machine\<close>, \<open>framed_machine\<close>, \<open>growing_machine\<close>), the list of tokens as a
    finite map (\<open>token_book\<close>), text that survives being embedded in a JSON string (\<open>embedded_text\<close>), the
    registry of counted objects (\<open>counted_registry\<close>) and the same with subscribers that are called back
    (\<open>subscribed_registry\<close>); \<open>lock_order\<close>, for threads that take locks by rank, is in \<open>Locks\<close>. Each is interpreted on the model's operations in the theory that provides it.

  \<^item> \<open>Token\<close> (\<open>token.c\<close>): share tokens. What is generated is well-formed, the well-formedness scan accepts
    exactly the token language, and the paste normaliser recovers every token from its usual spellings.

  \<^item> \<open>Known_Tokens\<close> (\<open>known-tokens.c\<close>): the list of tokens and its file. It implements a finite map from
    tokens to names and survives a restart.

  \<^item> \<open>Admission\<close> (\<open>admission.c\<close>): the waiting room. Invariants of the list of peers, the explanation of
    every accepted peer by a decision or a pin, and the rate limit with its lockout on the 64-bit clock.

  \<^item> \<open>Signaling\<close> (\<open>signaling.c\<close>): the WebSocket client. The reader finds the members of flat JSON objects, the
    dispatch is a table, and the socket and its callback are used in the right order.

  \<^item> \<open>Webrtc\<close> (\<open>webrtc.c\<close>): one peer connection with its tracks. Track ids never change or repeat.

  \<^item> \<open>Receive_Session\<close> (\<open>receive-session.c\<close>): sessions and their registry. Reference counts are exactly the
    references held, and no pointer that a network thread has copied dangles while nobody unsubscribes before it is followed; at most one offer is applied to a session, an offer passes the wire unchanged.

  \<^item> \<open>Audio\<close> (\<open>audio.c\<close>): Opus tracks. The 200 ms buffer loses no sample and cuts the stream into blocks of
    20 ms; references to OBS sources are balanced.

  \<^item> \<open>Capture\<close> and \<open>Sender\<close> (\<open>sender.c\<close>): the encoders and the one-frame mailbox between the graphics
    thread and the worker; then the sender with its sessions. Encoder objects are freed once, a session exists
    only for a peer that was let in, and a ready frame reaches every session.

  \<^item> \<open>Source\<close> (\<open>source.c\<close>, \<open>properties.c\<close>): the OBS source, its decoder, its subscription and its property page,
    and the machine of several sources and the network with callbacks in flight. The sessions are exactly
    those the attached sources need; a frame reaches every attached source once, and the sources that show its stream put its pictures out.

  \<^item> \<open>Control\<close> (\<open>control.c\<close>): the command socket. Every line is answered by one reply, replies are written
    completely, lists of sources whose names hold no separator are read back, references to sessions stay accounted for. The worker's run
    has the lines of clients and, between them, the events of the sender (\<open>SenderActs\<close>); the shutdown joins the worker wherever it is
    (\<open>worker_place\<close>, \<open>join_worker\<close>). Of the events during the wait of \<open>sender-create\<close> it is supposed that none goes through a NULL
    scaler (\<open>calm\<close>, on the sender that the command makes), which \<open>sender.c\<close> does not prevent.

  \<^item> \<open>Receive_Dialog\<close> (\<open>receive-dialog.cpp\<close>) and \<open>Sender_Dialog\<close> (\<open>sender-dialog.cpp\<close>): the logic of the two
    windows. The first holds one session per listed token; the second shows what the command socket shows.

  \<^item> \<open>Peer_Buttons\<close> (\<open>sender-dialog.cpp\<close>): the current row of the list of peers, the three buttons that act on it, and the
    copy button. The buttons always fit the peer of the current row.

  \<^item> \<open>Windows\<close> (\<open>hub-dialog.cpp\<close> and the opening and closing in the two others): the windows as objects that are
    closed first and deleted later. At most one window of each kind is open, and its pointer points to it.

  \<^item> \<open>Plugin\<close> (\<open>plugin-main.c\<close> and the closing of the dialogs): load, unload, and the whole receiving side as
    one machine over \<open>Control\<close>, \<open>Receive_Dialog\<close>, \<open>Sender_Dialog\<close> and \<open>Source\<close>: every session in memory has a
    holder and every holder a session. Unloading returns unless the worker of the command socket waits for a client.

  \<^item> \<open>Json\<close>: JavaScript's objects with flat members, \<open>JSON.stringify\<close> and \<open>JSON.parse\<close>, and how they fit the plugin's
    printers: the server reads exactly the members that the plugin means. \<open>Room\<close> (\<open>room.ts\<close>, \<open>index.ts\<close>): the server's room with its handlers and its storage,
    and the edge that routes to it. No SDP or ICE message reaches a receiver unless some sender accepted one
    of the two; the edge's tokens are the plugin's.

  \<^item> \<open>Network\<close>: a sender, receive sessions and the rooms, joined by sockets that are queues of texts. The theorems
    run the three programs together: the handshake from the registration to the exchanged descriptions, what one
    acceptance does for later receivers, and what a rejected receiver sees.

  \<^item> \<open>Uninvited\<close>: the same network over all its runs. What is under way on a socket belongs to a class of objects that its end
    may print; the invariant takes the decision of the host from the waiting room over the socket, the room and the next socket
    to the receive session, and shows that no other way leads there.

  \<^item> \<open>Locks\<close>: the locks that every function of the plugin takes, path by path, and the threads of libdatachannel, libobs and
    the plugin that call them. One order of the locks is kept by all of them, so that no two threads wait for each other; what the
    worker of the command socket waits for, a client that speaks or takes its reply, are events of the outside (\<open>Await\<close>, \<open>Happens\<close>),
    and everything runs to its end once they have come.

  How the proofs are built. A component's operations preserve its invariant, one lemma each; the machine's
  locale lifts this to executions. \<open>Source\<close>, \<open>Control\<close> and \<open>Receive_Dialog\<close> use the registry only through the
  facts of \<open>subscribed_registry\<close> (the interpretations \<open>registry\<close> and \<open>sessions\<close>): what a client gets, drops or
  subscribes changes the accounts by exactly that. \<open>Plugin\<close> adds the accounts of the three clients up.

  Bounds. No definition has fuel: loops are structural recursions over the list they walk, over the
  answers of the system (\<open>read\<close>, \<open>write\<close>, \<open>accept\<close>), or over the 50 polls of 100 ms that \<open>sender-create\<close> waits
  for a token; the reader of JSON terminates because every member takes characters from its text. The sizes of the code's buffers are kept: 64, 128 and 160 bytes for ids, names and
  fingerprints, 64 for the token and 2047 for a line of the command socket, 128 and 108 for its path, 8
  planes per frame. The dialog's test \<open>dt > 0.1\<close> is on whole nanoseconds.

  Not modelled: the widgets of Qt, their layout and texts; log messages; the hooks that register the source with
  OBS and the menu entry; the empty Windows branch of \<open>control.c\<close> and the Windows random source. Of JSON: nested members,
  numbers that are not integers, and surrogate pairs in escapes, which no message of the program has; the model of
  \<open>JSON.parse\<close> refuses them. Upper case on the server is that of ASCII. Sockets lose and reorder nothing, and a
  room handles one event at a time. Data races on memory that the code reads without its lock are outside the
  model, as operations are atomic. What is left of the sources beyond this is declarations, the forwarding of Qt signals to
  slots, and functions that only free an array of strings. \<open>Locks\<close> leaves out the locks inside libdatachannel, FFmpeg and Qt, and
  the condition variable on which the encoder thread waits for a frame without holding a lock.
\<close>

end
